(* ===== verification/Operation_Gate.thy ===== *)
theory Operation_Gate
  imports Prelude
begin

text \<open>
  The process-wide mutation gate (\<^verbatim>\<open>backend/operation_gate.py\<close>): one lease at a time
  serialises every write to the shared database and snapshots. Modelled here: the active
  operation record and its public status, \<open>acquire\<close>, \<open>release\<close>, the lease's
  idempotent \<open>release\<close>, \<open>hold\<close>, the accepting switch, the advisory progress table
  and the stall watcher's \<open>check_once\<close>. Threads are modelled by a step relation in
  which a lease is given back in the code's two separately locked steps.

  Clocks, thread identity and fresh UUIDs are arguments (\<open>call_env\<close>). Clock readings
  and durations are exact rationals.
\<close>

section \<open>State\<close>

record active_operation =
  op_id :: string
  op_kind :: string
  op_started_at :: string
  op_owner_thread_id :: int
  op_owner_thread_name :: string
  op_started_monotonic :: rat

record call_env =
  env_now_iso :: string
  env_monotonic :: rat
  env_thread_ident :: "int option"
  env_thread_name :: string
  env_live_threads :: "int list"
  env_uuid :: string

record gate =
  gate_active :: "active_operation option"
  gate_accepting :: bool
  gate_progress :: "(string \<times> (string \<times> rat)) list"

record lease =
  lease_operation :: active_operation
  lease_released :: bool

text \<open>\<open>OperationConflictError\<close>, with the parts its message is made of.\<close>

datatype gate_error =
    ShuttingDown
  | AnotherActive string string rat bool  \<comment> \<open>type, started at, elapsed, owner alive\<close>

definition new_gate :: gate where
  "new_gate = \<lparr>gate_active = None, gate_accepting = True, gate_progress = []\<rparr>"

section \<open>Operations\<close>

definition safe_operation_type :: "string \<Rightarrow> string" where
  "safe_operation_type value =
     (let text = (if value = [] then ''operation'' else value);
          normalized = join ''-'' (split_ws (str_lower (strip text)));
          safe = filter (\<lambda>c. is_alnum c \<or> c = CHR ''-'' \<or> c = CHR ''_'') normalized
      in take 80 (if safe = [] then ''operation'' else safe))"

definition report_progress :: "call_env \<Rightarrow> string \<Rightarrow> gate \<Rightarrow> gate" where
  "report_progress env oid g =
     g\<lparr>gate_progress := AList.update oid (env_now_iso env, env_monotonic env) (gate_progress g)\<rparr>"

definition elapsed_seconds :: "call_env \<Rightarrow> active_operation \<Rightarrow> rat" where
  "elapsed_seconds env a =
     (if op_started_monotonic a = 0 then 0
      else py_round_to 1 (env_monotonic env - op_started_monotonic a))"

definition owner_alive :: "call_env \<Rightarrow> active_operation \<Rightarrow> bool" where
  "owner_alive env a =
     (if op_owner_thread_id a = 0 then True
      else list_ex (\<lambda>t. t = op_owner_thread_id a) (env_live_threads env))"

record gate_status =
  status_id :: string
  status_type :: string
  status_started_at :: string
  status_owner_thread_id :: int
  status_owner_thread_name :: string
  status_owner_alive :: bool
  status_elapsed_seconds :: rat
  status_progress :: "(string \<times> rat) option"  \<comment> \<open>lastProgressAt, secondsSinceProgress\<close>

definition public_status :: "call_env \<Rightarrow> gate \<Rightarrow> active_operation \<Rightarrow> gate_status" where
  "public_status env g a =
     \<lparr>status_id = op_id a,
      status_type = op_kind a,
      status_started_at = op_started_at a,
      status_owner_thread_id = op_owner_thread_id a,
      status_owner_thread_name = op_owner_thread_name a,
      status_owner_alive = owner_alive env a,
      status_elapsed_seconds = elapsed_seconds env a,
      status_progress =
        map_option (\<lambda>(stamp, t). (stamp, py_round_to 1 (env_monotonic env - t)))
          (map_of (gate_progress g) (op_id a))\<rparr>"

definition gate_acquire ::
  "call_env \<Rightarrow> string \<Rightarrow> string option \<Rightarrow> gate \<Rightarrow> gate_error + gate \<times> lease" where
  "gate_acquire env op_type oid g =
     (let safe_type = safe_operation_type op_type in
      if \<not> gate_accepting g then Inl ShuttingDown
      else case gate_active g of
        Some active \<Rightarrow>
          Inl (AnotherActive (op_kind active) (op_started_at active)
                 (elapsed_seconds env active) (owner_alive env active))
      | None \<Rightarrow>
          (let operation =
             \<lparr>op_id = (case oid of
                 Some i \<Rightarrow> if i = [] then ''operation-'' @ env_uuid env else i
               | None \<Rightarrow> ''operation-'' @ env_uuid env),
              op_kind = safe_type,
              op_started_at = env_now_iso env,
              op_owner_thread_id = (case env_thread_ident env of Some i \<Rightarrow> i | None \<Rightarrow> 0),
              op_owner_thread_name = take 60 (env_thread_name env),
              op_started_monotonic = env_monotonic env\<rparr>
           in Inr (g\<lparr>gate_active := Some operation\<rparr>,
                   \<lparr>lease_operation = operation, lease_released = False\<rparr>)))"

definition gate_release :: "string \<Rightarrow> gate \<Rightarrow> gate" where
  "gate_release oid g =
     g\<lparr>gate_active := (case gate_active g of
           Some a \<Rightarrow> if op_id a = oid then None else Some a
         | None \<Rightarrow> None),
       gate_progress := AList.delete oid (gate_progress g)\<rparr>"

text \<open>\<open>MutationLease.release\<close>: the flag makes a second call a no-op.\<close>

definition lease_release :: "lease \<Rightarrow> gate \<Rightarrow> lease \<times> gate" where
  "lease_release l g =
     (if lease_released l then (l, g)
      else (l\<lparr>lease_released := True\<rparr>, gate_release (op_id (lease_operation l)) g))"

definition active_status :: "call_env \<Rightarrow> gate \<Rightarrow> gate_status option" where
  "active_status env g = map_option (public_status env g) (gate_active g)"

definition gate_diagnostics :: "call_env \<Rightarrow> gate \<Rightarrow> bool \<times> gate_status option" where
  "gate_diagnostics env g =
     (gate_accepting g, map_option (public_status env g) (gate_active g))"

definition stop_accepting :: "gate \<Rightarrow> gate" where
  "stop_accepting g = g\<lparr>gate_accepting := False\<rparr>"

definition start_accepting :: "gate \<Rightarrow> gate" where
  "start_accepting g = g\<lparr>gate_accepting := True\<rparr>"

text \<open>
  \<open>hold\<close>: the body runs between acquire and release, and the lease is released whether
  the body returns (\<open>Inr\<close>) or raises (\<open>Inl\<close>).
\<close>

definition gate_hold ::
  "call_env \<Rightarrow> string \<Rightarrow> string option \<Rightarrow>
   (active_operation \<Rightarrow> gate \<Rightarrow> ('x + 'r) \<times> gate) \<Rightarrow> gate \<Rightarrow>
   gate_error + (('x + 'r) \<times> gate)" where
  "gate_hold env op_type oid body g =
     (case gate_acquire env op_type oid g of
        Inl e \<Rightarrow> Inl e
      | Inr (g1, l) \<Rightarrow>
          (case body (lease_operation l) g1 of
             (outcome, g2) \<Rightarrow> Inr (outcome, snd (lease_release l g2))))"

section \<open>The stall watcher\<close>

record watcher =
  warn_after_seconds :: rat
  warned :: "string set"

text \<open>\<open>check_once\<close> returns the status it saw, the new watcher and the ids it logged about.\<close>

definition check_once ::
  "call_env \<Rightarrow> gate \<Rightarrow> watcher \<Rightarrow> gate_status option \<times> watcher \<times> string list" where
  "check_once env g w =
     (case active_status env g of
        None \<Rightarrow> (None, w\<lparr>warned := {}\<rparr>, [])
      | Some st \<Rightarrow>
          (let elapsed = status_elapsed_seconds st; oid = status_id st in
           if elapsed < warn_after_seconds w then (Some st, w, [])
           else if oid \<notin> warned w
             then (Some st, w\<lparr>warned := insert oid (warned w)\<rparr>, [oid])
           else (Some st, w, [])))"

fun watch :: "(call_env \<times> gate) list \<Rightarrow> watcher \<Rightarrow> watcher \<times> string list" where
  "watch [] w = (w, [])"
| "watch ((env, g) # obs) w =
     (case check_once env g w of
        (_, w', logs) \<Rightarrow> (case watch obs w' of (w'', logs') \<Rightarrow> (w'', logs @ logs')))"

section \<open>Sequential laws\<close>

lemma gate_acquire_Inr_iff [res_simps]:
  "(\<exists>g' l. gate_acquire env ty oid g = Inr (g', l)) \<longleftrightarrow> gate_accepting g \<and> gate_active g = None"
  by (auto simp: gate_acquire_def Let_def split: option.splits)

lemma gate_acquireD:
  assumes "gate_acquire env ty oid g = Inr (g', l)"
  shows "gate_accepting g" "gate_active g = None" "lease_released l = False"
    "g' = g\<lparr>gate_active := Some (lease_operation l)\<rparr>"
    "op_kind (lease_operation l) = safe_operation_type ty"
    "\<And>i. oid = Some i \<Longrightarrow> i \<noteq> [] \<Longrightarrow> op_id (lease_operation l) = i"
  using assms by (auto simp: gate_acquire_def Let_def split: if_splits option.splits)

lemma gate_release_active:
  "gate_active (gate_release oid g) =
     (case gate_active g of Some a \<Rightarrow> if op_id a = oid then None else Some a | None \<Rightarrow> None)"
  by (simp add: gate_release_def)

lemma gate_release_accepting [simp]: "gate_accepting (gate_release oid g) = gate_accepting g"
  by (simp add: gate_release_def)

text \<open>
  The contract of a mutation gate for the components that write under it: whether work can
  start depends only on the switch and on the holder, a granted lease is the holder, and
  only giving back the holder's own lease frees the gate.
\<close>

locale mutation_gate =
  fixes acq :: "'r \<Rightarrow> 'g \<Rightarrow> 'e + 'g \<times> 'l"
    and rel :: "'l \<Rightarrow> 'g \<Rightarrow> 'g"
    and holder :: "'g \<Rightarrow> 'o option"
    and accepting :: "'g \<Rightarrow> bool"
    and lease_of :: "'l \<Rightarrow> 'o"
    and live :: "'l \<Rightarrow> bool"
  assumes acq_iff: "(\<exists>g' l. acq r g = Inr (g', l)) \<longleftrightarrow> accepting g \<and> holder g = None"
    and acq_holder: "acq r g = Inr (g', l) \<Longrightarrow> holder g' = Some (lease_of l)"
    and acq_live: "acq r g = Inr (g', l) \<Longrightarrow> live l"
    and acq_accepting: "acq r g = Inr (g', l) \<Longrightarrow> accepting g' = accepting g"
    and rel_own: "live l \<Longrightarrow> holder g = Some (lease_of l) \<Longrightarrow> holder (rel l g) = None"
    and rel_other: "holder g \<noteq> Some (lease_of l) \<Longrightarrow> holder (rel l g) = holder g"
    and rel_accepting: "accepting (rel l g) = accepting g"
begin

lemma acq_error_iff: "(\<exists>e. acq r g = Inl e) \<longleftrightarrow> \<not> accepting g \<or> holder g \<noteq> None"
  using acq_iff [of r g] by (cases "acq r g") auto

lemma second_acquire_fails: "acq r g = Inr (g', l) \<Longrightarrow> \<exists>e. acq r' g' = Inl e"
  by (simp add: acq_error_iff acq_holder)

lemma reacquire:
  assumes "acq r g = Inr (g', l)"
  shows "\<exists>g'' l'. acq r' (rel l g') = Inr (g'', l')"
proof -
  from assms have "accepting g" using acq_iff by blast
  with assms show ?thesis
    by (simp add: acq_iff rel_own acq_live acq_holder rel_accepting acq_accepting)
qed

lemma body_keeps_lease:
  assumes "acq r g = Inr (g1, l)" and "holder g2 = holder g1"
  shows "holder (rel l g2) = None"
  using assms by (simp add: rel_own acq_live acq_holder)

end

definition lease_give_back :: "lease \<Rightarrow> gate \<Rightarrow> gate" where
  "lease_give_back l g = snd (lease_release l g)"

interpretation global_gate: mutation_gate
  "\<lambda>(env, ty, oid). gate_acquire env ty oid" lease_give_back
  "\<lambda>g. map_option op_id (gate_active g)" gate_accepting
  "\<lambda>l. op_id (lease_operation l)" "\<lambda>l. \<not> lease_released l"
proof (unfold_locales, goal_cases)
  case (1 r g) then show ?case by (cases r) (simp add: res_simps)
next
  case (2 r g g' l) then show ?case by (cases r) (auto dest: gate_acquireD)
next
  case (3 r g g' l) then show ?case by (cases r) (auto dest: gate_acquireD)
next
  case (4 r g g' l) then show ?case
    by (cases r) (auto simp: gate_acquire_def Let_def split: if_splits option.splits)
next
  case (5 l g) then show ?case
    by (auto simp: lease_give_back_def lease_release_def gate_release_active)
next
  case (6 g l) then show ?case
    by (auto simp: lease_give_back_def lease_release_def gate_release_active split: option.splits)
next
  case (7 l g) then show ?case
    by (simp add: lease_give_back_def lease_release_def)
qed

lemma lease_release_idem:
  "lease_release (fst (lease_release l g)) g' = (fst (lease_release l g), g')"
  by (simp add: lease_release_def)

section \<open>Concurrent use\<close>

text \<open>
  Threads share one gate. \<open>MutationLease.release\<close> sets the lease's flag under the
  lease's lock and clears the gate afterwards under the gate's lock, so a lease is Held,
  then Releasing (flag set, gate not yet cleared), then Released.
\<close>

datatype lease_phase = Held | Releasing | Released

record gate_system =
  sys_gate :: gate
  sys_leases :: "(lease_phase \<times> active_operation) list"

definition initial_system :: gate_system where
  "initial_system = \<lparr>sys_gate = new_gate, sys_leases = []\<rparr>"

inductive gate_step :: "gate_system \<Rightarrow> gate_system \<Rightarrow> bool" where
  step_acquire: "gate_acquire env ty oid (sys_gate s) = Inr (g', l) \<Longrightarrow>
     gate_step s (s\<lparr>sys_gate := g', sys_leases := sys_leases s @ [(Held, lease_operation l)]\<rparr>)"
| step_mark: "i < length (sys_leases s) \<Longrightarrow> sys_leases s ! i = (Held, a) \<Longrightarrow>
     gate_step s (s\<lparr>sys_leases := (sys_leases s)[i := (Releasing, a)]\<rparr>)"
| step_clear: "i < length (sys_leases s) \<Longrightarrow> sys_leases s ! i = (Releasing, a) \<Longrightarrow>
     gate_step s (s\<lparr>sys_gate := gate_release (op_id a) (sys_gate s),
                    sys_leases := (sys_leases s)[i := (Released, a)]\<rparr>)"
| step_progress: "gate_step s (s\<lparr>sys_gate := report_progress env oid (sys_gate s)\<rparr>)"
| step_stop: "gate_step s (s\<lparr>sys_gate := stop_accepting (sys_gate s)\<rparr>)"
| step_start: "gate_step s (s\<lparr>sys_gate := start_accepting (sys_gate s)\<rparr>)"

inductive gate_reachable :: "gate_system \<Rightarrow> bool" where
  reach_init: "gate_reachable initial_system"
| reach_step: "gate_reachable s \<Longrightarrow> gate_step s t \<Longrightarrow> gate_reachable t"

definition outstanding :: "gate_system \<Rightarrow> nat \<Rightarrow> bool" where
  "outstanding s i \<longleftrightarrow> i < length (sys_leases s) \<and> fst (sys_leases s ! i) \<noteq> Released"

definition gate_inv :: "gate_system \<Rightarrow> bool" where
  "gate_inv s \<longleftrightarrow>
     (\<forall>i. outstanding s i \<longrightarrow> gate_active (sys_gate s) = Some (snd (sys_leases s ! i))) \<and>
     (\<forall>i j. outstanding s i \<longrightarrow> outstanding s j \<longrightarrow> i = j) \<and>
     (gate_active (sys_gate s) \<noteq> None \<longrightarrow> (\<exists>i. outstanding s i))"

inductive_cases gate_stepE: "gate_step s t"

lemma gate_inv_initial: "gate_inv initial_system"
  by (simp add: gate_inv_def initial_system_def outstanding_def new_gate_def)

lemma gate_inv_idle: "gate_inv s \<Longrightarrow> gate_active (sys_gate s) = None \<Longrightarrow> \<not> outstanding s i"
  by (auto simp: gate_inv_def)

lemma gate_inv_acquire:
  assumes inv: "gate_inv s" and acq: "gate_acquire env ty oid (sys_gate s) = Inr (g', l)"
  shows "gate_inv (s\<lparr>sys_gate := g', sys_leases := sys_leases s @ [(Held, lease_operation l)]\<rparr>)"
proof -
  let ?t = "s\<lparr>sys_gate := g', sys_leases := sys_leases s @ [(Held, lease_operation l)]\<rparr>"
  have none: "\<not> outstanding s i" for i
    using gate_inv_idle [OF inv] gate_acquireD(2) [OF acq] by simp
  then have "outstanding ?t i \<longleftrightarrow> i = length (sys_leases s)" for i
    using none [of i] by (auto simp: outstanding_def nth_append less_Suc_eq)
  moreover have "gate_active g' = Some (lease_operation l)"
    using gate_acquireD(4) [OF acq] by simp
  ultimately show ?thesis by (simp add: gate_inv_def)
qed

lemma gate_inv_same_gate:
  assumes "gate_inv s" and "gate_active (sys_gate t) = gate_active (sys_gate s)"
    and "\<And>i. outstanding t i = outstanding s i"
    and "\<And>i. outstanding s i \<Longrightarrow> snd (sys_leases t ! i) = snd (sys_leases s ! i)"
  shows "gate_inv t"
  using assms by (simp add: gate_inv_def)

lemma gate_inv_clear:
  assumes inv: "gate_inv s" and i: "i < length (sys_leases s)"
    and rel: "sys_leases s ! i = (Releasing, a)"
  shows "gate_inv (s\<lparr>sys_gate := gate_release (op_id a) (sys_gate s),
                    sys_leases := (sys_leases s)[i := (Released, a)]\<rparr>)" (is "gate_inv ?t")
proof -
  have out: "outstanding s i" using i rel by (simp add: outstanding_def)
  with inv rel have act: "gate_active (sys_gate s) = Some a"
    by (auto simp: gate_inv_def)
  have "\<not> outstanding ?t j" for j
  proof (cases "j = i")
    case False
    with inv out have "\<not> outstanding s j" by (auto simp: gate_inv_def)
    with False show ?thesis by (simp add: outstanding_def)
  qed (simp add: outstanding_def)
  with act show ?thesis by (simp add: gate_inv_def gate_release_active)
qed

lemma gate_step_inv: "gate_step s t \<Longrightarrow> gate_inv s \<Longrightarrow> gate_inv t"
proof (erule gate_stepE, goal_cases)
  case 1 then show ?case by (simp add: gate_inv_acquire)
next
  case (2 i a)
  have "gate_inv (s\<lparr>sys_leases := (sys_leases s)[i := (Releasing, a)]\<rparr>)"
    by (rule gate_inv_same_gate [OF 2(1)])
      (use 2 in \<open>auto simp: outstanding_def nth_list_update\<close>)
  with 2 show ?case by simp
next
  case 3 then show ?case by (simp add: gate_inv_clear)
next
  case (4 env oid)
  then show ?case by (simp add: gate_inv_def outstanding_def report_progress_def)
next
  case 5
  then show ?case by (simp add: gate_inv_def outstanding_def stop_accepting_def)
next
  case 6
  then show ?case by (simp add: gate_inv_def outstanding_def start_accepting_def)
qed

lemma gate_reachable_inv: "gate_reachable s \<Longrightarrow> gate_inv s"
  by (induction rule: gate_reachable.induct) (auto intro: gate_inv_initial gate_step_inv)

section \<open>Operation types\<close>

definition type_char :: "char \<Rightarrow> bool" where
  "type_char c \<longleftrightarrow> (is_alnum c \<or> c = CHR ''-'' \<or> c = CHR ''_'') \<and> lower_char c = c"

lemma type_char_not_space: "type_char c \<Longrightarrow> \<not> is_space c"
proof -
  have "\<not> is_space CHR ''-''" and "\<not> is_space CHR ''_''"
    by (simp_all add: is_space_def code_def)
  then show "type_char c \<Longrightarrow> \<not> is_space c"
    by (auto simp: type_char_def is_alnum_not_space)
qed

lemma safe_operation_type_chars: "c \<in> set (safe_operation_type v) \<Longrightarrow> type_char c"
proof -
  let ?text = "if v = [] then ''operation'' else v"
  let ?words = "split_ws (str_lower (strip ?text))"
  have dflt: "\<And>d. d \<in> set ''operation'' \<Longrightarrow> type_char d"
    by (auto simp: type_char_def is_alnum_def code_def lower_char_def)
  have low: "lower_char d = d" if "d \<in> set (join ''-'' ?words)" for d
  proof -
    from that have "d = CHR ''-'' \<or> (\<exists>w \<in> set ?words. d \<in> set w)"
      using set_join [of "''-''" ?words] by auto
    then have "d = CHR ''-'' \<or> d \<in> set (str_lower (strip ?text))"
      using split_ws_chars by blast
    moreover have "lower_char CHR ''-'' = CHR ''-''"
      by (simp add: lower_char_def code_def)
    ultimately show ?thesis by (auto simp: str_lower_def)
  qed
  let ?safe = "filter (\<lambda>c. is_alnum c \<or> c = CHR ''-'' \<or> c = CHR ''_'') (join ''-'' ?words)"
  have safe: "type_char d" if "d \<in> set ?safe" for d
    using that low by (simp add: type_char_def)
  assume "c \<in> set (safe_operation_type v)"
  then have "c \<in> set (if ?safe = [] then ''operation'' else ?safe)"
    unfolding safe_operation_type_def Let_def by (rule in_set_takeD)
  then have "c \<in> set ''operation'' \<or> c \<in> set ?safe" by (rule in_set_ifD)
  then show ?thesis using dflt safe by blast
qed

lemma safe_operation_type_fixed:
  assumes "r \<noteq> []" and "length r \<le> 80" and "\<And>c. c \<in> set r \<Longrightarrow> type_char c"
  shows "safe_operation_type r = r"
proof -
  have ns: "\<And>c. c \<in> set r \<Longrightarrow> \<not> is_space c"
    using assms(3) type_char_not_space by blast
  have "str_lower r = r"
    using assms(3) by (simp add: str_lower_def type_char_def map_idI)
  moreover have "strip r = r" using ns by (rule strip_id)
  moreover have "split_ws r = [r]" using ns assms(1) by (simp add: split_ws_no_space)
  moreover have "filter (\<lambda>c. is_alnum c \<or> c = CHR ''-'' \<or> c = CHR ''_'') r = r"
    using assms(3) by (simp add: filter_id_conv type_char_def)
  ultimately show ?thesis using assms(1,2) by (simp add: safe_operation_type_def)
qed

lemma safe_operation_type_nonempty: "safe_operation_type v \<noteq> []"
  by (auto simp: safe_operation_type_def Let_def)

lemma safe_operation_type_length: "length (safe_operation_type v) \<le> 80"
  by (auto simp: safe_operation_type_def Let_def)

section \<open>The watcher\<close>

lemma check_once_busy:
  assumes "gate_active g = Some a" and "check_once env g w = (st, w', logs)"
  shows "warned w \<subseteq> warned w'" "set logs \<subseteq> warned w'" "set logs \<inter> warned w = {}" "distinct logs"
  using assms by (auto simp: check_once_def active_status_def Let_def split: if_splits)

lemma watch_logs:
  "(\<And>env g. (env, g) \<in> set obs \<Longrightarrow> gate_active g \<noteq> None) \<Longrightarrow> watch obs w = (w', logs) \<Longrightarrow>
     distinct logs \<and> set logs \<inter> warned w = {}"
proof (induction obs w arbitrary: w' logs rule: watch.induct)
  case (2 env g obs w)
  obtain st w1 l1 where 1: "check_once env g w = (st, w1, l1)" by (metis prod_cases3)
  obtain w2 l2 where w: "watch obs w1 = (w2, l2)" by (metis surj_pair)
  obtain a where a: "gate_active g = Some a" using "2.prems"(1) by fastforce
  have "distinct l2 \<and> set l2 \<inter> warned w1 = {}"
    using "2.IH" [OF 1 [symmetric] refl _ w] "2.prems"(1) by auto
  moreover have "logs = l1 @ l2" using "2.prems"(2) 1 w by simp
  ultimately show ?case using check_once_busy [OF a 1] by auto
qed simp

section \<open>Properties\<close>

text \<open>C1. In every state that threads can reach by acquiring, releasing (in the two locked
  steps the lease takes), reporting progress and switching acceptance, at most one lease is
  outstanding; it is the operation the gate names, and no other acquisition can succeed.\<close>

theorem gate_mutual_exclusion:
  assumes "gate_reachable s" and "outstanding s i"
  shows "gate_active (sys_gate s) = Some (snd (sys_leases s ! i))
    \<and> (\<forall>j. outstanding s j \<longrightarrow> j = i)
    \<and> (\<forall>env ty oid. \<exists>e. gate_acquire env ty oid (sys_gate s) = Inl e)"
proof -
  have act: "gate_active (sys_gate s) = Some (snd (sys_leases s ! i))"
    using gate_reachable_inv [OF assms(1)] assms(2) by (simp add: gate_inv_def)
  then have "\<exists>e. gate_acquire env ty oid (sys_gate s) = Inl e" for env ty oid
    using global_gate.acq_error_iff [of "(env, ty, oid)" "sys_gate s"] by simp
  moreover have "\<forall>j. outstanding s j \<longrightarrow> j = i"
    using gate_reachable_inv [OF assms(1)] assms(2) unfolding gate_inv_def by blast
  ultimately show ?thesis using act by blast
qed

definition demo_env :: call_env where
  "demo_env = \<lparr>env_now_iso = ''2026-01-01T00:00:00+00:00'', env_monotonic = 100,
     env_thread_ident = Some 7, env_thread_name = ''worker'', env_live_threads = [7],
     env_uuid = ''u1''\<rparr>"

definition demo_operation :: active_operation where
  "demo_operation = \<lparr>op_id = ''run-1'', op_kind = ''refresh'',
     op_started_at = ''2026-01-01T00:00:00+00:00'', op_owner_thread_id = 7,
     op_owner_thread_name = ''worker'', op_started_monotonic = 100\<rparr>"

lemma demo_acquire:
  "gate_acquire demo_env ''refresh'' (Some ''run-1'') new_gate =
     Inr (new_gate\<lparr>gate_active := Some demo_operation\<rparr>,
          \<lparr>lease_operation = demo_operation, lease_released = False\<rparr>)"
proof -
  have "safe_operation_type ''refresh'' = ''refresh''"
    by (rule safe_operation_type_fixed)
      (auto simp: type_char_def is_alnum_def code_def lower_char_def)
  then show ?thesis
    by (simp add: gate_acquire_def new_gate_def demo_env_def demo_operation_def Let_def)
qed

theorem gate_mutual_exclusion_witness:
  "\<exists>s. gate_reachable s \<and> outstanding s 0 \<and>
     (\<exists>e. gate_acquire demo_env ''digest'' None (sys_gate s) = Inl e)"
proof -
  let ?s = "initial_system\<lparr>sys_gate := new_gate\<lparr>gate_active := Some demo_operation\<rparr>,
              sys_leases := [(Held, demo_operation)]\<rparr>"
  have "gate_step initial_system ?s"
    using step_acquire [of demo_env "''refresh''" "Some ''run-1''" initial_system] demo_acquire
    by (simp add: initial_system_def)
  then have r: "gate_reachable ?s" by (rule reach_step [OF reach_init])
  have o: "outstanding ?s 0" by (simp add: outstanding_def)
  show ?thesis using gate_mutual_exclusion [OF r o] r o by blast
qed

text \<open>\<open>hold\<close> brackets its body: when it starts, the body runs as the gate's holder, and
  whether the body returns or raises the gate is free afterwards, provided the body leaves
  the holder alone; the next operation can then start.\<close>

theorem gate_hold_bracket:
  assumes start: "gate_accepting g" "gate_active g = None"
    and body: "\<And>a g1. map_option op_id (gate_active (snd (body a g1))) = map_option op_id (gate_active g1)"
  shows "\<exists>outcome g'. gate_hold env ty oid body g = Inr (outcome, g') \<and> gate_active g' = None"
proof -
  obtain g1 l where acq: "gate_acquire env ty oid g = Inr (g1, l)"
    using start gate_acquire_Inr_iff by blast
  obtain r g2 where b: "body (lease_operation l) g1 = (r, g2)" by (metis surj_pair)
  have "map_option op_id (gate_active (lease_give_back l g2)) = None"
    by (rule global_gate.body_keeps_lease [of "(env, ty, oid)" g])
      (use acq body [of "lease_operation l" g1] b in simp_all)
  then show ?thesis
    using acq b by (simp add: gate_hold_def lease_give_back_def)
qed

theorem gate_hold_bracket_witness:
  "\<exists>outcome g'. gate_hold demo_env ''refresh'' (Some ''run-1'')
      (\<lambda>a g. (Inl ''boom'' :: string + nat, report_progress demo_env (op_id a) g)) new_gate
        = Inr (outcome, g') \<and> gate_active g' = None"
  by (rule gate_hold_bracket) (simp_all add: new_gate_def report_progress_def)

text \<open>The operation type recorded by the gate is never empty, at most 80 characters long,
  made of lower-case alphanumerics, hyphens and underscores only, and stable: recording it
  again changes nothing.\<close>

theorem safe_operation_type_wf:
  "safe_operation_type v \<noteq> [] \<and> length (safe_operation_type v) \<le> 80
   \<and> (\<forall>c. c \<in> set (safe_operation_type v) \<longrightarrow>
        (is_alnum c \<or> c = CHR ''-'' \<or> c = CHR ''_'') \<and> lower_char c = c)
   \<and> safe_operation_type (safe_operation_type v) = safe_operation_type v"
  using safe_operation_type_chars [of _ v] safe_operation_type_fixed [of "safe_operation_type v"]
    safe_operation_type_nonempty [of v] safe_operation_type_length [of v]
  by (auto simp: type_char_def)

theorem safe_operation_type_wf_witness:
  "safe_operation_type ''  Company   Refresh! '' = ''company-refresh''
   \<and> safe_operation_type ''company-refresh'' = ''company-refresh''"
proof -
  have "safe_operation_type ''  Company   Refresh! '' = ''company-refresh''" by code_simp
  then show ?thesis using safe_operation_type_wf [of "''  Company   Refresh! ''"] by metis
qed

text \<open>The stall watcher never repeats itself: over any sequence of checks during which the
  gate stays held, it logs each operation at most once, and none it had already warned about.\<close>

theorem watcher_warns_once:
  assumes "\<And>env g. (env, g) \<in> set obs \<Longrightarrow> gate_active g \<noteq> None"
  shows "distinct (snd (watch obs w)) \<and> set (snd (watch obs w)) \<inter> warned w = {}"
  using watch_logs [of obs w] assms by (metis surjective_pairing)

theorem watcher_warns_once_witness:
  "distinct (snd (watch [(demo_env, new_gate\<lparr>gate_active := Some demo_operation\<rparr>),
      (demo_env\<lparr>env_monotonic := 2000\<rparr>, new_gate\<lparr>gate_active := Some demo_operation\<rparr>),
      (demo_env\<lparr>env_monotonic := 3000\<rparr>, new_gate\<lparr>gate_active := Some demo_operation\<rparr>)]
      \<lparr>warn_after_seconds = 900, warned = {}\<rparr>))"
  by (rule watcher_warns_once [THEN conjunct1]) auto

end
