(* ===== verification/Py_Stdlib.thy ===== *)
theory Py_Stdlib
  imports Prelude
begin

text \<open>
  The parts of the Python standard library that the modelled code calls and that need
  more than a line: decimal printing and reading of integers, JSON values as the data that
  \<open>json.loads\<close> yields, and ISO timestamps in the one format the backend writes
  (\<open>YYYY-MM-DDTHH:MM:SS\<close>, with or without a \<open>+HH:MM\<close> offset).
\<close>

section \<open>Integers in decimal\<close>

definition digit_char :: "nat \<Rightarrow> char" where
  "digit_char n = char_of (48 + n)"

fun show_nat :: "nat \<Rightarrow> string" where
  "show_nat n = (if n < 10 then [digit_char n] else show_nat (n div 10) @ [digit_char (n mod 10)])"

declare show_nat.simps [simp del]

definition show_int :: "int \<Rightarrow> string" where
  "show_int i = (if i < 0 then CHR ''-'' # show_nat (nat (- i)) else show_nat (nat i))"

text \<open>A run of decimal digits, read as a number.\<close>

fun digits_from :: "nat \<Rightarrow> string \<Rightarrow> nat option" where
  "digits_from acc [] = Some acc"
| "digits_from acc (c # cs) =
     (if is_digit c then digits_from (10 * acc + (code c - 48)) cs else None)"

definition read_nat :: "string \<Rightarrow> nat option" where
  "read_nat s = (if s = [] then None else digits_from 0 s)"

lemma is_digit_digit_char: "n < 10 \<Longrightarrow> is_digit (digit_char n)"
  by (simp add: is_digit_def digit_char_def code_char_of)

lemma code_digit_char: "n < 10 \<Longrightarrow> code (digit_char n) = 48 + n"
  by (simp add: digit_char_def code_char_of)

lemma digits_from_append:
  "digits_from acc (s @ t) = (case digits_from acc s of None \<Rightarrow> None | Some a \<Rightarrow> digits_from a t)"
  by (induction s arbitrary: acc) auto

lemma digits_from_show_nat: "digits_from 0 (show_nat n) = Some n"
proof (induction n rule: show_nat.induct)
  case (1 n)
  show ?case
  proof (cases "n < 10")
    case True
    then show ?thesis
      by (simp add: show_nat.simps [of n] is_digit_digit_char code_digit_char)
  next
    case False
    then show ?thesis using 1
      by (simp add: show_nat.simps [of n] digits_from_append is_digit_digit_char code_digit_char)
  qed
qed

lemma show_nat_nonempty [simp]: "show_nat n \<noteq> []"
  by (simp add: show_nat.simps [of n])

lemma hd_show_nat: "n \<noteq> 0 \<Longrightarrow> hd (show_nat n) \<noteq> CHR ''0''"
proof (induction n rule: show_nat.induct)
  case (1 n)
  have "hd [digit_char n] \<noteq> CHR ''0''" if "n < 10"
    using that 1(2) code_digit_char [OF that] by (auto simp: code_def)
  moreover have "hd (show_nat (n div 10)) \<noteq> CHR ''0''" if "\<not> n < 10" using 1(1) that by simp
  ultimately show ?case by (simp add: show_nat.simps [of n])
qed

lemma show_nat_digits: "c \<in> set (show_nat n) \<Longrightarrow> is_digit c"
proof (induction n rule: show_nat.induct)
  case (1 n)
  then show ?case
    by (subst (asm) (2) show_nat.simps) (auto simp: is_digit_digit_char split: if_splits)
qed

lemma show_nat_all_digits: "list_all is_digit (show_nat n)"
  by (simp add: list_all_iff show_nat_digits)

lemma read_show_nat: "read_nat (show_nat n) = Some n"
  by (simp add: read_nat_def digits_from_show_nat)

section \<open>JSON\<close>

datatype json =
    JNull
  | JBool bool
  | JInt int
  | JFloat rat
  | JStr string
  | JList "json list"
  | JObj "(string \<times> json) list"

type_synonym jdict = "(string \<times> json) list"

text \<open>\<open>isinstance(x, int)\<close> holds of booleans; \<open>==\<close> compares numbers of all types.\<close>

fun int_of_json :: "json option \<Rightarrow> int option" where
  "int_of_json (Some (JInt i)) = Some i"
| "int_of_json (Some (JBool b)) = Some (if b then 1 else 0)"
| "int_of_json _ = None"

fun equals_int :: "json option \<Rightarrow> int \<Rightarrow> bool" where
  "equals_int (Some (JFloat r)) i \<longleftrightarrow> r = of_int i"
| "equals_int j i \<longleftrightarrow> int_of_json j = Some i"

definition hashable :: "json option \<Rightarrow> bool" where
  "hashable j = (case j of Some (JList _) \<Rightarrow> False | Some (JObj _) \<Rightarrow> False | _ \<Rightarrow> True)"

fun string_of_json :: "json option \<Rightarrow> string option" where
  "string_of_json (Some (JStr s)) = Some s"
| "string_of_json _ = None"

fun dict_of_json :: "json option \<Rightarrow> (string \<times> json) list option" where
  "dict_of_json (Some (JObj ms)) = Some ms"
| "dict_of_json _ = None"

fun list_of_json :: "json option \<Rightarrow> json list option" where
  "list_of_json (Some (JList js)) = Some js"
| "list_of_json _ = None"

section \<open>Timestamps\<close>

definition leap_year :: "int \<Rightarrow> bool" where
  "leap_year y \<longleftrightarrow> y mod 4 = 0 \<and> (y mod 100 \<noteq> 0 \<or> y mod 400 = 0)"

definition days_in_month :: "int \<Rightarrow> int \<Rightarrow> int" where
  "days_in_month y m =
     (if m = 2 then (if leap_year y then 29 else 28)
      else if m = 4 \<or> m = 6 \<or> m = 9 \<or> m = 11 then 30 else 31)"

text \<open>Days before the given year, and before the given month of the year.\<close>

definition days_before_year :: "int \<Rightarrow> int" where
  "days_before_year y = (let p = y - 1 in 365 * p + p div 4 - p div 100 + p div 400)"

definition days_before_month :: "int \<Rightarrow> int \<Rightarrow> int" where
  "days_before_month y m = sum_list (map (\<lambda>k. days_in_month y (int k)) [1..<nat m])"

definition day_number :: "int \<Rightarrow> int \<Rightarrow> int \<Rightarrow> int" where
  "day_number y m d = days_before_year y + days_before_month y m + d"

text \<open>
  \<open>datetime.fromisoformat\<close> on the backend's own format: whether the value carries an
  offset, and its position in seconds (in UTC when it does).
\<close>

definition two_digits :: "string \<Rightarrow> nat \<Rightarrow> nat option" where
  "two_digits s i = read_nat (take 2 (drop i s))"

definition iso_offset :: "string \<Rightarrow> int option" where
  "iso_offset s =
     (if length s = 6 \<and> s ! 3 = CHR '':'' \<and> (s ! 0 = CHR ''+'' \<or> s ! 0 = CHR ''-'')
      then (case (two_digits s 1, two_digits s 4) of
          (Some h, Some m) \<Rightarrow>
            if h < 24 \<and> m < 60
            then Some ((if s ! 0 = CHR ''-'' then -1 else 1) * (int h * 3600 + int m * 60))
            else None
        | _ \<Rightarrow> None)
      else None)"

definition iso_local_seconds :: "string \<Rightarrow> int option" where
  "iso_local_seconds s =
     (if length s = 19 \<and> s ! 4 = CHR ''-'' \<and> s ! 7 = CHR ''-'' \<and> s ! 10 = CHR ''T''
         \<and> s ! 13 = CHR '':'' \<and> s ! 16 = CHR '':''
      then (case (read_nat (take 4 s), two_digits s 5, two_digits s 8,
                  two_digits s 11, two_digits s 14, two_digits s 17) of
          (Some y, Some mo, Some d, Some h, Some mi, Some se) \<Rightarrow>
            if 1 \<le> y \<and> 1 \<le> mo \<and> mo \<le> 12 \<and> 1 \<le> d \<and> int d \<le> days_in_month (int y) (int mo)
               \<and> h < 24 \<and> mi < 60 \<and> se < 60
            then Some (day_number (int y) (int mo) (int d) * 86400
                       + int h * 3600 + int mi * 60 + int se)
            else None
        | _ \<Rightarrow> None)
      else None)"

definition from_iso :: "string \<Rightarrow> (bool \<times> int) option" where
  "from_iso s =
     (case iso_local_seconds (take 19 s) of
        None \<Rightarrow> None
      | Some t \<Rightarrow>
          if length s = 19 then Some (False, t)
          else map_option (\<lambda>off. (True, t - off)) (iso_offset (drop 19 s)))"

lemma from_iso_example:
  "from_iso ''2024-03-01T00:00:00+00:00'' = Some (True, 63844934400)
   \<and> from_iso ''2024-02-30T00:00:00'' = None"
  by code_simp

end
