(* ===== verification/Utility_Runs.thy ===== *)
theory Utility_Runs
  imports Operation_Gate Py_Stdlib
begin

text \<open>
  Maintenance runs (\<^verbatim>\<open>backend/utility_runs.py\<close>): the \<open>maintenance_job_runs\<close> table with
  its unique index of one active run per job, and the manager that starts a run under the
  mutation gate, executes it on its own thread, reports its progress, cancels it, records
  its outcome and gives the gate back.

  The worker, the summary formatter and the follow-up callbacks are the caller's code:
  their results are arguments. Every access to the database takes a flag that says whether
  SQLite succeeded. \<open>_execute\<close> is split at the points where other threads can run.
\<close>

section \<open>The runs table\<close>

datatype run_status = Queued | Running | Cancelling | Completed | Failed | Cancelled | Skipped

text \<open>The life-cycle order of the statuses.\<close>

fun status_rank :: "run_status \<Rightarrow> nat" where
  "status_rank Queued = 0"
| "status_rank Running = 1"
| "status_rank Cancelling = 2"
| "status_rank Completed = 3"
| "status_rank Failed = 4"
| "status_rank Cancelled = 5"
| "status_rank Skipped = 6"

lemma status_rank_inj: "status_rank s = status_rank t \<Longrightarrow> s = t"
  by (cases s; cases t) simp_all

instantiation run_status :: linorder
begin

definition less_eq_run_status :: "run_status \<Rightarrow> run_status \<Rightarrow> bool" where
  "less_eq_run_status s t \<longleftrightarrow> status_rank s \<le> status_rank t"

definition less_run_status :: "run_status \<Rightarrow> run_status \<Rightarrow> bool" where
  "less_run_status s t \<longleftrightarrow> status_rank s < status_rank t"

instance
  by standard (auto simp: less_eq_run_status_def less_run_status_def intro: status_rank_inj)

end

definition active_status_set :: "run_status set" where
  "active_status_set = {Queued, Running, Cancelling}"

definition is_active :: "run_status \<Rightarrow> bool" where
  "is_active s \<longleftrightarrow> s \<in> active_status_set"

lemma is_active_simps [simp]:
  "is_active Queued" "is_active Running" "is_active Cancelling" "\<not> is_active Completed"
  "\<not> is_active Failed" "\<not> is_active Cancelled" "\<not> is_active Skipped"
  by (simp_all add: is_active_def active_status_set_def)

record run_row =
  row_job_key :: string
  row_task_name :: string
  row_trigger_type :: string
  row_progress_verb :: string
  row_progress_unit :: string
  row_status :: run_status
  row_progress_current :: int
  row_progress_total :: int
  row_current_item :: string
  row_current_message :: string
  row_started_at :: string
  row_completed_at :: string
  row_runtime_seconds :: "rat option"
  row_result_summary :: jdict
  row_error :: string
  row_created_at :: string
  row_updated_at :: string

type_synonym run_table = "(string \<times> run_row) list"

text \<open>The unique partial index \<open>idx_maintenance_job_runs_one_active_per_key\<close>.\<close>

definition one_active_per_key :: "run_table \<Rightarrow> bool" where
  "one_active_per_key rows \<longleftrightarrow>
     distinct (map (\<lambda>(_, r). row_job_key r) (filter (\<lambda>(_, r). is_active (row_status r)) rows))"

text \<open>The keyword arguments of \<open>_update_run\<close>: the columns it is allowed to set.\<close>

datatype run_update =
    U_status run_status
  | U_progress_current int
  | U_progress_total int
  | U_current_item string
  | U_current_message string
  | U_started_at string
  | U_completed_at string
  | U_runtime_seconds rat
  | U_result_summary jdict
  | U_error string

fun apply_update :: "run_update \<Rightarrow> run_row \<Rightarrow> run_row" where
  "apply_update (U_status s) r = r\<lparr>row_status := s\<rparr>"
| "apply_update (U_progress_current n) r = r\<lparr>row_progress_current := n\<rparr>"
| "apply_update (U_progress_total n) r = r\<lparr>row_progress_total := n\<rparr>"
| "apply_update (U_current_item t) r = r\<lparr>row_current_item := t\<rparr>"
| "apply_update (U_current_message t) r = r\<lparr>row_current_message := t\<rparr>"
| "apply_update (U_started_at t) r = r\<lparr>row_started_at := t\<rparr>"
| "apply_update (U_completed_at t) r = r\<lparr>row_completed_at := t\<rparr>"
| "apply_update (U_runtime_seconds q) r = r\<lparr>row_runtime_seconds := Some q\<rparr>"
| "apply_update (U_result_summary d) r = r\<lparr>row_result_summary := d\<rparr>"
| "apply_update (U_error t) r = r\<lparr>row_error := t\<rparr>"

section \<open>The manager\<close>

record manager =
  mgr_rows :: run_table
  mgr_cancel_events :: "(string \<times> bool) list"
  mgr_threads :: "string list"
  mgr_accepting :: bool
  mgr_gate :: gate

datatype run_error =
    Conflict gate_error           \<comment> \<open>\<open>OperationConflictError\<close>\<close>
  | AlreadyRunning string         \<comment> \<open>\<open>RuntimeError\<close> from the unique index\<close>
  | CouldNotStart string          \<comment> \<open>\<open>RuntimeError\<close>: the thread did not start\<close>
  | DatabaseError
  | KeyError string

text \<open>\<open>_update_run\<close>: one UPDATE in its own transaction, which must hit exactly one row.\<close>

definition update_run ::
  "string \<Rightarrow> bool \<Rightarrow> string \<Rightarrow> run_update list \<Rightarrow> manager \<Rightarrow> run_error + manager" where
  "update_run now db rid updates m =
     (if updates = [] then Inr m
      else if \<not> db then Inl DatabaseError
      else case map_of (mgr_rows m) rid of
        None \<Rightarrow> Inl (KeyError rid)
      | Some r \<Rightarrow>
          (let r' = (fold apply_update updates r)\<lparr>row_updated_at := now\<rparr>;
               rows' = AList.update rid r' (mgr_rows m)
           in if one_active_per_key rows' then Inr (m\<lparr>mgr_rows := rows'\<rparr>)
              else Inl DatabaseError))"

text \<open>An INSERT that the primary key or the unique index may refuse (\<open>None\<close>).\<close>

definition insert_run :: "string \<Rightarrow> run_row \<Rightarrow> run_table \<Rightarrow> run_table option" where
  "insert_run rid r rows =
     (if rid \<in> fst ` set rows \<or> \<not> one_active_per_key (rows @ [(rid, r)]) then None
      else Some (rows @ [(rid, r)]))"

record run_request =
  req_action :: string
  req_task_name :: string
  req_progress_verb :: string
  req_progress_unit :: string
  req_trigger_type :: string

definition queued_row :: "run_request \<Rightarrow> string \<Rightarrow> run_row" where
  "queued_row req created_at =
     \<lparr>row_job_key = req_action req, row_task_name = req_task_name req,
      row_trigger_type = req_trigger_type req, row_progress_verb = req_progress_verb req,
      row_progress_unit = req_progress_unit req, row_status = Queued,
      row_progress_current = 0, row_progress_total = 0, row_current_item = [],
      row_current_message = ''Waiting to start.'', row_started_at = [], row_completed_at = [],
      row_runtime_seconds = None, row_result_summary = [], row_error = [],
      row_created_at = created_at, row_updated_at = created_at\<rparr>"

text \<open>
  What the environment decides during \<open>start\<close>: the INSERT's fate beyond its constraints,
  whether the thread starts, and the fate of the UPDATE when it does not.
\<close>

record start_io =
  io_now :: string
  io_insert_ok :: bool
  io_thread_ok :: bool
  io_update_ok :: bool

definition drop_run :: "string \<Rightarrow> manager \<Rightarrow> manager" where
  "drop_run rid m =
     m\<lparr>mgr_cancel_events := AList.delete rid (mgr_cancel_events m),
       mgr_threads := removeAll rid (mgr_threads m)\<rparr>"

definition run_id :: "string \<Rightarrow> string" where
  "run_id uuid = ''maintenance-'' @ uuid"

lemma run_id_nonempty [simp]: "run_id uuid \<noteq> []"
  by (simp add: run_id_def)

definition start_run ::
  "call_env \<Rightarrow> start_io \<Rightarrow> run_request \<Rightarrow> manager \<Rightarrow> manager \<times> (run_error + string \<times> lease)" where
  "start_run env io req m =
     (let rid = run_id (env_uuid env) in
      if \<not> mgr_accepting m then (m, Inl (Conflict ShuttingDown))
      else case gate_acquire env (req_action req) (Some rid) (mgr_gate m) of
        Inl e \<Rightarrow> (m, Inl (Conflict e))
      | Inr (g, lease) \<Rightarrow>
          (let give_back = (\<lambda>m'. m'\<lparr>mgr_gate := lease_give_back lease (mgr_gate m')\<rparr>);
               held = m\<lparr>mgr_gate := g\<rparr>
           in if \<not> io_insert_ok io then (give_back held, Inl DatabaseError)
              else case insert_run rid (queued_row req (io_now io)) (mgr_rows m) of
                None \<Rightarrow> (give_back held, Inl (AlreadyRunning (req_task_name req)))
              | Some rows \<Rightarrow>
                  (let queued = held\<lparr>mgr_rows := rows,
                         mgr_cancel_events := AList.update rid False (mgr_cancel_events m)\<rparr>;
                       threaded = queued\<lparr>mgr_threads := rid # mgr_threads queued\<rparr>
                   in if io_thread_ok io then (threaded, Inr (rid, lease))
                      else (let dropped = drop_run rid threaded in
                        case update_run (io_now io) (io_update_ok io) rid
                          [U_status Failed, U_completed_at (io_now io), U_runtime_seconds 0,
                           U_error ''The background worker could not be started.'',
                           U_current_message (req_task_name req @ '' could not be started.'')]
                          dropped of
                          Inl e \<Rightarrow> (give_back dropped, Inl e)
                        | Inr m' \<Rightarrow> (give_back m', Inl (CouldNotStart (req_task_name req)))))))"

definition record_skipped ::
  "string \<Rightarrow> bool \<Rightarrow> string \<Rightarrow> string \<Rightarrow> string \<Rightarrow> string \<Rightarrow> string \<Rightarrow> manager \<Rightarrow>
   run_error + manager \<times> string" where
  "record_skipped now db uuid action task_name trigger_type reason m =
     (let rid = run_id uuid;
          r = \<lparr>row_job_key = action, row_task_name = task_name, row_trigger_type = trigger_type,
               row_progress_verb = [], row_progress_unit = [], row_status = Skipped,
               row_progress_current = 0, row_progress_total = 0, row_current_item = [],
               row_current_message = reason, row_started_at = now, row_completed_at = now,
               row_runtime_seconds = Some 0, row_result_summary = [], row_error = reason,
               row_created_at = now, row_updated_at = now\<rparr>
      in if \<not> db then Inl DatabaseError
         else case insert_run rid r (mgr_rows m) of
           None \<Rightarrow> Inl DatabaseError
         | Some rows \<Rightarrow> Inr (m\<lparr>mgr_rows := rows\<rparr>, rid))"

definition get_run :: "bool \<Rightarrow> string \<Rightarrow> manager \<Rightarrow> run_error + run_row" where
  "get_run db rid m =
     (if \<not> db then Inl DatabaseError
      else case map_of (mgr_rows m) rid of None \<Rightarrow> Inl (KeyError rid) | Some r \<Rightarrow> Inr r)"

text \<open>The cancel event is set before the row is updated, and stays set if the UPDATE fails.\<close>

definition set_event :: "string \<Rightarrow> manager \<Rightarrow> manager" where
  "set_event rid m =
     (case map_of (mgr_cancel_events m) rid of
        None \<Rightarrow> m
      | Some _ \<Rightarrow> m\<lparr>mgr_cancel_events := AList.update rid True (mgr_cancel_events m)\<rparr>)"

definition event_is_set :: "string \<Rightarrow> manager \<Rightarrow> bool" where
  "event_is_set rid m = (map_of (mgr_cancel_events m) rid = Some True)"

definition cancel_run ::
  "string \<Rightarrow> bool \<Rightarrow> bool \<Rightarrow> string \<Rightarrow> manager \<Rightarrow> manager \<times> (run_error + unit)" where
  "cancel_run now db_read db_write rid m =
     (case get_run db_read rid m of
        Inl e \<Rightarrow> (m, Inl e)
      | Inr current \<Rightarrow>
          if row_status current = Queued \<or> row_status current = Running
          then (let m1 = set_event rid m in
            case update_run now db_write rid
              [U_status Cancelling,
               U_current_message ''Stopping after the current item finishes.''] m1 of
              Inl e \<Rightarrow> (m1, Inl e)
            | Inr m2 \<Rightarrow> (m2, Inr ()))
          else (m, Inr ()))"

definition shutdown_manager :: "manager \<Rightarrow> manager" where
  "shutdown_manager m =
     m\<lparr>mgr_gate := stop_accepting (mgr_gate m), mgr_accepting := False,
       mgr_cancel_events := map (\<lambda>(k, _). (k, True)) (mgr_cancel_events m)\<rparr>"

definition manager_start_accepting :: "manager \<Rightarrow> manager" where
  "manager_start_accepting m =
     m\<lparr>mgr_accepting := True, mgr_gate := start_accepting (mgr_gate m)\<rparr>"

end
