(* ===== verification/Run_Execution.thy ===== *)
theory Run_Execution
  imports Utility_Runs "HOL-Library.List_Lexorder" "HOL-Library.Char_ord"
begin

text \<open>
  The body of a maintenance run (\<open>UtilityRunManager._execute\<close>), the reconciliation of runs
  a dead process left behind, and the read side: snapshots, history and statistics
  (\<^verbatim>\<open>backend/utility_runs.py\<close>).
\<close>

section \<open>Exceptions and outcomes\<close>

text \<open>The exceptions \<open>_execute\<close> tells apart, with the message where it is used.\<close>

datatype exn =
    Exn_UtilityCancelled
  | Exn_Interrupted
  | Exn_Timeout
  | Exn_OperationConflict string
  | Exn_Value string
  | Exn_Other string

definition safe_error_summary :: "exn \<Rightarrow> string" where
  "safe_error_summary exc =
     (case exc of
        Exn_Timeout \<Rightarrow> ''The operation timed out.''
      | Exn_OperationConflict text \<Rightarrow> take 240 text
      | Exn_Value text \<Rightarrow>
          (let message = join '' '' (split_ws text) in
           if message \<noteq> [] \<and> \<not> list_ex (\<lambda>marker. contains marker message)
                [[CHR 0x5C], ''/'', [CHR '':'', CHR 0x5C]]
           then take 240 message
           else ''The operation failed. Review server logs for details.'')
      | _ \<Rightarrow> ''The operation failed. Review server logs for details.'')"

record outcome =
  out_status :: run_status
  out_summary :: jdict
  out_error :: string
  out_message :: string

text \<open>The two \<open>except\<close> branches around the worker.\<close>

definition raised_outcome :: "string \<Rightarrow> exn \<Rightarrow> jdict \<Rightarrow> jdict \<Rightarrow> outcome" where
  "raised_outcome task_name exc summary latest_details =
     (if exc = Exn_UtilityCancelled \<or> exc = Exn_Interrupted
      then \<lparr>out_status = Cancelled,
             out_summary = (if latest_details \<noteq> [] then latest_details else summary),
             out_error = [],
             out_message = task_name @ '' was cancelled. No remaining items were processed.''\<rparr>
      else \<lparr>out_status = Failed,
             out_summary = latest_details,
             out_error = safe_error_summary exc,
             out_message = task_name @ '' could not be completed.''\<rparr>)"

definition follow_up_failure :: json where
  "follow_up_failure =
     JObj [(''status'', JStr ''Failed''),
           (''error'', JStr ''The post-run action could not be completed.'')]"

definition resolve_outcome ::
  "string \<Rightarrow> exn + jdict \<Rightarrow> bool \<Rightarrow> (jdict \<Rightarrow> exn + string) \<Rightarrow> (jdict \<Rightarrow> exn + json) option \<Rightarrow>
   jdict \<Rightarrow> outcome" where
  "resolve_outcome task_name worker_result cancelled format_summary after_success latest_details =
     (case worker_result of
        Inl exc \<Rightarrow> raised_outcome task_name exc [] latest_details
      | Inr summary \<Rightarrow>
          if cancelled then raised_outcome task_name Exn_UtilityCancelled summary latest_details
          else case format_summary summary of
            Inl exc \<Rightarrow> raised_outcome task_name exc summary latest_details
          | Inr message \<Rightarrow>
              \<lparr>out_status = Completed,
               out_summary =
                 (case after_success of
                    None \<Rightarrow> summary
                  | Some follow_up \<Rightarrow>
                      AList.update ''scheduledFollowUp''
                        (case follow_up summary of Inl _ \<Rightarrow> follow_up_failure | Inr j \<Rightarrow> j)
                        summary),
               out_error = [],
               out_message = message\<rparr>)"

section \<open>The phases of an execution\<close>

text \<open>The keyword arguments of the UPDATEs along an execution.\<close>

definition bookkeeping_updates :: "string \<Rightarrow> rat \<Rightarrow> run_update list" where
  "bookkeeping_updates now runtime =
     [U_status Failed, U_completed_at now, U_runtime_seconds (py_round_to 2 runtime),
      U_error ''The maintenance lifecycle could not be completed.'',
      U_current_message
        ''The maintenance operation stopped because its state could not be recorded.'']"

definition cancelled_updates :: "string \<Rightarrow> string \<Rightarrow> run_row \<Rightarrow> run_update list" where
  "cancelled_updates started_at now run =
     [U_status Cancelled, U_started_at started_at, U_completed_at now, U_runtime_seconds 0,
      U_current_message (row_task_name run @ '' was cancelled before it started.'')]"

definition running_updates :: "string \<Rightarrow> run_row \<Rightarrow> run_update list" where
  "running_updates started_at run =
     [U_status Running, U_started_at started_at,
      U_current_message (row_task_name run @ '' is running.'')]"

definition progress_updates ::
  "run_row \<Rightarrow> int \<Rightarrow> int \<Rightarrow> string \<Rightarrow> jdict option \<Rightarrow> run_update list" where
  "progress_updates run cur tot item details =
     [U_progress_current (max 0 cur), U_progress_total (max 0 tot), U_current_item item,
      U_current_message
        (if tot \<noteq> 0
         then row_progress_verb run @ '' '' @ show_int cur @ '' of '' @ show_int tot @ '' ''
              @ row_progress_unit run
         else ''Running...'')]
     @ (case details of None \<Rightarrow> [] | Some d \<Rightarrow> [U_result_summary d])"

definition outcome_updates :: "string \<Rightarrow> rat \<Rightarrow> outcome \<Rightarrow> run_update list" where
  "outcome_updates now runtime out =
     [U_status (out_status out), U_completed_at now,
      U_runtime_seconds (py_round_to 2 runtime), U_result_summary (out_summary out),
      U_error (out_error out), U_current_message (out_message out)]"

lemma updates_nonempty [simp]:
  "bookkeeping_updates now rt \<noteq> []" "cancelled_updates t0 now run \<noteq> []"
  "running_updates t0 run \<noteq> []" "progress_updates run cur tot item details \<noteq> []"
  "outcome_updates now rt out \<noteq> []"
  by (simp_all add: bookkeeping_updates_def cancelled_updates_def running_updates_def
      progress_updates_def outcome_updates_def)

lemma updates_status [simp]:
  "row_status (fold apply_update (bookkeeping_updates now rt) r) = Failed"
  "row_status (fold apply_update (cancelled_updates t0 now run) r) = Cancelled"
  "row_status (fold apply_update (running_updates t0 run) r) = Running"
  "row_status (fold apply_update (progress_updates run cur tot item details) r) = row_status r"
  "row_status (fold apply_update (outcome_updates now rt out) r) = out_status out"
  by (simp_all add: bookkeeping_updates_def cancelled_updates_def running_updates_def
      progress_updates_def outcome_updates_def split: option.split)

definition bookkeeping_failure :: "string \<Rightarrow> rat \<Rightarrow> bool \<Rightarrow> string \<Rightarrow> manager \<Rightarrow> manager" where
  "bookkeeping_failure now runtime db rid m =
     (case update_run now db rid (bookkeeping_updates now runtime) m of
        Inl _ \<Rightarrow> m
      | Inr m' \<Rightarrow> m')"

datatype begin_result = BeginRunning run_row | BeginCancelled | BeginFailed

text \<open>Up to the worker's start: the event decides, under the manager's lock.\<close>

definition exec_begin ::
  "string \<Rightarrow> string \<Rightarrow> rat \<Rightarrow> bool \<Rightarrow> bool \<Rightarrow> bool \<Rightarrow> string \<Rightarrow> manager \<Rightarrow> manager \<times> begin_result" where
  "exec_begin started_at now runtime db_get db_update db_fail rid m =
     (case get_run db_get rid m of
        Inl _ \<Rightarrow> (bookkeeping_failure now runtime db_fail rid m, BeginFailed)
      | Inr run \<Rightarrow>
          if event_is_set rid m
          then (case update_run now db_update rid (cancelled_updates started_at now run) m of
                  Inl _ \<Rightarrow> (bookkeeping_failure now runtime db_fail rid m, BeginFailed)
                | Inr m' \<Rightarrow> (m', BeginCancelled))
          else (case update_run now db_update rid (running_updates started_at run) m of
                  Inl _ \<Rightarrow> (bookkeeping_failure now runtime db_fail rid m, BeginFailed)
                | Inr m' \<Rightarrow> (m', BeginRunning run)))"

text \<open>The \<open>progress\<close> callback given to the worker: a failed UPDATE raises inside the worker,
  after the details were remembered.\<close>

definition exec_progress ::
  "string \<Rightarrow> bool \<Rightarrow> string \<Rightarrow> run_row \<Rightarrow> int \<Rightarrow> int \<Rightarrow> string \<Rightarrow> jdict option \<Rightarrow>
   manager \<Rightarrow> jdict \<Rightarrow> manager \<times> jdict \<times> run_error option" where
  "exec_progress now db rid run cur tot item details m latest_details =
     (let latest = (case details of None \<Rightarrow> latest_details | Some d \<Rightarrow> d)
      in case update_run now db rid (progress_updates run cur tot item details) m of
           Inl e \<Rightarrow> (m, latest, Some e)
         | Inr m' \<Rightarrow> (m', latest, None))"

text \<open>The final UPDATE; if it fails, one more attempt marks the run failed.\<close>

definition exec_record ::
  "string \<Rightarrow> rat \<Rightarrow> bool \<Rightarrow> bool \<Rightarrow> string \<Rightarrow> outcome \<Rightarrow> manager \<Rightarrow> manager" where
  "exec_record now runtime db_update db_fail rid out m =
     (case update_run now db_update rid (outcome_updates now runtime out) m of
        Inl _ \<Rightarrow> bookkeeping_failure now runtime db_fail rid m
      | Inr m' \<Rightarrow> m')"

text \<open>The \<open>finally\<close> block: forget the run, then give the gate back.\<close>

definition exec_pop :: "string \<Rightarrow> manager \<Rightarrow> manager" where
  "exec_pop rid m = drop_run rid m"

definition exec_release :: "lease \<Rightarrow> manager \<Rightarrow> manager" where
  "exec_release l m = m\<lparr>mgr_gate := lease_give_back l (mgr_gate m)\<rparr>"

text \<open>
  The whole of \<open>_execute\<close> as one thread runs it when no other thread interferes. The record
  holds what the environment decides: clocks, the fate of each UPDATE, the worker's calls of
  \<open>progress\<close> and its result, and the two callbacks.
\<close>

record exec_io =
  x_started_at :: string
  x_now :: string
  x_runtime :: rat
  x_db_get :: bool
  x_db_begin :: bool
  x_db_record :: bool
  x_db_fail :: bool
  x_progress :: "(bool \<times> int \<times> int \<times> string \<times> jdict option) list"
  x_result :: "exn + jdict"
  x_format :: "jdict \<Rightarrow> exn + string"
  x_after_success :: "(jdict \<Rightarrow> exn + json) option"

definition worker_progress ::
  "exec_io \<Rightarrow> string \<Rightarrow> run_row \<Rightarrow> bool \<times> int \<times> int \<times> string \<times> jdict option \<Rightarrow>
   manager \<times> jdict \<Rightarrow> manager \<times> jdict" where
  "worker_progress io rid run call st =
     (case call of (db, cur, tot, item, details) \<Rightarrow>
        (case exec_progress (x_now io) db rid run cur tot item details (fst st) (snd st) of
           (m, latest, _) \<Rightarrow> (m, latest)))"

definition run_worker ::
  "exec_io \<Rightarrow> string \<Rightarrow> run_row \<Rightarrow> manager \<Rightarrow> manager \<times> jdict" where
  "run_worker io rid run m = fold (worker_progress io rid run) (x_progress io) (m, [])"

definition execute_run :: "exec_io \<Rightarrow> string \<Rightarrow> lease \<Rightarrow> manager \<Rightarrow> manager" where
  "execute_run io rid l m =
     (let recorded =
        (case exec_begin (x_started_at io) (x_now io) (x_runtime io) (x_db_get io) (x_db_begin io)
                (x_db_fail io) rid m of
           (m1, BeginRunning run) \<Rightarrow>
             (case run_worker io rid run m1 of (m2, latest) \<Rightarrow>
                exec_record (x_now io) (x_runtime io) (x_db_record io) (x_db_fail io) rid
                  (resolve_outcome (row_task_name run) (x_result io) (event_is_set rid m2)
                     (x_format io) (x_after_success io) latest) m2)
         | (m1, _) \<Rightarrow> m1)
      in exec_release l (exec_pop rid recorded))"

section \<open>Reconciliation at start-up\<close>

definition elapsed_between :: "string \<Rightarrow> string \<Rightarrow> rat" where
  "elapsed_between start finish =
     (case (from_iso finish, from_iso start) of
        (Some (aware_f, f), Some (aware_s, s)) \<Rightarrow>
          if aware_f = aware_s then py_round_to 2 (max 0 (of_int (f - s))) else 0
      | _ \<Rightarrow> 0)"

definition interrupt_row :: "string \<Rightarrow> run_row \<Rightarrow> run_row" where
  "interrupt_row now r =
     (if is_active (row_status r)
      then r\<lparr>row_status := Failed, row_completed_at := now,
             row_runtime_seconds :=
               Some (elapsed_between
                 (if row_started_at r \<noteq> [] then row_started_at r else row_created_at r) now),
             row_current_message :=
               row_task_name r @ '' was interrupted because the backend restarted.'',
             row_error := ''Backend restarted while this maintenance job was running.'',
             row_updated_at := now\<rparr>
      else r)"

definition mark_interrupted_runs :: "string \<Rightarrow> run_table \<Rightarrow> run_table" where
  "mark_interrupted_runs now rows = map (\<lambda>(i, r). (i, interrupt_row now r)) rows"

text \<open>\<open>reconcile_interrupted_runs\<close>: missing file or table, or any SQLite error, means 0.\<close>

definition reconcile_interrupted_runs ::
  "bool \<Rightarrow> bool \<Rightarrow> bool \<Rightarrow> string \<Rightarrow> run_table \<Rightarrow> run_table \<times> nat" where
  "reconcile_interrupted_runs file_exists table_exists db now rows =
     (if \<not> file_exists then (rows, 0)
      else if \<not> db then (rows, 0)
      else if \<not> table_exists then (rows, 0)
      else (mark_interrupted_runs now rows,
            length (filter (\<lambda>(_, r). is_active (row_status r)) rows)))"

section \<open>Reading runs\<close>

record run_snapshot =
  snap_id :: string
  snap_action :: string
  snap_trigger_type :: string
  snap_task_name :: string
  snap_status :: run_status
  snap_running :: bool
  snap_current :: int
  snap_total :: int
  snap_progress :: "int option"
  snap_progress_text :: string
  snap_current_item :: string
  snap_message :: string
  snap_summary :: jdict
  snap_error :: string
  snap_started_at :: string
  snap_completed_at :: string
  snap_runtime_seconds :: "rat option"
  snap_created_at :: string
  snap_updated_at :: string

definition snapshot_of :: "string \<Rightarrow> string \<times> run_row \<Rightarrow> run_snapshot" where
  "snapshot_of now = (\<lambda>(rid, r).
     let cur = row_progress_current r; tot = row_progress_total r;
         active = is_active (row_status r);
         runtime = (if row_runtime_seconds r = None \<and> row_started_at r \<noteq> [] \<and> active
                    then Some (elapsed_between (row_started_at r) now)
                    else row_runtime_seconds r)
     in \<lparr>snap_id = rid, snap_action = row_job_key r, snap_trigger_type = row_trigger_type r,
         snap_task_name = row_task_name r, snap_status = row_status r, snap_running = active,
         snap_current = cur, snap_total = tot,
         snap_progress =
           (if tot \<noteq> 0 then Some (py_round (of_int cur / of_int tot * 100)) else None),
         snap_progress_text =
           (if tot \<noteq> 0
            then row_progress_verb r @ '' '' @ show_int cur @ '' of '' @ show_int tot @ '' ''
                 @ row_progress_unit r
            else if active then ''Running...'' else ''No itemized progress reported.''),
         snap_current_item = row_current_item r, snap_message = row_current_message r,
         snap_summary = row_result_summary r, snap_error = row_error r,
         snap_started_at = row_started_at r, snap_completed_at = row_completed_at r,
         snap_runtime_seconds = map_option (py_round_to 2) runtime,
         snap_created_at = row_created_at r, snap_updated_at = row_updated_at r\<rparr>)"

text \<open>\<open>ORDER BY created_at DESC\<close> (SQLite leaves the order of ties open; here the row
  inserted last comes first).\<close>

definition newest_first :: "run_table \<Rightarrow> run_table" where
  "newest_first rows = rev (sort_key (\<lambda>(_, r). row_created_at r) rows)"

definition list_runs :: "string \<Rightarrow> int \<Rightarrow> run_table \<Rightarrow> run_snapshot list" where
  "list_runs now limit rows = map (snapshot_of now) (take (nat (max 1 limit)) (newest_first rows))"

definition run_history :: "string \<Rightarrow> string \<Rightarrow> int \<Rightarrow> run_table \<Rightarrow> run_snapshot list" where
  "run_history now job_key limit rows =
     map (snapshot_of now)
       (take (nat (min 100 (max 1 limit)))
         (newest_first (filter (\<lambda>(_, r). row_job_key r = job_key) rows)))"

definition run_statistics ::
  "string \<Rightarrow> string \<Rightarrow> run_table \<Rightarrow> run_snapshot option \<times> rat option" where
  "run_statistics now job_key rows =
     (let history = run_history now job_key 100 rows;
          latest = find (\<lambda>s. snap_status s \<noteq> Skipped) history;
          successful = take 20 (map (\<lambda>s. the (snap_runtime_seconds s))
            (filter (\<lambda>s. snap_status s = Completed \<and> snap_runtime_seconds s \<noteq> None) history));
          average = (if successful \<noteq> []
                     then Some (py_round_to 2 (sum_list successful / of_nat (length successful)))
                     else None)
      in (latest, average))"

section \<open>Facts about outcomes and reconciliation\<close>

lemma raised_outcome_status: "out_status (raised_outcome t e s l) \<in> {Cancelled, Failed}"
  by (simp add: raised_outcome_def)

lemma resolve_outcome_terminal: "\<not> is_active (out_status (resolve_outcome t w c f a l))"
  using raised_outcome_status [of t _ _ l]
  by (auto simp: resolve_outcome_def split: sum.splits) (metis is_active_simps insertE singletonD)+

lemma interrupt_row_inactive [simp]: "\<not> is_active (row_status (interrupt_row now r))"
  by (simp add: interrupt_row_def)

lemma interrupt_row_terminal: "\<not> is_active (row_status r) \<Longrightarrow> interrupt_row now r = r"
  by (simp add: interrupt_row_def)

lemma map_of_mark_interrupted:
  "map_of (mark_interrupted_runs now rows) rid = map_option (interrupt_row now) (map_of rows rid)"
  by (induction rows) (auto simp: mark_interrupted_runs_def)

lemma set_mark_interrupted:
  "(i, r) \<in> set (mark_interrupted_runs now rows) \<Longrightarrow> \<not> is_active (row_status r)"
  by (auto simp: mark_interrupted_runs_def)


lemma join_words_nonempty: "w \<in> set ws \<Longrightarrow> w \<noteq> [] \<Longrightarrow> join sep ws \<noteq> []"
  by (induction sep ws rule: join.induct) auto

section \<open>Properties\<close>

text \<open>The outcome of a run is decided by three facts. It is Completed exactly when the
  worker returned, no cancellation was requested and the summary could be formatted (a failing
  follow-up never changes that); it is Cancelled exactly when the worker was told to stop or
  its result came after a cancellation request (or the formatter itself raised a cancellation);
  in every other case it is Failed. An error text is recorded only for Failed.\<close>

theorem resolve_outcome_spec:
  "(out_status (resolve_outcome task w cancelled f a latest) = Completed \<longleftrightarrow>
      (\<exists>summary message. w = Inr summary \<and> \<not> cancelled \<and> f summary = Inr message))
   \<and> (out_status (resolve_outcome task w cancelled f a latest) = Cancelled \<longleftrightarrow>
      (\<exists>exc. w = Inl exc \<and> exc \<in> {Exn_UtilityCancelled, Exn_Interrupted})
      \<or> (\<exists>summary. w = Inr summary \<and> (cancelled \<or>
           (\<exists>exc. f summary = Inl exc \<and> exc \<in> {Exn_UtilityCancelled, Exn_Interrupted}))))
   \<and> out_status (resolve_outcome task w cancelled f a latest) \<in> {Completed, Cancelled, Failed}
   \<and> (out_error (resolve_outcome task w cancelled f a latest) \<noteq> [] \<longrightarrow>
      out_status (resolve_outcome task w cancelled f a latest) = Failed)"
  by (cases w) (auto simp: resolve_outcome_def raised_outcome_def split: sum.splits)

theorem resolve_outcome_spec_witness:
  "out_status (resolve_outcome ''Refresh'' (Inr []) False (\<lambda>_. Inr ''done'')
      (Some (\<lambda>_. Inl Exn_Timeout)) []) = Completed
   \<and> out_error (resolve_outcome ''Refresh'' (Inl Exn_Timeout) False (\<lambda>_. Inr ''done'') None []) \<noteq> []
   \<and> out_status (resolve_outcome ''Refresh'' (Inl Exn_Timeout) False (\<lambda>_. Inr ''done'') None []) = Failed"
proof -
  have e: "out_error (resolve_outcome ''Refresh'' (Inl Exn_Timeout) False (\<lambda>_. Inr ''done'') None []) \<noteq> []"
    by (simp add: resolve_outcome_def raised_outcome_def safe_error_summary_def)
  then show ?thesis
    using resolve_outcome_spec [of "''Refresh''" "Inl Exn_Timeout" False "\<lambda>_. Inr ''done''" None "[]"]
      resolve_outcome_spec [of "''Refresh''" "Inr []" False "\<lambda>_. Inr ''done''"
        "Some (\<lambda>_. Inl Exn_Timeout)" "[]"]
    by blast
qed

text \<open>What a failed run shows to the user is safe to show: at most 240 characters, and,
  unless it is the gate's own conflict message, never empty and free of slashes and
  backslashes, so no file path of the server leaks into it.\<close>

theorem safe_error_summary_safe:
  "length (safe_error_summary exc) \<le> 240
   \<and> ((\<forall>text. exc \<noteq> Exn_OperationConflict text) \<longrightarrow>
        safe_error_summary exc \<noteq> []
        \<and> CHR ''/'' \<notin> set (safe_error_summary exc) \<and> CHR 0x5C \<notin> set (safe_error_summary exc))"
proof -
  have single: "contains [c] s \<longleftrightarrow> c \<in> set s" for c :: char and s
    by (induction s) auto
  have "CHR ''/'' \<notin> set (take 240 m)" if "\<not> contains ''/'' m" for m
    using that single [of "CHR ''/''" m] by (auto dest: in_set_takeD)
  moreover have "CHR 0x5C \<notin> set (take 240 m)" if "\<not> contains [CHR 0x5C] m" for m
    using that single [of "CHR 0x5C" m] by (auto dest: in_set_takeD)
  ultimately show ?thesis
    by (cases exc) (simp_all add: safe_error_summary_def Let_def)
qed

theorem safe_error_summary_safe_witness:
  "safe_error_summary (Exn_Value ''  No  companies ready '') = ''No companies ready''
   \<and> CHR ''/'' \<notin> set (safe_error_summary (Exn_Value ''/etc/passwd missing''))"
proof -
  have "safe_error_summary (Exn_Value ''  No  companies ready '') = ''No companies ready''"
    by code_simp
  with safe_error_summary_safe [of "Exn_Value ''/etc/passwd missing''"] show ?thesis by blast
qed

text \<open>Reconciliation after a restart leaves no run active: every row that was Queued, Running
  or Cancelling becomes Failed with a completion time and an error text, every other row is
  untouched, no row is added or lost, and the number returned is the number of rows changed.\<close>

theorem reconcile_closes_interrupted_runs:
  assumes "reconcile_interrupted_runs True True True now rows = (rows', n)"
  shows "map fst rows' = map fst rows
    \<and> n = length (filter (\<lambda>(_, r). is_active (row_status r)) rows)
    \<and> (\<forall>i < length rows.
        (\<not> is_active (row_status (snd (rows ! i))) \<longrightarrow> rows' ! i = rows ! i)
        \<and> (is_active (row_status (snd (rows ! i))) \<longrightarrow>
             row_status (snd (rows' ! i)) = Failed \<and> row_completed_at (snd (rows' ! i)) = now
             \<and> row_error (snd (rows' ! i)) \<noteq> []
             \<and> row_job_key (snd (rows' ! i)) = row_job_key (snd (rows ! i))))
    \<and> one_active_per_key rows'"
proof -
  have rows': "rows' = mark_interrupted_runs now rows"
    and n: "n = length (filter (\<lambda>(_, r). is_active (row_status r)) rows)"
    using assms by (auto simp: reconcile_interrupted_runs_def)
  have "map fst rows' = map fst rows"
    by (simp add: rows' mark_interrupted_runs_def split_beta comp_def)
  moreover have "rows' ! i = (fst (rows ! i), interrupt_row now (snd (rows ! i)))"
    if "i < length rows" for i
    using that by (simp add: rows' mark_interrupted_runs_def split_beta)
  moreover have "filter (\<lambda>(_, r). is_active (row_status r)) rows' = []"
    by (auto simp: rows' filter_empty_conv dest: set_mark_interrupted)
  then have "one_active_per_key rows'" unfolding one_active_per_key_def by simp
  ultimately show ?thesis using n by (auto simp: interrupt_row_def)
qed

definition demo_stale_row :: run_row where
  "demo_stale_row =
     queued_row \<lparr>req_action = ''refresh'', req_task_name = ''Refresh'', req_progress_verb = ''Checked'',
       req_progress_unit = ''companies'', req_trigger_type = ''manual''\<rparr> ''2024-01-01T00:00:00''"

theorem reconcile_closes_interrupted_runs_witness:
  "row_status (snd (fst (reconcile_interrupted_runs True True True ''2024-01-01T00:05:00''
      [(''maintenance-1'', demo_stale_row)]) ! 0)) = Failed
   \<and> row_runtime_seconds (snd (fst (reconcile_interrupted_runs True True True ''2024-01-01T00:05:00''
      [(''maintenance-1'', demo_stale_row)]) ! 0)) = Some 300"
proof -
  have t: "elapsed_between ''2024-01-01T00:00:00'' ''2024-01-01T00:05:00'' = 300" by code_simp
  show ?thesis
    using reconcile_closes_interrupted_runs [OF surjective_pairing, of "''2024-01-01T00:05:00''"
        "[(''maintenance-1'', demo_stale_row)]"]
    by (simp add: reconcile_interrupted_runs_def mark_interrupted_runs_def interrupt_row_def
        demo_stale_row_def queued_row_def t)
qed

end
