(* ===== verification/Run_Lifecycle.thy ===== *)
theory Run_Lifecycle
  imports Run_Execution
begin

text \<open>
  Maintenance runs under concurrency: a step relation over the manager, the execution
  threads it has spawned and any other holder of the shared gate. Its steps are the
  operations of the two preceding theories at the granularity of the code's locks. The flag
  of the relation says whether SQLite is assumed not to fail; the safety properties hold
  without it.
\<close>

section \<open>The step relation\<close>

datatype exec_phase = Spawned | Working run_row jdict | Recorded | Cleaned

record run_system =
  rs_mgr :: manager
  rs_exec :: "(string \<times> exec_phase \<times> lease) list"
  rs_other :: "lease option"

definition set_phase ::
  "string \<Rightarrow> exec_phase \<Rightarrow> (string \<times> exec_phase \<times> lease) list \<Rightarrow>
   (string \<times> exec_phase \<times> lease) list" where
  "set_phase rid ph ex = map (\<lambda>(i, p, l). if i = rid then (i, ph, l) else (i, p, l)) ex"

text \<open>\<open>UtilityRunManager.__init__\<close> on the rows a previous process left.\<close>

definition new_manager :: "string \<Rightarrow> run_table \<Rightarrow> manager" where
  "new_manager now rows =
     \<lparr>mgr_rows = mark_interrupted_runs now rows, mgr_cancel_events = [], mgr_threads = [],
      mgr_accepting = True, mgr_gate = new_gate\<rparr>"

inductive run_step :: "bool \<Rightarrow> run_system \<Rightarrow> run_system \<Rightarrow> bool" for ok :: bool where
  rs_start: "start_run env io req (rs_mgr s) = (m, Inr (rid, l)) \<Longrightarrow>
     run_step ok s (s\<lparr>rs_mgr := m, rs_exec := (rid, Spawned, l) # rs_exec s\<rparr>)"
| rs_start_error: "start_run env io req (rs_mgr s) = (m, Inl e) \<Longrightarrow>
     (ok \<Longrightarrow> io_insert_ok io \<and> io_update_ok io) \<Longrightarrow> run_step ok s (s\<lparr>rs_mgr := m\<rparr>)"
| rs_begin: "(rid, Spawned, l) \<in> set (rs_exec s) \<Longrightarrow>
     exec_begin t0 now rt db1 db2 db3 rid (rs_mgr s) = (m, BeginRunning run) \<Longrightarrow>
     run_step ok s (s\<lparr>rs_mgr := m, rs_exec := set_phase rid (Working run []) (rs_exec s)\<rparr>)"
| rs_begin_over: "(rid, Spawned, l) \<in> set (rs_exec s) \<Longrightarrow>
     exec_begin t0 now rt db1 db2 db3 rid (rs_mgr s) = (m, res) \<Longrightarrow>
     res = BeginCancelled \<or> res = BeginFailed \<Longrightarrow> (ok \<Longrightarrow> db1 \<and> db2 \<and> db3) \<Longrightarrow>
     run_step ok s (s\<lparr>rs_mgr := m, rs_exec := set_phase rid Recorded (rs_exec s)\<rparr>)"
| rs_progress: "(rid, Working run latest, l) \<in> set (rs_exec s) \<Longrightarrow>
     exec_progress now db rid run cur tot item details (rs_mgr s) latest = (m, latest', err) \<Longrightarrow>
     run_step ok s (s\<lparr>rs_mgr := m, rs_exec := set_phase rid (Working run latest') (rs_exec s)\<rparr>)"
| rs_record: "(rid, Working run latest, l) \<in> set (rs_exec s) \<Longrightarrow>
     out = resolve_outcome (row_task_name run) w cancelled f a latest \<Longrightarrow>
     (cancelled \<Longrightarrow> event_is_set rid (rs_mgr s)) \<Longrightarrow> (ok \<Longrightarrow> db1 \<and> db2) \<Longrightarrow>
     run_step ok s (s\<lparr>rs_mgr := exec_record now rt db1 db2 rid out (rs_mgr s),
                      rs_exec := set_phase rid Recorded (rs_exec s)\<rparr>)"
| rs_pop: "(rid, Recorded, l) \<in> set (rs_exec s) \<Longrightarrow>
     run_step ok s (s\<lparr>rs_mgr := exec_pop rid (rs_mgr s),
                      rs_exec := set_phase rid Cleaned (rs_exec s)\<rparr>)"
| rs_release: "(rid, Cleaned, l) \<in> set (rs_exec s) \<Longrightarrow>
     run_step ok s (s\<lparr>rs_mgr := exec_release l (rs_mgr s),
                      rs_exec := filter (\<lambda>(i, _). i \<noteq> rid) (rs_exec s)\<rparr>)"
| rs_cancel: "cancel_run now db1 db2 rid (rs_mgr s) = (m, res) \<Longrightarrow>
     run_step ok s (s\<lparr>rs_mgr := m\<rparr>)"
| rs_skip: "record_skipped now db uuid action task trig reason (rs_mgr s) = Inr (m, rid) \<Longrightarrow>
     run_step ok s (s\<lparr>rs_mgr := m\<rparr>)"
| rs_shutdown: "run_step ok s (s\<lparr>rs_mgr := shutdown_manager (rs_mgr s)\<rparr>)"
| rs_accept: "run_step ok s (s\<lparr>rs_mgr := manager_start_accepting (rs_mgr s)\<rparr>)"
| rs_other_acquire: "gate_acquire env ty oid (mgr_gate (rs_mgr s)) = Inr (g, l) \<Longrightarrow>
     run_step ok s (s\<lparr>rs_mgr := (rs_mgr s)\<lparr>mgr_gate := g\<rparr>, rs_other := Some l\<rparr>)"
| rs_other_release: "rs_other s = Some l \<Longrightarrow>
     run_step ok s (s\<lparr>rs_mgr := exec_release l (rs_mgr s), rs_other := None\<rparr>)"
| rs_restart: "run_step ok s
     \<lparr>rs_mgr = new_manager now (mgr_rows (rs_mgr s)), rs_exec = [], rs_other = None\<rparr>"

inductive run_reachable :: "bool \<Rightarrow> run_system \<Rightarrow> bool" for ok :: bool where
  run_init: "run_reachable ok \<lparr>rs_mgr = new_manager now [], rs_exec = [], rs_other = None\<rparr>"
| run_next: "run_reachable ok s \<Longrightarrow> run_step ok s t \<Longrightarrow> run_reachable ok t"

section \<open>Updates and the unique index\<close>

lemma update_run_Inr:
  assumes "update_run now db rid us m = Inr m'" and "us \<noteq> []"
  obtains r where "map_of (mgr_rows m) rid = Some r"
    and "m' = m\<lparr>mgr_rows := AList.update rid
           ((fold apply_update us r)\<lparr>row_updated_at := now\<rparr>) (mgr_rows m)\<rparr>"
    and "one_active_per_key (mgr_rows m')"
  using assms by (auto simp: update_run_def Let_def split: if_splits option.splits)

lemma active_update_subseq:
  assumes "\<not> is_active (row_status r')"
  shows "subseq (map (\<lambda>(_, r). row_job_key r)
            (filter (\<lambda>(_, r). is_active (row_status r)) (AList.update rid r' rows)))
          (map (\<lambda>(_, r). row_job_key r) (filter (\<lambda>(_, r). is_active (row_status r)) rows))"
  using assms by (induction rows) auto

lemma one_active_terminal:
  "one_active_per_key rows \<Longrightarrow> \<not> is_active (row_status r') \<Longrightarrow>
     one_active_per_key (AList.update rid r' rows)"
  unfolding one_active_per_key_def by (erule subseq_distinct [OF active_update_subseq, rotated])

lemma update_run_terminal_succeeds:
  assumes "map_of (mgr_rows m) rid = Some r" and "one_active_per_key (mgr_rows m)"
    and "\<not> is_active (row_status (fold apply_update us r))" and "us \<noteq> []"
  shows "\<exists>m'. update_run now True rid us m = Inr m'"
  using assms by (simp add: update_run_def Let_def one_active_terminal)

lemma insert_run_Some:
  assumes "insert_run rid r rows = Some rows'"
  shows "rows' = rows @ [(rid, r)]" "map_of rows rid = None" "one_active_per_key rows'"
  using assms by (auto simp: insert_run_def map_of_eq_None_iff split: if_splits)

section \<open>Rows only move forward\<close>

definition rows_advance :: "run_table \<Rightarrow> run_table \<Rightarrow> bool" where
  "rows_advance R R' \<longleftrightarrow>
     (\<forall>rid r. map_of R rid = Some r \<longrightarrow>
        (\<exists>r'. map_of R' rid = Some r' \<and> row_status r \<le> row_status r' \<and>
              (\<not> is_active (row_status r) \<longrightarrow> r' = r)))"

lemma rows_advance_refl [simp]: "rows_advance R R"
  by (simp add: rows_advance_def)

lemma rows_advance_trans: "rows_advance R S \<Longrightarrow> rows_advance S T \<Longrightarrow> rows_advance R T"
  unfolding rows_advance_def by (metis order_trans)

lemma rows_advance_update:
  assumes "map_of R rid = Some r" and "is_active (row_status r)" and "row_status r \<le> row_status r'"
  shows "rows_advance R (AList.update rid r' R)"
  using assms by (auto simp: rows_advance_def table_simps)

lemma rows_advance_append: "map_of R rid = None \<Longrightarrow> rows_advance R (R @ [(rid, r)])"
  by (auto simp: rows_advance_def map_add_def)

lemma active_le_terminal: "is_active s \<Longrightarrow> \<not> is_active t \<Longrightarrow> s \<le> t"
  by (cases s; cases t) (simp_all add: less_eq_run_status_def)

lemma rows_advance_interrupt: "rows_advance R (mark_interrupted_runs now R)"
  by (auto simp: rows_advance_def map_of_mark_interrupted interrupt_row_terminal
      intro: active_le_terminal)
    (metis interrupt_row_inactive interrupt_row_terminal active_le_terminal order_refl)

section \<open>The invariant\<close>

fun phase_ok :: "manager \<Rightarrow> string \<Rightarrow> exec_phase \<Rightarrow> bool" where
  "phase_ok m rid Spawned \<longleftrightarrow>
     (\<exists>r b. map_of (mgr_rows m) rid = Some r \<and> map_of (mgr_cancel_events m) rid = Some b \<and>
        (row_status r = Queued \<or> row_status r = Cancelling \<and> b))"
| "phase_ok m rid (Working _ _) \<longleftrightarrow>
     (\<exists>r. map_of (mgr_rows m) rid = Some r \<and> (row_status r = Running \<or> row_status r = Cancelling))"
| "phase_ok m rid _ \<longleftrightarrow> True"

definition holds_gate :: "manager \<Rightarrow> lease \<Rightarrow> bool" where
  "holds_gate m l \<longleftrightarrow> \<not> lease_released l \<and> gate_active (mgr_gate m) = Some (lease_operation l)"

definition run_inv :: "run_system \<Rightarrow> bool" where
  "run_inv s \<longleftrightarrow>
     one_active_per_key (mgr_rows (rs_mgr s)) \<and>
     (gate_active (mgr_gate (rs_mgr s)) = None \<and> rs_exec s = [] \<and> rs_other s = None
      \<or> (\<exists>l. holds_gate (rs_mgr s) l \<and> rs_exec s = [] \<and> rs_other s = Some l)
      \<or> (\<exists>rid ph l. holds_gate (rs_mgr s) l \<and> op_id (lease_operation l) = rid
            \<and> rs_exec s = [(rid, ph, l)] \<and> rs_other s = None \<and> phase_ok (rs_mgr s) rid ph))"

definition phase_open :: "exec_phase \<Rightarrow> bool" where
  "phase_open ph \<longleftrightarrow> (case ph of Spawned \<Rightarrow> True | Working _ _ \<Rightarrow> True | _ \<Rightarrow> False)"

text \<open>What holds when SQLite does not fail: an active row is being executed.\<close>

definition rows_tracked :: "run_system \<Rightarrow> bool" where
  "rows_tracked s \<longleftrightarrow>
     (\<forall>rid r. map_of (mgr_rows (rs_mgr s)) rid = Some r \<longrightarrow> is_active (row_status r) \<longrightarrow>
        (\<exists>ph l. (rid, ph, l) \<in> set (rs_exec s) \<and> phase_open ph))"

lemma run_inv_idle:
  "run_inv s \<Longrightarrow> gate_active (mgr_gate (rs_mgr s)) = None \<Longrightarrow> rs_exec s = [] \<and> rs_other s = None"
  by (auto simp: run_inv_def holds_gate_def)

lemma run_inv_exec:
  assumes "run_inv s" and "(rid, ph, l) \<in> set (rs_exec s)"
  shows "rs_exec s = [(rid, ph, l)]" "rs_other s = None" "holds_gate (rs_mgr s) l"
    "op_id (lease_operation l) = rid" "phase_ok (rs_mgr s) rid ph"
    "one_active_per_key (mgr_rows (rs_mgr s))"
  using assms by (auto simp: run_inv_def)

lemma set_phase_single [simp]: "set_phase rid ph' [(rid, ph, l)] = [(rid, ph', l)]"
  by (simp add: set_phase_def)

lemma run_invI_exec:
  assumes "one_active_per_key (mgr_rows m)" "holds_gate m l" "op_id (lease_operation l) = rid"
    "phase_ok m rid ph"
  shows "run_inv \<lparr>rs_mgr = m, rs_exec = [(rid, ph, l)], rs_other = None\<rparr>"
  using assms by (auto simp: run_inv_def)

lemma give_back_free:
  "holds_gate m l \<Longrightarrow> gate_active (mgr_gate (exec_release l m)) = None"
  by (simp add: holds_gate_def exec_release_def lease_give_back_def lease_release_def
      gate_release_active)

text \<open>How each phase of an execution changes the rows, and nothing else.\<close>

lemma update_run_frame:
  assumes "update_run now db rid us m = Inr m'"
  shows "mgr_cancel_events m' = mgr_cancel_events m" "mgr_threads m' = mgr_threads m"
    "mgr_accepting m' = mgr_accepting m" "mgr_gate m' = mgr_gate m"
    "one_active_per_key (mgr_rows m) \<Longrightarrow> one_active_per_key (mgr_rows m')"
  using assms by (auto simp: update_run_def Let_def split: if_splits option.splits)

lemma bookkeeping_failure_frame [simp]:
  "mgr_cancel_events (bookkeeping_failure now rt db rid m) = mgr_cancel_events m"
  "mgr_gate (bookkeeping_failure now rt db rid m) = mgr_gate m"
  "one_active_per_key (mgr_rows m) \<Longrightarrow>
     one_active_per_key (mgr_rows (bookkeeping_failure now rt db rid m))"
  by (auto simp: bookkeeping_failure_def update_run_frame split: sum.splits)

lemma update_run_advance:
  assumes "update_run now db rid us m = Inr m'" and "us \<noteq> []"
    and "map_of (mgr_rows m) rid = Some r" and "is_active (row_status r)"
    and "row_status r \<le> row_status (fold apply_update us r)"
  shows "rows_advance (mgr_rows m) (mgr_rows m')"
  using assms by (elim update_run_Inr) (auto intro: rows_advance_update)

lemma bookkeeping_failure_advance:
  assumes "map_of (mgr_rows m) rid = Some r" and "is_active (row_status r)"
  shows "rows_advance (mgr_rows m) (mgr_rows (bookkeeping_failure now rt db rid m))"
  using assms
  by (auto simp: bookkeeping_failure_def active_le_terminal split: sum.splits
      intro!: update_run_advance [OF _ _ assms])

lemma bookkeeping_failure_closes:
  assumes "map_of (mgr_rows m) rid = Some r" and "one_active_per_key (mgr_rows m)"
  shows "\<exists>r'. mgr_rows (bookkeeping_failure now rt True rid m) = AList.update rid r' (mgr_rows m)
    \<and> \<not> is_active (row_status r')"
proof -
  obtain m' where m': "update_run now True rid (bookkeeping_updates now rt) m = Inr m'"
    using update_run_terminal_succeeds [OF assms(1,2), of "bookkeeping_updates now rt" now] by auto
  then obtain r2 where "mgr_rows m' = AList.update rid
      ((fold apply_update (bookkeeping_updates now rt) r2)\<lparr>row_updated_at := now\<rparr>) (mgr_rows m)"
    by (rule update_run_Inr) auto
  then show ?thesis
    by (intro exI conjI, simp add: bookkeeping_failure_def m', simp)
qed

section \<open>Each step keeps the invariant\<close>

lemma lease_give_back_fresh:
  assumes "gate_acquire env ty oid g0 = Inr (g, l)"
  shows "gate_active (lease_give_back l g) = None"
  using gate_acquireD(3,4) [OF assms]
  by (simp add: lease_give_back_def lease_release_def gate_release_active)

lemma map_of_append_other:
  "map_of R rid = None \<Longrightarrow>
     map_of (R @ [(rid, r)]) k = (if k = rid then Some r else map_of R k)"
  by (auto simp: map_add_def split: option.splits)

lemma start_run_Inr:
  assumes "start_run env io req m = (m', Inr (rid, l))"
  shows "holds_gate m' l" "op_id (lease_operation l) = rid" "gate_active (mgr_gate m) = None"
    "mgr_rows m' = mgr_rows m @ [(rid, queued_row req (io_now io))]"
    "map_of (mgr_rows m) rid = None" "one_active_per_key (mgr_rows m')"
    "map_of (mgr_cancel_events m') rid = Some False"
proof -
  let ?rid = "run_id (env_uuid env)"
  obtain g rows where acq: "gate_acquire env (req_action req) (Some ?rid) (mgr_gate m) = Inr (g, l)"
    and ins: "insert_run rid (queued_row req (io_now io)) (mgr_rows m) = Some rows"
    and rid: "rid = ?rid"
    and m': "m' = m\<lparr>mgr_gate := g, mgr_rows := rows,
       mgr_cancel_events := AList.update rid False (mgr_cancel_events m),
       mgr_threads := rid # mgr_threads m\<rparr>"
    using assms by (auto simp: start_run_def Let_def split: if_splits sum.splits option.splits)
  note acqD = gate_acquireD [OF acq]
  show "holds_gate m' l" using acqD m' by (simp add: holds_gate_def)
  show "op_id (lease_operation l) = rid" using acqD(6) rid by simp
  show "gate_active (mgr_gate m) = None" by (rule acqD(2))
  show "mgr_rows m' = mgr_rows m @ [(rid, queued_row req (io_now io))]"
    "map_of (mgr_rows m) rid = None" "one_active_per_key (mgr_rows m')"
    using insert_run_Some [OF ins] m' by simp_all
  show "map_of (mgr_cancel_events m') rid = Some False" using m' by (simp add: table_simps)
qed

text \<open>A start that fails leaves the gate as it was; at most it leaves a failed row behind.\<close>

definition failed_start_rows :: "bool \<Rightarrow> run_table \<Rightarrow> run_table \<Rightarrow> bool" where
  "failed_start_rows recorded R R' \<longleftrightarrow>
     R' = R \<or> (\<exists>rid r. map_of R rid = None \<and> R' = R @ [(rid, r)]
                 \<and> (recorded \<longrightarrow> \<not> is_active (row_status r)))"

lemma update_append_last:
  "map_of R rid = None \<Longrightarrow> AList.update rid r' (R @ [(rid, r)]) = R @ [(rid, r')]"
  by (induction R) (auto split: if_splits)

lemma start_run_Inl:
  assumes "start_run env io req m = (m', Inl e)" and "one_active_per_key (mgr_rows m)"
  shows "m' = m \<or> gate_active (mgr_gate m) = None \<and> gate_active (mgr_gate m') = None
      \<and> one_active_per_key (mgr_rows m')
      \<and> failed_start_rows (io_insert_ok io \<and> io_update_ok io) (mgr_rows m) (mgr_rows m')"
proof (cases "mgr_accepting m")
  case accepting: True
  let ?rid = "run_id (env_uuid env)"
  show ?thesis
  proof (cases "gate_acquire env (req_action req) (Some ?rid) (mgr_gate m)")
    case (Inr gl)
    obtain g l where acq: "gate_acquire env (req_action req) (Some ?rid) (mgr_gate m) = Inr (g, l)"
      using Inr by (cases gl) simp
    note free = gate_acquireD(2) [OF acq] lease_give_back_fresh [OF acq]
    show ?thesis
    proof (cases "io_insert_ok io")
      case False
      with assms accepting acq free show ?thesis
        by (auto simp: start_run_def failed_start_rows_def)
    next
      case ins_ok: True
      show ?thesis
      proof (cases "insert_run ?rid (queued_row req (io_now io)) (mgr_rows m)")
        case None
        with assms accepting acq free ins_ok show ?thesis
          by (auto simp: start_run_def failed_start_rows_def)
      next
        case (Some rows)
        note ins = insert_run_Some [OF Some]
        let ?d = "drop_run ?rid (m\<lparr>mgr_gate := g, mgr_rows := rows,
           mgr_cancel_events := AList.update ?rid False (mgr_cancel_events m),
           mgr_threads := ?rid # mgr_threads m\<rparr>)"
        let ?us = "[U_status Failed, U_completed_at (io_now io), U_runtime_seconds 0,
           U_error ''The background worker could not be started.'',
           U_current_message (req_task_name req @ '' could not be started.'')]"
        let ?upd = "update_run (io_now io) (io_update_ok io) ?rid ?us ?d"
        have rows: "mgr_rows ?d = mgr_rows m @ [(?rid, queued_row req (io_now io))]"
          and gate: "mgr_gate ?d = g"
          using ins by (simp_all add: drop_run_def)
        have "\<not> io_thread_ok io" and
          m': "mgr_gate m' = lease_give_back l g" and
          mr: "(\<exists>e. ?upd = Inl e) \<and> mgr_rows m' = mgr_rows ?d
               \<or> (\<exists>m2. ?upd = Inr m2 \<and> mgr_rows m' = mgr_rows m2)"
          using assms(1) accepting acq ins_ok Some gate
          by (auto simp: start_run_def Let_def update_run_frame(4) split: if_splits sum.splits)
        have row: "map_of (mgr_rows ?d) ?rid = Some (queued_row req (io_now io))"
          unfolding rows by (simp add: map_of_append_other [OF ins(2)] del: map_of_append)
        have one: "one_active_per_key (mgr_rows ?d)" using ins rows by simp
        from mr show ?thesis
        proof
          assume "(\<exists>e. ?upd = Inl e) \<and> mgr_rows m' = mgr_rows ?d"
          moreover have "\<exists>m2. ?upd = Inr m2" if "io_update_ok io"
            using update_run_terminal_succeeds [OF row one, of ?us] that by simp
          ultimately have "\<not> io_update_ok io" "mgr_rows m' = mgr_rows ?d" by auto
          then show ?thesis
            using free m' rows one ins(2) by (auto simp: failed_start_rows_def)
        next
          assume "\<exists>m2. ?upd = Inr m2 \<and> mgr_rows m' = mgr_rows m2"
          then obtain m2 where m2: "?upd = Inr m2" "mgr_rows m' = mgr_rows m2" by blast
          from m2(1) obtain r where "mgr_rows m2 =
              AList.update ?rid ((fold apply_update ?us r)\<lparr>row_updated_at := io_now io\<rparr>) (mgr_rows ?d)"
            and "one_active_per_key (mgr_rows m2)"
            by (rule update_run_Inr) auto
          then show ?thesis
            using free m' rows ins(2) m2(2)
            by (auto simp: failed_start_rows_def update_append_last)
        qed
      qed
    qed
  qed (use assms accepting in \<open>auto simp: start_run_def\<close>)
qed (use assms in \<open>auto simp: start_run_def\<close>)

lemma failed_start_advance: "failed_start_rows ok R R' \<Longrightarrow> rows_advance R R'"
  by (auto simp: failed_start_rows_def rows_advance_append)


definition rows_of :: "run_system \<Rightarrow> run_table" where
  "rows_of s = mgr_rows (rs_mgr s)"

definition step_good :: "bool \<Rightarrow> run_system \<Rightarrow> run_system \<Rightarrow> bool" where
  "step_good ok s t \<longleftrightarrow> run_inv t \<and> rows_advance (rows_of s) (rows_of t) \<and>
     (ok \<longrightarrow> rows_tracked s \<longrightarrow> rows_tracked t)"

lemma step_goodI:
  "run_inv t \<Longrightarrow> rows_advance (rows_of s) (rows_of t) \<Longrightarrow>
     (ok \<Longrightarrow> rows_tracked s \<Longrightarrow> rows_tracked t) \<Longrightarrow> step_good ok s t"
  by (simp add: step_good_def)

lemma run_invI_free:
  "one_active_per_key (mgr_rows m) \<Longrightarrow> gate_active (mgr_gate m) = None \<Longrightarrow>
     run_inv \<lparr>rs_mgr = m, rs_exec = [], rs_other = None\<rparr>"
  by (simp add: run_inv_def)

lemma run_inv_one_active: "run_inv s \<Longrightarrow> one_active_per_key (rows_of s)"
  by (simp add: run_inv_def rows_of_def)

lemma run_system_eqI:
  fixes s :: run_system
  assumes "rs_mgr s = m" "rs_exec s = e" "rs_other s = oth"
  shows "s = \<lparr>rs_mgr = m, rs_exec = e, rs_other = oth\<rparr>"
  using assms by (cases s) simp

lemma run_inv_free_form:
  "run_inv s \<Longrightarrow> gate_active (mgr_gate (rs_mgr s)) = None \<Longrightarrow>
     s = \<lparr>rs_mgr = rs_mgr s, rs_exec = [], rs_other = None\<rparr>"
  by (rule run_system_eqI) (simp_all add: run_inv_idle)

lemma run_inv_exec_form:
  "run_inv s \<Longrightarrow> (rid, ph, l) \<in> set (rs_exec s) \<Longrightarrow>
     s = \<lparr>rs_mgr = rs_mgr s, rs_exec = [(rid, ph, l)], rs_other = None\<rparr>"
  by (rule run_system_eqI [OF refl run_inv_exec(1,2)])

text \<open>A row that is not active any more leaves only what was tracked before.\<close>

lemma rows_tracked_single:
  "rows_tracked \<lparr>rs_mgr = m, rs_exec = [(rid, ph, l)], rs_other = x\<rparr> \<longleftrightarrow>
     (\<forall>k r. map_of (mgr_rows m) k = Some r \<longrightarrow> is_active (row_status r) \<longrightarrow> k = rid \<and> phase_open ph)"
  by (auto simp: rows_tracked_def)

lemma rows_tracked_none:
  "rows_tracked \<lparr>rs_mgr = m, rs_exec = [], rs_other = x\<rparr> \<longleftrightarrow>
     (\<forall>k r. map_of (mgr_rows m) k = Some r \<longrightarrow> \<not> is_active (row_status r))"
  by (auto simp: rows_tracked_def)

lemma step_good_start:
  assumes inv: "run_inv s" and st: "start_run env io req (rs_mgr s) = (m, Inr (rid, l))"
  shows "step_good ok s (s\<lparr>rs_mgr := m, rs_exec := (rid, Spawned, l) # rs_exec s\<rparr>)"
proof -
  note D = start_run_Inr [OF st]
  have s: "s = \<lparr>rs_mgr = rs_mgr s, rs_exec = [], rs_other = None\<rparr>"
    using inv D(3) by (rule run_inv_free_form)
  have look: "map_of (mgr_rows m) k =
      (if k = rid then Some (queued_row req (io_now io)) else map_of (rows_of s) k)" for k
    unfolding D(4) rows_of_def by (rule map_of_append_other [OF D(5)])
  have t: "s\<lparr>rs_mgr := m, rs_exec := (rid, Spawned, l) # rs_exec s\<rparr> =
      \<lparr>rs_mgr = m, rs_exec = [(rid, Spawned, l)], rs_other = None\<rparr>"
    using run_inv_idle [OF inv D(3)] by (intro run_system_eqI) simp_all
  show ?thesis unfolding t
  proof (rule step_goodI)
    show "run_inv \<lparr>rs_mgr = m, rs_exec = [(rid, Spawned, l)], rs_other = None\<rparr>"
      using D(1,2,6,7) look [of rid]
      by (intro run_invI_exec) (auto simp: queued_row_def)
    show "rows_advance (rows_of s)
        (rows_of \<lparr>rs_mgr = m, rs_exec = [(rid, Spawned, l)], rs_other = None\<rparr>)"
      using rows_advance_append [OF D(5)] D(4) by (simp add: rows_of_def)
    assume "rows_tracked s"
    then have "rows_tracked \<lparr>rs_mgr = rs_mgr s, rs_exec = [], rs_other = None\<rparr>" using s by simp
    then show "rows_tracked \<lparr>rs_mgr = m, rs_exec = [(rid, Spawned, l)], rs_other = None\<rparr>"
      using look by (auto simp: rows_tracked_single rows_tracked_none rows_of_def phase_open_def
          split: if_splits)
  qed
qed

lemma step_good_start_error:
  assumes inv: "run_inv s" and st: "start_run env io req (rs_mgr s) = (m, Inl e)"
    and ok: "ok \<Longrightarrow> io_insert_ok io \<and> io_update_ok io"
  shows "step_good ok s (s\<lparr>rs_mgr := m\<rparr>)"
proof -
  have one: "one_active_per_key (mgr_rows (rs_mgr s))"
    using run_inv_one_active [OF inv] by (simp add: rows_of_def)
  from start_run_Inl [OF st one] show ?thesis
  proof
    assume "m = rs_mgr s"
    then show ?thesis using inv by (simp add: step_good_def)
  next
    assume a: "gate_active (mgr_gate (rs_mgr s)) = None \<and> gate_active (mgr_gate m) = None
      \<and> one_active_per_key (mgr_rows m)
      \<and> failed_start_rows (io_insert_ok io \<and> io_update_ok io) (mgr_rows (rs_mgr s)) (mgr_rows m)"
    then have fs: "failed_start_rows (io_insert_ok io \<and> io_update_ok io) (rows_of s) (mgr_rows m)"
      by (simp add: rows_of_def)
    have s: "s = \<lparr>rs_mgr = rs_mgr s, rs_exec = [], rs_other = None\<rparr>"
      using inv a by (blast intro: run_inv_free_form)
    have t: "s\<lparr>rs_mgr := m\<rparr> = \<lparr>rs_mgr = m, rs_exec = [], rs_other = None\<rparr>"
      using run_inv_idle [OF inv] a by (intro run_system_eqI) simp_all
    show ?thesis unfolding t
    proof (rule step_goodI)
      show "run_inv \<lparr>rs_mgr = m, rs_exec = [], rs_other = None\<rparr>"
        using a by (simp add: run_invI_free)
      show "rows_advance (rows_of s) (rows_of \<lparr>rs_mgr = m, rs_exec = [], rs_other = None\<rparr>)"
        using failed_start_advance [OF fs] by (simp add: rows_of_def)
      assume "ok" and "rows_tracked s"
      then have "rows_tracked \<lparr>rs_mgr = rs_mgr s, rs_exec = [], rs_other = None\<rparr>" using s by simp
      then show "rows_tracked \<lparr>rs_mgr = m, rs_exec = [], rs_other = None\<rparr>"
        using fs ok [OF \<open>ok\<close>]
        by (auto simp: rows_tracked_none failed_start_rows_def rows_of_def map_of_append_other
            simp del: map_of_append split: if_splits)
    qed
  qed
qed

text \<open>A step of the execution \<open>rid\<close> that moves its row forward and ends in phase \<open>ph'\<close>.\<close>

lemma step_good_exec:
  assumes inv: "run_inv s" and ex: "(rid, ph, l) \<in> set (rs_exec s)"
    and one: "one_active_per_key (mgr_rows m)" and gate: "mgr_gate m = mgr_gate (rs_mgr s)"
    and ph: "phase_ok m rid ph'" and adv: "rows_advance (rows_of s) (mgr_rows m)"
    and other: "\<And>k. k \<noteq> rid \<Longrightarrow> map_of (mgr_rows m) k = map_of (rows_of s) k"
    and closed: "ok \<Longrightarrow> rows_tracked s \<Longrightarrow> phase_open ph' \<or>
       (\<forall>r. map_of (mgr_rows m) rid = Some r \<longrightarrow> \<not> is_active (row_status r))"
  shows "step_good ok s (s\<lparr>rs_mgr := m, rs_exec := set_phase rid ph' (rs_exec s)\<rparr>)"
proof -
  note E = run_inv_exec [OF inv ex]
  have s: "s = \<lparr>rs_mgr = rs_mgr s, rs_exec = [(rid, ph, l)], rs_other = None\<rparr>"
    by (rule run_inv_exec_form [OF inv ex])
  have t: "s\<lparr>rs_mgr := m, rs_exec := set_phase rid ph' (rs_exec s)\<rparr> =
      \<lparr>rs_mgr = m, rs_exec = [(rid, ph', l)], rs_other = None\<rparr>"
    using E(1,2) by (intro run_system_eqI) simp_all
  show ?thesis unfolding t
  proof (rule step_goodI)
    show "run_inv \<lparr>rs_mgr = m, rs_exec = [(rid, ph', l)], rs_other = None\<rparr>"
      using one E gate ph by (intro run_invI_exec) (simp_all add: holds_gate_def)
    show "rows_advance (rows_of s) (rows_of \<lparr>rs_mgr = m, rs_exec = [(rid, ph', l)], rs_other = None\<rparr>)"
      using adv by (simp add: rows_of_def)
    assume "ok" and tr: "rows_tracked s"
    then have "rows_tracked \<lparr>rs_mgr = rs_mgr s, rs_exec = [(rid, ph, l)], rs_other = None\<rparr>"
      using s by simp
    then show "rows_tracked \<lparr>rs_mgr = m, rs_exec = [(rid, ph', l)], rs_other = None\<rparr>"
      using other closed [OF \<open>ok\<close> tr] unfolding rows_tracked_single rows_of_def
      by metis
  qed
qed


text \<open>The operations of an execution, each as an instance of \<open>step_good_exec\<close>.\<close>

lemma update_run_other:
  assumes "update_run now db rid us m = Inr m'" and "k \<noteq> rid"
  shows "map_of (mgr_rows m') k = map_of (mgr_rows m) k"
  using assms by (auto simp: update_run_def Let_def table_simps split: if_splits option.splits)

lemma bookkeeping_failure_other:
  "k \<noteq> rid \<Longrightarrow>
     map_of (mgr_rows (bookkeeping_failure now rt db rid m)) k = map_of (mgr_rows m) k"
  by (auto simp: bookkeeping_failure_def update_run_other split: sum.splits)

lemma bookkeeping_failure_closed:
  assumes "map_of (mgr_rows m) rid = Some r" and "one_active_per_key (mgr_rows m)"
    and "map_of (mgr_rows (bookkeeping_failure now rt True rid m)) rid = Some r'"
  shows "\<not> is_active (row_status r')"
  using bookkeeping_failure_closes [OF assms(1,2), of now rt] assms(3) by (auto simp: table_simps)

lemma run_inv_active_row:
  assumes "run_inv s" and "(rid, ph, l) \<in> set (rs_exec s)" and "phase_open ph"
  obtains r where "map_of (rows_of s) rid = Some r" and "is_active (row_status r)"
  using run_inv_exec(5) [OF assms(1,2)] assms(3)
  by (cases ph) (auto simp: phase_open_def rows_of_def)

lemma step_good_failed:
  assumes inv: "run_inv s" and ex: "(rid, ph, l) \<in> set (rs_exec s)" and op: "phase_open ph"
    and db: "ok \<Longrightarrow> db"
  shows "step_good ok s (s\<lparr>rs_mgr := bookkeeping_failure now rt db rid (rs_mgr s),
           rs_exec := set_phase rid Recorded (rs_exec s)\<rparr>)"
proof -
  obtain r where r: "map_of (rows_of s) rid = Some r" "is_active (row_status r)"
    using run_inv_active_row [OF inv ex op] .
  note r' = r(1) [unfolded rows_of_def] and one = run_inv_exec(6) [OF inv ex]
  show ?thesis
  proof (rule step_good_exec [OF inv ex])
    show "rows_advance (rows_of s) (mgr_rows (bookkeeping_failure now rt db rid (rs_mgr s)))"
      unfolding rows_of_def by (rule bookkeeping_failure_advance [OF r' r(2)])
    assume ok
    then have db using db by simp
    then show "phase_open Recorded \<or>
      (\<forall>r. map_of (mgr_rows (bookkeeping_failure now rt db rid (rs_mgr s))) rid = Some r \<longrightarrow>
         \<not> is_active (row_status r))"
      using bookkeeping_failure_closed [OF r' one] by simp
  qed (simp_all add: one bookkeeping_failure_other rows_of_def)
qed

lemma step_good_terminal:
  assumes inv: "run_inv s" and ex: "(rid, ph, l) \<in> set (rs_exec s)" and op: "phase_open ph"
    and upd: "update_run now db rid us (rs_mgr s) = Inr m" and us: "us \<noteq> []"
    and terminal: "\<And>r. \<not> is_active (row_status (fold apply_update us r))"
  shows "step_good ok s (s\<lparr>rs_mgr := m, rs_exec := set_phase rid Recorded (rs_exec s)\<rparr>)"
proof -
  obtain r where r: "map_of (rows_of s) rid = Some r" "is_active (row_status r)"
    using run_inv_active_row [OF inv ex op] .
  note r' = r(1) [unfolded rows_of_def] and one = run_inv_exec(6) [OF inv ex]
  have upd_row: "mgr_rows m =
      AList.update rid ((fold apply_update us r)\<lparr>row_updated_at := now\<rparr>) (rows_of s)"
    using upd us r' by (auto elim!: update_run_Inr simp: rows_of_def)
  show ?thesis
  proof (rule step_good_exec [OF inv ex])
    show "one_active_per_key (mgr_rows m)" using update_run_frame(5) [OF upd one] .
    show "mgr_gate m = mgr_gate (rs_mgr s)" using update_run_frame(4) [OF upd] .
    show "rows_advance (rows_of s) (mgr_rows m)"
      unfolding rows_of_def
      by (rule update_run_advance [OF upd us r' r(2) active_le_terminal [OF r(2) terminal]])
    show "map_of (mgr_rows m) k = map_of (rows_of s) k" if "k \<noteq> rid" for k
      using update_run_other [OF upd that] by (simp add: rows_of_def)
    show "phase_open Recorded \<or>
      (\<forall>r. map_of (mgr_rows m) rid = Some r \<longrightarrow> \<not> is_active (row_status r))"
      using terminal by (simp add: upd_row table_simps)
  qed simp
qed

lemma exec_begin_over_cases:
  assumes "exec_begin t0 now rt db1 db2 db3 rid m0 = (m, res)"
    and "res = BeginCancelled \<or> res = BeginFailed"
  shows "m = bookkeeping_failure now rt db3 rid m0 \<or>
    (\<exists>run. update_run now db2 rid (cancelled_updates t0 now run) m0 = Inr m)"
proof (cases "get_run db1 rid m0")
  case (Inl e) then show ?thesis using assms by (simp add: exec_begin_def)
next
  case (Inr run)
  show ?thesis
  proof (cases "event_is_set rid m0")
    case True
    with Inr assms show ?thesis
      by (cases "update_run now db2 rid (cancelled_updates t0 now run) m0")
        (auto simp: exec_begin_def)
  next
    case False
    with Inr assms show ?thesis
      by (cases "update_run now db2 rid (running_updates t0 run) m0") (auto simp: exec_begin_def)
  qed
qed

lemma step_good_begin_over:
  assumes inv: "run_inv s" and ex: "(rid, Spawned, l) \<in> set (rs_exec s)"
    and bg: "exec_begin t0 now rt db1 db2 db3 rid (rs_mgr s) = (m, res)"
    and res: "res = BeginCancelled \<or> res = BeginFailed" and ok: "ok \<Longrightarrow> db1 \<and> db2 \<and> db3"
  shows "step_good ok s (s\<lparr>rs_mgr := m, rs_exec := set_phase rid Recorded (rs_exec s)\<rparr>)"
proof -
  have op: "phase_open Spawned" by (simp add: phase_open_def)
  have db: "ok \<Longrightarrow> db3" using ok by simp
  from exec_begin_over_cases [OF bg res] show ?thesis
  proof
    assume "m = bookkeeping_failure now rt db3 rid (rs_mgr s)"
    then show ?thesis using step_good_failed [OF inv ex op db] by simp
  next
    assume "\<exists>run. update_run now db2 rid (cancelled_updates t0 now run) (rs_mgr s) = Inr m"
    then obtain run where upd: "update_run now db2 rid (cancelled_updates t0 now run) (rs_mgr s) = Inr m" ..
    show ?thesis by (rule step_good_terminal [OF inv ex op upd]) simp_all
  qed
qed

lemma step_good_record:
  assumes inv: "run_inv s" and ex: "(rid, Working run latest, l) \<in> set (rs_exec s)"
    and out: "\<not> is_active (out_status out)" and ok: "ok \<Longrightarrow> db1 \<and> db2"
  shows "step_good ok s (s\<lparr>rs_mgr := exec_record now rt db1 db2 rid out (rs_mgr s),
           rs_exec := set_phase rid Recorded (rs_exec s)\<rparr>)"
proof -
  have op: "phase_open (Working run latest)" by (simp add: phase_open_def)
  show ?thesis
  proof (cases "update_run now db1 rid (outcome_updates now rt out) (rs_mgr s)")
    case (Inl e)
    have "ok \<Longrightarrow> db2" using ok by simp
    from step_good_failed [OF inv ex op this] Inl show ?thesis by (simp add: exec_record_def)
  next
    case (Inr m)
    have "step_good ok s (s\<lparr>rs_mgr := m, rs_exec := set_phase rid Recorded (rs_exec s)\<rparr>)"
      by (rule step_good_terminal [OF inv ex op Inr]) (simp_all add: out)
    with Inr show ?thesis by (simp add: exec_record_def)
  qed
qed


lemma step_good_begin:
  assumes inv: "run_inv s" and ex: "(rid, Spawned, l) \<in> set (rs_exec s)"
    and bg: "exec_begin t0 now rt db1 db2 db3 rid (rs_mgr s) = (m, BeginRunning run)"
  shows "step_good ok s (s\<lparr>rs_mgr := m, rs_exec := set_phase rid (Working run []) (rs_exec s)\<rparr>)"
proof -
  let ?us = "running_updates t0 run"
  have ev: "\<not> event_is_set rid (rs_mgr s)"
    and upd: "update_run now db2 rid ?us (rs_mgr s) = Inr m"
    using bg by (auto simp: exec_begin_def split: sum.splits if_splits)
  from run_inv_exec(5) [OF inv ex] ev obtain r where
    r: "map_of (rows_of s) rid = Some r" "row_status r = Queued"
    by (auto simp: event_is_set_def rows_of_def)
  note one = run_inv_exec(6) [OF inv ex]
  have row: "mgr_rows m =
      AList.update rid ((fold apply_update ?us r)\<lparr>row_updated_at := now\<rparr>) (rows_of s)"
    using upd r by (auto elim!: update_run_Inr simp: rows_of_def)
  show ?thesis
  proof (rule step_good_exec [OF inv ex])
    show "one_active_per_key (mgr_rows m)" using update_run_frame(5) [OF upd one] .
    show "mgr_gate m = mgr_gate (rs_mgr s)" using update_run_frame(4) [OF upd] .
    show "phase_ok m rid (Working run [])" by (simp add: row table_simps)
    show "rows_advance (rows_of s) (mgr_rows m)"
      unfolding row by (rule rows_advance_update [OF r(1)]) (simp_all add: r(2) less_eq_run_status_def)
    show "map_of (mgr_rows m) k = map_of (rows_of s) k" if "k \<noteq> rid" for k
      using update_run_other [OF upd that] by (simp add: rows_of_def)
  qed (simp_all add: phase_open_def)
qed

lemma step_good_same:
  assumes inv: "run_inv s" and ex: "(rid, ph, l) \<in> set (rs_exec s)"
    and rows: "mgr_rows m = rows_of s" and gate: "mgr_gate m = mgr_gate (rs_mgr s)"
    and ph: "phase_ok m rid ph'" and op: "phase_open ph \<longrightarrow> phase_open ph'"
  shows "step_good ok s (s\<lparr>rs_mgr := m, rs_exec := set_phase rid ph' (rs_exec s)\<rparr>)"
proof (rule step_good_exec [OF inv ex _ gate ph])
  show "one_active_per_key (mgr_rows m)" using run_inv_one_active [OF inv] rows by simp
  assume "rows_tracked s"
  with run_inv_exec(1) [OF inv ex] have
    "phase_open ph \<or> (\<forall>r. map_of (mgr_rows m) rid = Some r \<longrightarrow> \<not> is_active (row_status r))"
    by (auto simp: rows_tracked_def rows rows_of_def)
  with op show
    "phase_open ph' \<or> (\<forall>r. map_of (mgr_rows m) rid = Some r \<longrightarrow> \<not> is_active (row_status r))"
    by blast
qed (simp_all add: rows)

lemma step_good_progress:
  assumes inv: "run_inv s" and ex: "(rid, Working run latest, l) \<in> set (rs_exec s)"
    and pr: "exec_progress now db rid run cur tot item details (rs_mgr s) latest = (m, latest', err)"
  shows "step_good ok s (s\<lparr>rs_mgr := m, rs_exec := set_phase rid (Working run latest') (rs_exec s)\<rparr>)"
proof -
  have ph: "phase_ok (rs_mgr s) rid (Working run latest)" by (rule run_inv_exec(5) [OF inv ex])
  let ?us = "progress_updates run cur tot item details"
  have up: "m = rs_mgr s \<or> update_run now db rid ?us (rs_mgr s) = Inr m"
    using pr by (cases "update_run now db rid ?us (rs_mgr s)") (auto simp: exec_progress_def)
  from up show ?thesis
  proof
    assume "m = rs_mgr s"
    then show ?thesis using step_good_same [OF inv ex, of m "Working run latest'" ok] ph
      by (simp add: rows_of_def phase_open_def)
  next
    assume upd: "update_run now db rid ?us (rs_mgr s) = Inr m"
    from ph obtain r where r: "map_of (rows_of s) rid = Some r"
        "row_status r = Running \<or> row_status r = Cancelling" by (auto simp: rows_of_def)
    have row: "mgr_rows m =
        AList.update rid ((fold apply_update ?us r)\<lparr>row_updated_at := now\<rparr>) (rows_of s)"
      using upd r by (auto elim!: update_run_Inr simp: rows_of_def)
    show ?thesis
    proof (rule step_good_exec [OF inv ex])
      show "one_active_per_key (mgr_rows m)"
        using update_run_frame(5) [OF upd run_inv_exec(6) [OF inv ex]] .
      show "mgr_gate m = mgr_gate (rs_mgr s)" using update_run_frame(4) [OF upd] .
      show "phase_ok m rid (Working run latest')" using r(2) by (simp add: row table_simps)
      show "rows_advance (rows_of s) (mgr_rows m)"
        unfolding row using r(2) by (intro rows_advance_update [OF r(1)]) auto
      show "map_of (mgr_rows m) k = map_of (rows_of s) k" if "k \<noteq> rid" for k
        using update_run_other [OF upd that] by (simp add: rows_of_def)
    qed (simp_all add: phase_open_def)
  qed
qed

lemma step_good_pop:
  assumes inv: "run_inv s" and ex: "(rid, Recorded, l) \<in> set (rs_exec s)"
  shows "step_good ok s (s\<lparr>rs_mgr := exec_pop rid (rs_mgr s),
           rs_exec := set_phase rid Cleaned (rs_exec s)\<rparr>)"
  by (rule step_good_same [OF inv ex])
    (simp_all add: exec_pop_def drop_run_def rows_of_def phase_open_def)

lemma step_good_release:
  assumes inv: "run_inv s" and ex: "(rid, Cleaned, l) \<in> set (rs_exec s)"
  shows "step_good ok s (s\<lparr>rs_mgr := exec_release l (rs_mgr s),
           rs_exec := filter (\<lambda>(i, _). i \<noteq> rid) (rs_exec s)\<rparr>)"
proof -
  note E = run_inv_exec [OF inv ex]
  have s: "s = \<lparr>rs_mgr = rs_mgr s, rs_exec = [(rid, Cleaned, l)], rs_other = None\<rparr>"
    by (rule run_inv_exec_form [OF inv ex])
  have t: "s\<lparr>rs_mgr := exec_release l (rs_mgr s), rs_exec := filter (\<lambda>(i, _). i \<noteq> rid) (rs_exec s)\<rparr>
      = \<lparr>rs_mgr = exec_release l (rs_mgr s), rs_exec = [], rs_other = None\<rparr>"
    using E(1,2) by (intro run_system_eqI) simp_all
  have rows: "mgr_rows (exec_release l (rs_mgr s)) = rows_of s"
    by (simp add: exec_release_def rows_of_def)
  show ?thesis unfolding t
  proof (rule step_goodI)
    show "run_inv \<lparr>rs_mgr = exec_release l (rs_mgr s), rs_exec = [], rs_other = None\<rparr>"
      using E(3,6) rows by (intro run_invI_free give_back_free) (simp_all add: rows_of_def)
    assume "rows_tracked s"
    then have "rows_tracked \<lparr>rs_mgr = rs_mgr s, rs_exec = [(rid, Cleaned, l)], rs_other = None\<rparr>"
      using s by simp
    then show "rows_tracked \<lparr>rs_mgr = exec_release l (rs_mgr s), rs_exec = [], rs_other = None\<rparr>"
      by (auto simp: rows_tracked_single rows_tracked_none phase_open_def rows rows_of_def)
  qed (simp add: rows_of_def exec_release_def)
qed


text \<open>Operations outside the executions.\<close>

lemma step_good_frame:
  assumes inv: "run_inv s"
    and gate: "gate_active (mgr_gate m) = gate_active (mgr_gate (rs_mgr s))"
    and one: "one_active_per_key (mgr_rows m)"
    and adv: "rows_advance (rows_of s) (mgr_rows m)"
    and ph: "\<And>rid ph. phase_ok (rs_mgr s) rid ph \<Longrightarrow> phase_ok m rid ph"
    and act: "\<And>k r'. map_of (mgr_rows m) k = Some r' \<Longrightarrow> is_active (row_status r') \<Longrightarrow>
      \<exists>r. map_of (rows_of s) k = Some r \<and> is_active (row_status r)"
  shows "step_good ok s (s\<lparr>rs_mgr := m\<rparr>)"
proof (rule step_goodI)
  have "holds_gate m l \<longleftrightarrow> holds_gate (rs_mgr s) l" for l by (simp add: holds_gate_def gate)
  then show "run_inv (s\<lparr>rs_mgr := m\<rparr>)"
    using inv one gate ph unfolding run_inv_def by (simp, blast)
  show "rows_advance (rows_of s) (rows_of (s\<lparr>rs_mgr := m\<rparr>))" using adv by (simp add: rows_of_def)
  assume "rows_tracked s"
  then show "rows_tracked (s\<lparr>rs_mgr := m\<rparr>)"
    using act unfolding rows_tracked_def rows_of_def by fastforce
qed

lemma set_event_frame [simp]:
  "mgr_rows (set_event rid m) = mgr_rows m" "mgr_gate (set_event rid m) = mgr_gate m"
  by (simp_all add: set_event_def split: option.splits)

lemma map_of_set_event:
  "map_of (mgr_cancel_events (set_event rid m)) k =
     (if k = rid then map_option (\<lambda>_. True) (map_of (mgr_cancel_events m) k)
      else map_of (mgr_cancel_events m) k)"
  by (auto simp: set_event_def table_simps split: option.splits)

lemma phase_ok_set_event: "phase_ok m k ph \<Longrightarrow> phase_ok (set_event rid m) k ph"
  by (cases ph) (auto simp: map_of_set_event)

lemma cancel_run_cases:
  assumes "cancel_run now db1 db2 rid m = (m', res)"
  obtains "m' = m" | "m' = set_event rid m"
  | r where "map_of (mgr_rows m) rid = Some r" "row_status r = Queued \<or> row_status r = Running"
      "mgr_rows m' = AList.update rid (r\<lparr>row_status := Cancelling,
         row_current_message := ''Stopping after the current item finishes.'',
         row_updated_at := now\<rparr>) (mgr_rows m)"
      "mgr_gate m' = mgr_gate m" "mgr_cancel_events m' = mgr_cancel_events (set_event rid m)"
      "one_active_per_key (mgr_rows m')"
proof -
  let ?us = "[U_status Cancelling,
               U_current_message ''Stopping after the current item finishes.'']"
  consider "m' = m" | "m' = set_event rid m"
    | r where "map_of (mgr_rows m) rid = Some r" "row_status r = Queued \<or> row_status r = Running"
        "update_run now db2 rid ?us (set_event rid m) = Inr m'"
    using assms by (auto simp: cancel_run_def get_run_def Let_def split: sum.splits if_splits option.splits)
  then show thesis
  proof cases
    case (3 r)
    from 3(3) show thesis
    proof (rule update_run_Inr)
      fix r'
      assume "map_of (mgr_rows (set_event rid m)) rid = Some r'"
        and m': "m' = (set_event rid m)\<lparr>mgr_rows := AList.update rid
          ((fold apply_update ?us r')\<lparr>row_updated_at := now\<rparr>) (mgr_rows (set_event rid m))\<rparr>"
        and one: "one_active_per_key (mgr_rows m')"
      with 3(1) have "r' = r" by simp
      with m' one 3 show thesis by (intro that(3) [of r]) simp_all
    qed simp
  qed (use that in blast)+
qed

lemma step_good_cancel:
  assumes inv: "run_inv s" and c: "cancel_run now db1 db2 rid (rs_mgr s) = (m, res)"
  shows "step_good ok s (s\<lparr>rs_mgr := m\<rparr>)"
  using c
proof (rule cancel_run_cases)
  assume "m = rs_mgr s"
  then show ?thesis using inv by (simp add: step_good_def)
next
  assume m: "m = set_event rid (rs_mgr s)"
  show ?thesis
    by (rule step_good_frame [OF inv])
      (use run_inv_one_active [OF inv] in \<open>simp_all add: m phase_ok_set_event rows_of_def\<close>)
next
  fix r
  assume r: "map_of (mgr_rows (rs_mgr s)) rid = Some r" "row_status r = Queued \<or> row_status r = Running"
    and rows: "mgr_rows m = AList.update rid (r\<lparr>row_status := Cancelling,
         row_current_message := ''Stopping after the current item finishes.'',
         row_updated_at := now\<rparr>) (mgr_rows (rs_mgr s))"
    and gate: "mgr_gate m = mgr_gate (rs_mgr s)"
    and ev: "mgr_cancel_events m = mgr_cancel_events (set_event rid (rs_mgr s))"
    and one: "one_active_per_key (mgr_rows m)"
  show ?thesis
  proof (rule step_good_frame [OF inv _ one])
    show "rows_advance (rows_of s) (mgr_rows m)"
      unfolding rows rows_of_def using r(2)
      by (intro rows_advance_update [OF r(1)]) (auto simp: less_eq_run_status_def)
    show "phase_ok (rs_mgr s) k ph \<Longrightarrow> phase_ok m k ph" for k ph
      by (cases ph) (auto simp: rows table_simps ev map_of_set_event r(1))
    show "map_of (mgr_rows m) k = Some r' \<Longrightarrow> is_active (row_status r') \<Longrightarrow>
      \<exists>r. map_of (rows_of s) k = Some r \<and> is_active (row_status r)" for k r'
      using r by (auto simp: rows table_simps rows_of_def split: if_splits)
  qed (simp add: gate)
qed

lemma step_good_skip:
  assumes inv: "run_inv s"
    and sk: "record_skipped now db uuid action task trig reason (rs_mgr s) = Inr (m, rid)"
  shows "step_good ok s (s\<lparr>rs_mgr := m\<rparr>)"
proof -
  obtain r where ins: "insert_run rid r (rows_of s) = Some (mgr_rows m)"
    and r: "\<not> is_active (row_status r)"
    and fr: "mgr_gate m = mgr_gate (rs_mgr s)" "mgr_cancel_events m = mgr_cancel_events (rs_mgr s)"
    using sk by (auto simp: record_skipped_def Let_def rows_of_def split: if_splits option.splits)
  note I = insert_run_Some [OF ins]
  have look: "map_of (mgr_rows m) k = (if k = rid then Some r else map_of (rows_of s) k)" for k
    unfolding I(1) by (rule map_of_append_other [OF I(2)])
  show ?thesis
  proof (rule step_good_frame [OF inv _ I(3)])
    show "rows_advance (rows_of s) (mgr_rows m)"
      unfolding I(1) by (rule rows_advance_append [OF I(2)])
    show "phase_ok (rs_mgr s) k ph \<Longrightarrow> phase_ok m k ph" for k ph
      using I(2) by (cases ph) (auto simp: look fr rows_of_def)
    show "map_of (mgr_rows m) k = Some r' \<Longrightarrow> is_active (row_status r') \<Longrightarrow>
      \<exists>r. map_of (rows_of s) k = Some r \<and> is_active (row_status r)" for k r'
      using r by (auto simp: look split: if_splits)
  qed (simp add: fr)
qed


lemma map_of_all_set: "map_of (map (\<lambda>(k, _). (k, True)) xs) k = map_option (\<lambda>_. True) (map_of xs k)"
  by (induction xs) auto

lemma step_good_shutdown: "run_inv s \<Longrightarrow> step_good ok s (s\<lparr>rs_mgr := shutdown_manager (rs_mgr s)\<rparr>)"
proof (rule step_good_frame)
  show "phase_ok (rs_mgr s) k ph \<Longrightarrow> phase_ok (shutdown_manager (rs_mgr s)) k ph" for k ph
    by (cases ph) (auto simp: shutdown_manager_def map_of_all_set)
qed (use run_inv_one_active in \<open>auto simp: shutdown_manager_def stop_accepting_def rows_of_def\<close>)

lemma step_good_accept:
  "run_inv s \<Longrightarrow> step_good ok s (s\<lparr>rs_mgr := manager_start_accepting (rs_mgr s)\<rparr>)"
proof (rule step_good_frame)
  show "phase_ok (rs_mgr s) k ph \<Longrightarrow> phase_ok (manager_start_accepting (rs_mgr s)) k ph" for k ph
    by (cases ph) (auto simp: manager_start_accepting_def)
qed (use run_inv_one_active in
      \<open>auto simp: manager_start_accepting_def start_accepting_def rows_of_def\<close>)

lemma step_good_rows_same:
  assumes "run_inv t" and "rows_of t = rows_of s" and "rs_exec t = rs_exec s"
  shows "step_good ok s t"
  using assms by (simp add: step_good_def rows_tracked_def rows_of_def)

lemma step_good_other_acquire:
  assumes inv: "run_inv s" and acq: "gate_acquire env ty oid (mgr_gate (rs_mgr s)) = Inr (g, l)"
  shows "step_good ok s (s\<lparr>rs_mgr := (rs_mgr s)\<lparr>mgr_gate := g\<rparr>, rs_other := Some l\<rparr>)"
proof (rule step_good_rows_same)
  note D = gate_acquireD [OF acq]
  have "rs_exec s = []" using run_inv_idle [OF inv D(2)] by simp
  then show "run_inv (s\<lparr>rs_mgr := (rs_mgr s)\<lparr>mgr_gate := g\<rparr>, rs_other := Some l\<rparr>)"
    using D(3,4) run_inv_one_active [OF inv] by (simp add: run_inv_def holds_gate_def rows_of_def)
qed (simp_all add: rows_of_def)

lemma step_good_other_release:
  assumes inv: "run_inv s" and oth: "rs_other s = Some l"
  shows "step_good ok s (s\<lparr>rs_mgr := exec_release l (rs_mgr s), rs_other := None\<rparr>)"
proof (rule step_good_rows_same)
  have "holds_gate (rs_mgr s) l" and "rs_exec s = []" using inv oth by (auto simp: run_inv_def)
  then show "run_inv (s\<lparr>rs_mgr := exec_release l (rs_mgr s), rs_other := None\<rparr>)"
    using give_back_free run_inv_one_active [OF inv]
    by (simp add: run_inv_def rows_of_def exec_release_def)
qed (simp_all add: rows_of_def exec_release_def)

lemma no_active_rows:
  "(\<And>i r. (i, r) \<in> set rows \<Longrightarrow> \<not> is_active (row_status r)) \<Longrightarrow> one_active_per_key rows"
proof -
  assume "\<And>i r. (i, r) \<in> set rows \<Longrightarrow> \<not> is_active (row_status r)"
  then have "filter (\<lambda>(_, r). is_active (row_status r)) rows = []"
    by (auto simp: filter_empty_conv)
  then show ?thesis unfolding one_active_per_key_def by simp
qed

lemma new_manager_active:
  "map_of (mgr_rows (new_manager now rows)) k = Some r \<Longrightarrow> \<not> is_active (row_status r)"
  by (auto simp: new_manager_def dest: map_of_SomeD set_mark_interrupted)

lemma run_inv_new_manager: "run_inv \<lparr>rs_mgr = new_manager now rows, rs_exec = [], rs_other = None\<rparr>"
  by (rule run_invI_free)
    (auto simp: new_manager_def new_gate_def intro!: no_active_rows dest: set_mark_interrupted)

lemma step_good_restart:
  "step_good ok s \<lparr>rs_mgr = new_manager now (mgr_rows (rs_mgr s)), rs_exec = [], rs_other = None\<rparr>"
proof (rule step_goodI [OF run_inv_new_manager])
  show "rows_advance (rows_of s)
      (rows_of \<lparr>rs_mgr = new_manager now (mgr_rows (rs_mgr s)), rs_exec = [], rs_other = None\<rparr>)"
    by (simp add: rows_of_def new_manager_def rows_advance_interrupt)
qed (auto simp: rows_tracked_none dest: new_manager_active)

section \<open>Reachable states\<close>

lemma run_step_good:
  assumes "run_step ok s t" and inv: "run_inv s"
  shows "step_good ok s t"
  using assms(1)
proof (cases rule: run_step.cases)
  case rs_start then show ?thesis using step_good_start [OF inv] by simp
next
  case rs_start_error then show ?thesis using step_good_start_error [OF inv] by simp
next
  case rs_begin then show ?thesis using step_good_begin [OF inv] by simp
next
  case rs_begin_over then show ?thesis using step_good_begin_over [OF inv] by simp
next
  case rs_progress then show ?thesis using step_good_progress [OF inv] by simp
next
  case rs_record
  then show ?thesis using step_good_record [OF inv] resolve_outcome_terminal by simp
next
  case rs_pop then show ?thesis using step_good_pop [OF inv] by simp
next
  case rs_release then show ?thesis using step_good_release [OF inv] by simp
next
  case rs_cancel then show ?thesis using step_good_cancel [OF inv] by simp
next
  case rs_skip then show ?thesis using step_good_skip [OF inv] by simp
next
  case rs_shutdown then show ?thesis using step_good_shutdown [OF inv] by simp
next
  case rs_accept then show ?thesis using step_good_accept [OF inv] by simp
next
  case rs_other_acquire then show ?thesis using step_good_other_acquire [OF inv] by simp
next
  case rs_other_release then show ?thesis using step_good_other_release [OF inv] by simp
next
  case rs_restart then show ?thesis using step_good_restart by simp
qed

lemma run_reachable_inv: "run_reachable ok s \<Longrightarrow> run_inv s"
proof (induction rule: run_reachable.induct)
  case run_init show ?case by (rule run_inv_new_manager)
next
  case run_next then show ?case using run_step_good by (simp add: step_good_def)
qed

lemma run_reachable_tracked: "run_reachable True s \<Longrightarrow> rows_tracked s"
proof (induction rule: run_reachable.induct)
  case run_init show ?case by (auto simp: rows_tracked_none dest: new_manager_active)
next
  case run_next
  then show ?case using run_step_good run_reachable_inv by (simp add: step_good_def)
qed

inductive run_steps :: "bool \<Rightarrow> run_system \<Rightarrow> run_system \<Rightarrow> bool" for ok :: bool where
  steps_refl: "run_steps ok s s"
| steps_next: "run_steps ok s t \<Longrightarrow> run_step ok t u \<Longrightarrow> run_steps ok s u"

lemma run_steps_good:
  "run_steps ok s t \<Longrightarrow> run_inv s \<Longrightarrow> run_inv t \<and> rows_advance (rows_of s) (rows_of t)"
proof (induction rule: run_steps.induct)
  case (steps_next s t u)
  then have "step_good ok t u" using run_step_good by simp
  with steps_next show ?case using rows_advance_trans by (auto simp: step_good_def)
qed simp


section \<open>One execution from start to end\<close>

text \<open>Every execution is a sequence of steps, so the invariants apply along it.\<close>

definition exec_state :: "string \<Rightarrow> exec_phase \<Rightarrow> lease \<Rightarrow> manager \<Rightarrow> run_system" where
  "exec_state rid ph l m = \<lparr>rs_mgr = m, rs_exec = [(rid, ph, l)], rs_other = None\<rparr>"

lemma run_worker_steps:
  "run_steps ok (exec_state rid (Working run latest) l m)
     (exec_state rid
        (Working run (snd (fold (worker_progress io rid run) calls (m, latest)))) l
        (fst (fold (worker_progress io rid run) calls (m, latest))))"
proof (induction calls rule: rev_induct)
  case Nil then show ?case by (simp add: steps_refl)
next
  case (snoc call calls)
  define q where "q = fold (worker_progress io rid run) calls (m, latest)"
  obtain db cur tot item details where c: "call = (db, cur, tot, item, details)" by (cases call)
  obtain m' latest' err where
    e: "exec_progress (x_now io) db rid run cur tot item details (fst q) (snd q) = (m', latest', err)"
    by (cases "exec_progress (x_now io) db rid run cur tot item details (fst q) (snd q)")
  then have r: "worker_progress io rid run call q = (m', latest')"
    by (simp add: worker_progress_def c)
  have "run_step ok (exec_state rid (Working run (snd q)) l (fst q))
      (exec_state rid (Working run latest') l m')"
    using rs_progress [of rid run "snd q" l "exec_state rid (Working run (snd q)) l (fst q)"] e
    by (simp add: exec_state_def)
  then have "run_steps ok (exec_state rid (Working run latest) l m)
      (exec_state rid (Working run latest') l m')"
    using snoc.IH by (simp add: q_def steps_next)
  then show ?case by (simp add: q_def [symmetric] r)
qed

lemma run_steps_trans: "run_steps ok t u \<Longrightarrow> run_steps ok s t \<Longrightarrow> run_steps ok s u"
  by (induction rule: run_steps.induct) (auto intro: steps_next)

text \<open>The phases before the final clean-up, then the clean-up itself.\<close>

lemma execute_finish:
  "run_steps ok (exec_state rid Recorded l m)
     \<lparr>rs_mgr = exec_release l (exec_pop rid m), rs_exec = [], rs_other = None\<rparr>"
proof -
  have "run_step ok (exec_state rid Recorded l m) (exec_state rid Cleaned l (exec_pop rid m))"
    using rs_pop [of rid l "exec_state rid Recorded l m" ok] by (simp add: exec_state_def)
  moreover have "run_step ok (exec_state rid Cleaned l (exec_pop rid m))
      \<lparr>rs_mgr = exec_release l (exec_pop rid m), rs_exec = [], rs_other = None\<rparr>"
    using rs_release [of rid l "exec_state rid Cleaned l (exec_pop rid m)" ok]
    by (simp add: exec_state_def)
  ultimately show ?thesis by (meson steps_refl steps_next)
qed

lemma execute_run_steps:
  assumes ok: "ok \<Longrightarrow> x_db_get io \<and> x_db_begin io \<and> x_db_record io \<and> x_db_fail io"
  shows "run_steps ok (exec_state rid Spawned l m)
     \<lparr>rs_mgr = execute_run io rid l m, rs_exec = [], rs_other = None\<rparr>"
proof -
  obtain m1 res where b: "exec_begin (x_started_at io) (x_now io) (x_runtime io) (x_db_get io)
      (x_db_begin io) (x_db_fail io) rid m = (m1, res)" by (metis surj_pair)
  have in_s: "(rid, Spawned, l) \<in> set (rs_exec (exec_state rid Spawned l m))"
    by (simp add: exec_state_def)
  show ?thesis
  proof (cases res)
    case (BeginRunning run)
    obtain m2 latest where w: "run_worker io rid run m1 = (m2, latest)" by (metis surj_pair)
    define out where "out = resolve_outcome (row_task_name run) (x_result io) (event_is_set rid m2)
                     (x_format io) (x_after_success io) latest"
    let ?m3 = "exec_record (x_now io) (x_runtime io) (x_db_record io) (x_db_fail io) rid out m2"
    have "run_step ok (exec_state rid Spawned l m) (exec_state rid (Working run []) l m1)"
      using rs_begin [OF in_s, of _ _ _ _ _ _ m1 run ok] b BeginRunning
      by (auto simp: exec_state_def)
    then have "run_steps ok (exec_state rid Spawned l m) (exec_state rid (Working run []) l m1)"
      by (meson steps_refl steps_next)
    moreover have "run_steps ok (exec_state rid (Working run []) l m1)
        (exec_state rid (Working run latest) l m2)"
      using run_worker_steps [of ok rid run "[]" l m1 io "x_progress io"] w by (simp add: run_worker_def)
    moreover have "run_step ok (exec_state rid (Working run latest) l m2) (exec_state rid Recorded l ?m3)"
      using rs_record [of rid run latest l "exec_state rid (Working run latest) l m2" out
          "x_result io" "event_is_set rid m2" "x_format io" "x_after_success io" ok
          "x_db_record io" "x_db_fail io" "x_now io" "x_runtime io"] ok
      by (simp add: exec_state_def out_def)
    ultimately have "run_steps ok (exec_state rid Spawned l m) (exec_state rid Recorded l ?m3)"
      by (meson run_steps_trans steps_next)
    with execute_finish have "run_steps ok (exec_state rid Spawned l m)
        \<lparr>rs_mgr = exec_release l (exec_pop rid ?m3), rs_exec = [], rs_other = None\<rparr>"
      by (meson run_steps_trans)
    then show ?thesis by (simp add: execute_run_def b BeginRunning w out_def)
  next
    case BeginCancelled
    have "run_step ok (exec_state rid Spawned l m) (exec_state rid Recorded l m1)"
      using rs_begin_over [OF in_s, of _ _ _ _ _ _ m1 res ok] b BeginCancelled ok
      by (auto simp: exec_state_def)
    then have "run_steps ok (exec_state rid Spawned l m) (exec_state rid Recorded l m1)"
      by (meson steps_refl steps_next)
    then show ?thesis using execute_finish
      by (simp add: execute_run_def b BeginCancelled) (meson run_steps_trans)
  next
    case BeginFailed
    have "run_step ok (exec_state rid Spawned l m) (exec_state rid Recorded l m1)"
      using rs_begin_over [OF in_s, of _ _ _ _ _ _ m1 res ok] b BeginFailed ok
      by (auto simp: exec_state_def)
    then have "run_steps ok (exec_state rid Spawned l m) (exec_state rid Recorded l m1)"
      by (meson steps_refl steps_next)
    then show ?thesis using execute_finish
      by (simp add: execute_run_def b BeginFailed) (meson run_steps_trans)
  qed
qed


section \<open>A concrete run\<close>

definition demo_request :: run_request where
  "demo_request = \<lparr>req_action = ''refresh'', req_task_name = ''Refresh'', req_progress_verb = ''Checked'',
     req_progress_unit = ''companies'', req_trigger_type = ''manual''\<rparr>"

definition demo_start_io :: start_io where
  "demo_start_io = \<lparr>io_now = ''2024-01-01T00:00:00'', io_insert_ok = True, io_thread_ok = True,
     io_update_ok = True\<rparr>"

definition demo_started :: "manager \<times> (run_error + string \<times> lease)" where
  "demo_started = start_run demo_env demo_start_io demo_request (new_manager [] [])"

definition demo_run_state :: run_system where
  "demo_run_state = exec_state (run_id (env_uuid demo_env)) Spawned
     (snd (projr (snd demo_started))) (fst demo_started)"

lemma demo_started_Inr:
  "demo_started = (fst demo_started,
     Inr (run_id (env_uuid demo_env), snd (projr (snd demo_started))))"
  by (simp add: demo_started_def start_run_def new_manager_def mark_interrupted_runs_def
      new_gate_def gate_acquire_def Let_def demo_start_io_def insert_run_def one_active_per_key_def)

lemma demo_reachable: "run_reachable ok demo_run_state"
proof -
  let ?s = "\<lparr>rs_mgr = new_manager [] [], rs_exec = [], rs_other = None\<rparr>"
  have "run_step ok ?s demo_run_state"
    using rs_start [of demo_env demo_start_io demo_request ?s] demo_started_Inr
    by (simp add: demo_run_state_def exec_state_def demo_started_def)
  with run_init show ?thesis by (rule run_next)
qed

lemma demo_executing:
  "(run_id (env_uuid demo_env), Spawned, snd (projr (snd demo_started))) \<in> set (rs_exec demo_run_state)"
  by (simp add: demo_run_state_def exec_state_def)

lemma demo_row:
  "map_of (mgr_rows (rs_mgr demo_run_state)) (run_id (env_uuid demo_env)) =
     Some (queued_row demo_request ''2024-01-01T00:00:00'')"
  by (simp add: demo_run_state_def exec_state_def demo_started_def start_run_def new_manager_def
      mark_interrupted_runs_def new_gate_def gate_acquire_def Let_def demo_start_io_def
      insert_run_def one_active_per_key_def)

section \<open>Properties\<close>

text \<open>C7. A run's recorded status only ever moves forward (Queued, Running, Cancelling, then a
  terminal one), and the row of a finished run never changes again, whatever the interleaving
  of starts, executions, cancellations, database failures, shutdowns and restarts.\<close>

theorem run_status_moves_forward:
  assumes "run_reachable ok s" and "run_steps ok s t"
    and "map_of (mgr_rows (rs_mgr s)) rid = Some r"
  shows "\<exists>r'. map_of (mgr_rows (rs_mgr t)) rid = Some r' \<and> row_status r \<le> row_status r'
    \<and> (\<not> is_active (row_status r) \<longrightarrow> r' = r)"
  using run_steps_good [OF assms(2) run_reachable_inv [OF assms(1)]] assms(3)
  by (simp add: rows_advance_def rows_of_def)

theorem run_status_moves_forward_witness:
  "\<exists>r'. map_of (mgr_rows (rs_mgr demo_run_state)) (run_id (env_uuid demo_env)) = Some r'
     \<and> Queued \<le> row_status r'"
  using run_status_moves_forward [OF demo_reachable steps_refl demo_row]
  by (auto simp: queued_row_def)

text \<open>C8. At most one maintenance run executes at a time. While a run executes, it is the
  operation recorded in the shared gate, no other component holds the gate, and every attempt
  to start another run raises a conflict and leaves rows, events, threads and gate as they were.\<close>

theorem executing_run_is_exclusive:
  assumes "run_reachable ok s" and "(rid, ph, l) \<in> set (rs_exec s)"
  shows "rs_exec s = [(rid, ph, l)] \<and> rs_other s = None
    \<and> gate_active (mgr_gate (rs_mgr s)) = Some (lease_operation l)
    \<and> op_id (lease_operation l) = rid
    \<and> (\<forall>env io req. \<exists>e. start_run env io req (rs_mgr s) = (rs_mgr s, Inl (Conflict e)))"
proof -
  note E = run_inv_exec [OF run_reachable_inv [OF assms(1)] assms(2)]
  then have held: "gate_active (mgr_gate (rs_mgr s)) = Some (lease_operation l)"
    by (simp add: holds_gate_def)
  then have "\<exists>e. start_run env io req (rs_mgr s) = (rs_mgr s, Inl (Conflict e))" for env io req
    by (simp add: start_run_def gate_acquire_def Let_def)
  with E held show ?thesis by blast
qed

theorem executing_run_is_exclusive_witness:
  "\<exists>e. start_run demo_env demo_start_io demo_request (rs_mgr demo_run_state)
     = (rs_mgr demo_run_state, Inl (Conflict e))"
  using executing_run_is_exclusive [OF demo_reachable demo_executing] by blast

text \<open>C9. As long as SQLite itself does not fail, no run is left behind: a row whose status is
  active belongs to the one thread executing it, so when no thread executes and no other
  component works under the gate, every row is terminal and the gate is free.\<close>

theorem no_run_left_behind:
  assumes "run_reachable True s"
  shows "(\<forall>rid r. map_of (mgr_rows (rs_mgr s)) rid = Some r \<and> is_active (row_status r) \<longrightarrow>
            (\<exists>ph l. rs_exec s = [(rid, ph, l)]))
    \<and> (rs_exec s = [] \<and> rs_other s = None \<longrightarrow> gate_active (mgr_gate (rs_mgr s)) = None)"
proof -
  have inv: "run_inv s" by (rule run_reachable_inv [OF assms])
  have "\<exists>ph l. rs_exec s = [(rid, ph, l)]"
    if "map_of (mgr_rows (rs_mgr s)) rid = Some r" "is_active (row_status r)" for rid r
    using run_reachable_tracked [OF assms] that run_inv_exec(1) [OF inv]
    unfolding rows_tracked_def by blast
  moreover have "gate_active (mgr_gate (rs_mgr s)) = None" if "rs_exec s = []" "rs_other s = None"
    using inv that by (auto simp: run_inv_def)
  ultimately show ?thesis by blast
qed

theorem no_run_left_behind_witness:
  "\<exists>ph l. rs_exec demo_run_state = [(run_id (env_uuid demo_env), ph, l)]"
  using no_run_left_behind [OF demo_reachable] demo_row by (fastforce simp: queued_row_def)

text \<open>C10. The execution thread always cleans up: whatever the database, the worker and the
  callbacks do, after the execution of a started run the shared gate is free again and the
  manager has forgotten the run's thread and cancel event; and if the database worked, the row
  is in a terminal status.\<close>

theorem execution_always_cleans_up:
  assumes "run_reachable ok s" and "(rid, Spawned, l) \<in> set (rs_exec s)"
  shows "gate_active (mgr_gate (execute_run io rid l (rs_mgr s))) = None
    \<and> map_of (mgr_cancel_events (execute_run io rid l (rs_mgr s))) rid = None
    \<and> rid \<notin> set (mgr_threads (execute_run io rid l (rs_mgr s)))
    \<and> (ok \<and> x_db_get io \<and> x_db_begin io \<and> x_db_record io \<and> x_db_fail io \<longrightarrow>
        (\<forall>r. map_of (mgr_rows (execute_run io rid l (rs_mgr s))) rid = Some r \<longrightarrow>
           \<not> is_active (row_status r)))"
proof -
  let ?t = "\<lparr>rs_mgr = execute_run io rid l (rs_mgr s), rs_exec = [], rs_other = None\<rparr>"
  have inv: "run_inv s" by (rule run_reachable_inv [OF assms(1)])
  have s: "s = exec_state rid Spawned l (rs_mgr s)"
    unfolding exec_state_def by (rule run_inv_exec_form [OF inv assms(2)])
  have "run_steps False s ?t" by (subst s) (rule execute_run_steps, simp)
  from run_steps_good [OF this inv] have "gate_active (mgr_gate (rs_mgr ?t)) = None"
    by (auto simp: run_inv_def)
  moreover have "\<not> is_active (row_status r)"
    if ok: "ok" and db: "x_db_get io \<and> x_db_begin io \<and> x_db_record io \<and> x_db_fail io"
      and r: "map_of (mgr_rows (rs_mgr ?t)) rid = Some r" for r
  proof -
    have "run_steps True s ?t" by (subst s) (rule execute_run_steps, simp add: db)
    moreover have "run_reachable True s" using assms(1) ok by simp
    ultimately have "run_reachable True ?t"
      by (induction rule: run_steps.induct) (auto intro: run_next)
    with r show ?thesis using run_reachable_tracked by (fastforce simp: rows_tracked_none)
  qed
  ultimately show ?thesis
    by (simp add: execute_run_def Let_def exec_release_def exec_pop_def drop_run_def table_simps)
qed

theorem execution_always_cleans_up_witness:
  "gate_active (mgr_gate (execute_run
     \<lparr>x_started_at = [], x_now = [], x_runtime = 0, x_db_get = True, x_db_begin = False,
      x_db_record = False, x_db_fail = False, x_progress = [], x_result = Inr [],
      x_format = (\<lambda>_. Inr []), x_after_success = None\<rparr>
     (run_id (env_uuid demo_env)) (snd (projr (snd demo_started))) (rs_mgr demo_run_state))) = None"
  using execution_always_cleans_up [OF demo_reachable demo_executing] by blast

end
