(* ===== verification/Maintenance_Scheduler.thy ===== *)
theory Maintenance_Scheduler
  imports Run_Lifecycle
begin

text \<open>
  The daily maintenance schedules (\<^verbatim>\<open>backend/maintenance_scheduler.py\<close>): the
  \<open>maintenance_schedules\<close> rows, the edits a user makes to them, and the poll that claims
  each due occurrence with a conditional UPDATE, starts the job's run, and gives the claim
  back when the run could not start.

  The time-zone database is the environment's: \<open>tz_clock\<close> maps a zone name to the local
  date and \<open>HH:MM\<close> at the moment of the call, or to \<open>None\<close> for an unknown zone.
  The poll and the edits share one lock, so each is one atomic function here.
\<close>

section \<open>Rows and registry\<close>

record schedule =
  sch_enabled :: bool
  sch_frequency :: string
  sch_run_time :: string
  sch_timezone :: string
  sch_last_date :: string
  sch_created_at :: string
  sch_updated_at :: string

type_synonym schedule_table = "(string \<times> schedule) list"

record job_definition =
  jd_task_name :: string
  jd_progress_verb :: string
  jd_progress_unit :: string
  jd_supports_scheduling :: bool
  jd_enabled :: bool
  jd_disabled_reason :: string

type_synonym registry = "(string \<times> job_definition) list"

type_synonym tz_clock = "string \<Rightarrow> (string \<times> string) option"

definition default_timezone :: string where
  "default_timezone = ''America/Denver''"

text \<open>\<open>application_timezone\<close>: the stored setting (\<open>None\<close>: no row; \<open>Some None\<close>: the
  value is not JSON) if the zone exists, else the default.\<close>

definition application_timezone :: "tz_clock \<Rightarrow> string option option \<Rightarrow> string" where
  "application_timezone tz setting =
     (case setting of
        Some (Some value) \<Rightarrow> if tz value \<noteq> None then value else default_timezone
      | _ \<Rightarrow> default_timezone)"

definition default_schedule :: "string \<Rightarrow> string \<Rightarrow> schedule" where
  "default_schedule timezone now =
     \<lparr>sch_enabled = False, sch_frequency = ''daily'', sch_run_time = ''02:00'',
      sch_timezone = timezone, sch_last_date = [], sch_created_at = now, sch_updated_at = now\<rparr>"

text \<open>INSERT OR IGNORE for every schedulable job.\<close>

definition ensure_schedule_rows ::
  "registry \<Rightarrow> string \<Rightarrow> string \<Rightarrow> schedule_table \<Rightarrow> schedule_table" where
  "ensure_schedule_rows reg timezone now rows =
     fold (\<lambda>(key, d) t.
         if \<not> jd_supports_scheduling d then t
         else case map_of t key of
           Some _ \<Rightarrow> t
         | None \<Rightarrow> AList.update key (default_schedule timezone now) t)
       reg rows"

definition list_schedules :: "registry \<Rightarrow> string \<Rightarrow> schedule_table \<Rightarrow> schedule_table" where
  "list_schedules reg timezone rows =
     sort_key fst
       (fold (\<lambda>(key, d) t.
            if jd_supports_scheduling d \<and> map_of t key = None
            then AList.update key (default_schedule timezone []) t else t)
         reg rows)"

section \<open>Editing a schedule\<close>

text \<open>\<open>strptime\<close> then \<open>strftime\<close> with \<open>%H:%M\<close> must reproduce the value: two digits each,
  hour below 24, minute below 60.\<close>

definition valid_run_time :: "string \<Rightarrow> bool" where
  "valid_run_time v =
     (case v of
        [a, b, c, d, e] \<Rightarrow>
          c = CHR '':'' \<and>
          (case (read_nat [a, b], read_nat [d, e]) of
             (Some h, Some m) \<Rightarrow> h < 24 \<and> m < 60
           | _ \<Rightarrow> False)
      | _ \<Rightarrow> False)"

datatype schedule_error =
    UnknownJob string
  | BadRunTime
  | BadTimezone
  | ZoneMissing string        \<comment> \<open>\<open>ZoneInfoNotFoundError\<close> during a poll\<close>
  | ScheduleDb                \<comment> \<open>a SQLite error\<close>
  | RunFailed run_error

text \<open>The first component of the result is the new \<open>scheduler_timezone\<close> setting.\<close>

definition update_schedule ::
  "registry \<Rightarrow> tz_clock \<Rightarrow> string \<Rightarrow> string \<Rightarrow> bool \<Rightarrow> string \<Rightarrow> string \<Rightarrow> schedule_table \<Rightarrow>
   schedule_error + string \<times> schedule_table" where
  "update_schedule reg tz updated_at key enabled run_time timezone rows =
     (case map_of reg key of
        None \<Rightarrow> Inl (UnknownJob key)
      | Some d \<Rightarrow>
          if \<not> jd_supports_scheduling d then Inl (UnknownJob key)
          else if \<not> valid_run_time run_time then Inl BadRunTime
          else case tz timezone of
            None \<Rightarrow> Inl BadTimezone
          | Some (local_date, hhmm) \<Rightarrow>
              (let last = (if enabled \<and> run_time \<le> hhmm then local_date else []);
                   moved = map (\<lambda>(k, s).
                       (k, if sch_timezone s \<noteq> timezone
                           then s\<lparr>sch_timezone := timezone, sch_updated_at := updated_at\<rparr> else s)) rows;
                   fresh = \<lparr>sch_enabled = enabled, sch_frequency = ''daily'',
                      sch_run_time = run_time, sch_timezone = timezone, sch_last_date = last,
                      sch_created_at = updated_at, sch_updated_at = updated_at\<rparr>
               in Inr (timezone, case map_of moved key of
                     None \<Rightarrow> AList.update key fresh moved
                   | Some old \<Rightarrow> AList.update key
                       (fresh\<lparr>sch_last_date := (if enabled then last else sch_last_date old),
                              sch_created_at := sch_created_at old\<rparr>) moved)))"

section \<open>Claiming an occurrence\<close>

text \<open>The conditional UPDATE: it compares everything the poll has read.\<close>

definition claim_occurrence ::
  "string \<Rightarrow> string \<Rightarrow> string \<Rightarrow> schedule \<Rightarrow> schedule_table \<Rightarrow> schedule_table \<times> bool" where
  "claim_occurrence key local_date claim_marker observed rows =
     (case map_of rows key of
        None \<Rightarrow> (rows, False)
      | Some s \<Rightarrow>
          if sch_enabled s \<and> sch_last_date s = sch_last_date observed
             \<and> sch_last_date s \<noteq> local_date \<and> sch_run_time s = sch_run_time observed
             \<and> sch_timezone s = sch_timezone observed \<and> sch_updated_at s = sch_updated_at observed
          then (AList.update key
                  (s\<lparr>sch_last_date := local_date, sch_updated_at := claim_marker\<rparr>) rows, True)
          else (rows, False))"

definition release_occurrence ::
  "string \<Rightarrow> string \<Rightarrow> string \<Rightarrow> string \<Rightarrow> string \<Rightarrow> schedule_table \<Rightarrow> schedule_table \<times> bool" where
  "release_occurrence key local_date previous claim_marker now rows =
     (case map_of rows key of
        None \<Rightarrow> (rows, False)
      | Some s \<Rightarrow>
          if sch_enabled s \<and> sch_last_date s = local_date \<and> sch_updated_at s = claim_marker
          then (AList.update key (s\<lparr>sch_last_date := previous, sch_updated_at := now\<rparr>) rows, True)
          else (rows, False))"

section \<open>The poll\<close>

text \<open>What the environment decides while one job is polled.\<close>

record poll_env =
  pe_call :: call_env
  pe_io :: start_io
  pe_marker :: string
  pe_release_now :: string
  pe_db_claim :: bool
  pe_db_get :: bool
  pe_db_release :: bool
  pe_db_skip :: bool
  pe_skip_now :: string
  pe_skip_uuid :: string

record sched_system =
  ss_rows :: schedule_table
  ss_mgr :: manager

datatype poll_outcome = Started string string lease | Skipped_Run string string

definition runtime_error :: "run_error \<Rightarrow> bool" where
  "runtime_error e \<longleftrightarrow>
     (case e of Conflict _ \<Rightarrow> True | AlreadyRunning _ \<Rightarrow> True | CouldNotStart _ \<Rightarrow> True | _ \<Rightarrow> False)"

definition skip_job ::
  "poll_env \<Rightarrow> string \<Rightarrow> job_definition \<Rightarrow> string \<Rightarrow> sched_system \<Rightarrow>
   sched_system \<times> (schedule_error + poll_outcome list)" where
  "skip_job e key d reason s =
     (case record_skipped (pe_skip_now e) (pe_db_skip e) (pe_skip_uuid e) key (jd_task_name d)
             ''scheduled'' reason (ss_mgr s) of
        Inl err \<Rightarrow> (s, Inl (RunFailed err))
      | Inr (m, rid) \<Rightarrow> (s\<lparr>ss_mgr := m\<rparr>, Inr [Skipped_Run key rid]))"

text \<open>The two \<open>except\<close> branches: the claim is given back, then a \<open>RuntimeError\<close> is recorded
  as a skipped run and anything else is raised again.\<close>

definition start_failed ::
  "poll_env \<Rightarrow> string \<Rightarrow> job_definition \<Rightarrow> string \<Rightarrow> string \<Rightarrow> run_error \<Rightarrow> sched_system \<Rightarrow>
   sched_system \<times> (schedule_error + poll_outcome list)" where
  "start_failed e key d local_date previous err s =
     (if \<not> pe_db_release e then (s, Inl ScheduleDb)
      else (let released = s\<lparr>ss_rows := fst (release_occurrence key local_date previous
                              (pe_marker e) (pe_release_now e) (ss_rows s))\<rparr>
            in if runtime_error err
               then skip_job e key d
                 (jd_task_name d @ '' was skipped because another mutating operation is active.'')
                 released
               else (released, Inl (RunFailed err))))"

text \<open>After a successful claim: skip a disabled job, else start it. \<open>start\<close> ends by reading the
  new row back (\<open>pe_db_get\<close>); when only that read fails, the run is already executing.\<close>

definition start_claimed ::
  "poll_env \<Rightarrow> string \<Rightarrow> job_definition \<Rightarrow> string \<Rightarrow> string \<Rightarrow> sched_system \<Rightarrow>
   sched_system \<times> (schedule_error + poll_outcome list)" where
  "start_claimed e key d local_date previous s =
     (if \<not> jd_enabled d
      then skip_job e key d
        (if jd_disabled_reason d \<noteq> [] then jd_disabled_reason d
         else jd_task_name d @ '' is disabled.'') s
      else case start_run (pe_call e) (pe_io e)
                \<lparr>req_action = key, req_task_name = jd_task_name d,
                 req_progress_verb = jd_progress_verb d, req_progress_unit = jd_progress_unit d,
                 req_trigger_type = ''scheduled''\<rparr> (ss_mgr s) of
        (m, Inr (rid, l)) \<Rightarrow>
          if pe_db_get e then (s\<lparr>ss_mgr := m\<rparr>, Inr [Started key rid l])
          else start_failed e key d local_date previous DatabaseError (s\<lparr>ss_mgr := m\<rparr>)
      | (m, Inl err) \<Rightarrow> start_failed e key d local_date previous err (s\<lparr>ss_mgr := m\<rparr>))"

definition poll_job ::
  "registry \<Rightarrow> tz_clock \<Rightarrow> poll_env \<Rightarrow> string \<Rightarrow> schedule \<Rightarrow> sched_system \<Rightarrow>
   sched_system \<times> (schedule_error + poll_outcome list)" where
  "poll_job reg tz e key observed s =
     (case map_of reg key of
        None \<Rightarrow> (s, Inr [])
      | Some d \<Rightarrow>
          if \<not> sch_enabled observed then (s, Inr [])
          else case tz (sch_timezone observed) of
            None \<Rightarrow> (s, Inl (ZoneMissing (sch_timezone observed)))
          | Some (local_date, hhmm) \<Rightarrow>
              if hhmm < sch_run_time observed \<or> sch_last_date observed = local_date
              then (s, Inr [])
              else if \<not> pe_db_claim e then (s, Inl ScheduleDb)
              else case claim_occurrence key local_date (pe_marker e) observed (ss_rows s) of
                (_, False) \<Rightarrow> (s, Inr [])
              | (rows, True) \<Rightarrow>
                  start_claimed e key d local_date (sch_last_date observed) (s\<lparr>ss_rows := rows\<rparr>))"

text \<open>\<open>_run_due_once_locked\<close>: the jobs of the listing in key order; the first error aborts
  the rest of the cycle.\<close>

fun poll_jobs ::
  "registry \<Rightarrow> tz_clock \<Rightarrow> (string \<Rightarrow> poll_env) \<Rightarrow> schedule_table \<Rightarrow> sched_system \<Rightarrow>
   sched_system \<times> poll_outcome list \<times> schedule_error option" where
  "poll_jobs reg tz env [] s = (s, [], None)"
| "poll_jobs reg tz env ((key, observed) # todo) s =
     (case poll_job reg tz (env key) key observed s of
        (s', Inl err) \<Rightarrow> (s', [], Some err)
      | (s', Inr out) \<Rightarrow>
          (case poll_jobs reg tz env todo s' of (s'', outs, err) \<Rightarrow> (s'', out @ outs, err)))"

definition run_due_once ::
  "registry \<Rightarrow> tz_clock \<Rightarrow> string \<Rightarrow> (string \<Rightarrow> poll_env) \<Rightarrow> sched_system \<Rightarrow>
   sched_system \<times> poll_outcome list \<times> schedule_error option" where
  "run_due_once reg tz app_timezone env s =
     poll_jobs reg tz env (list_schedules reg app_timezone (ss_rows s)) s"


section \<open>Facts about one poll\<close>

lemma claim_occurrence_True:
  assumes "claim_occurrence key d marker obs rows = (rows', True)"
  obtains s where "map_of rows key = Some s" "sch_enabled s" "sch_last_date s = sch_last_date obs"
    "sch_last_date s \<noteq> d" "sch_run_time s = sch_run_time obs" "sch_timezone s = sch_timezone obs"
    "rows' = AList.update key (s\<lparr>sch_last_date := d, sch_updated_at := marker\<rparr>) rows"
  using assms by (auto simp: claim_occurrence_def split: option.splits if_splits)

lemma claim_occurrence_other:
  "k \<noteq> key \<Longrightarrow> map_of (fst (claim_occurrence key d marker obs rows)) k = map_of rows k"
  by (auto simp: claim_occurrence_def table_simps split: option.splits)

lemma release_occurrence_other:
  "k \<noteq> key \<Longrightarrow> map_of (fst (release_occurrence key d prev marker now rows)) k = map_of rows k"
  by (auto simp: release_occurrence_def table_simps split: option.splits)

lemma skip_job_rows [simp]: "ss_rows (fst (skip_job e key d reason s)) = ss_rows s"
  by (auto simp: skip_job_def split: sum.splits)

lemma skip_job_no_start:
  "snd (skip_job e key d reason s) = Inr out \<Longrightarrow> Started k rid l \<notin> set out"
  by (auto simp: skip_job_def split: sum.splits)

lemma claim_then_release:
  assumes "claim_occurrence key d marker obs rows = (rows', True)"
  shows "\<exists>s. map_of rows key = Some s \<and>
    map_of (fst (release_occurrence key d (sch_last_date obs) marker now rows')) key =
      Some (s\<lparr>sch_updated_at := now\<rparr>)"
  using assms
  by (elim claim_occurrence_True) (simp add: release_occurrence_def table_simps)

text \<open>A poll of one job touches only that job's row.\<close>

lemma start_claimed_other:
  "k \<noteq> key \<Longrightarrow>
     map_of (ss_rows (fst (start_claimed e key d date prev s))) k = map_of (ss_rows s) k"
  by (simp add: start_claimed_def start_failed_def Let_def release_occurrence_other
      split: prod.split sum.split)

lemma poll_job_cases:
  obtains (quiet) "fst (poll_job reg tz e key obs s) = s"
      "\<And>out. snd (poll_job reg tz e key obs s) = Inr out \<Longrightarrow> out = []"
  | (claimed) d date hhmm rows where "map_of reg key = Some d" "sch_enabled obs"
      "tz (sch_timezone obs) = Some (date, hhmm)" "sch_run_time obs \<le> hhmm"
      "sch_last_date obs \<noteq> date"
      "claim_occurrence key date (pe_marker e) obs (ss_rows s) = (rows, True)"
      "poll_job reg tz e key obs s =
         start_claimed e key d date (sch_last_date obs) (s\<lparr>ss_rows := rows\<rparr>)"
proof (cases "map_of reg key")
  case None then show thesis using quiet by (simp add: poll_job_def)
next
  case (Some d)
  note reg = this
  show thesis
  proof (cases "sch_enabled obs")
    case False then show thesis using quiet reg by (simp add: poll_job_def)
  next
    case True
    note en = this
    show thesis
    proof (cases "tz (sch_timezone obs)")
      case None then show thesis using quiet reg en by (simp add: poll_job_def)
    next
      case (Some dh)
      obtain date hhmm where dh: "dh = (date, hhmm)" by (cases dh)
      obtain rows b where
        c: "claim_occurrence key date (pe_marker e) obs (ss_rows s) = (rows, b)" by fastforce
      show thesis
      proof (cases "hhmm < sch_run_time obs \<or> sch_last_date obs = date \<or> \<not> pe_db_claim e \<or> \<not> b")
        case True
        with reg en Some dh c have "fst (poll_job reg tz e key obs s) = s
            \<and> (\<forall>out. snd (poll_job reg tz e key obs s) = Inr out \<longrightarrow> out = [])"
          by (auto simp: poll_job_def)
        then show thesis using quiet by blast
      next
        case False
        then show thesis using claimed reg en Some dh c by (auto simp: poll_job_def)
      qed
    qed
  qed
qed

lemma poll_job_other:
  assumes "k \<noteq> key"
  shows "map_of (ss_rows (fst (poll_job reg tz e key obs s))) k = map_of (ss_rows s) k"
proof (cases reg tz e key obs s rule: poll_job_cases)
  case (claimed d date hhmm rows)
  then show ?thesis
    using claim_occurrence_other [OF assms, of date "pe_marker e" obs "ss_rows s"]
    by (simp add: start_claimed_other [OF assms])
qed simp

section \<open>Starts per local date\<close>

definition outs_of :: "schedule_error + poll_outcome list \<Rightarrow> poll_outcome list" where
  "outs_of res = (case res of Inl _ \<Rightarrow> [] | Inr out \<Rightarrow> out)"

definition starts_of :: "string \<Rightarrow> poll_outcome list \<Rightarrow> poll_outcome list" where
  "starts_of key outs = filter (\<lambda>out. case out of Started k _ _ \<Rightarrow> k = key | _ \<Rightarrow> False) outs"

text \<open>How a row may change while its job is polled: the date, and the change stamp.\<close>

definition same_plan :: "schedule \<Rightarrow> schedule \<Rightarrow> bool" where
  "same_plan r r' \<longleftrightarrow>
     r'\<lparr>sch_last_date := [], sch_updated_at := []\<rparr> = r\<lparr>sch_last_date := [], sch_updated_at := []\<rparr>"

lemma same_plan_refl [simp]: "same_plan r r"
  by (simp add: same_plan_def)

lemma same_planD:
  "same_plan r r' \<Longrightarrow> sch_enabled r' = sch_enabled r \<and> sch_run_time r' = sch_run_time r
     \<and> sch_timezone r' = sch_timezone r"
  by (cases r; cases r') (simp add: same_plan_def)

lemma same_plan_trans: "same_plan r s \<Longrightarrow> same_plan s t \<Longrightarrow> same_plan r t"
  by (simp add: same_plan_def)

lemma same_plan_update [simp]:
  "same_plan r (r\<lparr>sch_last_date := d, sch_updated_at := u\<rparr>)" "same_plan r (r\<lparr>sch_updated_at := u\<rparr>)"
  by (cases r, simp add: same_plan_def)+

text \<open>What a stretch of polling does to the row of \<open>key\<close> on local date \<open>date\<close>, and the starts
  it makes.\<close>

definition date_step ::
  "registry \<Rightarrow> string \<Rightarrow> string \<Rightarrow> string set \<Rightarrow> bool \<Rightarrow> schedule \<Rightarrow> schedule \<Rightarrow>
   poll_outcome list \<Rightarrow> bool" where
  "date_step reg key date clocks lossy r r' outs \<longleftrightarrow>
     same_plan r r' \<and>
     length (starts_of key outs) \<le> 1 \<and>
     (starts_of key outs \<noteq> [] \<longrightarrow> sch_enabled r \<and> (\<exists>t \<in> clocks. sch_run_time r \<le> t)
        \<and> sch_last_date r \<noteq> date \<and> sch_last_date r' = date
        \<and> (\<exists>d. map_of reg key = Some d \<and> jd_enabled d)) \<and>
     (sch_last_date r = date \<longrightarrow> sch_last_date r' = date) \<and>
     (sch_last_date r' = sch_last_date r \<or> starts_of key outs \<noteq> [] \<or> lossy
        \<or> (\<exists>d. map_of reg key = Some d \<and> \<not> jd_enabled d))"

lemma starts_of_append [simp]: "starts_of key (a @ b) = starts_of key a @ starts_of key b"
  by (simp add: starts_of_def)

lemma starts_of_Nil [simp]: "starts_of key [] = []"
  by (simp add: starts_of_def)

lemma date_step_none: "starts_of key outs = [] \<Longrightarrow> date_step reg key date clocks lossy r r outs"
  by (simp add: date_step_def)

lemma date_step_trans:
  assumes P: "date_step reg key date clocks lossy r s a"
    and Q: "date_step reg key date clocks lossy s t b"
  shows "date_step reg key date clocks lossy r t (a @ b)"
proof (cases "starts_of key a = []")
  case True
  have rs: "same_plan r s" and st: "same_plan s t" using P Q by (auto simp: date_step_def)
  have "sch_last_date r = date \<Longrightarrow> sch_last_date s = date"
    and "sch_last_date s = sch_last_date r \<or> lossy \<or> (\<exists>d. map_of reg key = Some d \<and> \<not> jd_enabled d)"
    using P True by (auto simp: date_step_def)
  moreover have "sch_enabled s = sch_enabled r" "sch_run_time s = sch_run_time r"
    using same_planD [OF rs] by auto
  ultimately show ?thesis
    using Q True same_plan_trans [OF rs st] unfolding date_step_def by auto
next
  case False
  have rs: "same_plan r s" and st: "same_plan s t" using P Q by (auto simp: date_step_def)
  have "sch_last_date s = date" using P False by (simp add: date_step_def)
  then have "starts_of key b = []" "sch_last_date t = date" using Q by (auto simp: date_step_def)
  then show ?thesis
    using P False same_plan_trans [OF rs st] unfolding date_step_def by simp
qed

lemma skip_job_starts: "starts_of k (outs_of (snd (skip_job e key d reason s))) = []"
  by (simp add: skip_job_def outs_of_def starts_of_def split: sum.split)


lemma claim_release_row:
  assumes "claim_occurrence key date marker obs rows = (rows', True)" and "map_of rows key = Some r"
  shows "map_of rows' key = Some (r\<lparr>sch_last_date := date, sch_updated_at := marker\<rparr>)"
    and "map_of (fst (release_occurrence key date (sch_last_date obs) marker now rows')) key =
      Some (r\<lparr>sch_updated_at := now\<rparr>)"
    and "sch_enabled r" "sch_last_date r \<noteq> date" "sch_run_time r = sch_run_time obs"
    "sch_timezone r = sch_timezone obs" "sch_last_date r = sch_last_date obs"
  using assms by (auto elim!: claim_occurrence_True simp: release_occurrence_def table_simps)

lemma date_stepI_claimed:
  assumes "sch_enabled r" "sch_last_date r \<noteq> date" "sch_run_time r \<le> t" "t \<in> clocks"
    and "length (starts_of key outs) \<le> 1"
    and "starts_of key outs \<noteq> [] \<Longrightarrow> \<exists>d. map_of reg key = Some d \<and> jd_enabled d"
    and "starts_of key outs \<noteq> [] \<or> lossy \<or> (\<exists>d. map_of reg key = Some d \<and> \<not> jd_enabled d)"
  shows "date_step reg key date clocks lossy r
    (r\<lparr>sch_last_date := date, sch_updated_at := u\<rparr>) outs"
  using assms by (auto simp: date_step_def)

lemma date_stepI_released:
  "starts_of key outs = [] \<Longrightarrow>
     date_step reg key date clocks lossy r (r\<lparr>sch_updated_at := u\<rparr>) outs"
  by (simp add: date_step_def)

lemma start_failed_step:
  assumes claim: "claim_occurrence key date (pe_marker e) obs rows = (rows', True)"
    and r: "map_of rows key = Some r" and s: "ss_rows s = rows'"
    and t: "sch_run_time r \<le> t" "t \<in> clocks" and lossy: "\<not> pe_db_release e \<Longrightarrow> lossy"
  shows "\<exists>r'. map_of (ss_rows (fst (start_failed e key d date (sch_last_date obs) err s))) key = Some r'
    \<and> date_step reg key date clocks lossy r r'
        (outs_of (snd (start_failed e key d date (sch_last_date obs) err s)))"
proof -
  note C = claim_release_row [OF claim r]
  show ?thesis
  proof (cases "pe_db_release e")
    case True
    have "starts_of key (outs_of (snd (start_failed e key d date (sch_last_date obs) err s))) = []"
      using True by (simp add: start_failed_def Let_def skip_job_starts) (simp add: outs_of_def)
    then have "date_step reg key date clocks lossy r (r\<lparr>sch_updated_at := pe_release_now e\<rparr>)
        (outs_of (snd (start_failed e key d date (sch_last_date obs) err s)))"
      by (rule date_stepI_released)
    moreover have "map_of (ss_rows (fst (start_failed e key d date (sch_last_date obs) err s))) key =
        Some (r\<lparr>sch_updated_at := pe_release_now e\<rparr>)"
      using True C(2) [of "pe_release_now e"] by (simp add: start_failed_def Let_def s)
    ultimately show ?thesis by blast
  next
    case False
    then have "start_failed e key d date (sch_last_date obs) err s = (s, Inl ScheduleDb)"
      by (simp add: start_failed_def)
    moreover have "date_step reg key date clocks lossy r
        (r\<lparr>sch_last_date := date, sch_updated_at := pe_marker e\<rparr>) []"
      by (rule date_stepI_claimed [OF C(3,4) t]) (simp_all add: lossy [OF False])
    ultimately show ?thesis using C(1) by (simp add: outs_of_def s)
  qed
qed


lemma start_claimed_step:
  assumes claim: "claim_occurrence key date (pe_marker e) obs rows = (rows', True)"
    and r: "map_of rows key = Some r" and s: "ss_rows s = rows'" and reg: "map_of reg key = Some d"
    and t: "sch_run_time r \<le> t" "t \<in> clocks" and lossy: "\<not> pe_db_release e \<Longrightarrow> lossy"
  shows "\<exists>r'. map_of (ss_rows (fst (start_claimed e key d date (sch_last_date obs) s))) key = Some r'
    \<and> date_step reg key date clocks lossy r r'
        (outs_of (snd (start_claimed e key d date (sch_last_date obs) s)))"
proof -
  note C = claim_release_row [OF claim r]
  let ?r' = "r\<lparr>sch_last_date := date, sch_updated_at := pe_marker e\<rparr>"
  note failed = start_failed_step [OF claim r _ t, where lossy = lossy and reg = reg and d = d]
  show ?thesis
  proof (cases "jd_enabled d")
    case False
    have "date_step reg key date clocks lossy r ?r'
        (outs_of (snd (start_claimed e key d date (sch_last_date obs) s)))"
      using C(3,4) t reg False
      by (intro date_stepI_claimed [where t = t]) (simp_all add: start_claimed_def skip_job_starts)
    moreover have "map_of (ss_rows (fst (start_claimed e key d date (sch_last_date obs) s))) key = Some ?r'"
      using False C(1) by (simp add: start_claimed_def s)
    ultimately show ?thesis by blast
  next
    case True
    note en = this
    obtain m res where st: "start_run (pe_call e) (pe_io e)
        \<lparr>req_action = key, req_task_name = jd_task_name d,
         req_progress_verb = jd_progress_verb d, req_progress_unit = jd_progress_unit d,
         req_trigger_type = ''scheduled''\<rparr> (ss_mgr s) = (m, res)" by (metis surj_pair)
    show ?thesis
    proof (cases res)
      case (Inl err)
      have "start_claimed e key d date (sch_last_date obs) s =
          start_failed e key d date (sch_last_date obs) err (s\<lparr>ss_mgr := m\<rparr>)"
        using en st Inl by (simp add: start_claimed_def)
      then show ?thesis using failed [of "s\<lparr>ss_mgr := m\<rparr>"] lossy s by simp
    next
      case (Inr rl)
      obtain rid l where rl: "rl = (rid, l)" by (cases rl)
      show ?thesis
      proof (cases "pe_db_get e")
        case False
        have "start_claimed e key d date (sch_last_date obs) s =
            start_failed e key d date (sch_last_date obs) DatabaseError (s\<lparr>ss_mgr := m\<rparr>)"
          using en st Inr rl False by (simp add: start_claimed_def)
        then show ?thesis using failed [of "s\<lparr>ss_mgr := m\<rparr>"] lossy s by simp
      next
        case True
        have eq: "start_claimed e key d date (sch_last_date obs) s =
            (s\<lparr>ss_mgr := m\<rparr>, Inr [Started key rid l])"
          using en st Inr rl True by (simp add: start_claimed_def)
        have "starts_of key (outs_of (Inr [Started key rid l])) = [Started key rid l]"
          by (simp add: outs_of_def starts_of_def)
        then have "date_step reg key date clocks lossy r ?r' (outs_of (Inr [Started key rid l]))"
          using C(3,4) t reg en by (intro date_stepI_claimed [where t = t]) simp_all
        then show ?thesis using C(1) by (simp add: eq s)
      qed
    qed
  qed
qed

text \<open>One polled job, one cycle: the row of \<open>key\<close> takes a \<open>date_step\<close>.\<close>

lemma start_failed_keys: "Started k rid l \<notin> set (outs_of (snd (start_failed e key d date p err s)))"
  by (auto simp: start_failed_def Let_def outs_of_def skip_job_def split: sum.split)

lemma starts_of_Started [simp]:
  "starts_of k [Started key rid l] = (if k = key then [Started key rid l] else [])"
  by (simp add: starts_of_def)

lemma start_failed_starts: "starts_of k (outs_of (snd (start_failed e key d date p err s))) = []"
  by (simp add: start_failed_def Let_def skip_job_starts) (simp add: outs_of_def)

lemma start_claimed_starts_other:
  "k \<noteq> key \<Longrightarrow> starts_of k (outs_of (snd (start_claimed e key d date p s))) = []"
  by (simp add: start_claimed_def skip_job_starts start_failed_starts split: prod.split sum.split)
    (simp add: outs_of_def)

lemma outs_of_empty: "(\<And>out. res = Inr out \<Longrightarrow> out = []) \<Longrightarrow> outs_of res = []"
  by (cases res) (simp_all add: outs_of_def)

lemma poll_job_step:
  assumes r: "map_of (ss_rows s) key = Some r" and tz: "tz (sch_timezone r) = Some (date, hhmm)"
    and clock: "hhmm \<in> clocks" and lossy: "key' = key \<Longrightarrow> \<not> pe_db_release e \<Longrightarrow> lossy"
  shows "\<exists>r'. map_of (ss_rows (fst (poll_job reg tz e key' obs s))) key = Some r' \<and>
    date_step reg key date clocks lossy r r' (outs_of (snd (poll_job reg tz e key' obs s)))"
proof (cases reg tz e key' obs s rule: poll_job_cases)
  case quiet
  then show ?thesis using r by (simp add: outs_of_empty date_step_none)
next
  case (claimed d date' hhmm' rows)
  show ?thesis
  proof (cases "key' = key")
    case False
    then have "map_of (ss_rows (fst (poll_job reg tz e key' obs s))) key = Some r"
      using poll_job_other [of key key'] r by simp
    moreover have "starts_of key (outs_of (snd (poll_job reg tz e key' obs s))) = []"
      using False start_claimed_starts_other claimed(7) by simp
    ultimately show ?thesis by (blast intro: date_step_none)
  next
    case True
    note C = claim_release_row [OF claimed(6) [unfolded True] r]
    have eq: "date' = date" "hhmm' = hhmm" using claimed(3) tz C(6) by simp_all
    have cl: "claim_occurrence key date (pe_marker e) obs (ss_rows s) = (rows, True)"
      using claimed(6) by (simp add: True eq)
    have t: "sch_run_time r \<le> hhmm" using claimed(4) C(5) by (simp add: eq)
    have reg: "map_of reg key = Some d" using claimed(1) by (simp add: True)
    have "ss_rows (s\<lparr>ss_rows := rows\<rparr>) = rows" by simp
    from start_claimed_step [OF cl r this reg t clock, where lossy = lossy] lossy True
    show ?thesis by (simp add: claimed(7) [unfolded True eq])
  qed
qed

lemma poll_jobs_step:
  assumes "map_of (ss_rows s) key = Some r" and "tz (sch_timezone r) = Some (date, hhmm)"
    and "hhmm \<in> clocks" and "\<not> pe_db_release (env key) \<Longrightarrow> lossy"
    and "poll_jobs reg tz env todo s = (s', outs, err)"
  shows "\<exists>r'. map_of (ss_rows s') key = Some r' \<and> date_step reg key date clocks lossy r r' outs"
  using assms
proof (induction todo arbitrary: s r s' outs err)
  case Nil then show ?case by (simp add: date_step_none)
next
  case (Cons ko todo)
  obtain key' obs where ko: "ko = (key', obs)" by (cases ko)
  obtain s1 res where p: "poll_job reg tz (env key') key' obs s = (s1, res)" by (metis surj_pair)
  have lossy: "key' = key \<Longrightarrow> \<not> pe_db_release (env key') \<Longrightarrow> lossy" using Cons.prems(4) by simp
  obtain r1 where r1: "map_of (ss_rows s1) key = Some r1"
    and d1: "date_step reg key date clocks lossy r r1 (outs_of res)"
    using poll_job_step [where tz = tz, OF Cons.prems(1-3), of key' "env key'" lossy reg obs] lossy p by auto
  show ?case
  proof (cases res)
    case (Inl e)
    then show ?thesis using Cons.prems(5) p r1 d1 by (auto simp: ko outs_of_def)
  next
    case (Inr out)
    obtain s2 outs2 err2 where rest: "poll_jobs reg tz env todo s1 = (s2, outs2, err2)"
      by (metis surj_pair)
    have "tz (sch_timezone r1) = Some (date, hhmm)"
      using d1 Cons.prems(2) by (auto simp: date_step_def dest: same_planD)
    from Cons.IH [OF r1 this Cons.prems(3,4) rest] obtain r2 where
      r2: "map_of (ss_rows s2) key = Some r2" "date_step reg key date clocks lossy r1 r2 outs2" by blast
    have "s' = s2" "outs = out @ outs2" using Cons.prems(5) p rest Inr by (simp_all add: ko)
    moreover have "date_step reg key date clocks lossy r r2 (out @ outs2)"
      using date_step_trans [OF d1 r2(2)] Inr by (simp add: outs_of_def)
    ultimately show ?thesis using r2(1) by blast
  qed
qed

section \<open>A day of polls\<close>

text \<open>Polls without edits in between; the other components may do anything to the manager
  before each poll.\<close>

fun poll_day ::
  "registry \<Rightarrow> string \<Rightarrow> (tz_clock \<times> (string \<Rightarrow> poll_env) \<times> (manager \<Rightarrow> manager)) list \<Rightarrow>
   sched_system \<Rightarrow> sched_system \<times> poll_outcome list" where
  "poll_day reg app [] s = (s, [])"
| "poll_day reg app ((tz, env, f) # polls) s =
     (case run_due_once reg tz app env (s\<lparr>ss_mgr := f (ss_mgr s)\<rparr>) of
        (s', outs, _) \<Rightarrow>
          (case poll_day reg app polls s' of (s'', outs') \<Rightarrow> (s'', outs @ outs')))"

lemma poll_day_step:
  assumes "map_of (ss_rows s) key = Some r"
    and "\<And>tz env f. (tz, env, f) \<in> set polls \<Longrightarrow>
      (\<exists>hhmm. tz (sch_timezone r) = Some (date, hhmm)) \<and> (\<not> pe_db_release (env key) \<longrightarrow> lossy)"
    and "poll_day reg app polls s = (s', outs)"
  shows "\<exists>r'. map_of (ss_rows s') key = Some r' \<and> date_step reg key date UNIV lossy r r' outs"
  using assms
proof (induction polls arbitrary: s r s' outs)
  case Nil then show ?case by (simp add: date_step_none)
next
  case (Cons p polls)
  obtain tz env f where p: "p = (tz, env, f)" by (cases p)
  obtain s1 o1 e1 where q: "run_due_once reg tz app env (s\<lparr>ss_mgr := f (ss_mgr s)\<rparr>) = (s1, o1, e1)"
    by (metis surj_pair)
  obtain s2 o2 where rest: "poll_day reg app polls s1 = (s2, o2)" by (metis surj_pair)
  obtain hhmm where tz: "tz (sch_timezone r) = Some (date, hhmm)"
    and lossy: "\<not> pe_db_release (env key) \<Longrightarrow> lossy" using Cons.prems(2) p by force
  have "map_of (ss_rows (s\<lparr>ss_mgr := f (ss_mgr s)\<rparr>)) key = Some r" using Cons.prems(1) by simp
  from poll_jobs_step [where tz = tz, OF this tz UNIV_I, of env lossy reg] lossy q obtain r1 where
    r1: "map_of (ss_rows s1) key = Some r1" "date_step reg key date UNIV lossy r r1 o1"
    unfolding run_due_once_def by blast
  have "sch_timezone r1 = sch_timezone r" using r1(2) by (auto simp: date_step_def dest: same_planD)
  moreover have "(\<exists>hhmm. tz (sch_timezone r) = Some (date, hhmm)) \<and> (\<not> pe_db_release (env key) \<longrightarrow> lossy)"
    if "(tz, env, f) \<in> set polls" for tz env f
    using Cons.prems(2) [of tz env f] that by simp
  ultimately obtain r2 where
    r2: "map_of (ss_rows s2) key = Some r2" "date_step reg key date UNIV lossy r1 r2 o2"
    using Cons.IH [OF r1(1) _ rest] by auto
  have "s' = s2" "outs = o1 @ o2" using Cons.prems(3) q rest by (simp_all add: p)
  then show ?case using r2(1) date_step_trans [OF r1(2) r2(2)] by blast
qed


lemma scheduled_starts:
  assumes "map_of (ss_rows s) key = Some r"
    and "\<And>tz env f. (tz, env, f) \<in> set polls \<Longrightarrow> \<exists>hhmm. tz (sch_timezone r) = Some (date, hhmm)"
  shows "length (starts_of key (snd (poll_day reg app polls s))) \<le> 1
    \<and> (sch_last_date r = date \<longrightarrow> starts_of key (snd (poll_day reg app polls s)) = [])"
proof -
  obtain s' outs where p: "poll_day reg app polls s = (s', outs)" by (metis surj_pair)
  have "\<exists>r'. map_of (ss_rows s') key = Some r' \<and> date_step reg key date UNIV True r r' outs"
    by (rule poll_day_step [OF assms(1) _ p]) (use assms(2) in blast)
  then show ?thesis by (auto simp: p date_step_def)
qed

section \<open>Properties\<close>

definition demo_schedule :: schedule where
  "demo_schedule = \<lparr>sch_enabled = True, sch_frequency = ''daily'', sch_run_time = ''02:00'',
     sch_timezone = ''UTC'', sch_last_date = ''2024-01-01'', sch_created_at = ''t0'',
     sch_updated_at = ''t0''\<rparr>"

definition demo_registry :: registry where
  "demo_registry = [(''refresh'', \<lparr>jd_task_name = ''Refresh'', jd_progress_verb = ''Checked'',
     jd_progress_unit = ''companies'', jd_supports_scheduling = True, jd_enabled = True,
     jd_disabled_reason = []\<rparr>)]"

definition demo_clock :: tz_clock where
  "demo_clock zone = (if zone = ''UTC'' then Some (''2024-01-02'', ''02:15'') else None)"

definition demo_poll_env :: "bool \<Rightarrow> string \<Rightarrow> poll_env" where
  "demo_poll_env readable key = \<lparr>pe_call = demo_env, pe_io = demo_start_io, pe_marker = ''m1'',
     pe_release_now = ''t2'', pe_db_claim = True, pe_db_get = readable, pe_db_release = True,
     pe_db_skip = True, pe_skip_now = ''t2'', pe_skip_uuid = ''u2''\<rparr>"

definition demo_sched :: sched_system where
  "demo_sched = \<lparr>ss_rows = [(''refresh'', demo_schedule)], ss_mgr = new_manager ''t0'' []\<rparr>"

lemma demo_sched_row: "map_of (ss_rows demo_sched) ''refresh'' = Some demo_schedule"
  by (simp add: demo_sched_def)

lemma demo_clock_row: "demo_clock (sch_timezone demo_schedule) = Some (''2024-01-02'', ''02:15'')"
  by (simp add: demo_clock_def demo_schedule_def)



text \<open>One poll starts a job only if its row is enabled, its run time has been reached, the
  date has not been used, and the registry has the job enabled. And a due occurrence is not
  lost: the poll leaves the row's date as it was unless it started the job, the job is disabled,
  or SQLite failed to give the claim back. Nothing else of the row's plan changes.\<close>

theorem poll_starts_due_and_keeps_unserved:
  assumes "map_of (ss_rows s) key = Some r" and "tz (sch_timezone r) = Some (date, hhmm)"
    and "run_due_once reg tz app env s = (s', outs, err)"
  shows "\<exists>r'. map_of (ss_rows s') key = Some r'
    \<and> r'\<lparr>sch_last_date := [], sch_updated_at := []\<rparr> = r\<lparr>sch_last_date := [], sch_updated_at := []\<rparr>
    \<and> (starts_of key outs \<noteq> [] \<longrightarrow> sch_enabled r \<and> sch_run_time r \<le> hhmm
         \<and> sch_last_date r \<noteq> date \<and> sch_last_date r' = date
         \<and> (\<exists>d. map_of reg key = Some d \<and> jd_enabled d))
    \<and> (sch_last_date r' = sch_last_date r \<or> starts_of key outs \<noteq> []
         \<or> \<not> pe_db_release (env key) \<or> (\<exists>d. map_of reg key = Some d \<and> \<not> jd_enabled d))"
proof -
  obtain r' where "map_of (ss_rows s') key = Some r'"
    "date_step reg key date {hhmm} (\<not> pe_db_release (env key)) r r' outs"
    using poll_jobs_step [where tz = tz, OF assms(1,2), of "{hhmm}" env "\<not> pe_db_release (env key)"]
      assms(3)
    unfolding run_due_once_def by blast
  then show ?thesis unfolding date_step_def same_plan_def by blast
qed

theorem poll_starts_due_and_keeps_unserved_witness:
  "\<exists>r'. map_of (ss_rows (fst (run_due_once demo_registry demo_clock ''UTC'' (demo_poll_env True)
     demo_sched))) ''refresh'' = Some r' \<and> sch_timezone r' = ''UTC''"
proof -
  obtain s' outs err where p: "run_due_once demo_registry demo_clock ''UTC'' (demo_poll_env True)
     demo_sched = (s', outs, err)" by (metis surj_pair)
  from poll_starts_due_and_keeps_unserved [OF demo_sched_row demo_clock_row p] obtain r' where
    r': "map_of (ss_rows s') ''refresh'' = Some r'"
    and plan: "r'\<lparr>sch_last_date := [], sch_updated_at := []\<rparr> =
      demo_schedule\<lparr>sch_last_date := [], sch_updated_at := []\<rparr>" by blast
  from plan have "same_plan demo_schedule r'" by (simp only: same_plan_def)
  then have "sch_timezone r' = sch_timezone demo_schedule" using same_planD by blast
  then have "sch_timezone r' = ''UTC''" by (simp add: demo_schedule_def)
  with r' show ?thesis unfolding p fst_conv by blast
qed


lemma update_schedule_row:
  assumes "update_schedule reg tz now key enabled run_time timezone rows = Inr (setting, rows')"
  obtains d date hhmm r where "map_of reg key = Some d" "jd_supports_scheduling d"
    "valid_run_time run_time" "tz timezone = Some (date, hhmm)" "setting = timezone"
    "map_of rows' key = Some r" "sch_enabled r = enabled" "sch_run_time r = run_time"
    "sch_timezone r = timezone"
    "enabled \<Longrightarrow> sch_last_date r = (if run_time \<le> hhmm then date else [])"
  using assms
  by (auto simp: update_schedule_def Let_def table_simps split: option.splits if_splits)

lemma map_of_map_snd: "map_of (map (\<lambda>(k, s). (k, f s)) xs) k = map_option f (map_of xs k)"
  by (induction xs) auto

lemma update_schedule_other:
  assumes "update_schedule reg tz now key enabled run_time timezone rows = Inr (setting, rows')"
    and "k \<noteq> key" and "map_of rows k = Some s"
  shows "\<exists>u. map_of rows' k = Some (s\<lparr>sch_timezone := timezone, sch_updated_at := u\<rparr>)"
proof -
  have "map_of rows' k = Some (if sch_timezone s \<noteq> timezone
      then s\<lparr>sch_timezone := timezone, sch_updated_at := now\<rparr> else s)"
    using assms
    by (simp add: update_schedule_def Let_def table_simps map_of_map_snd
        split: option.splits if_split_asm prod.splits) (auto simp: table_simps map_of_map_snd)
  moreover have "s = s\<lparr>sch_timezone := timezone, sch_updated_at := sch_updated_at s\<rparr>"
    if "sch_timezone s = timezone" using that by (cases s) simp
  ultimately show ?thesis by metis
qed

text \<open>Saving a schedule validates it (a known schedulable job, an HH:MM time, a known zone),
  moves every schedule to the chosen zone without touching the others' plans, and never causes
  a surprise run: when the time has already passed, no poll on that local date starts the job;
  when it has not, the row is open for that date.\<close>

theorem update_schedule_no_surprise_run:
  assumes "update_schedule reg tz now key True run_time timezone rows = Inr (setting, rows')"
    and "tz timezone = Some (date, hhmm)" and "ss_rows s = rows'"
    and "\<And>tz' env f. (tz', env, f) \<in> set polls \<Longrightarrow> \<exists>h. tz' timezone = Some (date, h)"
  shows "setting = timezone \<and> valid_run_time run_time
    \<and> (\<exists>d. map_of reg key = Some d \<and> jd_supports_scheduling d)
    \<and> (\<forall>k q. k \<noteq> key \<and> map_of rows k = Some q \<longrightarrow>
         (\<exists>u. map_of rows' k = Some (q\<lparr>sch_timezone := timezone, sch_updated_at := u\<rparr>)))
    \<and> (run_time \<le> hhmm \<longrightarrow> starts_of key (snd (poll_day reg' app polls s)) = [])
    \<and> (\<not> run_time \<le> hhmm \<longrightarrow> (\<exists>r. map_of rows' key = Some r \<and> sch_last_date r = []))"
proof -
  obtain d date' h' r where U: "map_of reg key = Some d" "jd_supports_scheduling d"
    "valid_run_time run_time" "tz timezone = Some (date', h')" "setting = timezone"
    "map_of rows' key = Some r" "sch_timezone r = timezone"
    "sch_last_date r = (if run_time \<le> h' then date' else [])"
    using update_schedule_row [OF assms(1)] by metis
  have "date' = date" "h' = hhmm" using U(4) assms(2) by simp_all
  moreover have "starts_of key (snd (poll_day reg' app polls s)) = []" if "sch_last_date r = date"
    using scheduled_starts [of s key r polls date reg' app] assms(3,4) U(6,7) that by simp
  ultimately show ?thesis
    using U update_schedule_other [OF assms(1)] by auto
qed


theorem update_schedule_no_surprise_run_witness:
  "starts_of ''refresh'' (snd (poll_day demo_registry ''UTC''
     [(demo_clock, demo_poll_env True, id)]
     (demo_sched\<lparr>ss_rows := snd (projr (update_schedule demo_registry demo_clock ''t1'' ''refresh'' True
        ''02:00'' ''UTC'' [(''refresh'', demo_schedule)]))\<rparr>))) = []"
proof -
  have v: "valid_run_time ''02:00''" by code_simp
  have c: "demo_clock ''UTC'' = Some (''2024-01-02'', ''02:15'')" by (simp add: demo_clock_def)
  have le: "''02:00'' \<le> ''02:15''" by code_simp
  obtain setting rows' where u: "update_schedule demo_registry demo_clock ''t1'' ''refresh'' True
      ''02:00'' ''UTC'' [(''refresh'', demo_schedule)] = Inr (setting, rows')"
    using v c by (simp add: update_schedule_def demo_registry_def Let_def)
  have "starts_of ''refresh'' (snd (poll_day demo_registry ''UTC''
      [(demo_clock, demo_poll_env True, id)] (demo_sched\<lparr>ss_rows := rows'\<rparr>))) = []"
    using update_schedule_no_surprise_run [OF u c, of "demo_sched\<lparr>ss_rows := rows'\<rparr>"
        "[(demo_clock, demo_poll_env True, id)]" demo_registry "''UTC''"] c le by auto
  then show ?thesis by (simp only: u sum.sel snd_conv)
qed

text \<open>A start whose new row cannot be read back raises after its thread is running; the poll then
  gives the occurrence back, so the same occurrence is due again while its run executes.\<close>

theorem read_back_failure_reopens_occurrence:
  assumes "claim_occurrence key date (pe_marker e) obs rows = (ss_rows s, True)"
    and "map_of rows key = Some r" and "jd_enabled d"
    and "start_run (pe_call e) (pe_io e)
      \<lparr>req_action = key, req_task_name = jd_task_name d,
       req_progress_verb = jd_progress_verb d, req_progress_unit = jd_progress_unit d,
       req_trigger_type = ''scheduled''\<rparr> (ss_mgr s) = (m, Inr (rid, l))"
    and "\<not> pe_db_get e" and "pe_db_release e"
  shows "\<exists>r'. start_claimed e key d date (sch_last_date obs) s =
      (s\<lparr>ss_mgr := m,
         ss_rows := fst (release_occurrence key date (sch_last_date obs) (pe_marker e)
           (pe_release_now e) (ss_rows s))\<rparr>, Inl (RunFailed DatabaseError))
    \<and> map_of (ss_rows (fst (start_claimed e key d date (sch_last_date obs) s))) key = Some r'
    \<and> sch_last_date r' = sch_last_date r"
proof -
  have "start_claimed e key d date (sch_last_date obs) s =
      (s\<lparr>ss_mgr := m,
         ss_rows := fst (release_occurrence key date (sch_last_date obs) (pe_marker e)
           (pe_release_now e) (ss_rows s))\<rparr>, Inl (RunFailed DatabaseError))"
    using assms by (simp add: start_claimed_def start_failed_def Let_def runtime_error_def)
  then show ?thesis
    using claim_release_row(2) [OF assms(1,2), of "pe_release_now e"] by simp
qed

end
