(* ===== verification/Py_Crypto.thy ===== *)
theory Py_Crypto
  imports Prelude "HOL-Library.Word"
begin

text \<open>
  The parts of Python's \<open>hashlib\<close>, \<open>hmac\<close>, \<open>base64\<close> and \<open>bytes\<close> that the
  secret store (\<^verbatim>\<open>backend/email_service.py\<close>) and the sign-in cookies
  (\<^verbatim>\<open>backend/blueash_auth.py\<close>) rely on: SHA-256 and HMAC-SHA-256 on byte lists, the
  URL-safe base64 codec, and UTF-8 on the modelled strings.
\<close>

unbundle bit_operations_syntax

type_synonym byte = "8 word"
type_synonym bytes = "8 word list"

section \<open>SHA-256\<close>

text \<open>The constants are the first 32 fractional bits of the cube roots of the first 64 primes,
  and of the square roots of the first eight.\<close>

definition primes_below :: "nat \<Rightarrow> nat list" where
  "primes_below n = filter (\<lambda>p. list_all (\<lambda>d. p mod d \<noteq> 0) [2..<p]) [2..<n]"

definition root_bits :: "nat \<Rightarrow> nat \<Rightarrow> 32 word" where
  "root_bits r p =
     of_nat (foldl (\<lambda>x b. if (x + 2 ^ b) ^ r \<le> p * 2 ^ (32 * r) then x + 2 ^ b else x)
       0 (rev [0..<36]))"

definition sha_k :: "32 word list" where
  "sha_k = map (root_bits 3) (primes_below 312)"

definition rotr :: "nat \<Rightarrow> 32 word \<Rightarrow> 32 word" where
  "rotr n w = drop_bit n w OR push_bit (32 - n) w"

definition word_of_bytes :: "bytes \<Rightarrow> 32 word" where
  "word_of_bytes bs = foldl (\<lambda>w b. push_bit 8 w OR ucast b) 0 bs"

definition bytes_of_word :: "32 word \<Rightarrow> bytes" where
  "bytes_of_word w = map (\<lambda>n. ucast (drop_bit n w)) [24, 16, 8, 0]"

text \<open>\<open>n.to_bytes(8, "big")\<close>.\<close>

definition to_bytes8 :: "nat \<Rightarrow> bytes" where
  "to_bytes8 n = map (\<lambda>i. of_nat (n div 256 ^ i mod 256)) [7, 6, 5, 4, 3, 2, 1, 0]"

definition sha_pad :: "bytes \<Rightarrow> bytes" where
  "sha_pad m = m @ [0x80] @ replicate ((119 - length m mod 64) mod 64) 0 @ to_bytes8 (8 * length m)"

fun chunks :: "nat \<Rightarrow> 'a list \<Rightarrow> 'a list list" where
  "chunks n [] = []"
| "chunks n (x # xs) =
     (if n = 0 then [] else (x # take (n - 1) xs) # chunks n (drop (n - 1) xs))"

text \<open>The message schedule, kept newest first.\<close>

fun sha_extend :: "nat \<Rightarrow> 32 word list \<Rightarrow> 32 word list" where
  "sha_extend 0 ws = ws"
| "sha_extend (Suc n) ws =
     (let w15 = ws ! 14; w2 = ws ! 1;
          s0 = rotr 7 w15 XOR rotr 18 w15 XOR drop_bit 3 w15;
          s1 = rotr 17 w2 XOR rotr 19 w2 XOR drop_bit 10 w2
      in sha_extend n ((ws ! 15 + s0 + ws ! 6 + s1) # ws))"

fun sha_round :: "32 word \<times> 32 word \<Rightarrow> 32 word list \<Rightarrow> 32 word list" where
  "sha_round (k, w) [a, b, c, d, e, f, g, h] =
     (let t1 = h + (rotr 6 e XOR rotr 11 e XOR rotr 25 e) + ((e AND f) XOR (NOT e AND g)) + k + w;
          t2 = (rotr 2 a XOR rotr 13 a XOR rotr 22 a) + ((a AND b) XOR (a AND c) XOR (b AND c))
      in [t1 + t2, a, b, c, d + t1, e, f, g])"
| "sha_round _ st = st"

definition sha_block :: "bytes \<Rightarrow> 32 word list \<Rightarrow> 32 word list" where
  "sha_block bs st =
     map2 (+) st (fold sha_round
       (zip sha_k (rev (sha_extend 48 (rev (map word_of_bytes (chunks 4 bs)))))) st)"

definition sha_init :: "32 word list" where
  "sha_init = map (root_bits 2) (primes_below 20)"

definition sha256 :: "bytes \<Rightarrow> bytes" where
  "sha256 m = concat (map bytes_of_word (fold sha_block (chunks 64 (sha_pad m)) sha_init))"

definition hmac_sha256 :: "bytes \<Rightarrow> bytes \<Rightarrow> bytes" where
  "hmac_sha256 key m =
     (let k = (if length key > 64 then sha256 key else key);
          padded = k @ replicate (64 - length k) 0
      in sha256 (map (\<lambda>b. b XOR 0x5c) padded @ sha256 (map (\<lambda>b. b XOR 0x36) padded @ m)))"

lemma length_sha_round [simp]: "length (sha_round kw st) = length st"
  by (induction kw st rule: sha_round.induct) (simp_all add: Let_def)

lemma length_fold_sha_round [simp]: "length (fold sha_round kws st) = length st"
  by (induction kws arbitrary: st) simp_all

lemma length_fold_sha_block [simp]: "length (fold sha_block bss st) = length st"
  by (induction bss arbitrary: st) (simp_all add: sha_block_def)

lemma length_sha256 [simp]: "length (sha256 m) = 32"
proof -
  have "length (concat (map bytes_of_word ws)) = 4 * length ws" for ws
    by (induction ws) (simp_all add: bytes_of_word_def)
  moreover have "length (primes_below 20) = 8" by code_simp
  ultimately show ?thesis by (simp add: sha256_def sha_init_def)
qed

lemma length_hmac_sha256 [simp]: "length (hmac_sha256 key m) = 32"
  by (simp add: hmac_sha256_def Let_def)

section \<open>URL-safe base64\<close>

definition b64_char :: "nat \<Rightarrow> char" where
  "b64_char n =
     char_of (if n < 26 then n + 65 else if n < 52 then n + 71 else if n < 62 then n - 4
              else if n = 62 then 45 else (95 :: nat))"

text \<open>The decoder's table: \<open>-\<close> and \<open>_\<close> are translated to \<open>+\<close> and \<open>/\<close> first, which
  are accepted themselves.\<close>

definition b64_value :: "char \<Rightarrow> nat option" where
  "b64_value c = (let n = code c in
     if 65 \<le> n \<and> n \<le> 90 then Some (n - 65)
     else if 97 \<le> n \<and> n \<le> 122 then Some (n - 71)
     else if 48 \<le> n \<and> n \<le> 57 then Some (n + 4)
     else if n = 45 \<or> n = 43 then Some 62
     else if n = 95 \<or> n = 47 then Some 63
     else None)"

fun b64_encode :: "bytes \<Rightarrow> string" where
  "b64_encode [] = []"
| "b64_encode [a] =
     [b64_char (unat a div 4), b64_char (unat a mod 4 * 16), CHR ''='', CHR ''='']"
| "b64_encode [a, b] =
     [b64_char (unat a div 4), b64_char (unat a mod 4 * 16 + unat b div 16),
      b64_char (unat b mod 16 * 4), CHR ''='']"
| "b64_encode (a # b # c # rest) =
     b64_char (unat a div 4) # b64_char (unat a mod 4 * 16 + unat b div 16)
     # b64_char (unat b mod 16 * 4 + unat c div 64) # b64_char (unat c mod 64)
     # b64_encode rest"

text \<open>The lenient scanner of \<open>binascii.a2b_base64\<close>: position in the group of four, bits left
  over, padding seen; characters outside the alphabet are skipped, and \<open>None\<close> is the
  \<open>ValueError\<close> of a group that does not end.\<close>

fun b64_scan :: "nat \<Rightarrow> nat \<Rightarrow> nat \<Rightarrow> string \<Rightarrow> bytes option" where
  "b64_scan q left pads [] = (if q = 0 then Some [] else None)"
| "b64_scan q left pads (c # cs) =
     (if c = CHR ''=''
      then (if 2 \<le> q
            then (if 4 \<le> q + pads + 1 then Some [] else b64_scan q left (pads + 1) cs)
            else b64_scan q left pads cs)
      else case b64_value c of
        None \<Rightarrow> b64_scan q left pads cs
      | Some v \<Rightarrow>
          if q = 0 then b64_scan 1 v 0 cs
          else if q = 1
          then map_option ((#) (of_nat (left * 4 + v div 16))) (b64_scan 2 (v mod 16) 0 cs)
          else if q = 2
          then map_option ((#) (of_nat (left * 16 + v div 4))) (b64_scan 3 (v mod 4) 0 cs)
          else map_option ((#) (of_nat (left * 64 + v))) (b64_scan 0 0 0 cs))"

definition b64_decode :: "string \<Rightarrow> bytes option" where
  "b64_decode s = b64_scan 0 0 0 s"

lemma b64_value_char: "n < 64 \<Longrightarrow> b64_value (b64_char n) = Some n"
  by (auto simp: b64_value_def b64_char_def Let_def code_char_of)

lemma b64_char_not_pad: "n < 64 \<Longrightarrow> b64_char n \<noteq> CHR ''=''"
proof
  assume "n < 64" and "b64_char n = CHR ''=''"
  then have "b64_value (CHR ''='') = Some n" using b64_value_char by metis
  then show False by (simp add: b64_value_def code_def)
qed

lemma byte_bound: "unat (a :: byte) < 256"
  using unsigned_less [of a, where ?'a = nat] by simp

lemma byte_parts:
  fixes a :: byte
  shows "unat a div 4 < 64" "unat a div 16 < 16" "unat a div 64 < 4"
    and "unat a div 16 div 16 = 0" "unat a div 16 mod 16 = unat a div 16"
    and "unat a div 64 div 4 = 0" "unat a div 64 mod 4 = unat a div 64"
proof -
  show d4: "unat a div 4 < 64" and d16: "unat a div 16 < 16" and d64: "unat a div 64 < 4"
    using byte_bound [of a] by (simp_all add: less_mult_imp_div_less)
  show "unat a div 16 div 16 = 0" "unat a div 16 mod 16 = unat a div 16"
    using d16 by (rule div_less, rule mod_less)
  show "unat a div 64 div 4 = 0" "unat a div 64 mod 4 = unat a div 64"
    using d64 by (rule div_less, rule mod_less)
qed

lemma sextet_bounds:
  fixes a b c :: byte
  shows "unat a mod 4 * 16 + unat b div 16 < 64" "unat b mod 16 * 4 + unat c div 64 < 64"
    and "unat a mod 4 * 16 < 64" "unat b mod 16 * 4 < 64"
proof -
  have "unat a mod 4 \<le> 3" and "unat b mod 16 \<le> 15"
    using mod_less_divisor [of 4 "unat a"] mod_less_divisor [of 16 "unat b"] by linarith+
  then show "unat a mod 4 * 16 + unat b div 16 < 64" "unat b mod 16 * 4 + unat c div 64 < 64"
    "unat a mod 4 * 16 < 64" "unat b mod 16 * 4 < 64"
    using byte_parts(2) [of b] byte_parts(3) [of c] by linarith+
qed

lemma b64_decode_encode: "b64_decode (b64_encode bs) = Some bs"
  unfolding b64_decode_def
proof (induction bs rule: b64_encode.induct)
  case (4 a b c rest)
  then show ?case
    by (simp add: byte_parts sextet_bounds b64_value_char b64_char_not_pad del: of_nat_add of_nat_mult)
next
  case (3 a b)
  then show ?case
    by (simp add: byte_parts sextet_bounds b64_value_char b64_char_not_pad del: of_nat_add of_nat_mult)
next
  case (2 a)
  then show ?case
    by (simp add: byte_parts sextet_bounds b64_value_char b64_char_not_pad del: of_nat_add of_nat_mult)
qed simp

section \<open>UTF-8\<close>

definition utf8_char :: "char \<Rightarrow> bytes" where
  "utf8_char c = (let n = code c in
     if n < 128 then [of_nat n] else [of_nat (192 + n div 64), of_nat (128 + n mod 64)])"

definition utf8_encode :: "string \<Rightarrow> bytes" where
  "utf8_encode s = concat (map utf8_char s)"

text \<open>\<open>bytes.decode()\<close>: \<open>None\<close> where it raises, and where the text leaves the modelled
  characters (code points from 256 on).\<close>

fun utf8_decode :: "bytes \<Rightarrow> string option" where
  "utf8_decode [] = Some []"
| "utf8_decode (b # bs) =
     (if unat b < 128 then map_option ((#) (char_of (unat b))) (utf8_decode bs)
      else if unat b = 194 \<or> unat b = 195
      then (case bs of
              [] \<Rightarrow> None
            | d # ds \<Rightarrow>
                if 128 \<le> unat d \<and> unat d < 192
                then map_option ((#) (char_of ((unat b - 192) * 64 + (unat d - 128)))) (utf8_decode ds)
                else None)
      else None)"

lemma unat_of_nat_byte: "n < 256 \<Longrightarrow> unat (of_nat n :: byte) = n"
  by (simp add: unat_of_nat)

lemma char_of_code [simp]: "char_of (code c) = c"
  by (simp add: code_def)

lemma utf8_decode_char: "utf8_decode (utf8_char c @ bs) = map_option ((#) c) (utf8_decode bs)"
proof (cases "code c < 128")
  case True
  then show ?thesis by (simp add: utf8_char_def Let_def unat_of_nat_byte)
next
  case False
  have bound: "code c < 256" by simp
  define h l where "h = code c div 64" and "l = code c mod 64"
  have hl: "code c = h * 64 + l" "l < 64" "h = 2 \<or> h = 3"
    using False bound div_le_mono [of 128 "code c" 64] less_mult_imp_div_less [of "code c" 4 64]
    unfolding h_def l_def by (simp_all, linarith)
  have h: "unat (of_nat (192 + h) :: byte) = 192 + h" and l: "unat (of_nat (128 + l) :: byte) = 128 + l"
    using hl(2,3) by (intro unat_of_nat_byte; auto)+
  have "utf8_char c = [of_nat (192 + h), of_nat (128 + l)]"
    using False by (simp add: utf8_char_def Let_def h_def l_def)
  moreover have "char_of (h * 64 + l) = c" using hl(1) by (metis char_of_code)
  ultimately show ?thesis
    using hl(2,3) h l by (simp del: of_nat_add)
qed

lemma utf8_decode_encode: "utf8_decode (utf8_encode s) = Some s"
  by (induction s) (simp_all add: utf8_encode_def utf8_decode_char)

end
