(* ===== verification/Secret_Cipher.thy ===== *)
theory Secret_Cipher
  imports Py_Crypto
begin

text \<open>
  The store for the SMTP password (\<open>SecretCipher\<close>, \<open>keystream\<close>, \<open>xor_bytes\<close> of
  \<^verbatim>\<open>backend/email_service.py\<close>): where the key comes from, encryption under a keystream
  with an HMAC tag, and decryption. The random nonce and fresh key are arguments; the key file
  is its content, if any.
\<close>

record cipher =
  encryption_key :: bytes
  authentication_key :: bytes

definition make_cipher :: "bytes \<Rightarrow> cipher" where
  "make_cipher key =
     \<lparr>encryption_key = hmac_sha256 key (utf8_encode ''opportunity-radar-email-encryption''),
      authentication_key = hmac_sha256 key (utf8_encode ''opportunity-radar-email-authentication'')\<rparr>"

text \<open>The key and the key file afterwards; \<open>None\<close> for the key is a \<open>ValueError\<close> from a file
  that is not base64.\<close>

definition load_key :: "string \<Rightarrow> string option \<Rightarrow> bytes \<Rightarrow> bytes option \<times> string option" where
  "load_key env_value key_file fresh =
     (if strip env_value \<noteq> [] then (Some (sha256 (utf8_encode (strip env_value))), key_file)
      else case key_file of
        Some content \<Rightarrow> (b64_decode (strip content), key_file)
      | None \<Rightarrow> (Some fresh, Some (b64_encode fresh)))"

function keystream_loop :: "bytes \<Rightarrow> bytes \<Rightarrow> nat \<Rightarrow> nat \<Rightarrow> bytes \<Rightarrow> bytes" where
  "keystream_loop key nonce n counter stream =
     (if length stream < n
      then keystream_loop key nonce n (counter + 1)
             (stream @ hmac_sha256 key (nonce @ to_bytes8 counter))
      else take n stream)"
  by pat_completeness auto

termination
  by (relation "measure (\<lambda>(_, _, n, _, stream). n - length stream)") auto

declare keystream_loop.simps [simp del]

definition keystream :: "bytes \<Rightarrow> bytes \<Rightarrow> nat \<Rightarrow> bytes" where
  "keystream key nonce n = keystream_loop key nonce n 0 []"

definition xor_bytes :: "bytes \<Rightarrow> bytes \<Rightarrow> bytes" where
  "xor_bytes left right = map2 (XOR) left right"

definition encrypt :: "cipher \<Rightarrow> bytes \<Rightarrow> string \<Rightarrow> string" where
  "encrypt c nonce value =
     (let plaintext = utf8_encode value;
          ciphertext = xor_bytes plaintext (keystream (encryption_key c) nonce (length plaintext));
          tag = hmac_sha256 (authentication_key c) (nonce @ ciphertext)
      in b64_encode (nonce @ ciphertext @ tag))"

text \<open>\<open>payload[:16]\<close>, \<open>payload[16:-32]\<close>, \<open>payload[-32:]\<close>; \<open>None\<close> is
  \<open>InvalidSecretToken\<close>.\<close>

definition decrypt :: "cipher \<Rightarrow> string \<Rightarrow> string option" where
  "decrypt c token =
     (case b64_decode token of
        None \<Rightarrow> None
      | Some payload \<Rightarrow>
          (let nonce = take 16 payload;
               ciphertext = drop 16 (take (length payload - 32) payload);
               tag = drop (length payload - 32) payload;
               expected = hmac_sha256 (authentication_key c) (nonce @ ciphertext)
           in if length payload < 48 \<or> tag \<noteq> expected then None
              else utf8_decode
                (xor_bytes ciphertext (keystream (encryption_key c) nonce (length ciphertext)))))"

section \<open>Facts\<close>

lemma length_keystream_loop: "length (keystream_loop key nonce n counter stream) = n"
  by (induction key nonce n counter stream rule: keystream_loop.induct)
    (subst keystream_loop.simps, auto)

lemma length_keystream [simp]: "length (keystream key nonce n) = n"
  by (simp add: keystream_def length_keystream_loop)

lemma length_xor_bytes [simp]: "length (xor_bytes a b) = min (length a) (length b)"
  by (simp add: xor_bytes_def)

lemma xor_bytes_twice: "length k = length a \<Longrightarrow> xor_bytes (xor_bytes a k) k = a"
  by (induction a k rule: list_induct2') (simp_all add: xor_bytes_def xor.assoc)

lemma b64_char_not_space: "n < 64 \<Longrightarrow> \<not> is_space (b64_char n)"
  by (auto simp: b64_char_def is_space_def Let_def code_char_of)

lemma b64_encode_no_space: "x \<in> set (b64_encode bs) \<Longrightarrow> \<not> is_space x"
  by (induction bs rule: b64_encode.induct)
    (auto simp: b64_char_not_space byte_parts sextet_bounds,
     auto simp: is_space_def Let_def code_def)


lemma decrypt_encrypt:
  assumes "length nonce = 16"
  shows "decrypt c (encrypt c nonce v) = Some v"
proof -
  define ct where "ct = xor_bytes (utf8_encode v)
      (keystream (encryption_key c) nonce (length (utf8_encode v)))"
  define tag where "tag = hmac_sha256 (authentication_key c) (nonce @ ct)"
  have len: "length ct = length (utf8_encode v)" "length tag = 32"
    by (simp_all add: ct_def tag_def)
  have "encrypt c nonce v = b64_encode (nonce @ ct @ tag)"
    by (simp add: encrypt_def Let_def ct_def tag_def)
  moreover have "take (length ct + 16) (nonce @ ct @ tag) = nonce @ ct"
    using assms by simp
  ultimately have "decrypt c (encrypt c nonce v) =
      utf8_decode (xor_bytes ct (keystream (encryption_key c) nonce (length ct)))"
    using assms len by (simp add: decrypt_def b64_decode_encode Let_def tag_def [symmetric] add.commute)
  also have "xor_bytes ct (keystream (encryption_key c) nonce (length ct)) = utf8_encode v"
    by (simp add: ct_def xor_bytes_twice)
  finally show ?thesis by (simp add: utf8_decode_encode)
qed

lemma decrypt_SomeD:
  assumes "decrypt c token = Some v"
  obtains nonce ct where "length nonce = 16"
    "b64_decode token = Some (nonce @ ct @ hmac_sha256 (authentication_key c) (nonce @ ct))"
    "utf8_decode (xor_bytes ct (keystream (encryption_key c) nonce (length ct))) = Some v"
proof -
  obtain payload where p: "b64_decode token = Some payload"
    using assms by (auto simp: decrypt_def split: option.splits)
  define nonce where "nonce = take 16 payload"
  define ct where "ct = drop 16 (take (length payload - 32) payload)"
  define tag where "tag = drop (length payload - 32) payload"
  have long: "48 \<le> length payload"
    and tag: "tag = hmac_sha256 (authentication_key c) (nonce @ ct)"
    and dec: "utf8_decode (xor_bytes ct (keystream (encryption_key c) nonce (length ct))) = Some v"
    using assms p by (auto simp: decrypt_def Let_def nonce_def ct_def tag_def split: if_splits)
  have "nonce = take 16 (take (length payload - 32) payload)"
    using long by (simp add: nonce_def min_def)
  then have "nonce @ ct = take (length payload - 32) payload"
    unfolding ct_def by (simp only: append_take_drop_id)
  then have "payload = nonce @ ct @ tag"
    unfolding tag_def by (metis append_assoc append_take_drop_id)
  then have "b64_decode token = Some (nonce @ ct @ hmac_sha256 (authentication_key c) (nonce @ ct))"
    using p tag by simp
  moreover have "length nonce = 16" using long by (simp add: nonce_def)
  ultimately show thesis using dec that by blast
qed

section \<open>Properties\<close>

text \<open>C20. The stored SMTP password can be read back: for every key and every 16-byte nonce,
  decrypting an encrypted password returns it, including with the key that a fresh
  installation writes to its key file and later reads again.\<close>

theorem secret_round_trip:
  assumes "length nonce = 16"
  shows "decrypt (make_cipher key) (encrypt (make_cipher key) nonce password) = Some password
    \<and> load_key [] (snd (load_key [] None fresh)) other = (Some fresh, snd (load_key [] None fresh))"
proof -
  have "strip (b64_encode fresh) = b64_encode fresh"
    by (rule strip_id) (rule b64_encode_no_space)
  then have "load_key [] (snd (load_key [] None fresh)) other =
      (Some fresh, snd (load_key [] None fresh))"
    by (simp add: load_key_def strip_def lstrip_def rstrip_def b64_decode_encode)
  then show ?thesis using decrypt_encrypt [OF assms] by simp
qed

theorem secret_round_trip_witness:
  "decrypt (make_cipher [1, 2, 3]) (encrypt (make_cipher [1, 2, 3]) (replicate 16 7) ''s3cret'') =
     Some ''s3cret''"
  by (rule secret_round_trip [THEN conjunct1]) simp

text \<open>C21. Only authenticated secrets are decrypted: whatever text is stored, decryption either
  refuses it or the text carries the HMAC, under this installation's authentication key, of
  exactly the nonce and ciphertext that were decrypted.\<close>

theorem decrypt_only_authenticated:
  "decrypt c token = None \<or>
   (\<exists>nonce ct v. decrypt c token = Some v \<and> length nonce = 16
      \<and> b64_decode token = Some (nonce @ ct @ hmac_sha256 (authentication_key c) (nonce @ ct))
      \<and> utf8_decode (xor_bytes ct (keystream (encryption_key c) nonce (length ct))) = Some v)"
proof (cases "decrypt c token")
  case (Some v)
  from decrypt_SomeD [OF this] show ?thesis using Some by metis
qed simp

theorem decrypt_only_authenticated_witness: "decrypt (make_cipher [1]) ''AAAA'' = None"
proof -
  have d: "b64_decode ''AAAA'' = Some [0, 0, 0]" by code_simp
  have "\<not> (\<exists>nonce ct v. decrypt (make_cipher [1]) ''AAAA'' = Some v \<and> length nonce = 16
      \<and> b64_decode ''AAAA'' = Some (nonce @ ct @
          hmac_sha256 (authentication_key (make_cipher [1])) (nonce @ ct))
      \<and> utf8_decode (xor_bytes ct (keystream (encryption_key (make_cipher [1])) nonce
          (length ct))) = Some v)"
    unfolding d by (auto dest: arg_cong [where f = length])
  then show ?thesis using decrypt_only_authenticated [of "make_cipher [1]" "''AAAA''"] by blast
qed

end
