(* ===== verification/Email_Settings.thy ===== *)
theory Email_Settings
  imports Maintenance_Scheduler Secret_Cipher
begin

text \<open>
  The digest's settings (\<^verbatim>\<open>backend/email_service.py\<close>): the single \<open>email_settings\<close>
  row, its public snapshot, the validation and storage of an edit, the conditional UPDATE by
  which the scheduler claims a day, and the settings a delivery needs.

  A JSON column holding a list of strings is modelled as that list. \<open>addr_of\<close> is the
  address part that \<open>email.utils.parseaddr\<close> finds; \<open>tz_local\<close> is the time-zone
  database's answer for a zone at the moment of the call: weekday (0 is Monday), date and
  \<open>HH:MM\<close>. Both callers of \<open>save_settings\<close> pass every field.
\<close>

section \<open>Rows\<close>

record email_settings =
  es_smtp_host :: string
  es_smtp_port :: int
  es_security :: string
  es_smtp_username :: string
  es_ciphertext :: string
  es_from_email :: string
  es_from_name :: string
  es_reply_to :: string
  es_enabled :: bool
  es_recipients :: "string list"
  es_tracking_started :: string
  es_days :: "string list"
  es_time :: string
  es_timezone :: string
  es_last_date :: string
  es_checkpoint :: string
  es_last_successful :: string
  es_updated_at :: string

text \<open>The public view: the password is replaced by the fact that there is one.\<close>

record settings_view =
  sv_smtp_host :: string
  sv_smtp_port :: int
  sv_security :: string
  sv_smtp_username :: string
  sv_from_email :: string
  sv_from_name :: string
  sv_reply_to :: string
  sv_enabled :: bool
  sv_recipients :: "string list"
  sv_days :: "string list"
  sv_time :: string
  sv_timezone :: string
  sv_has_password :: bool
  sv_tracking_started :: string
  sv_checkpoint :: string
  sv_last_successful :: string
  sv_last_date :: string
  sv_updated_at :: string
  sv_configured :: bool

type_synonym tz_local = "string \<Rightarrow> (nat \<times> string \<times> string) option"

definition weekdays :: "string list" where
  "weekdays = [''monday'', ''tuesday'', ''wednesday'', ''thursday'', ''friday'', ''saturday'',
               ''sunday'']"

definition default_settings :: settings_view where
  "default_settings =
     \<lparr>sv_smtp_host = [], sv_smtp_port = 465, sv_security = ''ssl_tls'', sv_smtp_username = [],
      sv_from_email = [], sv_from_name = ''Opportunity Radar'', sv_reply_to = [],
      sv_enabled = False, sv_recipients = [], sv_days = take 5 weekdays, sv_time = ''07:00'',
      sv_timezone = default_timezone, sv_has_password = False, sv_tracking_started = [],
      sv_checkpoint = [], sv_last_successful = [], sv_last_date = [], sv_updated_at = [],
      sv_configured = False\<rparr>"

definition ordered_schedule_days :: "string list \<Rightarrow> string list" where
  "ordered_schedule_days days = filter (\<lambda>day. day \<in> set days) weekdays"

definition settings_snapshot :: "email_settings \<Rightarrow> settings_view" where
  "settings_snapshot r =
     \<lparr>sv_smtp_host = es_smtp_host r, sv_smtp_port = es_smtp_port r, sv_security = es_security r,
      sv_smtp_username = es_smtp_username r, sv_from_email = es_from_email r,
      sv_from_name = es_from_name r, sv_reply_to = es_reply_to r, sv_enabled = es_enabled r,
      sv_recipients = es_recipients r, sv_days = ordered_schedule_days (es_days r),
      sv_time = es_time r, sv_timezone = es_timezone r,
      sv_has_password = (es_ciphertext r \<noteq> []), sv_tracking_started = es_tracking_started r,
      sv_checkpoint = es_checkpoint r, sv_last_successful = es_last_successful r,
      sv_last_date = es_last_date r, sv_updated_at = es_updated_at r,
      sv_configured = (es_smtp_host r \<noteq> [] \<and> es_smtp_port r \<noteq> 0 \<and> es_smtp_username r \<noteq> []
        \<and> es_ciphertext r \<noteq> [] \<and> es_from_email r \<noteq> [])\<rparr>"

section \<open>Validation\<close>

datatype email_error =
    BadSecurity | BadPort | BadFromEmail | BadReplyTo
  | BlankRecipient | BadRecipient string | DuplicateRecipient string | TooManyRecipients
  | BadDay | DuplicateDay string | BadSendTime | BadZone | NoRecipients | NoDays
  | NotSaved | Incomplete | NoDigestRecipients | UnreadablePassword

definition valid_email :: "(string \<Rightarrow> string) \<Rightarrow> string \<Rightarrow> bool" where
  "valid_email addr_of value =
     (let candidate = strip value in
      if addr_of candidate \<noteq> candidate \<or> count_list candidate (CHR ''@'') \<noteq> 1
         \<or> list_ex is_space candidate then False
      else (let local = takeWhile (\<lambda>c. c \<noteq> CHR ''@'') candidate;
                domain = tl (dropWhile (\<lambda>c. c \<noteq> CHR ''@'') candidate)
            in local \<noteq> [] \<and> contains ''.'' domain \<and> hd domain \<noteq> CHR ''.'' \<and> last domain \<noteq> CHR ''.''))"

fun collect_recipients ::
  "(string \<Rightarrow> string) \<Rightarrow> string list \<Rightarrow> string list \<Rightarrow> email_error + string list" where
  "collect_recipients addr_of [] normalized = Inr normalized"
| "collect_recipients addr_of (candidate # rest) normalized =
     (if strip candidate = [] then Inl BlankRecipient
      else (let recipient = str_lower (strip candidate) in
        if \<not> valid_email addr_of recipient then Inl (BadRecipient (strip candidate))
        else if recipient \<in> set normalized then Inl (DuplicateRecipient recipient)
        else collect_recipients addr_of rest (normalized @ [recipient])))"

definition normalize_recipients ::
  "(string \<Rightarrow> string) \<Rightarrow> string list \<Rightarrow> email_error + string list" where
  "normalize_recipients addr_of candidates =
     bind_res (collect_recipients addr_of candidates [])
       (\<lambda>normalized. if length normalized > 50 then Inl TooManyRecipients else Inr normalized)"

fun collect_days :: "string list \<Rightarrow> string list \<Rightarrow> email_error + string list" where
  "collect_days [] normalized = Inr normalized"
| "collect_days (candidate # rest) normalized =
     (let day = str_lower (strip candidate) in
      if day \<notin> set weekdays then Inl BadDay
      else if day \<in> set normalized then Inl (DuplicateDay day)
      else collect_days rest (normalized @ [day]))"

definition normalize_schedule_days :: "string list \<Rightarrow> email_error + string list" where
  "normalize_schedule_days days =
     bind_res (collect_days days []) (\<lambda>normalized. Inr (ordered_schedule_days normalized))"

definition validate_schedule_time :: "string \<Rightarrow> email_error + string" where
  "validate_schedule_time value = (if valid_run_time value then Inr value else Inl BadSendTime)"

section \<open>Saving\<close>

record email_payload =
  pl_smtp_host :: string
  pl_smtp_port :: int
  pl_security :: string
  pl_smtp_username :: string
  pl_smtp_password :: string
  pl_from_email :: string
  pl_from_name :: string
  pl_reply_to :: string
  pl_enabled :: bool
  pl_recipients :: "string list"
  pl_days :: "string list"
  pl_time :: string
  pl_timezone :: string

text \<open>The validated part of a payload.\<close>

record checked_payload =
  ck_security :: string
  ck_port :: int
  ck_recipients :: "string list"
  ck_days :: "string list"
  ck_time :: string
  ck_timezone :: string
  ck_local :: "nat \<times> string \<times> string"

definition security_modes :: "string list" where
  "security_modes = [''ssl_tls'', ''starttls'', ''none'']"

definition check_payload ::
  "(string \<Rightarrow> string) \<Rightarrow> tz_local \<Rightarrow> string \<Rightarrow> email_payload \<Rightarrow> email_error + checked_payload" where
  "check_payload addr_of tz app_timezone p =
     (let security = (if pl_security p = [] then ''ssl_tls'' else pl_security p) in
      bind_res (guard_res (security \<in> set security_modes) BadSecurity) (\<lambda>_.
      bind_res (guard_res (1 \<le> pl_smtp_port p \<and> pl_smtp_port p \<le> 65535) BadPort) (\<lambda>_.
      bind_res (guard_res (strip (pl_from_email p) = [] \<or> valid_email addr_of (strip (pl_from_email p)))
                 BadFromEmail) (\<lambda>_.
      bind_res (guard_res (strip (pl_reply_to p) = [] \<or> valid_email addr_of (strip (pl_reply_to p)))
                 BadReplyTo) (\<lambda>_.
      bind_res (normalize_recipients addr_of (pl_recipients p)) (\<lambda>recipients.
      bind_res (normalize_schedule_days (pl_days p)) (\<lambda>days.
      bind_res (validate_schedule_time (pl_time p)) (\<lambda>time.
        let timezone = strip (if pl_timezone p = [] then app_timezone else pl_timezone p) in
        case tz timezone of
          None \<Rightarrow> Inl BadZone
        | Some local \<Rightarrow>
            bind_res (guard_res (\<not> (pl_enabled p \<and> recipients = [])) NoRecipients) (\<lambda>_.
            bind_res (guard_res (\<not> (pl_enabled p \<and> days = [])) NoDays) (\<lambda>_.
              Inr \<lparr>ck_security = security, ck_port = pl_smtp_port p, ck_recipients = recipients,
                   ck_days = days, ck_time = time, ck_timezone = timezone, ck_local = local\<rparr>))))))))))"

definition current_view :: "email_settings option \<Rightarrow> settings_view" where
  "current_view current =
     (case current of None \<Rightarrow> default_settings | Some r \<Rightarrow> settings_snapshot r)"

text \<open>Enabling the schedule after today's time uses up today.\<close>

definition saved_last_date ::
  "email_settings option \<Rightarrow> email_payload \<Rightarrow> checked_payload \<Rightarrow> string" where
  "saved_last_date current p ck =
     (case ck_local ck of (weekday, date, hhmm) \<Rightarrow>
        if pl_enabled p \<and> \<not> sv_enabled (current_view current)
           \<and> weekdays ! weekday \<in> set (ck_days ck) \<and> ck_time ck \<le> hhmm
        then date
        else (case current of None \<Rightarrow> [] | Some r \<Rightarrow> es_last_date r))"

definition saved_row ::
  "cipher \<Rightarrow> bytes \<Rightarrow> string \<Rightarrow> email_settings option \<Rightarrow> email_payload \<Rightarrow> checked_payload \<Rightarrow>
   email_settings" where
  "saved_row c nonce now current p ck =
     \<lparr>es_smtp_host = strip (pl_smtp_host p), es_smtp_port = ck_port ck,
      es_security = ck_security ck, es_smtp_username = strip (pl_smtp_username p),
      es_ciphertext =
        (if pl_smtp_password p \<noteq> [] then encrypt c nonce (pl_smtp_password p)
         else case current of None \<Rightarrow> [] | Some r \<Rightarrow> es_ciphertext r),
      es_from_email = strip (pl_from_email p),
      es_from_name =
        strip (if pl_from_name p = [] then ''Opportunity Radar'' else pl_from_name p),
      es_reply_to = strip (pl_reply_to p), es_enabled = pl_enabled p,
      es_recipients = ck_recipients ck,
      es_tracking_started =
        (case current of None \<Rightarrow> now
         | Some r \<Rightarrow> if es_tracking_started r \<noteq> [] then es_tracking_started r else now),
      es_days = ck_days ck, es_time = ck_time ck, es_timezone = ck_timezone ck,
      es_last_date = saved_last_date current p ck,
      es_checkpoint = (case current of None \<Rightarrow> [] | Some r \<Rightarrow> es_checkpoint r),
      es_last_successful = (case current of None \<Rightarrow> [] | Some r \<Rightarrow> es_last_successful r),
      es_updated_at = now\<rparr>"

text \<open>The tables \<open>save_settings\<close> writes in its one transaction.\<close>

record settings_db =
  db_settings :: "email_settings option"
  db_scheduler_timezone :: "string option option"
  db_schedules :: schedule_table

definition save_settings ::
  "(string \<Rightarrow> string) \<Rightarrow> tz_local \<Rightarrow> cipher \<Rightarrow> bytes \<Rightarrow> string \<Rightarrow> email_payload \<Rightarrow> settings_db \<Rightarrow>
   email_error + settings_db" where
  "save_settings addr_of tz c nonce now p db =
     (let app_timezone =
        application_timezone (\<lambda>z. map_option snd (tz z)) (db_scheduler_timezone db) in
      bind_res (check_payload addr_of tz app_timezone p) (\<lambda>ck. Inr
        \<lparr>db_settings = Some (saved_row c nonce now (db_settings db) p ck),
         db_scheduler_timezone = Some (Some (ck_timezone ck)),
         db_schedules = map (\<lambda>(k, s).
           (k, if sch_timezone s \<noteq> ck_timezone ck
               then s\<lparr>sch_timezone := ck_timezone ck, sch_updated_at := now\<rparr> else s))
           (db_schedules db)\<rparr>))"

definition get_settings :: "tz_local \<Rightarrow> settings_db \<Rightarrow> settings_view" where
  "get_settings tz db =
     (case db_settings db of
        None \<Rightarrow> default_settings\<lparr>sv_timezone :=
          application_timezone (\<lambda>z. map_option snd (tz z)) (db_scheduler_timezone db)\<rparr>
      | Some r \<Rightarrow> settings_snapshot r)"

text \<open>\<open>bootstrap_from_environment\<close>: the payload comes from the environment variables.\<close>

definition bootstrap_from_environment ::
  "(string \<Rightarrow> string) \<Rightarrow> tz_local \<Rightarrow> cipher \<Rightarrow> bytes \<Rightarrow> string \<Rightarrow> email_payload \<Rightarrow> settings_db \<Rightarrow>
   (email_error + settings_db) \<times> bool" where
  "bootstrap_from_environment addr_of tz c nonce now env db =
     (if sv_configured (get_settings tz db) \<or> pl_smtp_password env = [] then (Inr db, False)
      else (save_settings addr_of tz c nonce now
              (env\<lparr>pl_enabled := False, pl_recipients := [], pl_days := take 5 weekdays,
                   pl_time := ''07:00'',
                   pl_timezone := application_timezone (\<lambda>z. map_option snd (tz z))
                     (db_scheduler_timezone db)\<rparr>) db, True))"

definition claim_scheduled_occurrence ::
  "string \<Rightarrow> settings_view \<Rightarrow> string \<Rightarrow> email_settings option \<Rightarrow> email_settings option \<times> bool" where
  "claim_scheduled_occurrence now observed local_date current =
     (case current of
        None \<Rightarrow> (None, False)
      | Some r \<Rightarrow>
          if es_enabled r \<and> es_last_date r \<noteq> local_date \<and> es_time r = sv_time observed
             \<and> es_timezone r = sv_timezone observed \<and> es_updated_at r = sv_updated_at observed
          then (Some (r\<lparr>es_last_date := local_date, es_updated_at := now\<rparr>), True)
          else (Some r, False))"

text \<open>\<open>_delivery_settings\<close>: the view together with the decrypted password.\<close>

definition delivery_settings ::
  "cipher \<Rightarrow> bool \<Rightarrow> email_settings option \<Rightarrow> email_error + settings_view \<times> string" where
  "delivery_settings c require_recipients current =
     (case current of
        None \<Rightarrow> Inl NotSaved
      | Some r \<Rightarrow>
          (let v = settings_snapshot r in
           if sv_smtp_host v = [] \<or> sv_smtp_port v = 0 \<or> sv_smtp_username v = []
              \<or> sv_from_email v = [] \<or> \<not> sv_has_password v then Inl Incomplete
           else if require_recipients \<and> sv_recipients v = [] then Inl NoDigestRecipients
           else case decrypt c (es_ciphertext r) of
             None \<Rightarrow> Inl UnreadablePassword
           | Some password \<Rightarrow> Inr (v, password)))"


section \<open>What validation establishes\<close>

definition clean_recipient :: "(string \<Rightarrow> string) \<Rightarrow> string \<Rightarrow> bool" where
  "clean_recipient addr_of r \<longleftrightarrow> valid_email addr_of r \<and> str_lower r = r \<and> strip r = r"

definition recipients_wf :: "(string \<Rightarrow> string) \<Rightarrow> string list \<Rightarrow> bool" where
  "recipients_wf addr_of rs \<longleftrightarrow>
     distinct rs \<and> length rs \<le> 50 \<and>
     (\<forall>r \<in> set rs. clean_recipient addr_of r)"

lemma lower_strip_comm: "strip (str_lower s) = str_lower (strip s)"
proof -
  have dw: "dropWhile is_space (map lower_char t) = map lower_char (dropWhile is_space t)" for t
    by (induction t) auto
  show ?thesis by (simp add: strip_def rstrip_def lstrip_def str_lower_def dw rev_map)
qed

lemma dropWhile_idem: "dropWhile P (dropWhile P xs) = dropWhile P xs"
  by (induction xs) auto

lemma clean_lower_strip:
  "clean_recipient addr_of (str_lower (strip c)) = valid_email addr_of (str_lower (strip c))"
  by (simp add: clean_recipient_def lower_strip_comm)

lemma collect_recipients_wf:
  assumes "collect_recipients addr_of cs acc = Inr rs" and "distinct acc"
    and "\<forall>r \<in> set acc. clean_recipient addr_of r"
  shows "distinct rs \<and> (\<forall>r \<in> set rs. clean_recipient addr_of r)
    \<and> rs = acc @ map (\<lambda>c. str_lower (strip c)) cs"
  using assms
proof (induction cs arbitrary: acc)
  case (Cons c cs)
  let ?r = "str_lower (strip c)"
  have ok: "strip c \<noteq> []" "valid_email addr_of ?r" "?r \<notin> set acc"
    and rec: "collect_recipients addr_of cs (acc @ [?r]) = Inr rs"
    using Cons.prems(1) by (simp_all add: Let_def split: if_splits)
  have "distinct (acc @ [?r])" "\<forall>r \<in> set (acc @ [?r]). clean_recipient addr_of r"
    using Cons.prems(2,3) ok by (simp_all add: clean_lower_strip)
  note IH = Cons.IH [OF rec this]
  have eq: "(acc @ [?r]) @ map (\<lambda>c. str_lower (strip c)) cs = acc @ map (\<lambda>c. str_lower (strip c)) (c # cs)"
    by simp
  show ?case using IH unfolding eq .
qed simp

lemma normalize_recipients_wf:
  assumes "normalize_recipients addr_of cs = Inr rs"
  shows "recipients_wf addr_of rs" "rs = map (\<lambda>c. str_lower (strip c)) cs"
  using assms collect_recipients_wf [of addr_of cs "[]"]
  by (auto simp: normalize_recipients_def recipients_wf_def res_simps split: if_splits)

lemma recipients_wf_fixed:
  assumes "recipients_wf addr_of rs"
  shows "normalize_recipients addr_of rs = Inr rs"
proof -
  have "collect_recipients addr_of rs acc = Inr (acc @ rs)"
    if "distinct (acc @ rs)" "\<forall>r \<in> set rs. clean_recipient addr_of r" for acc
    using that
  proof (induction rs arbitrary: acc)
    case (Cons r rs)
    have r: "valid_email addr_of r" "str_lower r = r" "strip r = r"
      using Cons.prems(2) by (simp_all add: clean_recipient_def)
    then have "r \<noteq> []" by (auto simp: valid_email_def Let_def)
    then show ?case using r Cons.IH [of "acc @ [r]"] Cons.prems by (simp add: Let_def)
  qed simp
  then show ?thesis
    using assms by (simp add: normalize_recipients_def recipients_wf_def)
qed

lemma ordered_schedule_days_idem [simp]:
  "ordered_schedule_days (ordered_schedule_days ds) = ordered_schedule_days ds"
  by (auto simp: ordered_schedule_days_def intro: filter_cong)

lemma distinct_ordered_days: "distinct (ordered_schedule_days ds)"
  unfolding ordered_schedule_days_def by (rule distinct_filter) (simp add: weekdays_def)

lemma collect_days_set:
  assumes "collect_days cs acc = Inr ds" and "set acc \<subseteq> set weekdays"
  shows "set ds = set acc \<union> (\<lambda>c. str_lower (strip c)) ` set cs \<and> set ds \<subseteq> set weekdays"
  using assms
  by (induction cs acc rule: collect_days.induct) (auto simp: Let_def split: if_splits)

lemma normalize_days_wf:
  assumes "normalize_schedule_days cs = Inr ds"
  shows "ordered_schedule_days ds = ds" "set ds = (\<lambda>c. str_lower (strip c)) ` set cs"
proof -
  obtain n where n: "collect_days cs [] = Inr n" "ds = ordered_schedule_days n"
    using assms by (auto simp: normalize_schedule_days_def res_simps)
  then show "ordered_schedule_days ds = ds" by simp
  show "set ds = (\<lambda>c. str_lower (strip c)) ` set cs"
    using collect_days_set [OF n(1)] n(2) by (auto simp: ordered_schedule_days_def)
qed

definition checked_wf :: "(string \<Rightarrow> string) \<Rightarrow> tz_local \<Rightarrow> bool \<Rightarrow> checked_payload \<Rightarrow> bool" where
  "checked_wf addr_of tz enabled ck \<longleftrightarrow>
     ck_security ck \<in> set security_modes \<and>
     1 \<le> ck_port ck \<and> ck_port ck \<le> 65535 \<and>
     recipients_wf addr_of (ck_recipients ck) \<and>
     ordered_schedule_days (ck_days ck) = ck_days ck \<and>
     valid_run_time (ck_time ck) \<and>
     tz (ck_timezone ck) = Some (ck_local ck) \<and>
     (enabled \<longrightarrow> ck_recipients ck \<noteq> [] \<and> ck_days ck \<noteq> [])"

lemma check_payload_Inr:
  assumes "check_payload addr_of tz app p = Inr ck"
  obtains rs ds local where "ck_security ck \<in> set security_modes"
    "1 \<le> pl_smtp_port p" "pl_smtp_port p \<le> 65535" "ck_port ck = pl_smtp_port p"
    "normalize_recipients addr_of (pl_recipients p) = Inr rs" "ck_recipients ck = rs"
    "normalize_schedule_days (pl_days p) = Inr ds" "ck_days ck = ds"
    "validate_schedule_time (pl_time p) = Inr (ck_time ck)"
    "tz (ck_timezone ck) = Some local" "ck_local ck = local"
    "pl_enabled p \<Longrightarrow> rs \<noteq> [] \<and> ds \<noteq> []"
  using assms
  by (simp add: check_payload_def Let_def res_simps split: option.splits) auto

lemma check_payload_wf:
  assumes "check_payload addr_of tz app p = Inr ck"
  shows "checked_wf addr_of tz (pl_enabled p) ck"
    and "ck_recipients ck = map (\<lambda>c. str_lower (strip c)) (pl_recipients p)"
    and "set (ck_days ck) = (\<lambda>c. str_lower (strip c)) ` set (pl_days p)"
    and "ck_time ck = pl_time p" "ck_port ck = pl_smtp_port p"
proof -
  from assms obtain rs ds local where C: "ck_security ck \<in> set security_modes"
    "1 \<le> pl_smtp_port p" "pl_smtp_port p \<le> 65535" "ck_port ck = pl_smtp_port p"
    "normalize_recipients addr_of (pl_recipients p) = Inr rs" "ck_recipients ck = rs"
    "normalize_schedule_days (pl_days p) = Inr ds" "ck_days ck = ds"
    "validate_schedule_time (pl_time p) = Inr (ck_time ck)"
    "tz (ck_timezone ck) = Some local" "ck_local ck = local"
    "pl_enabled p \<Longrightarrow> rs \<noteq> [] \<and> ds \<noteq> []"
    by (rule check_payload_Inr) blast
  have t: "ck_time ck = pl_time p" "valid_run_time (ck_time ck)"
    using C(9) by (simp_all add: validate_schedule_time_def split: if_splits)
  note R = normalize_recipients_wf [OF C(5)] and D = normalize_days_wf [OF C(7)]
  show "checked_wf addr_of tz (pl_enabled p) ck"
    unfolding checked_wf_def using C(1-4,6,8,10-12) t R(1) D(1) by simp
  show "ck_recipients ck = map (\<lambda>c. str_lower (strip c)) (pl_recipients p)" using C(6) R(2) by simp
  show "set (ck_days ck) = (\<lambda>c. str_lower (strip c)) ` set (pl_days p)" using C(8) D(2) by simp
  show "ck_time ck = pl_time p" "ck_port ck = pl_smtp_port p" using t C(4) by simp_all
qed


section \<open>Properties\<close>

text \<open>Whatever the administrator submits, a row that is saved is usable: a supported security
  mode, a port between 1 and 65535, at most 50 distinct, lower-case, valid recipients (exactly
  the submitted ones, in order), the submitted days in calendar order, a real HH:MM time, a zone
  the time-zone database knows, and no enabled schedule without recipients or days. All
  maintenance schedules follow the chosen zone.\<close>

theorem saved_settings_are_usable:
  assumes "save_settings addr_of tz c nonce now p db = Inr db'"
  shows "\<exists>r. db_settings db' = Some r
    \<and> es_security r \<in> {''ssl_tls'', ''starttls'', ''none''}
    \<and> 1 \<le> es_smtp_port r \<and> es_smtp_port r \<le> 65535
    \<and> distinct (es_recipients r) \<and> length (es_recipients r) \<le> 50
    \<and> es_recipients r = map (\<lambda>a. str_lower (strip a)) (pl_recipients p)
    \<and> (\<forall>a \<in> set (es_recipients r). valid_email addr_of a)
    \<and> sv_days (settings_snapshot r) = es_days r
    \<and> set (es_days r) = (\<lambda>d. str_lower (strip d)) ` set (pl_days p)
    \<and> valid_run_time (es_time r) \<and> tz (es_timezone r) \<noteq> None
    \<and> (es_enabled r \<longrightarrow> es_recipients r \<noteq> [] \<and> es_days r \<noteq> [])
    \<and> db_scheduler_timezone db' = Some (Some (es_timezone r))
    \<and> (\<forall>(k, s) \<in> set (db_schedules db'). sch_timezone s = es_timezone r)"
proof -
  obtain app ck where ck: "check_payload addr_of tz app p = Inr ck"
    and db': "db' = \<lparr>db_settings = Some (saved_row c nonce now (db_settings db) p ck),
         db_scheduler_timezone = Some (Some (ck_timezone ck)),
         db_schedules = map (\<lambda>(k, s).
           (k, if sch_timezone s \<noteq> ck_timezone ck
               then s\<lparr>sch_timezone := ck_timezone ck, sch_updated_at := now\<rparr> else s))
           (db_schedules db)\<rparr>"
    using assms by (auto simp: save_settings_def Let_def res_simps)
  note W = check_payload_wf [OF ck, unfolded checked_wf_def recipients_wf_def security_modes_def]
  have sched: "\<forall>(k, s) \<in> set (db_schedules db'). sch_timezone s = ck_timezone ck"
    by (auto simp: db')
  show ?thesis
    using W sched
    by (intro exI [of _ "saved_row c nonce now (db_settings db) p ck"])
      (simp add: db' saved_row_def settings_snapshot_def clean_recipient_def)
qed

definition demo_payload :: email_payload where
  "demo_payload = \<lparr>pl_smtp_host = ''smtp.example.org'', pl_smtp_port = 465,
     pl_security = ''ssl_tls'', pl_smtp_username = ''radar'', pl_smtp_password = ''s3cret'',
     pl_from_email = ''radar@example.org'', pl_from_name = ''Radar'', pl_reply_to = [],
     pl_enabled = True, pl_recipients = ['' A@B.org ''], pl_days = [''friday'', ''monday''],
     pl_time = ''07:00'', pl_timezone = ''UTC''\<rparr>"

definition demo_tz :: tz_local where
  "demo_tz zone = (if zone = ''UTC'' then Some (0, ''2024-01-01'', ''08:00'') else None)"

definition demo_db :: settings_db where
  "demo_db = \<lparr>db_settings = None, db_scheduler_timezone = None,
     db_schedules = [(''refresh'', demo_schedule)]\<rparr>"

lemma demo_checked: "check_payload id demo_tz ''UTC'' demo_payload = Inr
  \<lparr>ck_security = ''ssl_tls'', ck_port = 465, ck_recipients = [''a@b.org''],
   ck_days = [''monday'', ''friday''], ck_time = ''07:00'', ck_timezone = ''UTC'',
   ck_local = (0, ''2024-01-01'', ''08:00'')\<rparr>"
  by code_simp

theorem saved_settings_are_usable_witness:
  "\<exists>r. db_settings (projr (save_settings id demo_tz (make_cipher [1]) (replicate 16 0) ''now''
     demo_payload demo_db)) = Some r \<and> es_enabled r \<and> es_days r \<noteq> []"
proof -
  obtain db' where s: "save_settings id demo_tz (make_cipher [1]) (replicate 16 0) ''now''
      demo_payload demo_db = Inr db'"
  proof -
    have "check_payload id demo_tz app demo_payload = check_payload id demo_tz ''UTC'' demo_payload"
      for app by (simp add: check_payload_def demo_payload_def)
    then show thesis using that demo_checked by (simp add: save_settings_def Let_def)
  qed
  from saved_settings_are_usable [OF s] obtain r where
    r: "db_settings db' = Some r" "es_enabled r \<longrightarrow> es_recipients r \<noteq> [] \<and> es_days r \<noteq> []" by blast
  have "es_enabled r"
    using s r(1) by (auto simp: save_settings_def Let_def res_simps saved_row_def demo_payload_def)
  with r s show ?thesis by simp
qed

end
