(* ===== verification/Py_Url.thy ===== *)
theory Py_Url
  imports Py_Stdlib
begin

text \<open>
  The parts of Python's \<open>ipaddress\<close> and \<open>urllib.parse\<close> that decide where a request goes:
  address parsing, printing and classes, \<open>urlsplit\<close> and the host, port and credential
  attributes of its result.
\<close>

section \<open>Splitting strings\<close>

text \<open>\<open>s.partition(c)\<close> and \<open>s.rpartition(c)\<close>: before, found, after.\<close>

definition partition :: "char \<Rightarrow> string \<Rightarrow> string \<times> bool \<times> string" where
  "partition c s =
     (if c \<in> set s
      then (takeWhile (\<lambda>x. x \<noteq> c) s, True, tl (dropWhile (\<lambda>x. x \<noteq> c) s))
      else (s, False, []))"

definition rpartition :: "char \<Rightarrow> string \<Rightarrow> string \<times> bool \<times> string" where
  "rpartition c s =
     (if c \<in> set s
      then (rev (tl (dropWhile (\<lambda>x. x \<noteq> c) (rev s))), True, rev (takeWhile (\<lambda>x. x \<noteq> c) (rev s)))
      else ([], False, s))"

lemma partition_first: "c \<notin> set a \<Longrightarrow> partition c (a @ c # b) = (a, True, b)"
  by (induction a) (auto simp: partition_def)

lemma partition_append:
  assumes "partition c s = (a, True, b)"
  shows "s = a @ c # b \<and> c \<notin> set a"
proof -
  have "c \<in> set s" using assms by (simp add: partition_def split: if_splits)
  then obtain x y where s: "s = x @ c # y" "c \<notin> set x" using split_list_first by metis
  with assms partition_first [of c x y] show ?thesis by simp
qed

section \<open>IP addresses\<close>

datatype ip = IPv4 nat | IPv6 nat "string option"

fun ip_version :: "ip \<Rightarrow> nat" where
  "ip_version (IPv4 _) = 4"
| "ip_version (IPv6 _ _) = 6"

fun ip_int :: "ip \<Rightarrow> nat" where
  "ip_int (IPv4 n) = n"
| "ip_int (IPv6 n _) = n"

definition parse_octet :: "string \<Rightarrow> nat option" where
  "parse_octet s =
     (if s = [] \<or> \<not> list_all is_digit s \<or> 3 < length s \<or> (s \<noteq> ''0'' \<and> hd s = CHR ''0'') then None
      else case read_nat s of
        Some n \<Rightarrow> if n \<le> 255 then Some n else None
      | None \<Rightarrow> None)"

definition parse_ipv4 :: "string \<Rightarrow> nat option" where
  "parse_ipv4 s =
     (case map parse_octet (split_on (CHR ''.'') s) of
        [Some a, Some b, Some c, Some d] \<Rightarrow> Some (((a * 256 + b) * 256 + c) * 256 + d)
      | _ \<Rightarrow> None)"

definition hex_digit :: "char \<Rightarrow> nat option" where
  "hex_digit c = (let n = code c in
     if 48 \<le> n \<and> n \<le> 57 then Some (n - 48)
     else if 97 \<le> n \<and> n \<le> 102 then Some (n - 87)
     else if 65 \<le> n \<and> n \<le> 70 then Some (n - 55)
     else None)"

fun hex_from :: "nat \<Rightarrow> string \<Rightarrow> nat option" where
  "hex_from acc [] = Some acc"
| "hex_from acc (c # cs) =
     (case hex_digit c of None \<Rightarrow> None | Some d \<Rightarrow> hex_from (16 * acc + d) cs)"

definition parse_hextet :: "string \<Rightarrow> nat option" where
  "parse_hextet s = (if s = [] \<or> 4 < length s then None else hex_from 0 s)"

fun hextets_value :: "nat \<Rightarrow> string list \<Rightarrow> nat option" where
  "hextets_value acc [] = Some acc"
| "hextets_value acc (p # ps) =
     (case parse_hextet p of None \<Rightarrow> None | Some h \<Rightarrow> hextets_value (acc * 65536 + h) ps)"

definition hex_char :: "nat \<Rightarrow> char" where
  "hex_char n = char_of (if n < 10 then 48 + n else 87 + n)"

lemma hex_digit_hex_char: "n < 16 \<Longrightarrow> hex_digit (hex_char n) = Some n"
  by (simp add: hex_digit_def hex_char_def code_char_of)

fun show_hex :: "nat \<Rightarrow> string" where
  "show_hex n = (if n < 16 then [hex_char n] else show_hex (n div 16) @ [hex_char (n mod 16)])"

declare show_hex.simps [simp del]

text \<open>The body of \<open>_ip_int_from_string\<close>, after the IPv4 suffix has become two hextets.\<close>

definition parse_parts :: "string list \<Rightarrow> nat option" where
  "parse_parts parts =
     (let n = length parts;
          holes = filter (\<lambda>i. parts ! i = []) [1..<n - 1]
      in if 9 < n then None
         else case holes of
           [] \<Rightarrow> if n \<noteq> 8 \<or> hd parts = [] \<or> last parts = [] then None else hextets_value 0 parts
         | [skip] \<Rightarrow>
             if hd parts = [] \<and> skip \<noteq> 1 \<or> last parts = [] \<and> skip \<noteq> n - 2 then None
             else (let hi = (if hd parts = [] then [] else take skip parts);
                       lo = (if last parts = [] then [] else drop (skip + 1) parts)
                   in if 8 < length hi + length lo + 1 then None
                      else case hextets_value 0 hi of
                        None \<Rightarrow> None
                      | Some h \<Rightarrow> hextets_value (h * 65536 ^ (8 - (length hi + length lo))) lo)
         | _ \<Rightarrow> None)"

definition parse_ipv6 :: "string \<Rightarrow> nat option" where
  "parse_ipv6 s =
     (let parts = split_on (CHR '':'') s in
      if length parts < 3 then None
      else if CHR ''.'' \<in> set (last parts)
      then (case parse_ipv4 (last parts) of
              None \<Rightarrow> None
            | Some v \<Rightarrow>
                parse_parts (butlast parts @ [show_hex (v div 65536), show_hex (v mod 65536)]))
      else parse_parts parts)"

definition ip_address :: "string \<Rightarrow> ip option" where
  "ip_address s =
     (if CHR ''/'' \<in> set s then None
      else case parse_ipv4 s of
        Some v \<Rightarrow> Some (IPv4 v)
      | None \<Rightarrow>
          (case partition (CHR ''%'') s of
             (addr, has_scope, scope) \<Rightarrow>
               if has_scope \<and> (scope = [] \<or> CHR ''%'' \<in> set scope) then None
               else map_option (\<lambda>v. IPv6 v (if has_scope then Some scope else None))
                      (parse_ipv6 addr)))"

text \<open>A network \<open>base/prefix\<close>; membership compares the leading bits.\<close>

definition in_net4 :: "nat \<Rightarrow> nat \<times> nat \<Rightarrow> bool" where
  "in_net4 a = (\<lambda>(base, p). a div 2 ^ (32 - p) = base div 2 ^ (32 - p))"

definition in_net6 :: "nat \<Rightarrow> nat \<times> nat \<Rightarrow> bool" where
  "in_net6 a = (\<lambda>(base, p). a div 2 ^ (128 - p) = base div 2 ^ (128 - p))"

definition ip4 :: "nat \<Rightarrow> nat \<Rightarrow> nat \<Rightarrow> nat \<Rightarrow> nat" where
  "ip4 a b c d = ((a * 256 + b) * 256 + c) * 256 + d"

definition private4 :: "(nat \<times> nat) list" where
  "private4 = [(ip4 0 0 0 0, 8), (ip4 10 0 0 0, 8), (ip4 127 0 0 0, 8), (ip4 169 254 0 0, 16),
     (ip4 172 16 0 0, 12), (ip4 192 0 0 0, 24), (ip4 192 0 0 170, 31), (ip4 192 0 2 0, 24),
     (ip4 192 168 0 0, 16), (ip4 198 18 0 0, 15), (ip4 198 51 100 0, 24), (ip4 203 0 113 0, 24),
     (ip4 240 0 0 0, 4), (ip4 255 255 255 255, 32)]"

definition private4_exceptions :: "(nat \<times> nat) list" where
  "private4_exceptions = [(ip4 192 0 0 9, 32), (ip4 192 0 0 10, 32)]"

text \<open>The first four hextets of an IPv6 network, the rest zero.\<close>

definition ip6 :: "nat \<Rightarrow> nat \<Rightarrow> nat \<Rightarrow> nat \<Rightarrow> nat" where
  "ip6 a b c d = (((a * 65536 + b) * 65536 + c) * 65536 + d) * 2 ^ 64"

definition private6 :: "(nat \<times> nat) list" where
  "private6 = [(1, 128), (0, 128), (0xffff * 2 ^ 32, 96), (ip6 0x64 0xff9b 1 0, 48),
     (ip6 0x100 0 0 0, 64), (ip6 0x2001 0 0 0, 23), (ip6 0x2001 0xdb8 0 0, 32),
     (ip6 0x2002 0 0 0, 16), (ip6 0xfc00 0 0 0, 7), (ip6 0xfe80 0 0 0, 10)]"

definition private6_exceptions :: "(nat \<times> nat) list" where
  "private6_exceptions = [(ip6 0x2001 1 0 0 + 1, 128), (ip6 0x2001 1 0 0 + 2, 128),
     (ip6 0x2001 3 0 0, 32), (ip6 0x2001 4 0x112 0, 48), (ip6 0x2001 0x20 0 0, 28),
     (ip6 0x2001 0x30 0 0, 28)]"

definition reserved6 :: "(nat \<times> nat) list" where
  "reserved6 = [(0, 8), (ip6 0x100 0 0 0, 8), (ip6 0x200 0 0 0, 7), (ip6 0x400 0 0 0, 6),
     (ip6 0x800 0 0 0, 5), (ip6 0x1000 0 0 0, 4), (ip6 0x4000 0 0 0, 3), (ip6 0x6000 0 0 0, 3),
     (ip6 0x8000 0 0 0, 3), (ip6 0xa000 0 0 0, 3), (ip6 0xc000 0 0 0, 3), (ip6 0xe000 0 0 0, 4),
     (ip6 0xf000 0 0 0, 5), (ip6 0xf800 0 0 0, 6), (ip6 0xfe00 0 0 0, 9)]"

definition is_private4 :: "nat \<Rightarrow> bool" where
  "is_private4 a \<longleftrightarrow>
     list_ex (in_net4 a) private4 \<and> \<not> list_ex (in_net4 a) private4_exceptions"

definition ipv4_mapped :: "nat \<Rightarrow> nat option" where
  "ipv4_mapped a = (if a div 2 ^ 32 = 0xffff then Some (a mod 2 ^ 32) else None)"

fun is_private :: "ip \<Rightarrow> bool" where
  "is_private (IPv4 a) = is_private4 a"
| "is_private (IPv6 a _) =
     (case ipv4_mapped a of
        Some v \<Rightarrow> is_private4 v
      | None \<Rightarrow> list_ex (in_net6 a) private6 \<and> \<not> list_ex (in_net6 a) private6_exceptions)"

fun is_global :: "ip \<Rightarrow> bool" where
  "is_global (IPv4 a) = (\<not> in_net4 a (ip4 100 64 0 0, 10) \<and> \<not> is_private4 a)"
| "is_global (IPv6 a s) = (\<not> is_private (IPv6 a s))"

fun is_loopback :: "ip \<Rightarrow> bool" where
  "is_loopback (IPv4 a) = in_net4 a (ip4 127 0 0 0, 8)"
| "is_loopback (IPv6 a _) = (a = 1)"

fun is_link_local :: "ip \<Rightarrow> bool" where
  "is_link_local (IPv4 a) = in_net4 a (ip4 169 254 0 0, 16)"
| "is_link_local (IPv6 a _) = in_net6 a (ip6 0xfe80 0 0 0, 10)"

fun is_multicast :: "ip \<Rightarrow> bool" where
  "is_multicast (IPv4 a) = in_net4 a (ip4 224 0 0 0, 4)"
| "is_multicast (IPv6 a _) = in_net6 a (ip6 0xff00 0 0 0, 8)"

fun is_reserved :: "ip \<Rightarrow> bool" where
  "is_reserved (IPv4 a) = in_net4 a (ip4 240 0 0 0, 4)"
| "is_reserved (IPv6 a _) = list_ex (in_net6 a) reserved6"

fun is_unspecified :: "ip \<Rightarrow> bool" where
  "is_unspecified (IPv4 a) = (a = 0)"
| "is_unspecified (IPv6 a _) = (a = 0)"

definition is_site_local :: "nat \<Rightarrow> bool" where
  "is_site_local a \<longleftrightarrow> in_net6 a (ip6 0xfec0 0 0 0, 10)"

definition is_sixtofour :: "nat \<Rightarrow> bool" where
  "is_sixtofour a \<longleftrightarrow> a div 2 ^ 112 = 0x2002"

definition is_teredo :: "nat \<Rightarrow> bool" where
  "is_teredo a \<longleftrightarrow> a div 2 ^ 96 = 0x20010000"

text \<open>Printing: the first longest run of at least two zero hextets becomes a double colon.\<close>

fun zero_run :: "nat \<Rightarrow> nat \<Rightarrow> nat \<times> nat \<Rightarrow> nat list \<Rightarrow> nat \<times> nat" where
  "zero_run i cur best [] = best"
| "zero_run i cur best (h # hs) =
     (if h = 0
      then zero_run (i + 1) (cur + 1) (if snd best < cur + 1 then (i - cur, cur + 1) else best) hs
      else zero_run (i + 1) 0 best hs)"

definition hextets :: "nat \<Rightarrow> nat list" where
  "hextets a = map (\<lambda>i. a div 65536 ^ i mod 65536) [7, 6, 5, 4, 3, 2, 1, 0]"

definition show_ipv6 :: "nat \<Rightarrow> string" where
  "show_ipv6 a =
     (let hs = hextets a; words = map show_hex hs in
      case zero_run 0 0 (0, 0) hs of
        (start, len) \<Rightarrow>
          if 1 < len
          then join '':'' ((if start = 0 then [[]] else []) @ take start words @ [[]]
                 @ drop (start + len) words @ (if start + len = 8 then [[]] else []))
          else join '':'' words)"

definition show_ipv4 :: "nat \<Rightarrow> string" where
  "show_ipv4 a = join ''.'' (map (\<lambda>i. show_nat (a div 256 ^ i mod 256)) [3, 2, 1, 0])"

fun show_ip :: "ip \<Rightarrow> string" where
  "show_ip (IPv4 a) = show_ipv4 a"
| "show_ip (IPv6 a scope) =
     show_ipv6 a @ (case scope of None \<Rightarrow> [] | Some s \<Rightarrow> CHR ''%'' # s)"

section \<open>URLs\<close>

record split_url =
  url_scheme :: string
  url_netloc :: string
  url_path :: string
  url_query :: string
  url_fragment :: string

definition scheme_char :: "char \<Rightarrow> bool" where
  "scheme_char c \<longleftrightarrow> is_alpha_ascii c \<or> is_digit c \<or> c = CHR ''+'' \<or> c = CHR ''-'' \<or> c = CHR ''.''"

definition split_scheme :: "string \<Rightarrow> string \<times> string" where
  "split_scheme url =
     (case partition (CHR '':'') url of
        (front, found, after) \<Rightarrow>
          if found \<and> front \<noteq> [] \<and> is_alpha_ascii (hd front) \<and> list_all scheme_char front
          then (str_lower front, after)
          else ([], url))"

text \<open>\<open>_check_bracketed_host\<close>: an IPv6 address, or the future format \<open>v1.x\<close>.\<close>

definition check_bracketed_host :: "string \<Rightarrow> bool" where
  "check_bracketed_host h =
     (if h \<noteq> [] \<and> hd h = CHR ''v''
      then (case partition (CHR ''.'') (tl h) of
              (hex, found, rest) \<Rightarrow>
                found \<and> hex \<noteq> [] \<and> list_all (\<lambda>c. hex_digit c \<noteq> None) hex \<and> rest \<noteq> []
                \<and> CHR 0x0A \<notin> set rest)
      else (case ip_address h of Some (IPv6 _ _) \<Rightarrow> True | _ \<Rightarrow> False))"

definition check_brackets :: "string \<Rightarrow> bool" where
  "check_brackets netloc =
     (let opens = CHR ''['' \<in> set netloc; closes = CHR '']'' \<in> set netloc in
      if opens \<noteq> closes then False
      else if opens
      then check_bracketed_host
             (fst (partition (CHR '']'') (snd (snd (partition (CHR ''['') netloc)))))
      else True)"

definition c0_or_space :: "char \<Rightarrow> bool" where
  "c0_or_space c \<longleftrightarrow> code c \<le> 32"

text \<open>\<open>None\<close> is the \<open>ValueError\<close>. The NFKC check of \<open>_checknetloc\<close> never fires on the
  modelled characters.\<close>

definition urlsplit :: "string \<Rightarrow> split_url option" where
  "urlsplit raw =
     (let url = filter (\<lambda>c. code c \<noteq> 9 \<and> code c \<noteq> 10 \<and> code c \<noteq> 13) (dropWhile c0_or_space raw);
          (scheme, rest) = split_scheme url;
          (netloc, rest) =
            (if take 2 rest = ''//''
             then (takeWhile (\<lambda>c. c \<notin> set ''/?#'') (drop 2 rest),
                   dropWhile (\<lambda>c. c \<notin> set ''/?#'') (drop 2 rest))
             else ([], rest))
      in if \<not> check_brackets netloc then None
         else (case partition (CHR ''#'') rest of (front_part, _, fragment) \<Rightarrow>
               case partition (CHR ''?'') front_part of (path, _, query) \<Rightarrow>
                 Some \<lparr>url_scheme = scheme, url_netloc = netloc, url_path = path,
                       url_query = query, url_fragment = fragment\<rparr>))"

definition url_hostinfo :: "split_url \<Rightarrow> string \<times> string option" where
  "url_hostinfo u =
     (case rpartition (CHR ''@'') (url_netloc u) of (_, _, hostinfo) \<Rightarrow>
      case partition (CHR ''['') hostinfo of (_, have_open, bracketed) \<Rightarrow>
        (let (host, port) =
           (if have_open
            then (case partition (CHR '']'') bracketed of (h, _, after) \<Rightarrow>
                    (h, snd (snd (partition (CHR '':'') after))))
            else (case partition (CHR '':'') hostinfo of (h, _, p) \<Rightarrow> (h, p)))
         in (host, if port = [] then None else Some port)))"

definition url_hostname :: "split_url \<Rightarrow> string option" where
  "url_hostname u =
     (case fst (url_hostinfo u) of
        [] \<Rightarrow> None
      | host \<Rightarrow>
          (case partition (CHR ''%'') host of (h, percent, zone) \<Rightarrow>
             Some (str_lower h @ (if percent then CHR ''%'' # zone else []))))"

text \<open>The \<open>port\<close> attribute: \<open>None\<close> raises, \<open>Some None\<close> is no port.\<close>

definition url_port :: "split_url \<Rightarrow> nat option option" where
  "url_port u =
     (case snd (url_hostinfo u) of
        None \<Rightarrow> Some None
      | Some p \<Rightarrow>
          if list_all is_digit p
          then (case read_nat p of
                  Some n \<Rightarrow> if n \<le> 65535 then Some (Some n) else None
                | None \<Rightarrow> None)
          else None)"

definition url_username :: "split_url \<Rightarrow> string option" where
  "url_username u =
     (case rpartition (CHR ''@'') (url_netloc u) of (userinfo, have_info, _) \<Rightarrow>
        if have_info then Some (fst (partition (CHR '':'') userinfo)) else None)"

definition url_password :: "split_url \<Rightarrow> string option" where
  "url_password u =
     (case rpartition (CHR ''@'') (url_netloc u) of (userinfo, have_info, _) \<Rightarrow>
        if have_info
        then (case partition (CHR '':'') userinfo of (_, have_password, password) \<Rightarrow>
                if have_password then Some password else None)
        else None)"

end
