(* ===== verification/Email_Digest.thy ===== *)
theory Email_Digest
  imports Email_Settings Py_Url
begin

text \<open>
  The job-change digest (\<^verbatim>\<open>backend/email_service.py\<close>): the open jobs as the digest sees
  them, the comparison with the stored snapshot, the rendering of the message, the SMTP session
  and the bookkeeping of \<open>send_job_digest\<close>.

  The clock, the fresh digest id and the outcome of the SMTP session are arguments. A float
  column is the rational it denotes. The database is assumed to work.
\<close>

section \<open>Jobs as the digest shows them\<close>

record job_row =
  jr_id :: string
  jr_company :: string
  jr_title :: string
  jr_pay_min :: "rat option"
  jr_pay_max :: "rat option"
  jr_pay_text :: string
  jr_pay_period :: string
  jr_pay_currency :: string
  jr_source_url :: string
  jr_status :: string

record digest_job =
  dj_key :: string
  dj_job_id :: string
  dj_company :: string
  dj_title :: string
  dj_pay :: string
  dj_url :: string

definition job_identity :: "string \<Rightarrow> string" where
  "job_identity job_id = ''id:'' @ job_id"

fun group_digits :: "string \<Rightarrow> string" where
  "group_digits (a # b # c # d # rest) = a # b # c # CHR '','' # group_digits (d # rest)"
| "group_digits s = s"

text \<open>\<open>f"{x:,.0f}"\<close> for an integral float and \<open>f"{x:,.2f}"\<close> for any other.\<close>

definition format_money :: "rat \<Rightarrow> string" where
  "format_money x =
     (let sign = (if x < 0 then ''-'' else []);
          commas = (\<lambda>n. rev (group_digits (rev (show_nat n))))
      in if x = of_int \<lfloor>x\<rfloor> then sign @ commas (nat \<bar>\<lfloor>x\<rfloor>\<bar>)
         else (let cents = nat (py_round (\<bar>x\<bar> * 100))
               in sign @ commas (cents div 100) @ ''.''
                  @ [digit_char (cents div 10 mod 10), digit_char (cents mod 10)]))"

text \<open>\<open>str.upper\<close>; the sharp s becomes two letters, and the micro sign and y with
  diaeresis, whose capitals leave the range, stay.\<close>

definition upper_char :: "char \<Rightarrow> string" where
  "upper_char c = (let n = code c in
     if n = 223 then ''SS''
     else if 97 \<le> n \<and> n \<le> 122 \<or> 224 \<le> n \<and> n \<noteq> 247 \<and> n \<noteq> 255 then [char_of (n - 32)]
     else [c])"

definition str_upper :: "string \<Rightarrow> string" where
  "str_upper s = concat (map upper_char s)"

definition pay_suffix :: "string \<Rightarrow> string" where
  "pay_suffix period =
     (if period = ''year'' \<or> period = ''annual'' then '' per year''
      else if period = ''hour'' \<or> period = ''hourly'' then '' per hour''
      else if period = ''month'' \<or> period = ''monthly'' then '' per month''
      else [])"

definition pay_display :: "job_row \<Rightarrow> string" where
  "pay_display r =
     (let posted = strip (jr_pay_text r) in
      if posted \<noteq> [] \<and> str_casefold posted \<notin> {''not listed'', ''unknown'', ''n/a''} then posted
      else (let currency = str_upper (if jr_pay_currency r = [] then ''USD'' else jr_pay_currency r);
                prefix = (if currency = ''USD'' then ''$'' else currency @ '' '');
                suffix = pay_suffix (str_casefold (strip (jr_pay_period r)))
            in case (jr_pay_min r, jr_pay_max r) of
                 (None, None) \<Rightarrow> ''Pay not posted''
               | (Some lo, Some hi) \<Rightarrow>
                   prefix @ format_money lo @ '' - '' @ prefix @ format_money hi @ suffix
               | (Some lo, None) \<Rightarrow> ''From '' @ prefix @ format_money lo @ suffix
               | (None, Some hi) \<Rightarrow> ''Up to '' @ prefix @ format_money hi @ suffix))"

definition digest_job :: "job_row \<Rightarrow> digest_job" where
  "digest_job r =
     \<lparr>dj_key = job_identity (jr_id r), dj_job_id = jr_id r,
      dj_company = (if jr_company r = [] then ''Company not listed'' else jr_company r),
      dj_title = (if jr_title r = [] then ''Title not listed'' else jr_title r),
      dj_pay = pay_display r, dj_url = strip (jr_source_url r)\<rparr>"

text \<open>The open jobs in the order of their ids, keyed by identity.\<close>

definition current_active_jobs :: "job_row list \<Rightarrow> (string \<times> digest_job) list" where
  "current_active_jobs rows =
     map (\<lambda>r. (job_identity (jr_id r), digest_job r))
       (sort_key jr_id (filter (\<lambda>r. str_lower (jr_status r) = ''open'') rows))"

section \<open>Rendering\<close>

definition newline :: string where
  "newline = [CHR 0x0A]"

definition safe_job_url :: "string \<Rightarrow> string" where
  "safe_job_url value =
     (let candidate = strip value in
      case urlsplit candidate of
        None \<Rightarrow> []
      | Some u \<Rightarrow>
          if (url_scheme u = ''http'' \<or> url_scheme u = ''https'') \<and> url_hostname u \<noteq> None
          then candidate else [])"

definition text_job_entry :: "string \<Rightarrow> digest_job \<Rightarrow> string list" where
  "text_job_entry link_label job =
     (let url = safe_job_url (dj_url job) in
      [dj_company job, dj_title job, dj_pay job,
       if url \<noteq> [] then link_label @ '': '' @ url else ''Posting URL unavailable'', []])"

definition digest_text :: "digest_job list \<Rightarrow> digest_job list \<Rightarrow> string \<Rightarrow> string" where
  "digest_text added removed date_label =
     join newline
       ([''OpportunityRadar Job Update'', date_label, [], ''NEW JOBS'',
         show_nat (length added) @ '' jobs added'', []]
        @ (if added \<noteq> [] then concat (map (text_job_entry ''View Job'') added)
           else [''No jobs were added.'', []])
        @ [''REMOVED JOBS'', show_nat (length removed) @ '' jobs removed'', []]
        @ (if removed \<noteq> [] then concat (map (text_job_entry ''Original Posting'') removed)
           else [''No jobs were removed.'', []])
        @ [''SUMMARY'', show_nat (length added) @ '' Added'', show_nat (length removed) @ '' Removed''])"

definition escape_char :: "char \<Rightarrow> string" where
  "escape_char c =
     (if c = CHR ''&'' then ''&amp;'' else if c = CHR ''<'' then ''&lt;''
      else if c = CHR ''>'' then ''&gt;'' else if c = CHR 0x22 then ''&quot;''
      else if c = CHR 0x27 then ''&#x27;'' else [c])"

definition html_escape :: "string \<Rightarrow> string" where
  "html_escape s = concat (map escape_char s)"

definition html_job_card :: "string \<Rightarrow> digest_job \<Rightarrow> string" where
  "html_job_card link_label job =
     (let url = safe_job_url (dj_url job);
          link = (if url \<noteq> []
            then ''<a href=\"'' @ html_escape url @ ''\" style=\"display:inline-block;margin-top:10px;''
                 @ ''color:#245b93;font-weight:700\">'' @ html_escape link_label @ ''</a>''
            else ''<div style=\"margin-top:10px;color:#738398\">Posting URL unavailable</div>'')
      in ''<div style=\"padding:16px 0;border-bottom:1px solid #d5deea\">''
         @ ''<div style=\"font-size:16px;font-weight:700;color:#27384d\">''
         @ html_escape (dj_company job) @ ''</div>''
         @ ''<div style=\"margin-top:4px;font-size:18px;color:#163b67\">''
         @ html_escape (dj_title job) @ ''</div>''
         @ ''<div style=\"margin-top:7px;color:#52657a\">'' @ html_escape (dj_pay job) @ ''</div>''
         @ link @ ''</div>'')"

definition html_section ::
  "string \<Rightarrow> nat \<Rightarrow> string \<Rightarrow> digest_job list \<Rightarrow> string \<Rightarrow> string" where
  "html_section heading count verb jobs link_label =
     (let cards = concat (map (html_job_card link_label) jobs);
          body = (if cards = []
            then ''<p style=\"color:#52657a\">No jobs were '' @ html_escape verb @ ''.</p>'' else cards)
      in ''<section style=\"margin-bottom:28px\"><div style=\"font-size:13px;font-weight:700;''
         @ ''letter-spacing:.08em;color:#52657a\">'' @ html_escape heading @ ''</div>''
         @ ''<h2 style=\"margin:7px 0 8px;font-size:21px;color:#163b67\">'' @ show_nat count
         @ '' jobs '' @ html_escape verb @ ''</h2>'' @ body @ ''</section>'')"

definition digest_html :: "digest_job list \<Rightarrow> digest_job list \<Rightarrow> string \<Rightarrow> string" where
  "digest_html added removed date_label =
     join newline
       [''<!doctype html>'',
        ''<html><body style=\"margin:0;background:#eef3f8;font-family:Arial,sans-serif;color:#1e2f43\">'',
        ''<div style=\"max-width:680px;margin:0 auto;background:#ffffff\">'',
        ''<header style=\"background:#163b67;padding:24px 28px;color:#ffffff\">'',
        ''<div style=\"font-size:22px;font-weight:700\">OpportunityRadar Job Update</div>'',
        ''<div style=\"margin-top:5px;color:#d9e7f5\">'' @ html_escape date_label @ ''</div>'',
        ''</header>'',
        ''<main style=\"padding:24px 28px\">'',
        html_section ''NEW JOBS'' (length added) ''added'' added ''View Job'',
        html_section ''REMOVED JOBS'' (length removed) ''removed'' removed ''Original Posting'',
        ''<section style=\"margin-top:26px;padding:18px;background:#eef3f8;border-radius:6px\">'',
        ''<div style=\"font-size:13px;font-weight:700;letter-spacing:.08em;color:#52657a\">SUMMARY</div>'',
        ''<div style=\"margin-top:10px;font-size:18px\"><strong>'' @ show_nat (length added)
          @ ''</strong> Added &nbsp;&nbsp; <strong>'' @ show_nat (length removed)
          @ ''</strong> Removed</div>'',
        ''</section>'',
        ''</main></div></body></html>'']"


section \<open>The SMTP session\<close>

datatype smtp_command =
    Connect_TLS | Connect_Plain | Ehlo | Start_TLS | Login string string | Send_Message "string list"

definition smtp_script :: "settings_view \<Rightarrow> string \<Rightarrow> string list \<Rightarrow> smtp_command list" where
  "smtp_script v password recipients =
     (if sv_security v = ''ssl_tls'' then [Connect_TLS]
      else [Connect_Plain, Ehlo] @ (if sv_security v = ''starttls'' then [Start_TLS, Ehlo] else []))
     @ [Login (sv_smtp_username v) password, Send_Message recipients]"

text \<open>What a command of the session can end in. \<open>Smtp_Raised\<close> is an exception that
  \<open>send_email\<close> does not catch.\<close>

datatype smtp_reply = Reply_Ok | Auth_Rejected | Server_Failed | Recipients_Refused | Smtp_Raised

datatype delivery = Delivered | Not_Delivered string | Delivery_Raised

definition auth_failed_text :: string where
  "auth_failed_text = ''Authentication failed. Check your SMTP username and password.''"

definition server_failed_text :: string where
  "server_failed_text =
     ''The email server could not be reached or did not accept the message. ''
     @ ''Check the SMTP settings and try again.''"

definition recipients_refused_text :: string where
  "recipients_refused_text =
     ''The email server rejected one or more configured recipient addresses.''"

text \<open>The session stops at the first command that does not succeed; the commands sent so far
  are returned with the result.\<close>

fun run_smtp :: "(smtp_command \<Rightarrow> smtp_reply) \<Rightarrow> smtp_command list \<Rightarrow> smtp_command list \<times> delivery" where
  "run_smtp server [] = ([], Delivered)"
| "run_smtp server (c # cs) =
     (case server c of
        Reply_Ok \<Rightarrow> (case run_smtp server cs of (sent, res) \<Rightarrow> (c # sent, res))
      | Auth_Rejected \<Rightarrow> ([c], Not_Delivered auth_failed_text)
      | Server_Failed \<Rightarrow> ([c], Not_Delivered server_failed_text)
      | Recipients_Refused \<Rightarrow> ([c], Not_Delivered recipients_refused_text)
      | Smtp_Raised \<Rightarrow> ([c], Delivery_Raised))"

text \<open>A line break in the sender's name: \<open>EmailMessage\<close> refuses the From header (in a name
  with non-ASCII characters, which is encoded first, only CR and LF are refused). The other
  header fields are validated addresses.\<close>

definition header_ok :: "string \<Rightarrow> bool" where
  "header_ok name =
     (if list_ex (\<lambda>c. 128 \<le> code c) name
      then \<not> list_ex (\<lambda>c. code c = 10 \<or> code c = 13) name
      else \<not> list_ex (\<lambda>c. code c \<in> set [10, 11, 12, 13, 28, 29, 30]) name)"

definition send_email ::
  "(smtp_command \<Rightarrow> smtp_reply) \<Rightarrow> settings_view \<Rightarrow> string \<Rightarrow> string list \<Rightarrow>
   smtp_command list \<times> delivery" where
  "send_email server v password recipients =
     (if \<not> header_ok (sv_from_name v) then ([], Delivery_Raised)
      else run_smtp server (smtp_script v password recipients))"

section \<open>The digest\<close>

datatype digest_status = Disabled | Digest_Failed | Baseline | No_Changes | Sending | Sent

record digest_row =
  dg_started :: string
  dg_completed :: string
  dg_recipients :: "string list"
  dg_added :: nat
  dg_removed :: nat
  dg_status :: digest_status
  dg_error :: string
  dg_trigger :: string
  dg_scheduled_for :: string

datatype change_kind = Added | Removed

record mail_db =
  md_settings :: "email_settings option"
  md_jobs :: "job_row list"
  md_snapshot :: "(string \<times> digest_job) list"
  md_digests :: "(string \<times> digest_row) list"
  md_changes :: "(string \<times> change_kind \<times> digest_job) list"

record digest_env =
  de_id :: string
  de_started :: string
  de_completed :: string
  de_server :: "smtp_command \<Rightarrow> smtp_reply"

record digest_result =
  rs_id :: string
  rs_status :: digest_status
  rs_added :: nat
  rs_removed :: nat
  rs_error :: string

definition digest_result :: "string \<Rightarrow> digest_status \<Rightarrow> nat \<Rightarrow> nat \<Rightarrow> string \<Rightarrow> digest_result" where
  "digest_result i st a r err =
     \<lparr>rs_id = i, rs_status = st, rs_added = a, rs_removed = r, rs_error = err\<rparr>"

lemma digest_result_sel [simp]:
  "rs_status (digest_result i st a r err) = st" "rs_added (digest_result i st a r err) = a"
  "rs_removed (digest_result i st a r err) = r"
  by (simp_all add: digest_result_def)

definition title_case :: "string \<Rightarrow> string" where
  "title_case s = (case s of [] \<Rightarrow> [] | c # cs \<Rightarrow> upper_char c @ str_lower cs)"

fun email_error_text :: "email_error \<Rightarrow> string" where
  "email_error_text BadSecurity = ''Choose SSL/TLS, STARTTLS, or None for SMTP security.''"
| "email_error_text BadPort = ''SMTP Port must be a number between 1 and 65535.''"
| "email_error_text BadFromEmail = ''Enter a valid From Email.''"
| "email_error_text BadReplyTo = ''Enter a valid Reply-To Email.''"
| "email_error_text BlankRecipient = ''Recipient email addresses cannot be blank.''"
| "email_error_text (BadRecipient a) = ''Enter a valid recipient email address: '' @ a"
| "email_error_text (DuplicateRecipient a) = ''Duplicate recipient email address: '' @ a"
| "email_error_text TooManyRecipients = ''No more than 50 digest recipients may be configured.''"
| "email_error_text BadDay = ''Choose valid days of the week for the email schedule.''"
| "email_error_text (DuplicateDay d) = ''Duplicate scheduled day: '' @ title_case d"
| "email_error_text BadSendTime = ''Send Time must use a valid 24-hour HH:MM value.''"
| "email_error_text BadZone = ''Choose a valid IANA timezone, such as America/Denver.''"
| "email_error_text NoRecipients =
     ''Add at least one email recipient before enabling the digest.''"
| "email_error_text NoDays = ''Choose at least one scheduled day before enabling the digest.''"
| "email_error_text NotSaved = ''Save the email provider settings first.''"
| "email_error_text Incomplete =
     ''Complete the SMTP host, port, username, password, and From Email settings.''"
| "email_error_text NoDigestRecipients = ''Add at least one recipient for the job digest.''"
| "email_error_text UnreadablePassword =
     ''The saved SMTP password cannot be read. Enter and save it again.''"

definition record_digest ::
  "digest_env \<Rightarrow> string \<Rightarrow> string list \<Rightarrow> nat \<Rightarrow> nat \<Rightarrow> digest_status \<Rightarrow> string \<Rightarrow> string \<Rightarrow> string \<Rightarrow>
   mail_db \<Rightarrow> mail_db" where
  "record_digest env completed recipients added removed status err trigger scheduled_for db =
     db\<lparr>md_digests := md_digests db @
       [(de_id env, \<lparr>dg_started = de_started env, dg_completed = completed,
          dg_recipients = recipients, dg_added = added, dg_removed = removed, dg_status = status,
          dg_error = err, dg_trigger = trigger, dg_scheduled_for = scheduled_for\<rparr>)]\<rparr>"

definition finish_digest :: "string \<Rightarrow> string \<Rightarrow> digest_status \<Rightarrow> string \<Rightarrow> mail_db \<Rightarrow> mail_db" where
  "finish_digest i completed status err db =
     db\<lparr>md_digests := map (\<lambda>(k, r). (k, if k = i
         then r\<lparr>dg_completed := completed, dg_status := status, dg_error := err\<rparr> else r))
       (md_digests db)\<rparr>"

definition store_baseline ::
  "digest_env \<Rightarrow> string list \<Rightarrow> (string \<times> digest_job) list \<Rightarrow> string \<Rightarrow> string \<Rightarrow> mail_db \<Rightarrow> mail_db" where
  "store_baseline env recipients jobs trigger scheduled_for db =
     (record_digest env (de_completed env) recipients 0 0 Baseline [] trigger scheduled_for db)
       \<lparr>md_snapshot := jobs,
        md_settings := map_option (\<lambda>r. r\<lparr>es_checkpoint := de_completed env,
          es_updated_at := de_completed env\<rparr>) (md_settings db)\<rparr>"

definition advance_checkpoint ::
  "digest_env \<Rightarrow> (string \<times> digest_job) list \<Rightarrow> digest_job list \<Rightarrow> digest_job list \<Rightarrow> mail_db \<Rightarrow> mail_db" where
  "advance_checkpoint env jobs added removed db =
     (finish_digest (de_id env) (de_completed env) Sent [] db)
       \<lparr>md_changes := md_changes db @ map (\<lambda>j. (de_id env, Added, j)) added
          @ map (\<lambda>j. (de_id env, Removed, j)) removed,
        md_snapshot := jobs,
        md_settings := map_option (\<lambda>r. r\<lparr>es_last_successful := de_completed env,
          es_updated_at := de_completed env\<rparr>) (md_settings db)\<rparr>"

text \<open>\<open>sorted(current.keys() - previous.keys())\<close>, mapped to the jobs.\<close>

definition missing_jobs ::
  "(string \<times> digest_job) list \<Rightarrow> (string \<times> digest_job) list \<Rightarrow> digest_job list" where
  "missing_jobs current previous =
     map (\<lambda>k. the (map_of current k))
       (sort (remdups (filter (\<lambda>k. k \<notin> fst ` set previous) (map fst current))))"

text \<open>The result is \<open>None\<close> when the SMTP session raises something \<open>send_email\<close> does not
  translate.\<close>

definition send_job_digest ::
  "cipher \<Rightarrow> digest_env \<Rightarrow> string \<Rightarrow> string \<Rightarrow> mail_db \<Rightarrow> mail_db \<times> digest_result option" where
  "send_job_digest c env trigger scheduled_for db =
     (let public = (case md_settings db of None \<Rightarrow> default_settings | Some r \<Rightarrow> settings_snapshot r) in
      if trigger = ''scheduled'' \<and> \<not> sv_enabled public
      then (db, Some (digest_result [] Disabled 0 0 []))
      else case delivery_settings c True (md_settings db) of
        Inl e \<Rightarrow>
          (record_digest env (de_completed env) (sv_recipients public) 0 0 Digest_Failed
             (email_error_text e) trigger scheduled_for db,
           Some (digest_result (de_id env) Digest_Failed 0 0 (email_error_text e)))
      | Inr (v, password) \<Rightarrow>
          (let current = current_active_jobs (md_jobs db) in
           if sv_checkpoint public = []
           then (store_baseline env (sv_recipients v) current trigger scheduled_for db,
                 Some (digest_result (de_id env) Baseline 0 0 []))
           else (let previous = md_snapshot db;
                     added = missing_jobs current previous;
                     removed = missing_jobs previous current
                 in if added = [] \<and> removed = []
                    then (record_digest env (de_completed env) (sv_recipients v) 0 0 No_Changes []
                            trigger scheduled_for db,
                          Some (digest_result (de_id env) No_Changes 0 0 []))
                    else (let sending = record_digest env [] (sv_recipients v) (length added)
                            (length removed) Sending [] trigger scheduled_for db
                          in case snd (send_email (de_server env) v password (sv_recipients v)) of
                            Not_Delivered err \<Rightarrow>
                              (finish_digest (de_id env) (de_completed env) Digest_Failed err sending,
                               Some (digest_result (de_id env) Digest_Failed (length added)
                                 (length removed) err))
                          | Delivery_Raised \<Rightarrow> (sending, None)
                          | Delivered \<Rightarrow>
                              (advance_checkpoint env current added removed sending,
                               Some (digest_result (de_id env) Sent (length added)
                                 (length removed) []))))))"


section \<open>Facts about digests\<close>

lemma set_missing_jobs:
  assumes "distinct (map fst cur)"
  shows "set (missing_jobs cur prev) = {j. \<exists>k. (k, j) \<in> set cur \<and> k \<notin> fst ` set prev}"
proof -
  have "set (missing_jobs cur prev) =
      (\<lambda>k. the (map_of cur k)) ` {k \<in> fst ` set cur. k \<notin> fst ` set prev}"
    by (auto simp: missing_jobs_def)
  also have "\<dots> = {j. \<exists>k. (k, j) \<in> set cur \<and> k \<notin> fst ` set prev}"
    using assms by (force simp: image_iff)
  finally show ?thesis .
qed

lemma missing_jobs_empty:
  "missing_jobs cur prev = [] \<longleftrightarrow> fst ` set cur \<subseteq> fst ` set prev"
proof -
  have "missing_jobs cur prev = [] \<longleftrightarrow>
      set (sort (remdups (filter (\<lambda>k. k \<notin> fst ` set prev) (map fst cur)))) = {}"
    unfolding missing_jobs_def by (metis set_empty Nil_is_map_conv)
  then show ?thesis by auto
qed

text \<open>A snapshot is keyed by each job's own identity, once.\<close>

definition snapshot_wf :: "(string \<times> digest_job) list \<Rightarrow> bool" where
  "snapshot_wf jobs \<longleftrightarrow> distinct (map fst jobs) \<and> (\<forall>(k, j) \<in> set jobs. dj_key j = k)"

lemma snapshot_wfD:
  "snapshot_wf jobs \<Longrightarrow> (k, j) \<in> set jobs \<Longrightarrow> dj_key j = k"
  by (auto simp: snapshot_wf_def)

lemma current_active_jobs_wf:
  assumes "distinct (map jr_id rows)"
  shows "snapshot_wf (current_active_jobs rows)"
proof -
  have "distinct (map jr_id (filter P rows))" for P
    using assms by (rule distinct_map_filter)
  then have "distinct (map jr_id (sort_key jr_id (filter (\<lambda>r. str_lower (jr_status r) = ''open'') rows)))"
    by (simp add: distinct_map)
  moreover have "inj job_identity" by (simp add: inj_def job_identity_def)
  ultimately have "distinct (map (job_identity \<circ> jr_id)
      (sort_key jr_id (filter (\<lambda>r. str_lower (jr_status r) = ''open'') rows)))"
    by (metis distinct_map inj_on_subset map_map subset_UNIV)
  then show ?thesis
    unfolding snapshot_wf_def current_active_jobs_def
    by (auto simp: comp_def digest_job_def)
qed

lemma keys_missing_jobs:
  assumes "snapshot_wf cur"
  shows "dj_key ` set (missing_jobs cur prev) = fst ` set cur - fst ` set prev"
proof -
  have "set (missing_jobs cur prev) = {j. \<exists>k. (k, j) \<in> set cur \<and> k \<notin> fst ` set prev}"
    using assms by (intro set_missing_jobs) (simp add: snapshot_wf_def)
  then show ?thesis using snapshot_wfD [OF assms] by force
qed


text \<open>What one digest does to the checkpoint.\<close>

definition same_checkpoint :: "mail_db \<Rightarrow> mail_db \<Rightarrow> bool" where
  "same_checkpoint db db' \<longleftrightarrow> md_settings db' = md_settings db \<and> md_snapshot db' = md_snapshot db
     \<and> md_changes db' = md_changes db"

definition advanced :: "mail_db \<Rightarrow> mail_db \<Rightarrow> bool" where
  "advanced db db' \<longleftrightarrow>
     md_snapshot db' = current_active_jobs (md_jobs db) \<and>
     (\<exists>i. md_changes db' = md_changes db
        @ map (\<lambda>j. (i, Added, j)) (missing_jobs (current_active_jobs (md_jobs db)) (md_snapshot db))
        @ map (\<lambda>j. (i, Removed, j)) (missing_jobs (md_snapshot db) (current_active_jobs (md_jobs db)))) \<and>
     map_option es_checkpoint (md_settings db') = map_option es_checkpoint (md_settings db)"

lemma same_checkpoint_simps [simp]:
  "same_checkpoint db db"
  "same_checkpoint db (record_digest env c rs a r st e t f db)"
  "same_checkpoint db (finish_digest i c st e (record_digest env c' rs a r st' e' t f db))"
  by (simp_all add: same_checkpoint_def record_digest_def finish_digest_def)

lemma advance_checkpoint_advanced:
  "advanced db (advance_checkpoint env (current_active_jobs (md_jobs db))
     (missing_jobs (current_active_jobs (md_jobs db)) (md_snapshot db))
     (missing_jobs (md_snapshot db) (current_active_jobs (md_jobs db)))
     (record_digest env' c rs a r st e t f db))"
  by (auto simp: advanced_def advance_checkpoint_def finish_digest_def record_digest_def
      option.map_comp comp_def)

lemma send_job_digest_cases:
  assumes "send_job_digest c env trigger sched db = (db', res)"
  obtains (unchanged) "same_checkpoint db db'" "\<And>R. res = Some R \<Longrightarrow> rs_status R \<noteq> Sent \<and> rs_status R \<noteq> Baseline"
  | (baseline) R where "res = Some R" "rs_status R = Baseline"
      "md_snapshot db' = current_active_jobs (md_jobs db)" "md_changes db' = md_changes db"
      "\<And>r. md_settings db = Some r \<Longrightarrow> es_checkpoint r = []"
  | (sent) R where "res = Some R" "rs_status R = Sent" "advanced db db'"
      "rs_added R = length (missing_jobs (current_active_jobs (md_jobs db)) (md_snapshot db))"
      "rs_removed R = length (missing_jobs (md_snapshot db) (current_active_jobs (md_jobs db)))"
proof -
  let ?public = "case md_settings db of None \<Rightarrow> default_settings | Some r \<Rightarrow> settings_snapshot r"
  let ?cur = "current_active_jobs (md_jobs db)"
  let ?a = "missing_jobs ?cur (md_snapshot db)" and ?r = "missing_jobs (md_snapshot db) ?cur"
  show thesis
  proof (cases "trigger = ''scheduled'' \<and> \<not> sv_enabled ?public")
    case True
    then show thesis using assms unchanged by (auto simp: send_job_digest_def)
  next
    case False
    note en = this
    show thesis
    proof (cases "delivery_settings c True (md_settings db)")
      case (Inl e)
      then have "db' = record_digest env (de_completed env) (sv_recipients ?public) 0 0 Digest_Failed
             (email_error_text e) trigger sched db"
        and "res = Some (digest_result (de_id env) Digest_Failed 0 0 (email_error_text e))"
        using assms en unfolding send_job_digest_def by simp_all
      then show thesis using unchanged by simp
    next
      case (Inr vp)
      obtain v password where vp: "vp = (v, password)" by (cases vp)
      show thesis
      proof (cases "sv_checkpoint ?public = []")
        case True
        then have "db' = store_baseline env (sv_recipients v) ?cur trigger sched db"
          and "res = Some (digest_result (de_id env) Baseline 0 0 [])"
          using assms en Inr vp unfolding send_job_digest_def Let_def by simp_all
          moreover have "es_checkpoint r = []" if "md_settings db = Some r" for r
            using True that by (simp add: settings_snapshot_def)
          ultimately show thesis
            by (intro baseline [of "digest_result (de_id env) Baseline 0 0 []"])
              (simp_all add: store_baseline_def record_digest_def)
      next
        case False
        note cp = this
        show thesis
        proof (cases "?a = [] \<and> ?r = []")
          case True
          then have "db' = record_digest env (de_completed env) (sv_recipients v) 0 0 No_Changes []
              trigger sched db"
            and "res = Some (digest_result (de_id env) No_Changes 0 0 [])"
            using assms en Inr vp cp unfolding send_job_digest_def Let_def by simp_all
          then show thesis using unchanged by simp
        next
          case False
          let ?s = "record_digest env [] (sv_recipients v) (length ?a) (length ?r) Sending [] trigger sched db"
          have eq: "(db', res) =
             (case snd (send_email (de_server env) v password (sv_recipients v)) of
                Not_Delivered err \<Rightarrow>
                  (finish_digest (de_id env) (de_completed env) Digest_Failed err ?s,
                   Some (digest_result (de_id env) Digest_Failed (length ?a) (length ?r) err))
              | Delivery_Raised \<Rightarrow> (?s, None)
              | Delivered \<Rightarrow>
                  (advance_checkpoint env ?cur ?a ?r ?s,
                   Some (digest_result (de_id env) Sent (length ?a) (length ?r) [])))"
            using assms en Inr vp cp False unfolding send_job_digest_def Let_def by simp
          show thesis
          proof (cases "snd (send_email (de_server env) v password (sv_recipients v))")
            case Delivered
            with eq show thesis
              by (intro sent [of "digest_result (de_id env) Sent (length ?a) (length ?r) []"])
                (simp_all add: advance_checkpoint_advanced)
          next
            case (Not_Delivered err)
            with eq show thesis by (intro unchanged) simp_all
          next
            case Delivery_Raised
            with eq show thesis by (intro unchanged) simp_all
          qed
        qed
      qed
    qed
  qed
qed


text \<open>Replaying recorded changes on a set of job keys.\<close>

fun replay :: "(string \<times> change_kind \<times> digest_job) list \<Rightarrow> string set \<Rightarrow> string set" where
  "replay [] ks = ks"
| "replay ((i, Added, j) # cs) ks = replay cs (insert (dj_key j) ks)"
| "replay ((i, Removed, j) # cs) ks = replay cs (ks - {dj_key j})"

lemma replay_append [simp]: "replay (a @ b) ks = replay b (replay a ks)"
  by (induction a ks rule: replay.induct) simp_all

lemma replay_added [simp]: "replay (map (\<lambda>j. (i, Added, j)) js) ks = ks \<union> dj_key ` set js"
  by (induction js arbitrary: ks) auto

lemma replay_removed [simp]: "replay (map (\<lambda>j. (i, Removed, j)) js) ks = ks - dj_key ` set js"
  by (induction js arbitrary: ks) auto

lemma advanced_replay:
  assumes adv: "advanced db db'" and old: "snapshot_wf (md_snapshot db)"
    and ids: "distinct (map jr_id (md_jobs db))"
  shows "snapshot_wf (md_snapshot db')"
    and "\<exists>changes. md_changes db' = md_changes db @ changes
      \<and> replay changes (fst ` set (md_snapshot db)) = fst ` set (md_snapshot db')"
proof -
  let ?cur = "current_active_jobs (md_jobs db)"
  have cur: "snapshot_wf ?cur" by (rule current_active_jobs_wf [OF ids])
  with adv show "snapshot_wf (md_snapshot db')" by (simp add: advanced_def)
  obtain i where ch: "md_changes db' = md_changes db
      @ map (\<lambda>j. (i, Added, j)) (missing_jobs ?cur (md_snapshot db))
      @ map (\<lambda>j. (i, Removed, j)) (missing_jobs (md_snapshot db) ?cur)"
    using adv by (auto simp: advanced_def)
  have "replay (map (\<lambda>j. (i, Added, j)) (missing_jobs ?cur (md_snapshot db))
      @ map (\<lambda>j. (i, Removed, j)) (missing_jobs (md_snapshot db) ?cur)) (fst ` set (md_snapshot db))
    = fst ` set ?cur"
    unfolding replay_append replay_added replay_removed keys_missing_jobs [OF cur]
      keys_missing_jobs [OF old] by blast
  then show "\<exists>changes. md_changes db' = md_changes db @ changes
      \<and> replay changes (fst ` set (md_snapshot db)) = fst ` set (md_snapshot db')"
    using ch adv by (auto simp: advanced_def)
qed

text \<open>A history of digests, each after an arbitrary change of the jobs table.\<close>

fun digest_history ::
  "cipher \<Rightarrow> (job_row list \<times> digest_env \<times> string \<times> string) list \<Rightarrow> mail_db \<Rightarrow> mail_db" where
  "digest_history c [] db = db"
| "digest_history c ((rows, env, trigger, sched) # rest) db =
     digest_history c rest (fst (send_job_digest c env trigger sched (db\<lparr>md_jobs := rows\<rparr>)))"

lemma digest_history_replay:
  assumes "snapshot_wf (md_snapshot db)"
    and "\<And>r. md_settings db = Some r \<Longrightarrow> es_checkpoint r \<noteq> []" and "md_settings db \<noteq> None"
    and "\<And>rows env t f. (rows, env, t, f) \<in> set hist \<Longrightarrow> distinct (map jr_id rows)"
  shows "\<exists>changes. md_changes (digest_history c hist db) = md_changes db @ changes
      \<and> replay changes (fst ` set (md_snapshot db)) = fst ` set (md_snapshot (digest_history c hist db))"
  using assms
proof (induction hist arbitrary: db)
  case (Cons h hist)
  obtain rows env t f where h: "h = (rows, env, t, f)" by (cases h)
  let ?db = "db\<lparr>md_jobs := rows\<rparr>"
  obtain db1 res where s: "send_job_digest c env t f ?db = (db1, res)" by (metis surj_pair)
  have ids: "distinct (map jr_id (md_jobs ?db))" using Cons.prems(4) [of rows env t f] h by simp
  have wf: "snapshot_wf (md_snapshot ?db)" using Cons.prems(1) by simp
  from s have "snapshot_wf (md_snapshot db1)
      \<and> (\<exists>ch. md_changes db1 = md_changes db @ ch
           \<and> replay ch (fst ` set (md_snapshot db)) = fst ` set (md_snapshot db1))
      \<and> map_option es_checkpoint (md_settings db1) = map_option es_checkpoint (md_settings db)"
  proof (cases rule: send_job_digest_cases)
    case unchanged
    then have "md_changes db1 = md_changes db @ [] \<and> md_snapshot db1 = md_snapshot db
        \<and> md_settings db1 = md_settings db" by (simp add: same_checkpoint_def)
    then have "snapshot_wf (md_snapshot db1)" "md_changes db1 = md_changes db @ []"
      "replay [] (fst ` set (md_snapshot db)) = fst ` set (md_snapshot db1)"
      "map_option es_checkpoint (md_settings db1) = map_option es_checkpoint (md_settings db)"
      using Cons.prems(1) by simp_all
    then show ?thesis by blast
  next
    case (baseline R)
    then show ?thesis using Cons.prems(2,3) by fastforce
  next
    case (sent R)
    have "map_option es_checkpoint (md_settings db1) = map_option es_checkpoint (md_settings ?db)"
      using sent(3) unfolding advanced_def by blast
    then show ?thesis using advanced_replay [OF sent(3) wf ids] by simp
  qed
  then obtain ch where wf1: "snapshot_wf (md_snapshot db1)"
    and ch: "md_changes db1 = md_changes db @ ch"
      "replay ch (fst ` set (md_snapshot db)) = fst ` set (md_snapshot db1)"
    and cp: "map_option es_checkpoint (md_settings db1) = map_option es_checkpoint (md_settings db)"
    by blast
  have est: "es_checkpoint r \<noteq> []" if "md_settings db1 = Some r" for r
    using cp that Cons.prems(2) by (cases "md_settings db") auto
  have some: "md_settings db1 \<noteq> None" using cp Cons.prems(3) by (cases "md_settings db1") auto
  have ids': "distinct (map jr_id rows)" if "(rows, env, t, f) \<in> set hist" for rows env t f
    using Cons.prems(4) [of rows env t f] that by simp
  have "\<exists>ch2. md_changes (digest_history c hist db1) = md_changes db1 @ ch2
      \<and> replay ch2 (fst ` set (md_snapshot db1)) = fst ` set (md_snapshot (digest_history c hist db1))"
    by (rule Cons.IH [OF wf1 _ some]) (auto dest: est intro: ids')
  then obtain ch2 where
    "md_changes (digest_history c hist db1) = md_changes db1 @ ch2"
    "replay ch2 (fst ` set (md_snapshot db1)) = fst ` set (md_snapshot (digest_history c hist db1))"
    by blast
  then have "md_changes (digest_history c (h # hist) db) = md_changes db @ (ch @ ch2)
      \<and> replay (ch @ ch2) (fst ` set (md_snapshot db))
          = fst ` set (md_snapshot (digest_history c (h # hist) db))"
    using ch s by (simp add: h)
  then show ?case by blast
qed simp


lemma run_smtp_prefix:
  "prefix (fst (run_smtp server cs)) cs \<and> (snd (run_smtp server cs) = Delivered \<longrightarrow> fst (run_smtp server cs) = cs)"
  by (induction cs) (auto split: smtp_reply.split prod.split)

lemma smtp_script_login:
  assumes "smtp_script v password rs = a @ Login u p # b"
    and "sv_security v = ''ssl_tls'' \<or> sv_security v = ''starttls''"
  shows "Connect_TLS \<in> set a \<or> Start_TLS \<in> set a"
proof (cases "sv_security v = ''ssl_tls''")
  case True
  with assms(1) have "[Connect_TLS, Login (sv_smtp_username v) password, Send_Message rs] = a @ Login u p # b"
    by (simp add: smtp_script_def)
  then show ?thesis by (cases a) auto
next
  case False
  with assms have "[Connect_Plain, Ehlo, Start_TLS, Ehlo, Login (sv_smtp_username v) password,
      Send_Message rs] = a @ Login u p # b"
    by (simp add: smtp_script_def)
  then show ?thesis by (auto simp: Cons_eq_append_conv)
qed

lemma count_list_append [simp]: "count_list (a @ b) x = count_list a x + count_list b x"
  by (induction a) auto

lemma count_escape_char:
  "count_list (escape_char x) (CHR ''<'') = 0" "count_list (escape_char x) (CHR ''>'') = 0"
  "count_list (escape_char x) (CHR 0x22) = 0" "count_list (escape_char x) (CHR 0x27) = 0"
  by (simp_all add: escape_char_def)

lemma count_html_escape [simp]:
  "count_list (html_escape s) (CHR ''<'') = 0" "count_list (html_escape s) (CHR ''>'') = 0"
  "count_list (html_escape s) (CHR 0x22) = 0" "count_list (html_escape s) (CHR 0x27) = 0"
  by (induction s) (simp_all add: html_escape_def count_escape_char)

definition demo_saved :: email_settings where
  "demo_saved = (saved_row (make_cipher [1]) (replicate 16 0) ''now'' None demo_payload
     (projr (check_payload id demo_tz ''UTC'' demo_payload)))\<lparr>es_checkpoint := ''t0''\<rparr>"

definition demo_mail :: mail_db where
  "demo_mail = \<lparr>md_settings = Some demo_saved, md_jobs = [], md_snapshot = [], md_digests = [],
     md_changes = []\<rparr>"

definition demo_digest_env :: "smtp_reply \<Rightarrow> digest_env" where
  "demo_digest_env reply = \<lparr>de_id = ''d1'', de_started = ''t1'', de_completed = ''t2'',
     de_server = (\<lambda>_. reply)\<rparr>"

section \<open>Properties\<close>

text \<open>The digest never loses or repeats a change: over any history of digests (sent, failed,
  skipped or interrupted by an exception), each after an arbitrary change of the jobs table, the
  changes recorded as reported, replayed in order on the first snapshot's jobs, give exactly the
  last snapshot's jobs.\<close>

theorem reported_changes_add_up:
  assumes "distinct (map fst (md_snapshot db))" and "\<forall>(k, j) \<in> set (md_snapshot db). dj_key j = k"
    and "md_settings db = Some r" and "es_checkpoint r \<noteq> []"
    and "\<And>rows env t f. (rows, env, t, f) \<in> set hist \<Longrightarrow> distinct (map jr_id rows)"
  shows "\<exists>changes. md_changes (digest_history c hist db) = md_changes db @ changes
    \<and> replay changes (fst ` set (md_snapshot db)) = fst ` set (md_snapshot (digest_history c hist db))"
  by (rule digest_history_replay) (use assms in \<open>auto simp: snapshot_wf_def\<close>)

theorem reported_changes_add_up_witness:
  "\<exists>changes. md_changes (digest_history (make_cipher [1])
      [([], demo_digest_env Reply_Ok, ''manual'', [])] demo_mail) = md_changes demo_mail @ changes"
proof -
  have "distinct (map jr_id rows)"
    if "(rows, env, t, f) \<in> set [([], demo_digest_env Reply_Ok, ''manual'', [])]" for rows env t f
    using that by simp
  then show ?thesis
    using reported_changes_add_up [of demo_mail demo_saved
        "[([], demo_digest_env Reply_Ok, ''manual'', [])]" "make_cipher [1]"]
    by (auto simp: demo_mail_def demo_saved_def)
qed



text \<open>The SMTP password never crosses an unencrypted connection unless the administrator chose
  no encryption: with SSL/TLS or STARTTLS every LOGIN that is sent comes after the TLS connection
  or the STARTTLS command; and a message counts as delivered only if the whole session succeeded.\<close>

theorem credentials_only_over_tls:
  assumes "send_email server v password rs = (cs, res)"
  shows "(sv_security v = ''ssl_tls'' \<or> sv_security v = ''starttls'' \<longrightarrow>
            (\<forall>a u p b. cs = a @ Login u p # b \<longrightarrow> Connect_TLS \<in> set a \<or> Start_TLS \<in> set a))
    \<and> (res = Delivered \<longrightarrow> cs = smtp_script v password rs)"
proof (cases "header_ok (sv_from_name v)")
  case True
  then have run: "run_smtp server (smtp_script v password rs) = (cs, res)"
    using assms by (simp add: send_email_def)
  obtain d where d: "smtp_script v password rs = cs @ d"
    using run_smtp_prefix [of server "smtp_script v password rs"] run by (auto simp: prefix_def)
  have "Connect_TLS \<in> set a \<or> Start_TLS \<in> set a"
    if "cs = a @ Login u p # b" and "sv_security v = ''ssl_tls'' \<or> sv_security v = ''starttls''" for a u p b
    using smtp_script_login [of v password rs a u p "b @ d"] that d by simp
  moreover have "res = Delivered \<longrightarrow> cs = smtp_script v password rs"
    using run_smtp_prefix [of server "smtp_script v password rs"] run by simp
  ultimately show ?thesis by blast
qed (use assms in \<open>auto simp: send_email_def\<close>)

text \<open>Text collected from job boards cannot inject markup into the digest: however the company,
  title, pay text and URL of a job are chosen, its card has the same ten tags, the same number of
  attribute quotes (with or without a link) and no apostrophe.\<close>

theorem job_card_is_injection_free:
  assumes "label = ''View Job'' \<or> label = ''Original Posting''"
  shows "count_list (html_job_card label job) (CHR ''<'') = 10
    \<and> count_list (html_job_card label job) (CHR ''>'') = 10
    \<and> count_list (html_job_card label job) (CHR 0x22) = (if safe_job_url (dj_url job) \<noteq> [] then 12 else 10)
    \<and> count_list (html_job_card label job) (CHR 0x27) = 0"
  unfolding html_job_card_def Let_def
  by (simp del: append.simps)


theorem credentials_only_over_tls_witness:
  "\<exists>a b. fst (send_email (\<lambda>_. Reply_Ok) (default_settings\<lparr>sv_security := ''starttls''\<rparr>) ''pw'' [''a@b.org''])
     = a @ Login [] ''pw'' # b \<and> (Connect_TLS \<in> set a \<or> Start_TLS \<in> set a)"
proof -
  let ?v = "default_settings\<lparr>sv_security := ''starttls''\<rparr>"
  obtain cs res where s: "send_email (\<lambda>_. Reply_Ok) ?v ''pw'' [''a@b.org''] = (cs, res)"
    by (metis surj_pair)
  moreover have "header_ok (sv_from_name ?v)" by code_simp
  ultimately have cs: "cs = [Connect_Plain, Ehlo, Start_TLS, Ehlo] @ Login [] ''pw'' # [Send_Message [''a@b.org'']]"
    by (simp add: send_email_def smtp_script_def default_settings_def)
  have mode: "sv_security ?v = ''ssl_tls'' \<or> sv_security ?v = ''starttls''" by simp
  note before = credentials_only_over_tls [OF s, THEN conjunct1, rule_format, OF mode cs]
  show ?thesis unfolding s fst_conv using cs before by (intro exI conjI)
qed

theorem job_card_is_injection_free_witness:
  "count_list (html_job_card ''View Job'' \<lparr>dj_key = [], dj_job_id = [], dj_company = ''<script>'',
     dj_title = ''</div>'', dj_pay = [], dj_url = ''javascript:alert(1)''\<rparr>) (CHR ''<'') = 10"
  by (rule job_card_is_injection_free [THEN conjunct1]) simp

text \<open>A line break inside the sender's name is accepted by \<open>save_settings\<close>, but the From header
  refuses it after the digest row was written: the row keeps the status Sending and the caller
  sees an exception that is not one of the two the endpoint translates.\<close>

theorem line_break_in_sender_leaves_digest_sending:
  assumes "delivery_settings c True (md_settings db) = Inr (v, password)"
    and "md_settings db = Some r" and "es_enabled r" and "es_checkpoint r \<noteq> []"
    and "\<not> header_ok (sv_from_name v)"
    and "missing_jobs (current_active_jobs (md_jobs db)) (md_snapshot db) \<noteq> []"
  shows "snd (send_job_digest c env ''scheduled'' f db) = None
    \<and> (\<exists>row. md_digests (fst (send_job_digest c env ''scheduled'' f db)) = md_digests db @ [(de_id env, row)]
         \<and> dg_status row = Sending)"
proof -
  have "sv_enabled (settings_snapshot r)" "sv_checkpoint (settings_snapshot r) \<noteq> []"
    using assms(3,4) by (simp_all add: settings_snapshot_def)
  then show ?thesis
    using assms(1,2,5,6)
    by (simp add: send_job_digest_def Let_def send_email_def record_digest_def)
qed

end
