(* ===== verification/Email_Scheduler.thy ===== *)
theory Email_Scheduler
  imports Email_Digest
begin

text \<open>
  The poll that sends the scheduled digest (\<^verbatim>\<open>backend/email_scheduler.py\<close>): it reads the
  settings, decides whether an occurrence is due, takes the shared gate, reads and decides again,
  claims the date and sends under the gate. What other threads do between the first reading and
  the acquisition is a function on the database; under the gate nobody else writes.
\<close>

definition stored_view :: "mail_db \<Rightarrow> settings_view" where
  "stored_view db =
     (case md_settings db of None \<Rightarrow> default_settings | Some r \<Rightarrow> settings_snapshot r)"

text \<open>\<open>due_occurrence\<close>: the local date and the label of the occurrence.\<close>

definition due_occurrence :: "tz_local \<Rightarrow> settings_view \<Rightarrow> (string \<times> string) option" where
  "due_occurrence tz v =
     (if \<not> sv_enabled v then None
      else case tz (sv_timezone v) of
        None \<Rightarrow> None
      | Some (weekday, local_date, hhmm) \<Rightarrow>
          if weekdays ! weekday \<notin> set (sv_days v) then None
          else if hhmm < sv_time v then None
          else if sv_last_date v = local_date then None
          else Some (local_date,
                 local_date @ ''T'' @ sv_time v @ '':00['' @ sv_timezone v @ '']''))"

datatype poll_result =
    Idle                          \<comment> \<open>\<open>None\<close>\<close>
  | Waiting string                \<comment> \<open>the gate is busy: scheduled for\<close>
  | Attempted "digest_result option"

record mail_system =
  ms_db :: mail_db
  ms_gate :: gate

record mail_poll =
  mp_tz :: tz_local
  mp_between :: "mail_db \<Rightarrow> mail_db"
  mp_call :: call_env
  mp_claim_now :: string
  mp_digest :: digest_env

definition poll_digest :: "cipher \<Rightarrow> mail_poll \<Rightarrow> mail_system \<Rightarrow> mail_system \<times> poll_result" where
  "poll_digest c p s =
     (case due_occurrence (mp_tz p) (stored_view (ms_db s)) of
        None \<Rightarrow> (s, Idle)
      | Some (_, label) \<Rightarrow>
          (let db = mp_between p (ms_db s) in
           case gate_acquire (mp_call p) ''scheduled-email-digest'' None (ms_gate s) of
             Inl _ \<Rightarrow> (s\<lparr>ms_db := db\<rparr>, Waiting label)
           | Inr (held, lease) \<Rightarrow>
               (let released = lease_give_back lease held;
                    view = stored_view db
                in case due_occurrence (mp_tz p) view of
                     None \<Rightarrow> (\<lparr>ms_db = db, ms_gate = released\<rparr>, Idle)
                   | Some (local_date, scheduled_for) \<Rightarrow>
                       (case claim_scheduled_occurrence (mp_claim_now p) view local_date
                               (md_settings db) of
                          (_, False) \<Rightarrow> (\<lparr>ms_db = db, ms_gate = released\<rparr>, Idle)
                        | (settings, True) \<Rightarrow>
                            (case send_job_digest c (mp_digest p) ''scheduled'' scheduled_for
                                    (db\<lparr>md_settings := settings\<rparr>) of
                               (db', res) \<Rightarrow>
                                 (\<lparr>ms_db = db', ms_gate = released\<rparr>, Attempted res))))))"

section \<open>Facts\<close>

lemma gate_acquire_busy: "gate_active g \<noteq> None \<Longrightarrow> \<exists>e. gate_acquire env ty oid g = Inl e"
  using gate_acquireD(2) [of env ty oid g] by (cases "gate_acquire env ty oid g") auto

lemma send_keeps_date:
  assumes "send_job_digest c env trigger sched db = (db', res)"
  shows "map_option (\<lambda>r. (es_last_date r, es_timezone r, es_enabled r)) (md_settings db') =
         map_option (\<lambda>r. (es_last_date r, es_timezone r, es_enabled r)) (md_settings db)"
  using assms
  by (auto simp: send_job_digest_def Let_def record_digest_def finish_digest_def
      store_baseline_def advance_checkpoint_def option.map_comp comp_def
      split: if_splits sum.splits prod.splits delivery.splits)

lemma due_occurrence_Some:
  assumes "due_occurrence tz v = Some (date, label)"
  obtains weekday hhmm where "sv_enabled v" "tz (sv_timezone v) = Some (weekday, date, hhmm)"
    "weekdays ! weekday \<in> set (sv_days v)" "sv_time v \<le> hhmm" "sv_last_date v \<noteq> date"
  using assms by (auto simp: due_occurrence_def split: if_splits option.splits)

lemma poll_digest_cases:
  obtains (quiet) "fst (poll_digest c p s) = s" "snd (poll_digest c p s) = Idle"
  | (busy) label where "snd (poll_digest c p s) = Waiting label"
      "fst (poll_digest c p s) = s\<lparr>ms_db := mp_between p (ms_db s)\<rparr>"
      "due_occurrence (mp_tz p) (stored_view (ms_db s)) \<noteq> None"
      "\<exists>e. gate_acquire (mp_call p) ''scheduled-email-digest'' None (ms_gate s) = Inl e"
  | (edited) g where "snd (poll_digest c p s) = Idle"
      "fst (poll_digest c p s) = \<lparr>ms_db = mp_between p (ms_db s), ms_gate = g\<rparr>"
      "gate_active (ms_gate s) = None" "gate_active g = None"
  | (attempted) g r date label db' res where "snd (poll_digest c p s) = Attempted res"
      "fst (poll_digest c p s) = \<lparr>ms_db = db', ms_gate = g\<rparr>"
      "gate_active (ms_gate s) = None" "gate_active g = None"
      "md_settings (mp_between p (ms_db s)) = Some r"
      "due_occurrence (mp_tz p) (settings_snapshot r) = Some (date, label)"
      "send_job_digest c (mp_digest p) ''scheduled'' label
         ((mp_between p (ms_db s))\<lparr>md_settings := Some (r\<lparr>es_last_date := date,
            es_updated_at := mp_claim_now p\<rparr>)\<rparr>) = (db', res)"
proof (cases "due_occurrence (mp_tz p) (stored_view (ms_db s))")
  case None
  then show thesis using quiet by (simp add: poll_digest_def)
next
  case (Some dl)
  obtain d0 label0 where dl: "dl = (d0, label0)" by (cases dl)
  let ?db = "mp_between p (ms_db s)"
  show thesis
  proof (cases "gate_acquire (mp_call p) ''scheduled-email-digest'' None (ms_gate s)")
    case (Inl e)
    then have "poll_digest c p s = (s\<lparr>ms_db := ?db\<rparr>, Waiting label0)"
      by (simp add: poll_digest_def Some dl Let_def)
    then show thesis using busy Inl Some by simp
  next
    case (Inr gl)
    obtain held l where gl: "gl = (held, l)" by (cases gl)
    note D = gate_acquireD [OF Inr [unfolded gl]]
    let ?g = "lease_give_back l held"
    have free: "gate_active ?g = None" by (rule lease_give_back_fresh [OF Inr [unfolded gl]])
    show thesis
    proof (cases "due_occurrence (mp_tz p) (stored_view ?db)")
      case None
      then have "poll_digest c p s = (\<lparr>ms_db = ?db, ms_gate = ?g\<rparr>, Idle)"
        by (simp add: poll_digest_def Some dl Let_def Inr gl)
      then show thesis using edited [of ?g] D(2) free by simp
    next
      case (Some dl2)
      note due2 = this
      obtain date label where dl2: "dl2 = (date, label)" by (cases dl2)
      obtain r where r: "md_settings ?db = Some r"
        using due2 dl2 by (cases "md_settings ?db")
          (auto simp: stored_view_def due_occurrence_def default_settings_def)
      have due: "due_occurrence (mp_tz p) (settings_snapshot r) = Some (date, label)"
        using due2 dl2 r by (simp add: stored_view_def)
      have en: "es_enabled r" "es_last_date r \<noteq> date"
        using due by (auto elim!: due_occurrence_Some simp: settings_snapshot_def)
      let ?r = "r\<lparr>es_last_date := date, es_updated_at := mp_claim_now p\<rparr>"
      have claim: "claim_scheduled_occurrence (mp_claim_now p) (stored_view ?db) date (md_settings ?db)
          = (Some ?r, True)"
        using r en by (simp add: claim_scheduled_occurrence_def stored_view_def settings_snapshot_def)
      obtain db' res where send: "send_job_digest c (mp_digest p) ''scheduled'' label
          (?db\<lparr>md_settings := Some ?r\<rparr>) = (db', res)" by (metis surj_pair)
      have "poll_digest c p s = (\<lparr>ms_db = db', ms_gate = ?g\<rparr>, Attempted res)"
        unfolding poll_digest_def Let_def
        using \<open>due_occurrence (mp_tz p) (stored_view (ms_db s)) = Some dl\<close> dl Inr gl due2 dl2 claim send
        by simp
      then show thesis using attempted [OF _ _ D(2) free r due send] by simp
    qed
  qed
qed

text \<open>Polls of one day: other threads may edit the settings in between, as long as an edit on
  the date keeps the date used.\<close>

fun digest_polls :: "cipher \<Rightarrow> mail_poll list \<Rightarrow> mail_system \<Rightarrow> mail_system \<times> poll_result list" where
  "digest_polls c [] s = (s, [])"
| "digest_polls c (p # ps) s =
     (case poll_digest c p s of (s', out) \<Rightarrow>
        (case digest_polls c ps s' of (s'', outs) \<Rightarrow> (s'', out # outs)))"

definition attempts :: "poll_result list \<Rightarrow> nat" where
  "attempts outs = length (filter (\<lambda>out. case out of Attempted _ \<Rightarrow> True | _ \<Rightarrow> False) outs)"

definition date_used :: "string \<Rightarrow> mail_db \<Rightarrow> bool" where
  "date_used date db \<longleftrightarrow> (\<forall>r. md_settings db = Some r \<longrightarrow> es_last_date r = date)"

lemma poll_digest_used:
  assumes "\<And>zone w d h. mp_tz p zone = Some (w, d, h) \<Longrightarrow> d = date"
    and "\<And>db. date_used date db \<Longrightarrow> date_used date (mp_between p db)"
    and "poll_digest c p s = (s', out)"
  shows "(date_used date (ms_db s) \<longrightarrow> date_used date (ms_db s') \<and> attempts [out] = 0)
    \<and> (attempts [out] \<noteq> 0 \<longrightarrow> date_used date (ms_db s'))"
proof (cases c p s rule: poll_digest_cases)
  case quiet then show ?thesis using assms(3) by (simp add: attempts_def)
next
  case busy then show ?thesis using assms by (simp add: attempts_def)
next
  case edited then show ?thesis using assms by (simp add: attempts_def)
next
  case (attempted g r d label db' res)
  have d: "d = date"
    using attempted(6) assms(1) by (auto elim!: due_occurrence_Some)
  have "es_last_date r \<noteq> date"
    using attempted(6) d by (auto elim!: due_occurrence_Some simp: settings_snapshot_def)
  then have "\<not> date_used date (ms_db s)"
    using assms(2) [of "ms_db s"] attempted(5) by (auto simp: date_used_def)
  moreover have "date_used date db'"
    using send_keeps_date [OF attempted(7)] d by (auto simp: date_used_def)
  ultimately show ?thesis using attempted(1,2) assms(3) by simp
qed

lemma attempts_Cons: "attempts (out # outs) = attempts [out] + attempts outs"
  by (simp add: attempts_def)

lemma attempts_single: "attempts [out] \<le> 1"
  by (simp add: attempts_def)

lemma digest_polls_used:
  assumes "\<And>p zone w d h. p \<in> set ps \<Longrightarrow> mp_tz p zone = Some (w, d, h) \<Longrightarrow> d = date"
    and "\<And>p db. p \<in> set ps \<Longrightarrow> date_used date db \<Longrightarrow> date_used date (mp_between p db)"
    and "digest_polls c ps s = (s', outs)"
  shows "(date_used date (ms_db s) \<longrightarrow> attempts outs = 0) \<and> attempts outs \<le> 1"
  using assms
proof (induction ps arbitrary: s s' outs)
  case Nil then show ?case by (simp add: attempts_def)
next
  case (Cons p ps)
  obtain s1 out where p: "poll_digest c p s = (s1, out)" by (metis surj_pair)
  obtain s2 outs2 where ps: "digest_polls c ps s1 = (s2, outs2)" by (metis surj_pair)
  have outs: "outs = out # outs2" using Cons.prems(3) p ps by simp
  have tz: "d = date" if "mp_tz p zone = Some (w, d, h)" for zone w d h
    by (rule Cons.prems(1) [of p zone w d h]) (use that in simp_all)
  have tzs: "d = date" if "q \<in> set ps" "mp_tz q zone = Some (w, d, h)" for q zone w d h
    by (rule Cons.prems(1) [of q zone w d h]) (use that in simp_all)
  have btw: "date_used date (mp_between p db)" if "date_used date db" for db
    by (rule Cons.prems(2)) (use that in simp_all)
  have btws: "date_used date (mp_between q db)" if "q \<in> set ps" "date_used date db" for q db
    by (rule Cons.prems(2)) (use that in simp_all)
  have step: "(date_used date (ms_db s) \<longrightarrow> date_used date (ms_db s1) \<and> attempts [out] = 0)
      \<and> (attempts [out] \<noteq> 0 \<longrightarrow> date_used date (ms_db s1))"
    by (rule poll_digest_used [OF tz btw p])
  have "(date_used date (ms_db s1) \<longrightarrow> attempts outs2 = 0) \<and> attempts outs2 \<le> 1"
    by (rule Cons.IH [OF tzs btws ps])
  then show ?case using step attempts_single [of out] unfolding outs attempts_Cons [of out outs2]
    by (cases "attempts [out] = 0") auto
qed

section \<open>Properties\<close>

text \<open>C19. The scheduled digest is attempted at most once per local date: over any polls that fall on
  the same date, with settings edited in between by edits that do not give a used date back, at
  most one digest is attempted, and none when the date is already used.\<close>

theorem digest_attempted_once_per_date:
  assumes "\<And>p zone w d h. p \<in> set ps \<Longrightarrow> mp_tz p zone = Some (w, d, h) \<Longrightarrow> d = date"
    and "\<And>p db. p \<in> set ps \<Longrightarrow> date_used date db \<Longrightarrow> date_used date (mp_between p db)"
  shows "attempts (snd (digest_polls c ps s)) \<le> 1
    \<and> (date_used date (ms_db s) \<longrightarrow> attempts (snd (digest_polls c ps s)) = 0)"
  using digest_polls_used [of ps date c s "fst (digest_polls c ps s)" "snd (digest_polls c ps s)"] assms
  by simp

definition demo_poll :: mail_poll where
  "demo_poll = \<lparr>mp_tz = demo_tz, mp_between = id, mp_call = demo_env, mp_claim_now = ''t'',
     mp_digest = demo_digest_env Reply_Ok\<rparr>"

definition demo_system :: mail_system where
  "demo_system = \<lparr>ms_db = demo_mail, ms_gate = new_gate\<rparr>"

theorem digest_attempted_once_per_date_witness:
  "attempts (snd (digest_polls (make_cipher [1]) [demo_poll, demo_poll] demo_system)) \<le> 1"
  by (rule digest_attempted_once_per_date [where date = "''2024-01-01''", THEN conjunct1])
    (auto simp: demo_poll_def demo_tz_def split: if_splits)

text \<open>The poll respects the shared gate: when it was free it is free again afterwards, whatever
  the digest did; when another operation holds it nothing is sent, claimed or recorded, and the
  due occurrence stays due for the next poll. A digest is attempted only for an enabled
  schedule, on a configured day, not before the configured time.\<close>

theorem digest_poll_respects_gate:
  assumes "poll_digest c p s = (s', out)"
  shows "(gate_active (ms_gate s) = None \<longrightarrow> gate_active (ms_gate s') = None)
    \<and> (gate_active (ms_gate s) \<noteq> None \<longrightarrow> ms_gate s' = ms_gate s
         \<and> (s' = s \<or> s' = s\<lparr>ms_db := mp_between p (ms_db s)\<rparr>)
         \<and> (due_occurrence (mp_tz p) (stored_view (ms_db s)) \<noteq> None \<longrightarrow> (\<exists>label. out = Waiting label)))
    \<and> (\<forall>res. out = Attempted res \<longrightarrow>
         (\<exists>r w d h. md_settings (mp_between p (ms_db s)) = Some r \<and> es_enabled r
            \<and> mp_tz p (es_timezone r) = Some (w, d, h) \<and> weekdays ! w \<in> set (es_days r)
            \<and> es_time r \<le> h \<and> es_last_date r \<noteq> d))"
proof (cases c p s rule: poll_digest_cases)
  case quiet
  then have "s' = s" "out = Idle" using assms by simp_all
  moreover have "due_occurrence (mp_tz p) (stored_view (ms_db s)) = None"
    if held: "gate_active (ms_gate s) \<noteq> None"
  proof (rule ccontr)
    assume "due_occurrence (mp_tz p) (stored_view (ms_db s)) \<noteq> None"
    then obtain d label where "due_occurrence (mp_tz p) (stored_view (ms_db s)) = Some (d, label)"
      by auto
    moreover obtain e where "gate_acquire (mp_call p) ''scheduled-email-digest'' None (ms_gate s) = Inl e"
      using gate_acquire_busy [OF held] by blast
    ultimately have "snd (poll_digest c p s) = Waiting label" by (simp add: poll_digest_def Let_def)
    then show False using quiet by simp
  qed
  ultimately show ?thesis by simp
next
  case (busy label)
  then have "s' = s\<lparr>ms_db := mp_between p (ms_db s)\<rparr>" "out = Waiting label" using assms by simp_all
  then show ?thesis by simp
next
  case (edited g)
  then have "s' = \<lparr>ms_db = mp_between p (ms_db s), ms_gate = g\<rparr>" "out = Idle" using assms by simp_all
  then show ?thesis using edited(3,4) by simp
next
  case (attempted g r d label db' res)
  then have s': "s' = \<lparr>ms_db = db', ms_gate = g\<rparr>" "out = Attempted res" using assms by simp_all
  have "\<exists>w h. es_enabled r \<and> mp_tz p (es_timezone r) = Some (w, d, h)
      \<and> weekdays ! w \<in> set (es_days r) \<and> es_time r \<le> h \<and> es_last_date r \<noteq> d"
    using attempted(6)
    by (elim due_occurrence_Some) (auto simp: settings_snapshot_def ordered_schedule_days_def)
  then show ?thesis using s' attempted(3,4,5) by auto
qed

theorem digest_poll_respects_gate_witness:
  "\<exists>s' out. poll_digest (make_cipher [1]) demo_poll demo_system = (s', out)
     \<and> gate_active (ms_gate s') = None"
proof -
  obtain s' out where p: "poll_digest (make_cipher [1]) demo_poll demo_system = (s', out)"
    by (metis surj_pair)
  moreover have "gate_active (ms_gate demo_system) = None" by (simp add: demo_system_def new_gate_def)
  ultimately show ?thesis using digest_poll_respects_gate [OF p] by blast
qed

text \<open>Editing the settings on a date that is used does not give it back.\<close>

lemma save_settings_keeps_used_date:
  assumes "save_settings addr_of tz c nonce now p db = Inr db'"
    and "db_settings db = Some r" and "es_last_date r = date"
    and "\<And>zone w d h. tz zone = Some (w, d, h) \<Longrightarrow> d = date"
  shows "\<exists>r'. db_settings db' = Some r' \<and> es_last_date r' = date"
proof -
  obtain app ck where ck: "check_payload addr_of tz app p = Inr ck"
    and db': "db_settings db' = Some (saved_row c nonce now (db_settings db) p ck)"
    using assms(1) by (auto simp: save_settings_def Let_def res_simps)
  obtain w d h where l: "ck_local ck = (w, d, h)" by (cases "ck_local ck")
  have "tz (ck_timezone ck) = Some (ck_local ck)"
    using check_payload_wf(1) [OF ck] by (simp add: checked_wf_def)
  then have "d = date" using assms(4) l by simp
  then show ?thesis using db' assms(2,3) l by (simp add: saved_row_def saved_last_date_def)
qed

end
