(* ===== verification/Py_Url_Join.thy ===== *)
theory Py_Url_Join
  imports Py_Url
begin

text \<open>
  \<open>urlparse\<close>, \<open>urlunparse\<close> and \<open>urljoin\<close> of Python's \<open>urllib.parse\<close>: how a redirect's
  \<open>Location\<close> is resolved against the URL it came from.
\<close>

definition uses_relative :: "string list" where
  "uses_relative = [[], ''ftp'', ''http'', ''gopher'', ''nntp'', ''imap'', ''wais'', ''file'', ''https'',
     ''shttp'', ''mms'', ''prospero'', ''rtsp'', ''rtsps'', ''rtspu'', ''sftp'', ''svn'', ''svn+ssh'',
     ''ws'', ''wss'']"

definition uses_netloc :: "string list" where
  "uses_netloc = [[], ''ftp'', ''http'', ''gopher'', ''nntp'', ''telnet'', ''imap'', ''wais'', ''file'',
     ''mms'', ''https'', ''shttp'', ''snews'', ''prospero'', ''rtsp'', ''rtsps'', ''rtspu'', ''rsync'',
     ''svn'', ''svn+ssh'', ''sftp'', ''nfs'', ''git'', ''git+ssh'', ''ws'', ''wss'']"

definition uses_params :: "string list" where
  "uses_params = [[], ''ftp'', ''hdl'', ''prospero'', ''http'', ''imap'', ''https'', ''shttp'', ''rtsp'',
     ''rtsps'', ''rtspu'', ''sip'', ''sips'', ''mms'', ''sftp'', ''tel'']"

text \<open>A URL in six parts; \<open>url_path\<close> of the split URL is the path without the parameters of
  its last segment, which are kept beside it.\<close>

definition split_params :: "string \<Rightarrow> string \<times> string" where
  "split_params path =
     (case rpartition (CHR ''/'') path of (dirs, slash, last_part) \<Rightarrow>
      case partition (CHR '';'') last_part of (name, semi, params) \<Rightarrow>
        if semi then ((if slash then dirs @ CHR ''/'' # name else name), params) else (path, []))"

definition urlparse :: "string \<Rightarrow> string \<Rightarrow> (split_url \<times> string) option" where
  "urlparse default_scheme url =
     map_option (\<lambda>u.
       let scheme = (if url_scheme u = [] then default_scheme else url_scheme u);
           (path, params) =
             (if scheme \<in> set uses_params then split_params (url_path u) else (url_path u, []))
       in (u\<lparr>url_scheme := scheme, url_path := path\<rparr>, params)) (urlsplit url)"

definition urlunsplit :: "split_url \<Rightarrow> string" where
  "urlunsplit u =
     (let path = url_path u;
          url =
            (if url_netloc u \<noteq> [] \<or> url_scheme u \<noteq> [] \<and> url_scheme u \<in> set uses_netloc
                \<or> take 2 path = ''//''
             then ''//'' @ url_netloc u
                  @ (if path \<noteq> [] \<and> hd path \<noteq> CHR ''/'' then CHR ''/'' # path else path)
             else path)
      in (if url_scheme u \<noteq> [] then url_scheme u @ '':'' else []) @ url
         @ (if url_query u \<noteq> [] then CHR ''?'' # url_query u else [])
         @ (if url_fragment u \<noteq> [] then CHR ''#'' # url_fragment u else []))"

definition urlunparse :: "split_url \<Rightarrow> string \<Rightarrow> string" where
  "urlunparse u params =
     urlunsplit (if params = [] then u else u\<lparr>url_path := url_path u @ CHR '';'' # params\<rparr>)"

definition del_last_file :: "string list \<Rightarrow> string list" where
  "del_last_file parts = (if last parts \<noteq> [] then butlast parts else parts)"

text \<open>\<open>segments[1:-1] = filter(None, segments[1:-1])\<close>.\<close>

definition drop_empty_middle :: "string list \<Rightarrow> string list" where
  "drop_empty_middle segments =
     (case segments of
        [] \<Rightarrow> []
      | [s] \<Rightarrow> [s]
      | s # rest \<Rightarrow> s # filter (\<lambda>x. x \<noteq> []) (butlast rest) @ [last rest])"

fun resolve_dots :: "string list \<Rightarrow> string list \<Rightarrow> string list" where
  "resolve_dots done [] = rev done"
| "resolve_dots done (s # ss) =
     (if s = ''..'' then resolve_dots (drop 1 done) ss
      else if s = ''.'' then resolve_dots done ss
      else resolve_dots (s # done) ss)"

definition urljoin :: "string \<Rightarrow> string \<Rightarrow> string option" where
  "urljoin base url =
     (if base = [] then Some url
      else if url = [] then Some base
      else case urlparse [] base of
        None \<Rightarrow> None
      | Some (b, bparams) \<Rightarrow>
          (case urlparse (url_scheme b) url of
             None \<Rightarrow> None
           | Some (u, params) \<Rightarrow>
               if url_scheme u \<noteq> url_scheme b \<or> url_scheme u \<notin> set uses_relative then Some url
               else if url_scheme u \<in> set uses_netloc \<and> url_netloc u \<noteq> []
               then Some (urlunparse u params)
               else (let u = (if url_scheme u \<in> set uses_netloc
                              then u\<lparr>url_netloc := url_netloc b\<rparr> else u)
                     in if url_path u = [] \<and> params = []
                        then Some (urlunparse
                          (u\<lparr>url_path := url_path b,
                             url_query := (if url_query u = [] then url_query b else url_query u)\<rparr>)
                          bparams)
                        else
                          (let parts = split_on (CHR ''/'') (url_path u);
                               segments =
                                 (if take 1 (url_path u) = ''/'' then parts
                                  else drop_empty_middle
                                    (del_last_file (split_on (CHR ''/'') (url_path b)) @ parts));
                               resolved = resolve_dots [] segments
                                 @ (if last segments \<in> set [''.'', ''..''] then [[]] else []);
                               path = join ''/'' resolved
                           in Some (urlunparse (u\<lparr>url_path := (if path = [] then ''/'' else path)\<rparr>)
                                params)))))"

end
