(* ===== verification/Py_Ip.thy ===== *)
theory Py_Ip
  imports Py_Url
begin

text \<open>
  Facts about \<open>ipaddress\<close>: the numbers that parsing yields are in range, and the text printed
  for an address is parsed back to the same address, compressed zeros and scope included.
\<close>

section \<open>Bounds of parsed addresses\<close>

lemma parse_octet_le: "parse_octet s = Some n \<Longrightarrow> n \<le> 255"
  by (auto simp: parse_octet_def split: if_splits option.splits)

lemma parse_ipv4_bound: "parse_ipv4 s = Some a \<Longrightarrow> a < 2 ^ 32"
proof -
  assume "parse_ipv4 s = Some a"
  then obtain p q r t ps where "map parse_octet ps = [Some p, Some q, Some r, Some t]"
    and a: "a = ((p * 256 + q) * 256 + r) * 256 + t"
    by (auto simp: parse_ipv4_def split: list.splits option.splits)
  then have "p \<le> 255 \<and> q \<le> 255 \<and> r \<le> 255 \<and> t \<le> 255"
    by (auto simp: map_eq_Cons_conv dest: parse_octet_le)
  then show "a < 2 ^ 32" using a by simp
qed

lemma hex_digit_less: "hex_digit c = Some d \<Longrightarrow> d < 16"
  by (auto simp: hex_digit_def Let_def split: if_splits)

lemma hex_from_bound: "hex_from acc s = Some v \<Longrightarrow> v < (acc + 1) * 16 ^ length s"
proof (induction s arbitrary: acc)
  case (Cons c cs)
  then obtain d where d: "hex_digit c = Some d" "hex_from (16 * acc + d) cs = Some v"
    by (auto split: option.splits)
  have "v < (16 * acc + d + 1) * 16 ^ length cs" using Cons.IH [OF d(2)] .
  also have "\<dots> \<le> (16 * (acc + 1)) * 16 ^ length cs"
    using hex_digit_less [OF d(1)] by (intro mult_right_mono) simp_all
  finally show ?case by (simp add: algebra_simps)
qed simp

lemma parse_hextet_less: "parse_hextet s = Some v \<Longrightarrow> v < 65536"
proof -
  assume p: "parse_hextet s = Some v"
  then have "length s \<le> 4" "hex_from 0 s = Some v" by (auto simp: parse_hextet_def split: if_splits)
  moreover have "(16::nat) ^ length s \<le> 16 ^ 4" using calculation(1) by (intro power_increasing) auto
  ultimately show "v < 65536" using hex_from_bound [of 0 s v] by simp
qed

lemma hextets_value_bound: "hextets_value acc ps = Some v \<Longrightarrow> v < (acc + 1) * 65536 ^ length ps"
proof (induction ps arbitrary: acc)
  case (Cons p ps)
  then obtain h where h: "parse_hextet p = Some h" "hextets_value (acc * 65536 + h) ps = Some v"
    by (auto split: option.splits)
  have "v < (acc * 65536 + h + 1) * 65536 ^ length ps" using Cons.IH [OF h(2)] .
  also have "\<dots> \<le> (65536 * (acc + 1)) * 65536 ^ length ps"
    using parse_hextet_less [OF h(1)] by (intro mult_right_mono) simp_all
  finally show ?case by (simp add: algebra_simps)
qed simp

lemma hole_bound:
  assumes h: "(h::nat) < 65536 ^ i" and v: "v < (h * 65536 ^ (8 - (i + l)) + 1) * 65536 ^ l"
    and "i + l < 8"
  shows "v < 2 ^ 128"
proof -
  have "h * 65536 ^ (8 - (i + l)) + 1 \<le> (h + 1) * 65536 ^ (8 - (i + l))"
    by (simp add: algebra_simps)
  also have "\<dots> \<le> 65536 ^ i * 65536 ^ (8 - (i + l))" using h by (intro mult_right_mono) auto
  finally have "(h * 65536 ^ (8 - (i + l)) + 1) * 65536 ^ l \<le>
      65536 ^ i * 65536 ^ (8 - (i + l)) * 65536 ^ l" by (rule mult_right_mono) simp
  also have "\<dots> = 65536 ^ 8" using assms(3) by (simp flip: power_add)
  finally show ?thesis using v by simp
qed

lemma parse_parts_cases:
  assumes "parse_parts parts = Some v"
  shows "length parts = 8 \<and> hextets_value 0 parts = Some v
    \<or> (\<exists>hi lo h. length hi + length lo < 8 \<and> hextets_value 0 hi = Some h
         \<and> hextets_value (h * 65536 ^ (8 - (length hi + length lo))) lo = Some v)"
proof (cases "filter (\<lambda>i. parts ! i = []) [1..<length parts - 1]")
  case Nil
  then show ?thesis using assms by (simp add: parse_parts_def Let_def split: if_splits)
next
  case (Cons skip rest)
  define hi where "hi = (if hd parts = [] then [] else take skip parts)"
  define lo where "lo = (if last parts = [] then [] else drop (skip + 1) parts)"
  show ?thesis
  proof (cases rest)
    case Nil
    have "parse_parts parts = (if 9 < length parts then None
        else if hd parts = [] \<and> skip \<noteq> 1 \<or> last parts = [] \<and> skip \<noteq> length parts - 2 then None
        else if 8 < length hi + length lo + 1 then None
        else case hextets_value 0 hi of None \<Rightarrow> None
          | Some h \<Rightarrow> hextets_value (h * 65536 ^ (8 - (length hi + length lo))) lo)"
      unfolding parse_parts_def Let_def hi_def lo_def Cons Nil list.case by (rule refl)
    with assms have eq: "\<not> 8 < length hi + length lo + 1" "(case hextets_value 0 hi of None \<Rightarrow> None
        | Some h \<Rightarrow> hextets_value (h * 65536 ^ (8 - (length hi + length lo))) lo) = Some v"
      by (simp_all split: if_split_asm del: One_nat_def)
    then obtain h where "hextets_value 0 hi = Some h"
      "hextets_value (h * 65536 ^ (8 - (length hi + length lo))) lo = Some v"
      by (cases "hextets_value 0 hi") auto
    moreover have "length hi + length lo < 8" using eq(1) by simp
    ultimately show ?thesis by blast
  qed (use Cons assms in \<open>simp add: parse_parts_def Let_def split: if_splits\<close>)
qed

lemma parse_parts_bound:
  assumes "parse_parts parts = Some v"
  shows "v < 2 ^ 128"
  using parse_parts_cases [OF assms]
proof (elim disjE exE conjE)
  fix hi lo h
  assume "length hi + length lo < 8" and h: "hextets_value 0 hi = Some h"
    and v: "hextets_value (h * 65536 ^ (8 - (length hi + length lo))) lo = Some v"
  moreover have "h < 65536 ^ length hi" using hextets_value_bound [OF h] by simp
  ultimately show ?thesis using hole_bound hextets_value_bound [OF v] by blast
qed (use hextets_value_bound [of 0 parts v] in simp)

lemma parse_ipv6_bound: "parse_ipv6 s = Some v \<Longrightarrow> v < 2 ^ 128"
  unfolding parse_ipv6_def Let_def
  by (auto split: if_split_asm option.splits dest: parse_parts_bound)

lemma ip_address_bound:
  "ip_address s = Some a \<Longrightarrow> (case a of IPv4 v \<Rightarrow> v < 2 ^ 32 | IPv6 v _ \<Rightarrow> v < 2 ^ 128)"
  by (auto simp: ip_address_def split: if_splits option.splits prod.splits
      dest: parse_ipv4_bound parse_ipv6_bound)

section \<open>Printed addresses are read back\<close>

lemma split_on_from_no_sep:
  "sep \<notin> set s \<Longrightarrow> split_on_from sep cur s = [rev cur @ s]"
  by (induction s arbitrary: cur) auto

lemma split_on_from_append:
  "sep \<notin> set w \<Longrightarrow> split_on_from sep cur (w @ sep # s) = (rev cur @ w) # split_on_from sep [] s"
  by (induction w arbitrary: cur) auto

lemma split_on_join:
  assumes "ws \<noteq> []" and "\<And>w. w \<in> set ws \<Longrightarrow> sep \<notin> set w"
  shows "split_on sep (join [sep] ws) = ws"
  using assms
proof (induction ws)
  case (Cons w ws)
  show ?case
  proof (cases ws)
    case Nil then show ?thesis using Cons.prems by (simp add: split_on_def split_on_from_no_sep)
  next
    case (Cons v vs)
    then have "split_on sep (join [sep] ws) = ws" using Cons.IH Cons.prems by simp
    then show ?thesis
      using Cons Cons.prems by (simp add: split_on_def split_on_from_append)
  qed
qed simp

lemma hex_from_append:
  "hex_from acc (s @ t) = (case hex_from acc s of None \<Rightarrow> None | Some a \<Rightarrow> hex_from a t)"
  by (induction s arbitrary: acc) (auto split: option.splits)

lemma hex_from_show_hex: "hex_from 0 (show_hex n) = Some n"
proof (induction n rule: show_hex.induct)
  case (1 n)
  then show ?case
    by (simp add: show_hex.simps [of n] hex_from_append hex_digit_hex_char)
qed

lemma length_show_hex: "n < 16 ^ Suc k \<Longrightarrow> length (show_hex n) \<le> Suc k"
proof (induction k arbitrary: n)
  case (Suc k)
  have "n div 16 < 16 ^ Suc k" using Suc.prems by (simp add: less_mult_imp_div_less)
  from Suc.IH [OF this] show ?case by (simp add: show_hex.simps [of n])
qed (simp add: show_hex.simps)

lemma show_hex_nonempty [simp]: "show_hex n \<noteq> []"
  by (simp add: show_hex.simps [of n])

lemma parse_hextet_show_hex: "n < 65536 \<Longrightarrow> parse_hextet (show_hex n) = Some n"
  using length_show_hex [of n 3] by (simp add: parse_hextet_def hex_from_show_hex)

lemma hex_char_code: "n < 16 \<Longrightarrow> 48 \<le> code (hex_char n) \<and> code (hex_char n) \<noteq> 58"
  by (simp add: hex_char_def code_char_of)

lemma show_hex_chars: "c \<in> set (show_hex n) \<Longrightarrow> 48 \<le> code c \<and> code c \<noteq> 58"
proof (induction n rule: show_hex.induct)
  case (1 n)
  then show ?case
    by (subst (asm) (2) show_hex.simps) (auto simp: hex_char_code split: if_splits)
qed

lemma show_hex_no_punctuation:
  "CHR '':'' \<notin> set (show_hex n)" "CHR ''.'' \<notin> set (show_hex n)" "CHR ''/'' \<notin> set (show_hex n)"
  "CHR ''%'' \<notin> set (show_hex n)"
  using show_hex_chars [of "CHR '':''" n] show_hex_chars [of "CHR ''.''" n]
    show_hex_chars [of "CHR ''/''" n] show_hex_chars [of "CHR ''%''" n]
  by (auto simp: code_def)

text \<open>A stretch of zeros: its start and its length.\<close>

definition zero_range :: "nat list \<Rightarrow> nat \<times> nat \<Rightarrow> bool" where
  "zero_range hs r \<longleftrightarrow> snd r = 0 \<or> fst r + snd r \<le> length hs
     \<and> (\<forall>j. fst r \<le> j \<and> j < fst r + snd r \<longrightarrow> hs ! j = 0)"

lemma zero_run_zero_range:
  assumes "cur \<le> i" and "\<And>j. i - cur \<le> j \<Longrightarrow> j < i \<Longrightarrow> hs ! j = 0" and "zero_range hs best"
  shows "zero_range hs (zero_run i cur best (drop i hs))"
  using assms
proof (induction "length hs - i" arbitrary: i cur best)
  case (Suc n)
  then have i: "i < length hs" by simp
  then have d: "drop i hs = hs ! i # drop (Suc i) hs" by (simp add: Cons_nth_drop_Suc)
  have m: "n = length hs - Suc i" using Suc.hyps(2) by simp
  show ?case
  proof (cases "hs ! i = 0")
    case True
    define b where "b = (if snd best < Suc cur then (i - cur, Suc cur) else best)"
    have z: "hs ! j = 0" if "i - cur \<le> j" "j < Suc i" for j
      using Suc.prems(2) [of j] that True by (cases "j = i") auto
    then have "zero_range hs b"
      using Suc.prems(1,3) i by (auto simp: b_def zero_range_def)
    moreover have "zero_run i cur best (drop i hs) = zero_run (Suc i) (Suc cur) b (drop (Suc i) hs)"
      unfolding d by (simp add: True b_def)
    ultimately show ?thesis using Suc.hyps(1) [OF m, of "Suc cur" b] Suc.prems(1) z by simp
  next
    case False
    have "zero_run i cur best (drop i hs) = zero_run (Suc i) 0 best (drop (Suc i) hs)"
      unfolding d using False by simp
    then show ?thesis using Suc.hyps(1) [OF m, of 0 best] Suc.prems(3) by simp
  qed
qed simp

definition compressed :: "nat \<times> nat \<Rightarrow> string list \<Rightarrow> string list" where
  "compressed r words = (if fst r = 0 then [[]] else []) @ take (fst r) words @ [[]]
     @ drop (fst r + snd r) words @ (if fst r + snd r = 8 then [[]] else [])"

lemma length_8: "length hs = 8 \<Longrightarrow> \<exists>a b c d e f g h. hs = [a, b, c, d, e, f, g, h]"
  by (auto simp: numeral_eq_Suc length_Suc_conv)

lemma hextets_value_show:
  "\<forall>h \<in> set hs. h < 65536 \<Longrightarrow>
   hextets_value acc (map show_hex hs) = Some (foldl (\<lambda>v h. v * 65536 + h) acc hs)"
  by (induction hs arbitrary: acc) (simp_all add: parse_hextet_show_hex)

lemma filter_upt_single:
  assumes "\<And>i. m \<le> i \<Longrightarrow> i < n \<Longrightarrow> P i \<longleftrightarrow> i = k" and "m \<le> k" and "k < n"
  shows "filter P [m..<n] = [k]"
proof -
  have "[m..<n] = [m..<k] @ k # [Suc k..<n]"
    using upt_add_eq_append [of m k "n - k"] assms(2,3) by (simp add: upt_conv_Cons)
  moreover have "filter P [m..<k] = []" "filter P [Suc k..<n] = []" "P k"
    using assms by (auto simp: filter_empty_conv)
  ultimately show ?thesis by simp
qed

lemma parse_parts_one_hole:
  assumes "length parts \<le> 9" and "filter (\<lambda>i. parts ! i = []) [1..<length parts - 1] = [skip]"
    and "hd parts = [] \<Longrightarrow> skip = 1" and "last parts = [] \<Longrightarrow> skip = length parts - 2"
    and "hi = (if hd parts = [] then [] else take skip parts)"
    and "lo = (if last parts = [] then [] else drop (skip + 1) parts)"
    and "length hi + length lo + 1 \<le> 8"
  shows "parse_parts parts = (case hextets_value 0 hi of None \<Rightarrow> None
    | Some h \<Rightarrow> hextets_value (h * 65536 ^ (8 - (length hi + length lo))) lo)"
proof -
  have "\<not> 9 < length parts" "\<not> (hd parts = [] \<and> skip \<noteq> 1 \<or> last parts = [] \<and> skip \<noteq> length parts - 2)"
    "\<not> 8 < length hi + length lo + 1" using assms by auto
  then show ?thesis
    unfolding parse_parts_def Let_def assms(2) list.case assms(5,6) [symmetric] by (simp only: if_False)
qed

lemma parse_parts_words:
  assumes "[] \<notin> set A" "[] \<notin> set B" and "length A + length B \<le> 7"
  shows "parse_parts ((if A = [] then [[]] else []) @ A @ [[]] @ B @ (if B = [] then [[]] else [])) =
    (case hextets_value 0 A of None \<Rightarrow> None
     | Some h \<Rightarrow> hextets_value (h * 65536 ^ (8 - (length A + length B))) B)"
proof (cases "A = []")
  case True
  show ?thesis
  proof (cases "B = []")
    case True with \<open>A = []\<close> show ?thesis by (simp add: parse_parts_def)
  next
    case False
    then have "B ! i \<noteq> []" if "i < length B" for i using assms(2) that nth_mem by metis
    then have f: "filter (\<lambda>i. ([] # [] # B) ! i = []) [1..<length ([] # [] # B) - 1] = [1]"
      using False by (intro filter_upt_single) (auto simp: nth_Cons')
    have "last B \<noteq> []" using False assms(2) by (metis last_in_set)
    then have "parse_parts ([] # [] # B) = (case hextets_value 0 [] of None \<Rightarrow> None
        | Some h \<Rightarrow> hextets_value (h * 65536 ^ (8 - (length ([] :: string list) + length B))) B)"
      using False assms(3) by (intro parse_parts_one_hole [OF _ f]) auto
    then show ?thesis using True False by simp
  qed
next
  case False
  then have hd: "hd A \<noteq> []" using assms(1) by (metis hd_in_set)
  have nA: "A ! i \<noteq> []" if "i < length A" for i using assms(1) that nth_mem by metis
  have nB: "B ! i \<noteq> []" if "i < length B" for i using assms(2) that nth_mem by metis
  show ?thesis
  proof (cases "B = []")
    case True
    have f: "filter (\<lambda>i. (A @ [[], []]) ! i = []) [1..<length (A @ [[], []]) - 1] = [length A]"
      using False nA by (intro filter_upt_single) (auto simp: nth_append Suc_le_eq)
    have "parse_parts (A @ [[], []]) = (case hextets_value 0 A of None \<Rightarrow> None
        | Some h \<Rightarrow> hextets_value (h * 65536 ^ (8 - (length A + length ([] :: string list)))) [])"
      using False hd assms(3) True by (intro parse_parts_one_hole [OF _ f]) auto
    then show ?thesis using True False by (simp split: option.split)
  next
    case nonempty: False
    have f: "filter (\<lambda>i. (A @ [] # B) ! i = []) [1..<length (A @ [] # B) - 1] = [length A]"
      using False nonempty nA nB by (intro filter_upt_single) (auto simp: nth_append nth_Cons' Suc_le_eq)
    have "last B \<noteq> []" using nonempty assms(2) by (metis last_in_set)
    then have "parse_parts (A @ [] # B) = (case hextets_value 0 A of None \<Rightarrow> None
        | Some h \<Rightarrow> hextets_value (h * 65536 ^ (8 - (length A + length B))) B)"
      using False nonempty hd assms(3) by (intro parse_parts_one_hole [OF _ f]) auto
    then show ?thesis using nonempty False by simp
  qed
qed

lemma foldl_zeros: "foldl (\<lambda>v h. v * 65536 + h) (acc :: nat) (replicate n 0) = acc * 65536 ^ n"
  by (induction n arbitrary: acc) simp_all

lemma parse_parts_compressed:
  assumes "length hs = 8" and "\<forall>h \<in> set hs. h < 65536" and "zero_range hs (s, l)" and "1 < l"
  shows "parse_parts (compressed (s, l) (map show_hex hs)) = hextets_value 0 (map show_hex hs)"
proof -
  have le: "s + l \<le> 8" and z: "\<And>j. s \<le> j \<Longrightarrow> j < s + l \<Longrightarrow> hs ! j = 0"
    using assms by (auto simp: zero_range_def)
  define A B where "A = take s hs" and "B = drop (s + l) hs"
  have hs: "hs = A @ replicate l 0 @ B"
    using le z assms(1) by (intro nth_equalityI) (auto simp: A_def B_def nth_append)
  have no_empty: "[] \<notin> set (map show_hex xs)" for xs
    using show_hex_nonempty by (metis ex_map_conv)
  have len: "length A = s" "length B = 8 - (s + l)" using assms(1) le by (simp_all add: A_def B_def)
  have "compressed (s, l) (map show_hex hs) = (if map show_hex A = [] then [[]] else [])
      @ map show_hex A @ [[]] @ map show_hex B @ (if map show_hex B = [] then [[]] else [])"
    using le len assms(1) by (auto simp: compressed_def A_def B_def take_map drop_map)
  also have "parse_parts \<dots> = (case hextets_value 0 (map show_hex A) of None \<Rightarrow> None
     | Some h \<Rightarrow> hextets_value (h * 65536 ^ (8 - (length (map show_hex A) + length (map show_hex B))))
         (map show_hex B))"
    using len le assms(4) no_empty [of A] no_empty [of B] by (intro parse_parts_words) simp_all
  also have "\<dots> = hextets_value 0 (map show_hex hs)"
    using assms(2) len le unfolding hs
    by (simp add: hextets_value_show foldl_zeros Ball_def del: map_append)
  finally show ?thesis .
qed

lemma hextets_range: "\<forall>h \<in> set (hextets a). h < 65536" and length_hextets [simp]: "length (hextets a) = 8"
  by (auto simp: hextets_def)

lemma hextets_sum:
  assumes "a < 2 ^ 128"
  shows "foldl (\<lambda>v h. v * 65536 + h) 0 (hextets a) = a"
proof -
  have s: "x div 65536 * 65536 + x mod 65536 = x" for x :: nat by simp
  have d: "a div 65536 ^ Suc i = a div 65536 ^ i div 65536" for i
    by (simp add: div_mult2_eq [symmetric] mult.commute)
  have "a div 65536 ^ 7 < 65536" using assms by (simp add: less_mult_imp_div_less)
  then have t: "a div 65536 ^ 7 mod 65536 = a div 65536 ^ 7" by simp
  have c: "a div 65536 ^ Suc i * 65536 + a div 65536 ^ i mod 65536 = a div 65536 ^ i" for i
    unfolding d by (rule s)
  have "foldl (\<lambda>v h. v * 65536 + h) 0 (hextets a) = (((((((a div 65536 ^ 7) * 65536
      + a div 65536 ^ 6 mod 65536) * 65536 + a div 65536 ^ 5 mod 65536) * 65536
      + a div 65536 ^ 4 mod 65536) * 65536 + a div 65536 ^ 3 mod 65536) * 65536
      + a div 65536 ^ 2 mod 65536) * 65536 + a div 65536 ^ 1 mod 65536) * 65536 + a div 65536 ^ 0 mod 65536"
    unfolding hextets_def list.map foldl.simps t by (simp only: mult_0 add_0)
  also have "\<dots> = a"
    using c [of 6] c [of 5] c [of 4] c [of 3] c [of 2] c [of 1] c [of 0]
    by (simp only: numeral_eq_Suc pred_numeral_simps One_nat_def) simp
  finally show ?thesis .
qed

definition ipv6_words :: "nat \<Rightarrow> string list" where
  "ipv6_words a =
     (case zero_run 0 0 (0, 0) (hextets a) of (s, l) \<Rightarrow>
        if 1 < l then compressed (s, l) (map show_hex (hextets a)) else map show_hex (hextets a))"

lemma show_ipv6_words: "show_ipv6 a = join '':'' (ipv6_words a)"
  by (simp add: show_ipv6_def ipv6_words_def compressed_def Let_def split: prod.splits)

lemma ipv6_words_chars:
  assumes "w \<in> set (ipv6_words a)"
  shows "CHR '':'' \<notin> set w" "CHR ''.'' \<notin> set w" "CHR ''/'' \<notin> set w" "CHR ''%'' \<notin> set w"
proof -
  have "w = [] \<or> (\<exists>h. w = show_hex h)"
    using assms
    by (auto simp: ipv6_words_def compressed_def split: prod.splits if_split_asm
        dest!: in_set_takeD in_set_dropD)
  then show "CHR '':'' \<notin> set w" "CHR ''.'' \<notin> set w" "CHR ''/'' \<notin> set w" "CHR ''%'' \<notin> set w"
    using show_hex_no_punctuation by auto
qed

lemma parse_parts_ipv6_words:
  assumes "a < 2 ^ 128"
  shows "parse_parts (ipv6_words a) = Some a \<and> 3 \<le> length (ipv6_words a)"
proof -
  obtain s l where r: "zero_run 0 0 (0, 0) (hextets a) = (s, l)" by (metis surj_pair)
  have "zero_range (hextets a) (0, 0)" by (simp add: zero_range_def)
  then have z: "zero_range (hextets a) (s, l)" using zero_run_zero_range [of 0 0 "hextets a" "(0, 0)"] r by simp
  have v: "hextets_value 0 (map show_hex (hextets a)) = Some a"
    using hextets_value_show [OF hextets_range, of 0] hextets_sum [OF assms] by simp
  show ?thesis
  proof (cases "1 < l")
    case True
    then have "s + l \<le> 8" using z by (simp add: zero_range_def)
    then show ?thesis
      using parse_parts_compressed [OF length_hextets hextets_range z True] v True r
      by (auto simp: ipv6_words_def compressed_def)
  next
    case False
    define ws where "ws = map show_hex (hextets a)"
    have ws: "length ws = 8" "hextets_value 0 ws = Some a" using v by (simp_all add: ws_def)
    have ne: "w \<noteq> []" if "w \<in> set ws" for w using that show_hex_nonempty by (auto simp: ws_def)
    have "ws \<noteq> []" using ws(1) by auto
    then have "hd ws \<noteq> []" "last ws \<noteq> []" using ne by auto
    moreover have "filter (\<lambda>i. ws ! i = []) [1..<length ws - 1] = []"
      using ne nth_mem ws(1) by (fastforce simp: filter_empty_conv)
    ultimately have "parse_parts ws = Some a"
      unfolding parse_parts_def Let_def by (simp add: ws)
    then have "parse_parts (map show_hex (hextets a)) = Some a" by (simp only: ws_def)
    then show ?thesis using False r by (simp add: ipv6_words_def)
  qed
qed

lemma parse_ipv6_show:
  assumes "a < 2 ^ 128"
  shows "parse_ipv6 (show_ipv6 a) = Some a"
proof -
  have ne: "ipv6_words a \<noteq> []" and n: "\<not> length (ipv6_words a) < 3"
    using parse_parts_ipv6_words [OF assms] by auto
  have "split_on (CHR '':'') (show_ipv6 a) = ipv6_words a"
    unfolding show_ipv6_words using ne ipv6_words_chars(1) by (rule split_on_join)
  moreover have "CHR ''.'' \<notin> set (last (ipv6_words a))"
    by (rule ipv6_words_chars(2)) (rule last_in_set [OF ne])
  ultimately show ?thesis
    using parse_parts_ipv6_words [OF assms] n by (simp add: parse_ipv6_def Let_def)
qed

lemma show_ipv6_chars:
  "CHR ''.'' \<notin> set (show_ipv6 a)" "CHR ''/'' \<notin> set (show_ipv6 a)" "CHR ''%'' \<notin> set (show_ipv6 a)"
  using set_join [of "'':''" "ipv6_words a"] ipv6_words_chars [of _ a]
  by (auto simp: show_ipv6_words)

lemma colon_in_show_ipv6: "a < 2 ^ 128 \<Longrightarrow> CHR '':'' \<in> set (show_ipv6 a)"
proof (rule ccontr)
  assume a: "a < 2 ^ 128" and "CHR '':'' \<notin> set (show_ipv6 a)"
  then have "split_on (CHR '':'') (show_ipv6 a) = [show_ipv6 a]"
    by (simp add: split_on_def split_on_from_no_sep)
  then show False using parse_ipv6_show [OF a] by (simp add: parse_ipv6_def)
qed

lemma parse_ipv4_colon:
  assumes "CHR '':'' \<in> set s" and "CHR ''.'' \<notin> set s"
  shows "parse_ipv4 (s @ CHR ''%'' # t) = None" and "parse_ipv4 s = None"
proof -
  have o: "parse_octet w = None" if "CHR '':'' \<in> set w" for w
    using that by (auto simp: parse_octet_def list_all_iff is_digit_def code_def)
  have g: "\<exists>w ws. split_on_from (CHR ''.'') cur u = w # ws \<and> set cur \<subseteq> set w" for cur u
  proof (induction u arbitrary: cur)
    case (Cons c u)
    then show ?case using Cons.IH [of "c # cur"] by auto
  qed simp
  have "split_on_from (CHR ''.'') cur (s @ u) = split_on_from (CHR ''.'') (rev s @ cur) u" for cur u
    using assms(2) by (induction s arbitrary: cur) auto
  then have h: "\<exists>w ws. split_on_from (CHR ''.'') [] (s @ u) = w # ws \<and> set s \<subseteq> set w" for u
    using g [of "rev s"] by simp
  have "parse_ipv4 (s @ u) = None" for u
  proof -
    obtain w ws where "split_on (CHR ''.'') (s @ u) = w # ws" "set s \<subseteq> set w"
      unfolding split_on_def using h [of u] by blast
    moreover have "parse_octet w = None" using o calculation(2) assms(1) by blast
    ultimately show ?thesis by (simp add: parse_ipv4_def split: list.split)
  qed
  then show "parse_ipv4 (s @ CHR ''%'' # t) = None" "parse_ipv4 s = None"
    by (blast, metis append_Nil2)
qed

lemma show_nat_no_dot: "CHR ''.'' \<notin> set (show_nat n)"
  using show_nat_digits [of "CHR ''.''" n] by (auto simp: is_digit_def code_def)

lemma length_show_nat: "n < 10 ^ Suc k \<Longrightarrow> length (show_nat n) \<le> Suc k"
proof (induction k arbitrary: n)
  case (Suc k)
  have "n div 10 < 10 ^ Suc k" using Suc.prems by (simp add: less_mult_imp_div_less)
  from Suc.IH [OF this] show ?case by (simp add: show_nat.simps [of n])
qed (simp add: show_nat.simps)

lemma parse_octet_show:
  assumes "n < 256"
  shows "parse_octet (show_nat n) = Some n"
proof -
  have "length (show_nat n) \<le> 3" using length_show_nat [of n 2] assms by simp
  moreover have "show_nat 0 = ''0''" by code_simp
  then have "show_nat n = ''0'' \<or> hd (show_nat n) \<noteq> CHR ''0''" using hd_show_nat by (cases n) auto
  moreover have "list_all is_digit (show_nat n)" using show_nat_digits by (auto simp: list_all_iff)
  ultimately show ?thesis using assms by (auto simp: parse_octet_def read_show_nat)
qed

lemma parse_ipv4_show:
  assumes "a < 2 ^ 32"
  shows "parse_ipv4 (show_ipv4 a) = Some a"
proof -
  define octet where "octet i = a div 256 ^ i mod 256" for i
  define ws where "ws = map (\<lambda>i. show_nat (octet i)) [3, 2, 1, 0::nat]"
  have "CHR ''.'' \<notin> set w" if "w \<in> set ws" for w
    using that show_nat_no_dot by (auto simp: ws_def)
  then have "split_on (CHR ''.'') (join ''.'' ws) = ws"
    by (intro split_on_join) (simp_all add: ws_def)
  moreover have "octet i < 256" for i by (simp add: octet_def)
  then have "map parse_octet ws = [Some (octet 3), Some (octet 2), Some (octet 1), Some (octet 0)]"
    by (simp add: ws_def parse_octet_show)
  moreover have "((octet 3 * 256 + octet 2) * 256 + octet 1) * 256 + octet 0 = a"
  proof -
    have "a div 256 ^ 3 < 256" using assms by (simp add: less_mult_imp_div_less)
    moreover have "a div 256 ^ 3 = a div 256 ^ 2 div 256" "a div 256 ^ 2 = a div 256 div 256"
      by (simp_all flip: div_mult2_eq)
    ultimately show ?thesis by (simp add: octet_def)
  qed
  moreover have "show_ipv4 a = join ''.'' ws"
    unfolding show_ipv4_def ws_def octet_def ..
  ultimately show ?thesis by (simp add: parse_ipv4_def)
qed

text \<open>A scope identifier that a parsed address can carry.\<close>

definition scope_ok :: "string option \<Rightarrow> bool" where
  "scope_ok scope \<longleftrightarrow>
     (case scope of None \<Rightarrow> True | Some s \<Rightarrow> s \<noteq> [] \<and> CHR ''%'' \<notin> set s \<and> CHR ''/'' \<notin> set s)"

lemma partition_absent: "c \<notin> set s \<Longrightarrow> partition c s = (s, False, [])"
  by (simp add: partition_def)

lemma ip_address_show4: "a < 2 ^ 32 \<Longrightarrow> ip_address (show_ip (IPv4 a)) = Some (IPv4 a)"
proof -
  assume a: "a < 2 ^ 32"
  have "CHR ''/'' \<notin> set (show_nat n)" for n
    using show_nat_digits [of "CHR ''/''" n] by (auto simp: is_digit_def code_def)
  then have "CHR ''/'' \<notin> set (show_ipv4 a)"
    unfolding show_ipv4_def by simp
  then show ?thesis using parse_ipv4_show [OF a] by (simp add: ip_address_def)
qed

lemma ip_address_show6:
  assumes "a < 2 ^ 128" and "scope_ok scope"
  shows "ip_address (show_ip (IPv6 a scope)) = Some (IPv6 a scope)"
proof (cases scope)
  case None
  then show ?thesis
    using parse_ipv4_colon(2) [OF colon_in_show_ipv6 [OF assms(1)] show_ipv6_chars(1)]
      parse_ipv6_show [OF assms(1)] show_ipv6_chars
    by (simp add: ip_address_def partition_absent)
next
  case (Some s)
  then have "s \<noteq> []" "CHR ''%'' \<notin> set s" "CHR ''/'' \<notin> set s"
    using assms(2) by (simp_all add: scope_ok_def)
  then show ?thesis
    using parse_ipv4_colon(1) [OF colon_in_show_ipv6 [OF assms(1)] show_ipv6_chars(1)]
      parse_ipv6_show [OF assms(1)] show_ipv6_chars Some
    by (simp add: ip_address_def partition_first)
qed

theorem ip_address_round_trip:
  assumes "ip_address t = Some a"
  shows "ip_address (show_ip a) = Some a"
proof (cases a)
  case (IPv4 v)
  then show ?thesis using ip_address_bound [OF assms] ip_address_show4 by simp
next
  case (IPv6 v scope)
  obtain addr found rest where p: "partition (CHR ''%'') t = (addr, found, rest)" by (metis prod_cases3)
  have slash: "CHR ''/'' \<notin> set t" using assms by (auto simp: ip_address_def)
  have "scope_ok scope"
  proof (cases found)
    case True
    then have "t = addr @ CHR ''%'' # rest" using partition_append [of "CHR ''%''" t addr rest] p by simp
    then show ?thesis
      using assms IPv6 p True slash
      by (auto simp: ip_address_def scope_ok_def split: if_split_asm option.splits)
  next
    case False
    then show ?thesis using assms IPv6 p
      by (auto simp: ip_address_def scope_ok_def split: if_split_asm option.splits)
  qed
  then show ?thesis using IPv6 ip_address_bound [OF assms] ip_address_show6 by simp
qed

end
