(* ===== verification/Outbound_Policy.thy ===== *)
theory Outbound_Policy
  imports Py_Url_Join Py_Ip "HOL-Library.Code_Target_Nat"
begin

text \<open>
  Where the backend may connect to (\<^verbatim>\<open>backend/outbound_security.py\<close>): the check of a URL
  and of every address its host resolves to, and the transport that connects to exactly the
  checked address. The resolver is \<open>socket.getaddrinfo\<close> or the caller's; the IDNA codec is a
  parameter for hosts that are not ASCII, written out for those that are.
\<close>

section \<open>Errors, answers and destinations\<close>

datatype unsafe_reason =
    Not_A_Url | Whitespace | Backslash | Malformed_Url | Scheme_Refused | No_Hostname
  | Has_Credentials | Empty_Port | Percent_In_Host | Port_Refused nat
  | Not_Idna | Bad_Length | Malformed_Hostname
  | Not_Resolved | Malformed_Record | Unsupported_Family | Malformed_Address | No_Address
  | Mapped_Address | Transition_Address | Translated_Address | Site_Local_Address
  | Not_Globally_Routable string

datatype outbound_error =
    Unsafe unsafe_reason
  | Too_Many_Redirects nat
  | Redirect_Cycle
  | Boundary_Error string

datatype dns_family = Inet | Inet6 | Other_Family

datatype dns_answer = Bad_Answer | Answer dns_family string

type_synonym resolver = "string \<Rightarrow> nat \<Rightarrow> dns_answer list option"

record destination =
  dst_url :: string
  dst_scheme :: string
  dst_hostname :: string
  dst_port :: nat
  dst_addresses :: "string list"

section \<open>Host names\<close>

definition ascii_alnum :: "char \<Rightarrow> bool" where
  "ascii_alnum c \<longleftrightarrow> is_alpha_ascii c \<or> is_digit c"

text \<open>\<open>_DNS_LABEL\<close>: 1 to 63 letters, digits and inner hyphens.\<close>

definition dns_label :: "string \<Rightarrow> bool" where
  "dns_label l \<longleftrightarrow> l \<noteq> [] \<and> length l \<le> 63 \<and> ascii_alnum (hd l) \<and> ascii_alnum (last l)
     \<and> list_all (\<lambda>c. ascii_alnum c \<or> c = CHR ''-'') l"

text \<open>\<open>encode("idna")\<close>: an ASCII name is kept when its labels have a legal length (the last
  may be empty); for any other name the codec is the parameter.\<close>

definition idna_encode :: "(string \<Rightarrow> string option) \<Rightarrow> string \<Rightarrow> string option" where
  "idna_encode idna s =
     (if list_all (\<lambda>c. code c < 128) s
      then (let labels = split_on (CHR ''.'') s in
            if list_all (\<lambda>l. l \<noteq> [] \<and> length l < 64) (butlast labels) \<and> length (last labels) < 64
            then Some s else None)
      else idna s)"

definition normalize_hostname ::
  "(string \<Rightarrow> string option) \<Rightarrow> string \<Rightarrow> unsafe_reason + string \<times> ip option" where
  "normalize_hostname idna hostname =
     (let candidate = str_lower hostname in
      case ip_address candidate of
        Some literal \<Rightarrow> Inr (show_ip literal, Some literal)
      | None \<Rightarrow>
          (let candidate = (if candidate \<noteq> [] \<and> last candidate = CHR ''.''
                            then butlast candidate else candidate)
           in case map_option str_lower (idna_encode idna candidate) of
                None \<Rightarrow> Inl Not_Idna
              | Some ascii_host \<Rightarrow>
                  if ascii_host = [] \<or> 253 < length ascii_host then Inl Bad_Length
                  else if list_ex (\<lambda>l. \<not> dns_label l) (split_on (CHR ''.'') ascii_host)
                  then Inl Malformed_Hostname
                  else Inr (ascii_host, None)))"

section \<open>Addresses\<close>

definition read_answer :: "dns_answer \<Rightarrow> unsafe_reason + ip" where
  "read_answer answer =
     (case answer of
        Bad_Answer \<Rightarrow> Inl Malformed_Record
      | Answer family address_text \<Rightarrow>
          if family = Other_Family then Inl Unsupported_Family
          else (case ip_address address_text of
                  None \<Rightarrow> Inl Malformed_Address
                | Some address \<Rightarrow> Inr address))"

fun read_answers :: "dns_answer list \<Rightarrow> unsafe_reason + ip list" where
  "read_answers [] = Inr []"
| "read_answers (a # as) =
     bind_res (read_answer a) (\<lambda>x. bind_res (read_answers as) (\<lambda>xs. Inr (x # xs)))"

definition resolve_addresses :: "resolver \<Rightarrow> string \<Rightarrow> nat \<Rightarrow> unsafe_reason + ip list" where
  "resolve_addresses lookup hostname port =
     (case lookup hostname port of
        None \<Rightarrow> Inl Not_Resolved
      | Some answers \<Rightarrow>
          bind_res (read_answers answers) (\<lambda>addresses.
            if addresses = [] then Inl No_Address else Inr addresses))"

definition nat64_networks :: "(nat \<times> nat) list" where
  "nat64_networks = [(ip6 0x64 0xff9b 0 0, 96), (ip6 0x64 0xff9b 1 0, 48)]"

definition unsafe_address :: "ip \<Rightarrow> bool" where
  "unsafe_address a \<longleftrightarrow> is_private a \<or> is_loopback a \<or> is_link_local a \<or> is_multicast a
     \<or> is_reserved a \<or> is_unspecified a \<or> \<not> is_global a"

fun transition_reason :: "ip \<Rightarrow> unsafe_reason option" where
  "transition_reason (IPv4 _) = None"
| "transition_reason (IPv6 a _) =
     (if ipv4_mapped a \<noteq> None then Some Mapped_Address
      else if is_sixtofour a \<or> is_teredo a then Some Transition_Address
      else if list_ex (in_net6 a) nat64_networks then Some Translated_Address
      else if is_site_local a then Some Site_Local_Address
      else None)"

definition require_globally_routable :: "ip \<Rightarrow> unsafe_reason + unit" where
  "require_globally_routable a =
     (case transition_reason a of
        Some reason \<Rightarrow> Inl reason
      | None \<Rightarrow> guard_res (\<not> unsafe_address a) (Not_Globally_Routable (show_ip a)))"

fun require_all :: "ip list \<Rightarrow> unsafe_reason + unit" where
  "require_all [] = Inr ()"
| "require_all (a # as) = bind_res (require_globally_routable a) (\<lambda>_. require_all as)"

text \<open>\<open>_address_sort_key\<close> on a text of a set: the order of two different texts of one address
  (scope identifiers) is the set's, here the order of the answers.\<close>

definition address_sort_key :: "string \<Rightarrow> nat" where
  "address_sort_key text =
     (case ip_address text of
        Some a \<Rightarrow> ip_version a * 2 ^ 128 + ip_int a
      | None \<Rightarrow> 0)"

definition ordered_addresses :: "ip list \<Rightarrow> string list" where
  "ordered_addresses addresses = sort_key address_sort_key (fromkeys (map show_ip addresses))"

section \<open>The check of a URL\<close>

definition control_or_space :: "char \<Rightarrow> bool" where
  "control_or_space c \<longleftrightarrow> code c \<le> 32 \<or> code c = 127"

definition check_url_text :: "string \<Rightarrow> unsafe_reason + unit" where
  "check_url_text url =
     (if url = [] then Inl Not_A_Url
      else if url \<noteq> strip url \<or> list_ex control_or_space url then Inl Whitespace
      else if CHR 0x5C \<in> set url then Inl Backslash
      else Inr ())"

text \<open>The scheme, the host and the port of an acceptable URL.\<close>

definition check_url_parts :: "nat list \<Rightarrow> string \<Rightarrow> unsafe_reason + string \<times> string \<times> nat" where
  "check_url_parts allowed_ports url =
     (case urlsplit url of
        None \<Rightarrow> Inl Malformed_Url
      | Some parsed \<Rightarrow>
          (case url_port parsed of
             None \<Rightarrow> Inl Malformed_Url
           | Some explicit_port \<Rightarrow>
               (let scheme = str_lower (url_scheme parsed) in
                if scheme \<noteq> ''http'' \<and> scheme \<noteq> ''https'' then Inl Scheme_Refused
                else case url_hostname parsed of
                  None \<Rightarrow> Inl No_Hostname
                | Some hostname \<Rightarrow>
                    if url_netloc parsed = [] then Inl No_Hostname
                    else if url_username parsed \<noteq> None \<or> url_password parsed \<noteq> None
                    then Inl Has_Credentials
                    else if last (url_netloc parsed) = CHR '':'' then Inl Empty_Port
                    else if CHR ''%'' \<in> set hostname then Inl Percent_In_Host
                    else (let port = (case explicit_port of Some p \<Rightarrow> p
                            | None \<Rightarrow> if scheme = ''https'' then 443 else 80)
                          in if port \<in> set allowed_ports then Inr (scheme, hostname, port)
                             else Inl (Port_Refused port)))))"

definition candidate_addresses ::
  "resolver \<Rightarrow> string \<Rightarrow> nat \<Rightarrow> ip option \<Rightarrow> unsafe_reason + ip list" where
  "candidate_addresses lookup host port literal =
     (case literal of Some a \<Rightarrow> Inr [a] | None \<Rightarrow> resolve_addresses lookup host port)"

definition validate_url ::
  "(string \<Rightarrow> string option) \<Rightarrow> resolver \<Rightarrow> nat list \<Rightarrow> string \<Rightarrow> unsafe_reason + destination" where
  "validate_url idna lookup allowed_ports url =
     bind_res (check_url_text url) (\<lambda>_.
     bind_res (check_url_parts allowed_ports url) (\<lambda>(scheme, hostname, port).
     bind_res (normalize_hostname idna hostname) (\<lambda>(host, literal).
     bind_res (candidate_addresses lookup host port literal) (\<lambda>addresses.
     bind_res (require_all addresses) (\<lambda>_.
       Inr \<lparr>dst_url = url, dst_scheme = scheme, dst_hostname = host, dst_port = port,
            dst_addresses = ordered_addresses addresses\<rparr>)))))"

definition validate_outbound_url ::
  "(string \<Rightarrow> string option) \<Rightarrow> resolver \<Rightarrow> nat list \<Rightarrow> string \<Rightarrow> outbound_error + destination" where
  "validate_outbound_url idna lookup allowed_ports url =
     map_sum Unsafe id (validate_url idna lookup allowed_ports url)"

definition default_ports :: "nat list" where
  "default_ports = [80, 443]"

section \<open>The pinned transport\<close>

definition host_header :: "destination \<Rightarrow> string" where
  "host_header d =
     (let hostname = (if CHR '':'' \<in> set (dst_hostname d)
                      then ''['' @ dst_hostname d @ '']'' else dst_hostname d);
          default_port = (if dst_scheme d = ''https'' then 443 else 80)
      in if dst_port d = default_port then hostname
         else hostname @ CHR '':'' # show_nat (dst_port d))"

text \<open>What \<open>get_connection_with_tls_context\<close> asks the connection pool for.\<close>

record pinned_connection =
  pc_host :: string
  pc_port :: nat
  pc_host_header :: string
  pc_tls_name :: "string option"

definition get_pinned_connection ::
  "(string \<Rightarrow> string option) \<Rightarrow> resolver \<Rightarrow> nat list \<Rightarrow> bool \<Rightarrow> string \<Rightarrow> unsafe_reason option + pinned_connection" where
  "get_pinned_connection idna lookup allowed_ports proxy_selected url =
     (if proxy_selected then Inl None
      else case validate_url idna lookup allowed_ports url of
        Inl reason \<Rightarrow> Inl (Some reason)
      | Inr d \<Rightarrow> Inr \<lparr>pc_host = hd (dst_addresses d), pc_port = dst_port d,
          pc_host_header = host_header d,
          pc_tls_name = (if dst_scheme d = ''https'' then Some (dst_hostname d) else None)\<rparr>)"

section \<open>Public addresses\<close>

text \<open>What an accepted address is, stated without the network tables: an IPv4 address by its
  octets, an IPv6 address by its leading hextets.\<close>

definition public4 :: "nat \<Rightarrow> bool" where
  "public4 a \<longleftrightarrow>
     (let o1 = a div 2 ^ 24; o2 = a div 2 ^ 16 mod 256 in
      1 \<le> o1 \<and> o1 \<le> 223 \<and> o1 \<noteq> 10 \<and> o1 \<noteq> 127
      \<and> \<not> (o1 = 100 \<and> 64 \<le> o2 \<and> o2 \<le> 127) \<and> \<not> (o1 = 169 \<and> o2 = 254)
      \<and> \<not> (o1 = 172 \<and> 16 \<le> o2 \<and> o2 \<le> 31) \<and> \<not> (o1 = 192 \<and> o2 = 168)
      \<and> \<not> (o1 = 198 \<and> (o2 = 18 \<or> o2 = 19)))"

definition public6 :: "nat \<Rightarrow> bool" where
  "public6 a \<longleftrightarrow>
     (let h1 = a div 2 ^ 112; h2 = a div 2 ^ 96 mod 65536 in
      0x2000 \<le> h1 \<and> h1 \<le> 0x3fff \<and> h1 \<noteq> 0x2002
      \<and> \<not> (h1 = 0x2001 \<and> (h2 = 0 \<or> h2 = 0xdb8)))"

fun public_ip :: "ip \<Rightarrow> bool" where
  "public_ip (IPv4 a) = public4 a"
| "public_ip (IPv6 a _) = public6 a"

lemma div_skip:
  fixes h :: nat
  assumes "h div m \<noteq> k" and "k * m \<le> h" and "0 < m"
  shows "Suc k * m \<le> h"
proof -
  have "k \<le> h div m" using assms(2,3) by (simp add: less_eq_div_iff_mult_less_eq)
  then have "Suc k \<le> h div m" using assms(1) by simp
  then show ?thesis using assms(3) by (simp only: less_eq_div_iff_mult_less_eq)
qed

lemma public4_if:
  assumes "a < 2 ^ 32" and "\<not> unsafe_address (IPv4 a)"
  shows "public4 a"
proof -
  define p where "p = a div 2 ^ 16"
  have d: "a div 16777216 = p div 256" "a div 1048576 = p div 16" "a div 4194304 = p div 64"
    "a div 131072 = p div 2" "a div 268435456 = p div 4096" "a div 65536 = p"
    unfolding p_def by (simp_all flip: div_mult2_eq)
  have "p < 65536" using assms(1) unfolding p_def by (simp add: less_mult_imp_div_less)
  have n: "\<not> is_private4 a" "p div 64 \<noteq> 401" "p div 4096 \<noteq> 14"
    using assms(2)
    by (simp_all add: unsafe_address_def in_net4_def ip4_def d)
  have "p div 256 \<noteq> 0 \<and> p div 256 \<noteq> 10 \<and> p div 256 \<noteq> 127 \<and> p \<noteq> 43518 \<and> p div 16 \<noteq> 2753
    \<and> p \<noteq> 49320 \<and> p div 2 \<noteq> 25353 \<and> p div 4096 \<noteq> 15 \<or> p = 49152"
    using n(1) by (simp add: is_private4_def private4_def private4_exceptions_def in_net4_def ip4_def d)
      (auto simp: p_def)
  then have c: "p div 256 \<noteq> 0" "p div 256 \<noteq> 10" "p div 256 \<noteq> 127" "p \<noteq> 43518" "p div 16 \<noteq> 2753"
    "p \<noteq> 49320" "p div 2 \<noteq> 25353" "p div 4096 \<noteq> 15" by auto
  define x y where "x = p div 256" and "y = p mod 256"
  have p: "p = 256 * x + y" and y: "y < 256" by (simp_all add: x_def y_def)
  have "x div 16 = p div 4096" unfolding x_def by (simp flip: div_mult2_eq)
  then have x14: "x div 16 \<noteq> 14" and x15: "x div 16 \<noteq> 15" using n(3) c(8) by simp_all
  have "x < 256" using \<open>p < 65536\<close> unfolding x_def by (simp add: less_mult_imp_div_less)
  have "x \<le> 223"
  proof (rule ccontr)
    assume "\<not> x \<le> 223"
    then have "240 \<le> x" using div_skip [OF x14] by simp
    then have "256 \<le> x" using div_skip [OF x15] by simp
    then show False using \<open>x < 256\<close> by simp
  qed
  moreover have "\<not> (x = 100 \<and> 64 \<le> y \<and> y \<le> 127)" using div_skip [OF n(2)] p by auto
  moreover have "\<not> (x = 169 \<and> y = 254)" "\<not> (x = 192 \<and> y = 168)" using c(4,6) p by auto
  moreover have "\<not> (x = 172 \<and> 16 \<le> y \<and> y \<le> 31)" using div_skip [OF c(5)] p by auto
  moreover have "\<not> (x = 198 \<and> (y = 18 \<or> y = 19))" using div_skip [OF c(7)] p by auto
  moreover have "1 \<le> x" "x \<noteq> 10" "x \<noteq> 127" using c(1-3) unfolding x_def by simp_all
  ultimately show ?thesis
    unfolding public4_def Let_def by (simp add: d flip: x_def y_def)
qed

lemma in_net6_exception:
  assumes "list_ex (in_net6 a) private6_exceptions"
  shows "a div 2 ^ 112 = 0x2001 \<and> a div 2 ^ 96 \<noteq> 0x20010db8"
proof -
  have m: "a div 2 ^ 112 = a div 2 ^ 96 div 65536" "a div 2 ^ 100 = a div 2 ^ 96 div 16"
    "a div 2 ^ 96 = a div 2 ^ 80 div 65536" "a div 2 ^ 96 = a div 2 ^ 0 div 2 ^ 96"
    by (simp_all flip: div_mult2_eq)
  from assms consider "a = ip6 0x2001 1 0 0 + 1 \<or> a = ip6 0x2001 1 0 0 + 2"
    | "a div 2 ^ 96 = 0x20010003" | "a div 2 ^ 80 = 0x200100040112"
    | "a div 2 ^ 100 = 0x2001002" | "a div 2 ^ 100 = 0x2001003"
    by (auto simp: private6_exceptions_def in_net6_def ip6_def)
  then show ?thesis
    by cases (auto simp: m ip6_def)
qed

lemma public6_if:
  assumes "a < 2 ^ 128" and "transition_reason (IPv6 a s) = None" and "\<not> unsafe_address (IPv6 a s)"
  shows "public6 a"
proof -
  define q where "q = a div 2 ^ 96"
  define h where "h = a div 2 ^ 112"
  have hq: "h = q div 65536" unfolding h_def q_def by (simp flip: div_mult2_eq)
  have "h < 65536" using assms(1) unfolding h_def by (simp add: less_mult_imp_div_less)
  have net: "in_net6 a (b, n) \<longleftrightarrow> h div 2 ^ (16 - n) = b div 2 ^ (128 - n)" if "n \<le> 16" for b n
  proof -
    have "(2::nat) ^ (128 - n) = 2 ^ 112 * 2 ^ (16 - n)" using that by (simp only: flip: power_add) simp
    then show ?thesis by (simp add: in_net6_def h_def div_mult2_eq)
  qed
  have r: "\<not> is_reserved (IPv6 a s)" "\<not> is_multicast (IPv6 a s)" "\<not> is_link_local (IPv6 a s)"
    "\<not> is_private (IPv6 a s)" using assms(3) by (auto simp: unsafe_address_def)
  have t: "ipv4_mapped a = None" "h \<noteq> 0x2002" "q \<noteq> 0x20010000" "\<not> is_site_local a"
    using assms(2) by (auto simp: is_sixtofour_def is_teredo_def h_def q_def split: if_splits)
  have range: "0x2000 \<le> h \<and> h \<le> 0x3fff"
  proof -
    have e: "\<not> list_ex (in_net6 a) private6" if "h \<noteq> 0x2001"
      using r(4) t(1) that
      by (auto dest: in_net6_exception simp: h_def)
    have res: "h div 256 \<noteq> 0" "h div 256 \<noteq> 1" "h div 512 \<noteq> 1" "h div 1024 \<noteq> 1" "h div 2048 \<noteq> 1"
      "h div 4096 \<noteq> 1" "h div 8192 \<noteq> 2" "h div 8192 \<noteq> 3" "h div 8192 \<noteq> 4" "h div 8192 \<noteq> 5"
      "h div 8192 \<noteq> 6" "h div 4096 \<noteq> 14" "h div 2048 \<noteq> 30" "h div 1024 \<noteq> 62" "h div 128 \<noteq> 508"
      using r(1) by (simp_all add: reserved6_def net ip6_def)
    have oth: "h div 256 \<noteq> 255" "h div 64 \<noteq> 1018" "h div 64 \<noteq> 1019"
      using r(2,3) t(4) by (simp_all add: is_site_local_def net ip6_def)
    have "256 \<le> h" using div_skip [OF res(1)] by simp
    then have "512 \<le> h" using div_skip [OF res(2)] by simp
    then have "1024 \<le> h" using div_skip [OF res(3)] by simp
    then have "2048 \<le> h" using div_skip [OF res(4)] by simp
    then have "4096 \<le> h" using div_skip [OF res(5)] by simp
    then have "8192 \<le> h" using div_skip [OF res(6)] by simp
    moreover have "\<not> 16384 \<le> h"
    proof
      assume "16384 \<le> h"
      then have "24576 \<le> h" using div_skip [OF res(7)] by simp
      then have "32768 \<le> h" using div_skip [OF res(8)] by simp
      then have "40960 \<le> h" using div_skip [OF res(9)] by simp
      then have "49152 \<le> h" using div_skip [OF res(10)] by simp
      then have "57344 \<le> h" using div_skip [OF res(11)] by simp
      then have "61440 \<le> h" using div_skip [OF res(12)] by simp
      then have "63488 \<le> h" using div_skip [OF res(13)] by simp
      then have "64512 \<le> h" using div_skip [OF res(14)] by simp
      moreover from this have fc: "h div 512 \<noteq> 126" using e by (auto simp: private6_def net ip6_def)
      ultimately have "65024 \<le> h" using div_skip [OF fc] by simp
      then have "65152 \<le> h" using div_skip [OF res(15)] by simp
      then have "65216 \<le> h" using div_skip [OF oth(2)] by simp
      then have "65280 \<le> h" using div_skip [OF oth(3)] by simp
      then have "65536 \<le> h" using div_skip [OF oth(1)] by simp
      then show False using \<open>h < 65536\<close> by simp
    qed
    ultimately show ?thesis by simp
  qed
  have db8: "q \<noteq> 0x20010db8"
  proof
    assume q: "q = 0x20010db8"
    then have "list_ex (in_net6 a) private6"
      by (simp add: private6_def in_net6_def ip6_def q_def)
    then have "list_ex (in_net6 a) private6_exceptions" using r(4) t(1) by auto
    then show False using q in_net6_exception [of a] by (simp add: q_def)
  qed
  define z where "z = q mod 65536"
  have qz: "q = h * 65536 + z" by (simp add: hq z_def)
  have "q = 0x20010000" if "h = 0x2001" "z = 0" unfolding qz that by simp
  moreover have "q = 0x20010db8" if "h = 0x2001" "z = 0xdb8" unfolding qz that by simp
  ultimately have z: "\<not> (h = 0x2001 \<and> (z = 0 \<or> z = 0xdb8))" using t(3) db8 by blast
  then show ?thesis
    unfolding public6_def Let_def h_def [symmetric] q_def [symmetric] z_def [symmetric]
    by (intro conjI z range [THEN conjunct1] range [THEN conjunct2] t(2))
qed

lemma require_globally_routable_public:
  assumes "require_globally_routable a = Inr u"
    and "case a of IPv4 v \<Rightarrow> v < 2 ^ 32 | IPv6 v _ \<Rightarrow> v < 2 ^ 128"
  shows "public_ip a"
proof -
  have none: "transition_reason a = None" and safe: "\<not> unsafe_address a"
    using assms(1) by (simp_all add: require_globally_routable_def res_simps split: option.splits)
  show ?thesis
  proof (cases a)
    case (IPv4 v) then show ?thesis using public4_if assms(2) safe by simp
  next
    case (IPv6 v s) then show ?thesis using public6_if [of v s] assms(2) safe none by simp
  qed
qed

lemma require_all_Inr: "require_all as = Inr u \<longleftrightarrow> (\<forall>a \<in> set as. require_globally_routable a = Inr ())"
  by (induction as) (auto simp: res_simps)

lemma ip_address_public:
  "ip_address t = Some a \<Longrightarrow> require_globally_routable a = Inr u \<Longrightarrow> public_ip a"
  by (rule require_globally_routable_public) (use ip_address_bound in \<open>auto split: ip.split\<close>)

lemma read_answer_Inr:
  "read_answer x = Inr a \<longleftrightarrow> (\<exists>f t. x = Answer f t \<and> f \<noteq> Other_Family \<and> ip_address t = Some a)"
  by (auto simp: read_answer_def split: dns_answer.splits option.splits)

lemma read_answers_Inr: "read_answers xs = Inr as \<longleftrightarrow> list_all2 (\<lambda>x a. read_answer x = Inr a) xs as"
  by (induction xs arbitrary: as) (auto simp: res_simps list_all2_Cons1)

lemma resolve_addresses_Inr:
  "resolve_addresses lookup h p = Inr as \<longleftrightarrow>
   as \<noteq> [] \<and> (\<exists>xs. lookup h p = Some xs \<and> list_all2 (\<lambda>x a. read_answer x = Inr a) xs as)"
  by (auto simp: resolve_addresses_def res_simps read_answers_Inr split: option.splits)

lemma set_ordered_addresses [simp]: "set (ordered_addresses as) = show_ip ` set as"
  by (simp add: ordered_addresses_def)

lemma ordered_addresses_Nil [simp]: "ordered_addresses as = [] \<longleftrightarrow> as = []"
  by (metis set_empty set_ordered_addresses image_is_empty)

lemma normalize_hostname_Inr:
  assumes "normalize_hostname idna h = Inr (host, literal)"
  shows "(case literal of
      Some a \<Rightarrow> ip_address (str_lower h) = Some a \<and> host = show_ip a
    | None \<Rightarrow> host \<noteq> [] \<and> length host \<le> 253 \<and> list_all dns_label (split_on (CHR ''.'') host))"
  using assms
  by (auto simp: normalize_hostname_def Let_def list_all_iff list_ex_iff not_less
      split: option.splits if_split_asm)

lemma validate_url_Inr:
  assumes "validate_url idna lookup ports url = Inr d"
  obtains scheme h host literal addresses where
    "check_url_text url = Inr ()" "check_url_parts ports url = Inr (scheme, h, dst_port d)"
    "normalize_hostname idna h = Inr (dst_hostname d, literal)"
    "candidate_addresses lookup (dst_hostname d) (dst_port d) literal = Inr addresses"
    "require_all addresses = Inr ()" "dst_addresses d = ordered_addresses addresses"
    "dst_url d = url" "dst_scheme d = scheme"
proof -
  from assms obtain scheme h p host lit as where
    "check_url_text url = Inr ()" "check_url_parts ports url = Inr (scheme, h, p)"
    "normalize_hostname idna h = Inr (host, lit)" "candidate_addresses lookup host p lit = Inr as"
    "require_all as = Inr ()"
    "d = \<lparr>dst_url = url, dst_scheme = scheme, dst_hostname = host, dst_port = p,
      dst_addresses = ordered_addresses as\<rparr>"
    unfolding validate_url_def by (auto simp: res_simps split: prod.splits)
  then show thesis using that by simp
qed

lemma check_url_parts_Inr:
  assumes "check_url_parts ports url = Inr (scheme, h, p)"
  shows "(scheme = ''http'' \<or> scheme = ''https'') \<and> p \<in> set ports \<and> CHR ''%'' \<notin> set h
    \<and> (\<exists>u. urlsplit url = Some u \<and> url_hostname u = Some h \<and> url_username u = None
         \<and> url_password u = None)"
proof -
  obtain u e where u: "urlsplit url = Some u" "url_port u = Some e"
    using assms by (cases "urlsplit url"; cases "url_port (the (urlsplit url))")
      (simp_all add: check_url_parts_def)
  obtain host where h: "url_hostname u = Some host"
    using assms u by (cases "url_hostname u")
      (simp_all add: check_url_parts_def Let_def split: if_split_asm)
  show ?thesis using assms u h by (simp add: check_url_parts_def Let_def split: if_split_asm)
qed

lemma list_all2_in_set1: "list_all2 P xs ys \<Longrightarrow> x \<in> set xs \<Longrightarrow> \<exists>y \<in> set ys. P x y"
  by (induction rule: list_all2_induct) auto

lemma list_all2_in_set2: "list_all2 P xs ys \<Longrightarrow> y \<in> set ys \<Longrightarrow> \<exists>x \<in> set xs. P x y"
  by (induction rule: list_all2_induct) auto

lemma candidate_addresses_public:
  assumes "normalize_hostname idna h = Inr (host, literal)"
    and "candidate_addresses lookup host p literal = Inr as" and "require_all as = Inr ()"
  shows "as \<noteq> [] \<and> (\<forall>a \<in> set as. public_ip a \<and> ip_address (show_ip a) = Some a)
    \<and> (literal = None \<longrightarrow> (\<exists>answers. lookup host p = Some answers
         \<and> (\<forall>x \<in> set answers. \<exists>f t a. x = Answer f t \<and> ip_address t = Some a \<and> a \<in> set as)))"
proof (cases literal)
  case None
  then obtain xs where xs: "as \<noteq> []" "lookup host p = Some xs"
    "list_all2 (\<lambda>x a. read_answer x = Inr a) xs as"
    using assms(2) by (auto simp: candidate_addresses_def resolve_addresses_Inr)
  have "public_ip a \<and> ip_address (show_ip a) = Some a" if "a \<in> set as" for a
  proof -
    obtain x where "x \<in> set xs" "read_answer x = Inr a"
      using list_all2_in_set2 [OF xs(3) \<open>a \<in> set as\<close>] by blast
    then obtain t where t: "ip_address t = Some a" by (auto simp: read_answer_Inr)
    moreover have "require_globally_routable a = Inr ()" using assms(3) that by (simp add: require_all_Inr)
    ultimately show ?thesis using ip_address_public ip_address_round_trip by blast
  qed
  moreover have "\<exists>f t a. x = Answer f t \<and> ip_address t = Some a \<and> a \<in> set as" if "x \<in> set xs" for x
  proof -
    obtain a where "a \<in> set as" "read_answer x = Inr a"
      using list_all2_in_set1 [OF xs(3) \<open>x \<in> set xs\<close>] by blast
    then show ?thesis unfolding read_answer_Inr by blast
  qed
  ultimately show ?thesis using xs by blast
next
  case (Some a)
  then have "as = [a]" and "ip_address (str_lower h) = Some a"
    using assms(2) normalize_hostname_Inr [OF assms(1)] by (simp_all add: candidate_addresses_def)
  moreover have "require_globally_routable a = Inr ()"
    using assms(3) unfolding require_all_Inr calculation(1) by simp
  ultimately have "public_ip a \<and> ip_address (show_ip a) = Some a"
    using ip_address_public ip_address_round_trip by blast
  then show ?thesis using Some \<open>as = [a]\<close> by simp
qed

text \<open>A text that names a public address.\<close>

definition public_text :: "string \<Rightarrow> bool" where
  "public_text t \<longleftrightarrow> (case ip_address t of None \<Rightarrow> False | Some a \<Rightarrow> public_ip a)"

lemma validate_url_public:
  assumes "validate_url idna lookup ports url = Inr d"
  shows "dst_addresses d \<noteq> [] \<and> (\<forall>t \<in> set (dst_addresses d). public_text t)"
  using assms
proof (rule validate_url_Inr)
  fix scheme h host literal addresses
  assume "normalize_hostname idna h = Inr (dst_hostname d, literal)"
    "candidate_addresses lookup (dst_hostname d) (dst_port d) literal = Inr addresses"
    "require_all addresses = Inr ()" "dst_addresses d = ordered_addresses addresses"
  with candidate_addresses_public [of idna h _ literal lookup _ addresses]
  show ?thesis by (auto simp: public_text_def)
qed

section \<open>The interface of the policy\<close>

text \<open>What the clients of the policy rely on: an accepted URL names at least one address, all of
  them safe, and the destination is for the URL that was given.\<close>

locale destination_policy =
  fixes check :: "string \<Rightarrow> 'e + 'd"
    and url_of :: "'d \<Rightarrow> string"
    and addresses_of :: "'d \<Rightarrow> string list"
    and safe :: "string \<Rightarrow> bool"
  assumes accepted_url: "check url = Inr d \<Longrightarrow> url_of d = url"
    and accepted_some: "check url = Inr d \<Longrightarrow> addresses_of d \<noteq> []"
    and accepted_safe: "check url = Inr d \<Longrightarrow> t \<in> set (addresses_of d) \<Longrightarrow> safe t"
begin

lemma accepted_first: "check url = Inr d \<Longrightarrow> safe (hd (addresses_of d))"
  using accepted_some accepted_safe by (metis list.set_sel(1))

end

interpretation outbound: destination_policy
  "validate_url idna lookup ports" dst_url dst_addresses public_text
  for idna :: "string \<Rightarrow> string option" and lookup :: resolver and ports :: "nat list"
proof unfold_locales
  show "dst_url d = url" if "validate_url idna lookup ports url = Inr d" for url d
    using that by (rule validate_url_Inr)
  show "dst_addresses d \<noteq> []" if "validate_url idna lookup ports url = Inr d" for url d
    using validate_url_public [OF that] by blast
  show "public_text t" if "validate_url idna lookup ports url = Inr d" "t \<in> set (dst_addresses d)"
    for url d t
    using validate_url_public [OF that(1)] that(2) by blast
qed

section \<open>Properties\<close>

definition demo_lookup :: resolver where
  "demo_lookup = (\<lambda>host port. Some [Answer Inet ''93.184.216.34''])"

definition demo_destination :: destination where
  "demo_destination = \<lparr>dst_url = ''https://example.org/'', dst_scheme = ''https'',
     dst_hostname = ''example.org'', dst_port = 443, dst_addresses = [''93.184.216.34'']\<rparr>"

lemma demo_accepted:
  "validate_url (\<lambda>_. None) demo_lookup default_ports ''https://example.org/'' = Inr demo_destination"
  by code_simp

text \<open>C22. No server-side request reaches a private network: a destination that the policy accepts
  is an HTTP or HTTPS URL on an allowed port, without credentials; it has at least one address,
  every address it may be connected to is the text of a public address (stated by octets and
  hextets, without the library's tables), and when the host is a name, every record the resolver
  returned was checked, not only the one that will be used.\<close>

theorem accepted_destinations_are_public:
  assumes "validate_url idna lookup ports url = Inr d"
  shows "dst_url d = url \<and> dst_scheme d \<in> {''http'', ''https''} \<and> dst_port d \<in> set ports
    \<and> (\<exists>u. urlsplit url = Some u \<and> url_username u = None \<and> url_password u = None)
    \<and> dst_addresses d \<noteq> []
    \<and> (\<forall>t \<in> set (dst_addresses d). \<exists>a. ip_address t = Some a \<and> public_ip a)
    \<and> (dst_addresses d = [dst_hostname d]
       \<or> list_all dns_label (split_on (CHR ''.'') (dst_hostname d))
         \<and> (\<exists>answers. lookup (dst_hostname d) (dst_port d) = Some answers
             \<and> (\<forall>x \<in> set answers. \<exists>f t a. x = Answer f t \<and> ip_address t = Some a \<and> public_ip a
                  \<and> show_ip a \<in> set (dst_addresses d))))"
proof -
  from assms obtain scheme h lit as where v: "check_url_parts ports url = Inr (scheme, h, dst_port d)"
    "normalize_hostname idna h = Inr (dst_hostname d, lit)"
    "candidate_addresses lookup (dst_hostname d) (dst_port d) lit = Inr as"
    "require_all as = Inr ()" "dst_addresses d = ordered_addresses as"
    "dst_url d = url" "dst_scheme d = scheme"
    by (rule validate_url_Inr)
  note public = candidate_addresses_public [OF v(2,3,4)]
  have parts: "dst_scheme d \<in> {''http'', ''https''}" "dst_port d \<in> set ports"
    "\<exists>u. urlsplit url = Some u \<and> url_username u = None \<and> url_password u = None"
    using check_url_parts_Inr [OF v(1)] v(7) by auto
  have addresses: "\<forall>t \<in> set (dst_addresses d). \<exists>a. ip_address t = Some a \<and> public_ip a"
    using public v(5) by auto
  show ?thesis
  proof (cases lit)
    case None
    then show ?thesis
      using parts addresses v(5,6) public normalize_hostname_Inr [OF v(2)] by simp blast
  next
    case (Some a)
    then have "dst_hostname d = show_ip a" "as = [a]"
      using normalize_hostname_Inr [OF v(2)] v(3) by (simp_all add: candidate_addresses_def)
    then have "dst_addresses d = [dst_hostname d]"
      using v(5) by (simp add: ordered_addresses_def fromkeys_distinct)
    then show ?thesis using parts addresses v(6) by simp
  qed
qed

theorem accepted_destinations_are_public_witness:
  "\<exists>a. ip_address ''93.184.216.34'' = Some a \<and> public_ip a"
proof -
  have "\<forall>t \<in> set (dst_addresses demo_destination). \<exists>a. ip_address t = Some a \<and> public_ip a"
    using accepted_destinations_are_public [OF demo_accepted] by blast
  then show ?thesis by (simp add: demo_destination_def)
qed

text \<open>C23. The transport connects to the address that was checked: a pinned connection is opened only
  without a proxy, to an address of the answer that this very connection validated, which is
  public; the Host header and the TLS name are those of the URL's host, so pinning does not
  weaken certificate checks.\<close>

theorem connections_are_pinned:
  assumes "get_pinned_connection idna lookup ports proxy url = Inr c"
  shows "\<not> proxy \<and> (\<exists>a. ip_address (pc_host c) = Some a \<and> public_ip a)
    \<and> (\<exists>d. validate_url idna lookup ports url = Inr d \<and> pc_host c \<in> set (dst_addresses d)
        \<and> pc_port c = dst_port d \<and> pc_host_header c = host_header d
        \<and> (dst_scheme d = ''https'' \<longrightarrow> pc_tls_name c = Some (dst_hostname d)))"
proof -
  from assms obtain d where d: "\<not> proxy" "validate_url idna lookup ports url = Inr d"
    "c = \<lparr>pc_host = hd (dst_addresses d), pc_port = dst_port d, pc_host_header = host_header d,
       pc_tls_name = (if dst_scheme d = ''https'' then Some (dst_hostname d) else None)\<rparr>"
    by (auto simp: get_pinned_connection_def split: if_split_asm sum.splits)
  have "public_text (pc_host c)" using outbound.accepted_first [OF d(2)] d(3) by simp
  moreover have "pc_host c \<in> set (dst_addresses d)" using outbound.accepted_some [OF d(2)] d(3) by simp
  ultimately show ?thesis using d by (auto simp: public_text_def split: option.splits)
qed

theorem connections_are_pinned_witness:
  "pc_host \<lparr>pc_host = ''93.184.216.34'', pc_port = 443, pc_host_header = ''example.org'',
     pc_tls_name = Some ''example.org''\<rparr> \<in> set (dst_addresses demo_destination)"
proof -
  have "get_pinned_connection (\<lambda>_. None) demo_lookup default_ports False ''https://example.org/'' =
      Inr \<lparr>pc_host = ''93.184.216.34'', pc_port = 443, pc_host_header = ''example.org'',
        pc_tls_name = Some ''example.org''\<rparr>"
    by (simp add: get_pinned_connection_def demo_accepted demo_destination_def host_header_def)
  from connections_are_pinned [OF this] show ?thesis using demo_accepted by auto
qed

end
