(* ===== verification/Outbound_Requests.thy ===== *)
theory Outbound_Requests
  imports Outbound_Policy
begin

text \<open>
  Requests that follow redirects by hand (\<^verbatim>\<open>backend/outbound_security.py\<close>): every URL is
  checked before it is requested, the number of redirects is bounded, and credentials stay with
  the origin they were given for. Sending one hop is the \<open>requests\<close> library: a function of the
  number of the hop, the session's state at that moment and the arguments of the call.
\<close>

section \<open>Sessions, arguments and responses\<close>

type_synonym header_list = "(string \<times> string) list"

record session_state =
  ses_params :: header_list
  ses_auth :: "string option"
  ses_headers :: header_list
  ses_cookies :: header_list

text \<open>The keyword arguments; \<open>None\<close> is an absent key.\<close>

record request_kwargs =
  kw_params :: "header_list option"
  kw_auth :: "string option"
  kw_headers :: "header_list option"
  kw_cookies :: "header_list option"
  kw_data :: "string option"
  kw_json :: "string option"
  kw_files :: "string option"
  kw_content :: "string option"

record response =
  rsp_status :: int
  rsp_headers :: "string \<Rightarrow> string option"
  rsp_set_cookies :: header_list

record hop =
  hop_method :: string
  hop_url :: string
  hop_kwargs :: request_kwargs
  hop_session :: session_state

type_synonym sender = "nat \<Rightarrow> hop \<Rightarrow> response option"

definition secret_headers :: "string list" where
  "secret_headers =
     [''authorization'', ''proxy-authorization'', ''cookie'', ''x-api-key'', ''api-key'']"

definition body_headers :: "string list" where
  "body_headers = [''content-length'', ''content-type'', ''transfer-encoding'']"

definition remove_headers :: "string list \<Rightarrow> header_list \<Rightarrow> header_list" where
  "remove_headers forbidden headers = filter (\<lambda>(k, v). str_lower k \<notin> set forbidden) headers"

definition redirect_statuses :: "int list" where
  "redirect_statuses = [301, 302, 303, 307, 308]"

text \<open>\<open>headers.get("location") or headers.get("Location")\<close>, as a string.\<close>

definition response_location :: "response \<Rightarrow> string" where
  "response_location r =
     (case rsp_headers r ''location'' of
        Some v \<Rightarrow> if v \<noteq> [] then v else (case rsp_headers r ''Location'' of None \<Rightarrow> [] | Some w \<Rightarrow> w)
      | None \<Rightarrow> (case rsp_headers r ''Location'' of None \<Rightarrow> [] | Some w \<Rightarrow> w))"

section \<open>Origins and the next request\<close>

type_synonym origin = "string \<times> string option \<times> nat option"

text \<open>\<open>_origin\<close>; \<open>None\<close> when \<open>urlsplit\<close> raises.\<close>

definition origin_of :: "string \<Rightarrow> origin option" where
  "origin_of url =
     map_option (\<lambda>u.
       (str_lower (url_scheme u), url_hostname u,
        (case url_port u of
           None \<Rightarrow> None
         | Some p \<Rightarrow>
             Some (if p = None \<or> p = Some 0
                   then (if str_lower (url_scheme u) = ''https'' then 443 else 80) else the p))))
       (urlsplit url)"

definition redirect_method :: "string \<Rightarrow> int \<Rightarrow> string" where
  "redirect_method m status =
     (if status = 303 \<and> m \<noteq> ''HEAD'' then ''GET''
      else if status = 302 \<and> m \<noteq> ''HEAD'' then ''GET''
      else if status = 301 \<and> m = ''POST'' then ''GET''
      else m)"

definition strip_credentials :: "request_kwargs \<Rightarrow> request_kwargs" where
  "strip_credentials kw = kw\<lparr>kw_auth := None, kw_cookies := None\<rparr>"

definition strip_body :: "request_kwargs \<Rightarrow> request_kwargs" where
  "strip_body kw = kw\<lparr>kw_data := None, kw_json := None, kw_files := None, kw_content := None\<rparr>"

definition redirect_method_and_kwargs ::
  "string \<Rightarrow> int \<Rightarrow> request_kwargs \<Rightarrow> string \<Rightarrow> string \<Rightarrow> string \<times> request_kwargs" where
  "redirect_method_and_kwargs m status kw source target =
     (let next = redirect_method m status;
          cross = (origin_of source \<noteq> origin_of target);
          to_get = (next = ''GET'' \<and> m \<noteq> ''GET'');
          headers = (case kw_headers kw of None \<Rightarrow> [] | Some h \<Rightarrow> h);
          headers = (if cross then remove_headers secret_headers headers else headers);
          headers = (if to_get then remove_headers body_headers headers else headers);
          kw1 = (if cross then strip_credentials kw else kw);
          kw2 = (if to_get then strip_body kw1 else kw1)
      in (next, if headers \<noteq> [] \<or> kw_headers kw \<noteq> None then kw2\<lparr>kw_headers := Some headers\<rparr> else kw2))"

section \<open>One hop\<close>

text \<open>\<open>_send_requests_hop\<close>: what the session holds while the request is made.\<close>

definition session_for_hop :: "bool \<Rightarrow> bool \<Rightarrow> session_state \<Rightarrow> session_state" where
  "session_for_hop suppress_params suppress_credentials s =
     (let s1 = (if suppress_params then s\<lparr>ses_params := []\<rparr> else s) in
      if suppress_credentials
      then s1\<lparr>ses_auth := None, ses_headers := remove_headers secret_headers (ses_headers s1),
              ses_cookies := []\<rparr>
      else s1)"

text \<open>Afterwards the original objects are back; cookies of the response were stored in the jar
  that was in place during the request.\<close>

definition session_after_hop :: "bool \<Rightarrow> response option \<Rightarrow> session_state \<Rightarrow> session_state" where
  "session_after_hop suppress_credentials res s =
     (case res of
        None \<Rightarrow> s
      | Some r \<Rightarrow>
          if suppress_credentials then s else s\<lparr>ses_cookies := ses_cookies s @ rsp_set_cookies r\<rparr>)"

section \<open>The redirect loop\<close>

datatype request_outcome =
    Returned response "response list"
  | Refused outbound_error
  | Join_Raised
  | Send_Raised

record redirect_state =
  rd_method :: string
  rd_url :: string
  rd_kwargs :: request_kwargs
  rd_session :: session_state
  rd_credentials :: bool
  rd_history :: "response list"
  rd_hops :: "hop list"
  rd_open :: "response list"   \<comment> \<open>responses that were received and not closed\<close>

record redirect_config =
  cf_check :: "nat \<Rightarrow> string \<Rightarrow> outbound_error + destination"
  cf_sender :: sender
  cf_follow :: bool
  cf_limit :: nat

text \<open>One round of the loop: the state for the next round, or the outcome. The checks of round
  \<open>i\<close> are number \<open>2 i\<close> and \<open>2 i + 1\<close>: names are resolved anew each time.\<close>

definition redirect_round ::
  "redirect_config \<Rightarrow> redirect_state \<Rightarrow> redirect_state \<times> request_outcome option" where
  "redirect_round cf st =
     (let i = length (rd_history st) in
      case cf_check cf (2 * i) (rd_url st) of
        Inl e \<Rightarrow> (st, Some (Refused e))
      | Inr _ \<Rightarrow>
          (let hop = \<lparr>hop_method = rd_method st, hop_url = rd_url st, hop_kwargs = rd_kwargs st,
                 hop_session = session_for_hop (i \<noteq> 0) (\<not> rd_credentials st) (rd_session st)\<rparr>;
               res = cf_sender cf i hop;
               st = st\<lparr>rd_hops := rd_hops st @ [hop],
                 rd_session := session_after_hop (\<not> rd_credentials st) res (rd_session st)\<rparr>
           in case res of
                None \<Rightarrow> (st, Some Send_Raised)
              | Some r \<Rightarrow>
                  if \<not> cf_follow cf \<or> rsp_status r \<notin> set redirect_statuses \<or> response_location r = []
                  then (st\<lparr>rd_open := r # rd_open st\<rparr>, Some (Returned r (rd_history st)))
                  else if cf_limit cf \<le> i then (st, Some (Refused (Too_Many_Redirects (cf_limit cf))))
                  else case urljoin (rd_url st) (response_location r) of
                    None \<Rightarrow> (st\<lparr>rd_open := r # rd_open st\<rparr>, Some Join_Raised)
                  | Some next_url \<Rightarrow>
                      (case cf_check cf (2 * i + 1) next_url of
                         Inl e \<Rightarrow> (st, Some (Refused e))
                       | Inr _ \<Rightarrow>
                           (case redirect_method_and_kwargs (rd_method st) (rsp_status r)
                                   (rd_kwargs st) (rd_url st) next_url of
                              (m, kw) \<Rightarrow>
                                (st\<lparr>rd_method := m, rd_url := next_url, rd_kwargs := kw\<lparr>kw_params := None\<rparr>,
                                   rd_credentials := (rd_credentials st
                                     \<and> origin_of (rd_url st) = origin_of next_url),
                                   rd_history := rd_history st @ [r]\<rparr>, None)))))"

lemma redirect_round_continues:
  assumes "redirect_round cf st = (st', None)"
  shows "length (rd_history st') = Suc (length (rd_history st)) \<and> length (rd_history st) < cf_limit cf"
  using assms by (auto simp: redirect_round_def Let_def split: sum.splits option.splits if_split_asm prod.splits)

function redirect_loop :: "redirect_config \<Rightarrow> redirect_state \<Rightarrow> redirect_state \<times> request_outcome" where
  "redirect_loop cf st =
     (case redirect_round cf st of
        (st', Some out) \<Rightarrow> (st', out)
      | (st', None) \<Rightarrow> redirect_loop cf st')"
  by pat_completeness auto

termination
  by (relation "measure (\<lambda>(cf, st). cf_limit cf - length (rd_history st))")
    (auto dest!: redirect_round_continues [OF sym])

declare redirect_loop.simps [simp del]

text \<open>\<open>_request_with_validated_redirects\<close>; a negative limit is refused with a \<open>ValueError\<close>
  (\<open>None\<close>) before anything is sent.\<close>

definition str_upper_ascii :: "string \<Rightarrow> string" where
  "str_upper_ascii s = map (\<lambda>c. if 97 \<le> code c \<and> code c \<le> 122 then char_of (code c - 32) else c) s"

definition request_with_validated_redirects ::
  "(nat \<Rightarrow> string \<Rightarrow> outbound_error + destination) \<Rightarrow> sender \<Rightarrow> bool \<Rightarrow> int \<Rightarrow> string \<Rightarrow> string \<Rightarrow>
   request_kwargs \<Rightarrow> session_state \<Rightarrow> (redirect_state \<times> request_outcome) option" where
  "request_with_validated_redirects check sender follow max_redirects m url kw s =
     (if max_redirects < 0 then None
      else Some (redirect_loop
        \<lparr>cf_check = check, cf_sender = sender, cf_follow = follow, cf_limit = nat max_redirects\<rparr>
        \<lparr>rd_method = str_upper_ascii m, rd_url = url, rd_kwargs = kw, rd_session = s,
         rd_credentials = True, rd_history = [], rd_hops = [], rd_open = []\<rparr>))"

section \<open>Sessions with the pinned transport\<close>

text \<open>The policy attribute of a session: the identity of the resolver and the ports.\<close>

record transport =
  tp_policy :: "(nat \<times> nat set) option"
  tp_mounted :: bool
  tp_trust_env :: bool

definition install_pinned_transport :: "nat \<Rightarrow> nat set \<Rightarrow> transport \<Rightarrow> transport option" where
  "install_pinned_transport resolver ports t =
     (case tp_policy t of
        Some (r, p) \<Rightarrow>
          if r = resolver \<and> p = ports \<and> tp_mounted t then Some (t\<lparr>tp_trust_env := False\<rparr>) else None
      | None \<Rightarrow> Some \<lparr>tp_policy = Some (resolver, ports), tp_mounted = True, tp_trust_env = False\<rparr>)"

text \<open>The two entry points: \<open>SSRFProtectedSession.request\<close> follows redirects only when asked,
  \<open>safe_requests_request\<close> unless told otherwise.\<close>

definition protected_session_request ::
  "(nat \<Rightarrow> string \<Rightarrow> outbound_error + destination) \<Rightarrow> sender \<Rightarrow> bool option \<Rightarrow> int \<Rightarrow> string \<Rightarrow> string \<Rightarrow>
   request_kwargs \<Rightarrow> session_state \<Rightarrow> (redirect_state \<times> request_outcome) option" where
  "protected_session_request check sender allow_redirects =
     request_with_validated_redirects check sender
       (case allow_redirects of None \<Rightarrow> False | Some b \<Rightarrow> b)"

definition safe_requests_request ::
  "(nat \<Rightarrow> string \<Rightarrow> outbound_error + destination) \<Rightarrow> sender \<Rightarrow> bool option \<Rightarrow> int \<Rightarrow> string \<Rightarrow> string \<Rightarrow>
   request_kwargs \<Rightarrow> session_state \<Rightarrow> nat \<Rightarrow> nat set \<Rightarrow> transport \<Rightarrow>
   (transport \<times> (redirect_state \<times> request_outcome) option) option" where
  "safe_requests_request check sender allow_redirects max_redirects m url kw s resolver ports t =
     map_option (\<lambda>t'. (t', request_with_validated_redirects check sender
         (case allow_redirects of None \<Rightarrow> True | Some b \<Rightarrow> b) max_redirects m url kw s))
       (install_pinned_transport resolver ports t)"

section \<open>Where credentials go\<close>

definition clean_headers :: "header_list \<Rightarrow> bool" where
  "clean_headers hs \<longleftrightarrow> (\<forall>(k, v) \<in> set hs. str_lower k \<notin> set secret_headers)"

definition clean_kwargs :: "request_kwargs \<Rightarrow> bool" where
  "clean_kwargs kw \<longleftrightarrow> kw_auth kw = None \<and> kw_cookies kw = None
     \<and> (\<forall>hs. kw_headers kw = Some hs \<longrightarrow> clean_headers hs)"

text \<open>Neither the arguments of the call nor the session hold a credential.\<close>

definition no_secrets :: "hop \<Rightarrow> bool" where
  "no_secrets h \<longleftrightarrow> clean_kwargs (hop_kwargs h) \<and> ses_auth (hop_session h) = None
     \<and> ses_cookies (hop_session h) = [] \<and> clean_headers (ses_headers (hop_session h))"

lemma clean_headers_remove [simp]: "clean_headers (remove_headers secret_headers hs)"
  by (auto simp: clean_headers_def remove_headers_def)

lemma clean_headers_filter: "clean_headers hs \<Longrightarrow> clean_headers (remove_headers fs hs)"
  by (auto simp: clean_headers_def remove_headers_def)

lemma redirect_kwargs_clean:
  assumes "redirect_method_and_kwargs m status kw source target = (m', kw')"
    and "clean_kwargs kw \<or> origin_of source \<noteq> origin_of target"
  shows "clean_kwargs (kw'\<lparr>kw_params := None\<rparr>)"
proof -
  define hs where "hs = (case kw_headers kw of None \<Rightarrow> [] | Some h \<Rightarrow> h)"
  define h1 where "h1 = (if origin_of source \<noteq> origin_of target
    then remove_headers secret_headers hs else hs)"
  have "clean_headers hs" if "clean_kwargs kw"
    using that by (cases "kw_headers kw") (auto simp: hs_def clean_kwargs_def clean_headers_def)
  then have "clean_headers h1" using assms(2) by (auto simp: h1_def clean_headers_filter)
  then show ?thesis
    using assms clean_headers_filter [of h1 body_headers]
    unfolding redirect_method_and_kwargs_def Let_def hs_def [symmetric] h1_def [symmetric]
    by (auto simp: clean_kwargs_def strip_credentials_def strip_body_def split: if_split_asm)
qed

lemma session_for_hop_clean:
  "ses_auth (session_for_hop p True s) = None" "ses_cookies (session_for_hop p True s) = []"
  "clean_headers (ses_headers (session_for_hop p True s))"
  by (simp_all add: session_for_hop_def Let_def)

text \<open>The invariant of the loop, for the URL the caller asked for.\<close>

definition credentials_confined :: "string \<Rightarrow> redirect_state \<Rightarrow> bool" where
  "credentials_confined url st \<longleftrightarrow>
     (rd_credentials st \<longrightarrow> origin_of (rd_url st) = origin_of url
        \<and> (\<forall>h \<in> set (rd_hops st). origin_of (hop_url h) = origin_of url))
     \<and> (\<not> rd_credentials st \<longrightarrow> clean_kwargs (rd_kwargs st))
     \<and> (\<forall>a h b. rd_hops st = a @ h # b \<longrightarrow> no_secrets h
          \<or> (\<forall>g \<in> set (a @ [h]). origin_of (hop_url g) = origin_of url))"

lemma snoc_eq_split: "xs @ [x] = a @ h # b \<longleftrightarrow> (a = xs \<and> h = x \<and> b = []) \<or> (\<exists>c. b = c @ [x] \<and> xs = a @ h # c)"
  by (cases b rule: rev_cases) auto

lemma confined_hop:
  assumes "credentials_confined url st"
    and "h = \<lparr>hop_method = m, hop_url = rd_url st, hop_kwargs = rd_kwargs st,
      hop_session = session_for_hop p (\<not> rd_credentials st) s\<rparr>"
  shows "credentials_confined url (st\<lparr>rd_hops := rd_hops st @ [h], rd_session := s'\<rparr>)"
proof -
  have "no_secrets h" if "\<not> rd_credentials st"
    using assms that by (simp add: no_secrets_def credentials_confined_def session_for_hop_clean)
  moreover have "\<forall>g \<in> set (rd_hops st @ [h]). origin_of (hop_url g) = origin_of url" if "rd_credentials st"
    using assms that by (auto simp: credentials_confined_def)
  moreover have "rd_url (st\<lparr>rd_hops := rd_hops st @ [h], rd_session := s'\<rparr>) = rd_url st" by simp
  ultimately show ?thesis
    using assms(1) unfolding credentials_confined_def
    by (simp add: snoc_eq_split) blast
qed

lemma confined_next:
  assumes "credentials_confined url st"
    and "redirect_method_and_kwargs (rd_method st) status (rd_kwargs st) (rd_url st) next = (m, kw)"
  shows "credentials_confined url
    (st\<lparr>rd_method := m, rd_url := next, rd_kwargs := kw\<lparr>kw_params := None\<rparr>,
       rd_credentials := (rd_credentials st \<and> origin_of (rd_url st) = origin_of next),
       rd_history := hist\<rparr>)"
proof -
  have "clean_kwargs (kw\<lparr>kw_params := None\<rparr>)"
    if "\<not> (rd_credentials st \<and> origin_of (rd_url st) = origin_of next)"
    using redirect_kwargs_clean [OF assms(2)] that assms(1) by (auto simp: credentials_confined_def)
  then show ?thesis using assms(1) by (auto simp: credentials_confined_def)
qed

lemma confined_open: "credentials_confined url (st\<lparr>rd_open := l\<rparr>) \<longleftrightarrow> credentials_confined url st"
  by (simp add: credentials_confined_def)

lemma redirect_round_confined:
  assumes "credentials_confined url st" and "redirect_round cf st = (st', out)"
  shows "credentials_confined url st'"
proof -
  define i where "i = length (rd_history st)"
  define hop where "hop = \<lparr>hop_method = rd_method st, hop_url = rd_url st, hop_kwargs = rd_kwargs st,
    hop_session = session_for_hop (i \<noteq> 0) (\<not> rd_credentials st) (rd_session st)\<rparr>"
  define st1 where "st1 = st\<lparr>rd_hops := rd_hops st @ [hop],
    rd_session := session_after_hop (\<not> rd_credentials st) (cf_sender cf i hop) (rd_session st)\<rparr>"
  have one: "credentials_confined url st1"
    unfolding st1_def using confined_hop [OF assms(1) hop_def] by blast
  show ?thesis
    using assms one confined_open [where url = url and st = st1] confined_next [OF one]
    unfolding redirect_round_def Let_def i_def [symmetric] hop_def [symmetric] st1_def [symmetric]
    by (auto split: sum.splits option.splits if_split_asm prod.splits)
qed

lemma redirect_loop_continue:
  "redirect_round cf st = (st', None) \<Longrightarrow> redirect_loop cf st = redirect_loop cf st'"
  by (simp add: redirect_loop.simps [of cf st])

lemma redirect_loop_end: "redirect_round cf st = (st', Some out) \<Longrightarrow> redirect_loop cf st = (st', out)"
  by (simp add: redirect_loop.simps [of cf st])

text \<open>An invariant of the rounds that go on, and what the last round makes of it.\<close>

lemma redirect_loop_rule:
  assumes "P st" and "\<And>st st'. P st \<Longrightarrow> redirect_round cf st = (st', None) \<Longrightarrow> P st'"
    and "\<And>st st' out. P st \<Longrightarrow> redirect_round cf st = (st', Some out) \<Longrightarrow> R st' out"
  shows "R (fst (redirect_loop cf st)) (snd (redirect_loop cf st))"
  using assms
proof (induction cf st rule: redirect_loop.induct)
  case (1 cf st)
  obtain st' out where r: "redirect_round cf st = (st', out)" by (metis surj_pair)
  show ?case
  proof (cases out)
    case None
    have "P st'" using "1.prems"(2) [OF "1.prems"(1)] r None by simp
    then show ?thesis
      using r None "1.IH" [OF r [symmetric] None] "1.prems"(2,3)
      by (simp add: redirect_loop.simps [of cf st])
  next
    case (Some o')
    then show ?thesis using r "1.prems"(3) [OF "1.prems"(1)] by (simp add: redirect_loop.simps [of cf st])
  qed
qed

definition start_state :: "string \<Rightarrow> string \<Rightarrow> request_kwargs \<Rightarrow> session_state \<Rightarrow> redirect_state" where
  "start_state m url kw s = \<lparr>rd_method = str_upper_ascii m, rd_url = url, rd_kwargs = kw,
     rd_session = s, rd_credentials = True, rd_history = [], rd_hops = [], rd_open = []\<rparr>"

lemma request_with_validated_redirects_Some:
  "request_with_validated_redirects check sender follow limit m url kw s = Some (st, out) \<longleftrightarrow>
   0 \<le> limit \<and> redirect_loop \<lparr>cf_check = check, cf_sender = sender, cf_follow = follow,
     cf_limit = nat limit\<rparr> (start_state m url kw s) = (st, out)"
  by (auto simp: request_with_validated_redirects_def start_state_def)

definition session_kept :: "session_state \<Rightarrow> session_state \<Rightarrow> bool" where
  "session_kept s s' \<longleftrightarrow> ses_params s' = ses_params s \<and> ses_auth s' = ses_auth s
     \<and> ses_headers s' = ses_headers s \<and> (\<exists>c. ses_cookies s' = ses_cookies s @ c)"

lemma session_kept_refl [simp]: "session_kept s s"
  by (simp add: session_kept_def)

lemma session_kept_after: "session_kept s t \<Longrightarrow> session_kept s (session_after_hop b res t)"
  by (cases res) (auto simp: session_kept_def session_after_hop_def)

lemma redirect_round_session:
  assumes "session_kept s (rd_session st)" and "redirect_round cf st = (st', out)"
  shows "session_kept s (rd_session st')"
  using assms session_kept_after [OF assms(1)]
  by (auto simp: redirect_round_def Let_def split: sum.splits option.splits if_split_asm prod.splits)

section \<open>Checked and bounded\<close>

definition hops_checked :: "redirect_config \<Rightarrow> hop list \<Rightarrow> bool" where
  "hops_checked cf hops \<longleftrightarrow>
     (\<forall>i < length hops. \<exists>d. cf_check cf (2 * i) (hop_url (hops ! i)) = Inr d)"

lemma hops_checked_snoc:
  "hops_checked cf (hops @ [h]) \<longleftrightarrow>
   hops_checked cf hops \<and> (\<exists>d. cf_check cf (2 * length hops) (hop_url h) = Inr d)"
  by (auto simp: hops_checked_def nth_append less_Suc_eq)

definition loop_running :: "redirect_config \<Rightarrow> redirect_state \<Rightarrow> bool" where
  "loop_running cf st \<longleftrightarrow> length (rd_hops st) = length (rd_history st)
     \<and> length (rd_history st) \<le> cf_limit cf \<and> hops_checked cf (rd_hops st) \<and> rd_open st = []"

definition loop_ended :: "redirect_config \<Rightarrow> redirect_state \<Rightarrow> request_outcome \<Rightarrow> bool" where
  "loop_ended cf st out \<longleftrightarrow> length (rd_hops st) \<le> Suc (cf_limit cf) \<and> hops_checked cf (rd_hops st)
     \<and> (case out of
          Returned r history \<Rightarrow> rd_open st = [r] \<and> length history = length (rd_hops st) - 1
            \<and> (cf_follow cf \<and> rsp_status r \<in> set redirect_statuses \<longrightarrow> response_location r = [])
        | Refused e \<Rightarrow> rd_open st = []
            \<and> ((\<exists>i u. cf_check cf i u = Inl e)
               \<or> e = Too_Many_Redirects (cf_limit cf) \<and> length (rd_hops st) = Suc (cf_limit cf))
        | Join_Raised \<Rightarrow> length (rd_open st) = 1
        | Send_Raised \<Rightarrow> rd_open st = [])"

lemma loop_running_step:
  assumes "loop_running cf st" and "redirect_round cf st = (st', None)"
  shows "loop_running cf st'"
  using assms
  by (auto simp: redirect_round_def loop_running_def Let_def hops_checked_snoc
      split: sum.splits option.splits if_split_asm prod.splits)

lemma loop_running_end:
  assumes "loop_running cf st" and "redirect_round cf st = (st', Some out)"
  shows "loop_ended cf st' out"
  using assms
  by (auto simp: redirect_round_def loop_running_def loop_ended_def Let_def hops_checked_snoc
      split: sum.splits option.splits if_split_asm prod.splits) (blast intro: exI)+

section \<open>Properties\<close>

text \<open>C24. Credentials stay with the origin they were given for: as soon as one hop of a request has
  gone to another origin (scheme, host, port) than the URL that was asked for, that hop and every
  later one, also back at the first origin, carries no authentication, no cookies and none of the
  secret headers, neither from the call nor from the session; and the session's parameters,
  authentication and headers are afterwards what they were.\<close>

theorem credentials_stay_with_origin:
  assumes "request_with_validated_redirects check sender follow limit m url kw s = Some (st, out)"
    and "rd_hops st = a @ h # b" and "g \<in> set (a @ [h])" and "origin_of (hop_url g) \<noteq> origin_of url"
  shows "kw_auth (hop_kwargs h) = None \<and> kw_cookies (hop_kwargs h) = None
    \<and> ses_auth (hop_session h) = None \<and> ses_cookies (hop_session h) = []
    \<and> (\<forall>(k, v) \<in> set (case kw_headers (hop_kwargs h) of None \<Rightarrow> [] | Some hs \<Rightarrow> hs)
         \<union> set (ses_headers (hop_session h)). str_lower k \<notin> set secret_headers)
    \<and> ses_params (rd_session st) = ses_params s \<and> ses_auth (rd_session st) = ses_auth s
    \<and> ses_headers (rd_session st) = ses_headers s"
proof -
  define cf where "cf = \<lparr>cf_check = check, cf_sender = sender, cf_follow = follow, cf_limit = nat limit\<rparr>"
  have loop: "redirect_loop cf (start_state m url kw s) = (st, out)"
    using assms(1) unfolding request_with_validated_redirects_Some cf_def by simp
  have "credentials_confined url (start_state m url kw s)"
    "session_kept s (rd_session (start_state m url kw s))"
    by (simp_all add: credentials_confined_def start_state_def)
  then have "credentials_confined url (fst (redirect_loop cf (start_state m url kw s)))"
    "session_kept s (rd_session (fst (redirect_loop cf (start_state m url kw s))))"
    using redirect_loop_rule [where cf = cf and P = "credentials_confined url"
        and R = "\<lambda>st out. credentials_confined url st"] redirect_round_confined
      redirect_loop_rule [where cf = cf and P = "\<lambda>st. session_kept s (rd_session st)"
        and R = "\<lambda>st out. session_kept s (rd_session st)"] redirect_round_session by blast+
  then have conf: "credentials_confined url st" and kept: "session_kept s (rd_session st)"
    by (simp_all add: loop)
  have "no_secrets h" using conf assms(2-4) unfolding credentials_confined_def by blast
  then show ?thesis
    using kept by (cases "kw_headers (hop_kwargs h)")
      (auto simp: no_secrets_def clean_kwargs_def clean_headers_def session_kept_def)
qed



text \<open>A redirect from one host to another and back: the second and third hop carry no credentials.\<close>

definition demo_sender :: sender where
  "demo_sender = (\<lambda>i _. Some (\<lparr>rsp_status = (if i < 2 then 302 else 200),
     rsp_headers = (\<lambda>k. if k = ''location''
       then (if i = 0 then Some ''http://b.org/'' else Some ''http://a.org/'') else None),
     rsp_set_cookies = []\<rparr>))"

definition demo_kwargs :: request_kwargs where
  "demo_kwargs = \<lparr>kw_params = None, kw_auth = Some ''token'', kw_headers = Some [(''Cookie'', ''c'')],
     kw_cookies = None, kw_data = None, kw_json = None, kw_files = None, kw_content = None\<rparr>"

definition demo_session :: session_state where
  "demo_session = \<lparr>ses_params = [], ses_auth = Some ''pw'', ses_headers = [(''X-Api-Key'', ''k'')],
     ses_cookies = [(''sid'', ''1'')]\<rparr>"

definition demo_check :: "nat \<Rightarrow> string \<Rightarrow> outbound_error + destination" where
  "demo_check = (\<lambda>n url. Inr (demo_destination\<lparr>dst_url := url\<rparr>))"

lemma demo_join:
  "urljoin ''http://a.org/'' ''http://b.org/'' = Some ''http://b.org/''"
  "urljoin ''http://b.org/'' ''http://a.org/'' = Some ''http://a.org/''"
  "origin_of ''http://b.org/'' \<noteq> origin_of ''http://a.org/''"
  by code_simp+

lemma demo_run:
  "map_option (\<lambda>(st, out). map hop_url (rd_hops st))
     (request_with_validated_redirects demo_check demo_sender True 5 ''GET'' ''http://a.org/''
        demo_kwargs demo_session)
   = Some [''http://a.org/'', ''http://b.org/'', ''http://a.org/'']"
proof -
  obtain m1 k1 where k1: "redirect_method_and_kwargs (str_upper_ascii ''GET'') 302 demo_kwargs
      ''http://a.org/'' ''http://b.org/'' = (m1, k1)" by (metis surj_pair)
  obtain m2 k2 where k2: "redirect_method_and_kwargs m1 302 (k1\<lparr>kw_params := None\<rparr>)
      ''http://b.org/'' ''http://a.org/'' = (m2, k2)" by (metis surj_pair)
  show ?thesis
    by (simp add: request_with_validated_redirects_def redirect_loop_continue redirect_loop_end
        redirect_round_def Let_def demo_check_def demo_join demo_sender_def redirect_statuses_def response_location_def k1 k2)
qed

theorem credentials_stay_with_origin_witness:
  "\<exists>st out a h. request_with_validated_redirects demo_check demo_sender True 5 ''GET'' ''http://a.org/''
      demo_kwargs demo_session = Some (st, out)
    \<and> rd_hops st = a @ [h] \<and> hop_url h = ''http://a.org/''
    \<and> kw_auth (hop_kwargs h) = None \<and> ses_auth (hop_session h) = None"
proof -
  obtain st out where r: "request_with_validated_redirects demo_check demo_sender True 5 ''GET''
      ''http://a.org/'' demo_kwargs demo_session = Some (st, out)"
    and "map hop_url (rd_hops st) = [''http://a.org/'', ''http://b.org/'', ''http://a.org/'']"
    using demo_run by (auto simp: map_option_eq_Some)
  then obtain h0 h1 h2 where hops: "rd_hops st = [h0, h1] @ h2 # []"
    and u: "hop_url h1 = ''http://b.org/''" "hop_url h2 = ''http://a.org/''"
    by (auto simp: map_eq_Cons_conv)
  have "origin_of (hop_url h1) \<noteq> origin_of ''http://a.org/''" unfolding u by (rule demo_join(3))
  from credentials_stay_with_origin [OF r hops _ this]
  have "kw_auth (hop_kwargs h2) = None" "ses_auth (hop_session h2) = None" by simp_all
  then show ?thesis using r hops u(2) by (metis append_Cons append_Nil)
qed

end
