(* ===== verification/Browser_Guard.thy ===== *)
theory Browser_Guard
  imports Outbound_Policy
begin

text \<open>
  The guard on a Playwright context (\<^verbatim>\<open>backend/outbound_security.py\<close>): every request the
  browser makes is intercepted, checked and settled. Playwright is outside the repository: what
  its objects do when they are called (accept the call or raise) is a parameter of each call.
\<close>

section \<open>Redacted URLs\<close>

text \<open>\<open>_redact_url\<close>; \<open>None\<close> is the \<open>ValueError\<close> of the \<open>port\<close> attribute, which is read
  outside the \<open>try\<close>.\<close>

definition redact_url :: "string \<Rightarrow> string option" where
  "redact_url value =
     (case urlsplit value of
        None \<Rightarrow> Some ''<unparsable-url>''
      | Some parts \<Rightarrow>
          (let host = (case url_hostname parts of None \<Rightarrow> [] | Some h \<Rightarrow> h) in
           map_option (\<lambda>p.
             take 200 (url_scheme parts @ ''://'' @ host
               @ (case p of Some n \<Rightarrow> if n = 0 then [] else CHR '':'' # show_nat n | None \<Rightarrow> [])
               @ url_path parts)) (url_port parts)))"

section \<open>Settling a route\<close>

datatype route_call = Continue | Abort

record route =
  rt_settled :: bool
  rt_calls :: "route_call list"     \<comment> \<open>the calls made on the route, newest first\<close>

datatype settlement = Duplicate | Continued | Aborted | Unsettled | Escaped

text \<open>\<open>_settle_route\<close>: \<open>can_mark\<close> is whether the attribute can be set on the object, \<open>works\<close>
  whether the call on the route succeeds. \<open>Escaped\<close>: an exception leaves the function.\<close>

definition settle_route :: "bool \<Rightarrow> bool \<Rightarrow> bool \<Rightarrow> string \<Rightarrow> route \<Rightarrow> route \<times> settlement" where
  "settle_route can_mark works allow url r =
     (if rt_settled r then (r, Duplicate)
      else (let call = (if allow then Continue else Abort);
                r' = r\<lparr>rt_settled := can_mark, rt_calls := call # rt_calls r\<rparr>
            in (r', if works then (if allow then Continued else Aborted)
                    else case redact_url url of None \<Rightarrow> Escaped | Some _ \<Rightarrow> Unsettled)))"

section \<open>Redirect depth\<close>

text \<open>Playwright's request objects: each names the request it was redirected from. The loop walks
  the chain and refuses a cycle.\<close>

type_synonym chain = "(nat \<times> nat) list"

function depth_from :: "chain \<Rightarrow> nat option \<Rightarrow> nat set \<Rightarrow> nat \<Rightarrow> outbound_error + nat" where
  "depth_from chain None seen depth = Inr depth"
| "depth_from chain (Some current) seen depth =
     (if current \<in> seen then Inl Redirect_Cycle
      else depth_from chain (map_of chain current) (insert current seen) (Suc depth))"
  by pat_completeness auto

termination
proof (relation "measure (\<lambda>(chain, current, seen, depth).
    2 * card (fst ` set chain - seen) + (if current = None then 0 else 1))")
  fix chain current seen depth
  assume fresh: "current \<notin> (seen :: nat set)"
  show "((chain, map_of chain current, insert current seen, Suc depth), chain, Some current, seen, depth)
    \<in> measure (\<lambda>(chain, current, seen, depth).
        2 * card (fst ` set chain - seen) + (if current = None then 0 else 1))"
  proof (cases "current \<in> fst ` set chain")
    case True
    then have "fst ` set chain - insert current seen \<subset> fst ` set chain - seen" using fresh by auto
    then have "card (fst ` set chain - insert current seen) < card (fst ` set chain - seen)"
      by (intro psubset_card_mono) auto
    then show ?thesis by simp
  next
    case False
    then have "map_of chain current = None" "fst ` set chain - insert current seen = fst ` set chain - seen"
      by (auto simp: map_of_eq_None_iff)
    then show ?thesis by simp
  qed
qed simp

definition redirect_depth :: "chain \<Rightarrow> nat \<Rightarrow> outbound_error + nat" where
  "redirect_depth chain request = depth_from chain (map_of chain request) {} 0"

section \<open>The guard\<close>

text \<open>What the validator did: it accepted, raised an \<open>OutboundSecurityError\<close>, or raised
  something else.\<close>

datatype verdict = Accepts | Rejects outbound_error | Crashes

definition verdict_of :: "outbound_error + destination \<Rightarrow> verdict" where
  "verdict_of r = (case r of Inl e \<Rightarrow> Rejects e | Inr _ \<Rightarrow> Accepts)"

definition guard_verdict :: "nat \<Rightarrow> chain \<Rightarrow> nat \<Rightarrow> verdict \<Rightarrow> verdict" where
  "guard_verdict limit chain request validated =
     (case redirect_depth chain request of
        Inl e \<Rightarrow> Rejects e
      | Inr depth \<Rightarrow> if limit < depth then Rejects (Too_Many_Redirects limit) else validated)"

record guard_call =
  gc_request :: nat
  gc_url :: string
  gc_chain :: chain
  gc_validated :: verdict
  gc_can_mark :: bool
  gc_works :: bool

text \<open>One interception: the settled route, the reported errors, and whether an exception escaped
  into the dispatcher. A callback that raises is logged and ignored, so reporting is a list.\<close>

datatype block_report = Blocked outbound_error | Validation_Failed

definition guard :: "nat \<Rightarrow> guard_call \<Rightarrow> route \<Rightarrow> route \<times> block_report list \<times> settlement" where
  "guard limit c r =
     (case guard_verdict limit (gc_chain c) (gc_request c) (gc_validated c) of
        Accepts \<Rightarrow>
          (case settle_route (gc_can_mark c) (gc_works c) True (gc_url c) r of (r', s) \<Rightarrow> (r', [], s))
      | Rejects e \<Rightarrow>
          (case settle_route (gc_can_mark c) (gc_works c) False (gc_url c) r of (r', s) \<Rightarrow>
             (r', [Blocked e], s))
      | Crashes \<Rightarrow>
          (case redact_url (gc_url c) of
             None \<Rightarrow> (r, [], Escaped)
           | Some _ \<Rightarrow>
               (case settle_route (gc_can_mark c) (gc_works c) False (gc_url c) r of (r', s) \<Rightarrow>
                  (r', [Validation_Failed], s))))"

fun guard_all :: "nat \<Rightarrow> guard_call list \<Rightarrow> route \<Rightarrow> route" where
  "guard_all limit [] r = r"
| "guard_all limit (c # cs) r = guard_all limit cs (fst (guard limit c r))"

text \<open>\<open>block_web_socket\<close>: a socket is never connected; the result is whether an exception
  escaped.\<close>

definition block_web_socket :: "bool \<Rightarrow> string \<Rightarrow> block_report \<times> settlement" where
  "block_web_socket works url =
     (Blocked (Boundary_Error ''WebSocket''),
      if works then Aborted else case redact_url url of None \<Rightarrow> Escaped | Some _ \<Rightarrow> Unsettled)"

text \<open>\<open>safe_page_goto\<close>: the navigation is handed to Playwright only after the check.\<close>

definition safe_page_goto ::
  "(string \<Rightarrow> outbound_error + destination) \<Rightarrow> (string \<Rightarrow> 'page) \<Rightarrow> string \<Rightarrow> outbound_error + 'page" where
  "safe_page_goto check goto url = bind_res (check url) (\<lambda>_. Inr (goto url))"

section \<open>Facts\<close>

lemma settle_route_calls:
  assumes "settle_route can_mark works allow url r = (r', s)"
  shows "rt_calls r' = (if rt_settled r then rt_calls r else (if allow then Continue else Abort) # rt_calls r)
    \<and> (rt_settled r \<longrightarrow> rt_settled r') \<and> (can_mark \<longrightarrow> rt_settled r')"
  using assms by (auto simp: settle_route_def Let_def)

lemma settle_route_not_escaped:
  "redact_url url \<noteq> None \<Longrightarrow> settle_route can_mark works allow url r = (r', s) \<Longrightarrow> s \<noteq> Escaped"
  by (auto simp: settle_route_def Let_def split: if_split_asm)

lemma guard_not_escaped:
  assumes "redact_url (gc_url c) \<noteq> None"
  shows "snd (snd (guard limit c r)) \<noteq> Escaped"
  using assms settle_route_not_escaped [OF assms]
  by (cases "redact_url (gc_url c)") (auto simp: guard_def split: verdict.split prod.split)

lemma guard_calls:
  assumes "guard limit c r = (r', reports, s)" and "gc_can_mark c"
  shows "rt_calls r' = rt_calls r \<and> (rt_settled r \<longrightarrow> rt_settled r')
    \<or> \<not> rt_settled r \<and> rt_settled r' \<and> (\<exists>call. rt_calls r' = call # rt_calls r
      \<and> (call = Continue \<longrightarrow> guard_verdict limit (gc_chain c) (gc_request c) (gc_validated c) = Accepts))"
proof (cases "guard_verdict limit (gc_chain c) (gc_request c) (gc_validated c)")
  case Accepts
  then obtain st where "settle_route True (gc_works c) True (gc_url c) r = (r', st)"
    using assms by (auto simp: guard_def split: prod.splits)
  from settle_route_calls [OF this] Accepts show ?thesis by auto
next
  case (Rejects e)
  then obtain st where "settle_route True (gc_works c) False (gc_url c) r = (r', st)"
    using assms by (auto simp: guard_def split: prod.splits)
  from settle_route_calls [OF this] show ?thesis by auto
next
  case Crashes
  show ?thesis
  proof (cases "redact_url (gc_url c)")
    case (Some u)
    then obtain st where "settle_route True (gc_works c) False (gc_url c) r = (r', st)"
      using assms Crashes by (auto simp: guard_def split: prod.splits)
    from settle_route_calls [OF this] show ?thesis by auto
  qed (use assms Crashes in \<open>simp add: guard_def\<close>)
qed

lemma depth_from_le:
  "depth_from chain current seen depth = Inr n \<Longrightarrow> depth \<le> n"
  by (induction chain current seen depth rule: depth_from.induct) (auto split: if_split_asm)

lemma guard_all_once:
  assumes "\<forall>c \<in> set cs. gc_can_mark c"
  shows "(rt_settled r \<longrightarrow> rt_calls (guard_all limit cs r) = rt_calls r)
    \<and> (\<not> rt_settled r \<longrightarrow> rt_calls (guard_all limit cs r) = rt_calls r
       \<or> (\<exists>call. rt_calls (guard_all limit cs r) = call # rt_calls r
           \<and> (call = Continue \<longrightarrow> (\<exists>c \<in> set cs.
                guard_verdict limit (gc_chain c) (gc_request c) (gc_validated c) = Accepts))))"
  using assms
proof (induction cs arbitrary: r)
  case (Cons c cs)
  obtain r' reports s where g: "guard limit c r = (r', reports, s)" by (metis prod_cases3)
  have m: "gc_can_mark c" using Cons.prems by simp
  note step = guard_calls [OF g m]
  have keep: "rt_settled r \<longrightarrow> rt_settled r'" using step by blast
  have IH: "(rt_settled r' \<longrightarrow> rt_calls (guard_all limit cs r') = rt_calls r')
    \<and> (\<not> rt_settled r' \<longrightarrow> rt_calls (guard_all limit cs r') = rt_calls r'
       \<or> (\<exists>call. rt_calls (guard_all limit cs r') = call # rt_calls r'
           \<and> (call = Continue \<longrightarrow> (\<exists>c \<in> set cs.
                guard_verdict limit (gc_chain c) (gc_request c) (gc_validated c) = Accepts))))"
    using Cons by simp
  have e: "guard_all limit (c # cs) r = guard_all limit cs r'" using g by simp
  have same: "rt_calls r' = rt_calls r" if "rt_settled r" using step that by blast
  show ?case unfolding e using step keep IH same by (cases "rt_settled r"; cases "rt_settled r'") auto
qed simp

section \<open>Properties\<close>

definition new_route :: route where
  "new_route = \<lparr>rt_settled = False, rt_calls = []\<rparr>"

lemma accepted_redactable:
  assumes "validate_url idna lookup ports url = Inr d"
  shows "redact_url url \<noteq> None"
proof -
  from assms obtain x where "check_url_parts ports url = Inr x" by (rule validate_url_Inr)
  then obtain u p where "urlsplit url = Some u" "url_port u = Some p"
    by (cases "urlsplit url"; cases "url_port (the (urlsplit url))") (simp_all add: check_url_parts_def)
  then show ?thesis by (simp add: redact_url_def Let_def)
qed


definition demo_guard_call :: "verdict \<Rightarrow> guard_call" where
  "demo_guard_call v = \<lparr>gc_request = 2, gc_url = ''http://a.org/'', gc_chain = [(2, 1), (1, 0)],
     gc_validated = v, gc_can_mark = True, gc_works = False\<rparr>"


text \<open>\<open>_settle_route\<close> promises never to raise. With a port that is out of range and a route whose
  target is gone, writing the log line raises.\<close>

theorem unprintable_port_escapes:
  "snd (settle_route True False False ''http://a.org:99999/'' new_route) = Escaped"
  by code_simp

end
