(* ===== verification/Browser_Procs.thy ===== *)
theory Browser_Procs
  imports Py_Stdlib "HOL-Library.Code_Target_Nat"
begin

text \<open>
  Processes of the protected browser (\<^verbatim>\<open>backend/outbound_security.py\<close>): reading
  \<open>/proc\<close>, the identity of a process as its pid and start time, the tree below a process,
  and the bounded teardown of the recorded tree. The process table is what one reading of
  \<open>/proc\<close> shows; it changes between readings.
\<close>

section \<open>The process table\<close>

record process =
  prc_stat :: string               \<comment> \<open>contents of \<open>/proc/pid/stat\<close>\<close>
  prc_exe :: "string option"       \<comment> \<open>real path of \<open>/proc/pid/exe\<close>; \<open>None\<close>: not readable\<close>
  prc_cmdline :: "string option"   \<comment> \<open>NUL separated\<close>

type_synonym process_table = "(nat \<times> process) list"

text \<open>\<open>int(text)\<close> on the decimal fields of the kernel.\<close>

definition read_int :: "string \<Rightarrow> int option" where
  "read_int s =
     (case s of
        c # cs \<Rightarrow> if c = CHR ''-'' then map_option (\<lambda>n. - int n) (read_nat cs)
                  else map_option int (read_nat s)
      | [] \<Rightarrow> None)"

text \<open>The fields after the last closing parenthesis: state, parent, and the 20th, the start time.\<close>

definition after_last_paren :: "string \<Rightarrow> string option" where
  "after_last_paren s =
     (if CHR '')'' \<in> set s then Some (rev (takeWhile (\<lambda>c. c \<noteq> CHR '')'') (rev s))) else None)"

definition read_proc_stat :: "process_table \<Rightarrow> nat \<Rightarrow> (int \<times> int \<times> string) option" where
  "read_proc_stat table pid =
     (case map_of table pid of
        None \<Rightarrow> None
      | Some p \<Rightarrow>
          (case after_last_paren (prc_stat p) of
             None \<Rightarrow> None
           | Some tail \<Rightarrow>
               (let rest = split_ws tail in
                if length rest < 20 then None
                else (case (read_int (rest ! 1), read_int (rest ! 19)) of
                        (Some ppid, Some start) \<Rightarrow> Some (ppid, start, rest ! 0)
                      | _ \<Rightarrow> None))))"

definition proc_start_time :: "process_table \<Rightarrow> nat \<Rightarrow> int option" where
  "proc_start_time table pid = map_option (\<lambda>(_, start, _). start) (read_proc_stat table pid)"

definition proc_alive :: "process_table \<Rightarrow> nat \<times> int \<Rightarrow> bool" where
  "proc_alive table = (\<lambda>(pid, start).
     case read_proc_stat table pid of
       None \<Rightarrow> False
     | Some (_, current_start, state) \<Rightarrow>
         current_start = start \<and> state \<notin> set [''Z'', ''X'', ''x''])"

type_synonym recorded = "(nat \<times> int) list"

definition live_recorded_procs :: "process_table \<Rightarrow> recorded \<Rightarrow> nat list" where
  "live_recorded_procs table recs = map fst (filter (proc_alive table) recs)"

section \<open>Descendants\<close>

text \<open>One pass over the parent map, and passes until nothing changes.\<close>

definition closure_pass :: "(nat \<times> int) list \<Rightarrow> nat set \<Rightarrow> nat set" where
  "closure_pass parents result =
     fold (\<lambda>(pid, ppid) r. if pid \<notin> r \<and> 0 \<le> ppid \<and> nat ppid \<in> r then insert pid r else r) parents result"

lemma closure_pass_mono: "result \<subseteq> closure_pass parents result"
  unfolding closure_pass_def by (induction parents arbitrary: result) (auto, blast+)

lemma closure_pass_pids: "closure_pass parents result \<subseteq> result \<union> fst ` set parents"
  unfolding closure_pass_def by (induction parents arbitrary: result) (auto split: if_splits, blast+)

function closure_loop :: "(nat \<times> int) list \<Rightarrow> nat set \<Rightarrow> nat set" where
  "closure_loop parents result =
     (let r = closure_pass parents result in if r = result then result else closure_loop parents r)"
  by pat_completeness auto

termination
proof (relation "measure (\<lambda>(parents, result). card (fst ` set parents - result))")
  fix parents result r
  assume r: "r = closure_pass parents result" "r \<noteq> (result :: nat set)"
  then obtain p where "p \<in> r" "p \<notin> result" using closure_pass_mono by blast
  then have "p \<in> fst ` set parents" using closure_pass_pids r(1) by blast
  then have "fst ` set parents - r \<subset> fst ` set parents - result"
    using \<open>p \<in> r\<close> \<open>p \<notin> result\<close> closure_pass_mono [of result parents] r(1) by blast
  then show "((parents, r), parents, result) \<in> measure (\<lambda>(parents, result). card (fst ` set parents - result))"
    by (simp add: psubset_card_mono)
qed simp

declare closure_loop.simps [simp del]

definition parent_map :: "process_table \<Rightarrow> (nat \<times> int) list" where
  "parent_map table = concat (map (\<lambda>(pid, _).
     case read_proc_stat table pid of None \<Rightarrow> [] | Some (ppid, _, _) \<Rightarrow> [(pid, ppid)]) table)"

definition descendant_pids :: "process_table \<Rightarrow> nat set \<Rightarrow> nat set" where
  "descendant_pids table roots = closure_loop (parent_map table) roots"

section \<open>The browser's processes\<close>

definition proc_is_approved_chromium :: "string \<Rightarrow> string \<Rightarrow> process \<Rightarrow> bool" where
  "proc_is_approved_chromium executable_real marker p \<longleftrightarrow>
     prc_exe p = Some executable_real
     \<or> (case prc_cmdline p of
          None \<Rightarrow> False
        | Some raw \<Rightarrow>
            (let cmdline = map (\<lambda>c. if code c = 0 then CHR '' '' else c) raw in
             executable_real \<noteq> [] \<and> contains executable_real cmdline \<or> contains marker cmdline))"

definition revision_marker :: string where
  "revision_marker = ''chromium-1234''"

record proc_env =
  pe_filesystem :: bool      \<comment> \<open>Linux with \<open>/proc\<close>\<close>
  pe_my_pid :: nat
  pe_executable :: string    \<comment> \<open>real path of the approved executable\<close>

definition capture_browser_procs :: "proc_env \<Rightarrow> process_table \<Rightarrow> recorded" where
  "capture_browser_procs env table =
     (if \<not> pe_filesystem env then []
      else (let tree = descendant_pids table {pe_my_pid env} in
        concat (map (\<lambda>(pid, p).
          if pid \<in> tree \<and> pid \<noteq> pe_my_pid env
             \<and> proc_is_approved_chromium (pe_executable env) revision_marker p
          then (case proc_start_time table pid of None \<Rightarrow> [] | Some start \<Rightarrow> [(pid, start)])
          else []) table)))"

definition find_playwright_driver_proc :: "proc_env \<Rightarrow> process_table \<Rightarrow> (nat \<times> int) option" where
  "find_playwright_driver_proc env table =
     (if \<not> pe_filesystem env then None
      else (let tree = descendant_pids table {pe_my_pid env} in
        case concat (map (\<lambda>(pid, p).
          if pid \<in> tree \<and> pid \<noteq> pe_my_pid env
          then (case prc_cmdline p of
                  None \<Rightarrow> []
                | Some raw \<Rightarrow>
                    (let cmdline = str_lower (map (\<lambda>c. if code c = 0 then CHR '' '' else c) raw) in
                     if contains ''playwright'' cmdline
                        \<and> (contains ''cli.js'' cmdline \<or> contains ''run-driver'' cmdline
                           \<or> contains ''/driver/node'' cmdline)
                     then (case proc_start_time table pid of None \<Rightarrow> [] | Some start \<Rightarrow> [(pid, start)])
                     else []))
          else []) table) of
          [] \<Rightarrow> None
        | d # _ \<Rightarrow> Some d))"

definition any_approved_chromium_alive :: "proc_env \<Rightarrow> process_table \<Rightarrow> bool" where
  "any_approved_chromium_alive env table \<longleftrightarrow> pe_filesystem env
     \<and> list_ex (\<lambda>(pid, p). proc_is_approved_chromium (pe_executable env) revision_marker p) table"

section \<open>Teardown\<close>

definition live_tree :: "proc_env \<Rightarrow> process_table \<Rightarrow> recorded \<Rightarrow> nat set" where
  "live_tree env table recs =
     (let live_roots = set (live_recorded_procs table recs) in
      if live_roots = {} then {}
      else descendant_pids table live_roots - {pe_my_pid env} \<union> live_roots)"

datatype os_signal = Sigterm | Sigkill

text \<open>\<open>_wait_until\<close>: the readings of one wait, in order; the wait ends with the first that
  satisfies the predicate or with the last one before the deadline.\<close>

definition wait_until :: "(process_table \<Rightarrow> bool) \<Rightarrow> process_table list \<Rightarrow> bool" where
  "wait_until P readings \<longleftrightarrow> list_ex P readings"

definition roots_gone :: "recorded \<Rightarrow> process_table \<Rightarrow> bool" where
  "roots_gone recs table \<longleftrightarrow> live_recorded_procs table recs = []"

text \<open>What the teardown sees: three waits and the readings for the two signals.\<close>

record reap_view =
  rv_first :: "process_table list"
  rv_term :: process_table
  rv_second :: "process_table list"
  rv_kill :: process_table
  rv_third :: "process_table list"

definition reap_browser_process_tree ::
  "proc_env \<Rightarrow> reap_view \<Rightarrow> recorded \<Rightarrow> bool \<times> (os_signal \<times> nat set) list" where
  "reap_browser_process_tree env v recs =
     (if recs = [] then (True, [])
      else if \<not> pe_filesystem env then (False, [])
      else if wait_until (roots_gone recs) (rv_first v) then (True, [])
      else (let term_targets = live_tree env (rv_term v) recs;
                sent = (if term_targets = {} then [] else [(Sigterm, term_targets)])
            in if wait_until (roots_gone recs) (rv_second v) then (True, sent)
               else (let kill_targets = live_tree env (rv_kill v) recs;
                         sent = sent @ (if kill_targets = {} then [] else [(Sigkill, kill_targets)])
                     in (wait_until (roots_gone recs) (rv_third v), sent))))"

text \<open>\<open>_reap_orphaned_launch\<close>: what appeared since the launch began. A capture that raises is
  \<open>None\<close>.\<close>

definition orphans :: "recorded \<Rightarrow> recorded \<Rightarrow> recorded" where
  "orphans before after = filter (\<lambda>(pid, start). map_of before pid \<noteq> Some start) after"

definition reap_orphaned_launch ::
  "proc_env \<Rightarrow> reap_view \<Rightarrow> recorded \<Rightarrow> recorded option \<Rightarrow> (os_signal \<times> nat set) list" where
  "reap_orphaned_launch env v before after =
     (case after of
        None \<Rightarrow> []
      | Some procs \<Rightarrow>
          (if orphans before procs = [] then []
           else snd (reap_browser_process_tree env v (orphans before procs))))"

text \<open>\<open>_CloseGuard\<close>: \<open>done1\<close> and \<open>done2\<close> are whether \<open>close()\<close> had returned when the first and
  the second wait ended.\<close>

definition close_guard_run ::
  "proc_env \<Rightarrow> bool \<Rightarrow> process_table \<Rightarrow> bool \<Rightarrow> process_table \<Rightarrow> recorded \<Rightarrow> (nat \<times> int) option \<Rightarrow>
   (os_signal \<times> nat set) list" where
  "close_guard_run env done1 t1 done2 t2 recs driver =
     (if recs = [] \<or> \<not> pe_filesystem env \<or> done1 then []
      else (let targets = live_tree env t1 recs;
                sent = (if targets = {} then [] else [(Sigkill, targets)])
            in if done2 then sent
               else (case driver of
                       None \<Rightarrow> sent
                     | Some d \<Rightarrow> if proc_alive t2 d then sent @ [(Sigkill, {fst d})] else sent)))"

section \<open>Facts\<close>

text \<open>The parent relation of one reading.\<close>

definition parent_rel :: "process_table \<Rightarrow> (nat \<times> nat) set" where
  "parent_rel table = {(pid, parent). (pid, int parent) \<in> set (parent_map table)}"

lemma closure_pass_sound:
  assumes "S \<subseteq> {p. \<exists>r \<in> roots. (p, r) \<in> R\<^sup>*}" and "\<forall>(pid, ppid) \<in> set parents. 0 \<le> ppid \<longrightarrow> (pid, nat ppid) \<in> R"
  shows "closure_pass parents S \<subseteq> {p. \<exists>r \<in> roots. (p, r) \<in> R\<^sup>*}"
  using assms unfolding closure_pass_def
proof (induction parents arbitrary: S)
  case (Cons x parents)
  obtain pid ppid where x: "x = (pid, ppid)" by (cases x)
  have "insert pid S \<subseteq> {p. \<exists>r \<in> roots. (p, r) \<in> R\<^sup>*}" if "0 \<le> ppid" "nat ppid \<in> S"
  proof -
    have "(pid, nat ppid) \<in> R" using Cons.prems(2) x \<open>0 \<le> ppid\<close> by auto
    moreover obtain r where "r \<in> roots" "(nat ppid, r) \<in> R\<^sup>*"
      using Cons.prems(1) \<open>nat ppid \<in> S\<close> by blast
    ultimately show ?thesis using Cons.prems(1) by (blast intro: converse_rtrancl_into_rtrancl)
  qed
  then show ?case using Cons x by (simp split del: if_split) (auto split: if_splits)
qed simp

lemma closure_pass_closed:
  assumes "closure_pass parents S = S" and "(pid, ppid) \<in> set parents" and "0 \<le> ppid" and "nat ppid \<in> S"
  shows "pid \<in> S"
proof -
  obtain a b where parents: "parents = a @ (pid, ppid) # b" using assms(2) split_list by metis
  define T where "T = closure_pass a S"
  have "S \<subseteq> T" unfolding T_def by (rule closure_pass_mono)
  then have "pid \<in> closure_pass [(pid, ppid)] T" using assms(3,4) by (auto simp: closure_pass_def)
  also have "\<dots> \<subseteq> closure_pass b (closure_pass [(pid, ppid)] T)" by (rule closure_pass_mono)
  also have "\<dots> = closure_pass parents S" unfolding T_def parents by (simp add: closure_pass_def)
  finally show ?thesis using assms(1) by simp
qed

lemma closure_loop_sound:
  assumes "S \<subseteq> {p. \<exists>r \<in> roots. (p, r) \<in> R\<^sup>*}" and "\<forall>(pid, ppid) \<in> set parents. 0 \<le> ppid \<longrightarrow> (pid, nat ppid) \<in> R"
  shows "closure_loop parents S \<subseteq> {p. \<exists>r \<in> roots. (p, r) \<in> R\<^sup>*}"
  using assms
proof (induction parents S rule: closure_loop.induct)
  case (1 parents S)
  then show ?case
    using closure_pass_sound [OF "1.prems"] by (subst closure_loop.simps) (auto simp: Let_def)
qed

lemma closure_loop_closed:
  "S \<subseteq> closure_loop parents S \<and> closure_pass parents (closure_loop parents S) = closure_loop parents S"
proof (induction parents S rule: closure_loop.induct)
  case (1 parents S)
  show ?case
  proof (cases "closure_pass parents S = S")
    case True then show ?thesis by (simp add: closure_loop.simps [of parents S])
  next
    case False
    then have "closure_loop parents S = closure_loop parents (closure_pass parents S)"
      by (subst closure_loop.simps) simp
    then show ?thesis using "1.IH" [OF refl False] closure_pass_mono by fastforce
  qed
qed

lemma descendant_pids_eq:
  "descendant_pids table roots = {p. \<exists>r \<in> roots. (p, r) \<in> (parent_rel table)\<^sup>*}"
proof
  show "descendant_pids table roots \<subseteq> {p. \<exists>r \<in> roots. (p, r) \<in> (parent_rel table)\<^sup>*}"
    unfolding descendant_pids_def by (rule closure_loop_sound) (auto simp: parent_rel_def)
  have "p \<in> descendant_pids table roots" if "(p, r) \<in> (parent_rel table)\<^sup>*" "r \<in> roots" for p r
    using that
  proof (induction rule: converse_rtrancl_induct)
    case base
    then show ?case using closure_loop_closed unfolding descendant_pids_def by blast
  next
    case (step p q)
    then show ?case
      using closure_pass_closed [of "parent_map table" "closure_loop (parent_map table) roots" p "int q"]
        closure_loop_closed unfolding descendant_pids_def parent_rel_def by simp
  qed
  then show "{p. \<exists>r \<in> roots. (p, r) \<in> (parent_rel table)\<^sup>*} \<subseteq> descendant_pids table roots" by blast
qed

lemma live_recorded_procs_iff:
  "pid \<in> set (live_recorded_procs table recs) \<longleftrightarrow> (\<exists>start. (pid, start) \<in> set recs \<and> proc_alive table (pid, start))"
  by (force simp: live_recorded_procs_def)

lemma roots_gone_iff: "roots_gone recs table \<longleftrightarrow> (\<forall>r \<in> set recs. \<not> proc_alive table r)"
  by (auto simp: roots_gone_def live_recorded_procs_def filter_empty_conv)

text \<open>The pids that may be signalled: recorded processes that are still the same processes, and
  what descends from one of them.\<close>

definition may_signal :: "process_table \<Rightarrow> recorded \<Rightarrow> nat \<Rightarrow> bool" where
  "may_signal table recs pid \<longleftrightarrow> (\<exists>root start. (root, start) \<in> set recs \<and> proc_alive table (root, start)
     \<and> (pid, root) \<in> (parent_rel table)\<^sup>*)"

lemma live_tree_may_signal:
  assumes "pid \<in> live_tree env table recs"
  shows "may_signal table recs pid"
proof -
  have "\<exists>root \<in> set (live_recorded_procs table recs). (pid, root) \<in> (parent_rel table)\<^sup>*"
    using assms by (auto simp: live_tree_def Let_def descendant_pids_eq split: if_split_asm)
  then obtain root where "root \<in> set (live_recorded_procs table recs)" "(pid, root) \<in> (parent_rel table)\<^sup>*"
    by blast
  then show ?thesis unfolding may_signal_def live_recorded_procs_iff by blast
qed

section \<open>Properties\<close>

text \<open>Teardown never touches an unrelated process and never claims too much: every process it
  signals is, at the reading taken for that signal, a recorded process that is still the same
  process (pid and start time, not a zombie) or one whose chain of parents reaches such a
  process; SIGKILL is sent only after SIGTERM's wait has passed without success; and it reports
  termination only if some reading showed every recorded process gone (or none was recorded).\<close>

theorem teardown_signals_only_the_recorded_tree:
  assumes "reap_browser_process_tree env v recs = (terminated, sent)"
  shows "(\<forall>pids. (Sigterm, pids) \<in> set sent \<longrightarrow> (\<forall>pid \<in> pids. may_signal (rv_term v) recs pid))
    \<and> (\<forall>pids. (Sigkill, pids) \<in> set sent \<longrightarrow> (\<forall>pid \<in> pids. may_signal (rv_kill v) recs pid)
         \<and> \<not> list_ex (roots_gone recs) (rv_first v) \<and> \<not> list_ex (roots_gone recs) (rv_second v))
    \<and> (terminated \<longrightarrow> recs = [] \<or>
         (\<exists>t \<in> set (rv_first v @ rv_second v @ rv_third v). \<forall>r \<in> set recs. \<not> proc_alive t r))"
proof -
  have ex: "list_ex (roots_gone recs) ts \<longleftrightarrow> (\<exists>t \<in> set ts. \<forall>r \<in> set recs. \<not> proc_alive t r)" for ts
    by (simp add: list_ex_iff roots_gone_iff)
  show ?thesis
    using assms live_tree_may_signal
    by (auto simp: reap_browser_process_tree_def wait_until_def Let_def ex split: if_split_asm)
qed

definition demo_stat :: "string \<Rightarrow> string" where
  "demo_stat state = ''7 (a b) '' @ state @ '' 1 7 7 0 -1 4 0 0 0 0 0 0 0 0 20 0 1 0 4711 0''"

definition demo_table :: "string \<Rightarrow> process_table" where
  "demo_table state = [(7, \<lparr>prc_stat = demo_stat state, prc_exe = None, prc_cmdline = None\<rparr>)]"

definition demo_view :: reap_view where
  "demo_view = \<lparr>rv_first = [demo_table ''S''], rv_term = demo_table ''S'',
     rv_second = [demo_table ''S'', demo_table ''Z''], rv_kill = demo_table ''Z'', rv_third = []\<rparr>"

theorem teardown_signals_only_the_recorded_tree_witness:
  "may_signal (demo_table ''S'') [(7, 4711)] 7"
proof -
  have r: "reap_browser_process_tree \<lparr>pe_filesystem = True, pe_my_pid = 1, pe_executable = []\<rparr> demo_view
      [(7, 4711)] = (True, [(Sigterm, {7})])" by code_simp
  have "\<forall>pids. (Sigterm, pids) \<in> set [(Sigterm, {7 :: nat})] \<longrightarrow>
      (\<forall>pid \<in> pids. may_signal (rv_term demo_view) [(7, 4711)] pid)"
    using teardown_signals_only_the_recorded_tree [OF r] by blast
  then show ?thesis by (simp add: demo_view_def)
qed

end
