(* ===== verification/Browser_Lease.thy ===== *)
theory Browser_Lease
  imports Browser_Procs
begin

text \<open>
  The one-Chromium launch lease (\<^verbatim>\<open>backend/outbound_security.py\<close>): a lock, the browser
  that holds it, and the operations that take it, reclaim it from a dead browser and give it
  back. Each operation is atomic under its lock; the process table changes between them.
\<close>

record leased_browser =
  lb_procs :: recorded
  lb_driver :: "(nat \<times> int) option"
  lb_released :: bool

record lease_state =
  ls_locked :: bool
  ls_holder :: "nat option"
  ls_browsers :: "(nat \<times> leased_browser) list"    \<comment> \<open>every browser object ever created\<close>

definition no_lease :: lease_state where
  "no_lease = \<lparr>ls_locked = False, ls_holder = None, ls_browsers = []\<rparr>"

definition set_browser :: "nat \<Rightarrow> leased_browser \<Rightarrow> lease_state \<Rightarrow> lease_state" where
  "set_browser b br s = s\<lparr>ls_browsers := AList.update b br (ls_browsers s)\<rparr>"

text \<open>\<open>_LeasedBrowser._release\<close>: once per browser, and only for the active holder.\<close>

definition release_browser :: "nat \<Rightarrow> lease_state \<Rightarrow> lease_state" where
  "release_browser b s =
     (case map_of (ls_browsers s) b of
        None \<Rightarrow> s
      | Some br \<Rightarrow>
          if lb_released br then s
          else (let s' = set_browser b (br\<lparr>lb_released := True\<rparr>) s in
                if ls_holder s' = Some b then s'\<lparr>ls_holder := None, ls_locked := False\<rparr> else s'))"

text \<open>\<open>_release_browser_launch_lease_locked\<close>, after a launch that failed.\<close>

definition release_failed_launch :: "lease_state \<Rightarrow> lease_state" where
  "release_failed_launch s = s\<lparr>ls_holder := None, ls_locked := False\<rparr>"

definition try_reclaim :: "proc_env \<Rightarrow> process_table \<Rightarrow> lease_state \<Rightarrow> lease_state \<times> bool" where
  "try_reclaim env table s =
     (case ls_holder s of
        None \<Rightarrow> (s, False)
      | Some b \<Rightarrow>
          (case map_of (ls_browsers s) b of
             None \<Rightarrow> (s, False)
           | Some br \<Rightarrow>
               if lb_procs br = [] \<or> live_recorded_procs table (lb_procs br) \<noteq> []
                  \<or> any_approved_chromium_alive env table
               then (s, False)
               else (release_browser b s, True)))"

definition take_lease :: "lease_state \<Rightarrow> lease_state option" where
  "take_lease s = (if ls_locked s then None else Some (s\<lparr>ls_locked := True\<rparr>))"

text \<open>\<open>_acquire_browser_launch_lease\<close> as one caller sees it: \<open>s\<close> at the end of its wait,
  \<open>between\<close> what others do between its reclaim and its second attempt. \<open>None\<close> is the refusal.\<close>

definition acquire_lease ::
  "proc_env \<Rightarrow> process_table \<Rightarrow> (lease_state \<Rightarrow> lease_state) \<Rightarrow> lease_state \<Rightarrow> lease_state option" where
  "acquire_lease env table between s =
     (case take_lease s of
        Some s' \<Rightarrow> Some s'
      | None \<Rightarrow> (case try_reclaim env table s of
                  (s', reclaimed) \<Rightarrow> if reclaimed then take_lease (between s') else None))"

text \<open>A launch that succeeded: the new browser records the processes found below this one.\<close>

definition launched :: "proc_env \<Rightarrow> process_table \<Rightarrow> nat \<Rightarrow> lease_state \<Rightarrow> lease_state" where
  "launched env table b s =
     (set_browser b \<lparr>lb_procs = capture_browser_procs env table,
        lb_driver = find_playwright_driver_proc env table, lb_released = False\<rparr> s)
     \<lparr>ls_holder := Some b\<rparr>"

text \<open>\<open>_LeasedBrowser.close\<close>: how the call of Playwright ended does not matter for the lease,
  except that an abandoned call has its driver killed; the lease is given back only if the
  teardown proved termination and the guard thread is wound down.\<close>

definition close_browser ::
  "proc_env \<Rightarrow> bool \<Rightarrow> bool \<Rightarrow> process_table \<Rightarrow> reap_view \<Rightarrow> nat \<Rightarrow> lease_state \<Rightarrow>
   lease_state \<times> (os_signal \<times> nat set) list" where
  "close_browser env abandoned guard_finished table v b s =
     (case map_of (ls_browsers s) b of
        None \<Rightarrow> (s, [])
      | Some br \<Rightarrow>
          (let driver_kill = (case lb_driver br of
                 Some d \<Rightarrow> if abandoned \<and> proc_alive table d then [(Sigkill, {fst d})] else []
               | None \<Rightarrow> [])
           in case reap_browser_process_tree env v (lb_procs br) of
                (terminated, sent) \<Rightarrow>
                  (if terminated \<and> guard_finished then release_browser b s else s, driver_kill @ sent)))"

section \<open>The system\<close>

text \<open>The lease together with the process table. An identity (pid, start time) that was recorded
  and has died does not come back: the kernel does not give a later process the same start time.
  A disconnect is Playwright's event, whose handler releases the lease at once.\<close>

record lease_system =
  sy_lease :: lease_state
  sy_table :: process_table

definition recorded_anywhere :: "lease_state \<Rightarrow> (nat \<times> int) set" where
  "recorded_anywhere s = (\<Union>(b, br) \<in> set (ls_browsers s). set (lb_procs br))"

definition os_step :: "lease_state \<Rightarrow> process_table \<Rightarrow> process_table \<Rightarrow> bool" where
  "os_step s t t' \<longleftrightarrow> (\<forall>r \<in> recorded_anywhere s. proc_alive t' r \<longrightarrow> proc_alive t r)"

inductive lease_step :: "proc_env \<Rightarrow> bool \<Rightarrow> lease_system \<Rightarrow> lease_system \<Rightarrow> bool"
  for env :: proc_env and disconnects :: bool
where
  os: "os_step (sy_lease s) (sy_table s) t \<Longrightarrow> lease_step env disconnects s (s\<lparr>sy_table := t\<rparr>)"
| take: "take_lease (sy_lease s) = Some l \<Longrightarrow> lease_step env disconnects s (s\<lparr>sy_lease := l\<rparr>)"
| reclaim: "try_reclaim env (sy_table s) (sy_lease s) = (l, True) \<Longrightarrow>
    lease_step env disconnects s (s\<lparr>sy_lease := l\<rparr>)"
| launch: "ls_locked (sy_lease s) \<Longrightarrow> ls_holder (sy_lease s) = None \<Longrightarrow>
    b \<notin> fst ` set (ls_browsers (sy_lease s)) \<Longrightarrow>
    lease_step env disconnects s (s\<lparr>sy_lease := launched env (sy_table s) b (sy_lease s)\<rparr>)"
| launch_failed: "ls_locked (sy_lease s) \<Longrightarrow> ls_holder (sy_lease s) = None \<Longrightarrow>
    lease_step env disconnects s (s\<lparr>sy_lease := release_failed_launch (sy_lease s)\<rparr>)"
| close: "close_browser env abandoned guard_finished table v b (sy_lease s) = (l, sent) \<Longrightarrow>
    (\<And>t. t \<in> set (rv_first v @ rv_second v @ rv_third v) \<Longrightarrow> os_step (sy_lease s) t (sy_table s)) \<Longrightarrow>
    lease_step env disconnects s (s\<lparr>sy_lease := l\<rparr>)"
| disconnected: "disconnects \<Longrightarrow>
    lease_step env disconnects s (s\<lparr>sy_lease := release_browser b (sy_lease s)\<rparr>)"

inductive lease_reachable :: "proc_env \<Rightarrow> bool \<Rightarrow> lease_system \<Rightarrow> bool"
  for env :: proc_env and disconnects :: bool
where
  init: "lease_reachable env disconnects \<lparr>sy_lease = no_lease, sy_table = t\<rparr>"
| step: "lease_reachable env disconnects s \<Longrightarrow> lease_step env disconnects s s' \<Longrightarrow>
    lease_reachable env disconnects s'"

text \<open>A browser one of whose recorded processes is still that process.\<close>

definition browser_alive :: "lease_system \<Rightarrow> nat \<Rightarrow> bool" where
  "browser_alive s b \<longleftrightarrow> (\<exists>br. map_of (ls_browsers (sy_lease s)) b = Some br
     \<and> (\<exists>r \<in> set (lb_procs br). proc_alive (sy_table s) r))"

section \<open>One browser at a time\<close>

lemma browsers_set_browser [simp]:
  "map_of (ls_browsers (set_browser b br s)) = (map_of (ls_browsers s))(b \<mapsto> br)"
  "ls_holder (set_browser b br s) = ls_holder s" "ls_locked (set_browser b br s) = ls_locked s"
  by (simp_all add: set_browser_def update_conv')

definition procs_dead :: "process_table \<Rightarrow> leased_browser \<Rightarrow> bool" where
  "procs_dead t br \<longleftrightarrow> (\<forall>r \<in> set (lb_procs br). \<not> proc_alive t r)"

text \<open>The holder is an unreleased browser under a taken lock, and every other browser is dead.\<close>

definition lease_ok :: "lease_system \<Rightarrow> bool" where
  "lease_ok s \<longleftrightarrow>
     (\<forall>b. ls_holder (sy_lease s) = Some b \<longrightarrow> ls_locked (sy_lease s)
        \<and> (\<exists>br. map_of (ls_browsers (sy_lease s)) b = Some br \<and> \<not> lb_released br))
     \<and> (\<forall>b br. map_of (ls_browsers (sy_lease s)) b = Some br \<and> ls_holder (sy_lease s) \<noteq> Some b
          \<longrightarrow> procs_dead (sy_table s) br)"

lemma procs_dead_os_step:
  assumes "os_step l t t'" and "map_of (ls_browsers l) b = Some br" and "procs_dead t br"
  shows "procs_dead t' br"
proof -
  have "set (lb_procs br) \<subseteq> recorded_anywhere l"
    using map_of_SomeD [OF assms(2)] by (force simp: recorded_anywhere_def)
  then show ?thesis using assms(1,3) unfolding os_step_def procs_dead_def by blast
qed

lemma lease_ok_release:
  assumes "lease_ok s" and "\<And>br. map_of (ls_browsers (sy_lease s)) b = Some br \<Longrightarrow> procs_dead (sy_table s) br"
  shows "lease_ok (s\<lparr>sy_lease := release_browser b (sy_lease s)\<rparr>)"
proof (cases "map_of (ls_browsers (sy_lease s)) b")
  case None then show ?thesis using assms(1) by (simp add: release_browser_def)
next
  case (Some br)
  have dead: "procs_dead (sy_table s) (br\<lparr>lb_released := True\<rparr>)"
    using assms(2) [OF Some] by (simp add: procs_dead_def)
  show ?thesis
  proof (cases "lb_released br")
    case True then show ?thesis using assms(1) Some by (simp add: release_browser_def)
  next
    case False
    then show ?thesis
      using assms(1) Some dead by (auto simp: release_browser_def Let_def lease_ok_def) metis
  qed
qed

lemma lease_ok_step:
  assumes "lease_step env False s s'" and "lease_ok s"
  shows "lease_ok s'"
  using assms
proof (cases rule: lease_step.cases)
  case (os t)
  then show ?thesis using assms(2) procs_dead_os_step unfolding lease_ok_def by simp blast
next
  case (take l)
  then show ?thesis using assms(2) by (auto simp: take_lease_def lease_ok_def split: if_split_asm)
next
  case (reclaim l)
  then obtain b br where b: "ls_holder (sy_lease s) = Some b" "map_of (ls_browsers (sy_lease s)) b = Some br"
    "live_recorded_procs (sy_table s) (lb_procs br) = []" "l = release_browser b (sy_lease s)"
    by (auto simp: try_reclaim_def split: option.splits if_split_asm)
  then have "procs_dead (sy_table s) br"
    using roots_gone_iff by (simp add: roots_gone_def procs_dead_def)
  then show ?thesis using lease_ok_release [OF assms(2), of b] b reclaim by simp
next
  case (launch b)
  then have "map_of (ls_browsers (sy_lease s)) b = None" by (simp add: map_of_eq_None_iff)
  then show ?thesis using launch assms(2) by (auto simp: lease_ok_def launched_def)
next
  case launch_failed
  then show ?thesis using assms(2) by (auto simp: lease_ok_def release_failed_launch_def)
next
  case (close abandoned guard_finished table v b l sent)
  show ?thesis
  proof (cases "l = sy_lease s")
    case True then show ?thesis using close assms(2) by simp
  next
    case False
    then obtain br terminated sent' where br: "map_of (ls_browsers (sy_lease s)) b = Some br"
      and reap: "reap_browser_process_tree env v (lb_procs br) = (True, sent')"
      and l: "l = release_browser b (sy_lease s)"
      using close(2) by (auto simp: close_browser_def split: option.splits prod.splits if_split_asm)
    have "lb_procs br = [] \<or> (\<exists>t \<in> set (rv_first v @ rv_second v @ rv_third v).
        \<forall>r \<in> set (lb_procs br). \<not> proc_alive t r)"
      using reap by (auto simp: reap_browser_process_tree_def wait_until_def list_ex_iff roots_gone_iff
          Let_def split: if_split_asm)
    then have "procs_dead (sy_table s) br"
      using procs_dead_os_step [OF close(3) br] by (auto simp: procs_dead_def)
    then show ?thesis using lease_ok_release [OF assms(2), of b] br l close(1) by simp
  qed
qed simp

lemma lease_reachable_ok: "lease_reachable env False s \<Longrightarrow> lease_ok s"
  by (induction rule: lease_reachable.induct) (simp add: lease_ok_def no_lease_def, rule lease_ok_step)

section \<open>Properties\<close>

text \<open>C27. One Chromium at a time: over every interleaving of launches (successful or failed), waits,
  reclaims, closes with any outcome and process exits, as long as no disconnect event releases
  the lease, at most one browser has a recorded process that is still running, and it is the
  holder of the taken lease.\<close>

theorem one_browser_at_a_time:
  assumes "lease_reachable env False s" and "browser_alive s b"
  shows "ls_holder (sy_lease s) = Some b \<and> ls_locked (sy_lease s)
    \<and> (\<forall>b'. browser_alive s b' \<longrightarrow> b' = b)"
proof -
  have ok: "lease_ok s" using assms(1) by (rule lease_reachable_ok)
  have "ls_holder (sy_lease s) = Some c" if alive: "browser_alive s c" for c
  proof (rule ccontr)
    assume other: "ls_holder (sy_lease s) \<noteq> Some c"
    obtain br r where br: "map_of (ls_browsers (sy_lease s)) c = Some br" "r \<in> set (lb_procs br)"
      "proc_alive (sy_table s) r" using alive unfolding browser_alive_def by blast
    then have "procs_dead (sy_table s) br" using ok other by (simp add: lease_ok_def)
    then show False using br by (simp add: procs_dead_def)
  qed
  then have holder: "ls_holder (sy_lease s) = Some b" and only: "\<forall>c. browser_alive s c \<longrightarrow> c = b"
    using assms(2) by (simp, metis option.inject)
  moreover have "ls_locked (sy_lease s)" using ok holder unfolding lease_ok_def by blast
  ultimately show ?thesis by blast
qed

definition demo_proc_env :: proc_env where
  "demo_proc_env = \<lparr>pe_filesystem = True, pe_my_pid = 1, pe_executable = ''/chrome''\<rparr>"

definition chrome_table :: process_table where
  "chrome_table = [(1, \<lparr>prc_stat = ''1 (py) S 0 1 1 0 -1 4 0 0 0 0 0 0 0 0 20 0 1 0 100 0'',
       prc_exe = Some ''/py'', prc_cmdline = None\<rparr>),
     (7, \<lparr>prc_stat = demo_stat ''S'', prc_exe = Some ''/chrome'', prc_cmdline = None\<rparr>)]"

definition first_launch :: lease_state where
  "first_launch = launched demo_proc_env chrome_table 0 (no_lease\<lparr>ls_locked := True\<rparr>)"

lemma first_launch_reachable:
  "lease_reachable demo_proc_env d \<lparr>sy_lease = first_launch, sy_table = chrome_table\<rparr>"
proof -
  let ?s = "\<lparr>sy_lease = no_lease, sy_table = chrome_table\<rparr>"
  have "lease_step demo_proc_env d ?s (?s\<lparr>sy_lease := no_lease\<lparr>ls_locked := True\<rparr>\<rparr>)"
    by (rule lease_step.take) (simp add: take_lease_def no_lease_def)
  then have "lease_reachable demo_proc_env d (?s\<lparr>sy_lease := no_lease\<lparr>ls_locked := True\<rparr>\<rparr>)"
    using lease_reachable.init lease_reachable.step by blast
  moreover have "lease_step demo_proc_env d (?s\<lparr>sy_lease := no_lease\<lparr>ls_locked := True\<rparr>\<rparr>)
      (?s\<lparr>sy_lease := no_lease\<lparr>ls_locked := True\<rparr>\<rparr>\<lparr>sy_lease := first_launch\<rparr>)"
    using lease_step.launch [of "?s\<lparr>sy_lease := no_lease\<lparr>ls_locked := True\<rparr>\<rparr>" 0 demo_proc_env d]
    by (simp add: no_lease_def first_launch_def)
  ultimately show ?thesis using lease_reachable.step by fastforce
qed

lemma first_launch_alive:
  "map_of (ls_browsers first_launch) 0 = Some \<lparr>lb_procs = [(7, 4711)], lb_driver = None, lb_released = False\<rparr>"
  "proc_alive chrome_table (7, 4711)" "capture_browser_procs demo_proc_env chrome_table = [(7, 4711)]"
  by code_simp+

theorem one_browser_at_a_time_witness:
  "ls_holder first_launch = Some 0"
proof -
  have "browser_alive \<lparr>sy_lease = first_launch, sy_table = chrome_table\<rparr> 0"
    using first_launch_alive by (auto simp: browser_alive_def)
  from one_browser_at_a_time [OF first_launch_reachable this] show ?thesis by simp
qed

text \<open>With a disconnect event, the handler gives the lease back while the recorded processes are
  running: the next launch is admitted beside them.\<close>

theorem disconnect_admits_a_second_browser:
  "\<exists>s. lease_reachable demo_proc_env True s \<and> browser_alive s 0 \<and> browser_alive s 1"
proof -
  define l1 where "l1 = release_browser 0 first_launch"
  define l2 where "l2 = l1\<lparr>ls_locked := True\<rparr>"
  define l3 where "l3 = launched demo_proc_env chrome_table 1 l2"
  have f: "ls_holder first_launch = Some 0" "ls_browsers first_launch = [(0, \<lparr>lb_procs = [(7, 4711)],
      lb_driver = None, lb_released = False\<rparr>)]"
    using first_launch_alive(1) by (simp_all add: first_launch_def launched_def no_lease_def set_browser_def)
  then have l1: "ls_holder l1 = None" "\<not> ls_locked l1"
    "ls_browsers l1 = [(0, \<lparr>lb_procs = [(7, 4711)], lb_driver = None, lb_released = True\<rparr>)]"
    by (simp_all add: l1_def release_browser_def set_browser_def Let_def)
  let ?s = "\<lambda>l. \<lparr>sy_lease = l, sy_table = chrome_table\<rparr>"
  have "lease_step demo_proc_env True (?s first_launch) (?s l1)"
    using lease_step.disconnected [of True demo_proc_env "?s first_launch" 0] by (simp add: l1_def)
  moreover have "lease_step demo_proc_env True (?s l1) (?s l2)"
    using lease_step.take [of "?s l1" l2] l1 by (simp add: take_lease_def l2_def)
  moreover have "lease_step demo_proc_env True (?s l2) (?s l3)"
    using lease_step.launch [of "?s l2" 1 demo_proc_env True] l1 by (simp add: l2_def l3_def)
  ultimately have "lease_reachable demo_proc_env True (?s l3)"
    using first_launch_reachable by (blast intro: lease_reachable.step)
  moreover have "map_of (ls_browsers l3) 0 = Some \<lparr>lb_procs = [(7, 4711)], lb_driver = None, lb_released = True\<rparr>"
    "\<exists>br. map_of (ls_browsers l3) 1 = Some br \<and> lb_procs br = [(7, 4711)]"
    using l1 first_launch_alive(3) by (simp_all add: l3_def l2_def launched_def set_browser_def)
  ultimately show ?thesis using first_launch_alive(2) by (fastforce simp: browser_alive_def)
qed

end
