(* ===== verification/Browser_Boundary.thy ===== *)
theory Browser_Boundary
  imports Browser_Lease Outbound_Policy
begin

text \<open>
  The conditions for launching a browser (\<^verbatim>\<open>backend/outbound_security.py\<close>): which launch
  mode applies, which options and arguments a caller may pass, and the checks of the runtime that
  have to hold before the protected launch. What the operating system answers (file status,
  versions, limits, probes) is a record of observations.
\<close>

section \<open>Launch arguments\<close>

definition egress_mode :: string where
  "egress_mode = ''network_namespace_dns_pinned_proxy_v1''"

definition protected_arguments :: "string list" where
  "protected_arguments =
     [''--proxy-server=http://127.0.0.1:17654'', ''--proxy-bypass-list=<-loopback>'',
      ''--host-resolver-rules=MAP * ~NOTFOUND, EXCLUDE 127.0.0.1'', ''--disable-quic'',
      ''--force-webrtc-ip-handling-policy=disable_non_proxied_udp'',
      ''--disable-background-networking'', ''--disable-component-update'',
      ''--disable-domain-reliability'', ''--disable-sync'', ''--metrics-recording-only'']"

definition forbidden_prefixes :: "string list" where
  "forbidden_prefixes =
     [''--proxy-server'', ''--proxy-bypass-list'', ''--proxy-auto-detect'', ''--proxy-pac-url'',
      ''--no-proxy-server'', ''--host-resolver-rules'', ''--no-sandbox'', ''--disable-setuid-sandbox'',
      ''--enable-quic'', ''--force-webrtc-ip-handling-policy'', ''--remote-debugging-address'',
      ''--remote-debugging-port'']"

definition controlled_options :: "string list" where
  "controlled_options = [''proxy'', ''executable_path'', ''chromium_sandbox'', ''env'']"

definition starts_with :: "string \<Rightarrow> string \<Rightarrow> bool" where
  "starts_with p s \<longleftrightarrow> take (length p) s = p"

definition forbidden_argument :: "string \<Rightarrow> bool" where
  "forbidden_argument a \<longleftrightarrow>
     list_ex (\<lambda>p. str_lower a = p \<or> starts_with (p @ ''='') (str_lower a)) forbidden_prefixes"

datatype boundary_error =
    Mode_Not_Set | Not_Linux | Runs_As_Root | Open_File_Limit
  | Playwright_Missing | Playwright_Version | Chromium_Metadata | Chromium_Mismatch
  | Chromium_Unavailable | Chromium_Permissions | Chromium_Revision | Chromium_Version
  | Unshare_Unavailable | Wrapper_Not_Configured | Wrapper_Unavailable | Wrapper_Permissions
  | Wrapper_Incomplete | Directory_Permissions | Proxy_Escaped | Proxy_Not_Started
  | Socket_Unavailable | Socket_Permissions | Proxy_Health | Proxy_Not_Denying | Probe_Failed
  | Controlled_Option string | Forbidden_Argument | Production_Needs_Boundary | Lease_Busy

record launch_request =
  lr_options :: "string list"     \<comment> \<open>the keyword arguments other than \<open>args\<close>\<close>
  lr_args :: "string list"

text \<open>\<open>env\<close>: the variables of the child, \<open>executable\<close>: what is started.\<close>

record launch_command =
  lc_args :: "string list"
  lc_sandbox :: bool
  lc_environment :: "(string \<times> string) list"
  lc_executable :: string

definition vet_launch_request :: "launch_request \<Rightarrow> boundary_error + unit" where
  "vet_launch_request r =
     (case find (\<lambda>opt. opt \<in> set (lr_options r)) controlled_options of
        Some opt \<Rightarrow> Inl (Controlled_Option opt)
      | None \<Rightarrow> guard_res (\<not> list_ex forbidden_argument (lr_args r)) Forbidden_Argument)"

section \<open>The environment of the child\<close>

definition sanitized_process_environment :: "string option \<Rightarrow> (string \<times> string) list" where
  "sanitized_process_environment browsers_path =
     [(''HOME'', ''/tmp''), (''LANG'', ''C.UTF-8''), (''PATH'', ''/usr/local/bin:/usr/bin:/bin''),
      (''PYTHONUNBUFFERED'', ''1''), (''TMPDIR'', ''/tmp''), (''XDG_CACHE_HOME'', ''/tmp/.cache'')]
     @ (case browsers_path of None \<Rightarrow> []
        | Some p \<Rightarrow> if p = [] then [] else [(''PLAYWRIGHT_BROWSERS_PATH'', p)])"

definition browser_boundary_environment :: "string \<Rightarrow> string \<Rightarrow> string \<Rightarrow> (string \<times> string) list" where
  "browser_boundary_environment netns_inode unix_socket real_executable =
     sanitized_process_environment None
     @ [(''OPPORTUNITY_RADAR_BROWSER_PARENT_NETNS'', netns_inode),
        (''OPPORTUNITY_RADAR_BROWSER_PROXY_SOCKET'', unix_socket),
        (''OPPORTUNITY_RADAR_CHROMIUM_EXECUTABLE'', real_executable)]"

section \<open>Checks of the runtime\<close>

text \<open>\<open>stat\<close> of a file: \<open>None\<close> when it raises.\<close>

record file_status =
  fs_regular :: bool
  fs_socket :: bool
  fs_executable :: bool
  fs_uid :: nat
  fs_mode :: nat            \<comment> \<open>\<open>S_IMODE\<close>: the permission bits\<close>

text \<open>\<open>mode & 0o022\<close>, \<open>mode & 0o222\<close>: somebody else, anybody, may write.\<close>

definition writable_by_others :: "nat \<Rightarrow> bool" where
  "writable_by_others mode \<longleftrightarrow> odd (mode div 16) \<or> odd (mode div 2)"

definition writable_by_any :: "nat \<Rightarrow> bool" where
  "writable_by_any mode \<longleftrightarrow> odd (mode div 128) \<or> writable_by_others mode"

definition trusted_executable :: "file_status option \<Rightarrow> bool" where
  "trusted_executable f \<longleftrightarrow> (case f of None \<Rightarrow> False
     | Some s \<Rightarrow> fs_regular s \<and> fs_executable s \<and> fs_uid s = 0 \<and> \<not> writable_by_others (fs_mode s))"

text \<open>\<open>_require_browser_open_file_headroom\<close>: limits (\<open>None\<close> is infinity); raising the soft limit
  may fail.\<close>

definition minimum_open_files :: nat where
  "minimum_open_files = 8192"

definition open_file_limit_after :: "nat option \<Rightarrow> nat option \<Rightarrow> bool \<Rightarrow> nat option" where
  "open_file_limit_after soft hard can_raise =
     (case soft of
        None \<Rightarrow> None
      | Some n \<Rightarrow>
          if minimum_open_files \<le> n then Some n
          else (let target = (case hard of None \<Rightarrow> minimum_open_files | Some h \<Rightarrow> min minimum_open_files h)
                in Some (if n < target \<and> can_raise then target else n)))"

definition require_open_file_headroom ::
  "nat option \<Rightarrow> nat option \<Rightarrow> bool \<Rightarrow> boundary_error + nat option" where
  "require_open_file_headroom soft hard can_raise =
     (let soft' = open_file_limit_after soft hard can_raise in
      case soft' of
        Some n \<Rightarrow> if n < minimum_open_files then Inl Open_File_Limit else Inr soft'
      | None \<Rightarrow> Inr None)"

record runtime_view =
  rt_mode :: string
  rt_linux :: bool
  rt_euid :: nat
  rt_soft_limit :: "nat option"
  rt_hard_limit :: "nat option"
  rt_can_raise :: bool
  rt_playwright :: "string option"
  rt_metadata :: "(string \<times> string) option"
  rt_executable :: string
  rt_configured :: string                     \<comment> \<open>the configured executable, stripped\<close>
  rt_same_file :: bool                        \<comment> \<open>whether both paths resolve to the same\<close>
  rt_chromium :: "file_status option"
  rt_chromium_version :: "string option"
  rt_unshare :: "file_status option"
  rt_wrapper_path :: string
  rt_wrapper :: "file_status option"
  rt_wrapper_text :: "string option"
  rt_directory :: file_status
  rt_socket :: "file_status option"
  rt_proxy_ready :: bool
  rt_probe_ok :: bool

definition playwright_version :: string where "playwright_version = ''1.62.0''"

definition chromium_revision :: string where "chromium_revision = ''1234''"

definition chromium_version :: string where "chromium_version = ''151.0.7922.34''"

definition wrapper_fragments :: "string list" where
  "wrapper_fragments = [''/usr/bin/unshare'', ''--user'', ''--map-current-user'', ''--keep-caps'',
     ''--net'', ''--fork'', ''--kill-child=SIGKILL'', ''backend.browser_netns_runner'']"

definition validated_browser_wrapper :: "runtime_view \<Rightarrow> boundary_error + unit" where
  "validated_browser_wrapper v =
     bind_res (guard_res (rt_wrapper_path v \<noteq> []) Wrapper_Not_Configured) (\<lambda>_.
     (case rt_wrapper v of
        None \<Rightarrow> Inl Wrapper_Unavailable
      | Some w \<Rightarrow>
          bind_res (guard_res (fs_regular w \<and> fs_executable w \<and> fs_uid w = 0
              \<and> \<not> writable_by_any (fs_mode w)) Wrapper_Permissions) (\<lambda>_.
          (case rt_wrapper_text v of
             None \<Rightarrow> Inl Wrapper_Unavailable
           | Some text \<Rightarrow>
               guard_res (list_all (\<lambda>fragment. contains fragment text) wrapper_fragments)
                 Wrapper_Incomplete))))"

definition owner_only_socket :: "nat \<Rightarrow> file_status option \<Rightarrow> boundary_error + unit" where
  "owner_only_socket euid f =
     (case f of
        None \<Rightarrow> Inl Socket_Unavailable
      | Some s \<Rightarrow> guard_res (fs_socket s \<and> fs_uid s = euid \<and> fs_mode s = 384) Socket_Permissions)"

definition check_chromium :: "runtime_view \<Rightarrow> boundary_error + unit" where
  "check_chromium v =
     bind_res (guard_res (rt_configured v = [] \<or> rt_same_file v) Chromium_Mismatch) (\<lambda>_.
     bind_res (guard_res (rt_chromium v \<noteq> None) Chromium_Unavailable) (\<lambda>_.
     bind_res (guard_res (trusted_executable (rt_chromium v)) Chromium_Permissions) (\<lambda>_.
     bind_res (guard_res (contains (''chromium-'' @ chromium_revision) (rt_executable v))
       Chromium_Revision) (\<lambda>_.
     guard_res (rt_chromium_version v = Some chromium_version) Chromium_Version))))"

text \<open>\<open>validate_browser_runtime_boundary\<close>, in the order of the code; the directory's mode is
  \<open>0o700\<close> = 448 and the socket's \<open>0o600\<close> = 384.\<close>

definition validate_browser_runtime_boundary :: "runtime_view \<Rightarrow> boundary_error + unit" where
  "validate_browser_runtime_boundary v =
     bind_res (guard_res (rt_mode v = egress_mode) Mode_Not_Set) (\<lambda>_.
     bind_res (guard_res (rt_linux v) Not_Linux) (\<lambda>_.
     bind_res (guard_res (rt_euid v \<noteq> 0) Runs_As_Root) (\<lambda>_.
     bind_res (require_open_file_headroom (rt_soft_limit v) (rt_hard_limit v) (rt_can_raise v)) (\<lambda>_.
     bind_res (guard_res (rt_playwright v \<noteq> None) Playwright_Missing) (\<lambda>_.
     bind_res (guard_res (rt_playwright v = Some playwright_version) Playwright_Version) (\<lambda>_.
     bind_res (guard_res (rt_metadata v = Some (chromium_revision, chromium_version))
       Chromium_Metadata) (\<lambda>_.
     bind_res (check_chromium v) (\<lambda>_.
     bind_res (guard_res (trusted_executable (rt_unshare v)) Unshare_Unavailable) (\<lambda>_.
     bind_res (validated_browser_wrapper v) (\<lambda>_.
     bind_res (guard_res (fs_uid (rt_directory v) = rt_euid v \<and> fs_mode (rt_directory v) = 448)
       Directory_Permissions) (\<lambda>_.
     bind_res (guard_res (rt_proxy_ready v) Proxy_Not_Started) (\<lambda>_.
     bind_res (owner_only_socket (rt_euid v) (rt_socket v)) (\<lambda>_.
       guard_res (rt_probe_ok v) Probe_Failed)))))))))))))"

section \<open>The health check of the proxy and the launch\<close>

definition denial_prefix :: string where
  "denial_prefix = ''HTTP/1.1 403 ''"

text \<open>\<open>_require_browser_proxy_ready\<close>: the answer to a request for a loopback address;
  \<open>None\<close>: the socket failed.\<close>

definition require_browser_proxy_ready :: "nat \<Rightarrow> file_status option \<Rightarrow> string option \<Rightarrow> boundary_error + unit" where
  "require_browser_proxy_ready euid sock answer =
     bind_res (owner_only_socket euid sock) (\<lambda>_.
     (case answer of
        None \<Rightarrow> Inl Proxy_Health
      | Some a \<Rightarrow> guard_res (starts_with denial_prefix a) Proxy_Not_Denying))"

record launch_env =
  le_mode :: string               \<comment> \<open>\<open>APP_BROWSER_EGRESS_MODE\<close>, stripped\<close>
  le_environment :: string        \<comment> \<open>\<open>APP_ENV\<close>, stripped, lower case\<close>
  le_runtime :: runtime_view
  le_answer :: "string option"
  le_netns :: string
  le_socket_path :: string

datatype launch_kind = Protected launch_command | Local "string list"

text \<open>\<open>launch_playwright_chromium\<close> up to the call of Playwright; the lease is taken between the
  checks and the launch.\<close>

definition prepare_launch ::
  "launch_env \<Rightarrow> launch_request \<Rightarrow> (lease_state \<Rightarrow> lease_state option) \<Rightarrow> lease_state \<Rightarrow>
   (boundary_error + launch_kind) \<times> lease_state" where
  "prepare_launch e r acquire s =
     (if le_mode e = egress_mode
      then (case bind_res (vet_launch_request r) (\<lambda>_.
              bind_res (validate_browser_runtime_boundary (le_runtime e)) (\<lambda>_.
              require_browser_proxy_ready (rt_euid (le_runtime e)) (rt_socket (le_runtime e)) (le_answer e))) of
              Inl err \<Rightarrow> (Inl err, s)
            | Inr _ \<Rightarrow>
                (case acquire s of
                   None \<Rightarrow> (Inl Lease_Busy, s)
                 | Some s' \<Rightarrow>
                     (Inr (Protected \<lparr>lc_args = lr_args r @ protected_arguments, lc_sandbox = True,
                        lc_environment = browser_boundary_environment (le_netns e) (le_socket_path e)
                          (rt_executable (le_runtime e)),
                        lc_executable = rt_wrapper_path (le_runtime e)\<rparr>), s')))
      else if le_environment e = ''production'' then (Inl Production_Needs_Boundary, s)
      else (Inr (Local (if ''--no-proxy-server'' \<in> set (lr_args r) then lr_args r
                        else lr_args r @ [''--no-proxy-server''])), s))"

section \<open>Properties\<close>

lemma vet_launch_request_Inr:
  "vet_launch_request r = Inr u \<longleftrightarrow>
   (\<forall>opt \<in> set controlled_options. opt \<notin> set (lr_options r)) \<and> (\<forall>a \<in> set (lr_args r). \<not> forbidden_argument a)"
  by (auto simp: vet_launch_request_def res_simps find_None_iff find_Some_iff list_ex_iff
      split: option.splits)

lemma runtime_boundary_Inr:
  assumes "validate_browser_runtime_boundary v = Inr u"
  shows "rt_euid v \<noteq> 0 \<and> rt_linux v \<and> trusted_executable (rt_chromium v) \<and> trusted_executable (rt_unshare v)
    \<and> rt_probe_ok v \<and> rt_chromium_version v = Some chromium_version
    \<and> (\<exists>w text. rt_wrapper v = Some w \<and> fs_regular w \<and> fs_uid w = 0 \<and> \<not> writable_by_any (fs_mode w)
         \<and> rt_wrapper_text v = Some text \<and> (\<forall>f \<in> set wrapper_fragments. contains f text))"
  using assms
  by (auto simp: validate_browser_runtime_boundary_def check_chromium_def validated_browser_wrapper_def
      res_simps list_all_iff split: option.splits)

lemma prepare_launch_Protected:
  assumes "prepare_launch e r acquire s = (Inr (Protected c), s')"
  shows "vet_launch_request r = Inr () \<and> validate_browser_runtime_boundary (le_runtime e) = Inr ()
    \<and> (\<exists>a. le_answer e = Some a \<and> starts_with denial_prefix a) \<and> acquire s = Some s'
    \<and> c = \<lparr>lc_args = lr_args r @ protected_arguments, lc_sandbox = True,
        lc_environment = browser_boundary_environment (le_netns e) (le_socket_path e)
          (rt_executable (le_runtime e)),
        lc_executable = rt_wrapper_path (le_runtime e)\<rparr>"
  using assms
  by (auto simp: prepare_launch_def require_browser_proxy_ready_def res_simps
      split: if_split_asm sum.splits option.splits)

text \<open>A browser is launched in production only inside the boundary, and a caller cannot loosen it:
  the started executable is the root-owned wrapper that nobody may write and that names every
  isolation switch, run by a user that is not root, with the sandbox on; the proxy, resolver,
  QUIC and WebRTC switches are the policy's (no argument of the caller overrides or repeats one);
  the child sees none of the server's own environment variables; the proxy has just refused a
  loopback destination; and the launch lease is taken.\<close>

theorem protected_launch_is_confined:
  assumes "prepare_launch e r acquire s = (Inr kind, s')"
  shows "(le_environment e = ''production'' \<longrightarrow> (\<exists>c. kind = Protected c))
    \<and> (\<forall>c. kind = Protected c \<longrightarrow> lc_sandbox c \<and> acquire s = Some s'
        \<and> (\<forall>a \<in> set (lc_args c). forbidden_argument a \<longrightarrow> a \<in> set protected_arguments)
        \<and> set protected_arguments \<subseteq> set (lc_args c)
        \<and> map fst (lc_environment c) = [''HOME'', ''LANG'', ''PATH'', ''PYTHONUNBUFFERED'', ''TMPDIR'',
             ''XDG_CACHE_HOME'', ''OPPORTUNITY_RADAR_BROWSER_PARENT_NETNS'',
             ''OPPORTUNITY_RADAR_BROWSER_PROXY_SOCKET'', ''OPPORTUNITY_RADAR_CHROMIUM_EXECUTABLE'']
        \<and> rt_euid (le_runtime e) \<noteq> 0
        \<and> (\<exists>w text. rt_wrapper (le_runtime e) = Some w \<and> fs_uid w = 0 \<and> \<not> writable_by_any (fs_mode w)
             \<and> rt_wrapper_text (le_runtime e) = Some text
             \<and> (\<forall>f \<in> set wrapper_fragments. contains f text))
        \<and> (\<exists>a. le_answer e = Some a \<and> starts_with denial_prefix a))"
proof -
  have production: "\<exists>c. kind = Protected c" if "le_environment e = ''production''"
    using assms that by (auto simp: prepare_launch_def split: if_split_asm sum.splits option.splits)
  have protected: "lc_sandbox c" "acquire s = Some s'"
      "\<forall>a \<in> set (lc_args c). forbidden_argument a \<longrightarrow> a \<in> set protected_arguments"
      "set protected_arguments \<subseteq> set (lc_args c)"
      "lc_environment c = browser_boundary_environment (le_netns e) (le_socket_path e)
         (rt_executable (le_runtime e))"
      "rt_euid (le_runtime e) \<noteq> 0"
      "\<exists>w text. rt_wrapper (le_runtime e) = Some w \<and> fs_uid w = 0 \<and> \<not> writable_by_any (fs_mode w)
         \<and> rt_wrapper_text (le_runtime e) = Some text \<and> (\<forall>f \<in> set wrapper_fragments. contains f text)"
      "\<exists>a. le_answer e = Some a \<and> starts_with denial_prefix a"
    if kind: "kind = Protected c" for c
  proof -
    have p: "prepare_launch e r acquire s = (Inr (Protected c), s')" using assms kind by simp
    note P = prepare_launch_Protected [OF p]
    have R: "validate_browser_runtime_boundary (le_runtime e) = Inr ()" using P by blast
    show "lc_sandbox c" "acquire s = Some s'"
      "\<forall>a \<in> set (lc_args c). forbidden_argument a \<longrightarrow> a \<in> set protected_arguments"
      "set protected_arguments \<subseteq> set (lc_args c)"
      "lc_environment c = browser_boundary_environment (le_netns e) (le_socket_path e)
         (rt_executable (le_runtime e))"
      "\<exists>a. le_answer e = Some a \<and> starts_with denial_prefix a"
      using P by (auto simp: vet_launch_request_Inr)
    show "rt_euid (le_runtime e) \<noteq> 0"
      "\<exists>w text. rt_wrapper (le_runtime e) = Some w \<and> fs_uid w = 0 \<and> \<not> writable_by_any (fs_mode w)
         \<and> rt_wrapper_text (le_runtime e) = Some text \<and> (\<forall>f \<in> set wrapper_fragments. contains f text)"
      using runtime_boundary_Inr [OF R] by blast+
  qed
  have environment: "map fst (browser_boundary_environment n u x) = [''HOME'', ''LANG'', ''PATH'',
      ''PYTHONUNBUFFERED'', ''TMPDIR'', ''XDG_CACHE_HOME'', ''OPPORTUNITY_RADAR_BROWSER_PARENT_NETNS'',
      ''OPPORTUNITY_RADAR_BROWSER_PROXY_SOCKET'', ''OPPORTUNITY_RADAR_CHROMIUM_EXECUTABLE'']" for n u x
    by (simp add: browser_boundary_environment_def sanitized_process_environment_def)
  show ?thesis
  proof (rule conjI)
    show "le_environment e = ''production'' \<longrightarrow> (\<exists>c. kind = Protected c)" by (rule impI) (rule production)
    show "\<forall>c. kind = Protected c \<longrightarrow> lc_sandbox c \<and> acquire s = Some s'
        \<and> (\<forall>a \<in> set (lc_args c). forbidden_argument a \<longrightarrow> a \<in> set protected_arguments)
        \<and> set protected_arguments \<subseteq> set (lc_args c)
        \<and> map fst (lc_environment c) = [''HOME'', ''LANG'', ''PATH'', ''PYTHONUNBUFFERED'', ''TMPDIR'',
             ''XDG_CACHE_HOME'', ''OPPORTUNITY_RADAR_BROWSER_PARENT_NETNS'',
             ''OPPORTUNITY_RADAR_BROWSER_PROXY_SOCKET'', ''OPPORTUNITY_RADAR_CHROMIUM_EXECUTABLE'']
        \<and> rt_euid (le_runtime e) \<noteq> 0
        \<and> (\<exists>w text. rt_wrapper (le_runtime e) = Some w \<and> fs_uid w = 0 \<and> \<not> writable_by_any (fs_mode w)
             \<and> rt_wrapper_text (le_runtime e) = Some text
             \<and> (\<forall>f \<in> set wrapper_fragments. contains f text))
        \<and> (\<exists>a. le_answer e = Some a \<and> starts_with denial_prefix a)"
      by (intro allI impI conjI, erule protected(1), erule protected(2), erule protected(3),
          erule protected(4), simp only: protected(5) environment, erule protected(6),
          erule protected(7), erule protected(8))
  qed
qed

definition root_file :: file_status where
  "root_file = \<lparr>fs_regular = True, fs_socket = False, fs_executable = True, fs_uid = 0, fs_mode = 365\<rparr>"

definition demo_runtime :: runtime_view where
  "demo_runtime = \<lparr>rt_mode = egress_mode, rt_linux = True, rt_euid = 1000, rt_soft_limit = Some 1024,
     rt_hard_limit = None, rt_can_raise = True, rt_playwright = Some playwright_version,
     rt_metadata = Some (chromium_revision, chromium_version),
     rt_executable = ''/ms-playwright/chromium-1234/chrome'', rt_configured = [], rt_same_file = True,
     rt_chromium = Some root_file, rt_chromium_version = Some chromium_version,
     rt_unshare = Some root_file, rt_wrapper_path = ''/opt/wrapper'', rt_wrapper = Some root_file,
     rt_wrapper_text = Some (concat wrapper_fragments),
     rt_directory = \<lparr>fs_regular = False, fs_socket = False, fs_executable = True, fs_uid = 1000, fs_mode = 448\<rparr>,
     rt_socket = Some \<lparr>fs_regular = False, fs_socket = True, fs_executable = False, fs_uid = 1000, fs_mode = 384\<rparr>,
     rt_proxy_ready = True, rt_probe_ok = True\<rparr>"

definition demo_launch_env :: launch_env where
  "demo_launch_env = \<lparr>le_mode = egress_mode, le_environment = ''production'', le_runtime = demo_runtime,
     le_answer = Some ''HTTP/1.1 403 Forbidden'', le_netns = ''4026531840'', le_socket_path = ''/tmp/s''\<rparr>"

definition demo_launch_request :: launch_request where
  "demo_launch_request = \<lparr>lr_options = [''headless''], lr_args = [''--disable-gpu'']\<rparr>"

theorem protected_launch_is_confined_witness:
  "\<exists>c s'. prepare_launch demo_launch_env demo_launch_request take_lease no_lease = (Inr (Protected c), s')
     \<and> lc_sandbox c"
proof -
  have checks: "vet_launch_request demo_launch_request = Inr ()"
    "validate_browser_runtime_boundary demo_runtime = Inr ()"
    "require_browser_proxy_ready (rt_euid demo_runtime) (rt_socket demo_runtime)
       (Some ''HTTP/1.1 403 Forbidden'') = Inr ()"
    by code_simp+
  obtain kind s' where p: "prepare_launch demo_launch_env demo_launch_request take_lease no_lease =
      (Inr kind, s')"
    using checks by (simp add: prepare_launch_def demo_launch_env_def take_lease_def no_lease_def)
  have "le_environment demo_launch_env = ''production''" by (simp add: demo_launch_env_def)
  then show ?thesis using protected_launch_is_confined [OF p] p by blast
qed

end
