(* ===== verification/Egress_Proxy.thy ===== *)
theory Egress_Proxy
  imports Outbound_Policy
begin

text \<open>
  The HTTP proxy through which the isolated browser reaches the network
  (\<^verbatim>\<open>backend/browser_egress_proxy.py\<close>): receiving and parsing a request, the policy
  check, the connection to the checked address, what is forwarded, and the two-way copying that
  follows. Bytes are characters.
\<close>

section \<open>Receiving the header\<close>

definition max_header_bytes :: nat where
  "max_header_bytes = 65536"

definition crlf :: string where
  "crlf = [CHR 0x0D, CHR 0x0A]"

text \<open>The bytes up to and including the first occurrence of a marker, and the rest.\<close>

fun split_after :: "string \<Rightarrow> string \<Rightarrow> (string \<times> string) option" where
  "split_after marker s =
     (if take (length marker) s = marker then Some (marker, drop (length marker) s)
      else (case s of
              [] \<Rightarrow> None
            | c # cs \<Rightarrow> map_option (\<lambda>(a, b). (c # a, b)) (split_after marker cs)))"

declare split_after.simps [simp del]

datatype protocol_error =
    Too_Large | Disconnected | Incomplete | No_Request_Line | Bad_Request_Line | Bad_Method
  | Bad_Version | Bad_Target | Bad_Header | Bad_Header_Name | Bad_Header_Value | Duplicate_Host
  | Bad_Authority | No_Port | Bad_Absolute_Target | Not_Plain_Http

text \<open>What the client sends, packet by packet; \<open>recv(n)\<close> returns at most \<open>n\<close> bytes of the first;
  an empty packet or none is the end of the stream.\<close>

function receive_header :: "string \<Rightarrow> string list \<Rightarrow> protocol_error + string \<times> string \<times> string list" where
  "receive_header received packets =
     (case split_after (crlf @ crlf) received of
        Some (header, rest) \<Rightarrow> Inr (header, rest, packets)
      | None \<Rightarrow>
          if max_header_bytes \<le> length received then Inl Too_Large
          else (case packets of
                  [] \<Rightarrow> Inl Disconnected
                | p # ps \<Rightarrow>
                    (let n = min 8192 (max_header_bytes + 1 - length received) in
                     if p = [] then Inl Disconnected
                     else receive_header (received @ take n p)
                       (if drop n p = [] then ps else drop n p # ps))))"
  by pat_completeness auto

termination
proof (relation "measure (\<lambda>(received, packets). sum_list (map length packets))")
  fix received packets and p :: string and ps n
  assume "\<not> max_header_bytes \<le> length (received :: string)" "packets = p # ps" "p \<noteq> []"
    and "n = min 8192 (max_header_bytes + 1 - length received)"
  then have "1 \<le> n" "p \<noteq> []" by auto
  then show "((received @ take n p, if drop n p = [] then ps else drop n p # ps), received, packets)
      \<in> measure (\<lambda>(received, packets). sum_list (map length packets))"
    using \<open>packets = p # ps\<close> by (cases p) auto
qed simp

section \<open>Parsing\<close>

record proxy_request =
  pr_method :: string
  pr_version :: string
  pr_url :: string
  pr_target :: string
  pr_headers :: "(string \<times> string) list"
  pr_body :: string

text \<open>\<open>split(b"\r\n")\<close>.\<close>

fun split_crlf :: "string \<Rightarrow> string list" where
  "split_crlf [] = [[]]"
| "split_crlf (c # cs) =
     (if c = CHR 0x0D \<and> cs \<noteq> [] \<and> hd cs = CHR 0x0A then [] # split_crlf (tl cs)
      else (case split_crlf cs of w # ws \<Rightarrow> (c # w) # ws | [] \<Rightarrow> [[c]]))"

definition token_char :: "char \<Rightarrow> bool" where
  "token_char c \<longleftrightarrow> ascii_alnum c \<or> c \<in> set ''!#$%&*+.^_`|~-'' \<or> c = CHR 0x27"

definition allowed_methods :: "string list" where
  "allowed_methods =
     [''CONNECT'', ''DELETE'', ''GET'', ''HEAD'', ''OPTIONS'', ''PATCH'', ''POST'', ''PUT'']"

definition is_ascii :: "string \<Rightarrow> bool" where
  "is_ascii s \<longleftrightarrow> list_all (\<lambda>c. code c < 128) s"

definition dropped_headers :: "string list" where
  "dropped_headers = [''proxy-authorization'', ''proxy-connection'', ''connection'']"

definition parse_header_line :: "string \<Rightarrow> protocol_error + string \<times> string" where
  "parse_header_line line =
     (case partition (CHR '':'') line of (name, found, val) \<Rightarrow>
        if line = [] \<or> hd line = CHR '' '' \<or> hd line = CHR 0x09 \<or> \<not> found then Inl Bad_Header
        else if name = [] \<or> \<not> list_all token_char name then Inl Bad_Header_Name
        else if list_ex (\<lambda>c. code c = 0 \<or> code c = 13 \<or> code c = 10) val then Inl Bad_Header_Value
        else Inr (name, val))"

text \<open>The kept headers and the number of Host headers.\<close>

fun parse_header_lines :: "string list \<Rightarrow> protocol_error + (string \<times> string) list \<times> nat" where
  "parse_header_lines [] = Inr ([], 0)"
| "parse_header_lines (line # lines) =
     bind_res (parse_header_line line) (\<lambda>(name, val).
     bind_res (parse_header_lines lines) (\<lambda>(headers, hosts). Inr
       (if str_lower name \<in> set dropped_headers then headers
        else (name, strip_chars [CHR '' '', CHR 0x09] val) # headers,
        if str_lower name = ''host'' then Suc hosts else hosts)))"

definition ends_with :: "string \<Rightarrow> string \<Rightarrow> bool" where
  "ends_with tail s \<longleftrightarrow> length tail \<le> length s \<and> drop (length s - length tail) s = tail"

definition upper_ascii :: "char \<Rightarrow> char" where
  "upper_ascii c = (if 97 \<le> code c \<and> code c \<le> 122 then char_of (code c - 32) else c)"

text \<open>The request line: method, target and version.\<close>

definition parse_request_line :: "string \<Rightarrow> protocol_error + string \<times> string \<times> string" where
  "parse_request_line line =
     (case split_on (CHR '' '') line of
        [method_raw, target, version] \<Rightarrow>
          if \<not> is_ascii method_raw \<or> \<not> is_ascii target \<or> \<not> is_ascii version
          then Inl Bad_Request_Line
          else (let method = map upper_ascii method_raw in
                if method \<notin> set allowed_methods \<or> method_raw \<noteq> method then Inl Bad_Method
                else if version \<notin> {''HTTP/1.0'', ''HTTP/1.1''} then Inl Bad_Version
                else if list_ex control_or_space target then Inl Bad_Target
                else Inr (method, target, version))
      | _ \<Rightarrow> Inl Bad_Request_Line)"

text \<open>The URL to check and the target to send upstream.\<close>

definition destination_of :: "string \<Rightarrow> string \<Rightarrow> protocol_error + string \<times> string" where
  "destination_of method target =
     (if method = ''CONNECT'' then
        (if list_ex (\<lambda>c. c \<in> set ''/?#@'') target then Inl Bad_Authority
         else case urlsplit (''//'' @ target) of
           None \<Rightarrow> Inl No_Port
         | Some authority \<Rightarrow>
             (case (url_hostname authority, url_port authority) of
                (Some (_ # _), Some (Some _)) \<Rightarrow> Inr (''https://'' @ target @ ''/'', target)
              | _ \<Rightarrow> Inl No_Port))
      else
        (case urlsplit target of
           None \<Rightarrow> Inl Bad_Absolute_Target
         | Some parsed \<Rightarrow>
             if str_lower (url_scheme parsed) \<noteq> ''http'' \<or> url_netloc parsed = []
                \<or> url_fragment parsed \<noteq> []
             then Inl Not_Plain_Http
             else Inr (target, urlunsplit
               \<lparr>url_scheme = [], url_netloc = [],
                url_path = (if url_path parsed = [] then ''/'' else url_path parsed),
                url_query = url_query parsed, url_fragment = []\<rparr>)))"

definition parse_browser_proxy_request :: "string \<Rightarrow> string \<Rightarrow> protocol_error + proxy_request" where
  "parse_browser_proxy_request header_block buffered_body =
     (if max_header_bytes < length header_block then Inl Too_Large
      else if \<not> ends_with (crlf @ crlf) header_block then Inl Incomplete
      else case split_crlf (take (length header_block - 4) header_block) of
        [] \<Rightarrow> Inl No_Request_Line
      | line # lines \<Rightarrow>
          if line = [] then Inl No_Request_Line
          else
            bind_res (parse_request_line line) (\<lambda>(method, target, version).
            bind_res (parse_header_lines lines) (\<lambda>(headers, host_headers).
              if 1 < host_headers then Inl Duplicate_Host
              else
                bind_res (destination_of method target) (\<lambda>(destination_url, upstream_target).
                  Inr \<lparr>pr_method = method, pr_version = version, pr_url = destination_url,
                       pr_target = upstream_target, pr_headers = headers,
                       pr_body = buffered_body\<rparr>))))"

section \<open>The policy, the connection and the forwarded head\<close>

definition effective_ports :: "nat list \<Rightarrow> proxy_request \<Rightarrow> nat list" where
  "effective_ports allowed_ports r =
     (if pr_method r = ''CONNECT'' then filter (\<lambda>p. p = 443) allowed_ports else allowed_ports)"

definition authorize_browser_proxy_request ::
  "(string \<Rightarrow> string option) \<Rightarrow> resolver \<Rightarrow> nat list \<Rightarrow> proxy_request \<Rightarrow> unsafe_reason + destination" where
  "authorize_browser_proxy_request idna lookup allowed_ports r =
     validate_url idna lookup (effective_ports allowed_ports r) (pr_url r)"

text \<open>The socket address of the connection; \<open>None\<close> is \<open>ip_address\<close> raising.\<close>

definition pinned_address :: "destination \<Rightarrow> (string \<times> nat) option" where
  "pinned_address d =
     map_option (\<lambda>a. (show_ip a, dst_port d)) (ip_address (hd (dst_addresses d)))"

definition header_line :: "string \<times> string \<Rightarrow> string" where
  "header_line h = fst h @ '': '' @ snd h"

definition origin_form_lines :: "proxy_request \<Rightarrow> destination \<Rightarrow> string list" where
  "origin_form_lines r d =
     (let hostname = (if CHR '':'' \<in> set (dst_hostname d)
                      then ''['' @ dst_hostname d @ '']'' else dst_hostname d);
          default_port = (if dst_scheme d = ''https'' then 443 else 80);
          host = (if dst_port d = default_port then hostname
                  else hostname @ '':'' @ show_nat (dst_port d));
          filtered = filter (\<lambda>(name, val). str_lower name \<noteq> ''host'') (pr_headers r)
      in (pr_method r @ '' '' @ pr_target r @ '' '' @ pr_version r) # (''Host: '' @ host)
         # map header_line filtered @ [''Connection: close''])"

definition origin_form_request :: "proxy_request \<Rightarrow> destination \<Rightarrow> string" where
  "origin_form_request r d = join crlf (origin_form_lines r d) @ crlf @ crlf"

section \<open>Copying in both directions\<close>

text \<open>What the selector reports: a side is readable (its \<open>recv\<close> would block, or returns bytes,
  none at the end of its stream), nothing happens for the idle time, or a socket call raises
  \<open>OSError\<close>. The end of the list is silence.\<close>

datatype side = Client | Upstream

datatype pump_event = Readable side "string option" | Quiet | Broken

fun pump_bidirectionally :: "side list \<Rightarrow> pump_event list \<Rightarrow> string list \<times> string list \<times> bool" where
  "pump_bidirectionally open_readers [] = ([], [], False)"
| "pump_bidirectionally open_readers (e # es) =
     (if open_readers = [] then ([], [], False)
      else case e of
        Quiet \<Rightarrow> ([], [], False)
      | Broken \<Rightarrow> ([], [], True)
      | Readable s payload \<Rightarrow>
          if s \<notin> set open_readers then pump_bidirectionally open_readers es
          else (case payload of
                  None \<Rightarrow> pump_bidirectionally open_readers es
                | Some [] \<Rightarrow> pump_bidirectionally (removeAll s open_readers) es
                | Some p \<Rightarrow>
                    (case pump_bidirectionally open_readers es of (to_client, to_upstream, broken) \<Rightarrow>
                       if s = Client then (to_client, p # to_upstream, broken)
                       else (p # to_client, to_upstream, broken))))"

section \<open>One client\<close>

definition status_line :: "nat \<Rightarrow> string" where
  "status_line status =
     ''HTTP/1.1 '' @ show_nat status @ '' ''
     @ (if status = 403 then ''Forbidden'' else if status = 502 then ''Bad Gateway''
        else if status = 503 then ''Service Unavailable'' else ''Error'')
     @ crlf @ ''Connection: close'' @ crlf @ ''Content-Length: 0'' @ crlf @ crlf"

definition established :: string where
  "established = ''HTTP/1.1 200 Connection Established'' @ crlf @ crlf"

text \<open>The outside of one exchange: the policy's parameters, whether a connection comes up,
  whether the client takes what is sent to it, how many sends the upstream takes before it
  fails, and what the copying sees.\<close>

record proxy_env =
  pe_idna :: "string \<Rightarrow> string option"
  pe_lookup :: resolver
  pe_ports :: "nat list"
  pe_connects :: "string \<times> nat \<Rightarrow> bool"
  pe_client_takes :: bool
  pe_upstream_takes :: nat
  pe_events :: "pump_event list"

record exchange =
  ex_client :: "string list"
  ex_target :: "(string \<times> nat) option"
  ex_upstream :: "string list"

definition to_client :: "proxy_env \<Rightarrow> string \<Rightarrow> string list" where
  "to_client env s = (if pe_client_takes env then [s] else [])"

text \<open>What is sent upstream first.\<close>

definition opening_bytes :: "proxy_request \<Rightarrow> destination \<Rightarrow> string list" where
  "opening_bytes r d =
     (if pr_method r = ''CONNECT'' then [] else [origin_form_request r d])
     @ (if pr_body r = [] then [] else [pr_body r])"

text \<open>After the connection: the opening bytes, then the copying; any \<open>OSError\<close> ends in 502.\<close>

definition serve_connected :: "proxy_env \<Rightarrow> proxy_request \<Rightarrow> destination \<Rightarrow> string \<times> nat \<Rightarrow> exchange" where
  "serve_connected env r d address =
     (let greeting = (if pr_method r = ''CONNECT'' then to_client env established else []);
          opening = opening_bytes r d;
          bad = greeting @ to_client env (status_line 502)
      in if pr_method r = ''CONNECT'' \<and> \<not> pe_client_takes env
         then \<lparr>ex_client = bad, ex_target = Some address, ex_upstream = []\<rparr>
         else if pe_upstream_takes env < length opening
         then \<lparr>ex_client = bad, ex_target = Some address,
               ex_upstream = take (pe_upstream_takes env) opening\<rparr>
         else (case pump_bidirectionally [Client, Upstream] (pe_events env) of
                 (down, up, broken) \<Rightarrow>
                   \<lparr>ex_client = greeting @ down
                      @ (if broken then to_client env (status_line 502) else []),
                    ex_target = Some address, ex_upstream = opening @ up\<rparr>))"

definition refused :: "proxy_env \<Rightarrow> exchange" where
  "refused env = \<lparr>ex_client = to_client env (status_line 403), ex_target = None, ex_upstream = []\<rparr>"

text \<open>\<open>_handle_client\<close>; \<open>None\<close> is an exception that leaves the worker.\<close>

definition handle_client :: "proxy_env \<Rightarrow> string list \<Rightarrow> exchange option" where
  "handle_client env packets =
     (case receive_header [] packets of
        Inl _ \<Rightarrow> Some (refused env)
      | Inr (header, buffered, _) \<Rightarrow>
          (case parse_browser_proxy_request header buffered of
             Inl _ \<Rightarrow> Some (refused env)
           | Inr r \<Rightarrow>
               (case authorize_browser_proxy_request (pe_idna env) (pe_lookup env) (pe_ports env) r of
                  Inl _ \<Rightarrow> Some (refused env)
                | Inr d \<Rightarrow>
                    (case pinned_address d of
                       None \<Rightarrow> None
                     | Some address \<Rightarrow>
                         if pe_connects env address then Some (serve_connected env r d address)
                         else Some \<lparr>ex_client = to_client env (status_line 502),
                                    ex_target = Some address, ex_upstream = []\<rparr>))))"

section \<open>The accept loop\<close>

text \<open>The bounded semaphore and the workers that hold a permit.\<close>

datatype server_event = Accepted nat | Finished nat

record server =
  sv_permits :: nat
  sv_workers :: "nat list"
  sv_rejected :: "nat list"

definition server_new :: "nat \<Rightarrow> server option" where
  "server_new max_connections =
     (if max_connections < 1 then None
      else Some \<lparr>sv_permits = max_connections, sv_workers = [], sv_rejected = []\<rparr>)"

definition server_step :: "server_event \<Rightarrow> server \<Rightarrow> server" where
  "server_step e s =
     (case e of
        Accepted c \<Rightarrow>
          if sv_permits s = 0 then s\<lparr>sv_rejected := c # sv_rejected s\<rparr>
          else s\<lparr>sv_permits := sv_permits s - 1, sv_workers := c # sv_workers s\<rparr>
      | Finished c \<Rightarrow>
          if c \<in> set (sv_workers s)
          then s\<lparr>sv_permits := sv_permits s + 1, sv_workers := remove1 c (sv_workers s)\<rparr>
          else s)"

section \<open>The socket path\<close>

datatype path_entry = Absent | Entry bool nat

text \<open>A non-socket or another user's entry is never removed: \<open>None\<close> is the \<open>PermissionError\<close>.\<close>

definition prepare_socket_path :: "nat \<Rightarrow> path_entry \<Rightarrow> path_entry option" where
  "prepare_socket_path uid entry =
     (case entry of
        Absent \<Rightarrow> Some Absent
      | Entry is_socket owner \<Rightarrow> if \<not> is_socket \<or> owner \<noteq> uid then None else Some Absent)"

definition remove_socket :: "nat \<Rightarrow> path_entry \<Rightarrow> path_entry" where
  "remove_socket uid entry =
     (case entry of
        Absent \<Rightarrow> Absent
      | Entry is_socket owner \<Rightarrow> if is_socket \<and> owner = uid then Absent else entry)"

section \<open>Characters of an accepted destination\<close>

definition visible :: "char \<Rightarrow> bool" where
  "visible c \<longleftrightarrow> 33 \<le> code c \<and> code c < 127"

lemma split_on_from_chars:
  "c \<in> set s \<or> c \<in> set cur \<Longrightarrow> c = sep \<or> (\<exists>w \<in> set (split_on_from sep cur s). c \<in> set w)"
proof (induction s arbitrary: cur)
  case (Cons x s)
  show ?case
  proof (cases "x = sep")
    case True
    then show ?thesis using Cons.prems Cons.IH [of "[]"] by auto
  next
    case False
    then show ?thesis using Cons.prems Cons.IH [of "x # cur"] by auto
  qed
qed auto

lemma split_on_chars: "c \<in> set s \<Longrightarrow> c = sep \<or> (\<exists>w \<in> set (split_on sep s). c \<in> set w)"
  by (simp add: split_on_def split_on_from_chars)

lemma ascii_alnum_visible: "ascii_alnum c \<Longrightarrow> visible c"
  by (auto simp: ascii_alnum_def is_alpha_ascii_def is_digit_def visible_def Let_def)

lemma dns_label_visible: "dns_label l \<Longrightarrow> c \<in> set l \<Longrightarrow> visible c"
proof -
  assume "dns_label l" "c \<in> set l"
  then have "ascii_alnum c \<or> c = CHR ''-''" by (simp add: dns_label_def list_all_iff)
  then show ?thesis using ascii_alnum_visible by (elim disjE) (simp_all add: visible_def code_def)
qed

lemma is_digit_visible: "is_digit c \<Longrightarrow> visible c"
  by (simp add: is_digit_def visible_def Let_def)

lemma show_ipv4_visible: "c \<in> set (show_ipv4 a) \<Longrightarrow> visible c"
proof -
  assume "c \<in> set (show_ipv4 a)"
  then have "c = CHR ''.'' \<or> (\<exists>w \<in> set (map (\<lambda>i. show_nat (a div 256 ^ i mod 256)) [3, 2, 1, 0]). c \<in> set w)"
    using set_join [of "''.''"] unfolding show_ipv4_def by fastforce
  then show ?thesis
    using show_nat_digits is_digit_visible by (elim disjE) (auto simp: visible_def code_def)
qed

lemma show_hex_visible: "c \<in> set (show_hex n) \<Longrightarrow> visible c"
proof (induction n rule: show_hex.induct)
  case (1 n)
  have "visible (hex_char m)" if "m < 16" for m
    using that by (auto simp: hex_char_def visible_def code_char_of)
  with 1 show ?case by (subst (asm) (2) show_hex.simps) (auto split: if_splits)
qed

lemma visible_colon: "visible CHR '':''"
  by (simp add: visible_def code_def)

lemma show_ipv6_visible: "c \<in> set (show_ipv6 a) \<Longrightarrow> visible c"
proof -
  assume c: "c \<in> set (show_ipv6 a)"
  have "w = [] \<or> (\<exists>h. w = show_hex h)" if "w \<in> set (ipv6_words a)" for w
    using that
    by (auto simp: ipv6_words_def compressed_def split: prod.splits if_split_asm
        dest!: in_set_takeD in_set_dropD)
  then show ?thesis
    using c set_join [of "'':''" "ipv6_words a"] show_hex_visible visible_colon
    unfolding show_ipv6_words by fastforce
qed

lemma ip_address_no_scope:
  "ip_address t = Some (IPv6 v s) \<Longrightarrow> CHR ''%'' \<notin> set t \<Longrightarrow> s = None"
  by (auto simp: ip_address_def partition_absent split: if_split_asm option.splits)

lemma percent_str_lower: "CHR ''%'' \<in> set (str_lower h) \<Longrightarrow> CHR ''%'' \<in> set h"
proof -
  assume "CHR ''%'' \<in> set (str_lower h)"
  then obtain c where "c \<in> set h" "lower_char c = CHR ''%''" by (auto simp: str_lower_def)
  moreover from this have "code (lower_char c) = 37" by (simp add: code_def)
  then have "code c = 37" by (simp add: code_lower_char split: if_split_asm)
  then have "code c = code CHR ''%''" by (simp add: code_def)
  ultimately show ?thesis by simp
qed

lemma hostname_visible:
  assumes "validate_url idna lookup ports url = Inr d" and "c \<in> set (dst_hostname d)"
  shows "visible c"
  using assms(1)
proof (rule validate_url_Inr)
  fix scheme h host literal addresses
  assume parts: "check_url_parts ports url = Inr (scheme, h, dst_port d)"
    and n: "normalize_hostname idna h = Inr (dst_hostname d, literal)"
  show "visible c"
  proof (cases literal)
    case None
    then have "list_all dns_label (split_on (CHR ''.'') (dst_hostname d))"
      using normalize_hostname_Inr [OF n] by simp
    then show ?thesis
      using split_on_chars [OF assms(2), of "CHR ''.''"] dns_label_visible
      by (auto simp: list_all_iff visible_def code_def)
  next
    case (Some a)
    then have a: "ip_address (str_lower h) = Some a" "dst_hostname d = show_ip a"
      using normalize_hostname_Inr [OF n] by simp_all
    have "CHR ''%'' \<notin> set (str_lower h)"
      using check_url_parts_Inr [OF parts] percent_str_lower by blast
    then show ?thesis
      using a assms(2) show_ipv4_visible show_ipv6_visible
      by (cases a) (auto dest!: ip_address_no_scope)
  qed
qed

section \<open>Lines\<close>

definition no_line_break :: "string \<Rightarrow> bool" where
  "no_line_break s \<longleftrightarrow> CHR 0x0D \<notin> set s \<and> CHR 0x0A \<notin> set s"

lemma split_crlf_line: "CHR 0x0D \<notin> set a \<Longrightarrow> split_crlf (a @ crlf @ s) = a # split_crlf s"
  by (induction a) (auto simp: crlf_def)

lemma split_crlf_last: "CHR 0x0D \<notin> set a \<Longrightarrow> split_crlf a = [a]"
  by (induction a) auto

lemma split_crlf_join:
  assumes "ls \<noteq> []" and "\<And>l. l \<in> set ls \<Longrightarrow> no_line_break l"
  shows "split_crlf (join crlf ls @ crlf @ s) = ls @ split_crlf s"
  using assms
proof (induction ls)
  case (Cons l ls)
  then have l: "CHR 0x0D \<notin> set l" by (simp add: no_line_break_def)
  show ?case
  proof (cases ls)
    case Nil then show ?thesis using split_crlf_line [OF l] by simp
  next
    case (Cons m ms)
    then have "split_crlf (join crlf ls @ crlf @ s) = ls @ split_crlf s"
      using Cons.IH Cons.prems by simp
    then show ?thesis using Cons split_crlf_line [OF l] by simp
  qed
qed simp

lemma visible_no_line_break: "list_all visible s \<Longrightarrow> no_line_break s"
  by (auto simp: no_line_break_def list_all_iff visible_def code_def)

lemma strip_chars_Cons: "c \<in> set cs \<Longrightarrow> strip_chars cs (c # s) = strip_chars cs s"
  by (simp add: strip_chars_def)

lemma strip_chars_id:
  assumes "s = [] \<or> hd s \<notin> set cs \<and> last s \<notin> set cs"
  shows "strip_chars cs s = s"
proof (cases "s = []")
  case False
  with assms have "hd s \<notin> set cs" "last s \<notin> set cs" by auto
  then have "dropWhile (\<lambda>c. c \<in> set cs) s = s" "dropWhile (\<lambda>c. c \<in> set cs) (rev s) = rev s"
    using False by (cases s, auto) (cases s rule: rev_cases, auto)
  then show ?thesis by (simp add: strip_chars_def)
qed (simp add: strip_chars_def)

lemma last_dropWhile: "dropWhile P s \<noteq> [] \<Longrightarrow> last (dropWhile P s) = last s"
  by (induction s) auto

lemma strip_chars_stripped:
  "strip_chars cs s = [] \<or> hd (strip_chars cs s) \<notin> set cs \<and> last (strip_chars cs s) \<notin> set cs"
proof -
  define P where "P = (\<lambda>c. c \<in> set cs)"
  define t where "t = dropWhile P s"
  have eq: "strip_chars cs s = rev (dropWhile P (rev t))" by (simp add: strip_chars_def P_def t_def)
  show ?thesis
  proof (cases "dropWhile P (rev t) = []")
    case False
    then have "\<not> P (hd (dropWhile P (rev t)))" by (rule hd_dropWhile)
    moreover have "last (dropWhile P (rev t)) = hd t"
      using last_dropWhile [OF False] False by (cases t) auto
    moreover have "t \<noteq> []" using False by auto
    then have "\<not> P (hd t)" unfolding t_def by (rule hd_dropWhile)
    ultimately show ?thesis using False unfolding eq P_def by (simp add: hd_rev last_rev)
  qed (simp add: eq)
qed

lemma set_strip_chars: "set (strip_chars cs s) \<subseteq> set s"
  by (auto simp: strip_chars_def dest!: set_dropWhileD)

section \<open>What the parser accepts\<close>

definition good_header :: "string \<times> string \<Rightarrow> bool" where
  "good_header = (\<lambda>(name, val). name \<noteq> [] \<and> list_all token_char name
     \<and> str_lower name \<notin> set dropped_headers
     \<and> list_all (\<lambda>c. code c \<noteq> 0 \<and> code c \<noteq> 13 \<and> code c \<noteq> 10) val
     \<and> strip_chars [CHR '' '', CHR 0x09] val = val)"

lemma token_char_visible: "token_char c \<Longrightarrow> visible c \<and> c \<noteq> CHR '':''"
  using ascii_alnum_visible [of c]
  by (auto simp: token_char_def visible_def code_def ascii_alnum_def is_alpha_ascii_def is_digit_def)

lemma parse_header_line_Inr:
  assumes "parse_header_line line = Inr (name, val)"
  shows "name \<noteq> [] \<and> list_all token_char name
    \<and> list_all (\<lambda>c. code c \<noteq> 0 \<and> code c \<noteq> 13 \<and> code c \<noteq> 10) val"
  using assms
  by (auto simp: parse_header_line_def list_all_iff list_ex_iff split: prod.splits if_split_asm)

lemma parse_header_lines_good:
  "parse_header_lines lines = Inr (headers, hosts) \<Longrightarrow> h \<in> set headers \<Longrightarrow> good_header h"
proof (induction lines arbitrary: headers hosts)
  case (Cons line lines)
  then obtain name val headers' hosts' where p: "parse_header_line line = Inr (name, val)"
    "parse_header_lines lines = Inr (headers', hosts')"
    "headers = (if str_lower name \<in> set dropped_headers then headers'
        else (name, strip_chars [CHR '' '', CHR 0x09] val) # headers')"
    by (auto simp: res_simps)
  show ?case
  proof (cases "h \<in> set headers'")
    case True then show ?thesis using Cons.IH p(2) by blast
  next
    case False
    then have "h = (name, strip_chars [CHR '' '', CHR 0x09] val)" "str_lower name \<notin> set dropped_headers"
      using p(3) Cons.prems(2) by (auto split: if_split_asm)
    then show ?thesis
      using parse_header_line_Inr [OF p(1)] set_strip_chars [of "[CHR '' '', CHR 0x09]" val]
        strip_chars_id [OF strip_chars_stripped]
      by (auto simp: good_header_def list_all_iff)
  qed
qed simp

lemma parse_header_line_own:
  assumes "name \<noteq> []" and "list_all token_char name"
    and "list_all (\<lambda>c. code c \<noteq> 0 \<and> code c \<noteq> 13 \<and> code c \<noteq> 10) val"
  shows "parse_header_line (name @ '': '' @ val) = Inr (name, '' '' @ val)"
proof -
  have "token_char (hd name)" using assms(1,2) by (cases name) auto
  then have "visible (hd name)" using token_char_visible by blast
  then have "hd name \<noteq> CHR '' ''" "hd name \<noteq> CHR 0x09" by (auto simp: visible_def code_def)
  moreover have "CHR '':'' \<notin> set name" using assms(2) token_char_visible by (auto simp: list_all_iff)
  then have "partition (CHR '':'') (name @ '': '' @ val) = (name, True, '' '' @ val)"
    using partition_first [of "CHR '':''" name "'' '' @ val"] by simp
  moreover have "\<not> list_ex (\<lambda>c. code c = 0 \<or> code c = 13 \<or> code c = 10) ('' '' @ val)"
    using assms(3) by (auto simp: list_all_iff list_ex_iff code_def)
  ultimately show ?thesis using assms(1,2) by (simp add: parse_header_line_def)
qed

lemma parse_header_lines_own:
  assumes "\<And>h. h \<in> set headers \<Longrightarrow> good_header h"
    and "parse_header_lines rest = Inr (others, hosts)"
  shows "parse_header_lines (map header_line headers @ rest) =
    Inr (headers @ others, length (filter (\<lambda>(name, val). str_lower name = ''host'') headers) + hosts)"
  using assms(1)
proof (induction headers)
  case (Cons h headers)
  obtain name val where h: "h = (name, val)" by (cases h)
  with Cons.prems [of h] have g: "name \<noteq> []" "list_all token_char name"
    "str_lower name \<notin> set dropped_headers"
    "list_all (\<lambda>c. code c \<noteq> 0 \<and> code c \<noteq> 13 \<and> code c \<noteq> 10) val"
    "strip_chars [CHR '' '', CHR 0x09] val = val" by (auto simp: good_header_def)
  have strip: "strip_chars [CHR '' '', CHR 0x09] (CHR '' '' # val) = val"
    using g(5) strip_chars_Cons [of "CHR '' ''"] by simp
  have "parse_header_line (header_line h) = Inr (name, CHR '' '' # val)"
    using parse_header_line_own [OF g(1,2,4)] by (simp add: header_line_def h)
  then show ?case using Cons.IH Cons.prems g(3) strip h by simp
qed (simp add: assms(2))

lemma connection_close: "parse_header_lines [''Connection: close''] = Inr ([], 0)"
  by code_simp

lemma set_urlsplit:
  assumes "urlsplit raw = Some u"
  shows "set (url_path u) \<subseteq> set raw" "set (url_query u) \<subseteq> set raw"
proof -
  have part: "set (fst (partition c s)) \<subseteq> set s" "set (snd (snd (partition c s))) \<subseteq> set s" for c s
  proof -
    have "set (tl (dropWhile P s)) \<subseteq> set s" for P
      by (induction s) auto
    then show "set (fst (partition c s)) \<subseteq> set s" "set (snd (snd (partition c s))) \<subseteq> set s"
      by (auto simp: partition_def dest: set_takeWhileD)
  qed
  define url where "url = filter (\<lambda>c. code c \<noteq> 9 \<and> code c \<noteq> 10 \<and> code c \<noteq> 13) (dropWhile c0_or_space raw)"
  define rest where "rest = snd (split_scheme url)"
  define body where "body = (if take 2 rest = ''//'' then dropWhile (\<lambda>c. c \<notin> set ''/?#'') (drop 2 rest) else rest)"
  define front where "front = fst (partition (CHR ''#'') body)"
  have "set url \<subseteq> set raw" unfolding url_def by (auto dest: set_dropWhileD)
  moreover have "set rest \<subseteq> set url"
    using part(2) [of "CHR '':''" url] unfolding rest_def split_scheme_def
    by (cases "partition (CHR '':'') url") auto
  moreover have "set body \<subseteq> set rest"
    unfolding body_def by (auto dest!: set_dropWhileD in_set_dropD)
  moreover have "set front \<subseteq> set body" unfolding front_def by (rule part)
  ultimately have front: "set front \<subseteq> set raw" by blast
  have "url_path u = fst (partition (CHR ''?'') front)" "url_query u = snd (snd (partition (CHR ''?'') front))"
    using assms
    by (auto simp: urlsplit_def Let_def url_def rest_def body_def front_def split: prod.splits if_split_asm)
  then show "set (url_path u) \<subseteq> set raw" "set (url_query u) \<subseteq> set raw"
    using subset_trans [OF part(1) front] subset_trans [OF part(2) front] by simp_all
qed

lemma set_urlunsplit:
  assumes "url_scheme u = []" and "url_netloc u = []" and "url_fragment u = []"
  shows "set (urlunsplit u) \<subseteq> {CHR ''/'', CHR ''?''} \<union> set (url_path u) \<union> set (url_query u)"
  using assms by (auto simp: urlunsplit_def Let_def)

lemma destination_of_visible:
  assumes "destination_of method target = Inr (url, upstream)" and "list_all visible target"
  shows "list_all visible upstream"
proof (cases "method = ''CONNECT''")
  case True
  then have "upstream = target"
    using assms(1)
    by (auto simp: destination_of_def split: if_split_asm option.splits list.splits)
  then show ?thesis using assms(2) by simp
next
  case False
  then obtain u where u: "urlsplit target = Some u" and up: "upstream = urlunsplit
      \<lparr>url_scheme = [], url_netloc = [],
       url_path = (if url_path u = [] then ''/'' else url_path u),
       url_query = url_query u, url_fragment = []\<rparr>"
    using assms(1) by (auto simp: destination_of_def split: if_split_asm option.splits)
  have "visible c" if "c \<in> {CHR ''/'', CHR ''?''} \<or> c \<in> set target" for c
    using that assms(2) by (auto simp: list_all_iff visible_def code_def)
  moreover have "set upstream \<subseteq> {CHR ''/'', CHR ''?''} \<union> set target"
    using set_urlsplit [OF u] set_urlunsplit [of "\<lparr>url_scheme = [], url_netloc = [],
       url_path = (if url_path u = [] then ''/'' else url_path u),
       url_query = url_query u, url_fragment = []\<rparr>"]
    unfolding up by (auto split: if_split_asm)
  ultimately show ?thesis by (auto simp: list_all_iff)
qed

lemma parse_request_line_Inr:
  assumes "parse_request_line line = Inr (method, target, version)"
  shows "method \<in> set allowed_methods \<and> (version = ''HTTP/1.0'' \<or> version = ''HTTP/1.1'')
    \<and> list_all visible target"
proof -
  have "visible c" if "code c < 128" "\<not> control_or_space c" for c
    using that by (auto simp: visible_def control_or_space_def)
  then show ?thesis
    using assms unfolding parse_request_line_def
    by (auto simp: Let_def is_ascii_def list_all_iff list_ex_iff split: list.splits if_split_asm)
qed

lemma parse_request_line_own:
  assumes "method \<in> set allowed_methods" and "version = ''HTTP/1.0'' \<or> version = ''HTTP/1.1''"
    and "list_all visible target"
  shows "parse_request_line (method @ '' '' @ target @ '' '' @ version) = Inr (method, target, version)"
proof -
  have methods: "list_all (\<lambda>m. list_all visible m \<and> map upper_ascii m = m) allowed_methods"
    by code_simp
  have versions: "list_all (list_all visible) [''HTTP/1.0'', ''HTTP/1.1'']" by code_simp
  have vis: "list_all visible method" "list_all visible target" "list_all visible version"
    and up: "map upper_ascii method = method"
    using methods versions assms by (auto simp: list_all_iff)
  have "CHR '' '' \<notin> set s \<and> is_ascii s \<and> \<not> list_ex control_or_space s" if "list_all visible s" for s
    using that by (auto simp: list_all_iff list_ex_iff visible_def is_ascii_def control_or_space_def code_def)
  note clean = this [OF vis(1)] this [OF vis(2)] this [OF vis(3)]
  have "split_on (CHR '' '') (join [CHR '' ''] [method, target, version]) = [method, target, version]"
    by (rule split_on_join) (use clean in auto)
  then have "split_on (CHR '' '') (method @ '' '' @ target @ '' '' @ version) = [method, target, version]"
    by simp
  then show ?thesis
    unfolding parse_request_line_def using clean assms(1,2) up by auto
qed

lemma parse_browser_proxy_request_Inr:
  assumes "parse_browser_proxy_request header body = Inr r"
  shows "pr_method r \<in> set allowed_methods" "pr_version r = ''HTTP/1.0'' \<or> pr_version r = ''HTTP/1.1''"
    "list_all visible (pr_target r)" "\<And>h. h \<in> set (pr_headers r) \<Longrightarrow> good_header h"
    "pr_body r = body"
proof -
  from assms obtain line lines target hosts where
    p: "parse_request_line line = Inr (pr_method r, target, pr_version r)"
      "parse_header_lines lines = Inr (pr_headers r, hosts)"
      "destination_of (pr_method r) target = Inr (pr_url r, pr_target r)"
      "pr_body r = body"
    unfolding parse_browser_proxy_request_def
    by (auto simp: res_simps split: if_split_asm list.splits prod.splits)
  show "pr_method r \<in> set allowed_methods" "pr_version r = ''HTTP/1.0'' \<or> pr_version r = ''HTTP/1.1''"
    using parse_request_line_Inr [OF p(1)] by simp_all
  show "list_all visible (pr_target r)"
    using destination_of_visible [OF p(3)] parse_request_line_Inr [OF p(1)] by simp
  show "\<And>h. h \<in> set (pr_headers r) \<Longrightarrow> good_header h" by (rule parse_header_lines_good [OF p(2)])
  show "pr_body r = body" by (rule p(4))
qed

lemma origin_form_lines_host:
  "origin_form_lines r d =
     (pr_method r @ '' '' @ pr_target r @ '' '' @ pr_version r) # header_line (''Host'', host_header d)
     # map header_line (filter (\<lambda>(name, val). str_lower name \<noteq> ''host'') (pr_headers r))
     @ [''Connection: close'']"
  by (simp add: origin_form_lines_def header_line_def host_header_def Let_def)

lemma host_header_visible:
  assumes "validate_url idna lookup ports url = Inr d"
  shows "list_all visible (host_header d)"
proof -
  have "list_all visible (dst_hostname d)" using hostname_visible [OF assms] by (simp add: list_all_iff)
  moreover have "list_all visible (show_nat n)" for n
    using show_nat_digits is_digit_visible by (auto simp: list_all_iff)
  ultimately show ?thesis
    using visible_colon
    by (auto simp: host_header_def Let_def visible_def code_def)
qed

lemma good_host_header:
  assumes "list_all visible v"
  shows "good_header (''Host'', v)"
proof -
  have "list_all token_char ''Host'' \<and> str_lower ''Host'' \<notin> set dropped_headers" by code_simp
  moreover have "list_all (\<lambda>c. code c \<noteq> 0 \<and> code c \<noteq> 13 \<and> code c \<noteq> 10) v"
    using assms by (auto simp: list_all_iff visible_def)
  moreover have "\<not> visible c" if "c \<in> set [CHR '' '', CHR 0x09]" for c
    using that by (auto simp: visible_def code_def)
  then have "v = [] \<or> hd v \<notin> set [CHR '' '', CHR 0x09] \<and> last v \<notin> set [CHR '' '', CHR 0x09]"
    using assms by (metis hd_in_set last_in_set list_all_iff)
  ultimately show ?thesis using strip_chars_id by (simp add: good_header_def)
qed

section \<open>What the proxy guarantees\<close>

lemma good_header_line:
  assumes "good_header h" shows "no_line_break (header_line h)"
proof -
  obtain name val where h: "h = (name, val)" by (cases h)
  have "list_all visible name" "list_all (\<lambda>c. code c \<noteq> 13 \<and> code c \<noteq> 10) val"
    using assms token_char_visible by (auto simp: h good_header_def list_all_iff)
  then have "no_line_break name" "no_line_break val"
    using visible_no_line_break by (auto simp: no_line_break_def list_all_iff code_def)
  then show ?thesis by (simp add: h header_line_def no_line_break_def)
qed

lemma origin_form_lines_no_break:
  assumes "parse_browser_proxy_request header body = Inr r" and "list_all visible (host_header d)"
    and "l \<in> set (origin_form_lines r d)"
  shows "no_line_break l"
proof -
  note p = parse_browser_proxy_request_Inr [OF assms(1)]
  have "list_all (list_all visible) allowed_methods" "list_all visible ''HTTP/1.0''"
    "list_all visible ''HTTP/1.1''" by code_simp+
  then have "list_all visible (pr_method r)" "list_all visible (pr_version r)"
    using p(1,2) by (auto simp: list_all_iff)
  then have "no_line_break (pr_method r @ '' '' @ pr_target r @ '' '' @ pr_version r)"
    using p(3) visible_no_line_break by (simp add: no_line_break_def)
  moreover have "no_line_break (header_line (''Host'', host_header d))"
    using assms(2) by (intro good_header_line good_host_header)
  moreover have "no_line_break (header_line h)" if "h \<in> set (pr_headers r)" for h
    using p(4) that good_header_line by blast
  moreover have "no_line_break ''Connection: close''" by (simp add: no_line_break_def)
  ultimately show ?thesis using assms(3) by (auto simp: origin_form_lines_host)
qed

text \<open>C28. No request smuggling: the head that is sent upstream splits at its line breaks into exactly
  the lines the proxy wrote, and the proxy's own parser reads them back as the method, target and
  version of the accepted request and its kept headers in order, with one Host header, which is
  that of the checked destination, whatever Host the browser sent.\<close>

theorem forwarded_head_is_unambiguous:
  assumes "parse_browser_proxy_request header body = Inr r"
    and "authorize_browser_proxy_request idna lookup ports r = Inr d"
  shows "split_crlf (origin_form_request r d) = origin_form_lines r d @ [[], []]
    \<and> parse_request_line (hd (origin_form_lines r d)) = Inr (pr_method r, pr_target r, pr_version r)
    \<and> parse_header_lines (tl (origin_form_lines r d)) =
        Inr ((''Host'', host_header d)
             # filter (\<lambda>(name, val). str_lower name \<noteq> ''host'') (pr_headers r), 1)"
proof -
  note p = parse_browser_proxy_request_Inr [OF assms(1)]
  have host: "list_all visible (host_header d)"
    using host_header_visible assms(2) unfolding authorize_browser_proxy_request_def by blast
  define kept where "kept = filter (\<lambda>(name, val). str_lower name \<noteq> ''host'') (pr_headers r)"
  have "origin_form_lines r d \<noteq> []" by (simp add: origin_form_lines_host)
  then have "split_crlf (origin_form_request r d) = origin_form_lines r d @ split_crlf crlf"
    unfolding origin_form_request_def
    by (rule split_crlf_join) (rule origin_form_lines_no_break [OF assms(1) host])
  moreover have "split_crlf crlf = [[], []]" by (simp add: crlf_def)
  moreover have "parse_request_line (hd (origin_form_lines r d)) = Inr (pr_method r, pr_target r, pr_version r)"
    using parse_request_line_own [OF p(1,2,3)] by (simp add: origin_form_lines_host)
  moreover have "good_header h" if "h \<in> set ((''Host'', host_header d) # kept)" for h
    using that p(4) good_host_header [OF host] by (auto simp: kept_def)
  note own = parse_header_lines_own [OF this connection_close]
  have lines: "tl (origin_form_lines r d) =
      map header_line ((''Host'', host_header d) # kept) @ [''Connection: close'']"
    by (simp add: origin_form_lines_host kept_def)
  have hosts: "length (filter (\<lambda>(name, val). str_lower name = ''host'') ((''Host'', host_header d) # kept)) = 1"
  proof -
    have "str_lower ''Host'' = ''host''" by code_simp
    moreover have "filter (\<lambda>(name, val). str_lower name = ''host'') kept = []"
      by (auto simp: kept_def filter_empty_conv)
    ultimately show ?thesis by simp
  qed
  have "parse_header_lines (tl (origin_form_lines r d)) = Inr ((''Host'', host_header d) # kept, 1)"
    unfolding hosts lines using own by (simp only: hosts append_Nil2 add_0_right)
  ultimately show ?thesis unfolding kept_def by simp
qed

lemma pinned_address_checked:
  assumes "validate_url idna lookup ports url = Inr d"
  shows "\<exists>a. pinned_address d = Some (show_ip a, dst_port d) \<and> public_ip a
    \<and> show_ip a \<in> set (dst_addresses d)"
proof -
  obtain scheme h lit as where v: "normalize_hostname idna h = Inr (dst_hostname d, lit)"
    "candidate_addresses lookup (dst_hostname d) (dst_port d) lit = Inr as"
    "require_all as = Inr ()" "dst_addresses d = ordered_addresses as"
    using assms by (rule validate_url_Inr)
  have as: "as \<noteq> []" "\<And>a. a \<in> set as \<Longrightarrow> public_ip a \<and> ip_address (show_ip a) = Some a"
    using candidate_addresses_public [OF v(1-3)] by blast+
  then have "hd (dst_addresses d) \<in> show_ip ` set as"
    using v(4) by (metis hd_in_set ordered_addresses_Nil set_ordered_addresses)
  then obtain a where a: "a \<in> set as" "hd (dst_addresses d) = show_ip a" by auto
  then show ?thesis
    using as(2) v(4) by (auto simp: pinned_address_def)
qed

text \<open>What one side sends up to the end of its stream.\<close>

fun payloads :: "side \<Rightarrow> pump_event list \<Rightarrow> string list" where
  "payloads s [] = []"
| "payloads s (e # es) =
     (case e of
        Readable t (Some p) \<Rightarrow>
          if t \<noteq> s then payloads s es else if p = [] then [] else p # payloads s es
      | _ \<Rightarrow> payloads s es)"

lemma pump_copies_in_order:
  "pump_bidirectionally open_readers es = (down, up, broken) \<Longrightarrow>
   prefix up (if Client \<in> set open_readers then payloads Client es else [])
   \<and> prefix down (if Upstream \<in> set open_readers then payloads Upstream es else [])"
proof (induction open_readers es arbitrary: down up broken rule: pump_bidirectionally.induct)
  case (2 open_readers e es)
  consider (stop) "open_readers = [] \<or> e = Quiet \<or> e = Broken"
    | (closed) s p where "e = Readable s p" "s \<notin> set open_readers" "open_readers \<noteq> []"
    | (block) s where "e = Readable s None" "s \<in> set open_readers" "open_readers \<noteq> []"
    | (eof) s where "e = Readable s (Some [])" "s \<in> set open_readers" "open_readers \<noteq> []"
    | (data) s c cs where "e = Readable s (Some (c # cs))" "s \<in> set open_readers" "open_readers \<noteq> []"
    by (cases e) (metis list.exhaust option.exhaust)+
  then show ?case
  proof cases
    case stop
    then have "fst (pump_bidirectionally open_readers (e # es)) = []
        \<and> fst (snd (pump_bidirectionally open_readers (e # es))) = []" by auto
    then have "down = [] \<and> up = []" unfolding 2(5) by simp
    then show ?thesis by simp
  next
    case closed
    then show ?thesis using 2(1) 2(5) by (cases s) (auto split: option.split if_split_asm)
  next
    case block
    then have "payloads t (e # es) = payloads t es" for t by simp
    moreover have "pump_bidirectionally open_readers es = (down, up, broken)" "\<not> s \<notin> set open_readers"
      using 2(5) block by simp_all
    note 2(2) [OF block(3) block(1) this(2) refl this(1)]
    ultimately show ?thesis by (simp only:)
  next
    case eof
    then show ?thesis using 2(3) 2(5) by (cases s) (auto split: if_split_asm)
  next
    case data
    obtain d u b where rec: "pump_bidirectionally open_readers es = (d, u, b)"
      by (cases "pump_bidirectionally open_readers es")
    have "\<not> s \<notin> set open_readers" using data by simp
    note 2(4) [OF data(3) data(1) this refl refl rec]
    then show ?thesis using data 2(5) rec by (cases s) auto
  qed
qed simp

lemma take_prefix: "prefix (take n xs) (xs @ ys)"
  using take_is_prefix by (rule prefix_prefix)

lemma serve_connected_upstream:
  "ex_target (serve_connected env r d address) = Some address
   \<and> prefix (ex_upstream (serve_connected env r d address))
       (opening_bytes r d @ payloads Client (pe_events env))"
proof -
  obtain down up broken where p: "pump_bidirectionally [Client, Upstream] (pe_events env) = (down, up, broken)"
    by (cases "pump_bidirectionally [Client, Upstream] (pe_events env)")
  have "prefix up (payloads Client (pe_events env))"
    using pump_copies_in_order [OF p] by simp
  then show ?thesis
    by (simp add: serve_connected_def Let_def p take_prefix)
qed

text \<open>C29. The browser reaches only what the policy allows, and only with bytes of its own request: for
  whatever the client sends the worker finishes without an exception; unless a request was
  received, parsed and accepted there is no connection, nothing is sent upstream and the client
  gets a 403; otherwise the connection goes to the number of a public address that this very
  check resolved, on an allowed port (443 for a tunnel), and what is sent there is, in order, a
  prefix of the rewritten head, the body and the bytes the client sends afterwards.\<close>

theorem proxy_reaches_only_allowed_destinations:
  "\<exists>ex. handle_client env packets = Some ex \<and>
     (case ex_target ex of
        None \<Rightarrow> ex_upstream ex = [] \<and> ex_client ex = to_client env (status_line 403)
      | Some (address, port) \<Rightarrow>
          \<exists>header buffered later r d a.
            receive_header [] packets = Inr (header, buffered, later)
            \<and> parse_browser_proxy_request header buffered = Inr r
            \<and> validate_url (pe_idna env) (pe_lookup env) (effective_ports (pe_ports env) r) (pr_url r) = Inr d
            \<and> address \<in> set (dst_addresses d) \<and> address = show_ip a \<and> public_ip a
            \<and> port \<in> (if pr_method r = ''CONNECT'' then {443} \<inter> set (pe_ports env) else set (pe_ports env))
            \<and> prefix (ex_upstream ex) (opening_bytes r d @ payloads Client (pe_events env)))"
proof (cases "receive_header [] packets")
  case Inl then show ?thesis by (simp add: handle_client_def refused_def)
next
  case (Inr res)
  then obtain header buffered later where rec: "receive_header [] packets = Inr (header, buffered, later)"
    by (cases res) auto
  show ?thesis
  proof (cases "parse_browser_proxy_request header buffered")
    case Inl then show ?thesis using rec by (simp add: handle_client_def refused_def)
  next
    case r: (Inr r)
    show ?thesis
    proof (cases "authorize_browser_proxy_request (pe_idna env) (pe_lookup env) (pe_ports env) r")
      case Inl then show ?thesis using rec r by (simp add: handle_client_def refused_def)
    next
      case auth: (Inr d)
      then have d: "validate_url (pe_idna env) (pe_lookup env) (effective_ports (pe_ports env) r) (pr_url r) = Inr d"
        by (simp add: authorize_browser_proxy_request_def)
      obtain a where a: "pinned_address d = Some (show_ip a, dst_port d)" "public_ip a"
        "show_ip a \<in> set (dst_addresses d)" using pinned_address_checked [OF d] by blast
      have "dst_port d \<in> set (effective_ports (pe_ports env) r)"
        using d by (rule validate_url_Inr) (use check_url_parts_Inr in blast)
      then have port: "dst_port d \<in> (if pr_method r = ''CONNECT'' then {443} \<inter> set (pe_ports env) else set (pe_ports env))"
        by (auto simp: effective_ports_def split: if_split_asm)
      define ex where "ex = the (handle_client env packets)"
      have "handle_client env packets = Some ex \<and> ex_target ex = Some (show_ip a, dst_port d)
        \<and> prefix (ex_upstream ex) (opening_bytes r d @ payloads Client (pe_events env))"
        using serve_connected_upstream [of env r d] rec r auth a(1)
        by (simp add: ex_def handle_client_def)
      then show ?thesis using rec r d a(2,3) port by auto
    qed
  qed
qed

text \<open>The accept loop never runs more workers than the semaphore admits.\<close>

lemma server_capacity:
  assumes "server_new n = Some s"
  shows "length (sv_workers (fold server_step es s)) + sv_permits (fold server_step es s) = n"
proof -
  have "length (sv_workers s) + sv_permits s = n" using assms by (auto simp: server_new_def split: if_split_asm)
  then show ?thesis
  proof (induction es arbitrary: s)
    case (Cons e es)
    have "length (sv_workers (server_step e s)) + sv_permits (server_step e s) = n"
      using Cons.prems by (auto simp: server_step_def length_remove1 Suc_pred split: server_event.split
          dest: length_pos_if_in_set)
    then show ?case using Cons.IH by simp
  qed simp
qed

definition demo_head :: string where
  "demo_head = ''CONNECT example.org:443 HTTP/1.1'' @ crlf @ ''Host: other'' @ crlf @ ''A:  b '' @ crlf @ crlf"

definition demo_request :: proxy_request where
  "demo_request = \<lparr>pr_method = ''CONNECT'', pr_version = ''HTTP/1.1'',
     pr_url = ''https://example.org:443/'', pr_target = ''example.org:443'',
     pr_headers = [(''Host'', ''other''), (''A'', ''b'')], pr_body = []\<rparr>"

lemma demo_parsed: "parse_browser_proxy_request demo_head [] = Inr demo_request"
  by code_simp

lemma demo_authorized:
  "authorize_browser_proxy_request (\<lambda>_. None) demo_lookup default_ports demo_request =
     Inr (demo_destination\<lparr>dst_url := ''https://example.org:443/''\<rparr>)"
  by code_simp

theorem forwarded_head_is_unambiguous_witness:
  "parse_header_lines (tl (origin_form_lines demo_request
     (demo_destination\<lparr>dst_url := ''https://example.org:443/''\<rparr>))) =
   Inr ([(''Host'', ''example.org''), (''A'', ''b'')], 1)"
proof -
  have "host_header (demo_destination\<lparr>dst_url := ''https://example.org:443/''\<rparr>) = ''example.org''"
    "filter (\<lambda>(name, val). str_lower name \<noteq> ''host'') (pr_headers demo_request) = [(''A'', ''b'')]"
    by code_simp+
  with forwarded_head_is_unambiguous [OF demo_parsed demo_authorized] show ?thesis by simp
qed

end
