(* ===== verification/Import_Guard.thy ===== *)
theory Import_Guard
  imports Py_Url
begin

text \<open>
  What may enter and leave through files (\<^verbatim>\<open>backend/import_security.py\<close>,
  \<^verbatim>\<open>backend/file_security.py\<close>): the limits on an uploaded JSON or Excel file, the neutral form of
  a spreadsheet cell, and the atomic replacement of a file. Decoding, JSON and ZIP reading are
  the standard library's and \<open>openpyxl\<close>'s; what they return is given.
\<close>

section \<open>Limits\<close>

definition output_columns :: "string list" where
  "output_columns = [''Company ID'', ''Company Name'', ''Industry'', ''Company Description'', ''City'',
     ''State'', ''Country'', ''Known Website'', ''Official Website'', ''Website Discovery Method'',
     ''Website Candidate URLs'', ''Website Verification Notes'', ''Website Verified'',
     ''Careers Page URL'', ''Job Board URL'', ''Job Board Discovery Method'', ''Jobs RSS Feed URL'',
     ''Job Platform'', ''Feed Found'', ''Search Status'', ''Confidence'', ''Last Checked'', ''Notes'',
     ''Founded Year'', ''Total Assets'', ''Assets As Of Date'', ''Company Information Last Checked'']"

definition max_json_nesting :: nat where "max_json_nesting = 64"
definition max_upload_bytes :: nat where "max_upload_bytes = 25 * 1024 * 1024"
definition max_import_rows :: nat where "max_import_rows = 50000"
definition max_worksheets :: nat where "max_worksheets = 10"
definition max_archive_files :: nat where "max_archive_files = 5000"
definition max_uncompressed_bytes :: nat where "max_uncompressed_bytes = 100 * 1024 * 1024"
definition max_import_columns :: nat where "max_import_columns = length output_columns"

definition max_import_cells :: nat where
  "max_import_cells = max_import_columns * (max_import_rows + max_worksheets)"

datatype import_error =
    Unsupported_File | Empty_File | Upload_Too_Large | Not_Xlsx_Contents
  | Malformed_Json | Not_Arrays | Too_Many_Records | Not_Objects | No_Records
  | Malformed_Archive | Missing_Workbook_Content | Too_Many_Files | Too_Many_Worksheets
  | Expands_Too_Far | Unsafe_Ratio | Corrupted_Archive
  | Malformed_Workbook | Too_Many_Columns | Too_Many_Cells | Too_Many_Rows

section \<open>JSON\<close>

text \<open>The scanner's state: depth, inside a string, after a backslash. \<open>None\<close> is the
  \<open>RecursionError\<close>.\<close>

definition nesting_step :: "nat \<times> bool \<times> bool \<Rightarrow> char \<Rightarrow> (nat \<times> bool \<times> bool) option" where
  "nesting_step s c =
     (case s of (depth, in_string, escaped) \<Rightarrow>
        if in_string then
          Some (if escaped then (depth, True, False)
                else if c = CHR 0x5C then (depth, True, True)
                else if c = CHR 0x22 then (depth, False, escaped)
                else (depth, True, escaped))
        else if c = CHR 0x22 then Some (depth, True, escaped)
        else if c = CHR ''['' \<or> c = CHR ''{'' then
          (if max_json_nesting < depth + 1 then None else Some (depth + 1, False, escaped))
        else if (c = CHR '']'' \<or> c = CHR ''}'') \<and> depth \<noteq> 0 then Some (depth - 1, False, escaped)
        else Some s)"

fun nesting_scan :: "nat \<times> bool \<times> bool \<Rightarrow> string \<Rightarrow> (nat \<times> bool \<times> bool) option" where
  "nesting_scan s [] = Some s"
| "nesting_scan s (c # cs) = (case nesting_step s c of None \<Rightarrow> None | Some s' \<Rightarrow> nesting_scan s' cs)"

definition enforce_json_nesting_limit :: "string \<Rightarrow> bool" where
  "enforce_json_nesting_limit document \<longleftrightarrow> nesting_scan (0, False, False) document \<noteq> None"

datatype json = Json_Object "(string \<times> json) list" | Json_Array "json list" | Json_Scalar

fun is_object :: "json \<Rightarrow> bool" where
  "is_object (Json_Object _) = True"
| "is_object _ = False"

definition enforce_record_limit :: "json \<Rightarrow> json \<Rightarrow> import_error + json list \<times> json list" where
  "enforce_record_limit company_payloads job_payloads =
     (case (company_payloads, job_payloads) of
        (Json_Array companies, Json_Array jobs) \<Rightarrow>
          if max_import_rows < length companies + length jobs then Inl Too_Many_Records
          else if list_ex (\<lambda>item. \<not> is_object item) (companies @ jobs) then Inl Not_Objects
          else Inr (companies, jobs)
      | _ \<Rightarrow> Inl Not_Arrays)"

text \<open>The decoder and the JSON reader are given; a dictionary has each key once.\<close>

definition dict_get :: "(string \<times> json) list \<Rightarrow> string \<Rightarrow> json" where
  "dict_get members key = (case map_of members key of Some v \<Rightarrow> v | None \<Rightarrow> Json_Array [])"

definition validate_json_bytes ::
  "(string \<Rightarrow> string option) \<Rightarrow> (string \<Rightarrow> json option) \<Rightarrow> string \<Rightarrow> import_error + unit" where
  "validate_json_bytes decode loads contents =
     (case decode contents of
        None \<Rightarrow> Inl Malformed_Json
      | Some document \<Rightarrow>
          if \<not> enforce_json_nesting_limit document then Inl Malformed_Json
          else case loads document of
            None \<Rightarrow> Inl Malformed_Json
          | Some (Json_Object members) \<Rightarrow>
              bind_res (enforce_record_limit (dict_get members ''companies'') (dict_get members ''jobs''))
                (\<lambda>_. Inr ())
          | Some (Json_Array items) \<Rightarrow>
              if max_import_rows < length items \<or> list_ex (\<lambda>item. \<not> is_object item) items
              then Inl Too_Many_Records else Inr ()
          | Some Json_Scalar \<Rightarrow> Inl No_Records)"

section \<open>Excel\<close>

record archive_entry =
  ae_filename :: string
  ae_file_size :: nat
  ae_compress_size :: nat

definition is_worksheet :: "string \<Rightarrow> bool" where
  "is_worksheet name \<longleftrightarrow> prefix ''xl/worksheets/'' name \<and> suffix ''.xml'' name"

definition unsafe_ratio :: "archive_entry \<Rightarrow> bool" where
  "unsafe_ratio e \<longleftrightarrow> 1024 * 1024 < ae_file_size e
     \<and> max 1 (ae_compress_size e) * 200 < ae_file_size e"

text \<open>\<open>None\<close>: the archive cannot be opened. The flag is the result of \<open>testzip\<close>.\<close>

definition validate_xlsx_archive :: "(archive_entry list \<times> bool) option \<Rightarrow> import_error + unit" where
  "validate_xlsx_archive archive =
     (case archive of
        None \<Rightarrow> Inl Malformed_Archive
      | Some (entries, intact) \<Rightarrow>
          (let names = fromkeys (map ae_filename entries) in
           if ''[Content_Types].xml'' \<notin> set names \<or> ''xl/workbook.xml'' \<notin> set names
           then Inl Missing_Workbook_Content
           else if max_archive_files < length entries then Inl Too_Many_Files
           else if max_worksheets < length (filter is_worksheet names) then Inl Too_Many_Worksheets
           else if max_uncompressed_bytes < sum_list (map ae_file_size entries) then Inl Expands_Too_Far
           else if list_ex unsafe_ratio entries then Inl Unsafe_Ratio
           else if \<not> intact then Inl Corrupted_Archive
           else Inr ()))"

text \<open>A sheet is the list of its rows, a row the list of its cells (\<open>None\<close> for an empty cell).
  The counters are the rows and the populated cells so far.\<close>

type_synonym 'v sheet = "'v option list list"

definition row_cells :: "'v option list \<Rightarrow> nat" where
  "row_cells row = length (filter (\<lambda>v. v \<noteq> None) row)"

fun check_rows :: "nat \<Rightarrow> nat \<times> nat \<Rightarrow> 'v sheet \<Rightarrow> import_error + nat \<times> nat" where
  "check_rows row_number counts [] = Inr counts"
| "check_rows row_number (total_rows, cells) (row # rows) =
     (let cells' = cells + row_cells row in
      if max_import_columns < length row then Inl Too_Many_Columns
      else if max_import_cells < cells' then Inl Too_Many_Cells
      else if 1 < row_number then
        (if max_import_rows < total_rows + 1 then Inl Too_Many_Rows
         else check_rows (row_number + 1) (total_rows + 1, cells') rows)
      else check_rows (row_number + 1) (total_rows, cells') rows)"

definition enforce_xlsx_shape_limits :: "'v sheet list \<Rightarrow> import_error + unit" where
  "enforce_xlsx_shape_limits sheets =
     bind_res (fold_res (\<lambda>rows counts. check_rows 1 counts rows) sheets (0, 0)) (\<lambda>_. Inr ())"

section \<open>The upload and the staged file\<close>

text \<open>\<open>Path(name).suffix\<close>.\<close>

definition path_name :: "string \<Rightarrow> string" where
  "path_name p =
     (case rev (filter (\<lambda>s. s \<noteq> [] \<and> s \<noteq> ''.'') (split_on (CHR ''/'') p)) of
        [] \<Rightarrow> [] | s # _ \<Rightarrow> s)"

definition path_suffix :: "string \<Rightarrow> string" where
  "path_suffix p =
     (case rpartition (CHR ''.'') (path_name p) of (stem, found, ext) \<Rightarrow>
        if found \<and> stem \<noteq> [] \<and> ext \<noteq> [] then CHR ''.'' # ext else [])"

record 'v import_env =
  ie_decode :: "string \<Rightarrow> string option"
  ie_loads :: "string \<Rightarrow> json option"
  ie_archive :: "string \<Rightarrow> (archive_entry list \<times> bool) option"
  ie_workbook :: "string \<Rightarrow> 'v sheet list option"

definition zip_magic :: string where
  "zip_magic = [CHR ''P'', CHR ''K'', CHR 0x03, CHR 0x04]"

definition validate_import_upload :: "'v import_env \<Rightarrow> string \<Rightarrow> string \<Rightarrow> import_error + string" where
  "validate_import_upload env filename contents =
     (let suffix = str_casefold (path_suffix filename) in
      if suffix \<notin> {''.json'', ''.xlsx''} then Inl Unsupported_File
      else if contents = [] then Inl Empty_File
      else if max_upload_bytes < length contents then Inl Upload_Too_Large
      else if suffix = ''.json''
      then bind_res (validate_json_bytes (ie_decode env) (ie_loads env) contents) (\<lambda>_. Inr suffix)
      else if take 4 contents \<noteq> zip_magic then Inl Not_Xlsx_Contents
      else bind_res (validate_xlsx_archive (ie_archive env contents)) (\<lambda>_. Inr suffix))"

definition validate_staged_import :: "'v import_env \<Rightarrow> string \<Rightarrow> string \<Rightarrow> import_error + unit" where
  "validate_staged_import env filename contents =
     (let suffix = str_casefold (path_suffix filename) in
      if max_upload_bytes < length contents then Inl Upload_Too_Large
      else if suffix = ''.json'' then validate_json_bytes (ie_decode env) (ie_loads env) contents
      else if suffix \<noteq> ''.xlsx'' then Inl Unsupported_File
      else
        bind_res (validate_xlsx_archive (ie_archive env contents)) (\<lambda>_.
          case ie_workbook env contents of
            None \<Rightarrow> Inl Malformed_Workbook
          | Some sheets \<Rightarrow>
              if max_worksheets < length sheets then Inl Too_Many_Worksheets
              else enforce_xlsx_shape_limits sheets))"

section \<open>The scanner measures the depth of a JSON text\<close>

text \<open>Nesting of a text, from its grammar: characters outside strings that are neither quotes nor
  brackets, strings with their escapes, bracketed texts and concatenations. Every JSON document
  is such a text, and its nesting is the number of arrays and objects around its deepest part.\<close>

inductive string_body :: "string \<Rightarrow> bool" where
  string_end: "string_body []"
| string_plain: "string_body s \<Longrightarrow> c \<noteq> CHR 0x22 \<Longrightarrow> c \<noteq> CHR 0x5C \<Longrightarrow> string_body (c # s)"
| string_escape: "string_body s \<Longrightarrow> string_body (CHR 0x5C # c # s)"

inductive json_text :: "nat \<Rightarrow> string \<Rightarrow> bool" where
  plain_text: "list_all (\<lambda>c. c \<noteq> CHR 0x22 \<and> c \<notin> set ''[]{}'') s \<Longrightarrow> json_text 0 s"
| string_text: "string_body s \<Longrightarrow> json_text 0 (CHR 0x22 # s @ [CHR 0x22])"
| array_text: "json_text d s \<Longrightarrow> json_text (Suc d) (CHR ''['' # s @ '']'')"
| object_text: "json_text d s \<Longrightarrow> json_text (Suc d) (CHR ''{'' # s @ ''}'')"
| text_append: "json_text d s \<Longrightarrow> json_text e t \<Longrightarrow> json_text (max d e) (s @ t)"

lemma nesting_scan_append:
  "nesting_scan s (xs @ ys) = (case nesting_scan s xs of None \<Rightarrow> None | Some s' \<Rightarrow> nesting_scan s' ys)"
  by (induction xs arbitrary: s) (auto split: option.split)

lemma scan_string_body:
  "string_body s \<Longrightarrow> nesting_scan (k, True, False) (s @ [CHR 0x22]) = Some (k, False, False)"
  by (induction rule: string_body.induct) (auto simp: nesting_step_def)

lemma scan_plain:
  "list_all (\<lambda>c. c \<noteq> CHR 0x22 \<and> c \<notin> set ''[]{}'') s \<Longrightarrow>
   nesting_scan (k, False, False) s = Some (k, False, False)"
  by (induction s) (auto simp: nesting_step_def)

lemma scan_bracket:
  assumes "\<And>k. k \<le> max_json_nesting \<Longrightarrow> nesting_scan (k, False, False) s =
      (if k + d \<le> max_json_nesting then Some (k, False, False) else None)"
    and "(op, cl) \<in> {(CHR ''['', CHR '']''), (CHR ''{'', CHR ''}'')}" and "k \<le> max_json_nesting"
  shows "nesting_scan (k, False, False) (op # s @ [cl]) =
    (if k + Suc d \<le> max_json_nesting then Some (k, False, False) else None)"
proof (cases "Suc k \<le> max_json_nesting")
  case True
  then have "nesting_step (k, False, False) op = Some (Suc k, False, False)"
    using assms(2) by (auto simp: nesting_step_def)
  moreover have "nesting_step (Suc k, False, False) cl = Some (k, False, False)"
    using assms(2) by (auto simp: nesting_step_def)
  ultimately show ?thesis using assms(1) [OF True] by (simp add: nesting_scan_append)
next
  case False
  then have "nesting_step (k, False, False) op = None"
    using assms(2) by (auto simp: nesting_step_def)
  then show ?thesis using False by simp
qed

lemma scan_json_text:
  "json_text d s \<Longrightarrow> k \<le> max_json_nesting \<Longrightarrow> nesting_scan (k, False, False) s =
     (if k + d \<le> max_json_nesting then Some (k, False, False) else None)"
proof (induction arbitrary: k rule: json_text.induct)
  case (plain_text s)
  then show ?case by (simp add: scan_plain)
next
  case (string_text s)
  then show ?case by (simp add: scan_string_body nesting_step_def)
next
  case (array_text d s)
  show ?case by (rule scan_bracket [OF array_text.IH _ array_text.prems]) simp_all
next
  case (object_text d s)
  show ?case by (rule scan_bracket [OF object_text.IH _ object_text.prems]) simp_all
next
  case (text_append d s e t)
  then show ?case by (auto simp: nesting_scan_append max_def)
qed

text \<open>C30. The nesting scanner agrees with the grammar: a JSON text is let through to the decoder
  exactly when its arrays and objects nest at most 64 deep, whatever brackets, quotes and
  backslashes stand inside its strings.\<close>

theorem nesting_limit_is_exact:
  assumes "json_text d document"
  shows "enforce_json_nesting_limit document \<longleftrightarrow> d \<le> max_json_nesting"
  using scan_json_text [OF assms, of 0] by (auto simp: enforce_json_nesting_limit_def split: if_split_asm)

definition demo_json :: string where
  "demo_json = ''[{'' @ [CHR 0x22, CHR 0x5C, CHR 0x22, CHR ''['', CHR 0x22] @ '':1}]''"

theorem nesting_limit_is_exact_witness: "enforce_json_nesting_limit demo_json"
proof -
  have "json_text 0 [CHR 0x22, CHR 0x5C, CHR 0x22, CHR ''['', CHR 0x22]"
    using json_text.string_text [of "[CHR 0x5C, CHR 0x22, CHR ''['']"]
    by (auto intro: string_body.intros)
  moreover have "json_text 0 '':1''" by (rule json_text.plain_text) simp
  ultimately have "json_text (max 0 0) ([CHR 0x22, CHR 0x5C, CHR 0x22, CHR ''['', CHR 0x22] @ '':1'')"
    by (rule json_text.text_append)
  from json_text.array_text [OF json_text.object_text [OF this]]
  have "json_text 2 demo_json" by (simp add: demo_json_def numeral_2_eq_2)
  from nesting_limit_is_exact [OF this] show ?thesis by (simp add: max_json_nesting_def)
qed

section \<open>The shape limits\<close>

definition populated :: "'v sheet \<Rightarrow> nat" where
  "populated rows = sum_list (map row_cells rows)"

lemma check_rows_from_second:
  "1 < n \<Longrightarrow> check_rows n (r, c) rows = Inr counts \<longleftrightarrow>
     (\<forall>row \<in> set rows. length row \<le> max_import_columns)
     \<and> (rows \<noteq> [] \<longrightarrow> c + populated rows \<le> max_import_cells \<and> r + length rows \<le> max_import_rows)
     \<and> counts = (r + length rows, c + populated rows)"
proof (induction rows arbitrary: n r c)
  case (Cons row rows)
  have "1 < Suc n" using Cons.prems by simp
  note IH = Cons.IH [OF this]
  show ?case
    using Cons.prems
    by (cases "rows = []") (auto simp: Let_def IH populated_def not_less)
qed (auto simp: populated_def)

lemma check_rows_counts:
  assumes "r \<le> max_import_rows" and "c \<le> max_import_cells"
  shows "check_rows 1 (r, c) rows = Inr counts \<longleftrightarrow>
    (\<forall>row \<in> set rows. length row \<le> max_import_columns)
    \<and> c + populated rows \<le> max_import_cells \<and> r + (length rows - 1) \<le> max_import_rows
    \<and> counts = (r + (length rows - 1), c + populated rows)"
proof (cases rows)
  case (Cons row rest)
  then show ?thesis
    using assms
    by (cases "rest = []") (auto simp: Let_def check_rows_from_second populated_def not_less)
qed (use assms in \<open>auto simp: populated_def\<close>)

lemma fold_sheets:
  assumes "r \<le> max_import_rows" and "c \<le> max_import_cells"
  shows "fold_res (\<lambda>rows counts. check_rows 1 counts rows) sheets (r, c) = Inr counts \<longleftrightarrow>
    (\<forall>rows \<in> set sheets. \<forall>row \<in> set rows. length row \<le> max_import_columns)
    \<and> c + sum_list (map populated sheets) \<le> max_import_cells
    \<and> r + sum_list (map (\<lambda>rows. length rows - 1) sheets) \<le> max_import_rows
    \<and> counts = (r + sum_list (map (\<lambda>rows. length rows - 1) sheets), c + sum_list (map populated sheets))"
  using assms
proof (induction sheets arbitrary: r c)
  case (Cons rows sheets)
  show ?case
  proof (cases "check_rows 1 (r, c) rows")
    case (Inl e)
    then have "\<not> (\<exists>x. check_rows 1 (r, c) rows = Inr x)" by simp
    then show ?thesis using Inl unfolding check_rows_counts [OF Cons.prems] by auto
  next
    case (Inr x)
    note k = Inr [unfolded check_rows_counts [OF Cons.prems]]
    then have "x = (r + (length rows - 1), c + populated rows)" by blast
    then show ?thesis using Inr k Cons.IH [of "r + (length rows - 1)" "c + populated rows"]
      by (auto simp: add.assoc)
  qed
qed auto

text \<open>The workbook limits are enforced exactly, however the cells are distributed over the
  sheets: a workbook passes if and only if no row is wider than the output columns, the populated
  cells of all sheets together stay within the cell limit and the data rows of all sheets
  together (the first row of a sheet is its header) within the row limit.\<close>

theorem workbook_limits_are_exact:
  "enforce_xlsx_shape_limits sheets = Inr () \<longleftrightarrow>
     list_all (list_all (\<lambda>row. length row \<le> max_import_columns)) sheets
     \<and> sum_list (map populated sheets) \<le> max_import_cells
     \<and> sum_list (map (\<lambda>rows. length rows - 1) sheets) \<le> max_import_rows"
proof -
  have "enforce_xlsx_shape_limits sheets = Inr () \<longleftrightarrow>
      (\<exists>counts. fold_res (\<lambda>rows counts. check_rows 1 counts rows) sheets (0, 0) = Inr counts)"
    by (auto simp: enforce_xlsx_shape_limits_def res_simps)
  then show ?thesis using fold_sheets [of 0 0 sheets] by (auto simp: list_all_iff)
qed

section \<open>Spreadsheet cells\<close>

datatype 'v cell_value = Cell_Text string | Cell_Other 'v

definition control_character :: "char \<Rightarrow> bool" where
  "control_character c \<longleftrightarrow> code c \<le> 8 \<or> code c = 11 \<or> code c = 12 \<or> 14 \<le> code c \<and> code c \<le> 31"

definition formula_prefix :: "string \<Rightarrow> bool" where
  "formula_prefix s \<longleftrightarrow> s \<noteq> [] \<and> hd s \<in> set ''=+-@''"

definition has_unsafe_uri_scheme :: "string \<Rightarrow> bool" where
  "has_unsafe_uri_scheme s =
     (case urlsplit s of
        None \<Rightarrow> True
      | Some u \<Rightarrow> url_scheme u \<noteq> []
          \<and> str_casefold (url_scheme u) \<notin> {''http'', ''https'', ''mailto''})"

definition sanitize_text :: "string \<Rightarrow> string" where
  "sanitize_text s =
     (let cleaned = filter (\<lambda>c. \<not> control_character c) s; stripped = lstrip cleaned in
      if formula_prefix stripped then CHR 0x27 # cleaned
      else if has_unsafe_uri_scheme stripped then CHR 0x27 # cleaned
      else cleaned)"

fun sanitize_spreadsheet_value :: "'v cell_value \<Rightarrow> 'v cell_value" where
  "sanitize_spreadsheet_value (Cell_Text s) = Cell_Text (sanitize_text s)"
| "sanitize_spreadsheet_value (Cell_Other v) = Cell_Other v"

lemma lstrip_quote: "lstrip (CHR 0x27 # s) = CHR 0x27 # s"
  by (simp add: lstrip_def is_space_def code_def)

lemma split_scheme_quote: "split_scheme (CHR 0x27 # s) = ([], CHR 0x27 # s)"
proof (cases "partition (CHR '':'') (CHR 0x27 # s)")
  case (fields front found after)
  then have "front = [] \<or> hd front = CHR 0x27"
    by (auto simp: partition_def split: if_split_asm)
  moreover have "\<not> is_alpha_ascii CHR 0x27" by (simp add: is_alpha_ascii_def code_def)
  ultimately show ?thesis using fields by (auto simp: split_scheme_def)
qed

lemma quoted_text_is_inert:
  "\<not> formula_prefix (lstrip (CHR 0x27 # s))" "\<not> has_unsafe_uri_scheme (lstrip (CHR 0x27 # s))"
proof -
  show "\<not> formula_prefix (lstrip (CHR 0x27 # s))" by (simp add: lstrip_quote formula_prefix_def)
  have q: "\<not> c0_or_space CHR 0x27" "code CHR 0x27 = 39" by (simp_all add: c0_or_space_def code_def)
  obtain t where t: "filter (\<lambda>c. code c \<noteq> 9 \<and> code c \<noteq> 10 \<and> code c \<noteq> 13)
      (dropWhile c0_or_space (CHR 0x27 # s)) = CHR 0x27 # t"
    using q by simp
  have "\<exists>u. urlsplit (CHR 0x27 # s) = Some u \<and> url_scheme u = []"
    unfolding urlsplit_def t Let_def
    by (simp add: split_scheme_quote check_brackets_def split: prod.splits)
  then show "\<not> has_unsafe_uri_scheme (lstrip (CHR 0x27 # s))"
    by (auto simp: lstrip_quote has_unsafe_uri_scheme_def)
qed

lemma no_control_characters: "list_all (\<lambda>c. \<not> control_character c) (sanitize_text s)"
  by (auto simp: sanitize_text_def Let_def list_all_iff control_character_def code_def)

lemma sanitize_fixed:
  assumes "list_all (\<lambda>c. \<not> control_character c) t" and "\<not> formula_prefix (lstrip t)"
    and "\<not> has_unsafe_uri_scheme (lstrip t)"
  shows "sanitize_text t = t"
proof -
  have "filter (\<lambda>c. \<not> control_character c) t = t" using assms(1) by (simp add: list_all_iff)
  then show ?thesis using assms(2,3) by (simp add: sanitize_text_def)
qed

lemma sanitize_text_inert:
  "\<not> formula_prefix (lstrip (sanitize_text s)) \<and> \<not> has_unsafe_uri_scheme (lstrip (sanitize_text s))"
  using quoted_text_is_inert by (simp add: sanitize_text_def Let_def)

text \<open>An exported cell is inert: whatever text a record holds, the cell that is written has no
  control character, its first visible character is no formula sign and it is no link with a
  scheme other than http, https and mailto; the text is kept except for the control characters
  and at most one quote in front; and sanitising once is enough.\<close>

theorem exported_cells_are_inert:
  "list_all (\<lambda>c. \<not> control_character c) (sanitize_text s)
   \<and> \<not> formula_prefix (lstrip (sanitize_text s))
   \<and> \<not> has_unsafe_uri_scheme (lstrip (sanitize_text s))
   \<and> sanitize_text s \<in> {filter (\<lambda>c. \<not> control_character c) s,
        CHR 0x27 # filter (\<lambda>c. \<not> control_character c) s}
   \<and> sanitize_spreadsheet_value (sanitize_spreadsheet_value v) = sanitize_spreadsheet_value v"
proof -
  have "sanitize_text (sanitize_text t) = sanitize_text t" for t
    using sanitize_fixed no_control_characters sanitize_text_inert by blast
  then have "sanitize_spreadsheet_value (sanitize_spreadsheet_value v) = sanitize_spreadsheet_value v"
    by (cases v) simp_all
  moreover have "sanitize_text s \<in> {filter (\<lambda>c. \<not> control_character c) s,
        CHR 0x27 # filter (\<lambda>c. \<not> control_character c) s}"
    by (simp add: sanitize_text_def Let_def)
  ultimately show ?thesis using no_control_characters sanitize_text_inert by blast
qed

section \<open>Replacing a file\<close>

text \<open>A file system maps names to contents. A write goes through a temporary name that
  \<open>mkstemp\<close> found free; the step that fails, if one does, how much of the text had been written
  by then, and whether the clean-up can remove the temporary file are the environment's.\<close>

type_synonym file_system = "string \<Rightarrow> string option"

datatype write_step = Create_Temp | Write_Temp | Sync_Temp | Replace_Target

record write_env =
  we_temp :: string
  we_fails :: "write_step option"
  we_written :: nat
  we_unlinks :: bool

definition unlink_temp :: "write_env \<Rightarrow> file_system \<Rightarrow> file_system" where
  "unlink_temp env fs = (if we_unlinks env then fs(we_temp env := None) else fs)"

text \<open>The file systems seen on the way, in order, and whether the call raised. With a target the
  temporary file replaces it; without one it is kept (the staged upload).\<close>

definition write_through :: "write_env \<Rightarrow> string option \<Rightarrow> string \<Rightarrow> file_system \<Rightarrow> file_system list \<times> bool" where
  "write_through env target contents fs =
     (let created = fs(we_temp env \<mapsto> []);
          part = fs(we_temp env \<mapsto> take (we_written env) contents);
          full = fs(we_temp env \<mapsto> contents)
      in case we_fails env of
           Some Create_Temp \<Rightarrow> ([fs], True)
         | Some Write_Temp \<Rightarrow> ([fs, created, part, unlink_temp env part], True)
         | Some Sync_Temp \<Rightarrow> ([fs, created, full, unlink_temp env full], True)
         | failing \<Rightarrow>
             (case target of
                None \<Rightarrow> ([fs, created, full], False)
              | Some t \<Rightarrow>
                  if failing = Some Replace_Target
                  then ([fs, created, full, unlink_temp env full], True)
                  else ([fs, created, full, full(we_temp env := None, t \<mapsto> contents)], False)))"

definition atomic_write_text :: "write_env \<Rightarrow> string \<Rightarrow> string \<Rightarrow> file_system \<Rightarrow> file_system list \<times> bool" where
  "atomic_write_text env target contents fs = write_through env (Some target) contents fs"

definition stage_import_upload ::
  "'v import_env \<Rightarrow> write_env \<Rightarrow> string \<Rightarrow> string \<Rightarrow> file_system \<Rightarrow> import_error option \<times> file_system list \<times> bool" where
  "stage_import_upload ienv env filename contents fs =
     (case validate_import_upload ienv filename contents of
        Inl e \<Rightarrow> (Some e, [fs], True)
      | Inr _ \<Rightarrow> (None, write_through env None contents fs))"


definition demo_write :: write_env where
  "demo_write = \<lparr>we_temp = ''.t.tmp'', we_fails = Some Write_Temp, we_written = 1, we_unlinks = True\<rparr>"


end
