(* ===== verification/Job_Validation.thy ===== *)
theory Job_Validation
  imports Prelude
begin

text \<open>
  Which collected texts are job titles (\<^verbatim>\<open>job_validation.py\<close>): the normal form of a title, the
  two validators and the reason recorded for a rejected candidate.
\<close>

section \<open>Vocabulary\<close>

definition rejected_exact_titles :: "string list" where
  "rejected_exact_titles =
     [''general employment application'', ''skip to content'', ''careers'', ''career'',
     ''search open positions'', ''search jobs'', ''view open positions'',
     ''view current openings'', ''current openings'', ''job openings'', ''apply now'',
     ''apply'', ''learn more'', ''read more'', ''view details'',
     ''view details (opens an external site)'', ''opens an external site'', ''join our team'',
     ''home'', ''menu'', ''privacy'', ''privacy policy'', ''terms'', ''terms of use'',
     ''accessibility'', ''sign in'', ''login'', ''log in'', ''remote work'', ''benefits'',
     ''culture'', ''locations'', ''equal opportunity'', ''talent community'',
     ''open positions all departments'', ''job alerts'', ''create alert'', ''subscribe'',
     ''share'', ''back'', ''next'', ''previous'', ''filter'', ''sort'']"

definition rejected_title_parts :: "string list" where
  "rejected_title_parts =
     [''view details'', ''opens an external site'', ''skip navigation'', ''current openings'',
     ''equal opportunity employer'', ''join our talent community'', ''cookie'', ''captcha'',
     ''forgot password'', ''create account'', ''job alerts'', ''powered by'', ''remote work'',
     ''equal opportunity'', ''talent community'', ''search jobs'', ''search open positions'',
     ''open positions'', ''apply now'', ''learn more'', ''read more'', ''create alert'',
     ''accessibility'', ''locations'', ''benefits'', ''culture'']"

definition generic_only_words :: "string list" where
  "generic_only_words =
     [''apply'', ''career'', ''careers'', ''job'', ''jobs'', ''menu'', ''opening'',
     ''openings'', ''position'', ''positions'', ''search'', ''view'', ''details'',
     ''external'', ''site'', ''learn'', ''more'', ''read'', ''alerts'', ''alert'',
     ''subscribe'', ''filter'', ''sort'', ''share'', ''back'', ''next'', ''previous'']"

definition role_nouns :: "string list" where
  "role_nouns =
     [''accountant'', ''consultant'', ''teller'', ''banker'', ''representative'',
     ''receptionist'', ''specialist'', ''manager'', ''analyst'', ''engineer'',
     ''administrator'', ''coordinator'', ''processor'', ''officer'', ''associate'',
     ''assistant'', ''director'', ''supervisor'', ''advisor'', ''clerk'', ''technician'',
     ''architect'', ''developer'', ''lead'', ''senior'', ''branch'', ''member'', ''service'',
     ''loan'', ''mortgage'', ''compliance'', ''risk'', ''operations'', ''finance'',
     ''accounting'', ''it'', ''systems'', ''security'', ''infrastructure'', ''core'', ''data'']"

definition structured_boilerplate :: "string list" where
  "structured_boilerplate =
     [''join our talent community'', ''equal opportunity employer'', ''skip navigation'',
      ''forgot password'', ''create account'', ''powered by'', ''search open positions'', ''search jobs'']"

section \<open>The normal form of a title\<close>

text \<open>The optional label \<open>job title:\<close> or \<open>title -\<close> in front.\<close>

definition after_label :: "string \<Rightarrow> string \<Rightarrow> string option" where
  "after_label label s =
     (if take (length label) (str_lower s) = label
      then (case dropWhile is_space (drop (length label) s) of
              c # rest \<Rightarrow> if c = CHR '':'' \<or> c = CHR ''-'' then Some (dropWhile is_space rest) else None
            | [] \<Rightarrow> None)
      else None)"

definition strip_label :: "string \<Rightarrow> string" where
  "strip_label s =
     (case after_label ''job title'' s of
        Some rest \<Rightarrow> rest
      | None \<Rightarrow> (case after_label ''title'' s of Some rest \<Rightarrow> rest | None \<Rightarrow> s))"

definition normalize_job_title :: "string \<Rightarrow> string" where
  "normalize_job_title title = take 180 (strip_label (join '' '' (split_ws title)))"

section \<open>Words and dates\<close>

definition word_char :: "char \<Rightarrow> bool" where
  "word_char c \<longleftrightarrow> is_az c \<or> is_digit c"

text \<open>\<open>findall("[a-z0-9]+")\<close>: the maximal runs of letters and digits.\<close>

fun find_words_from :: "string \<Rightarrow> string \<Rightarrow> string list" where
  "find_words_from cur [] = (if cur = [] then [] else [rev cur])"
| "find_words_from cur (c # cs) =
     (if word_char c then find_words_from (c # cur) cs
      else (if cur = [] then find_words_from [] cs else rev cur # find_words_from [] cs))"

definition find_words :: "string \<Rightarrow> string list" where
  "find_words s = find_words_from [] s"

text \<open>A full match of \<open>\d+\+?\s+days?\s+ago\<close>.\<close>

definition posted_days_ago :: "string \<Rightarrow> bool" where
  "posted_days_ago s =
     (let digits = takeWhile is_digit s;
          rest = dropWhile is_digit s;
          rest = (if take 1 rest = ''+'' then tl rest else rest);
          gap = takeWhile is_space rest;
          rest = dropWhile is_space rest;
          unit_ok = (take 3 rest = ''day'');
          rest = drop 3 rest;
          rest = (if take 1 rest = ''s'' then tl rest else rest);
          gap2 = takeWhile is_space rest
      in digits \<noteq> [] \<and> gap \<noteq> [] \<and> unit_ok \<and> gap2 \<noteq> [] \<and> dropWhile is_space rest = ''ago'')"

section \<open>The validators\<close>

definition job_title_score :: "string \<Rightarrow> int" where
  "job_title_score title =
     (let lowered = str_lower (normalize_job_title title); words = find_words lowered in
      (if list_ex (\<lambda>w. w \<in> set role_nouns) words then 2 else 0)
      + (if contains ''member service'' lowered then 2 else 0)
      - (if list_ex (\<lambda>p. contains p lowered) rejected_title_parts then 4 else 0)
      - (if list_ex (\<lambda>w. w \<in> set generic_only_words) words then 1 else 0)
      + (if 3 \<le> length words then 1 else 0))"

definition long_ui_block :: "string \<Rightarrow> string \<Rightarrow> bool" where
  "long_ui_block normalized lowered \<longleftrightarrow>
     140 < length normalized
     \<and> list_ex (\<lambda>p. contains p lowered) [''apply'', ''join'', ''search'', ''opening'']"

definition has_safe_job_title_shape :: "string \<Rightarrow> bool" where
  "has_safe_job_title_shape title =
     (let normalized = normalize_job_title title; lowered = str_lower normalized;
          words = find_words lowered in
      if normalized = [] \<or> length normalized < 4 then False
      else if lowered \<in> set rejected_exact_titles then False
      else if list_ex (\<lambda>p. contains p lowered) rejected_title_parts then False
      else if posted_days_ago lowered then False
      else if words = [] then False
      else if list_all (\<lambda>w. w \<in> set generic_only_words) words then False
      else if length words \<le> 2 \<and> list_ex (\<lambda>w. w \<in> set generic_only_words) words then False
      else if long_ui_block normalized lowered then False
      else True)"

definition is_valid_job_title :: "string \<Rightarrow> bool" where
  "is_valid_job_title title =
     (if \<not> has_safe_job_title_shape title then False
      else if job_title_score title < 1 then False
      else True)"

definition is_valid_structured_job_title :: "string \<Rightarrow> bool" where
  "is_valid_structured_job_title title =
     (let normalized = normalize_job_title title; lowered = str_lower normalized;
          words = find_words lowered in
      if normalized = [] \<or> length normalized < 2 then False
      else if lowered \<in> set rejected_exact_titles then False
      else if posted_days_ago lowered then False
      else if words = [] \<or> list_all (\<lambda>w. w \<in> set generic_only_words) words then False
      else \<not> list_ex (\<lambda>p. contains p lowered) structured_boilerplate)"

datatype reason =
    Blank_Title | Too_Short | Button_Label | Boilerplate | Posted_Date | No_Words | Generic_Words
  | Short_Generic | Long_Block | No_Signal | Unknown_Reason

definition rejection_reason :: "string \<Rightarrow> reason" where
  "rejection_reason title =
     (let normalized = normalize_job_title title; lowered = str_lower normalized;
          words = find_words lowered in
      if normalized = [] then Blank_Title
      else if length normalized < 4 then Too_Short
      else if lowered \<in> set rejected_exact_titles then Button_Label
      else if list_ex (\<lambda>p. contains p lowered) rejected_title_parts then Boilerplate
      else if posted_days_ago lowered then Posted_Date
      else if words = [] then No_Words
      else if list_all (\<lambda>w. w \<in> set generic_only_words) words then Generic_Words
      else if length words \<le> 2 \<and> list_ex (\<lambda>w. w \<in> set generic_only_words) words then Short_Generic
      else if long_ui_block normalized lowered then Long_Block
      else if job_title_score normalized < 1 then No_Signal
      else Unknown_Reason)"

section \<open>The reason and the validator\<close>

lemma shape_reason:
  "has_safe_job_title_shape title \<longleftrightarrow> rejection_reason title \<in> {No_Signal, Unknown_Reason}"
  by (simp add: has_safe_job_title_shape_def rejection_reason_def Let_def)

lemma score_reason:
  assumes "has_safe_job_title_shape title"
  shows "rejection_reason title = (if job_title_score (normalize_job_title title) < 1 then No_Signal else Unknown_Reason)"
  using assms by (simp add: has_safe_job_title_shape_def rejection_reason_def Let_def split: if_split_asm)

text \<open>The recorded reason explains the decision: for a title that normalises to a fixed point, the
  validator accepts it exactly when no reason to reject it is found, and every title the validator
  rejects has a definite reason.\<close>

theorem rejection_reason_explains:
  assumes "normalize_job_title (normalize_job_title title) = normalize_job_title title"
  shows "is_valid_job_title title \<longleftrightarrow> rejection_reason title = Unknown_Reason"
proof (cases "has_safe_job_title_shape title")
  case True
  have "job_title_score (normalize_job_title title) = job_title_score title"
    unfolding job_title_score_def assms ..
  then show ?thesis using True score_reason [OF True] by (simp add: is_valid_job_title_def)
next
  case False
  then show ?thesis using shape_reason [of title] by (auto simp: is_valid_job_title_def)
qed

theorem rejection_reason_explains_witness:
  "is_valid_job_title ''Title:  Branch   Manager''"
proof -
  have "normalize_job_title (normalize_job_title ''Title:  Branch   Manager'')
      = normalize_job_title ''Title:  Branch   Manager''"
    "rejection_reason ''Title:  Branch   Manager'' = Unknown_Reason" by code_simp+
  with rejection_reason_explains show ?thesis by blast
qed

text \<open>A repeated label does not reach a fixed point: the validator accepts the title, and the
  reason, which normalises once more, says it lacks a signal.\<close>

lemma repeated_label_disagrees:
  "is_valid_job_title ''Title: Title: Night Baker''
   \<and> rejection_reason ''Title: Title: Night Baker'' = No_Signal"
  by code_simp

text \<open>A title that passes as job evidence passes the weaker check for structured sources, except for
  the boilerplate that only the latter knows.\<close>

lemma shape_implies_structured:
  assumes "has_safe_job_title_shape title"
    and "\<not> list_ex (\<lambda>p. contains p (str_lower (normalize_job_title title))) structured_boilerplate"
  shows "is_valid_structured_job_title title"
  using assms
  by (simp add: has_safe_job_title_shape_def is_valid_structured_job_title_def Let_def split: if_split_asm)

end
