(* ===== verification/Py_Json.thy ===== *)
theory Py_Json
  imports Py_Crypto Py_Url
begin

text \<open>
  The hexadecimal digest of \<open>hashlib\<close> and the JSON text of strings and of dictionaries of strings,
  as \<open>json.dumps\<close> writes them, with the proof that this text determines the strings.
\<close>

section \<open>Digests\<close>

definition hex_digest :: "bytes \<Rightarrow> string" where
  "hex_digest bs = concat (map (\<lambda>b. [hex_char (unat b div 16), hex_char (unat b mod 16)]) bs)"

section \<open>JSON strings\<close>

text \<open>The escapes of \<open>ensure_ascii\<close>; the other characters outside the printable ASCII range are
  written as four hexadecimal digits.\<close>

definition json_short :: "char \<Rightarrow> char option" where
  "json_short c =
     (if c = CHR 0x22 then Some CHR 0x22
      else if c = CHR 0x5C then Some CHR 0x5C
      else if c = CHR 0x0A then Some CHR ''n''
      else if c = CHR 0x0D then Some CHR ''r''
      else if c = CHR 0x09 then Some CHR ''t''
      else if c = CHR 0x08 then Some CHR ''b''
      else if c = CHR 0x0C then Some CHR ''f''
      else None)"

definition json_escape :: "char \<Rightarrow> string" where
  "json_escape c =
     (case json_short c of
        Some l \<Rightarrow> [CHR 0x5C, l]
      | None \<Rightarrow>
          if code c < 32 \<or> 126 < code c
          then [CHR 0x5C, CHR ''u'', CHR ''0'', CHR ''0'', hex_char (code c div 16), hex_char (code c mod 16)]
          else [c])"

definition json_string :: "string \<Rightarrow> string" where
  "json_string s = CHR 0x22 # concat (map json_escape s) @ [CHR 0x22]"

definition json_strings_object :: "(string \<times> string) list \<Rightarrow> string" where
  "json_strings_object members =
     ''{'' @ join '', '' (map (\<lambda>(k, v). json_string k @ '': '' @ json_string v) members) @ ''}''"

lemma code_hex_char: "n < 16 \<Longrightarrow> code (hex_char n) = (if n < 10 then 48 + n else 87 + n)"
  by (simp add: hex_char_def code_char_of)

lemma hex_char_inject: "hex_char m = hex_char n \<Longrightarrow> m < 16 \<Longrightarrow> n < 16 \<Longrightarrow> m = n"
proof -
  assume "hex_char m = hex_char n" "m < 16" "n < 16"
  then have "code (hex_char m) = code (hex_char n)" by simp
  then show ?thesis
    using \<open>m < 16\<close> \<open>n < 16\<close> by (simp add: code_hex_char split: if_split_asm)
qed

definition json_unshort :: "char \<Rightarrow> char" where
  "json_unshort l =
     (if l = CHR ''n'' then CHR 0x0A else if l = CHR ''r'' then CHR 0x0D
      else if l = CHR ''t'' then CHR 0x09 else if l = CHR ''b'' then CHR 0x08
      else if l = CHR ''f'' then CHR 0x0C else l)"

lemma json_unshort_short: "json_short c = Some l \<Longrightarrow> json_unshort l = c"
  by (auto simp: json_short_def json_unshort_def split: if_split_asm)

lemma json_escape_prefix_free:
  assumes "json_escape c @ s = json_escape d @ t"
  shows "c = d \<and> s = t"
proof -
  have hex: "hex_char (code c div 16) = hex_char (code d div 16) \<Longrightarrow>
      hex_char (code c mod 16) = hex_char (code d mod 16) \<Longrightarrow> c = d"
  proof -
    assume h: "hex_char (code c div 16) = hex_char (code d div 16)"
      "hex_char (code c mod 16) = hex_char (code d mod 16)"
    have "code c div 16 = code d div 16" by (rule hex_char_inject [OF h(1)]) (simp_all add: less_mult_imp_div_less)
    moreover have "code c mod 16 = code d mod 16" by (rule hex_char_inject [OF h(2)]) simp_all
    ultimately have "code c = code d" by (metis div_mult_mod_eq)
    then show "c = d" by simp
  qed
  have short: "json_short c = Some l \<Longrightarrow> json_short d = Some l \<Longrightarrow> c = d" for l
    using json_unshort_short by metis
  have letter: "json_short x \<noteq> Some CHR ''u''" "json_short x = None \<Longrightarrow> x \<noteq> CHR 0x5C" for x
    by (auto simp: json_short_def)
  show ?thesis
    using assms hex short letter [of c] letter [of d]
    by (cases "json_short c"; cases "json_short d") (auto simp: json_escape_def split: if_split_asm)
qed

lemma json_escape_no_quote: "json_escape c @ s \<noteq> CHR 0x22 # t"
proof -
  have "json_short c = None \<Longrightarrow> c \<noteq> CHR 0x22" by (auto simp: json_short_def)
  then show ?thesis by (auto simp: json_escape_def split: option.split)
qed

lemma json_body_inject:
  "concat (map json_escape a) @ CHR 0x22 # s = concat (map json_escape b) @ CHR 0x22 # t \<Longrightarrow> a = b \<and> s = t"
proof (induction a arbitrary: b)
  case Nil
  then show ?case using json_escape_no_quote by (cases b) (auto, metis append_assoc)
next
  case (Cons c a)
  show ?case
  proof (cases b)
    case Nil
    then show ?thesis using Cons.prems json_escape_no_quote by auto
  next
    case (Cons d b')
    have "json_escape c @ concat (map json_escape a) @ CHR 0x22 # s
        = json_escape d @ concat (map json_escape b') @ CHR 0x22 # t"
      using Cons.prems Cons by simp
    from json_escape_prefix_free [OF this] Cons.IH Cons show ?thesis by blast
  qed
qed

lemma json_string_inject: "json_string a @ s = json_string b @ t \<longleftrightarrow> a = b \<and> s = t"
  using json_body_inject [of a s b t] by (auto simp: json_string_def)

end
