(* ===== verification/Repo_Jobs.thy ===== *)
theory Repo_Jobs
  imports Py_Stdlib Py_Json
begin

text \<open>
  The stored jobs and the applications made to them (\<^verbatim>\<open>backend/repository.py\<close>): preparing
  collected jobs for storage, inserting and pruning them in one transaction, and the application
  records that keep a job alive. The tables are association lists over their primary keys; a
  failed statement rolls the whole transaction back.
\<close>

section \<open>Tables\<close>

text \<open>A collected job: a dictionary with the keys the code reads; the columns that are only copied
  are in \<open>sj_other\<close>.\<close>

record source_job =
  sj_id :: "string option"
  sj_legacy_id :: "string option"
  sj_company_id :: "string option"
  sj_company_name :: "string option"
  sj_title :: "string option"
  sj_location :: "string option"
  sj_source_url :: "string option"
  sj_status :: "string option"
  sj_first_seen :: "string option"
  sj_other :: "(string \<times> string) list"

record job_record =
  jr_legacy_id :: string
  jr_company_id :: "string option"
  jr_company_name :: string
  jr_title :: string
  jr_location :: string
  jr_source_url :: string
  jr_status :: string
  jr_other :: "(string \<times> string) list"
  jr_first_seen :: string
  jr_created :: string
  jr_updated :: string

record application_row =
  ar_applied :: bool
  ar_status :: string
  ar_date_applied :: string
  ar_follow_up :: string
  ar_notes :: string
  ar_not_interested :: bool
  ar_archived_at :: "string option"
  ar_updated :: string

text \<open>\<open>db_companies\<close> holds the identifiers and names; \<open>db_dependents\<close> the tables whose rows go with
  their job (fit results), \<open>db_candidates\<close> those whose reference is cleared.\<close>

record job_db =
  db_companies :: "(string \<times> string) list"
  db_jobs :: "(string \<times> job_record) list"
  db_applications :: "(string \<times> application_row) list"
  db_fits :: "(string \<times> string) list"
  db_candidates :: "(string \<times> string option) list"

datatype repo_error = Key_Error string | Integrity_Error

section \<open>Preparing collected jobs\<close>

text \<open>\<open>job.get(key) or ""\<close>.\<close>

definition or_empty :: "string option \<Rightarrow> string" where
  "or_empty x = (case x of None \<Rightarrow> [] | Some s \<Rightarrow> s)"

definition identity_digest :: "source_job \<Rightarrow> string" where
  "identity_digest job =
     take 12 (hex_digest (sha256 (utf8_encode (join ''|''
       [or_empty (sj_company_id job), or_empty (sj_title job), or_empty (sj_source_url job),
        or_empty (sj_location job)]))))"

definition numbered_id :: "string \<Rightarrow> nat \<Rightarrow> string" where
  "numbered_id base n = base @ ''-'' @ show_nat n"

lemma numbered_id_inject: "numbered_id base m = numbered_id base n \<longleftrightarrow> m = n"
  by (metis append_same_eq numbered_id_def option.inject read_show_nat same_append_eq)

lemma finite_taken: "finite {m. n \<le> m \<and> numbered_id base m \<in> set used}"
proof -
  have "finite (numbered_id base -` set used)"
    by (rule finite_vimageI) (auto intro: injI simp: numbered_id_inject)
  then show ?thesis by (rule rev_finite_subset) auto
qed

text \<open>The loop that counts up to the first number that is free; it ends because only finitely many
  identifiers are used.\<close>

function free_number :: "string list \<Rightarrow> string \<Rightarrow> nat \<Rightarrow> nat" where
  "free_number used base n =
     (if numbered_id base n \<in> set used then free_number used base (n + 1) else n)"
  by pat_completeness auto

termination
proof (relation "measure (\<lambda>(used, base, n). card {m. n \<le> m \<and> numbered_id base m \<in> set used})")
  fix used base n
  assume "numbered_id base n \<in> set used"
  then have "{m. n + 1 \<le> m \<and> numbered_id base m \<in> set used} \<subset> {m. n \<le> m \<and> numbered_id base m \<in> set used}"
    by (auto simp: psubset_eq set_eq_iff intro: exI [of _ n])
  then show "((used, base, n + 1), used, base, n)
      \<in> measure (\<lambda>(used, base, n). card {m. n \<le> m \<and> numbered_id base m \<in> set used})"
    by (simp add: psubset_card_mono finite_taken)
qed simp

declare free_number.simps [simp del]

definition unused_id :: "string list \<Rightarrow> source_job \<Rightarrow> string \<Rightarrow> string" where
  "unused_id used job legacy_id =
     (if legacy_id \<notin> set used then legacy_id
      else (let base = legacy_id @ ''--'' @ identity_digest job in
            if base \<notin> set used then base else numbered_id base (free_number used base 2)))"

definition legacy_id_of :: "source_job \<Rightarrow> string" where
  "legacy_id_of job =
     (if or_empty (sj_legacy_id job) \<noteq> [] then or_empty (sj_legacy_id job) else or_empty (sj_id job))"

text \<open>\<open>by_name\<close> is a dictionary built in table order, so the last company of a name is found.\<close>

definition company_of :: "(string \<times> string) list \<Rightarrow> source_job \<Rightarrow> string" where
  "company_of companies job =
     (if or_empty (sj_company_id job) \<in> fst ` set companies \<and> sj_company_id job \<noteq> None
      then or_empty (sj_company_id job)
      else case map_of (rev (map (\<lambda>(i, name). (str_casefold name, i)) companies))
                  (str_casefold (or_empty (sj_company_name job))) of
             Some i \<Rightarrow> i | None \<Rightarrow> [])"

fun prepare_from :: "(string \<times> string) list \<Rightarrow> string list \<Rightarrow> source_job list \<Rightarrow> source_job list" where
  "prepare_from companies used [] = []"
| "prepare_from companies used (job # jobs) =
     (let legacy_id = legacy_id_of job in
      if legacy_id = [] \<or> strip (or_empty (sj_title job)) = [] then prepare_from companies used jobs
      else (let job_id = unused_id used job legacy_id in
            job\<lparr>sj_id := Some job_id, sj_legacy_id := Some legacy_id,
                sj_company_id := Some (company_of companies job)\<rparr>
            # prepare_from companies (job_id # used) jobs))"

definition prepare_jobs :: "(string \<times> string) list \<Rightarrow> source_job list \<Rightarrow> source_job list" where
  "prepare_jobs companies jobs = prepare_from companies [] jobs"

section \<open>Inserting and pruning\<close>

definition get_or :: "string option \<Rightarrow> string \<Rightarrow> string" where
  "get_or x d = (case x of None \<Rightarrow> d | Some s \<Rightarrow> s)"

definition new_row :: "string \<Rightarrow> source_job \<Rightarrow> job_record" where
  "new_row now job =
     \<lparr>jr_legacy_id = get_or (sj_legacy_id job) (or_empty (sj_id job)),
      jr_company_id = (if or_empty (sj_company_id job) = [] then None else sj_company_id job),
      jr_company_name = get_or (sj_company_name job) [], jr_title = get_or (sj_title job) [],
      jr_location = get_or (sj_location job) [], jr_source_url = get_or (sj_source_url job) [],
      jr_status = get_or (sj_status job) ''Open'', jr_other = sj_other job,
      jr_first_seen = (if or_empty (sj_first_seen job) = [] then now else or_empty (sj_first_seen job)),
      jr_created = now, jr_updated = now\<rparr>"

text \<open>The upsert: a conflict on the identifier updates every column but \<open>first_seen_at\<close> and
  \<open>created_at\<close>. The foreign key to the company is checked.\<close>

definition insert_job :: "string \<Rightarrow> source_job \<Rightarrow> job_db \<Rightarrow> repo_error + job_db" where
  "insert_job now job db =
     (let job_id = or_empty (sj_id job); row = new_row now job in
      if (case jr_company_id row of None \<Rightarrow> False | Some c \<Rightarrow> c \<notin> fst ` set (db_companies db))
      then Inl Integrity_Error
      else Inr (db\<lparr>db_jobs := AList.update job_id
             (case map_of (db_jobs db) job_id of
                None \<Rightarrow> row
              | Some old \<Rightarrow> row\<lparr>jr_first_seen := jr_first_seen old, jr_created := jr_created old\<rparr>)
             (db_jobs db)\<rparr>))"

text \<open>The scope of a pruning: jobs of the given companies (all jobs without them) that are not to
  be kept.\<close>

definition in_scope :: "string list option \<Rightarrow> string list \<Rightarrow> string \<times> job_record \<Rightarrow> bool" where
  "in_scope company_ids keep_ids = (\<lambda>(i, row).
     (case company_ids of None \<Rightarrow> True
      | Some cs \<Rightarrow> (case jr_company_id row of None \<Rightarrow> False | Some c \<Rightarrow> c \<in> set cs))
     \<and> i \<notin> set keep_ids)"

definition delete_jobs :: "(string \<times> job_record \<Rightarrow> bool) \<Rightarrow> job_db \<Rightarrow> job_db" where
  "delete_jobs gone db =
     (let deleted = map fst (filter gone (db_jobs db)) in
      db\<lparr>db_jobs := filter (\<lambda>r. \<not> gone r) (db_jobs db),
         db_applications := filter (\<lambda>(i, _). i \<notin> set deleted) (db_applications db),
         db_fits := filter (\<lambda>(i, _). i \<notin> set deleted) (db_fits db),
         db_candidates := map (\<lambda>(c, j). (c, if (case j of None \<Rightarrow> False | Some i \<Rightarrow> i \<in> set deleted)
                                              then None else j)) (db_candidates db)\<rparr>)"

definition prune_missing_jobs ::
  "string \<Rightarrow> string list option \<Rightarrow> string list \<Rightarrow> job_db \<Rightarrow> job_db" where
  "prune_missing_jobs now company_ids keep_ids db =
     (if company_ids = Some [] then db
      else (let applied = (\<lambda>(i, _). i \<in> fst ` set (db_applications db));
                scoped = in_scope company_ids keep_ids;
                archived = db\<lparr>db_jobs := map (\<lambda>r. if scoped r \<and> applied r
                   then (fst r, (snd r)\<lparr>jr_status := ''Archived'', jr_updated := now\<rparr>) else r) (db_jobs db)\<rparr>
            in delete_jobs (\<lambda>r. scoped r \<and> \<not> applied r) archived))"

text \<open>The three ways of storing a collection: everything, additions only, and the jobs of some
  companies. The list of companies is the one read before the transaction.\<close>

definition store_jobs ::
  "(string list \<Rightarrow> job_db \<Rightarrow> job_db) \<Rightarrow> string \<Rightarrow> (string \<times> string) list \<Rightarrow> source_job list \<Rightarrow> job_db
    \<Rightarrow> job_db \<times> (repo_error + nat)" where
  "store_jobs prune now companies jobs db =
     (let prepared = prepare_jobs companies jobs in
      case fold_res (insert_job now) prepared db of
        Inl e \<Rightarrow> (db, Inl e)
      | Inr db' \<Rightarrow> (prune (map (or_empty \<circ> sj_id) prepared) db', Inr (length prepared)))"

definition replace_jobs ::
  "string \<Rightarrow> (string \<times> string) list \<Rightarrow> source_job list \<Rightarrow> job_db \<Rightarrow> job_db \<times> (repo_error + nat)" where
  "replace_jobs now = store_jobs (prune_missing_jobs now None) now"

definition upsert_jobs ::
  "string \<Rightarrow> (string \<times> string) list \<Rightarrow> source_job list \<Rightarrow> job_db \<Rightarrow> job_db \<times> (repo_error + nat)" where
  "upsert_jobs now = store_jobs (\<lambda>_ db. db) now"

definition upsert_jobs_for_companies ::
  "string list \<Rightarrow> string \<Rightarrow> (string \<times> string) list \<Rightarrow> source_job list \<Rightarrow> job_db \<Rightarrow> job_db \<times> (repo_error + nat)" where
  "upsert_jobs_for_companies company_ids now = store_jobs (prune_missing_jobs now (Some company_ids)) now"

section \<open>Applications\<close>

record application_patch =
  ap_applied :: "bool option"
  ap_status :: "string option"
  ap_date_applied :: "string option"
  ap_follow_up :: "string option"
  ap_notes :: "string option"
  ap_not_interested :: "bool option"

definition list_applications :: "job_db \<Rightarrow> (string \<times> application_row) list" where
  "list_applications db = filter (\<lambda>(_, a). ar_archived_at a = None) (db_applications db)"

definition merged_value :: "'a option \<Rightarrow> 'a option \<Rightarrow> 'a \<Rightarrow> 'a" where
  "merged_value patch existing d = (case patch of Some v \<Rightarrow> v | None \<Rightarrow> (case existing of Some v \<Rightarrow> v | None \<Rightarrow> d))"

definition upsert_application ::
  "string \<Rightarrow> string \<Rightarrow> application_patch \<Rightarrow> job_db \<Rightarrow> repo_error + job_db" where
  "upsert_application now job_id p db =
     (if job_id \<notin> fst ` set (db_jobs db) then Inl (Key_Error job_id)
      else (let existing = map_of (list_applications db) job_id;
                row = \<lparr>ar_applied = merged_value (ap_applied p) (map_option ar_applied existing) False,
                   ar_status = merged_value (ap_status p) (map_option ar_status existing) ''Interested'',
                   ar_date_applied = merged_value (ap_date_applied p) (map_option ar_date_applied existing) [],
                   ar_follow_up = merged_value (ap_follow_up p) (map_option ar_follow_up existing) [],
                   ar_notes = merged_value (ap_notes p) (map_option ar_notes existing) [],
                   ar_not_interested = merged_value (ap_not_interested p) (map_option ar_not_interested existing) False,
                   ar_archived_at = None, ar_updated = now\<rparr>
            in Inr (db\<lparr>db_applications := AList.update job_id row (db_applications db)\<rparr>)))"

fun import_application_overrides ::
  "string \<Rightarrow> (string \<times> application_patch) list \<Rightarrow> job_db \<Rightarrow> job_db \<times> string list \<times> string list" where
  "import_application_overrides now [] db = (db, [], [])"
| "import_application_overrides now ((i, p) # rest) db =
     (case upsert_application now i p db of
        Inl _ \<Rightarrow> (case import_application_overrides now rest db of (db', imported, skipped) \<Rightarrow>
                   (db', imported, i # skipped))
      | Inr db1 \<Rightarrow> (case import_application_overrides now rest db1 of (db', imported, skipped) \<Rightarrow>
                   (db', i # imported, skipped)))"

definition delete_company_jobs :: "string \<Rightarrow> job_db \<Rightarrow> job_db" where
  "delete_company_jobs company_id db =
     (delete_jobs (\<lambda>(_, row). jr_company_id row = Some company_id) db)
       \<lparr>db_companies := filter (\<lambda>(i, _). i \<noteq> company_id) (db_companies db)\<rparr>"

section \<open>Identifiers stay distinct\<close>

lemma free_number_free: "numbered_id base (free_number used base n) \<notin> set used"
proof (induction used base n rule: free_number.induct)
  case (1 used base n)
  then show ?case by (subst free_number.simps) simp
qed

lemma free_number_least:
  "n \<le> free_number used base n
   \<and> (\<forall>m. n \<le> m \<longrightarrow> m < free_number used base n \<longrightarrow> numbered_id base m \<in> set used)"
proof (induction used base n rule: free_number.induct)
  case (1 used base n)
  show ?case
  proof (cases "numbered_id base n \<in> set used")
    case True
    have eq: "free_number used base n = free_number used base (n + 1)"
      using True by (subst free_number.simps) simp
    have "n + 1 \<le> free_number used base (n + 1)" using 1 [OF True] by blast
    moreover have "numbered_id base m \<in> set used" if "n \<le> m" "m < free_number used base (n + 1)" for m
      using 1 [OF True] True that by (cases "m = n") auto
    ultimately show ?thesis unfolding eq by simp
  next
    case False
    then show ?thesis by (subst free_number.simps, subst (2) free_number.simps) simp
  qed
qed

lemma unused_id_unused: "unused_id used job legacy_id \<notin> set used"
  by (simp add: unused_id_def Let_def free_number_free)

lemma unused_id_prefix: "prefix legacy_id (unused_id used job legacy_id)"
  by (simp add: unused_id_def numbered_id_def Let_def)

abbreviation prepared_id :: "source_job \<Rightarrow> string" where
  "prepared_id job \<equiv> or_empty (sj_id job)"

lemma prepare_from_ids:
  "distinct (map prepared_id (prepare_from companies used jobs))
   \<and> set (map prepared_id (prepare_from companies used jobs)) \<inter> set used = {}"
proof (induction companies used jobs rule: prepare_from.induct)
  case (2 companies used job jobs)
  show ?case
  proof (cases "legacy_id_of job = [] \<or> strip (or_empty (sj_title job)) = []")
    case True
    then show ?thesis using 2(1) [OF refl True] by (simp add: Let_def)
  next
    case False
    note IH = 2(2) [OF refl False refl]
    show ?thesis
      using False IH unused_id_unused [of used job "legacy_id_of job"]
      by (simp add: Let_def or_empty_def [of "Some _"])
  qed
qed simp

lemma company_of_known: "company_of companies job = [] \<or> company_of companies job \<in> fst ` set companies"
proof -
  have "i \<in> fst ` set companies"
    if "map_of (rev (map (\<lambda>(i, name). (str_casefold name, i)) companies)) n = Some i" for n i
    using map_of_SomeD [OF that] by force
  then show ?thesis by (auto simp: company_of_def split: option.splits)
qed

definition well_prepared :: "(string \<times> string) list \<Rightarrow> source_job \<Rightarrow> bool" where
  "well_prepared companies job \<longleftrightarrow>
     or_empty (sj_legacy_id job) \<noteq> [] \<and> prefix (or_empty (sj_legacy_id job)) (prepared_id job)
     \<and> strip (or_empty (sj_title job)) \<noteq> []
     \<and> or_empty (sj_company_id job) \<in> insert [] (fst ` set companies)"

lemma prepare_from_well: "list_all (well_prepared companies) (prepare_from companies used jobs)"
proof (induction companies used jobs rule: prepare_from.induct)
  case (2 companies used job jobs)
  show ?case
  proof (cases "legacy_id_of job = [] \<or> strip (or_empty (sj_title job)) = []")
    case True
    then show ?thesis using 2(1) [OF refl True] by (simp add: Let_def)
  next
    case False
    then show ?thesis
      using 2(2) [OF refl False refl] company_of_known [of companies job] unused_id_prefix
      by (simp add: Let_def well_prepared_def or_empty_def [of "Some _"])
  qed
qed simp

text \<open>However a collection repeats its identifiers, storing it never merges two jobs: the prepared
  identifiers are pairwise different (the search for a free number always ends, at the first free
  one), each begins with the collector's own identifier, has a title, and refers to a known
  company or to none.\<close>

theorem prepared_jobs_are_distinct:
  "distinct (map prepared_id (prepare_jobs companies jobs))
   \<and> list_all (well_prepared companies) (prepare_jobs companies jobs)
   \<and> numbered_id base (free_number used base n) \<notin> set used
   \<and> numbered_id base ` {n..<free_number used base n} \<subseteq> set used"
  unfolding prepare_jobs_def
  using prepare_from_ids prepare_from_well free_number_free free_number_least by auto

section \<open>References stay valid\<close>

abbreviation job_ids :: "job_db \<Rightarrow> string set" where
  "job_ids db \<equiv> fst ` set (db_jobs db)"

definition company_known :: "(string \<times> string) list \<Rightarrow> string \<times> job_record \<Rightarrow> bool" where
  "company_known companies r =
     (case jr_company_id (snd r) of None \<Rightarrow> True | Some c \<Rightarrow> c \<in> fst ` set companies)"

definition db_ok :: "job_db \<Rightarrow> bool" where
  "db_ok db \<longleftrightarrow> distinct (map fst (db_jobs db)) \<and> distinct (map fst (db_applications db))
     \<and> fst ` set (db_applications db) \<subseteq> job_ids db \<and> fst ` set (db_fits db) \<subseteq> job_ids db
     \<and> list_all (company_known (db_companies db)) (db_jobs db)
     \<and> list_all (\<lambda>(_, j). j = None \<or> the j \<in> job_ids db) (db_candidates db)"

lemma insert_job_Inr:
  assumes "insert_job now job db = Inr db'"
  obtains row where "db' = db\<lparr>db_jobs := AList.update (prepared_id job) row (db_jobs db)\<rparr>"
    "company_known (db_companies db) (prepared_id job, row)"
proof -
  define row where "row = (case map_of (db_jobs db) (prepared_id job) of
      None \<Rightarrow> new_row now job
    | Some old \<Rightarrow> new_row now job\<lparr>jr_first_seen := jr_first_seen old, jr_created := jr_created old\<rparr>)"
  have "jr_company_id row = jr_company_id (new_row now job)"
    by (simp add: row_def split: option.split)
  then show thesis
    using assms that [of row] unfolding insert_job_def Let_def row_def [symmetric]
    by (auto simp: company_known_def split: if_split_asm option.splits)
qed

lemma insert_job_ids:
  "insert_job now job db = Inr db' \<Longrightarrow> job_ids db' = insert (prepared_id job) (job_ids db)"
  by (erule insert_job_Inr) (simp add: dom_update)

lemma insert_job_ok:
  assumes "db_ok db" and "insert_job now job db = Inr db'"
  shows "db_ok db'"
proof -
  from assms(2) obtain row where row:
    "db' = db\<lparr>db_jobs := AList.update (prepared_id job) row (db_jobs db)\<rparr>"
    "company_known (db_companies db) (prepared_id job, row)" by (rule insert_job_Inr)
  have "list_all (company_known (db_companies db)) (AList.update (prepared_id job) row (db_jobs db))"
    using assms(1) row(2) update_subset [of "prepared_id job" row "db_jobs db"]
    by (auto simp: db_ok_def list_all_iff)
  moreover have "job_ids db' = insert (prepared_id job) (job_ids db)" by (rule insert_job_ids [OF assms(2)])
  ultimately show ?thesis
    using assms(1) unfolding db_ok_def
    by (simp add: row(1) distinct_update list_all_iff) blast
qed

lemma insert_all:
  assumes "fold_res (insert_job now) jobs db = Inr db'" and "db_ok db"
  shows "db_ok db'"
  using assms(1,2) by (rule fold_res_invariant) (rule insert_job_ok)

lemma insert_all_ids:
  "fold_res (insert_job now) jobs db = Inr db' \<Longrightarrow>
   job_ids db' = prepared_id ` set jobs \<union> job_ids db
   \<and> db_applications db' = db_applications db \<and> db_companies db' = db_companies db"
proof (induction jobs arbitrary: db)
  case (Cons job jobs)
  then obtain db1 where db1: "insert_job now job db = Inr db1" "fold_res (insert_job now) jobs db1 = Inr db'"
    by (auto split: sum.splits)
  have "db_applications db1 = db_applications db \<and> db_companies db1 = db_companies db"
    using db1(1) by (auto simp: insert_job_def Let_def split: if_split_asm)
  then show ?case using Cons.IH [OF db1(2)] insert_job_ids [OF db1(1)] by auto
qed simp

lemma filter_keys_subset:
  assumes "fst ` set xs \<subseteq> ids" and "\<And>i. i \<in> ids \<Longrightarrow> i \<notin> set ds \<Longrightarrow> i \<in> left"
  shows "fst ` set (filter (\<lambda>(i, _). i \<notin> set ds) xs) \<subseteq> left"
  using assms by auto

lemma delete_jobs_ok:
  assumes "db_ok db"
  shows "db_ok (delete_jobs gone db)"
proof -
  note ok = assms [unfolded db_ok_def]
  define deleted where "deleted = map fst (filter gone (db_jobs db))"
  have eq: "delete_jobs gone db = db\<lparr>db_jobs := filter (\<lambda>r. \<not> gone r) (db_jobs db),
         db_applications := filter (\<lambda>(i, _). i \<notin> set deleted) (db_applications db),
         db_fits := filter (\<lambda>(i, _). i \<notin> set deleted) (db_fits db),
         db_candidates := map (\<lambda>(c, j). (c, if (case j of None \<Rightarrow> False | Some i \<Rightarrow> i \<in> set deleted)
                                              then None else j)) (db_candidates db)\<rparr>"
    by (simp only: delete_jobs_def Let_def deleted_def)
  have left: "i \<in> job_ids (delete_jobs gone db)" if "i \<in> job_ids db" "i \<notin> set deleted" for i
    using that unfolding eq deleted_def by force
  have tables: "db_applications (delete_jobs gone db) = filter (\<lambda>(i, _). i \<notin> set deleted) (db_applications db)"
    "db_fits (delete_jobs gone db) = filter (\<lambda>(i, _). i \<notin> set deleted) (db_fits db)"
    by (simp_all add: eq)
  have "distinct (map fst (db_jobs (delete_jobs gone db)))"
    "distinct (map fst (db_applications (delete_jobs gone db)))"
    using ok by (simp_all add: eq distinct_map_filter)
  moreover have "fst ` set (db_applications (delete_jobs gone db)) \<subseteq> job_ids (delete_jobs gone db)"
    "fst ` set (db_fits (delete_jobs gone db)) \<subseteq> job_ids (delete_jobs gone db)"
    unfolding tables by (rule filter_keys_subset [where ids = "job_ids db"], use ok in blast, erule (1) left)+
  moreover have "list_all (company_known (db_companies (delete_jobs gone db))) (db_jobs (delete_jobs gone db))"
    using ok by (auto simp: eq list_all_iff)
  moreover have "j = None \<or> the j \<in> job_ids (delete_jobs gone db)"
    if "(c, j) \<in> set (db_candidates (delete_jobs gone db))" for c j
  proof -
    obtain k where k: "(c, k) \<in> set (db_candidates db)"
      "j = (if (case k of None \<Rightarrow> False | Some i \<Rightarrow> i \<in> set deleted) then None else k)"
      using \<open>(c, j) \<in> _\<close> by (auto simp: eq)
    then have "k = None \<or> the k \<in> job_ids db" using ok by (auto simp: list_all_iff)
    then show ?thesis using k(2) left by (cases k) auto
  qed
  ultimately show ?thesis unfolding db_ok_def list_all_iff by blast
qed

definition archive_scoped :: "string \<Rightarrow> (string \<times> job_record \<Rightarrow> bool) \<Rightarrow> job_db \<Rightarrow> job_db" where
  "archive_scoped now p db = db\<lparr>db_jobs := map (\<lambda>r. if p r
     then (fst r, (snd r)\<lparr>jr_status := ''Archived'', jr_updated := now\<rparr>) else r) (db_jobs db)\<rparr>"

lemma archive_scoped_tables [simp]:
  "db_applications (archive_scoped now p db) = db_applications db"
  "db_fits (archive_scoped now p db) = db_fits db"
  "db_candidates (archive_scoped now p db) = db_candidates db"
  "db_companies (archive_scoped now p db) = db_companies db"
  by (simp_all add: archive_scoped_def)

lemma map_fst_archive [simp]: "map fst (db_jobs (archive_scoped now p db)) = map fst (db_jobs db)"
  by (simp add: archive_scoped_def comp_def if_distrib cong: if_cong)

lemma archive_scoped_ok:
  assumes "db_ok db"
  shows "db_ok (archive_scoped now p db)"
proof -
  have ids: "job_ids (archive_scoped now p db) = job_ids db"
    by (metis map_fst_archive set_map)
  have "list_all (company_known (db_companies db)) (db_jobs (archive_scoped now p db))"
    using assms by (auto simp: db_ok_def archive_scoped_def list_all_iff company_known_def)
  then show ?thesis
    using assms ids unfolding db_ok_def by simp
qed

abbreviation has_application :: "job_db \<Rightarrow> string \<Rightarrow> bool" where
  "has_application db i \<equiv> i \<in> fst ` set (db_applications db)"

lemma prune_missing_jobs_eq:
  "prune_missing_jobs now company_ids keep_ids db =
     (if company_ids = Some [] then db
      else delete_jobs (\<lambda>r. in_scope company_ids keep_ids r \<and> \<not> has_application db (fst r))
        (archive_scoped now (\<lambda>r. in_scope company_ids keep_ids r \<and> has_application db (fst r)) db))"
  by (simp add: prune_missing_jobs_def archive_scoped_def Let_def case_prod_beta)

lemma prune_ok: "db_ok db \<Longrightarrow> db_ok (prune_missing_jobs now company_ids keep_ids db)"
  by (simp add: prune_missing_jobs_eq delete_jobs_ok archive_scoped_ok)

lemma store_jobs_ok:
  assumes "\<And>ids d. db_ok d \<Longrightarrow> db_ok (prune ids d)" and "db_ok db"
  shows "db_ok (fst (store_jobs prune now companies jobs db))"
  using assms insert_all by (auto simp: store_jobs_def Let_def split: sum.split)

lemma upsert_application_ok:
  assumes "db_ok db" and "upsert_application now i p db = Inr db'"
  shows "db_ok db'"
proof -
  obtain row where "db' = db\<lparr>db_applications := AList.update i row (db_applications db)\<rparr>" "i \<in> job_ids db"
    using assms(2) by (auto simp: upsert_application_def Let_def split: if_split_asm)
  then show ?thesis using assms(1) by (simp add: db_ok_def distinct_update dom_update)
qed

lemma import_overrides_ok:
  "db_ok db \<Longrightarrow> db_ok (fst (import_application_overrides now patches db))"
proof (induction now patches db rule: import_application_overrides.induct)
  case (2 now i p rest db)
  show ?case
  proof (cases "upsert_application now i p db")
    case (Inl e)
    then show ?thesis using 2(1) [OF Inl 2(3)] Inl
      by (cases "import_application_overrides now rest db") simp
  next
    case (Inr db1)
    then show ?thesis using 2(2) [OF Inr upsert_application_ok [OF 2(3) Inr]] Inr
      by (cases "import_application_overrides now rest db1") simp
  qed
qed simp

section \<open>Sequences of operations\<close>

datatype repo_op =
    Replace_Jobs "(string \<times> string) list" "source_job list"
  | Upsert_Jobs "(string \<times> string) list" "source_job list"
  | Upsert_For_Companies "string list" "(string \<times> string) list" "source_job list"
  | Upsert_Application string application_patch
  | Import_Applications "(string \<times> application_patch) list"
  | Delete_Company string

fun run_op :: "string \<times> repo_op \<Rightarrow> job_db \<Rightarrow> job_db" where
  "run_op (now, Replace_Jobs companies jobs) db = fst (replace_jobs now companies jobs db)"
| "run_op (now, Upsert_Jobs companies jobs) db = fst (upsert_jobs now companies jobs db)"
| "run_op (now, Upsert_For_Companies ids companies jobs) db =
     fst (upsert_jobs_for_companies ids now companies jobs db)"
| "run_op (now, Upsert_Application i p) db =
     (case upsert_application now i p db of Inl _ \<Rightarrow> db | Inr db' \<Rightarrow> db')"
| "run_op (now, Import_Applications patches) db = fst (import_application_overrides now patches db)"
| "run_op (now, Delete_Company c) db = delete_company_jobs c db"

lemma company_known_without:
  assumes "company_known companies r" and "jr_company_id (snd r) \<noteq> Some c"
  shows "company_known (filter (\<lambda>(i, _). i \<noteq> c) companies) r"
proof (cases "jr_company_id (snd r)")
  case (Some d)
  then obtain n where "(d, n) \<in> set companies" "d \<noteq> c"
    using assms by (auto simp: company_known_def)
  then have "(d, n) \<in> set (filter (\<lambda>(i, _). i \<noteq> c) companies)" by simp
  then show ?thesis using Some unfolding company_known_def by (simp only: option.case) (rule image_eqI [of d fst "(d, n)"], simp)
qed (simp add: company_known_def)

lemma delete_company_ok:
  assumes "db_ok db" shows "db_ok (delete_company_jobs c db)"
proof -
  define del where "del = delete_jobs (\<lambda>(_, row). jr_company_id row = Some c) db"
  have ok: "db_ok del" unfolding del_def using assms by (rule delete_jobs_ok)
  have companies: "db_companies del = db_companies db" by (simp add: del_def delete_jobs_def Let_def)
  have "db_jobs del = filter (\<lambda>r. \<not> (case r of (_, row) \<Rightarrow> jr_company_id row = Some c)) (db_jobs db)"
    by (simp add: del_def delete_jobs_def Let_def)
  then have "list_all (company_known (filter (\<lambda>(i, _). i \<noteq> c) (db_companies del))) (db_jobs del)"
    using ok company_known_without by (auto simp: db_ok_def list_all_iff)
  then show ?thesis
    using ok companies unfolding db_ok_def delete_company_jobs_def del_def [symmetric] by simp
qed

lemma run_op_ok: "db_ok db \<Longrightarrow> db_ok (run_op (now, act) db)"
  by (cases act) (simp_all add: replace_jobs_def upsert_jobs_def upsert_jobs_for_companies_def
      store_jobs_ok prune_ok import_overrides_ok delete_company_ok upsert_application_ok split: sum.split)

lemma run_ops_ok: "db_ok db \<Longrightarrow> db_ok (fold run_op ops db)"
  by (induction ops arbitrary: db) (auto simp: run_op_ok)


definition demo_job :: source_job where
  "demo_job = \<lparr>sj_id = Some ''j1'', sj_legacy_id = None, sj_company_id = Some ''c1'', sj_company_name = None,
     sj_title = Some ''Teller'', sj_location = None, sj_source_url = None, sj_status = None,
     sj_first_seen = None, sj_other = []\<rparr>"

definition demo_patch :: application_patch where
  "demo_patch = \<lparr>ap_applied = Some True, ap_status = None, ap_date_applied = None, ap_follow_up = None,
     ap_notes = None, ap_not_interested = None\<rparr>"

definition empty_db :: job_db where
  "empty_db = \<lparr>db_companies = [(''c1'', ''Bank'')], db_jobs = [], db_applications = [], db_fits = [],
     db_candidates = []\<rparr>"

definition demo_ops :: "(string \<times> repo_op) list" where
  "demo_ops = [(''t1'', Replace_Jobs [(''c1'', ''Bank'')] [demo_job]),
     (''t2'', Upsert_Application ''j1'' demo_patch), (''t3'', Replace_Jobs [(''c1'', ''Bank'')] [])]"


section \<open>What a collection does to the stored jobs\<close>

lemma insert_job_row:
  assumes "insert_job now job db = Inr db'"
  shows "map_of (db_jobs db') i = (if i = prepared_id job
      then Some (case map_of (db_jobs db) i of None \<Rightarrow> new_row now job
        | Some old \<Rightarrow> new_row now job\<lparr>jr_first_seen := jr_first_seen old, jr_created := jr_created old\<rparr>)
      else map_of (db_jobs db) i)"
  using assms by (auto simp: insert_job_def Let_def update_conv' split: if_split_asm)

definition keeps_history :: "job_db \<Rightarrow> job_db \<Rightarrow> string \<Rightarrow> bool" where
  "keeps_history db db' i \<longleftrightarrow> (case (map_of (db_jobs db) i, map_of (db_jobs db') i) of
     (Some old, Some new) \<Rightarrow> jr_first_seen new = jr_first_seen old \<and> jr_created new = jr_created old
   | _ \<Rightarrow> True)"

lemma insert_all_rows:
  "fold_res (insert_job now) jobs db = Inr db' \<Longrightarrow>
   (i \<notin> prepared_id ` set jobs \<longrightarrow> map_of (db_jobs db') i = map_of (db_jobs db) i)
   \<and> (case map_of (db_jobs db) i of None \<Rightarrow> True | Some old \<Rightarrow>
        (case map_of (db_jobs db') i of None \<Rightarrow> False
         | Some new \<Rightarrow> jr_first_seen new = jr_first_seen old \<and> jr_created new = jr_created old))"
proof (induction jobs arbitrary: db)
  case (Cons job jobs)
  then obtain db1 where db1: "insert_job now job db = Inr db1" "fold_res (insert_job now) jobs db1 = Inr db'"
    by (auto split: sum.splits)
  show ?case
    using Cons.IH [OF db1(2)] insert_job_row [OF db1(1), of i]
    by (auto split: option.splits if_split_asm)
qed (simp split: option.split)

lemma map_of_filter_distinct:
  "distinct (map fst xs) \<Longrightarrow> map_of (filter P xs) i =
     (case map_of xs i of None \<Rightarrow> None | Some v \<Rightarrow> if P (i, v) then Some v else None)"
  by (induction xs) (auto split: option.splits simp: map_of_eq_None_iff dest: map_of_SomeD)

lemma map_of_archive_scoped:
  "map_of (db_jobs (archive_scoped now p db)) i =
     (case map_of (db_jobs db) i of None \<Rightarrow> None
      | Some row \<Rightarrow> Some (if p (i, row) then row\<lparr>jr_status := ''Archived'', jr_updated := now\<rparr> else row))"
  if "distinct (map fst (db_jobs db))"
proof -
  have "map_of (map (\<lambda>r. if p r then (fst r, (snd r)\<lparr>jr_status := ''Archived'', jr_updated := now\<rparr>) else r) xs) i =
     (case map_of xs i of None \<Rightarrow> None
      | Some row \<Rightarrow> Some (if p (i, row) then row\<lparr>jr_status := ''Archived'', jr_updated := now\<rparr> else row))"
    if "distinct (map fst xs)" for xs
    using that by (induction xs) (auto split: option.splits)
  with that show ?thesis by (simp add: archive_scoped_def)
qed

text \<open>What pruning leaves of a row.\<close>

lemma prune_row:
  assumes "db_ok db" and "company_ids \<noteq> Some []"
  shows "map_of (db_jobs (prune_missing_jobs now company_ids keep_ids db)) i =
    (case map_of (db_jobs db) i of None \<Rightarrow> None
     | Some row \<Rightarrow>
         if \<not> in_scope company_ids keep_ids (i, row) then Some row
         else if has_application db i then Some (row\<lparr>jr_status := ''Archived'', jr_updated := now\<rparr>)
         else None)"
proof -
  have d: "distinct (map fst (db_jobs db))" using assms(1) by (simp add: db_ok_def)
  have scope: "in_scope company_ids keep_ids (i, row\<lparr>jr_status := a, jr_updated := b\<rparr>)
      = in_scope company_ids keep_ids (i, row)" for row a b
    by (cases company_ids) (simp_all add: in_scope_def)
  show ?thesis
    using assms(2) d
    by (auto simp: prune_missing_jobs_eq delete_jobs_def Let_def map_of_filter_distinct
        map_of_archive_scoped scope split: option.split)
qed

lemma prune_applications:
  assumes "db_ok db"
  shows "db_applications (prune_missing_jobs now company_ids keep_ids db) = db_applications db"
proof -
  define gone where "gone = (\<lambda>r :: string \<times> job_record. in_scope company_ids keep_ids r \<and> \<not> has_application db (fst r))"
  have "filter (\<lambda>(i, _). i \<notin> set (map fst (filter gone xs))) (db_applications db) = db_applications db" for xs
    by (rule filter_True) (force simp: gone_def)
  then show ?thesis
    by (simp add: prune_missing_jobs_eq delete_jobs_def Let_def flip: gone_def)
qed

lemma map_of_ids: "map_of xs i = None \<longleftrightarrow> i \<notin> fst ` set xs"
  by (rule map_of_eq_None_iff)

text \<open>C35. Collecting again never loses an application: after a complete collection was stored, the
  stored jobs are exactly the collected ones and those somebody applied to; the latter are kept as
  Archived when they were not collected; all application records are unchanged; and a job that was
  already known keeps the time it was first seen.\<close>

theorem collection_keeps_applications:
  assumes "db_ok db" and "replace_jobs now companies jobs db = (db', Inr n)"
  shows "db_applications db' = db_applications db
    \<and> job_ids db' = prepared_id ` set (prepare_jobs companies jobs) \<union> fst ` set (db_applications db)
    \<and> n = length (prepare_jobs companies jobs)
    \<and> (\<forall>i \<in> fst ` set (db_applications db) - prepared_id ` set (prepare_jobs companies jobs).
         \<exists>row. map_of (db_jobs db') i = Some row \<and> jr_status row = ''Archived'')
    \<and> (\<forall>i. keeps_history db db' i)"
proof -
  define keep where "keep = map prepared_id (prepare_jobs companies jobs)"
  obtain db1 where db1: "fold_res (insert_job now) (prepare_jobs companies jobs) db = Inr db1"
    and db': "db' = prune_missing_jobs now None keep db1" and n: "n = length (prepare_jobs companies jobs)"
    using assms(2) by (auto simp: replace_jobs_def store_jobs_def Let_def keep_def comp_def split: sum.splits)
  note ids = insert_all_ids [OF db1]
  have ok1: "db_ok db1" using db1 assms(1) by (rule insert_all)
  have apps: "db_applications db' = db_applications db"
    unfolding db' prune_applications [OF ok1] using ids by simp
  have applied: "fst ` set (db_applications db) \<subseteq> job_ids db1"
    using ok1 ids by (simp add: db_ok_def)
  have row: "map_of (db_jobs db') i = (case map_of (db_jobs db1) i of None \<Rightarrow> None
     | Some row \<Rightarrow> if i \<in> set keep then Some row
         else if has_application db i then Some (row\<lparr>jr_status := ''Archived'', jr_updated := now\<rparr>)
         else None)" for i
    unfolding db' prune_row [OF ok1 option.distinct(1)] ids [THEN conjunct2, THEN conjunct1]
    by (cases "map_of (db_jobs db1) i") (simp_all add: in_scope_def)
  have known: "i \<in> job_ids d \<longleftrightarrow> map_of (db_jobs d) i \<noteq> None" for i and d :: job_db
    using map_of_ids [of "db_jobs d" i] by auto
  have set_keep: "set keep = prepared_id ` set (prepare_jobs companies jobs)" by (simp add: keep_def)
  have "i \<in> job_ids db' \<longleftrightarrow> i \<in> set keep \<union> fst ` set (db_applications db)" for i
  proof -
    have "set keep \<union> fst ` set (db_applications db) \<subseteq> job_ids db1"
      using ids applied set_keep by simp
    then have "i \<in> set keep \<union> fst ` set (db_applications db) \<Longrightarrow> map_of (db_jobs db1) i \<noteq> None"
      unfolding known [of i db1, symmetric] by (rule subsetD)
    then have "map_of (db_jobs db1) i = None \<longrightarrow> i \<notin> set keep \<union> fst ` set (db_applications db)" by blast
    then show ?thesis unfolding known row by (cases "map_of (db_jobs db1) i") simp_all
  qed
  then have "job_ids db' = set keep \<union> fst ` set (db_applications db)" by blast
  moreover have "\<exists>row. map_of (db_jobs db') i = Some row \<and> jr_status row = ''Archived''"
    if "i \<in> fst ` set (db_applications db) - set keep" for i
  proof -
    have "i \<in> job_ids db1" by (rule subsetD [OF applied]) (use that in simp)
    then have "map_of (db_jobs db1) i \<noteq> None" unfolding known .
    then show ?thesis unfolding row using that by (cases "map_of (db_jobs db1) i") simp_all
  qed
  moreover have "keeps_history db db' i" for i
    using insert_all_rows [OF db1, of i] unfolding keeps_history_def row
    by (auto split: option.splits if_split_asm)
  ultimately show ?thesis using apps n set_keep by simp
qed

theorem collection_keeps_applications_witness:
  "\<exists>row. map_of (db_jobs (fold run_op demo_ops empty_db)) ''j1'' = Some row \<and> jr_status row = ''Archived''"
proof -
  define db where "db = fold run_op (take 2 demo_ops) empty_db"
  have "db_ok empty_db" by (simp add: db_ok_def empty_db_def)
  then have ok: "db_ok db" unfolding db_def by (rule run_ops_ok)
  have e: "replace_jobs ''t3'' [(''c1'', ''Bank'')] [] db =
      (fst (replace_jobs ''t3'' [(''c1'', ''Bank'')] [] db), Inr 0)"
    by (simp add: replace_jobs_def store_jobs_def prepare_jobs_def)
  have "fst ` set (db_applications db) = {''j1''}" unfolding db_def by code_simp
  moreover have "\<forall>i \<in> fst ` set (db_applications db) - prepared_id ` set (prepare_jobs [(''c1'', ''Bank'')] []).
      \<exists>row. map_of (db_jobs (fst (replace_jobs ''t3'' [(''c1'', ''Bank'')] [] db))) i = Some row
        \<and> jr_status row = ''Archived''"
    using collection_keeps_applications [OF ok e] by blast
  moreover have "fold run_op demo_ops empty_db = fst (replace_jobs ''t3'' [(''c1'', ''Bank'')] [] db)"
    by (simp add: db_def demo_ops_def)
  ultimately show ?thesis by (simp add: prepare_jobs_def)
qed

end
