(* ===== verification/Repo_Companies.thy ===== *)
theory Repo_Companies
  imports Py_Stdlib "HOL-Library.Char_ord" "HOL-Library.List_Lexorder" "HOL-Library.Product_Lexorder"
begin

text \<open>
  The stored companies (\<^verbatim>\<open>backend/repository.py\<close>, \<^verbatim>\<open>backend/db.py\<close>): the identity of a company by its
  normalised name, with the partial unique index over it; creating, editing, discovering and
  importing companies; the merge of snapshots; and the pages of the company list.
\<close>

section \<open>Rows\<close>

datatype field = F_None | F_Text string | F_Num rat | F_Flag bool

type_synonym fields = "(string \<times> field) list"

text \<open>The values of a row under their API names, with \<open>name\<close> among them, and the key column.\<close>

record company_row =
  co_key :: string
  co_values :: fields
  co_created :: string
  co_updated :: string

type_synonym company_table = "(string \<times> company_row) list"

datatype company_error =
    Name_Required | Duplicate_Company string string | Unknown_Company string | Integrity | Bad_Number

definition field_of :: "fields \<Rightarrow> string \<Rightarrow> field" where
  "field_of vals key = (case map_of vals key of Some v \<Rightarrow> v | None \<Rightarrow> F_None)"

fun text_of :: "field \<Rightarrow> string" where
  "text_of (F_Text s) = s"
| "text_of _ = []"

definition row_name :: "company_row \<Rightarrow> string" where
  "row_name r = text_of (field_of (co_values r) ''name'')"

definition normalize_company_name :: "string \<Rightarrow> string" where
  "normalize_company_name s = str_casefold (join '' '' (split_ws s))"

abbreviation identity_of :: "company_row \<Rightarrow> string" where
  "identity_of r \<equiv> normalize_company_name (row_name r)"

text \<open>The first row of that identity, rows with a key first, then by age and identifier.\<close>

definition find_company_by_normalized_name ::
  "company_table \<Rightarrow> string \<Rightarrow> string option \<Rightarrow> (string \<times> company_row) option" where
  "find_company_by_normalized_name tbl normalized exclude_id =
     (if normalized = [] then None
      else List.find (\<lambda>(_, r). identity_of r = normalized)
        (sort_key (\<lambda>(i, r). (if co_key r \<noteq> [] then 0 else 1 :: nat, co_created r, i))
          (filter (\<lambda>(i, _). Some i \<noteq> exclude_id) tbl)))"

text \<open>The partial unique index \<open>normalized_name <> ''\<close>.\<close>

definition key_free :: "company_table \<Rightarrow> string \<Rightarrow> string \<Rightarrow> bool" where
  "key_free tbl i key \<longleftrightarrow> key = [] \<or> list_all (\<lambda>(j, r). j = i \<or> co_key r \<noteq> key) tbl"

definition write_row ::
  "company_table \<Rightarrow> string \<Rightarrow> string \<Rightarrow> string \<Rightarrow> company_row \<Rightarrow> company_error + company_table" where
  "write_row tbl i name normalized row =
     (if key_free tbl i (co_key row) then Inr (AList.update i row tbl)
      else case find_company_by_normalized_name tbl normalized (Some i) of
             Some (j, r) \<Rightarrow> Inl (Duplicate_Company j (row_name r))
           | None \<Rightarrow> Inl Integrity)"

definition normalized_name_for_existing ::
  "company_row \<Rightarrow> string \<Rightarrow> (string \<times> company_row) option \<Rightarrow> string" where
  "normalized_name_for_existing row normalized duplicate =
     (if co_key row = normalized then normalized
      else if duplicate \<noteq> None then [] else normalized)"

section \<open>Creating and editing\<close>

type_synonym payload = "(string \<times> string) list"

definition pay_get :: "payload \<Rightarrow> string \<Rightarrow> string \<Rightarrow> string" where
  "pay_get p key d = strip (case map_of p key of Some s \<Rightarrow> s | None \<Rightarrow> d)"

definition created_values :: "payload \<Rightarrow> fields" where
  "created_values p =
     (let website = pay_get p ''companyWebsite'' []; job_board = pay_get p ''jobBoardUrl'' [] in
      [(''name'', F_Text (pay_get p ''name'' [])),
       (''industry'', F_Text (pay_get p ''industry'' ''Financial Services'')),
       (''companyDescription'', F_Text (pay_get p ''companyDescription'' [])),
       (''city'', F_Text (pay_get p ''city'' [])), (''state'', F_Text (pay_get p ''state'' [])),
       (''country'', F_Text (pay_get p ''country'' ''United States'')),
       (''knownWebsite'', F_Text website), (''officialWebsite'', F_Text website),
       (''websiteDiscoveryMethod'', F_Text ''Not Found''), (''websiteCandidateUrls'', F_Text []),
       (''websiteVerificationNotes'', F_Text []), (''websiteVerified'', F_Flag False),
       (''careersPageUrl'', F_Text (pay_get p ''careersPageUrl'' [])), (''jobBoardUrl'', F_Text job_board),
       (''jobBoardDiscoveryMethod'', F_Text (if job_board \<noteq> [] then ''Manual'' else ''Not Found'')),
       (''jobsRssFeedUrl'', F_Text []), (''jobPlatform'', F_Text []), (''feedFound'', F_Flag False),
       (''searchStatus'', F_Text ''Needs Review''), (''confidence'', F_Num 0), (''lastChecked'', F_Text []),
       (''notes'', F_Text (pay_get p ''notes'' [])), (''foundedYear'', F_None), (''totalAssets'', F_None),
       (''assetsAsOfDate'', F_Text []), (''companyInfoLastChecked'', F_Text [])])"

text \<open>The identifier is the prefix \<open>company-\<close> and a random UUID, given here.\<close>

definition create_company ::
  "string \<Rightarrow> string \<Rightarrow> payload \<Rightarrow> company_table \<Rightarrow> company_error + company_table" where
  "create_company now company_id p tbl =
     (let name = pay_get p ''name'' []; normalized = normalize_company_name name in
      if normalized = [] then Inl Name_Required
      else case find_company_by_normalized_name tbl normalized None of
             Some (j, r) \<Rightarrow> Inl (Duplicate_Company j (row_name r))
           | None \<Rightarrow>
               if company_id \<in> fst ` set tbl then Inl Integrity
               else write_row tbl company_id name normalized
                 \<lparr>co_key = normalized, co_values = created_values p, co_created = now, co_updated = now\<rparr>)"

definition set_fields :: "fields \<Rightarrow> fields \<Rightarrow> fields" where
  "set_fields new old = fold (\<lambda>(k, v). AList.update k v) new old"

definition urls_changed :: "fields \<Rightarrow> payload \<Rightarrow> bool" where
  "urls_changed current p \<longleftrightarrow>
     strip (text_of (field_of current ''officialWebsite'')) \<noteq> pay_get p ''companyWebsite'' []
     \<or> strip (text_of (field_of current ''careersPageUrl'')) \<noteq> pay_get p ''careersPageUrl'' []
     \<or> strip (text_of (field_of current ''jobBoardUrl'')) \<noteq> pay_get p ''jobBoardUrl'' []"

definition edited_values :: "payload \<Rightarrow> fields \<Rightarrow> fields" where
  "edited_values p current =
     (let website = pay_get p ''companyWebsite'' [];
          description = (if pay_get p ''companyDescription'' [] = []
            then field_of current ''companyDescription'' else F_Text (pay_get p ''companyDescription'' []))
      in set_fields
        ([(''name'', F_Text (pay_get p ''name'' [])),
          (''industry'', F_Text (pay_get p ''industry'' ''Financial Services'')),
          (''companyDescription'', description),
          (''city'', F_Text (pay_get p ''city'' [])), (''state'', F_Text (pay_get p ''state'' [])),
          (''country'', F_Text (pay_get p ''country'' ''United States'')),
          (''knownWebsite'', F_Text website), (''officialWebsite'', F_Text website),
          (''careersPageUrl'', F_Text (pay_get p ''careersPageUrl'' [])),
          (''jobBoardUrl'', F_Text (pay_get p ''jobBoardUrl'' [])),
          (''notes'', F_Text (pay_get p ''notes'' []))]
         @ (if urls_changed current p
            then [(''websiteVerified'', F_Flag False),
                  (''jobBoardDiscoveryMethod'', F_Text ''Manual Re-verification Required''),
                  (''searchStatus'', F_Text ''Needs Review''), (''lastChecked'', F_Text [])]
            else [])) current)"

definition update_company ::
  "string \<Rightarrow> string \<Rightarrow> payload \<Rightarrow> company_table \<Rightarrow> company_error + company_table" where
  "update_company now company_id p tbl =
     (let name = pay_get p ''name'' []; normalized = normalize_company_name name in
      if normalized = [] then Inl Name_Required
      else case map_of tbl company_id of
             None \<Rightarrow> Inl (Unknown_Company company_id)
           | Some row \<Rightarrow>
               (let duplicate = find_company_by_normalized_name tbl normalized (Some company_id) in
                case (if normalized \<noteq> identity_of row then duplicate else None) of
                  Some (j, r) \<Rightarrow> Inl (Duplicate_Company j (row_name r))
                | None \<Rightarrow>
                    write_row tbl company_id name normalized
                      (row\<lparr>co_key := normalized_name_for_existing row normalized duplicate,
                           co_values := edited_values p (co_values row), co_updated := now\<rparr>)))"

section \<open>Snapshots\<close>

definition snapshot_fields :: "string list" where
  "snapshot_fields =
     [''name'', ''industry'', ''companyDescription'', ''city'', ''state'', ''country'',
      ''knownWebsite'', ''officialWebsite'', ''websiteDiscoveryMethod'', ''websiteCandidateUrls'',
      ''websiteVerificationNotes'', ''websiteVerified'', ''careersPageUrl'', ''jobBoardUrl'',
      ''jobBoardDiscoveryMethod'', ''jobsRssFeedUrl'', ''jobPlatform'', ''feedFound'',
      ''searchStatus'', ''confidence'', ''lastChecked'', ''notes'', ''foundedYear'', ''totalAssets'',
      ''assetsAsOfDate'', ''companyInfoLastChecked'']"

fun has_company_value :: "field \<Rightarrow> bool" where
  "has_company_value F_None = False"
| "has_company_value (F_Text s) = (strip s \<noteq> [])"
| "has_company_value _ = True"

fun truthy :: "field \<Rightarrow> bool" where
  "truthy F_None = False"
| "truthy (F_Text s) = (s \<noteq> [])"
| "truthy (F_Num n) = (n \<noteq> 0)"
| "truthy (F_Flag b) = b"

text \<open>\<open>int(value or 0)\<close>; a text that is no plain number raises.\<close>

fun int_of_field :: "field \<Rightarrow> int option" where
  "int_of_field F_None = Some 0"
| "int_of_field (F_Num r) = Some (if r < 0 then - \<lfloor>- r\<rfloor> else \<lfloor>r\<rfloor>)"
| "int_of_field (F_Flag b) = Some (if b then 1 else 0)"
| "int_of_field (F_Text s) = (if s = [] then Some 0 else map_option int (read_nat (strip s)))"

fun stripped :: "field \<Rightarrow> field" where
  "stripped (F_Text s) = F_Text (strip s)"
| "stripped v = v"

text \<open>One key of the merge.\<close>

definition merge_field :: "bool \<Rightarrow> string \<Rightarrow> field \<Rightarrow> field \<Rightarrow> company_error + field" where
  "merge_field prefer_incoming key current incoming =
     (if \<not> has_company_value incoming then Inr current
      else if prefer_incoming \<or> \<not> has_company_value current then Inr (stripped incoming)
      else if key = ''websiteVerified'' \<or> key = ''feedFound''
      then Inr (F_Flag (truthy current \<or> truthy incoming))
      else if key = ''confidence''
      then (case (int_of_field current, int_of_field incoming) of
              (Some a, Some b) \<Rightarrow> Inr (F_Num (of_int (max a b)))
            | _ \<Rightarrow> Inl Bad_Number)
      else Inr current)"

fun merge_fields :: "bool \<Rightarrow> fields \<Rightarrow> string list \<Rightarrow> fields \<Rightarrow> company_error + fields" where
  "merge_fields fresh incoming [] merged = Inr merged"
| "merge_fields fresh incoming (key # keys) merged =
     bind_res (merge_field fresh key (field_of merged key) (field_of incoming key)) (\<lambda>v.
       merge_fields fresh incoming keys (AList.update key v merged))"

definition merge_company_snapshot :: "bool \<Rightarrow> fields \<Rightarrow> fields \<Rightarrow> company_error + fields" where
  "merge_company_snapshot prefer_incoming current incoming =
     merge_fields prefer_incoming incoming snapshot_fields current"

text \<open>\<open>company_insert_values\<close>: a missing key takes its default, the flags become booleans.\<close>

definition field_default :: "string \<Rightarrow> field" where
  "field_default key =
     (if key = ''industry'' then F_Text ''Financial Services''
      else if key = ''country'' then F_Text ''United States''
      else if key = ''jobBoardDiscoveryMethod'' then F_Text ''Not Found''
      else if key = ''searchStatus'' then F_Text ''Needs Review''
      else if key = ''confidence'' then F_Num 0
      else if key = ''foundedYear'' \<or> key = ''totalAssets'' then F_None
      else F_Text [])"

definition insert_value :: "fields \<Rightarrow> string \<Rightarrow> field" where
  "insert_value company key =
     (if key = ''websiteVerified'' \<or> key = ''feedFound'' then F_Flag (truthy (field_of company key))
      else case map_of company key of Some v \<Rightarrow> v | None \<Rightarrow> field_default key)"

definition company_insert_values :: "fields \<Rightarrow> fields" where
  "company_insert_values company = map (\<lambda>key. (key, insert_value company key)) snapshot_fields"

record snapshot =
  sn_id :: string
  sn_values :: fields

definition store_snapshot ::
  "string \<Rightarrow> company_table \<Rightarrow> string \<Rightarrow> string \<Rightarrow> string \<Rightarrow> string \<Rightarrow> fields \<Rightarrow> company_error + company_table" where
  "store_snapshot now tbl company_id name normalized stored company =
     write_row tbl company_id name normalized
       \<lparr>co_key = stored, co_values = company_insert_values company,
        co_created = (case map_of tbl company_id of Some r \<Rightarrow> co_created r | None \<Rightarrow> now),
        co_updated = now\<rparr>"

text \<open>One round of \<open>upsert_company_snapshots\<close>, with the identifier to use for a new company.\<close>

definition upsert_snapshot ::
  "string \<Rightarrow> string \<times> snapshot \<Rightarrow> company_table \<Rightarrow> company_error + company_table" where
  "upsert_snapshot now = (\<lambda>(new_id, source) tbl.
     let incoming_id = strip (sn_id source);
         existing = (if incoming_id = [] then None else map_of tbl incoming_id);
         given = strip (text_of (field_of (sn_values source) ''name''));
         name = (case existing of Some r \<Rightarrow> if given = [] then row_name r else given | None \<Rightarrow> given);
         normalized = normalize_company_name name;
         incoming = AList.update ''name'' (F_Text name) (sn_values source)
     in if normalized = [] then Inl Name_Required
        else case existing of
          Some row \<Rightarrow>
            (let duplicate = find_company_by_normalized_name tbl normalized (Some incoming_id) in
             case (if normalized \<noteq> identity_of row then duplicate else None) of
               Some (j, r) \<Rightarrow> Inl (Duplicate_Company j (row_name r))
             | None \<Rightarrow>
                 bind_res (merge_company_snapshot True (co_values row) incoming) (\<lambda>company.
                   store_snapshot now tbl incoming_id name normalized
                     (normalized_name_for_existing row normalized duplicate) company))
        | None \<Rightarrow>
            (case find_company_by_normalized_name tbl normalized None of
               Some (j, target) \<Rightarrow>
                 (let other = find_company_by_normalized_name tbl normalized (Some j) in
                  bind_res (merge_company_snapshot False (co_values target) incoming) (\<lambda>company.
                    store_snapshot now tbl j name normalized
                      (normalized_name_for_existing target normalized other) company))
             | None \<Rightarrow>
                 store_snapshot now tbl (if incoming_id = [] then new_id else incoming_id)
                   name normalized normalized incoming))"

text \<open>The whole import is one transaction.\<close>

definition upsert_company_snapshots ::
  "string \<Rightarrow> (string \<times> snapshot) list \<Rightarrow> company_table \<Rightarrow> company_error + company_table" where
  "upsert_company_snapshots now sources tbl = fold_res (upsert_snapshot now) sources tbl"

section \<open>Discovery\<close>

definition discovery_fields :: "string list" where
  "discovery_fields =
     [''industry'', ''companyDescription'', ''city'', ''state'', ''knownWebsite'', ''officialWebsite'',
      ''websiteDiscoveryMethod'', ''websiteCandidateUrls'', ''websiteVerificationNotes'',
      ''careersPageUrl'', ''jobBoardUrl'', ''jobBoardDiscoveryMethod'', ''jobPlatform'',
      ''foundedYear'', ''totalAssets'', ''assetsAsOfDate'']"

definition refreshable_fields :: "string list" where
  "refreshable_fields =
     [''officialWebsite'', ''websiteDiscoveryMethod'', ''websiteCandidateUrls'',
      ''websiteVerificationNotes'', ''careersPageUrl'', ''jobBoardUrl'',
      ''jobBoardDiscoveryMethod'', ''jobPlatform'', ''totalAssets'', ''assetsAsOfDate'']"

text \<open>What a discovery run found: values, and the four flags that say what it may replace.\<close>

record discovery =
  di_values :: fields
  di_replace_confirmed :: "string list"
  di_replace_invalid_board :: bool
  di_replace_discovered :: bool
  di_reconcile_status :: bool

abbreviation blank_field :: "field \<Rightarrow> bool" where
  "blank_field v \<equiv> v = F_None \<or> v = F_Text []"

definition found_value :: "discovery \<Rightarrow> string \<Rightarrow> field" where
  "found_value d key =
     (let v = field_of (di_values d) key in if key = ''companyDescription'' then stripped v else v)"

definition may_replace :: "discovery \<Rightarrow> string \<Rightarrow> bool" where
  "may_replace d key \<longleftrightarrow>
     key = ''jobBoardUrl'' \<and> di_replace_invalid_board d
     \<or> key \<in> set (di_replace_confirmed d) \<and> key \<in> set discovery_fields
     \<or> di_replace_discovered d \<and> key \<in> set refreshable_fields"

definition discovered_field :: "discovery \<Rightarrow> fields \<Rightarrow> string \<Rightarrow> bool" where
  "discovered_field d current key \<longleftrightarrow>
     \<not> (blank_field (found_value d key)
        \<or> \<not> blank_field (field_of current key) \<and> \<not> may_replace d key)"

definition website_confirmed :: "discovery \<Rightarrow> fields \<Rightarrow> bool" where
  "website_confirmed d current \<longleftrightarrow>
     (let old = field_of current ''officialWebsite''; new = field_of (di_values d) ''officialWebsite'';
          discovered = (if truthy new then text_of new else text_of old)
      in truthy (field_of (di_values d) ''websiteVerified'')
         \<and> (di_replace_discovered d
            \<or> ''officialWebsite'' \<in> set (di_replace_confirmed d)
            \<or> discovered = (if truthy old then text_of old else discovered)))"

definition discovered_values :: "string \<Rightarrow> discovery \<Rightarrow> fields \<Rightarrow> fields" where
  "discovered_values now d current =
     (let found = map (\<lambda>key. (key, found_value d key)) (filter (discovered_field d current) discovery_fields);
          verified = (if website_confirmed d current then [(''websiteVerified'', F_Flag True)] else []);
          new_status = field_of (di_values d) ''searchStatus'';
          status = (if truthy new_status
                       \<and> (field_of current ''searchStatus'' \<noteq> F_Text ''Completed'' \<or> di_reconcile_status d)
                    then [(''searchStatus'', new_status)] else []);
          checked = (let c = field_of (di_values d) ''lastChecked'' in if truthy c then c else F_Text now)
      in set_fields (found @ verified @ status
           @ [(''lastChecked'', checked), (''companyInfoLastChecked'', checked)]) current)"

definition update_discovered_company_fields ::
  "string \<Rightarrow> string \<Rightarrow> discovery \<Rightarrow> company_table \<Rightarrow> company_error + company_table" where
  "update_discovered_company_fields now company_id d tbl =
     (case map_of tbl company_id of
        None \<Rightarrow> Inl (Unknown_Company company_id)
      | Some row \<Rightarrow> Inr (AList.update company_id
          (row\<lparr>co_values := discovered_values now d (co_values row), co_updated := now\<rparr>) tbl))"

definition delete_company :: "string \<Rightarrow> company_table \<Rightarrow> company_error + company_table" where
  "delete_company company_id tbl =
     (if company_id \<in> fst ` set tbl then Inr (filter (\<lambda>(i, _). i \<noteq> company_id) tbl)
      else Inl (Unknown_Company company_id))"

section \<open>Keys for a database from before the index\<close>

text \<open>The oldest row of each name owns the key; the pairs are the names seen so far.\<close>

fun desired_keys :: "(string \<times> string) list \<Rightarrow> (string \<times> company_row) list \<Rightarrow> (string \<times> string) list" where
  "desired_keys preferred [] = []"
| "desired_keys preferred ((i, r) # rows) =
     (let normalized = identity_of r in
      if normalized = [] then (i, []) # desired_keys preferred rows
      else case map_of preferred normalized of
             Some owner \<Rightarrow> (i, if owner = i then normalized else []) # desired_keys preferred rows
           | None \<Rightarrow> (i, normalized) # desired_keys ((normalized, i) # preferred) rows)"

definition backfill_company_normalized_names :: "company_table \<Rightarrow> company_table" where
  "backfill_company_normalized_names tbl =
     (let desired = desired_keys [] (sort_key (\<lambda>(i, r). (co_created r, i)) tbl) in
      map (\<lambda>(i, r). (i, r\<lparr>co_key := (case map_of desired i of Some k \<Rightarrow> k | None \<Rightarrow> co_key r)\<rparr>)) tbl)"

section \<open>Pages\<close>

text \<open>The page that is shown, the number of pages and the offset of the first row.\<close>

definition page_window :: "nat \<Rightarrow> int \<Rightarrow> int \<Rightarrow> nat \<times> nat \<times> nat \<times> nat" where
  "page_window total_rows page page_size =
     (let per_page = (if page_size \<in> {25, 50, 100} then nat page_size else 25);
          pages = max 1 ((total_rows + per_page - 1) div per_page);
          shown = min (nat (max 1 page)) pages
      in (shown, per_page, pages, (shown - 1) * per_page))"

definition query_page :: "'r list \<Rightarrow> int \<Rightarrow> int \<Rightarrow> 'r list" where
  "query_page rows page page_size =
     (case page_window (length rows) page page_size of (_, per_page, _, offset) \<Rightarrow> take per_page (drop offset rows))"

lemma page_window_bounds:
  "case page_window n page page_size of (shown, per_page, pages, offset) \<Rightarrow>
     1 \<le> shown \<and> shown \<le> pages \<and> per_page \<in> {25, 50, 100} \<and> offset = (shown - 1) * per_page
     \<and> (n = 0 \<or> offset < n) \<and> n \<le> pages * per_page"
proof -
  define per_page where "per_page = (if page_size \<in> {25, 50, 100} then nat page_size else 25)"
  define pages where "pages = max 1 ((n + per_page - 1) div per_page)"
  define shown where "shown = min (nat (max 1 page)) pages"
  have per_page: "per_page \<in> {25, 50, 100}" by (auto simp: per_page_def)
  then have pos: "0 < per_page" by auto
  have "shown \<le> pages" "1 \<le> shown" by (auto simp: shown_def pages_def)
  have "n \<le> pages * per_page"
  proof -
    have "n + per_page - 1 < ((n + per_page - 1) div per_page + 1) * per_page"
      using pos dividend_less_div_times [of per_page "n + per_page - 1"] by simp
    then have "n \<le> (n + per_page - 1) div per_page * per_page" using pos by simp
    then show ?thesis by (rule order_trans) (simp add: pages_def)
  qed
  moreover have "n = 0 \<or> (shown - 1) * per_page < n"
  proof (cases "n = 0")
    case False
    then have "n + per_page - 1 = (n - 1) + per_page" by simp
    then have "(n + per_page - 1) div per_page = (n - 1) div per_page + 1"
      using pos by (simp only: div_add_self2)
    then have "pages - 1 \<le> (n - 1) div per_page" by (simp add: pages_def)
    then have "(shown - 1) * per_page \<le> (n - 1) div per_page * per_page"
      using \<open>shown \<le> pages\<close> by (simp add: le_diff_conv)
    also have "\<dots> \<le> n - 1" by simp
    finally show ?thesis using False by simp
  qed simp
  moreover have "page_window n page page_size = (shown, per_page, pages, (shown - 1) * per_page)"
    by (simp only: page_window_def Let_def per_page_def pages_def shown_def)
  ultimately show ?thesis
    using per_page \<open>shown \<le> pages\<close> \<open>1 \<le> shown\<close> by simp
qed

section \<open>Identity\<close>

lemma split_ws_from_trailing:
  "list_all is_space t \<Longrightarrow> split_ws_from cur (s @ t) = split_ws_from cur s"
proof (induction s arbitrary: cur)
  case Nil
  then show ?case by (induction t arbitrary: cur) auto
qed auto

lemma split_ws_strip [simp]: "split_ws (strip s) = split_ws s"
proof -
  have l: "split_ws (lstrip t) = split_ws t" for t
    by (induction t) (auto simp: lstrip_def split_ws_def)
  have t: "t = rstrip t @ rev (takeWhile is_space (rev t))" for t
    unfolding rstrip_def by (metis rev_append rev_rev_ident takeWhile_dropWhile_id)
  have "list_all is_space (rev (takeWhile is_space (rev t)))" for t
    by (auto simp: list_all_iff dest: set_takeWhileD)
  then have "split_ws (rstrip t) = split_ws t" for t
    using split_ws_from_trailing [of "rev (takeWhile is_space (rev t))" "[]" "rstrip t"] t [of t]
    unfolding split_ws_def by simp
  then show ?thesis unfolding strip_def using l by simp
qed

lemma normalize_strip [simp]: "normalize_company_name (strip s) = normalize_company_name s"
  by (simp add: normalize_company_name_def)

lemma normalize_blank: "strip s = [] \<Longrightarrow> normalize_company_name s = []"
proof -
  assume "strip s = []"
  then have "split_ws s = split_ws []" using split_ws_strip [of s, symmetric] by (simp only:)
  then show ?thesis by (simp add: normalize_company_name_def split_ws_def str_casefold_def)
qed

lemma find_company_None:
  assumes "find_company_by_normalized_name tbl n excl = None" and "n \<noteq> []"
    and "(i, r) \<in> set tbl" and "Some i \<noteq> excl"
  shows "identity_of r \<noteq> n"
  using assms by (auto simp: find_company_by_normalized_name_def find_None_iff)

lemma find_in_set: "List.find P xs = Some x \<Longrightarrow> P x \<and> x \<in> set xs"
  by (induction xs) (auto split: if_split_asm)

lemma find_company_Some:
  assumes "find_company_by_normalized_name tbl n excl = Some (j, r)"
  shows "(j, r) \<in> set tbl \<and> Some j \<noteq> excl \<and> identity_of r = n \<and> n \<noteq> []"
  using assms
  by (auto simp: find_company_by_normalized_name_def split: if_split_asm dest!: find_in_set)

text \<open>Every row has a name; identifiers and identities are unique; a key is the identity or empty.\<close>

definition companies_ok :: "company_table \<Rightarrow> bool" where
  "companies_ok tbl \<longleftrightarrow> distinct (map fst tbl) \<and> distinct (map (\<lambda>x. identity_of (snd x)) tbl)
     \<and> list_all (\<lambda>(_, r). identity_of r \<noteq> [] \<and> co_key r \<in> {[], identity_of r}) tbl"

lemma distinct_update_image:
  assumes "distinct (map fst xs)" and "distinct (map (\<lambda>x. f (snd x)) xs)"
    and "\<And>j r. (j, r) \<in> set xs \<Longrightarrow> j \<noteq> k \<Longrightarrow> f r \<noteq> f v"
  shows "distinct (map (\<lambda>x. f (snd x)) (AList.update k v xs))"
  using assms
proof (induction xs)
  case (Cons x xs)
  obtain j r where x: "x = (j, r)" by (cases x)
  have sub: "set (AList.update k v xs) \<subseteq> insert (k, v) (set xs)" by (induction xs) auto
  show ?case
  proof (cases "j = k")
    case True
    have "f v \<notin> (\<lambda>x. f (snd x)) ` set xs"
    proof
      assume "f v \<in> (\<lambda>x. f (snd x)) ` set xs"
      then obtain i q where "(i, q) \<in> set xs" "f v = f q" by auto
      moreover have "i \<noteq> k" using Cons.prems(1) calculation(1) True x by force
      ultimately show False using Cons.prems(3) [of i q] by auto
    qed
    then show ?thesis using True x Cons.prems(2) by simp
  next
    case False
    have "f r \<notin> (\<lambda>x. f (snd x)) ` set (AList.update k v xs)"
    proof
      assume "f r \<in> (\<lambda>x. f (snd x)) ` set (AList.update k v xs)"
      then have "f r = f v \<or> f r \<in> (\<lambda>x. f (snd x)) ` set xs" using sub by auto
      then show False using Cons.prems(2) Cons.prems(3) [of j r] x False by auto
    qed
    moreover have "distinct (map (\<lambda>x. f (snd x)) (AList.update k v xs))"
      by (rule Cons.IH) (use Cons.prems in auto)
    ultimately show ?thesis using False x by simp
  qed
qed simp

lemma companies_ok_update:
  assumes "companies_ok tbl" and "identity_of row \<noteq> []" and "co_key row \<in> {[], identity_of row}"
    and "\<And>j r. (j, r) \<in> set tbl \<Longrightarrow> j \<noteq> i \<Longrightarrow> identity_of r \<noteq> identity_of row"
  shows "companies_ok (AList.update i row tbl)"
proof -
  have "set (AList.update i row tbl) \<subseteq> insert (i, row) (set tbl)" by (induction tbl) auto
  then have "list_all (\<lambda>(_, r). identity_of r \<noteq> [] \<and> co_key r \<in> {[], identity_of r}) (AList.update i row tbl)"
    using assms(1-3) by (auto simp: companies_ok_def list_all_iff)
  then show ?thesis
    using assms(1,4) distinct_update_image [of tbl identity_of i row] unfolding companies_ok_def
    by (simp add: distinct_update)
qed

lemma write_row_ok:
  assumes "companies_ok tbl" and "write_row tbl i name n row = Inr tbl'"
    and "identity_of row = n" and "n \<noteq> []" and "co_key row \<in> {[], n}"
    and "\<And>j r. (j, r) \<in> set tbl \<Longrightarrow> j \<noteq> i \<Longrightarrow> identity_of r \<noteq> n"
  shows "companies_ok tbl'"
proof -
  have "tbl' = AList.update i row tbl"
    using assms(2) by (auto simp: write_row_def split: if_split_asm option.splits)
  then show ?thesis using companies_ok_update [OF assms(1)] assms(3-6) by simp
qed

lemma identity_unique:
  assumes "companies_ok tbl" and "(i, r) \<in> set tbl" and "(j, q) \<in> set tbl" and "identity_of r = identity_of q"
  shows "i = j"
proof -
  have "inj_on (\<lambda>x. identity_of (snd x)) (set tbl)" using assms(1) by (simp add: companies_ok_def distinct_map)
  from inj_onD [OF this _ assms(2,3)] assms(4) have "(i, r) = (j, q)" by simp
  then show ?thesis by simp
qed

section \<open>Names stay unique\<close>

lemma field_of_update: "field_of (AList.update k v vals) k' = (if k' = k then v else field_of vals k')"
  by (simp add: field_of_def update_conv')

lemma field_of_set_fields:
  "field_of (set_fields new old) k = (case map_of (rev new) k of Some v \<Rightarrow> v | None \<Rightarrow> field_of old k)"
proof -
  have "field_of (fold (\<lambda>(k, v). AList.update k v) new old) k =
      (case map_of (rev new) k of Some v \<Rightarrow> v | None \<Rightarrow> field_of old k)"
    by (induction new arbitrary: old) (auto simp: field_of_update map_add_def split: option.splits)
  then show ?thesis by (simp add: set_fields_def)
qed

lemma created_name: "text_of (field_of (created_values p) ''name'') = pay_get p ''name'' []"
  by (simp add: created_values_def field_of_def Let_def)

lemma edited_name: "text_of (field_of (edited_values p current) ''name'') = pay_get p ''name'' []"
  by (simp add: edited_values_def Let_def field_of_set_fields)

lemma insert_name:
  assumes "field_of vals ''name'' = F_Text name" and "name \<noteq> []"
  shows "text_of (field_of (company_insert_values vals) ''name'') = name"
proof -
  have "map_of vals ''name'' = Some (F_Text name)"
    using assms by (auto simp: field_of_def split: option.splits)
  then show ?thesis
    by (simp add: company_insert_values_def snapshot_fields_def field_of_def insert_value_def)
qed

lemma merge_fields_other:
  "merge_fields fresh inc keys m = Inr m' \<Longrightarrow> k \<notin> set keys \<Longrightarrow> field_of m' k = field_of m k"
  by (induction fresh inc keys m rule: merge_fields.induct) (auto simp: res_simps field_of_update)

lemma merge_fields_at:
  assumes "merge_fields fresh inc keys m = Inr m'" and "k \<in> set keys" and "distinct keys"
  shows "merge_field fresh k (field_of m k) (field_of inc k) = Inr (field_of m' k)"
  using assms
proof (induction fresh inc keys m rule: merge_fields.induct)
  case (2 fresh inc key keys m)
  then obtain v where v: "merge_field fresh key (field_of m key) (field_of inc key) = Inr v"
    "merge_fields fresh inc keys (AList.update key v m) = Inr m'"
    by (auto simp: res_simps)
  show ?case
  proof (cases "k = key")
    case True
    then have "field_of m' k = v"
      using merge_fields_other [OF v(2)] 2(4) by (simp add: field_of_update)
    then show ?thesis using v(1) True by simp
  next
    case False
    then show ?thesis using 2(1) [OF v(2)] 2(3,4) by (simp add: field_of_update)
  qed
qed simp

lemma snapshot_fields_distinct: "distinct snapshot_fields"
  unfolding snapshot_fields_def by code_simp

lemma merged_field:
  assumes "merge_company_snapshot fresh current incoming = Inr merged"
  shows "if key \<in> set snapshot_fields
    then merge_field fresh key (field_of current key) (field_of incoming key) = Inr (field_of merged key)
    else field_of merged key = field_of current key"
  using assms merge_fields_at [OF _ _ snapshot_fields_distinct] merge_fields_other
  unfolding merge_company_snapshot_def by (simp only: split: if_split) blast

lemma name_in_snapshot_fields: "''name'' \<in> set snapshot_fields"
  by (simp add: snapshot_fields_def)

lemma merge_name_prefer:
  assumes "merge_company_snapshot True current incoming = Inr merged"
    and "field_of incoming ''name'' = F_Text name" and "strip name \<noteq> []"
  shows "field_of merged ''name'' = F_Text (strip name)"
  using merged_field [OF assms(1), of "''name''"] assms(2,3) name_in_snapshot_fields
  by (simp add: merge_field_def)

lemma merge_name_keep:
  assumes "merge_company_snapshot False current incoming = Inr merged"
    and "has_company_value (field_of current ''name'')"
  shows "field_of merged ''name'' = field_of current ''name''"
  using merged_field [OF assms(1), of "''name''"] assms(2) name_in_snapshot_fields
  by (simp add: merge_field_def split: if_split_asm)

lemma row_name_value:
  assumes "identity_of r \<noteq> []"
  shows "field_of (co_values r) ''name'' = F_Text (row_name r) \<and> strip (row_name r) \<noteq> []"
proof -
  have "strip (row_name r) \<noteq> []" using assms normalize_blank by blast
  then show ?thesis
    by (cases "field_of (co_values r) ''name''") (auto simp: row_name_def strip_def lstrip_def rstrip_def)
qed

lemma others_differ:
  assumes "companies_ok tbl" and "(i, row) \<in> set tbl" and "n \<noteq> []"
    and "n = identity_of row \<or> find_company_by_normalized_name tbl n (Some i) = None"
    and "(j, r) \<in> set tbl" and "j \<noteq> i"
  shows "identity_of r \<noteq> n"
  using assms identity_unique [OF assms(1,2,5)] find_company_None [OF _ assms(3,5)] by auto

lemma normalized_for_existing_key:
  "normalized_name_for_existing row n dup \<in> {[], n}"
  by (auto simp: normalized_name_for_existing_def)

lemma create_company_ok:
  assumes "companies_ok tbl" and "create_company now i p tbl = Inr tbl'"
  shows "companies_ok tbl'"
proof -
  define n where "n = normalize_company_name (pay_get p ''name'' [])"
  from assms(2) have n: "n \<noteq> []" and none: "find_company_by_normalized_name tbl n None = None"
    and w: "write_row tbl i (pay_get p ''name'' []) n
      \<lparr>co_key = n, co_values = created_values p, co_created = now, co_updated = now\<rparr> = Inr tbl'"
    by (auto simp: create_company_def Let_def n_def split: if_split_asm option.splits)
  show ?thesis
    by (rule write_row_ok [OF assms(1) w]) (use n none find_company_None in \<open>auto simp: row_name_def created_name n_def\<close>)
qed

lemma update_company_ok:
  assumes "companies_ok tbl" and "update_company now i p tbl = Inr tbl'"
  shows "companies_ok tbl'"
proof -
  define n where "n = normalize_company_name (pay_get p ''name'' [])"
  define dup where "dup = find_company_by_normalized_name tbl n (Some i)"
  from assms(2) obtain row where n: "n \<noteq> []" and row: "map_of tbl i = Some row"
    and nodup: "n = identity_of row \<or> dup = None"
    and w: "write_row tbl i (pay_get p ''name'' []) n
      (row\<lparr>co_key := normalized_name_for_existing row n dup,
           co_values := edited_values p (co_values row), co_updated := now\<rparr>) = Inr tbl'"
    by (auto simp: update_company_def Let_def n_def dup_def split: if_split_asm option.splits)
  show ?thesis
  proof (rule write_row_ok [OF assms(1) w _ n])
    show "identity_of (row\<lparr>co_key := normalized_name_for_existing row n dup,
           co_values := edited_values p (co_values row), co_updated := now\<rparr>) = n"
      by (simp add: row_name_def edited_name n_def)
    show "identity_of r \<noteq> n" if "(j, r) \<in> set tbl" "j \<noteq> i" for j r
      using others_differ [OF assms(1) map_of_SomeD [OF row] n nodup [unfolded dup_def] that] .
  qed (use normalized_for_existing_key in simp)
qed

lemma store_snapshot_ok:
  assumes "companies_ok tbl" and "store_snapshot now tbl i name n stored company = Inr tbl'"
    and "field_of company ''name'' = F_Text v" and "normalize_company_name v = n" and "n \<noteq> []"
    and "stored \<in> {[], n}"
    and "\<And>j r. (j, r) \<in> set tbl \<Longrightarrow> j \<noteq> i \<Longrightarrow> identity_of r \<noteq> n"
  shows "companies_ok tbl'"
proof -
  have "v \<noteq> []" using assms(4,5) normalize_blank [of v] by (auto simp: strip_def lstrip_def rstrip_def)
  then have "text_of (field_of (company_insert_values company) ''name'') = v"
    by (rule insert_name [OF assms(3)])
  then show ?thesis
    by (intro write_row_ok [OF assms(1) assms(2) [unfolded store_snapshot_def] _ assms(5) _ assms(7)])
      (use assms(4,6) in \<open>simp_all add: row_name_def\<close>)
qed

lemma upsert_snapshot_ok:
  assumes "companies_ok tbl" and "upsert_snapshot now source tbl = Inr tbl'"
  shows "companies_ok tbl'"
proof -
  obtain new_id sn where source: "source = (new_id, sn)" by (cases source)
  define incoming_id where "incoming_id = strip (sn_id sn)"
  define existing where "existing = (if incoming_id = [] then None else map_of tbl incoming_id)"
  define given where "given = strip (text_of (field_of (sn_values sn) ''name''))"
  define name where "name = (case existing of Some r \<Rightarrow> if given = [] then row_name r else given | None \<Rightarrow> given)"
  define n where "n = normalize_company_name name"
  define incoming where "incoming = AList.update ''name'' (F_Text name) (sn_values sn)"
  note defs = incoming_id_def existing_def given_def name_def n_def incoming_def
  have step: "upsert_snapshot now source tbl = (if n = [] then Inl Name_Required
      else case existing of
        Some row \<Rightarrow>
          (let duplicate = find_company_by_normalized_name tbl n (Some incoming_id) in
           case (if n \<noteq> identity_of row then duplicate else None) of
             Some (j, r) \<Rightarrow> Inl (Duplicate_Company j (row_name r))
           | None \<Rightarrow>
               bind_res (merge_company_snapshot True (co_values row) incoming) (\<lambda>company.
                 store_snapshot now tbl incoming_id name n
                   (normalized_name_for_existing row n duplicate) company))
      | None \<Rightarrow>
          (case find_company_by_normalized_name tbl n None of
             Some (j, target) \<Rightarrow>
               (let other = find_company_by_normalized_name tbl n (Some j) in
                bind_res (merge_company_snapshot False (co_values target) incoming) (\<lambda>company.
                  store_snapshot now tbl j name n (normalized_name_for_existing target n other) company))
           | None \<Rightarrow>
               store_snapshot now tbl (if incoming_id = [] then new_id else incoming_id) name n n incoming))"
    by (simp only: upsert_snapshot_def source prod.case Let_def defs)
  have n: "n \<noteq> []" using assms(2) step by (auto split: if_split_asm)
  have inc: "field_of incoming ''name'' = F_Text name" by (simp add: incoming_def field_of_update)
  have name: "strip name \<noteq> []" using n normalize_blank unfolding n_def by blast
  show ?thesis
  proof (cases existing)
    case (Some row)
    define dup where "dup = find_company_by_normalized_name tbl n (Some incoming_id)"
    obtain company where m: "merge_company_snapshot True (co_values row) incoming = Inr company"
      and s: "store_snapshot now tbl incoming_id name n (normalized_name_for_existing row n dup) company = Inr tbl'"
      and nodup: "n = identity_of row \<or> dup = None"
      using assms(2) n Some unfolding step
      by (auto simp: Let_def res_simps dup_def split: if_split_asm option.splits)
    have row: "(incoming_id, row) \<in> set tbl"
      using Some by (auto simp: existing_def dest: map_of_SomeD split: if_split_asm)
    show ?thesis
      by (rule store_snapshot_ok [OF assms(1) s merge_name_prefer [OF m inc name] _ n normalized_for_existing_key
            others_differ [OF assms(1) row n nodup [unfolded dup_def]]])
        (simp_all add: n_def)
  next
    case None
    show ?thesis
    proof (cases "find_company_by_normalized_name tbl n None")
      case none: None
      then have s: "store_snapshot now tbl (if incoming_id = [] then new_id else incoming_id) name n n incoming = Inr tbl'"
        using assms(2) n None unfolding step by simp
      show ?thesis
        by (rule store_snapshot_ok [OF assms(1) s inc _ n _ find_company_None [OF none n]])
          (simp_all add: n_def)
    next
      case (Some x)
      obtain j target where x: "x = (j, target)" by (cases x)
      note t = find_company_Some [OF Some [unfolded x]]
      obtain company where m: "merge_company_snapshot False (co_values target) incoming = Inr company"
        and s: "store_snapshot now tbl j name n (normalized_name_for_existing target n
          (find_company_by_normalized_name tbl n (Some j))) company = Inr tbl'"
        using assms(2) n None Some x unfolding step by (auto simp: Let_def res_simps)
      have target: "field_of (co_values target) ''name'' = F_Text (row_name target)" "strip (row_name target) \<noteq> []"
        using row_name_value t n by auto
      then have c: "field_of company ''name'' = F_Text (row_name target)"
        using merge_name_keep [OF m] by simp
      have differ: "identity_of r \<noteq> n" if "(k, r) \<in> set tbl" "k \<noteq> j" for k r
        by (rule others_differ [OF assms(1) _ n _ that]) (use t in auto)
      show ?thesis
        by (rule store_snapshot_ok [OF assms(1) s c _ n normalized_for_existing_key differ]) (use t in simp_all)
    qed
  qed
qed

lemma discover_ok:
  assumes "companies_ok tbl" and "update_discovered_company_fields now i d tbl = Inr tbl'"
  shows "companies_ok tbl'"
proof -
  obtain row where row: "map_of tbl i = Some row" and tbl': "tbl' = AList.update i
      (row\<lparr>co_values := discovered_values now d (co_values row), co_updated := now\<rparr>) tbl"
    using assms(2) by (auto simp: update_discovered_company_fields_def split: option.splits)
  have "''name'' \<notin> set discovery_fields" by code_simp
  then have "field_of (discovered_values now d (co_values row)) ''name'' = field_of (co_values row) ''name''"
    by (auto simp: discovered_values_def Let_def field_of_set_fields split: option.splits dest!: map_of_SomeD)
  then have ident: "identity_of (row\<lparr>co_values := discovered_values now d (co_values row), co_updated := now\<rparr>)
      = identity_of row" by (simp add: row_name_def)
  have in_tbl: "(i, row) \<in> set tbl" using row by (rule map_of_SomeD)
  then have "identity_of row \<noteq> []" "co_key row \<in> {[], identity_of row}"
    using assms(1) by (auto simp: companies_ok_def list_all_iff)
  then show ?thesis
    unfolding tbl' by (intro companies_ok_update [OF assms(1)])
      (use ident in \<open>auto dest: identity_unique [OF assms(1) in_tbl]\<close>)
qed

lemma delete_company_row_ok: "companies_ok tbl \<Longrightarrow> companies_ok (filter (\<lambda>(j, _). j \<noteq> i) tbl)"
  by (auto simp: companies_ok_def list_all_iff distinct_map_filter)

section \<open>Sequences of operations\<close>

datatype company_op =
    Create string payload
  | Update string payload
  | Discover string discovery
  | Import_Snapshots "(string \<times> snapshot) list"
  | Remove string

fun apply_company_op :: "string \<times> company_op \<Rightarrow> company_table \<Rightarrow> company_error + company_table" where
  "apply_company_op (now, Create i p) tbl = create_company now i p tbl"
| "apply_company_op (now, Update i p) tbl = update_company now i p tbl"
| "apply_company_op (now, Discover i d) tbl = update_discovered_company_fields now i d tbl"
| "apply_company_op (now, Import_Snapshots sources) tbl = upsert_company_snapshots now sources tbl"
| "apply_company_op (now, Remove i) tbl = delete_company i tbl"

definition run_company_op :: "string \<times> company_op \<Rightarrow> company_table \<Rightarrow> company_table" where
  "run_company_op op tbl = (case apply_company_op op tbl of Inl _ \<Rightarrow> tbl | Inr tbl' \<Rightarrow> tbl')"

lemma apply_company_op_ok:
  assumes "companies_ok tbl" and "apply_company_op (now, act) tbl = Inr tbl'"
  shows "companies_ok tbl'"
proof (cases act)
  case (Import_Snapshots sources)
  then have "fold_res (upsert_snapshot now) sources tbl = Inr tbl'"
    using assms(2) by (simp add: upsert_company_snapshots_def)
  then show ?thesis using assms(1) by (rule fold_res_invariant) (rule upsert_snapshot_ok)
next
  case (Create i p)
  then show ?thesis using assms create_company_ok by simp
next
  case (Update i p)
  then show ?thesis using assms update_company_ok by simp
next
  case (Discover i d)
  then show ?thesis using assms discover_ok by simp
next
  case (Remove i)
  then have "tbl' = filter (\<lambda>(j, _). j \<noteq> i) tbl"
    using assms(2) by (simp add: delete_company_def split: if_split_asm)
  then show ?thesis using delete_company_row_ok [OF assms(1)] by simp
qed



section \<open>Importing and discovering never erase\<close>

lemma strip_eq_Nil: "strip s = [] \<longleftrightarrow> list_all is_space s"
proof -
  have r: "rstrip t = [] \<longleftrightarrow> list_all is_space t" for t
    by (auto simp: rstrip_def dropWhile_eq_Nil_conv list_all_iff)
  have l: "list_all is_space (lstrip s) \<longleftrightarrow> list_all is_space s"
    by (induction s) (auto simp: lstrip_def)
  show ?thesis unfolding strip_def r l ..
qed

lemma strip_strip_Nil: "strip s \<noteq> [] \<Longrightarrow> strip (strip s) \<noteq> []"
proof -
  assume ne: "strip s \<noteq> []"
  then have d: "dropWhile is_space (rev (lstrip s)) \<noteq> []" by (simp add: strip_def rstrip_def)
  then have "\<not> is_space (hd (dropWhile is_space (rev (lstrip s))))" by (rule hd_dropWhile)
  moreover have "hd (dropWhile is_space (rev (lstrip s))) \<in> set (strip s)"
    using d by (simp add: strip_def rstrip_def)
  ultimately show ?thesis unfolding strip_eq_Nil by (auto simp: list_all_iff)
qed

lemma stripped_value: "has_company_value v \<Longrightarrow> has_company_value (stripped v)"
  by (cases v) (simp_all add: strip_strip_Nil)

lemma merge_field_value:
  assumes "merge_field fresh key current incoming = Inr v" and "has_company_value current"
  shows "has_company_value v"
proof -
  have "v \<in> {current, stripped incoming} \<or> (\<exists>b. v = F_Flag b) \<or> (\<exists>n. v = F_Num n)"
    and "v = stripped incoming \<Longrightarrow> v = current \<or> has_company_value incoming \<or> (\<exists>b. v = F_Flag b) \<or> (\<exists>n. v = F_Num n)"
    using assms(1) by (auto simp: merge_field_def split: if_split_asm option.splits)
  then show ?thesis using assms(2) stripped_value by auto
qed

text \<open>Importing a snapshot never erases what is stored: merging a snapshot, whether it is preferred
  or not, leaves every field that has a value with a value, and fields the import does not know
  unchanged; a field without one takes the incoming value, stripped; and a snapshot that is not
  preferred (another company of the same name) changes no value that is stored, except that the
  two flags can only be raised and the confidence can only grow.\<close>

theorem snapshot_merge_never_erases:
  assumes "merge_company_snapshot fresh current incoming = Inr merged"
  shows "(has_company_value (field_of current key) \<longrightarrow> has_company_value (field_of merged key))
    \<and> (key \<notin> set snapshot_fields \<longrightarrow> field_of merged key = field_of current key)
    \<and> (key \<in> set snapshot_fields \<longrightarrow> \<not> has_company_value (field_of current key)
         \<longrightarrow> has_company_value (field_of incoming key) \<longrightarrow> field_of merged key = stripped (field_of incoming key))
    \<and> (\<not> fresh \<longrightarrow> has_company_value (field_of current key) \<longrightarrow>
         field_of merged key = field_of current key
         \<or> key \<in> {''websiteVerified'', ''feedFound''}
           \<and> field_of merged key = F_Flag (truthy (field_of current key) \<or> truthy (field_of incoming key))
         \<or> key = ''confidence'' \<and> (\<exists>a b. int_of_field (field_of current key) = Some a
              \<and> int_of_field (field_of incoming key) = Some b \<and> field_of merged key = F_Num (of_int (max a b))))"
proof (cases "key \<in> set snapshot_fields")
  case True
  then have "merge_field fresh key (field_of current key) (field_of incoming key) = Inr (field_of merged key)"
    using merged_field [OF assms, of key] by simp
  note m = this
  have "has_company_value (field_of current key) \<longrightarrow> has_company_value (field_of merged key)"
    using merge_field_value [OF m] by blast
  moreover have "\<not> has_company_value (field_of current key) \<longrightarrow>
      has_company_value (field_of incoming key) \<longrightarrow> field_of merged key = stripped (field_of incoming key)"
    using m by (simp add: merge_field_def split: if_split_asm)
  moreover have "\<not> fresh \<longrightarrow> has_company_value (field_of current key) \<longrightarrow>
      field_of merged key = field_of current key
      \<or> key \<in> {''websiteVerified'', ''feedFound''}
        \<and> field_of merged key = F_Flag (truthy (field_of current key) \<or> truthy (field_of incoming key))
      \<or> key = ''confidence'' \<and> (\<exists>a b. int_of_field (field_of current key) = Some a
           \<and> int_of_field (field_of incoming key) = Some b \<and> field_of merged key = F_Num (of_int (max a b)))"
    using m by (auto simp: merge_field_def split: if_split_asm option.splits)
  ultimately show ?thesis using True by blast
next
  case False
  then show ?thesis using merged_field [OF assms, of key] by simp
qed

definition demo_current :: fields where
  "demo_current = [(''name'', F_Text ''First Bank''), (''city'', F_Text ''Denver''), (''state'', F_Text '' ''),
     (''websiteVerified'', F_Flag True), (''confidence'', F_Num 40)]"

definition demo_incoming :: fields where
  "demo_incoming = [(''name'', F_Text ''FIRST BANK''), (''city'', F_Text ''Boulder''), (''state'', F_Text ''CO ''),
     (''websiteVerified'', F_Flag False), (''confidence'', F_Num 75)]"

definition demo_merged :: fields where
  "demo_merged = (case merge_company_snapshot False demo_current demo_incoming of Inr m \<Rightarrow> m | Inl _ \<Rightarrow> [])"

lemma demo_merge: "merge_company_snapshot False demo_current demo_incoming = Inr demo_merged"
  unfolding demo_merged_def by code_simp

theorem snapshot_merge_never_erases_witness:
  "field_of demo_merged ''city'' = F_Text ''Denver'' \<and> field_of demo_merged ''state'' = F_Text ''CO''"
proof -
  have city: "has_company_value (field_of demo_current ''city'')" "field_of demo_current ''city'' = F_Text ''Denver''"
    and state: "\<not> has_company_value (field_of demo_current ''state'')" "has_company_value (field_of demo_incoming ''state'')"
      "stripped (field_of demo_incoming ''state'') = F_Text ''CO''" "''state'' \<in> set snapshot_fields"
    by code_simp+
  have "field_of demo_merged ''city'' = F_Text ''Denver''"
    using snapshot_merge_never_erases [OF demo_merge, of "''city''"] city by simp
  moreover have "field_of demo_merged ''state'' = F_Text ''CO''"
    using snapshot_merge_never_erases [OF demo_merge, of "''state''"] state by simp
  ultimately show ?thesis ..
qed

text \<open>Discovery leaves a field with a value alone unless one of its flags covers the field.\<close>

lemma discovery_respects_confirmed:
  assumes "key \<in> set discovery_fields" and "\<not> blank_field (field_of current key)" and "\<not> may_replace d key"
  shows "field_of (discovered_values now d current) key = field_of current key"
proof -
  have "key \<noteq> ''websiteVerified''" "key \<noteq> ''searchStatus''" "key \<noteq> ''lastChecked''"
    "key \<noteq> ''companyInfoLastChecked''"
    using assms(1) by (auto simp: discovery_fields_def)
  moreover have "\<not> discovered_field d current key" using assms(2,3) by (simp add: discovered_field_def)
  ultimately show ?thesis
    by (auto simp: discovered_values_def Let_def field_of_set_fields split: option.splits dest!: map_of_SomeD)
qed

section \<open>Legacy keys\<close>

lemma desired_keys_fst: "map fst (desired_keys preferred rows) = map fst rows"
  by (induction preferred rows rule: desired_keys.induct) (auto simp: Let_def split: option.split)

lemma desired_keys_distinct:
  "distinct (map fst rows) \<Longrightarrow> snd ` set preferred \<inter> fst ` set rows = {} \<Longrightarrow>
   distinct (map snd (filter (\<lambda>x. snd x \<noteq> []) (desired_keys preferred rows)))
   \<and> fst ` set preferred \<inter> snd ` set (filter (\<lambda>x. snd x \<noteq> []) (desired_keys preferred rows)) = {}"
proof (induction preferred rows rule: desired_keys.induct)
  case (2 preferred i r rows)
  have i: "i \<notin> fst ` set rows" "distinct (map fst rows)" "i \<notin> snd ` set preferred"
    "snd ` set preferred \<inter> fst ` set rows = {}" using 2(4,5) by auto
  show ?case
  proof (cases "identity_of r = []")
    case True
    then show ?thesis using 2(1) [OF refl True i(2,4)] by (simp add: Let_def)
  next
    case named: False
    show ?thesis
    proof (cases "map_of preferred (identity_of r)")
      case (Some owner)
      then have "owner \<noteq> i" using i(3) by (force dest: map_of_SomeD)
      then show ?thesis using 2(3) [OF refl named Some i(2,4)] named Some by (simp add: Let_def)
    next
      case None
      have "snd ` set ((identity_of r, i) # preferred) \<inter> fst ` set rows = {}" using i by auto
      note IH = 2(2) [OF refl named None i(2) this]
      have "identity_of r \<notin> fst ` set preferred" using None by (simp add: map_of_eq_None_iff)
      then show ?thesis using IH named None by (simp add: Let_def)
    qed
  qed
qed simp

text \<open>After the backfill the key column satisfies the unique index, whatever the old rows held.\<close>

lemma backfill_keys_unique:
  assumes "distinct (map fst tbl)"
    and "(i, r) \<in> set (backfill_company_normalized_names tbl)"
    and "(j, q) \<in> set (backfill_company_normalized_names tbl)"
    and "co_key r = co_key q" and "co_key r \<noteq> []"
  shows "i = j"
proof -
  define rows where "rows = sort_key (\<lambda>(i, r). (co_created r, i)) tbl"
  define desired where "desired = desired_keys [] rows"
  have rows: "distinct (map fst rows)" "set rows = set tbl"
    using assms(1) by (simp_all add: rows_def distinct_map)
  have keys: "distinct (map snd (filter (\<lambda>x. snd x \<noteq> []) desired))"
    using desired_keys_distinct [OF rows(1), of "[]"] by (simp add: desired_def)
  have key: "(k, co_key s) \<in> set desired" if "(k, s) \<in> set (backfill_company_normalized_names tbl)" for k s
  proof -
    have "k \<in> fst ` set tbl"
      using that by (force simp: backfill_company_normalized_names_def Let_def)
    then have "k \<in> fst ` set desired" using rows(2) unfolding desired_def by (metis desired_keys_fst set_map)
    then obtain v where v: "map_of desired k = Some v" by (metis map_of_eq_None_iff not_Some_eq)
    then have "co_key s = v"
      using that by (auto simp: backfill_company_normalized_names_def Let_def desired_def rows_def)
    then show ?thesis using map_of_SomeD [OF v] by simp
  qed
  have m: "(i, co_key r) \<in> set (filter (\<lambda>x. snd x \<noteq> []) desired)" "(j, co_key q) \<in> set (filter (\<lambda>x. snd x \<noteq> []) desired)"
    using key [OF assms(2)] key [OF assms(3)] assms(4,5) by simp_all
  have "inj_on snd (set (filter (\<lambda>x. snd x \<noteq> []) desired))" using keys by (simp only: distinct_map)
  from inj_onD [OF this _ m] assms(4) have "(i, co_key r) = (j, co_key q)" by simp
  then show ?thesis by simp
qed

end
