(* ===== verification/Resume_Matching.thy ===== *)
theory Resume_Matching
  imports Py_Json Py_Stdlib
begin

text \<open>
  How well a job fits the active resume (\<^verbatim>\<open>backend/resume_matching.py\<close>,
  \<^verbatim>\<open>backend/match_constants.py\<close>) and when a stored fit is still current
  (\<open>job_row_to_api\<close> of \<^verbatim>\<open>backend/repository.py\<close>). A missing text is the empty one. The score is
  computed in exact fractions; the code uses floating point.
\<close>

section \<open>Vocabulary\<close>

definition tracked_keywords :: "string list" where
  "tracked_keywords =
     [''active directory'', ''automation'', ''azure'', ''banking'', ''cloud'', ''compliance'',
      ''credit union'', ''cybersecurity'', ''database'', ''excel'', ''financial services'',
      ''fiserv'', ''help desk'', ''infrastructure'', ''jack henry'', ''kubernetes'', ''leadership'',
      ''linux'', ''microsoft 365'', ''networking'', ''operations'', ''powershell'', ''project management'',
      ''risk'', ''security'', ''sql'', ''symitar'', ''terraform'', ''vendor management'',
      ''virtualization'', ''windows server'']"

definition stop_words :: "string list" where
  "stop_words =
     [''about'', ''ability'', ''company'', ''experience'', ''including'', ''position'', ''preferred'',
      ''required'', ''requirements'', ''responsibilities'', ''skills'', ''strong'', ''their'', ''there'',
      ''these'', ''those'', ''through'', ''using'', ''with'', ''years'', ''your'']"

definition algorithm_version :: string where
  "algorithm_version = ''2''"

section \<open>The score\<close>

definition match_char :: "char \<Rightarrow> bool" where
  "match_char c \<longleftrightarrow> is_az c \<or> is_digit c \<or> c \<in> set ''+.#-'' \<or> is_space c"

definition normalize :: "string \<Rightarrow> string" where
  "normalize s = join '' '' (split_ws (map (\<lambda>c. if match_char c then c else CHR '' '') (str_casefold s)))"

definition meaningful_words :: "string \<Rightarrow> string list" where
  "meaningful_words text =
     fromkeys (filter (\<lambda>w. 4 < length w \<and> w \<notin> set stop_words) (split_ws text))"

definition extract_keywords :: "string \<Rightarrow> string list" where
  "extract_keywords text =
     fromkeys (filter (\<lambda>k. contains k text) tracked_keywords @ take 30 (meaningful_words text))"

definition word_char :: "char \<Rightarrow> bool" where
  "word_char c \<longleftrightarrow> is_alnum c \<or> c = CHR ''_''"

text \<open>A match of \<open>\+?\s+years?\b\<close> at the front.\<close>

definition years_follow :: "string \<Rightarrow> bool" where
  "years_follow s =
     (let s = (if take 1 s = ''+'' then tl s else s);
          rest = dropWhile is_space s
      in rest \<noteq> s \<and> take 4 rest = ''year''
         \<and> (let after = drop 4 rest;
                end_ok = (\<lambda>t. t = [] \<or> \<not> word_char (hd t))
            in end_ok after \<or> take 1 after = ''s'' \<and> end_ok (tl after)))"

text \<open>\<open>re.search\<close> of \<open>\b(?:[3-9]|1\d)\+?\s+years?\b\<close>, with the character before the position.\<close>

fun mentions_experience :: "bool \<Rightarrow> string \<Rightarrow> bool" where
  "mentions_experience after_word [] = False"
| "mentions_experience after_word (c # cs) =
     (\<not> after_word
        \<and> (51 \<le> code c \<and> code c \<le> 57 \<and> years_follow cs
           \<or> c = CHR ''1'' \<and> cs \<noteq> [] \<and> is_digit (hd cs) \<and> years_follow (tl cs))
      \<or> mentions_experience (word_char c) cs)"

record match_job =
  mj_title :: string
  mj_description :: string
  mj_snippet :: string
  mj_role_type :: string
  mj_location :: string
  mj_work_type :: string
  mj_status :: string
  mj_source_url :: string
  mj_company_name :: string

record match_details =
  md_score :: int
  md_label :: string
  md_matched :: "string list"
  md_missing :: "string list"
  md_experience :: string
  md_title :: string
  md_summary :: string
  md_algorithm :: string

definition match_label :: "int option \<Rightarrow> string" where
  "match_label score =
     (case score of
        None \<Rightarrow> ''Not Matched''
      | Some s \<Rightarrow>
          if 80 \<le> s then ''Strong Match'' else if 60 \<le> s then ''Good Match''
          else if 40 \<le> s then ''Moderate Match'' else ''Low Match'')"

definition share :: "nat \<Rightarrow> nat \<Rightarrow> nat \<Rightarrow> rat" where
  "share part whole weight = (if whole = 0 then 0 else of_nat part / of_nat whole * of_nat weight)"

definition job_keywords :: "match_job \<Rightarrow> string list" where
  "job_keywords job = extract_keywords (normalize (mj_title job @ '' '' @ mj_description job))"

definition title_terms :: "match_job \<Rightarrow> string list" where
  "title_terms job = meaningful_words (normalize (mj_title job))"

definition match_score :: "string \<Rightarrow> match_job \<Rightarrow> int" where
  "match_score resume job =
     (let found = (\<lambda>ws. length (filter (\<lambda>w. contains w resume) ws));
          keyword_score = share (found (job_keywords job)) (length (job_keywords job)) 60;
          title_score = share (found (title_terms job)) (length (title_terms job)) 25;
          experience_score = (if mentions_experience False resume then 10 else 0);
          location_score = (if str_casefold (mj_work_type job) = ''remote'' \<or> contains ''remote'' resume
            then 5 else 2)
      in min 100 (py_round (keyword_score + title_score + experience_score + location_score)))"

definition calculate_match :: "string \<Rightarrow> match_job \<Rightarrow> match_details" where
  "calculate_match resume job =
     (let matched = filter (\<lambda>k. contains k resume) (job_keywords job);
          missing = take 12 (filter (\<lambda>k. \<not> contains k resume) (job_keywords job));
          matched_titles = filter (\<lambda>t. contains t resume) (title_terms job);
          score = match_score resume job
      in \<lparr>md_score = score, md_label = match_label (Some score), md_matched = matched,
          md_missing = missing,
          md_experience = (if mentions_experience False resume
            then ''Experience duration is present in the resume.''
            else ''No explicit experience duration was detected.''),
          md_title = (if matched_titles \<noteq> []
            then show_nat (length matched_titles) @ '' title term(s) overlap.''
            else ''No direct title-term overlap was detected.''),
          md_summary = show_nat (length matched) @ '' of '' @ show_nat (length (job_keywords job))
            @ '' relevant job terms were found in the active resume.'',
          md_algorithm = algorithm_version\<rparr>)"

section \<open>The fingerprint\<close>

definition fingerprint_text :: "match_job \<Rightarrow> string" where
  "fingerprint_text job = json_strings_object
     [(''description'', mj_description job), (''descriptionSnippet'', mj_snippet job),
      (''location'', mj_location job), (''roleType'', mj_role_type job),
      (''title'', mj_title job), (''workType'', mj_work_type job)]"

definition job_match_fingerprint :: "match_job \<Rightarrow> string" where
  "job_match_fingerprint job = hex_digest (sha256 (utf8_encode (fingerprint_text job)))"

section \<open>Stored fits\<close>

record resume =
  rs_version :: string
  rs_id :: string
  rs_notes :: string
  rs_years_summary :: string
  rs_extracted :: string
  rs_raw :: string

record fit_row =
  ft_score :: "int option"
  ft_status :: string
  ft_version :: string
  ft_fingerprint :: string
  ft_algorithm :: string
  ft_error :: string
  ft_details :: "match_details option"

record match_state =
  ms_resume :: "resume option"
  ms_jobs :: "(string \<times> match_job) list"
  ms_fits :: "(string \<times> fit_row) list"

datatype match_error = No_Resume | Reupload_Resume | Unreadable_Resume | Missing_Job string | Persist_Failed

datatype view_status = Not_Matched | Needs_Rematch | Match_Failed | Matched

text \<open>The status part of \<open>job_row_to_api\<close>, and the score that is shown with it.\<close>

definition needs_rematch :: "string \<Rightarrow> match_job \<Rightarrow> fit_row \<Rightarrow> bool" where
  "needs_rematch active job fit \<longleftrightarrow>
     ft_version fit \<noteq> active \<or> ft_algorithm fit \<noteq> algorithm_version
     \<or> ft_fingerprint fit \<noteq> job_match_fingerprint job"

definition match_status :: "match_state \<Rightarrow> string \<Rightarrow> match_job \<Rightarrow> view_status" where
  "match_status st job_id job =
     (let active = (case ms_resume st of None \<Rightarrow> [] | Some r \<Rightarrow> rs_version r);
          stored = (case map_of (ms_fits st) job_id of None \<Rightarrow> [] | Some f \<Rightarrow> ft_status f)
      in if active = [] \<or> stored = [] then Not_Matched
         else (case map_of (ms_fits st) job_id of
                 None \<Rightarrow> Not_Matched
               | Some fit \<Rightarrow>
                   if needs_rematch active job fit then Needs_Rematch
                   else if stored = ''Failed'' then Match_Failed
                   else Matched))"

definition shown_score :: "match_state \<Rightarrow> string \<Rightarrow> match_job \<Rightarrow> int option" where
  "shown_score st job_id job =
     (if match_status st job_id job = Matched
      then (case map_of (ms_fits st) job_id of None \<Rightarrow> None | Some fit \<Rightarrow> ft_score fit) else None)"

text \<open>\<open>upsert_resume_fit_result\<close>: one row per job; a job or resume that is gone breaks the foreign
  key.\<close>

definition upsert_fit :: "string \<Rightarrow> fit_row \<Rightarrow> match_state \<Rightarrow> match_error + match_state" where
  "upsert_fit job_id row st =
     (if ms_resume st = None \<or> job_id \<notin> fst ` set (ms_jobs st) then Inl Persist_Failed
      else Inr (st\<lparr>ms_fits := AList.update job_id row (ms_fits st)\<rparr>))"

section \<open>The service\<close>

text \<open>The version and the normalised text of the active resume; \<open>None\<close> inside: no resume.\<close>

definition context_of :: "match_state \<Rightarrow> match_error + (string \<times> string) option" where
  "context_of st =
     (case ms_resume st of
        None \<Rightarrow> Inr None
      | Some r \<Rightarrow>
          (let text = strip (if rs_extracted r \<noteq> [] then rs_extracted r else rs_raw r) in
           if contains ''parsing is stubbed'' (str_casefold (rs_notes r))
              \<or> take 11 (str_casefold (rs_years_summary r)) = ''todo: parse''
           then Inl Reupload_Resume
           else if text = [] then Inl Unreadable_Resume
           else Inr (Some (if rs_version r \<noteq> [] then rs_version r else rs_id r, normalize text))))"

definition matched_row :: "string \<times> string \<Rightarrow> match_job \<Rightarrow> fit_row" where
  "matched_row ctx job =
     (let details = calculate_match (snd ctx) job in
      \<lparr>ft_score = Some (md_score details), ft_status = ''Matched'', ft_version = fst ctx,
       ft_fingerprint = job_match_fingerprint job, ft_algorithm = algorithm_version, ft_error = [],
       ft_details = Some details\<rparr>)"

definition failed_row :: "string \<times> string \<Rightarrow> match_job \<Rightarrow> string \<Rightarrow> fit_row" where
  "failed_row ctx job err =
     \<lparr>ft_score = None, ft_status = ''Failed'', ft_version = fst ctx,
      ft_fingerprint = job_match_fingerprint job, ft_algorithm = algorithm_version, ft_error = err,
      ft_details = None\<rparr>"

text \<open>\<open>_match_and_persist\<close> with the database failing at will, and \<open>_record_failure\<close>.\<close>

definition match_and_persist ::
  "bool \<Rightarrow> string \<times> string \<Rightarrow> string \<Rightarrow> match_job \<Rightarrow> match_state \<Rightarrow> match_error + match_state" where
  "match_and_persist broken ctx job_id job st =
     (if broken then Inl Persist_Failed else upsert_fit job_id (matched_row ctx job) st)"

definition record_failure ::
  "bool \<Rightarrow> string \<times> string \<Rightarrow> string \<Rightarrow> string \<Rightarrow> match_state \<Rightarrow> match_state" where
  "record_failure broken ctx job_id err st =
     (case map_of (ms_jobs st) job_id of
        None \<Rightarrow> st
      | Some job \<Rightarrow>
          if broken then st
          else (case upsert_fit job_id (failed_row ctx job err) st of Inl _ \<Rightarrow> st | Inr st' \<Rightarrow> st'))"

definition match_job :: "bool \<Rightarrow> string \<Rightarrow> match_state \<Rightarrow> match_error + match_state" where
  "match_job broken job_id st =
     bind_res (context_of st) (\<lambda>c. case c of
       None \<Rightarrow> Inl No_Resume
     | Some ctx \<Rightarrow>
         (case map_of (ms_jobs st) job_id of
            None \<Rightarrow> Inl (Missing_Job job_id)
          | Some job \<Rightarrow> match_and_persist broken ctx job_id job st))"

text \<open>The counts: matched, failed, skipped. The functions say for which jobs the database fails
  when a match and when a failure is written, and the text of the exception.\<close>

record match_env =
  me_match_fails :: "string \<Rightarrow> bool"
  me_failure_fails :: "string \<Rightarrow> bool"
  me_error :: "string \<Rightarrow> string"

fun match_each ::
  "match_env \<Rightarrow> string \<times> string \<Rightarrow> string list \<Rightarrow> match_state \<Rightarrow> match_state \<times> nat \<times> nat \<times> nat" where
  "match_each env ctx [] st = (st, 0, 0, 0)"
| "match_each env ctx (job_id # ids) st =
     (let (st', m, f, s) =
        (case map_of (ms_jobs st) job_id of
           None \<Rightarrow> (record_failure (me_failure_fails env job_id) ctx job_id (me_error env job_id) st, 0, 1, 0)
         | Some job \<Rightarrow>
             if match_status st job_id job = Matched then (st, 0, 0, 1)
             else (case match_and_persist (me_match_fails env job_id) ctx job_id job st of
                     Inr st1 \<Rightarrow> (st1, 1, 0, 0)
                   | Inl _ \<Rightarrow> (record_failure (me_failure_fails env job_id) ctx job_id (me_error env job_id) st, 0, 1, 0)))
      in case match_each env ctx ids st' of (st'', m', f', s') \<Rightarrow> (st'', m + m', f + f', s + s'))"

definition match_jobs_if_needed ::
  "match_env \<Rightarrow> string list \<Rightarrow> match_state \<Rightarrow> match_error + match_state \<times> nat \<times> nat \<times> nat" where
  "match_jobs_if_needed env job_ids st =
     bind_res (context_of st) (\<lambda>c. case c of
       None \<Rightarrow> Inr (st, 0, 0, card (set job_ids))
     | Some ctx \<Rightarrow> Inr (match_each env ctx (fromkeys job_ids) st))"

text \<open>\<open>rematch_all\<close>: cancellation is looked at before each job; a progress report is the number of
  processed, matched, failed and remaining jobs.\<close>

fun rematch_each ::
  "match_env \<Rightarrow> (nat \<Rightarrow> bool) \<Rightarrow> string \<times> string \<Rightarrow> nat \<Rightarrow> nat \<times> nat \<times> nat \<Rightarrow> (string \<times> match_job) list
    \<Rightarrow> match_state \<Rightarrow> match_state \<times> (nat \<times> nat \<times> nat \<times> nat) list \<times> bool" where
  "rematch_each env cancelled ctx all_jobs (processed, m, f) [] st = (st, [], False)"
| "rematch_each env cancelled ctx all_jobs (processed, m, f) ((job_id, job) # jobs) st =
     (if cancelled processed then (st, [], True)
      else (let (st', m', f') =
              (case match_and_persist (me_match_fails env job_id) ctx job_id job st of
                 Inr st1 \<Rightarrow> (st1, m + 1, f)
               | Inl _ \<Rightarrow> (record_failure (me_failure_fails env job_id) ctx job_id (me_error env job_id) st, m, f + 1));
                n = processed + 1
            in case rematch_each env cancelled ctx all_jobs (n, m', f') jobs st' of
                 (st'', reports, stopped) \<Rightarrow> (st'', (n, m', f', all_jobs - n) # reports, stopped)))"

definition rematch_candidates :: "match_state \<Rightarrow> (string \<times> match_job) list" where
  "rematch_candidates st =
     filter (\<lambda>(i, j). str_casefold (mj_status j) = ''open'' \<and> i \<noteq> [] \<and> mj_title j \<noteq> []
       \<and> mj_source_url j \<noteq> []) (ms_jobs st)"

definition rematch_all ::
  "match_env \<Rightarrow> (nat \<Rightarrow> bool) \<Rightarrow> match_state
    \<Rightarrow> match_error + match_state \<times> (nat \<times> nat \<times> nat \<times> nat) list \<times> bool" where
  "rematch_all env cancelled st =
     bind_res (context_of st) (\<lambda>c. case c of
       None \<Rightarrow> Inl No_Resume
     | Some ctx \<Rightarrow> Inr (rematch_each env cancelled ctx (length (rematch_candidates st)) (0, 0, 0)
         (rematch_candidates st) st))"

section \<open>The score grows with the resume\<close>

lemma py_round_mono: "x \<le> y \<Longrightarrow> py_round x \<le> py_round y"
proof -
  assume le: "x \<le> y"
  show ?thesis
  proof (cases "\<lfloor>x\<rfloor> < \<lfloor>y\<rfloor>")
    case True
    then show ?thesis using py_round_bounds [of x] py_round_bounds [of y] by linarith
  next
    case False
    then have "\<lfloor>x\<rfloor> = \<lfloor>y\<rfloor>" using floor_mono [OF le] by simp
    then show ?thesis using le by (auto simp: py_round_def Let_def)
  qed
qed

lemma contains_append: "contains w r \<Longrightarrow> contains w (r @ t)"
  unfolding contains_iff by (metis append_assoc)

lemma years_follow_append:
  assumes "years_follow s" shows "years_follow (s @ CHR '' '' # t)"
proof -
  define u where "u = (if take 1 s = ''+'' then tl s else s)"
  define rest where "rest = dropWhile is_space u"
  have y: "rest \<noteq> u" "take 4 rest = ''year''"
    and e: "drop 4 rest = [] \<or> \<not> word_char (hd (drop 4 rest))
      \<or> take 1 (drop 4 rest) = ''s'' \<and> (tl (drop 4 rest) = [] \<or> \<not> word_char (hd (tl (drop 4 rest))))"
    using assms by (auto simp: years_follow_def Let_def u_def rest_def)
  have len: "4 \<le> length rest"
  proof -
    have "length (take 4 rest) = 4" unfolding y(2) by simp
    then show ?thesis by simp
  qed
  then have "rest \<noteq> []" by auto
  then have "u \<noteq> []" "s \<noteq> []" unfolding rest_def u_def by auto
  have u': "(if take 1 (s @ CHR '' '' # t) = ''+'' then tl (s @ CHR '' '' # t) else s @ CHR '' '' # t) = u @ CHR '' '' # t"
    using \<open>s \<noteq> []\<close> by (cases s) (auto simp: u_def)
  have d: "dropWhile is_space (u @ CHR '' '' # t) = rest @ CHR '' '' # t"
  proof -
    obtain x where "x \<in> set u" "\<not> is_space x"
      using \<open>rest \<noteq> []\<close> unfolding rest_def by (auto simp: dropWhile_eq_Nil_conv)
    then show ?thesis unfolding rest_def by (rule dropWhile_append1)
  qed
  have w: "\<not> word_char CHR '' ''" by (simp add: word_char_def is_alnum_def code_def Let_def)
  have "end_ok (drop 4 rest @ CHR '' '' # t)"
    if "drop 4 rest = [] \<or> \<not> word_char (hd (drop 4 rest))" "end_ok = (\<lambda>t. t = [] \<or> \<not> word_char (hd t))" for end_ok
    using that w by (cases "drop 4 rest") auto
  moreover have "take 1 (drop 4 rest @ CHR '' '' # t) = ''s''
      \<and> \<not> word_char (hd (tl (drop 4 rest @ CHR '' '' # t)))"
    if "take 1 (drop 4 rest) = ''s''" "tl (drop 4 rest) = [] \<or> \<not> word_char (hd (tl (drop 4 rest)))"
    using that w by (cases "drop 4 rest"; cases "tl (drop 4 rest)") auto
  ultimately show ?thesis
    using e y len unfolding years_follow_def u' Let_def d by auto
qed

lemma mentions_experience_append:
  "mentions_experience b r \<Longrightarrow> mentions_experience b (r @ CHR '' '' # t)"
proof (induction b r rule: mentions_experience.induct)
  case (2 b c cs)
  have "cs \<noteq> [] \<and> is_digit (hd cs) \<and> years_follow (tl cs) \<Longrightarrow>
      is_digit (hd (cs @ CHR '' '' # t)) \<and> years_follow (tl (cs @ CHR '' '' # t))"
    using years_follow_append [of "tl cs"] by (cases cs) auto
  then show ?case using 2 years_follow_append [of cs] by auto
qed simp

lemma share_mono: "a \<le> b \<Longrightarrow> share a n w \<le> share b n w"
  by (simp add: share_def divide_right_mono mult_right_mono)

lemma share_bounds: "a \<le> n \<Longrightarrow> 0 \<le> share a n w \<and> share a n w \<le> of_nat w"
proof (cases "n = 0")
  case False
  assume "a \<le> n"
  then have "of_nat a / of_nat n \<le> (1 :: rat)" using False by simp
  then have "of_nat a / of_nat n * of_nat w \<le> 1 * (of_nat w :: rat)" by (rule mult_right_mono) simp
  then show ?thesis using False by (simp add: share_def)
qed (simp add: share_def)

lemma filter_length_mono: "(\<And>x. x \<in> set xs \<Longrightarrow> P x \<Longrightarrow> Q x) \<Longrightarrow> length (filter P xs) \<le> length (filter Q xs)"
  by (induction xs) auto


section \<open>A shown match is current\<close>

lemma hex_digest_inject: "hex_digest a = hex_digest b \<longleftrightarrow> a = b"
proof (induction a arbitrary: b)
  case Nil
  then show ?case by (cases b) (auto simp: hex_digest_def)
next
  case (Cons x a)
  show ?case
  proof (cases b)
    case (Cons y b')
    have "x = y"
      if "hex_char (unat x div 16) = hex_char (unat y div 16)" "hex_char (unat x mod 16) = hex_char (unat y mod 16)"
    proof -
      have "unat x div 16 < 16" "unat y div 16 < 16" using byte_bound [of x] byte_bound [of y] by auto
      then have "unat x div 16 = unat y div 16" "unat x mod 16 = unat y mod 16"
        using hex_char_inject [OF that(1)] hex_char_inject [OF that(2)] by auto
      then have "unat x = unat y" by (metis div_mult_mod_eq)
      then show ?thesis by (simp add: word_unat_eq_iff)
    qed
    then show ?thesis
      using Cons Cons.IH [of b'] by (auto simp: hex_digest_def)
  qed (simp add: hex_digest_def)
qed

definition same_content :: "match_job \<Rightarrow> match_job \<Rightarrow> bool" where
  "same_content a b \<longleftrightarrow>
     mj_description a = mj_description b \<and> mj_snippet a = mj_snippet b \<and> mj_location a = mj_location b
     \<and> mj_role_type a = mj_role_type b \<and> mj_title a = mj_title b \<and> mj_work_type a = mj_work_type b"

lemma fingerprint_text_inject: "fingerprint_text a = fingerprint_text b \<longleftrightarrow> same_content a b"
proof
  have end_quote: "json_string u = json_string v \<longleftrightarrow> u = v" for u v
    using json_string_inject [of u "[]" v "[]"] by simp
  show "same_content a b" if "fingerprint_text a = fingerprint_text b"
    using that
    by (simp add: fingerprint_text_def json_strings_object_def same_content_def
      json_string_inject end_quote)
qed (simp add: fingerprint_text_def same_content_def)

lemma score_from_content: "same_content a b \<Longrightarrow> match_score r a = match_score r b"
  by (simp add: same_content_def match_score_def job_keywords_def title_terms_def)

definition sha_collision :: "string \<Rightarrow> string \<Rightarrow> bool" where
  "sha_collision a b \<longleftrightarrow> a \<noteq> b \<and> sha256 (utf8_encode a) = sha256 (utf8_encode b)"

lemma job_fingerprint_inject:
  "job_match_fingerprint a = job_match_fingerprint b
   \<longleftrightarrow> same_content a b \<or> sha_collision (fingerprint_text a) (fingerprint_text b)"
  by (auto simp: job_match_fingerprint_def hex_digest_inject sha_collision_def fingerprint_text_inject [symmetric])

lemma match_status_matched:
  "match_status st i job = Matched \<longleftrightarrow>
     (\<exists>r fit. ms_resume st = Some r \<and> rs_version r \<noteq> [] \<and> map_of (ms_fits st) i = Some fit
       \<and> ft_status fit \<noteq> [] \<and> ft_status fit \<noteq> ''Failed'' \<and> \<not> needs_rematch (rs_version r) job fit)"
  by (auto simp: match_status_def Let_def split: option.splits if_split)

lemma match_job_stores:
  assumes "match_job broken i st = Inr st'"
  shows "\<exists>ctx job. context_of st = Inr (Some ctx) \<and> map_of (ms_jobs st) i = Some job
    \<and> map_of (ms_fits st') i = Some (matched_row ctx job) \<and> ms_resume st' = ms_resume st \<and> ms_jobs st' = ms_jobs st"
proof -
  obtain ctx where ctx: "context_of st = Inr (Some ctx)"
    using assms by (cases "context_of st") (auto simp: match_job_def split: option.splits)
  then obtain job where job: "map_of (ms_jobs st) i = Some job"
    using assms by (cases "map_of (ms_jobs st) i") (auto simp: match_job_def)
  then have "upsert_fit i (matched_row ctx job) st = Inr st'"
    using assms ctx by (simp add: match_job_def match_and_persist_def split: if_split_asm)
  then have "st' = st\<lparr>ms_fits := AList.update i (matched_row ctx job) (ms_fits st)\<rparr>"
    by (simp add: upsert_fit_def split: if_split_asm)
  then show ?thesis using ctx job by (simp add: update_conv')
qed

text \<open>A shown match is current: when a match was computed and stored, and the job is shown as
  matched later (under any resume, with any content, as long as the stored row is the same), then
  the resume version is the one that was matched, and the score shown is the score of the job's
  content as it is shown, unless two job texts with the same SHA-256 digest were found.\<close>

theorem shown_matches_are_current:
  assumes "match_job broken i st = Inr st'"
    and "map_of (ms_fits now) i = map_of (ms_fits st') i"
    and "match_status now i shown = Matched"
  shows "\<exists>version text job r. context_of st = Inr (Some (version, text)) \<and> map_of (ms_jobs st) i = Some job
    \<and> ms_resume now = Some r \<and> rs_version r = version
    \<and> (shown_score now i shown = Some (match_score text shown)
       \<or> sha_collision (fingerprint_text job) (fingerprint_text shown))"
proof -
  obtain ctx job where m: "context_of st = Inr (Some ctx)" "map_of (ms_jobs st) i = Some job"
    "map_of (ms_fits now) i = Some (matched_row ctx job)"
    using match_job_stores [OF assms(1)] assms(2) by auto
  obtain r where r: "ms_resume now = Some r" "\<not> needs_rematch (rs_version r) shown (matched_row ctx job)"
    using assms(3) m(3) by (auto simp: match_status_matched)
  then have "rs_version r = fst ctx" "job_match_fingerprint job = job_match_fingerprint shown"
    by (auto simp: needs_rematch_def matched_row_def Let_def)
  moreover have "shown_score now i shown = Some (match_score (snd ctx) job)"
    using m(3) assms(3) by (simp add: shown_score_def matched_row_def calculate_match_def Let_def)
  ultimately show ?thesis
    using m(1,2) r(1) score_from_content [of job shown "snd ctx"]
    by (cases ctx) (auto simp: job_fingerprint_inject)
qed

definition demo_job :: match_job where
  "demo_job = \<lparr>mj_title = ''Linux Engineer'', mj_description = ''Terraform'', mj_snippet = [],
     mj_role_type = [], mj_location = [], mj_work_type = ''Remote'', mj_status = ''Open'',
     mj_source_url = ''https://a.example'', mj_company_name = ''A''\<rparr>"

definition demo_resume_state :: match_state where
  "demo_resume_state = \<lparr>ms_resume = Some \<lparr>rs_version = ''v1'', rs_id = ''r'', rs_notes = [],
      rs_years_summary = [], rs_extracted = ''linux'', rs_raw = []\<rparr>,
     ms_jobs = [(''j'', demo_job)], ms_fits = []\<rparr>"

lemma demo_context: "context_of demo_resume_state = Inr (Some (''v1'', ''linux''))"
  by code_simp

lemma demo_match:
  "match_job False ''j'' demo_resume_state =
     Inr (demo_resume_state\<lparr>ms_fits := [(''j'', matched_row (''v1'', ''linux'') demo_job)]\<rparr>)"
  unfolding match_job_def demo_context
  by (simp add: match_and_persist_def upsert_fit_def demo_resume_state_def)

theorem shown_matches_are_current_witness:
  "\<exists>st' version text job r. match_job False ''j'' demo_resume_state = Inr st'
    \<and> match_status st' ''j'' demo_job = Matched
    \<and> context_of demo_resume_state = Inr (Some (version, text))
    \<and> map_of (ms_jobs demo_resume_state) ''j'' = Some job
    \<and> ms_resume st' = Some r \<and> rs_version r = version
    \<and> (shown_score st' ''j'' demo_job = Some (match_score text demo_job)
       \<or> sha_collision (fingerprint_text job) (fingerprint_text demo_job))"
proof -
  let ?st = "demo_resume_state\<lparr>ms_fits := [(''j'', matched_row (''v1'', ''linux'') demo_job)]\<rparr>"
  have "match_status ?st ''j'' demo_job = Matched"
    unfolding match_status_matched
    by (simp add: demo_resume_state_def matched_row_def needs_rematch_def Let_def)
  from this shown_matches_are_current [OF demo_match refl this] demo_match show ?thesis
    by blast
qed

lemma match_each_counts:
  "match_each env ctx ids st = (st', m, f, s) \<Longrightarrow> m + f + s = length ids \<and> ms_jobs st' = ms_jobs st"
proof (induction ids arbitrary: st st' m f s)
  case (Cons i ids)
  have keeps: "ms_jobs (record_failure b ctx i e st) = ms_jobs st" for b e
    by (auto simp: record_failure_def upsert_fit_def split: option.splits sum.splits if_split_asm)
  have stored: "match_and_persist b ctx i job st = Inr st1 \<Longrightarrow> ms_jobs st1 = ms_jobs st" for b job st1
    by (auto simp: match_and_persist_def upsert_fit_def split: if_split_asm)
  show ?case
    using Cons.prems
    by (auto simp: keeps stored split: option.splits sum.splits prod.splits if_split_asm dest!: Cons.IH)
qed simp

end
