(* ===== verification/Py_Files.thy ===== *)
theory Py_Files
  imports Py_Json Py_Stdlib
begin

text \<open>
  The file system as the backup code sees it, and programs over it that may raise. A file is its
  bytes together with what \<open>json.loads\<close> makes of them as UTF-8 text. Every system call may fail:
  the next element of \<open>dk_faults\<close> says whether it does (\<open>Some\<close>), and what is then left of a file
  that was being written. Paths are absolute and resolved; a path is the list of its components.
\<close>

section \<open>Nodes\<close>

type_synonym path = "string list"

datatype reading = Not_Utf8 | Not_Json | Json json

datatype node = Directory | Link | Plain bytes reading

record disk =
  dk_nodes :: "(path \<times> node) list"
  dk_faults :: "bytes option option list"

definition look :: "disk \<Rightarrow> path \<Rightarrow> node option" where
  "look d p = map_of (dk_nodes d) p"

definition put :: "path \<Rightarrow> node \<Rightarrow> disk \<Rightarrow> disk" where
  "put p n d = d\<lparr>dk_nodes := (p, n) # filter (\<lambda>(q, _). q \<noteq> p) (dk_nodes d)\<rparr>"

definition rid :: "path \<Rightarrow> disk \<Rightarrow> disk" where
  "rid p d = d\<lparr>dk_nodes := filter (\<lambda>(q, _). q \<noteq> p) (dk_nodes d)\<rparr>"

definition rid_tree :: "path \<Rightarrow> disk \<Rightarrow> disk" where
  "rid_tree p d = d\<lparr>dk_nodes := filter (\<lambda>(q, _). \<not> prefix p q) (dk_nodes d)\<rparr>"

text \<open>A tree that gets a new name; nothing is there yet.\<close>

definition move_tree :: "path \<Rightarrow> path \<Rightarrow> disk \<Rightarrow> disk" where
  "move_tree a b d = d\<lparr>dk_nodes :=
     map (\<lambda>(q, n). (if prefix a q then b @ drop (length a) q else q, n)) (dk_nodes d)\<rparr>"

definition is_file :: "disk \<Rightarrow> path \<Rightarrow> bool" where
  "is_file d p = (case look d p of Some (Plain _ _) \<Rightarrow> True | _ \<Rightarrow> False)"

definition present :: "disk \<Rightarrow> path \<Rightarrow> bool" where
  "present d p \<longleftrightarrow> look d p \<noteq> None"

definition children :: "disk \<Rightarrow> path \<Rightarrow> string list" where
  "children d p = map last (filter (\<lambda>q. q \<noteq> [] \<and> butlast q = p) (map fst (dk_nodes d)))"

lemma map_of_filter_key:
  "map_of (filter (\<lambda>(q, _). P q) xs) k = (if P k then map_of xs k else None)"
  by (induction xs) auto

lemma look_faults [simp]: "look (d\<lparr>dk_faults := fs\<rparr>) p = look d p"
  by (simp add: look_def)

lemma look_put [simp]: "look (put p n d) q = (if q = p then Some n else look d q)"
  by (auto simp: look_def put_def map_of_filter_key)

lemma look_rid [simp]: "look (rid p d) q = (if q = p then None else look d q)"
  by (auto simp: look_def rid_def map_of_filter_key)

lemma look_rid_tree [simp]: "look (rid_tree p d) q = (if prefix p q then None else look d q)"
  by (auto simp: look_def rid_tree_def map_of_filter_key)

definition unused :: "disk \<Rightarrow> path \<Rightarrow> bool" where
  "unused d p \<longleftrightarrow> list_all (\<lambda>(q, _). \<not> prefix p q) (dk_nodes d)"

lemma unused_look: "unused d p \<longleftrightarrow> (\<forall>q. prefix p q \<longrightarrow> look d q = None)"
proof -
  have "unused d p \<longleftrightarrow> (\<forall>q \<in> fst ` set (dk_nodes d). \<not> prefix p q)"
    by (simp add: unused_def list_all_iff case_prod_beta)
  also have "\<dots> \<longleftrightarrow> (\<forall>q. prefix p q \<longrightarrow> q \<notin> fst ` set (dk_nodes d))"
    by blast
  finally show ?thesis by (simp add: look_def map_of_eq_None_iff)
qed

lemma map_of_rename:
  assumes "list_all (\<lambda>(q, _). \<not> prefix b q) xs"
  shows "map_of (map (\<lambda>(q, n). (if prefix a q then b @ drop (length a) q else q, n)) xs) q
    = (if prefix b q then map_of xs (a @ drop (length b) q) else if prefix a q then None else map_of xs q)"
  using assms
proof (induction xs)
  case (Cons x xs)
  obtain p n where x: "x = (p, n)" by (cases x)
  have np: "\<not> prefix b p" using Cons.prems x by simp
  show ?case
  proof (cases "prefix a p")
    case True
    then obtain r where "p = a @ r" by (auto simp: prefix_def)
    then show ?thesis using Cons np by (auto simp: x prefix_def)
  next
    case False
    then show ?thesis using Cons np by (auto simp: x prefix_def)
  qed
qed auto

lemma look_move_tree:
  "unused d b \<Longrightarrow> look (move_tree a b d) q
    = (if prefix b q then look d (a @ drop (length b) q) else if prefix a q then None else look d q)"
  by (simp add: look_def move_tree_def unused_def map_of_rename)

section \<open>Programs\<close>

datatype 'e failure = Os_Error | Sqlite_Error | Value_Error | Type_Error | Refused 'e

type_synonym ('e, 'a) io = "disk \<Rightarrow> ('e failure + 'a) \<times> disk"

definition ret :: "'a \<Rightarrow> ('e, 'a) io" where
  "ret a d = (Inr a, d)"

definition raise :: "'e failure \<Rightarrow> ('e, 'a) io" where
  "raise e d = (Inl e, d)"

definition and_then :: "('e, 'a) io \<Rightarrow> ('a \<Rightarrow> ('e, 'b) io) \<Rightarrow> ('e, 'b) io" where
  "and_then m f d = (case m d of (Inl e, d') \<Rightarrow> (Inl e, d') | (Inr a, d') \<Rightarrow> f a d')"

text \<open>\<open>try: m except: h\<close>, where \<open>h\<close> sees every exception and may raise it again, and
  \<open>try: m finally: f\<close>.\<close>

definition handle :: "('e, 'a) io \<Rightarrow> ('e failure \<Rightarrow> ('e, 'a) io) \<Rightarrow> ('e, 'a) io" where
  "handle m h d = (case m d of (Inl e, d') \<Rightarrow> h e d' | (Inr a, d') \<Rightarrow> (Inr a, d'))"

definition lastly :: "('e, 'a) io \<Rightarrow> (('e failure + 'a) \<Rightarrow> ('e, unit) io) \<Rightarrow> ('e, 'a) io" where
  "lastly m f d = (case m d of (r, d') \<Rightarrow>
     (case f r d' of (Inl e, d'') \<Rightarrow> (Inl e, d'') | (Inr _, d'') \<Rightarrow> (r, d'')))"

definition check :: "bool \<Rightarrow> 'e failure \<Rightarrow> ('e, unit) io" where
  "check b e = (if b then ret () else raise e)"

definition asks :: "(disk \<Rightarrow> 'a) \<Rightarrow> ('e, 'a) io" where
  "asks f d = (Inr (f d), d)"

fun each :: "('a \<Rightarrow> ('e, 'b) io) \<Rightarrow> 'a list \<Rightarrow> ('e, 'b list) io" where
  "each f [] = ret []"
| "each f (x # xs) = and_then (f x) (\<lambda>y. and_then (each f xs) (\<lambda>ys. ret (y # ys)))"

section \<open>System calls\<close>

definition syscall :: "(bytes option \<Rightarrow> disk \<Rightarrow> disk) \<Rightarrow> ('e, 'a) io \<Rightarrow> ('e, 'a) io" where
  "syscall partial m d =
     (case dk_faults d of
        [] \<Rightarrow> m d
      | None # fs \<Rightarrow> m (d\<lparr>dk_faults := fs\<rparr>)
      | Some junk # fs \<Rightarrow> (Inl Os_Error, partial junk (d\<lparr>dk_faults := fs\<rparr>)))"

definition untouched :: "bytes option \<Rightarrow> disk \<Rightarrow> disk" where
  "untouched junk d = d"

definition leaves :: "path \<Rightarrow> bytes option \<Rightarrow> disk \<Rightarrow> disk" where
  "leaves p junk d = (case junk of None \<Rightarrow> d | Some bs \<Rightarrow> put p (Plain bs Not_Json) d)"

definition read_file :: "path \<Rightarrow> ('e, bytes \<times> reading) io" where
  "read_file p = syscall untouched (\<lambda>d. case look d p of
     Some (Plain bs r) \<Rightarrow> (Inr (bs, r), d) | _ \<Rightarrow> (Inl Os_Error, d))"

definition write_file :: "path \<Rightarrow> bytes \<times> reading \<Rightarrow> ('e, unit) io" where
  "write_file p c = syscall (leaves p) (\<lambda>d.
     if look d (butlast p) \<noteq> Some Directory \<or> look d p = Some Directory then (Inl Os_Error, d)
     else (Inr (), put p (Plain (fst c) (snd c)) d))"

definition make_dir :: "path \<Rightarrow> ('e, unit) io" where
  "make_dir p = syscall untouched (\<lambda>d.
     if look d (butlast p) \<noteq> Some Directory \<or> look d p \<noteq> None then (Inl Os_Error, d)
     else (Inr (), put p Directory d))"

definition touch_node :: "path \<Rightarrow> ('e, unit) io" where
  "touch_node p = syscall untouched (\<lambda>d. if look d p = None then (Inl Os_Error, d) else (Inr (), d))"

text \<open>\<open>unlink(missing_ok=True)\<close>, \<open>os.replace\<close> of a file and of a directory, \<open>shutil.rmtree\<close>.\<close>

definition unlink :: "path \<Rightarrow> ('e, unit) io" where
  "unlink p = syscall untouched (\<lambda>d.
     if look d p = Some Directory then (Inl Os_Error, d) else (Inr (), rid p d))"

definition replace_file :: "path \<Rightarrow> path \<Rightarrow> ('e, unit) io" where
  "replace_file a b = syscall untouched (\<lambda>d.
     case look d a of
       Some (Plain bs r) \<Rightarrow>
         if look d b = Some Directory \<or> look d (butlast b) \<noteq> Some Directory then (Inl Os_Error, d)
         else (Inr (), put b (Plain bs r) (rid a d))
     | _ \<Rightarrow> (Inl Os_Error, d))"

definition replace_dir :: "path \<Rightarrow> path \<Rightarrow> ('e, unit) io" where
  "replace_dir a b = syscall untouched (\<lambda>d.
     if look d a \<noteq> Some Directory \<or> \<not> unused d b then (Inl Os_Error, d)
     else (Inr (), move_tree a b d))"

definition remove_tree :: "path \<Rightarrow> ('e, unit) io" where
  "remove_tree p = syscall (\<lambda>junk d. if junk = None \<or> look d p \<noteq> Some Directory then d
       else put p Directory (rid_tree p d))
     (\<lambda>d. if look d p \<noteq> Some Directory then (Inl Os_Error, d) else (Inr (), rid_tree p d))"

definition copy_file :: "path \<Rightarrow> path \<Rightarrow> ('e, unit) io" where
  "copy_file a b = and_then (read_file a) (write_file b)"

section \<open>Weakest preconditions\<close>

definition wp :: "('e, 'a) io \<Rightarrow> ('a \<Rightarrow> disk \<Rightarrow> bool) \<Rightarrow> ('e failure \<Rightarrow> disk \<Rightarrow> bool) \<Rightarrow> disk \<Rightarrow> bool" where
  "wp m Q E d = (case m d of (Inl e, d') \<Rightarrow> E e d' | (Inr a, d') \<Rightarrow> Q a d')"

named_theorems wp_rules "weakest preconditions of the program constructs"

lemma wp_ret [wp_rules]: "wp (ret a) Q E d \<longleftrightarrow> Q a d"
  by (simp add: wp_def ret_def)

lemma wp_raise [wp_rules]: "wp (raise e) Q E d \<longleftrightarrow> E e d"
  by (simp add: wp_def raise_def)

lemma wp_and_then [wp_rules]: "wp (and_then m f) Q E d \<longleftrightarrow> wp m (\<lambda>a. wp (f a) Q E) E d"
  by (auto simp: wp_def and_then_def split: prod.splits sum.splits)

lemma wp_handle [wp_rules]: "wp (handle m h) Q E d \<longleftrightarrow> wp m Q (\<lambda>e. wp (h e) Q E) d"
  by (auto simp: wp_def handle_def split: prod.splits sum.splits)

lemma wp_lastly [wp_rules]:
  "wp (lastly m f) Q E d \<longleftrightarrow>
     wp m (\<lambda>a. wp (f (Inr a)) (\<lambda>_. Q a) E) (\<lambda>e. wp (f (Inl e)) (\<lambda>_. E e) E) d"
  by (auto simp: wp_def lastly_def split: prod.splits sum.splits)

lemma wp_check [wp_rules]: "wp (check b e) Q E d \<longleftrightarrow> (if b then Q () d else E e d)"
  by (simp add: check_def wp_rules)

lemma wp_asks [wp_rules]: "wp (asks f) Q E d \<longleftrightarrow> Q (f d) d"
  by (simp add: wp_def asks_def)

lemma wp_mono:
  "wp m Q E d \<Longrightarrow> (\<And>a d'. Q a d' \<Longrightarrow> Q' a d') \<Longrightarrow> (\<And>e d'. E e d' \<Longrightarrow> E' e d') \<Longrightarrow> wp m Q' E' d"
  by (auto simp: wp_def split: prod.splits sum.splits)

lemma wp_conj:
  "wp m Q E d \<Longrightarrow> wp m Q' E' d \<Longrightarrow> wp m (\<lambda>a d. Q a d \<and> Q' a d) (\<lambda>e d. E e d \<and> E' e d) d"
  by (auto simp: wp_def split: prod.splits sum.splits)

lemma wp_resultE: "wp m Q E d \<Longrightarrow> m d = (r, d') \<Longrightarrow> (case r of Inl e \<Rightarrow> E e d' | Inr a \<Rightarrow> Q a d')"
  by (auto simp: wp_def split: sum.splits)

section \<open>What a program touches\<close>

text \<open>Outside the paths in \<open>S\<close> the program leaves the files alone.\<close>

definition same_outside :: "(path \<Rightarrow> bool) \<Rightarrow> disk \<Rightarrow> disk \<Rightarrow> bool" where
  "same_outside S d d' \<longleftrightarrow> (\<forall>p. \<not> S p \<longrightarrow> look d' p = look d p)"

definition touches :: "(path \<Rightarrow> bool) \<Rightarrow> ('e, 'a) io \<Rightarrow> bool" where
  "touches S m \<longleftrightarrow> (\<forall>d. same_outside S d (snd (m d)))"

named_theorems touch_intros "what the program constructs touch"

lemma same_outside_refl [simp]: "same_outside S d d"
  by (simp add: same_outside_def)

lemma same_outside_faults [simp]: "same_outside S (d\<lparr>dk_faults := fs\<rparr>) d' = same_outside S d d'"
  by (simp add: same_outside_def)

lemma same_outside_trans: "same_outside S d d' \<Longrightarrow> same_outside S d' d'' \<Longrightarrow> same_outside S d d''"
  by (simp add: same_outside_def)

lemma same_outside_mono: "same_outside S d d' \<Longrightarrow> (\<And>p. S p \<Longrightarrow> S' p) \<Longrightarrow> same_outside S' d d'"
  by (auto simp: same_outside_def)

lemma touches_wp: "touches S m \<Longrightarrow> wp m (\<lambda>_ d'. same_outside S d d') (\<lambda>_ d'. same_outside S d d') d"
  by (simp add: touches_def wp_def split: prod.splits sum.splits) (metis snd_conv)

lemma touches_mono: "touches S m \<Longrightarrow> (\<And>p. S p \<Longrightarrow> S' p) \<Longrightarrow> touches S' m"
  unfolding touches_def using same_outside_mono by blast

lemma touches_ret [touch_intros]: "touches S (ret a)"
  and touches_raise [touch_intros]: "touches S (raise e)"
  and touches_asks [touch_intros]: "touches S (asks f)"
  and touches_check [touch_intros]: "touches S (check b e)"
  by (simp_all add: touches_def ret_def raise_def asks_def check_def)

lemma touches_and_then [touch_intros]:
  assumes "touches S m" and "\<And>a. touches S (f a)"
  shows "touches S (and_then m f)"
proof -
  have "same_outside S d (snd (and_then m f d))" for d
  proof -
    obtain r d' where m: "m d = (r, d')" by (cases "m d")
    then have "same_outside S d d'" using assms(1) by (metis touches_def snd_conv)
    then show ?thesis
      using assms(2) m same_outside_trans by (auto simp: and_then_def touches_def split: sum.splits)
  qed
  then show ?thesis by (simp add: touches_def)
qed

lemma touches_handle [touch_intros]:
  assumes "touches S m" and "\<And>e. touches S (h e)"
  shows "touches S (handle m h)"
proof -
  have "same_outside S d (snd (handle m h d))" for d
  proof -
    obtain r d' where m: "m d = (r, d')" by (cases "m d")
    then have "same_outside S d d'" using assms(1) by (metis touches_def snd_conv)
    then show ?thesis
      using assms(2) m same_outside_trans by (auto simp: handle_def touches_def split: sum.splits)
  qed
  then show ?thesis by (simp add: touches_def)
qed

lemma touches_lastly [touch_intros]:
  assumes "touches S m" and "\<And>r. touches S (f r)"
  shows "touches S (lastly m f)"
proof -
  have "same_outside S d (snd (lastly m f d))" for d
  proof -
    obtain r d' where m: "m d = (r, d')" by (cases "m d")
    obtain r' d'' where f: "f r d' = (r', d'')" by (cases "f r d'")
    have "same_outside S d d'" "same_outside S d' d''"
      using assms m f by (metis touches_def snd_conv)+
    then show ?thesis
      using m f same_outside_trans by (auto simp: lastly_def split: sum.splits)
  qed
  then show ?thesis by (simp add: touches_def)
qed

lemma touches_if [touch_intros]: "touches S m \<Longrightarrow> touches S n \<Longrightarrow> touches S (if b then m else n)"
  by simp

lemma touches_each [touch_intros]: "(\<And>x. x \<in> set xs \<Longrightarrow> touches S (f x)) \<Longrightarrow> touches S (each f xs)"
  by (induction xs) (auto intro!: touch_intros)

lemma touches_syscall:
  assumes "\<And>d junk. same_outside S d (partial junk d)" and "\<And>d. same_outside S d (snd (m d))"
  shows "touches S (syscall partial m)"
  unfolding touches_def
proof
  fix d
  show "same_outside S d (snd (syscall partial m d))"
    using assms(1) [of "d\<lparr>dk_faults := tl (dk_faults d)\<rparr>"] assms(2) [of d]
      assms(2) [of "d\<lparr>dk_faults := tl (dk_faults d)\<rparr>"]
    by (auto simp: syscall_def split: list.splits option.splits)
qed

lemma touches_calls [touch_intros]:
  "touches S (read_file p)"
  "S p \<Longrightarrow> touches S (write_file p c)"
  "S p \<Longrightarrow> touches S (make_dir p)"
  "touches S (touch_node p)"
  "S p \<Longrightarrow> touches S (unlink p)"
  "S a \<Longrightarrow> S b \<Longrightarrow> touches S (replace_file a b)"
  by (auto simp: read_file_def write_file_def make_dir_def touch_node_def unlink_def replace_file_def
      same_outside_def untouched_def leaves_def split: option.splits node.splits intro!: touches_syscall)

lemma touches_replace_dir [touch_intros]:
  "(\<And>p. prefix a p \<or> prefix b p \<Longrightarrow> S p) \<Longrightarrow> touches S (replace_dir a b)"
  unfolding replace_dir_def
  by (rule touches_syscall) (auto simp: same_outside_def untouched_def look_move_tree)

lemma touches_remove_tree [touch_intros]:
  "(\<And>q. prefix p q \<Longrightarrow> S q) \<Longrightarrow> touches S (remove_tree p)"
  unfolding remove_tree_def
  by (rule touches_syscall) (auto simp: same_outside_def)

lemma touches_copy_file [touch_intros]: "S b \<Longrightarrow> touches S (copy_file a b)"
  by (auto simp: copy_file_def intro!: touch_intros)

section \<open>What the system calls do\<close>

lemma wp_syscall:
  assumes "\<And>fs. wp m Q E (d\<lparr>dk_faults := fs\<rparr>)"
    and "\<And>junk fs. E Os_Error (partial junk (d\<lparr>dk_faults := fs\<rparr>))"
  shows "wp (syscall partial m) Q E d"
proof -
  have "d\<lparr>dk_faults := dk_faults d\<rparr> = d" by simp
  then have "wp m Q E d" using assms(1) [of "dk_faults d"] by simp
  then show ?thesis
    using assms by (auto simp: wp_def syscall_def split: list.splits option.splits)
qed

lemma wp_read_file:
  "wp (read_file p) (\<lambda>c d'. look d p = Some (Plain (fst c) (snd c)) \<and> look d' = look d)
     (\<lambda>e d'. e = Os_Error \<and> look d' = look d) d"
  unfolding read_file_def
  by (rule wp_syscall) (auto simp: wp_def untouched_def fun_eq_iff split: option.splits node.splits)

lemma wp_write_file:
  "wp (write_file p c) (\<lambda>_ d'. look d' = (look d)(p \<mapsto> Plain (fst c) (snd c)))
     (\<lambda>e d'. e = Os_Error \<and> same_outside (\<lambda>q. q = p) d d') d"
  unfolding write_file_def
  by (rule wp_syscall) (auto simp: wp_def leaves_def same_outside_def fun_eq_iff split: option.splits)

lemma wp_make_dir:
  "wp (make_dir p) (\<lambda>_ d'. look d' = (look d)(p \<mapsto> Directory) \<and> look d p = None)
     (\<lambda>e d'. e = Os_Error \<and> look d' = look d) d"
  unfolding make_dir_def
  by (rule wp_syscall) (auto simp: wp_def untouched_def fun_eq_iff)

lemma wp_touch_node:
  "wp (touch_node p) (\<lambda>_ d'. look d' = look d) (\<lambda>e d'. e = Os_Error \<and> look d' = look d) d"
  unfolding touch_node_def
  by (rule wp_syscall) (auto simp: wp_def untouched_def fun_eq_iff)

lemma wp_unlink:
  "wp (unlink p) (\<lambda>_ d'. look d' = (look d)(p := None)) (\<lambda>e d'. e = Os_Error \<and> look d' = look d) d"
  unfolding unlink_def
  by (rule wp_syscall) (auto simp: wp_def untouched_def fun_eq_iff)

lemma wp_replace_file:
  "wp (replace_file a b) (\<lambda>_ d'. is_file d a \<and> look d' = (look d)(a := None, b := look d a))
     (\<lambda>e d'. e = Os_Error \<and> look d' = look d) d"
  unfolding replace_file_def
  by (rule wp_syscall) (auto simp: wp_def untouched_def is_file_def fun_eq_iff split: option.splits node.splits)

lemma wp_replace_dir:
  "wp (replace_dir a b) (\<lambda>_ d'. unused d b \<and> look d a = Some Directory \<and> (\<forall>q. look d' q =
       (if prefix b q then look d (a @ drop (length b) q) else if prefix a q then None else look d q)))
     (\<lambda>e d'. e = Os_Error \<and> look d' = look d) d"
  unfolding replace_dir_def
  by (rule wp_syscall) (auto simp: wp_def untouched_def unused_def look_move_tree fun_eq_iff)

lemma wp_copy_file:
  "wp (copy_file a b) (\<lambda>_ d'. is_file d a \<and> look d' = (look d)(b := look d a))
     (\<lambda>e d'. e = Os_Error \<and> same_outside (\<lambda>q. q = b) d d') d"
  unfolding copy_file_def wp_and_then
proof (rule wp_mono [OF wp_read_file])
  fix c d1 assume r: "look d a = Some (Plain (fst c) (snd c)) \<and> look d1 = look d"
  show "wp (write_file b c) (\<lambda>_ d'. is_file d a \<and> look d' = (look d)(b := look d a))
      (\<lambda>e d'. e = Os_Error \<and> same_outside (\<lambda>q. q = b) d d') d1"
    by (rule wp_mono [OF wp_write_file]) (use r in \<open>auto simp: is_file_def same_outside_def\<close>)
qed (auto simp: same_outside_def)

text \<open>Two specifications of the same program, and a specification as a step of a larger one.\<close>

lemma wp_weaken: "wp m Q E d \<Longrightarrow> (\<And>a d'. Q a d' \<Longrightarrow> Q' a d') \<Longrightarrow> wp m Q' (\<lambda>_ _. True) d"
  by (erule wp_mono) auto

lemma wp_seq:
  "wp m Q E d \<Longrightarrow> (\<And>a d'. Q a d' \<Longrightarrow> wp (f a) Q' (\<lambda>_ _. True) d') \<Longrightarrow> wp (and_then m f) Q' (\<lambda>_ _. True) d"
  unfolding wp_and_then by (erule wp_mono) auto

lemma wp_True: "wp m (\<lambda>_ _. True) (\<lambda>_ _. True) d"
  by (simp add: wp_def split: prod.splits sum.splits)

lemma look_eq_same: "look d' = look d \<Longrightarrow> same_outside S d d'"
  by (simp add: same_outside_def)

lemma touches_and_then_result:
  assumes "touches S m" and "\<And>d. wp m (\<lambda>a _. P a) (\<lambda>_ _. True) d" and "\<And>a. P a \<Longrightarrow> touches S (f a)"
  shows "touches S (and_then m f)"
proof -
  have "same_outside S d (snd (and_then m f d))" for d
  proof -
    obtain r d' where m: "m d = (r, d')" by (cases "m d")
    then have "same_outside S d d'" using assms(1) by (metis touches_def snd_conv)
    moreover have "P a" if "r = Inr a" for a using assms(2) [of d] m that by (simp add: wp_def)
    ultimately show ?thesis
      using assms(3) m same_outside_trans by (auto simp: and_then_def touches_def split: sum.splits)
  qed
  then show ?thesis by (simp add: touches_def)
qed

lemma wp_seq_any:
  "(\<And>a d'. wp (f a) Q (\<lambda>_ _. True) d') \<Longrightarrow> wp (and_then m f) Q (\<lambda>_ _. True) d"
  by (rule wp_seq [OF wp_True])

lemma wp_if: "(b \<Longrightarrow> wp m Q E d) \<Longrightarrow> (\<not> b \<Longrightarrow> wp n Q E d) \<Longrightarrow> wp (if b then m else n) Q E d"
  by simp

lemma wp_reads: "touches (\<lambda>_. False) m \<Longrightarrow> wp m (\<lambda>_ d'. look d' = look d) (\<lambda>_ _. True) d"
  by (rule wp_mono [OF touches_wp [of "\<lambda>_. False"]]) (auto simp: same_outside_def)

lemma wp_frame: "touches S m \<Longrightarrow> wp m (\<lambda>_ d'. same_outside S d d') (\<lambda>_ _. True) d"
  by (rule wp_mono [OF touches_wp]) auto

text \<open>A handler that always raises, and a clean-up, keep what holds of normal results.\<close>

lemma wp_then_raise: "wp (and_then m (\<lambda>_. raise e)) Q (\<lambda>_ _. True) d"
  by (rule wp_seq_any) (simp add: wp_raise)

lemma wp_handle_raising:
  assumes "wp m Q (\<lambda>_ _. True) d" and "\<And>e d'. wp (h e) Q (\<lambda>_ _. True) d'"
  shows "wp (handle m h) Q (\<lambda>_ _. True) d"
  unfolding wp_handle by (rule wp_mono [OF assms(1)]) (auto intro: assms(2))

lemma wp_lastly_frame:
  assumes "wp m Q (\<lambda>_ _. True) d" and "\<And>r. touches S (f r)"
    and "\<And>a d1 d2. Q a d1 \<Longrightarrow> same_outside S d1 d2 \<Longrightarrow> Q' a d2"
  shows "wp (lastly m f) Q' (\<lambda>_ _. True) d"
  unfolding wp_lastly
proof (rule wp_mono [OF assms(1)])
  fix a d1 assume "Q a d1"
  then show "wp (f (Inr a)) (\<lambda>_. Q' a) (\<lambda>_ _. True) d1"
    using assms(3) by (intro wp_mono [OF wp_frame [OF assms(2)]]) auto
qed (simp add: wp_True)

section \<open>What a program may raise\<close>

definition raises :: "('e failure \<Rightarrow> bool) \<Rightarrow> ('e, 'a) io \<Rightarrow> bool" where
  "raises R m \<longleftrightarrow> (\<forall>d. wp m (\<lambda>_ _. True) (\<lambda>e _. R e) d)"

named_theorems raise_intros "what the program constructs raise"

lemma raises_basic [raise_intros]:
  "raises R (ret a)" "R e \<Longrightarrow> raises R (raise e)" "raises R (asks f)" "(\<not> b \<Longrightarrow> R e) \<Longrightarrow> raises R (check b e)"
  by (auto simp: raises_def wp_rules)

lemma raises_and_then [raise_intros]:
  "raises R m \<Longrightarrow> (\<And>a. raises R (f a)) \<Longrightarrow> raises R (and_then m f)"
  unfolding raises_def wp_and_then by (blast intro: wp_mono)

lemma raises_handle [raise_intros]: "(\<And>e. raises R (h e)) \<Longrightarrow> raises R (handle m h)"
  unfolding raises_def wp_handle by (blast intro: wp_mono [OF wp_True])

lemma raises_lastly [raise_intros]:
  "raises R m \<Longrightarrow> (\<And>r. raises R (f r)) \<Longrightarrow> raises R (lastly m f)"
  unfolding raises_def wp_lastly by (blast intro: wp_mono)

lemma raises_if [raise_intros]: "raises R m \<Longrightarrow> raises R n \<Longrightarrow> raises R (if b then m else n)"
  by simp

lemma raises_each [raise_intros]: "(\<And>x. raises R (f x)) \<Longrightarrow> raises R (each f xs)"
  by (induction xs) (auto intro: raise_intros)

lemma raises_mono: "raises R m \<Longrightarrow> (\<And>e. R e \<Longrightarrow> R' e) \<Longrightarrow> raises R' m"
  unfolding raises_def by (blast intro: wp_mono)

lemma raises_calls [raise_intros]:
  "R Os_Error \<Longrightarrow> raises R (read_file p)" "R Os_Error \<Longrightarrow> raises R (write_file p c)"
  "R Os_Error \<Longrightarrow> raises R (make_dir p)" "R Os_Error \<Longrightarrow> raises R (touch_node p)"
  "R Os_Error \<Longrightarrow> raises R (unlink p)" "R Os_Error \<Longrightarrow> raises R (replace_file p q)"
  "R Os_Error \<Longrightarrow> raises R (replace_dir p q)" "R Os_Error \<Longrightarrow> raises R (copy_file p q)"
  unfolding raises_def
  by (auto intro: wp_mono [OF wp_read_file] wp_mono [OF wp_write_file] wp_mono [OF wp_make_dir]
      wp_mono [OF wp_touch_node] wp_mono [OF wp_unlink] wp_mono [OF wp_replace_file]
      wp_mono [OF wp_replace_dir] wp_mono [OF wp_copy_file])

lemma raises_syscall:
  assumes "\<And>d. wp m (\<lambda>_ _. True) (\<lambda>e _. R e) d" and "R Os_Error"
  shows "raises R (syscall partial m)"
  unfolding raises_def using assms by (auto intro!: wp_syscall)

lemma raises_remove_tree [raise_intros]: "R Os_Error \<Longrightarrow> raises R (remove_tree p)"
  unfolding remove_tree_def by (rule raises_syscall) (auto simp: wp_def)

text \<open>A frame holds on every outcome, together with what may be raised.\<close>

lemma wp_frame_raises:
  "touches S m \<Longrightarrow> raises R m \<Longrightarrow> wp m (\<lambda>_ d'. same_outside S d d') (\<lambda>e d'. same_outside S d d' \<and> R e) d"
  unfolding raises_def by (rule wp_mono [OF wp_conj [OF touches_wp]]) auto

end
