(* ===== verification/Backup_Manifest.thy ===== *)
theory Backup_Manifest
  imports Py_Files "HOL-Library.Char_ord" "HOL-Library.List_Lexorder" "HOL-Library.Product_Lexorder"
begin

text \<open>
  What makes a backup artifact valid (\<^verbatim>\<open>backend/backup_restore.py\<close>): the checks of a
  database (its required schema is in \<^verbatim>\<open>backend/health.py\<close>), the shape of the manifest, and the
  comparison of the two. What SQLite answers about a database is a function of its bytes and its
  write-ahead log.
\<close>

section \<open>Limits and the required schema\<close>

definition format_version :: int where "format_version = 1"
definition database_name :: string where "database_name = ''opportunity_radar.db''"
definition manifest_name :: string where "manifest_name = ''manifest.json''"
definition default_retention :: nat where "default_retention = 7"
definition max_counted_tables :: nat where "max_counted_tables = 64"
definition max_rows_counted :: nat where "max_rows_counted = 1000000"
definition max_auxiliary_files :: nat where "max_auxiliary_files = 32"
definition minimum_schema_version :: int where "minimum_schema_version = 7"

definition required_columns :: "(string \<times> string list) list" where
  "required_columns =
     [(''applications'',
       [''job_id'', ''applied'', ''application_status'', ''date_applied'', ''follow_up_date'',
        ''notes'', ''not_interested'', ''payload_json'', ''archived_at'', ''updated_at'']),
      (''companies'',
       [''id'', ''name'', ''normalized_name'', ''industry'', ''company_description'',
        ''city'', ''state'', ''country'', ''known_website'', ''official_website'',
        ''website_discovery_method'', ''website_candidate_urls'', ''website_verification_notes'',
        ''website_verified'', ''careers_page_url'', ''job_board_url'', ''job_board_discovery_method'',
        ''jobs_rss_feed_url'', ''job_platform'', ''feed_found'', ''search_status'', ''confidence'',
        ''last_checked'', ''notes'', ''founded_year'', ''total_assets'', ''assets_as_of_date'',
        ''company_info_last_checked'', ''created_at'', ''updated_at'']),
      (''jobs'',
       [''id'', ''legacy_id'', ''company_id'', ''company_name'', ''title'', ''location'', ''work_type'',
        ''pay_min'', ''pay_max'', ''pay_text'', ''pay_period'', ''pay_currency'', ''posted_date'',
        ''source_url'', ''job_platform'', ''description'', ''description_snippet'', ''collected_at'',
        ''status'', ''role_type'', ''role_type_reason'', ''raw_data_json'', ''first_seen_at'',
        ''created_at'', ''updated_at'']),
      (''resume_fit_results'',
       [''id'', ''resume_id'', ''job_id'', ''score'', ''status'', ''resume_version'', ''job_fingerprint'',
        ''algorithm_version'', ''matched_at'', ''error'', ''payload_json'', ''created_at'']),
      (''resumes'',
       [''id'', ''version'', ''name'', ''file_name'', ''uploaded_at'', ''extracted_text'',
        ''skills_json'', ''payload_json'', ''updated_at'']),
      (''settings'', [''key'', ''value_json'', ''updated_at''])]"

definition core_tables :: "string list" where
  "core_tables = map fst required_columns"

datatype manifest_part =
    Whole_Manifest | Format_Entry | Kind_Entry | Timestamp_Entry | Deployment_Entry
  | Database_Entry | Database_Size | Database_Digest | Validation_Entry | Unsuccessful_Validation
  | Version_Entry | Fingerprint_Entry | Core_Entry | Count_Summary | Count_Values | Capped_Counts
  | Count_Boundary | Auxiliary_Summary | Auxiliary_Entry | Auxiliary_Name | Auxiliary_Size
  | Auxiliary_Digest

datatype database_problem =
    Database_Missing | Integrity_Failed | Foreign_Keys_Failed | Schema_Too_Old | Core_Tables_Missing
  | Core_Columns_Missing | Validation_Incomplete

datatype artifact_problem =
    Artifact_Missing | Manifest_Unreadable | Manifest_Invalid manifest_part | Backup_Database_Missing
  | Unexpected_Sidecar | Database_Unreadable | Database_Differs | Auxiliary_Unreadable
  | Auxiliary_Differs | Backup_Mismatch manifest_part

datatype request_problem =
    Source_Missing | Retention_Too_Small | Unknown_Kind | Auxiliary_Is_Live | Root_Not_Directory
  | Too_Many_Auxiliary | Auxiliary_Name_Invalid | Auxiliary_Not_Regular | Writes_Not_Stopped
  | Expected_Version_Low | Unexpected_Source_Version | Target_Is_Link | Target_Is_Source
  | Target_Not_Regular | Target_Directory_Missing

datatype backup_refusal =
    Bad_Database database_problem | Bad_Artifact artifact_problem | Bad_Request request_problem
  | Staged_Mismatch manifest_part | Backup_Incomplete | Destination_Exists | Stage_Bytes_Differ
  | Unexpected_Stage_Version | Versions_Differ | Activated_Bytes_Differ | Rollback_Failed
  | Rolled_Back | Not_Activated | Target_Busy | Target_Not_Prepared | Sidecar_In_Use
  | Fileset_Unavailable | Preserved_Database_Missing | Not_Preserved | Permission_Not_Enforced
  | Directory_Not_Flushed

type_synonym 'a backup_io = "(backup_refusal, 'a) io"

text \<open>The first check that does not hold decides.\<close>

fun demand :: "(bool \<times> 'e failure) list \<Rightarrow> 'e failure + unit" where
  "demand [] = Inr ()"
| "demand ((b, e) # rest) = (if b then demand rest else Inl e)"

lemma demand_ok: "demand cs = Inr u \<longleftrightarrow> list_all fst cs"
  by (induction cs) (auto split: if_split_asm)

section \<open>Inspection of a database\<close>

record sqlite_facts =
  fa_integrity :: "string list"
  fa_foreign :: nat
  fa_version :: "int option"
  fa_tables :: "string list"
  fa_columns :: "string \<Rightarrow> string list"
  fa_rows :: "string \<Rightarrow> nat"
  fa_schema :: "string list list"

record inspection =
  in_version :: int
  in_fingerprint :: string
  in_counts :: "(string \<times> nat) list"
  in_capped :: "string list"
  in_truncated :: bool

definition core_columns_present :: "sqlite_facts \<Rightarrow> bool" where
  "core_columns_present f \<longleftrightarrow>
     list_all (\<lambda>(t, cols). list_all (\<lambda>c. c \<in> set (fa_columns f t)) cols) required_columns"

text \<open>\<open>json.dumps(rows, separators=(",", ":"))\<close> of rows of strings, and its digest.\<close>

definition json_rows :: "string list list \<Rightarrow> string" where
  "json_rows rows =
     ''['' @ join '','' (map (\<lambda>r. ''['' @ join '','' (map json_string r) @ '']'') rows) @ '']''"

definition schema_fingerprint :: "sqlite_facts \<Rightarrow> string" where
  "schema_fingerprint f = hex_digest (sha256 (utf8_encode (json_rows (fa_schema f))))"

text \<open>The query counts at most one row more than the limit.\<close>

definition observed_rows :: "sqlite_facts \<Rightarrow> string \<Rightarrow> nat" where
  "observed_rows f t = min (fa_rows f t) (max_rows_counted + 1)"

definition counted_names :: "sqlite_facts \<Rightarrow> string list" where
  "counted_names f = take max_counted_tables (sort (fa_tables f))"

definition inspect_facts :: "sqlite_facts \<Rightarrow> backup_refusal failure + inspection" where
  "inspect_facts f =
     (let version = (case fa_version f of None \<Rightarrow> 0 | Some v \<Rightarrow> v) in
      bind_res (demand
        [(fa_integrity f = [''ok''], Refused (Bad_Database Integrity_Failed)),
         (fa_foreign f = 0, Refused (Bad_Database Foreign_Keys_Failed)),
         (minimum_schema_version \<le> version, Refused (Bad_Database Schema_Too_Old)),
         (list_all (\<lambda>t. t \<in> set (fa_tables f)) core_tables, Refused (Bad_Database Core_Tables_Missing)),
         (core_columns_present f, Refused (Bad_Database Core_Columns_Missing))])
      (\<lambda>_. Inr
        \<lparr>in_version = version, in_fingerprint = schema_fingerprint f,
         in_counts = map (\<lambda>t. (t, min (observed_rows f t) max_rows_counted)) (counted_names f),
         in_capped = filter (\<lambda>t. max_rows_counted < observed_rows f t) (counted_names f),
         in_truncated = max_counted_tables < length (fa_tables f)\<rparr>))"

section \<open>The manifest\<close>

fun dig :: "string list \<Rightarrow> json \<Rightarrow> json option" where
  "dig [] j = Some j"
| "dig (k # ks) (JObj ms) = (case map_of ms k of None \<Rightarrow> None | Some j \<Rightarrow> dig ks j)"
| "dig (k # ks) _ = None"

definition is_sha256 :: "json option \<Rightarrow> bool" where
  "is_sha256 j = (case string_of_json j of
     None \<Rightarrow> False
   | Some s \<Rightarrow> length s = 64 \<and> list_all (\<lambda>c. c \<in> set ''0123456789abcdef'') s)"

definition is_safe_artifact_name :: "string \<Rightarrow> bool" where
  "is_safe_artifact_name v \<longleftrightarrow>
     v \<noteq> [] \<and> v \<noteq> ''.'' \<and> v \<noteq> ''..'' \<and> CHR ''/'' \<notin> set v \<and> CHR 0x5C \<notin> set v"

definition valid_counts :: "json option \<Rightarrow> bool" where
  "valid_counts j = (case dict_of_json j of
     None \<Rightarrow> False
   | Some ms \<Rightarrow> list_all (\<lambda>(t, c). t \<noteq> [] \<and> (case c of JInt i \<Rightarrow> 0 \<le> i | _ \<Rightarrow> False)) ms)"

definition known_tables :: "json \<Rightarrow> string list" where
  "known_tables m = (case dict_of_json (dig [''tableCounts''] m) of None \<Rightarrow> [] | Some ms \<Rightarrow> map fst ms)"

text \<open>The list of capped tables: short, then hashable elements (building the set raises otherwise),
  then distinct names of counted tables.\<close>

definition capped_short :: "json \<Rightarrow> bool" where
  "capped_short m = (case list_of_json (dig [''tableCountsCapped''] m) of
     None \<Rightarrow> False | Some js \<Rightarrow> length js \<le> max_counted_tables)"

definition capped_items :: "json \<Rightarrow> json list" where
  "capped_items m = (case list_of_json (dig [''tableCountsCapped''] m) of None \<Rightarrow> [] | Some js \<Rightarrow> js)"

definition capped_known :: "json \<Rightarrow> bool" where
  "capped_known m \<longleftrightarrow> distinct (capped_items m)
     \<and> list_all (\<lambda>j. case j of JStr t \<Rightarrow> t \<in> set (known_tables m) | _ \<Rightarrow> False) (capped_items m)"

fun valid_auxiliary :: "string list \<Rightarrow> json list \<Rightarrow> backup_refusal failure + unit" where
  "valid_auxiliary names [] = Inr ()"
| "valid_auxiliary names (e # es) =
     (case e of
        JObj ms \<Rightarrow>
          (case string_of_json (map_of ms ''file'') of
             None \<Rightarrow> Inl (Refused (Bad_Artifact (Manifest_Invalid Auxiliary_Name)))
           | Some name \<Rightarrow>
               if \<not> is_safe_artifact_name name \<or> name \<in> {database_name, manifest_name} \<or> name \<in> set names
               then Inl (Refused (Bad_Artifact (Manifest_Invalid Auxiliary_Name)))
               else bind_res (demand
                 [(case int_of_json (map_of ms ''bytes'') of None \<Rightarrow> False | Some i \<Rightarrow> 0 \<le> i,
                   Refused (Bad_Artifact (Manifest_Invalid Auxiliary_Size))),
                  (is_sha256 (map_of ms ''sha256''), Refused (Bad_Artifact (Manifest_Invalid Auxiliary_Digest)))])
                 (\<lambda>_. valid_auxiliary (name # names) es))
      | _ \<Rightarrow> Inl (Refused (Bad_Artifact (Manifest_Invalid Auxiliary_Entry))))"

definition validate_manifest_shape :: "json \<Rightarrow> backup_refusal failure + unit" where
  "validate_manifest_shape m =
     (let bad = (\<lambda>part. Refused (Bad_Artifact (Manifest_Invalid part))) in
      bind_res (demand
        [(dict_of_json (Some m) \<noteq> None, bad Whole_Manifest),
         (equals_int (dig [''formatVersion''] m) format_version
            \<and> dig [''status''] m = Some (JStr ''complete''), bad Format_Entry),
         (hashable (dig [''kind''] m), Type_Error),
         (dig [''kind''] m \<in> {Some (JStr ''backup''), Some (JStr ''pre_restore'')}, bad Kind_Entry),
         (string_of_json (dig [''createdAt''] m) \<notin> {None, Some []}, bad Timestamp_Entry),
         (string_of_json (dig [''deploymentVersion''] m) \<noteq> None, bad Deployment_Entry),
         (dict_of_json (dig [''database''] m) \<noteq> None
            \<and> dig [''database'', ''file''] m = Some (JStr database_name), bad Database_Entry),
         (case int_of_json (dig [''database'', ''bytes''] m) of None \<Rightarrow> False | Some i \<Rightarrow> 1 \<le> i, bad Database_Size),
         (is_sha256 (dig [''database'', ''sha256''] m), bad Database_Digest),
         (dict_of_json (dig [''validation''] m) \<noteq> None, bad Validation_Entry),
         (dig [''validation'', ''integrityCheck''] m = Some (JStr ''ok'')
            \<and> equals_int (dig [''validation'', ''foreignKeyViolations''] m) 0, bad Unsuccessful_Validation),
         (int_of_json (dig [''validation'', ''schemaVersion''] m) \<noteq> None, bad Version_Entry),
         (is_sha256 (dig [''validation'', ''schemaFingerprint''] m), bad Fingerprint_Entry),
         (dig [''validation'', ''coreSchema''] m = Some (JStr ''valid''), bad Core_Entry),
         (dict_of_json (dig [''tableCounts''] m) \<noteq> None
            \<and> length (known_tables m) \<le> max_counted_tables, bad Count_Summary),
         (valid_counts (dig [''tableCounts''] m), bad Count_Values),
         (capped_short m, bad Capped_Counts),
         (list_all (\<lambda>j. hashable (Some j)) (capped_items m), Type_Error),
         (capped_known m, bad Capped_Counts),
         (case dig [''tableCountsTruncated''] m of Some (JBool _) \<Rightarrow> True | _ \<Rightarrow> False, bad Count_Boundary),
         (case list_of_json (dig [''auxiliaryFiles''] m) of
            None \<Rightarrow> False | Some es \<Rightarrow> length es \<le> max_auxiliary_files, bad Auxiliary_Summary)])
      (\<lambda>_. valid_auxiliary [] (case list_of_json (dig [''auxiliaryFiles''] m) of None \<Rightarrow> [] | Some es \<Rightarrow> es)))"

section \<open>The manifest against the database\<close>

definition counts_match :: "(string \<times> nat) list \<Rightarrow> json option \<Rightarrow> bool" where
  "counts_match xs j = (case dict_of_json j of
     None \<Rightarrow> False
   | Some ms \<Rightarrow> list_all (\<lambda>t. t \<in> set (map fst xs)) (map fst ms)
       \<and> list_all (\<lambda>(t, n). equals_int (map_of ms t) (int n)) xs)"

text \<open>The five comparisons, in the code's order; \<open>fail\<close> names the error of the caller.\<close>

definition compare_inspection ::
  "(manifest_part \<Rightarrow> backup_refusal) \<Rightarrow> inspection \<Rightarrow> json \<Rightarrow> backup_refusal failure + unit" where
  "compare_inspection fail i m = demand
     [(equals_int (dig [''validation'', ''schemaVersion''] m) (in_version i), Refused (fail Version_Entry)),
      (dig [''validation'', ''schemaFingerprint''] m = Some (JStr (in_fingerprint i)), Refused (fail Fingerprint_Entry)),
      (counts_match (in_counts i) (dig [''tableCounts''] m), Refused (fail Count_Values)),
      (dig [''tableCountsCapped''] m = Some (JList (map JStr (in_capped i))), Refused (fail Capped_Counts)),
      (dig [''tableCountsTruncated''] m = Some (JBool (in_truncated i)), Refused (fail Count_Boundary))]"

definition verify_inspection_against_manifest :: "inspection \<Rightarrow> json \<Rightarrow> backup_refusal failure + unit" where
  "verify_inspection_against_manifest i m = compare_inspection Staged_Mismatch i m"

definition bounded_version :: "string \<Rightarrow> string" where
  "bounded_version v =
     (let n = strip (if v = [] then ''unknown'' else v) in take 256 (if n = [] then ''unknown'' else n))"

record backup_file =
  bf_name :: string
  bf_bytes :: nat
  bf_sha256 :: string

definition file_entry :: "backup_file \<Rightarrow> json" where
  "file_entry e = JObj [(''file'', JStr (bf_name e)), (''bytes'', JInt (int (bf_bytes e))),
     (''sha256'', JStr (bf_sha256 e))]"

definition backup_manifest ::
  "string \<Rightarrow> string \<Rightarrow> string \<Rightarrow> nat \<Rightarrow> string \<Rightarrow> inspection \<Rightarrow> backup_file list \<Rightarrow> json" where
  "backup_manifest kind created version db_bytes db_hash i files = JObj
     [(''formatVersion'', JInt format_version), (''status'', JStr ''complete''), (''kind'', JStr kind),
      (''createdAt'', JStr created), (''deploymentVersion'', JStr (bounded_version version)),
      (''database'', file_entry \<lparr>bf_name = database_name, bf_bytes = db_bytes, bf_sha256 = db_hash\<rparr>),
      (''validation'', JObj
        [(''integrityCheck'', JStr ''ok''), (''foreignKeyViolations'', JInt 0),
         (''schemaVersion'', JInt (in_version i)), (''schemaFingerprint'', JStr (in_fingerprint i)),
         (''coreSchema'', JStr ''valid'')]),
      (''tableCounts'', JObj (map (\<lambda>(t, n). (t, JInt (int n))) (in_counts i))),
      (''tableCountsCapped'', JList (map JStr (in_capped i))),
      (''tableCountsTruncated'', JBool (in_truncated i)),
      (''auxiliaryFiles'', JList (map file_entry files))]"

section \<open>A written manifest is accepted\<close>

definition hex_text :: "string \<Rightarrow> bool" where
  "hex_text s \<longleftrightarrow> list_all (\<lambda>c. c \<in> set ''0123456789abcdef'') s"

lemma hex_char_listed: "n < 16 \<Longrightarrow> hex_char n \<in> set ''0123456789abcdef''"
proof -
  assume "n < 16"
  then have "n \<in> set [0..<16]" by simp
  moreover have "list_all (\<lambda>n. hex_char n \<in> set ''0123456789abcdef'') [0..<16]" by code_simp
  ultimately show ?thesis by (simp add: list_all_iff)
qed

lemma hex_text_digest: "hex_text (hex_digest bs)"
proof -
  have "hex_text [hex_char (unat b div 16), hex_char (unat b mod 16)]" for b :: byte
    using byte_bound [of b] hex_char_listed [of "unat b div 16"] hex_char_listed [of "unat b mod 16"]
    by (simp only: hex_text_def list.pred_inject)
  then show ?thesis
    by (induction bs) (auto simp only: hex_text_def hex_digest_def list.map concat.simps list_all_append list.pred_inject)
qed

lemma length_hex_digest: "length (hex_digest bs) = 2 * length bs"
  by (induction bs) (auto simp: hex_digest_def)

lemma is_sha256_digest: "is_sha256 (Some (JStr (hex_digest (sha256 bs))))"
  using hex_text_digest [of "sha256 bs"]
  by (simp only: is_sha256_def string_of_json.simps option.case length_hex_digest length_sha256 hex_text_def) simp

definition well_named :: "backup_file list \<Rightarrow> bool" where
  "well_named files \<longleftrightarrow> distinct (map bf_name files) \<and> length files \<le> max_auxiliary_files
     \<and> list_all (\<lambda>e. is_safe_artifact_name (bf_name e) \<and> bf_name e \<notin> {database_name, manifest_name}
         \<and> is_sha256 (Some (JStr (bf_sha256 e)))) files"

lemma valid_auxiliary_entries:
  "distinct (map bf_name files) \<Longrightarrow> set (map bf_name files) \<inter> set names = {}
   \<Longrightarrow> list_all (\<lambda>e. is_safe_artifact_name (bf_name e) \<and> bf_name e \<notin> {database_name, manifest_name}
         \<and> is_sha256 (Some (JStr (bf_sha256 e)))) files
   \<Longrightarrow> valid_auxiliary names (map file_entry files) = Inr ()"
proof (induction files arbitrary: names)
  case (Cons e files)
  then have "valid_auxiliary (bf_name e # names) (map file_entry files) = Inr ()" by auto
  then show ?case using Cons.prems by (simp add: file_entry_def [of e])
qed simp

definition sound_tables :: "sqlite_facts \<Rightarrow> bool" where
  "sound_tables f \<longleftrightarrow> distinct (fa_tables f) \<and> [] \<notin> set (fa_tables f)"

lemma inspection_tables:
  assumes "inspect_facts f = Inr i" and "sound_tables f"
  shows "map fst (in_counts i) = counted_names f" "distinct (counted_names f)" "[] \<notin> set (counted_names f)"
    "length (in_counts i) \<le> max_counted_tables" "set (in_capped i) \<subseteq> set (counted_names f)" "distinct (in_capped i)"
    "length (in_capped i) \<le> max_counted_tables"
proof -
  have i: "in_counts i = map (\<lambda>t. (t, min (observed_rows f t) max_rows_counted)) (counted_names f)"
    "in_capped i = filter (\<lambda>t. max_rows_counted < observed_rows f t) (counted_names f)"
    using assms(1) by (auto simp: inspect_facts_def Let_def res_simps)
  have "set (counted_names f) \<subseteq> set (fa_tables f)"
    unfolding counted_names_def using set_take_subset by fastforce
  then show "[] \<notin> set (counted_names f)" using assms(2) by (auto simp: sound_tables_def)
  show d: "distinct (counted_names f)" using assms(2) by (simp add: counted_names_def sound_tables_def)
  show "map fst (in_counts i) = counted_names f" by (simp add: i o_def)
  have len: "length (counted_names f) \<le> max_counted_tables" by (simp add: counted_names_def)
  then show "length (in_counts i) \<le> max_counted_tables" by (simp add: i)
  show "set (in_capped i) \<subseteq> set (counted_names f)" "distinct (in_capped i)" using d by (auto simp: i)
  show "length (in_capped i) \<le> max_counted_tables"
    using len unfolding i by (meson le_trans length_filter_le)
qed

lemma written_manifest_valid:
  assumes "inspect_facts f = Inr i" and "sound_tables f" and "well_named files"
    and "kind \<in> {''backup'', ''pre_restore''}" and "created \<noteq> []" and "1 \<le> n"
  shows "validate_manifest_shape (backup_manifest kind created version n (hex_digest (sha256 bs)) i files) = Inr ()"
proof -
  define m where "m = backup_manifest kind created version n (hex_digest (sha256 bs)) i files"
  have fp: "is_sha256 (Some (JStr (in_fingerprint i)))"
    using assms(1) is_sha256_digest by (auto simp: inspect_facts_def Let_def res_simps schema_fingerprint_def)
  have counts: "dig [''tableCounts''] m = Some (JObj (map (\<lambda>(t, n). (t, JInt (int n))) (in_counts i)))"
    and capped: "dig [''tableCountsCapped''] m = Some (JList (map JStr (in_capped i)))"
    and aux: "dig [''auxiliaryFiles''] m = Some (JList (map file_entry files))"
    by (simp_all add: m_def backup_manifest_def)
  have known: "known_tables m = counted_names f"
    using inspection_tables(1) [OF assms(1,2)] by (simp add: known_tables_def counts o_def case_prod_beta)
  have "t \<noteq> []" if "(t, c) \<in> set (in_counts i)" for t c
  proof -
    have "t \<in> set (map fst (in_counts i))" using that by force
    then show ?thesis using inspection_tables(1,3) [OF assms(1,2)] by auto
  qed
  then have "valid_counts (dig [''tableCounts''] m)"
    by (auto simp: valid_counts_def counts list_all_iff)
  moreover have "capped_short m" "list_all (\<lambda>j. hashable (Some j)) (capped_items m)"
    using inspection_tables(7) [OF assms(1,2)]
    by (auto simp: capped_short_def capped_items_def capped hashable_def list_all_iff)
  moreover have "capped_known m"
    using inspection_tables(5,6) [OF assms(1,2)]
    by (auto simp: capped_known_def capped_items_def capped known list_all_iff distinct_map inj_on_def)
  moreover have "length (known_tables m) \<le> max_counted_tables"
    using inspection_tables(1,4) [OF assms(1,2)] known by (metis length_map)
  moreover have "valid_auxiliary [] (map file_entry files) = Inr ()"
    using assms(3) by (intro valid_auxiliary_entries) (auto simp: well_named_def)
  moreover have "length files \<le> max_auxiliary_files" using assms(3) by (simp add: well_named_def)
  moreover have "dig [''kind''] m \<in> {Some (JStr ''backup''), Some (JStr ''pre_restore'')}"
    "hashable (dig [''kind''] m)"
    using assms(4) by (auto simp: m_def backup_manifest_def hashable_def)
  moreover have "is_sha256 (dig [''database'', ''sha256''] m)" "is_sha256 (dig [''validation'', ''schemaFingerprint''] m)"
    using is_sha256_digest fp by (simp_all add: m_def backup_manifest_def file_entry_def)
  moreover have "string_of_json (dig [''createdAt''] m) \<notin> {None, Some []}"
    using assms(5) by (simp add: m_def backup_manifest_def)
  moreover have "dict_of_json (Some m) \<noteq> None" "equals_int (dig [''formatVersion''] m) format_version"
    "dig [''status''] m = Some (JStr ''complete'')" "string_of_json (dig [''deploymentVersion''] m) \<noteq> None"
    "dict_of_json (dig [''database''] m) \<noteq> None" "dig [''database'', ''file''] m = Some (JStr database_name)"
    "int_of_json (dig [''database'', ''bytes''] m) = Some (int n)"
    "dict_of_json (dig [''validation''] m) \<noteq> None"
    "dig [''validation'', ''integrityCheck''] m = Some (JStr ''ok'')"
    "equals_int (dig [''validation'', ''foreignKeyViolations''] m) 0"
    "int_of_json (dig [''validation'', ''schemaVersion''] m) \<noteq> None"
    "dig [''validation'', ''coreSchema''] m = Some (JStr ''valid'')"
    "dig [''tableCountsTruncated''] m = Some (JBool (in_truncated i))"
    by (simp_all add: m_def backup_manifest_def file_entry_def)
  moreover have "Suc 0 \<le> n" using assms(6) by simp
  ultimately show ?thesis
    unfolding m_def [symmetric] by (simp add: validate_manifest_shape_def Let_def aux counts)
qed

lemma written_manifest_matches:
  assumes "inspect_facts f = Inr i" and "sound_tables f"
  shows "compare_inspection fail i (backup_manifest kind created version n h i files) = Inr ()"
proof -
  have "distinct (map fst (in_counts i))" using inspection_tables(1,2) [OF assms] by simp
  have "map_of (map (\<lambda>(t, n). (t, JInt (int n))) (in_counts i)) t = Some (JInt (int c))"
    if "(t, c) \<in> set (in_counts i)" for t c
  proof (rule map_of_is_SomeI)
    show "(t, JInt (int c)) \<in> set (map (\<lambda>(t, n). (t, JInt (int n))) (in_counts i))" using that by force
  qed (use \<open>distinct (map fst (in_counts i))\<close> in \<open>simp add: o_def case_prod_beta\<close>)
  then show ?thesis
    by (force simp: compare_inspection_def demand_ok backup_manifest_def counts_match_def list_all_iff)
qed

end
