(* ===== verification/Backup_Create.thy ===== *)
theory Backup_Create
  imports Backup_Manifest
begin

text \<open>
  Creating, validating and pruning backup artifacts (\<^verbatim>\<open>backend/backup_restore.py\<close>), as
  programs over the file system of \<^verbatim>\<open>Py_Files\<close>. An artifact is a directory below the backup
  root; it is built under a hidden name and gets its visible name last. The answers of SQLite and
  the text that \<open>json.dumps\<close> makes of a manifest are given by the environment.
\<close>

section \<open>The environment\<close>

text \<open>What SQLite says about a database and its write-ahead log, the copy it makes of them, what
  opening a live database leaves in the write-ahead log and the shared memory, and a checkpoint:
  the three files after it, and its first result column (\<open>None\<close>: no row), or an error.\<close>

record backup_env =
  be_facts :: "bytes \<Rightarrow> bytes option \<Rightarrow> sqlite_facts option"
  be_copy :: "bytes \<Rightarrow> bytes option \<Rightarrow> bytes option"
  be_opened :: "bytes \<Rightarrow> bytes option \<times> bytes option \<Rightarrow> bytes option \<times> bytes option"
  be_checkpoint :: "bytes \<Rightarrow> bytes option \<times> bytes option
    \<Rightarrow> bytes \<times> (bytes option \<times> bytes option) \<times> (unit + int option)"
  be_dumps :: "json \<Rightarrow> bytes"

text \<open>The clock and the random token of one artifact.\<close>

record stamp =
  st_created :: string
  st_token :: string

abbreviation then_do :: "'a backup_io \<Rightarrow> 'b backup_io \<Rightarrow> 'b backup_io" where
  "then_do m n \<equiv> and_then m (\<lambda>_. n)"

definition lift_res :: "backup_refusal failure + 'a \<Rightarrow> 'a backup_io" where
  "lift_res r = (case r of Inl e \<Rightarrow> raise e | Inr a \<Rightarrow> ret a)"

definition os_errors_as :: "backup_refusal failure \<Rightarrow> 'a backup_io \<Rightarrow> 'a backup_io" where
  "os_errors_as e m = handle m (\<lambda>e'. raise (if e' = Os_Error then e else e'))"

section \<open>Files of an artifact\<close>

definition sibling :: "path \<Rightarrow> string \<Rightarrow> path" where
  "sibling p ext = butlast p @ [last p @ ext]"

definition wal :: "path \<Rightarrow> path" where "wal p = sibling p ''-wal''"
definition shm :: "path \<Rightarrow> path" where "shm p = sibling p ''-shm''"

definition bytes_at :: "disk \<Rightarrow> path \<Rightarrow> bytes option" where
  "bytes_at d p = (case look d p of Some (Plain bs _) \<Rightarrow> Some bs | _ \<Rightarrow> None)"

definition sha256_file :: "path \<Rightarrow> string backup_io" where
  "sha256_file p = and_then (read_file p) (\<lambda>c. ret (hex_digest (sha256 (fst c))))"

definition file_size :: "path \<Rightarrow> nat backup_io" where
  "file_size p = and_then (read_file p) (\<lambda>c. ret (length (fst c)))"

definition set_private_mode :: "path \<Rightarrow> unit backup_io" where
  "set_private_mode p = os_errors_as (Refused Permission_Not_Enforced) (touch_node p)"

definition fsync_file :: "path \<Rightarrow> unit backup_io" where
  "fsync_file p = and_then (read_file p) (\<lambda>_. ret ())"

definition fsync_directory :: "path \<Rightarrow> unit backup_io" where
  "fsync_directory p = os_errors_as (Refused Directory_Not_Flushed) (touch_node p)"

text \<open>\<open>atomic_write_text\<close> with its temporary file.\<close>

definition atomic_write :: "string \<Rightarrow> path \<Rightarrow> bytes \<times> reading \<Rightarrow> unit backup_io" where
  "atomic_write token p c =
     (let temporary = butlast p @ [''.'' @ last p @ ''.'' @ token @ ''.tmp''] in
      handle (then_do (write_file temporary c) (then_do (fsync_file temporary) (replace_file temporary p)))
        (\<lambda>e. then_do (unlink temporary) (raise e)))"

definition remove_incomplete_directory :: "path \<Rightarrow> path \<Rightarrow> unit backup_io" where
  "remove_incomplete_directory p store =
     (if butlast p = store \<and> take 1 (last p) = ''.''
      then handle (remove_tree p) (\<lambda>e. if e = Os_Error then ret () else raise e)
      else ret ())"

definition clean_up :: "path \<Rightarrow> path \<Rightarrow> unit backup_io" where
  "clean_up pending store = and_then (asks (\<lambda>d. present d pending))
     (\<lambda>b. if b then remove_incomplete_directory pending store else ret ())"

text \<open>\<open>mkdir(parents=True, exist_ok=True)\<close>.\<close>

definition make_dirs :: "path \<Rightarrow> unit backup_io" where
  "make_dirs p = syscall untouched (\<lambda>d.
     if list_ex (\<lambda>q. look d q \<notin> {None, Some Directory}) (prefixes p) then (Inl Os_Error, d)
     else (Inr (), fold (\<lambda>q. put q Directory) (prefixes p) d))"

section \<open>Reading databases\<close>

definition store_side :: "path \<Rightarrow> bytes option \<Rightarrow> disk \<Rightarrow> disk" where
  "store_side p c d = (case c of None \<Rightarrow> rid p d | Some bs \<Rightarrow> put p (Plain bs Not_Json) d)"

text \<open>Opening a database that is not declared immutable may create or rebuild its side files.\<close>

definition open_live :: "backup_env \<Rightarrow> path \<Rightarrow> unit backup_io" where
  "open_live env p d =
     (case bytes_at d p of
        None \<Rightarrow> (Inr (), d)
      | Some bs \<Rightarrow>
          (case be_opened env bs (bytes_at d (wal p), bytes_at d (shm p)) of
             (w, s) \<Rightarrow> (Inr (), store_side (shm p) s (store_side (wal p) w d))))"

definition read_database :: "backup_env \<Rightarrow> bool \<Rightarrow> path \<Rightarrow> (bytes \<times> bytes option) backup_io" where
  "read_database env immutable p =
     os_errors_as Sqlite_Error (and_then (read_file p) (\<lambda>c.
       if immutable then ret (fst c, None)
       else then_do (open_live env p) (asks (\<lambda>d. (fst c, bytes_at d (wal p))))))"

definition inspect_sqlite_database :: "backup_env \<Rightarrow> bool \<Rightarrow> path \<Rightarrow> inspection backup_io" where
  "inspect_sqlite_database env immutable p =
     and_then (asks (\<lambda>d. is_file d p)) (\<lambda>b.
     then_do (check b (Refused (Bad_Database Database_Missing)))
     (handle
       (and_then (read_database env immutable p) (\<lambda>(bs, w).
          case be_facts env bs w of
            None \<Rightarrow> raise Sqlite_Error
          | Some f \<Rightarrow> lift_res (inspect_facts f)))
       (\<lambda>e. case e of Refused r \<Rightarrow> raise e | Type_Error \<Rightarrow> raise e
          | _ \<Rightarrow> raise (Refused (Bad_Database Validation_Incomplete)))))"

definition perform_online_backup :: "backup_env \<Rightarrow> bool \<Rightarrow> path \<Rightarrow> path \<Rightarrow> unit backup_io" where
  "perform_online_backup env immutable source destination =
     and_then (asks (\<lambda>d. present d destination)) (\<lambda>b.
     then_do (check (\<not> b) (Refused Destination_Exists))
     (and_then (read_database env immutable source) (\<lambda>(bs, w).
      then_do (write_file destination ([], Not_Json))
     (then_do (set_private_mode destination)
     (case be_copy env bs w of
        None \<Rightarrow> raise Sqlite_Error
      | Some copy \<Rightarrow> os_errors_as Sqlite_Error (write_file destination (copy, Not_Json)))))))"

section \<open>Validation of an artifact\<close>

definition load_manifest :: "path \<Rightarrow> json backup_io" where
  "load_manifest dir =
     and_then (os_errors_as (Refused (Bad_Artifact Manifest_Unreadable)) (read_file (dir @ [manifest_name]))) (\<lambda>c.
     case snd c of
       Not_Utf8 \<Rightarrow> raise Value_Error
     | Not_Json \<Rightarrow> raise (Refused (Bad_Artifact Manifest_Unreadable))
     | Json j \<Rightarrow> ret j)"

definition auxiliary_matches :: "path \<Rightarrow> json \<Rightarrow> string backup_io" where
  "auxiliary_matches dir e =
     (let name = (case string_of_json (dig [''file''] e) of None \<Rightarrow> [] | Some n \<Rightarrow> n);
          p = dir @ [name]
      in and_then (os_errors_as (Refused (Bad_Artifact Auxiliary_Unreadable))
           (and_then (asks (\<lambda>d. is_file d p)) (\<lambda>b.
            if \<not> b then ret False
            else and_then (file_size p) (\<lambda>n.
              if \<not> equals_int (dig [''bytes''] e) (int n) then ret False
              else and_then (sha256_file p) (\<lambda>h. ret (dig [''sha256''] e = Some (JStr h)))))))
         (\<lambda>ok. then_do (check ok (Refused (Bad_Artifact Auxiliary_Differs))) (ret name)))"

record validated =
  vd_inspection :: inspection
  vd_manifest :: json
  vd_sha256 :: string
  vd_created :: string
  vd_auxiliary :: "string list"

definition validate_sqlite_backup :: "backup_env \<Rightarrow> path \<Rightarrow> validated backup_io" where
  "validate_sqlite_backup env dir =
     and_then (asks (\<lambda>d. look d dir = Some Directory)) (\<lambda>b.
     then_do (check b (Refused (Bad_Artifact Artifact_Missing)))
     (and_then (load_manifest dir) (\<lambda>m.
     then_do (lift_res (validate_manifest_shape m))
     (let db = dir @ [database_name] in
      and_then (asks (\<lambda>d. is_file d db)) (\<lambda>b.
      then_do (check b (Refused (Bad_Artifact Backup_Database_Missing)))
     (and_then (asks (\<lambda>d. present d (wal db) \<or> present d (shm db))) (\<lambda>b.
      then_do (check (\<not> b) (Refused (Bad_Artifact Unexpected_Sidecar)))
     (and_then (os_errors_as (Refused (Bad_Artifact Database_Unreadable))
        (and_then (file_size db) (\<lambda>n. and_then (sha256_file db) (\<lambda>h. ret (n, h))))) (\<lambda>(n, h).
      then_do (check (equals_int (dig [''database'', ''bytes''] m) (int n)
          \<and> dig [''database'', ''sha256''] m = Some (JStr h)) (Refused (Bad_Artifact Database_Differs)))
     (and_then (each (auxiliary_matches dir)
        (case list_of_json (dig [''auxiliaryFiles''] m) of None \<Rightarrow> [] | Some es \<Rightarrow> es)) (\<lambda>names.
      and_then (inspect_sqlite_database env True db) (\<lambda>i.
      then_do (lift_res (compare_inspection (\<lambda>p. Bad_Artifact (Backup_Mismatch p)) i m))
     (ret \<lparr>vd_inspection = i, vd_manifest = m, vd_sha256 = h,
        vd_created = (case string_of_json (dig [''createdAt''] m) of None \<Rightarrow> [] | Some c \<Rightarrow> c),
        vd_auxiliary = names\<rparr>)))))))))))))"

section \<open>Retention\<close>

definition good_backup :: "backup_env \<Rightarrow> path \<Rightarrow> string \<Rightarrow> (string \<times> string) list backup_io" where
  "good_backup env store name =
     and_then (asks (\<lambda>d. look d (store @ [name]) = Some Directory \<and> take 7 name = ''backup_'')) (\<lambda>b.
     if \<not> b then ret []
     else handle (and_then (validate_sqlite_backup env (store @ [name])) (\<lambda>v. ret [(vd_created v, name)]))
       (\<lambda>e. case e of Os_Error \<Rightarrow> ret [] | Refused _ \<Rightarrow> ret [] | _ \<Rightarrow> raise e))"

record pruned =
  pr_kept :: nat
  pr_known_good :: nat
  pr_removed :: nat
  pr_warning :: bool

definition prune_one :: "path \<Rightarrow> string \<times> string \<Rightarrow> bool backup_io" where
  "prune_one store candidate =
     (if take 7 (snd candidate) \<noteq> ''backup_'' then ret True
      else handle (then_do (remove_tree (store @ [snd candidate])) (ret True))
        (\<lambda>e. if e = Os_Error then ret False else raise e))"

definition prune_known_good_backups :: "backup_env \<Rightarrow> path \<Rightarrow> nat \<Rightarrow> pruned backup_io" where
  "prune_known_good_backups env store keep =
     then_do (check (1 \<le> keep) (Refused (Bad_Request Retention_Too_Small)))
     (and_then (asks (\<lambda>d. look d store = Some Directory)) (\<lambda>b.
      then_do (check b (Refused (Bad_Request Root_Not_Directory)))
     (and_then (asks (\<lambda>d. children d store)) (\<lambda>names.
      and_then (each (good_backup env store) names) (\<lambda>found.
      let valid = rev (sort (concat found)) in
      and_then (each (prune_one store) (drop keep valid)) (\<lambda>gone.
      let removed = length (filter id gone) in
      ret \<lparr>pr_kept = length valid - removed, pr_known_good = length valid, pr_removed = removed,
        pr_warning = (\<not> list_all id gone)\<rparr>))))))"

section \<open>Creation\<close>

fun prepare_auxiliary :: "(string \<times> path) list \<Rightarrow> (string \<times> path) list backup_io" where
  "prepare_auxiliary [] = ret []"
| "prepare_auxiliary ((name, source) # rest) =
     then_do (check (is_safe_artifact_name name \<and> name \<notin> {database_name, manifest_name})
       (Refused (Bad_Request Auxiliary_Name_Invalid)))
     (and_then (asks (\<lambda>d. (present d source, is_file d source))) (\<lambda>(there, file).
      then_do (check (there \<longrightarrow> file) (Refused (Bad_Request Auxiliary_Not_Regular)))
     (and_then (prepare_auxiliary rest) (\<lambda>ps. ret (if file then (name, source) # ps else ps)))))"

definition prepare_auxiliary_sources :: "(string \<times> path) list \<Rightarrow> (string \<times> path) list backup_io" where
  "prepare_auxiliary_sources files =
     then_do (check (length files \<le> max_auxiliary_files) (Refused (Bad_Request Too_Many_Auxiliary)))
       (prepare_auxiliary (sort files))"

definition copy_auxiliary :: "path \<Rightarrow> string \<times> path \<Rightarrow> backup_file backup_io" where
  "copy_auxiliary pending f =
     (let p = pending @ [fst f] in
      then_do (copy_file (snd f) p) (then_do (set_private_mode p) (then_do (fsync_file p)
     (and_then (file_size p) (\<lambda>n. and_then (sha256_file p) (\<lambda>h.
      ret \<lparr>bf_name = fst f, bf_bytes = n, bf_sha256 = h\<rparr>))))))"

definition final_directory :: "path \<Rightarrow> string \<Rightarrow> stamp \<Rightarrow> path" where
  "final_directory store kind s = store @ [kind @ ''_'' @ st_token s]"

definition pending_directory :: "path \<Rightarrow> string \<Rightarrow> stamp \<Rightarrow> path" where
  "pending_directory store kind s = store @ [''.'' @ kind @ ''_'' @ st_token s @ ''.pending'']"

definition build_artifact ::
  "backup_env \<Rightarrow> path \<Rightarrow> path \<Rightarrow> string \<Rightarrow> string \<Rightarrow> stamp \<Rightarrow> (string \<times> path) list
    \<Rightarrow> (inspection \<times> string \<times> backup_file list) backup_io" where
  "build_artifact env source store version kind s aux =
     (let pending = pending_directory store kind s; db = pending @ [database_name] in
      then_do (make_dir pending)
     (then_do (set_private_mode pending)
     (then_do (perform_online_backup env False source db)
     (then_do (set_private_mode db)
     (and_then (inspect_sqlite_database env True db) (\<lambda>i.
      and_then (sha256_file db) (\<lambda>h.
      and_then (each (copy_auxiliary pending) aux) (\<lambda>files.
      and_then (file_size db) (\<lambda>n.
      let m = backup_manifest kind (st_created s) version n h i files in
      then_do (atomic_write (st_token s) (pending @ [manifest_name]) (be_dumps env m, Json m))
     (then_do (set_private_mode (pending @ [manifest_name]))
     (then_do (fsync_file db)
     (then_do (fsync_directory pending)
     (then_do (replace_dir pending (final_directory store kind s))
     (then_do (fsync_directory store)
     (ret (i, h, files))))))))))))))))"

record created_backup =
  cb_directory :: path
  cb_inspection :: inspection
  cb_sha256 :: string
  cb_auxiliary :: "string list"
  cb_pruned :: "pruned option"

definition create_sqlite_backup ::
  "backup_env \<Rightarrow> path \<Rightarrow> path \<Rightarrow> string \<Rightarrow> nat option \<Rightarrow> string \<Rightarrow> stamp \<Rightarrow> (string \<times> path) list
    \<Rightarrow> created_backup backup_io" where
  "create_sqlite_backup env source store version retention kind s files =
     and_then (asks (\<lambda>d. is_file d source)) (\<lambda>b.
     then_do (check b (Refused (Bad_Request Source_Missing)))
     (then_do (check (case retention of None \<Rightarrow> True | Some n \<Rightarrow> 1 \<le> n) (Refused (Bad_Request Retention_Too_Small)))
     (then_do (check (kind = ''backup'' \<or> kind = ''pre_restore'') (Refused (Bad_Request Unknown_Kind)))
     (and_then (prepare_auxiliary_sources files) (\<lambda>aux.
      then_do (check (\<not> list_ex (\<lambda>(_, p). p \<in> {source, wal source, shm source}) aux)
        (Refused (Bad_Request Auxiliary_Is_Live)))
     (then_do (make_dirs store)
     (and_then (lastly
        (handle (build_artifact env source store version kind s aux)
          (\<lambda>e. if e = Type_Error then raise e else raise (Refused Backup_Incomplete)))
        (\<lambda>_. clean_up (pending_directory store kind s) store)) (\<lambda>(i, h, entries).
      and_then (case retention of
          Some n \<Rightarrow> if kind = ''backup'' then and_then (prune_known_good_backups env store n) (\<lambda>p. ret (Some p))
            else ret None
        | None \<Rightarrow> ret None) (\<lambda>p.
      ret \<lparr>cb_directory = final_directory store kind s, cb_inspection = i, cb_sha256 = h,
        cb_auxiliary = map bf_name entries, cb_pruned = p\<rparr>)))))))))"

section \<open>Frames\<close>

lemma touches_lift_res [touch_intros]: "touches S (lift_res r)"
  by (auto simp: lift_res_def intro: touch_intros split: sum.splits)

lemma touches_os_errors_as [touch_intros]: "touches S m \<Longrightarrow> touches S (os_errors_as e m)"
  unfolding os_errors_as_def by (intro touch_intros)

lemma touches_sha256_file [touch_intros]: "touches S (sha256_file p)"
  and touches_file_size [touch_intros]: "touches S (file_size p)"
  and touches_set_private_mode [touch_intros]: "touches S (set_private_mode p)"
  and touches_fsync_file [touch_intros]: "touches S (fsync_file p)"
  and touches_fsync_directory [touch_intros]: "touches S (fsync_directory p)"
  unfolding sha256_file_def file_size_def set_private_mode_def fsync_file_def fsync_directory_def
  by (intro touch_intros)+

definition temporary_of :: "string \<Rightarrow> path \<Rightarrow> path" where
  "temporary_of token p = butlast p @ [''.'' @ last p @ ''.'' @ token @ ''.tmp'']"

lemma touches_atomic_write [touch_intros]:
  "S p \<Longrightarrow> S (temporary_of token p) \<Longrightarrow> touches S (atomic_write token p c)"
  unfolding atomic_write_def Let_def temporary_of_def [symmetric] by (intro touch_intros)

lemma touches_clean_up [touch_intros]:
  "(\<And>q. prefix p q \<Longrightarrow> S q) \<Longrightarrow> touches S (clean_up p store)"
  unfolding clean_up_def remove_incomplete_directory_def by (intro touch_intros) auto

lemma look_fold_put: "look (fold (\<lambda>q. put q n) qs d) p = (if p \<in> set qs then Some n else look d p)"
  by (induction qs arbitrary: d) auto

lemma touches_make_dirs [touch_intros]: "(\<And>q. prefix q p \<Longrightarrow> S q) \<Longrightarrow> touches S (make_dirs p)"
  unfolding make_dirs_def
  by (rule touches_syscall) (auto simp: untouched_def same_outside_def look_fold_put)

lemma touches_open_live [touch_intros]: "S (wal p) \<Longrightarrow> S (shm p) \<Longrightarrow> touches S (open_live env p)"
  by (auto simp: touches_def open_live_def store_side_def same_outside_def split: option.splits prod.splits)

lemma touches_read_database [touch_intros]:
  "(\<not> immutable \<Longrightarrow> S (wal p) \<and> S (shm p)) \<Longrightarrow> touches S (read_database env immutable p)"
  unfolding read_database_def by (cases immutable) (auto intro!: touch_intros)

lemma touches_inspect [touch_intros]:
  "(\<not> immutable \<Longrightarrow> S (wal p) \<and> S (shm p)) \<Longrightarrow> touches S (inspect_sqlite_database env immutable p)"
  unfolding inspect_sqlite_database_def
  by (auto intro!: touch_intros split: option.splits failure.splits)

lemma touches_online_backup [touch_intros]:
  "(\<not> immutable \<Longrightarrow> S (wal p) \<and> S (shm p)) \<Longrightarrow> S q \<Longrightarrow> touches S (perform_online_backup env immutable p q)"
  unfolding perform_online_backup_def by (auto intro!: touch_intros split: option.splits)

lemma touches_load_manifest [touch_intros]: "touches S (load_manifest dir)"
  unfolding load_manifest_def by (auto intro!: touch_intros split: reading.splits)

lemma touches_auxiliary_matches [touch_intros]: "touches S (auxiliary_matches dir e)"
  unfolding auxiliary_matches_def Let_def by (auto intro!: touch_intros)

text \<open>Validation reads only.\<close>

lemma touches_validate [touch_intros]: "touches S (validate_sqlite_backup env dir)"
  unfolding validate_sqlite_backup_def Let_def by (auto intro!: touch_intros split: option.splits prod.splits)

lemma touches_good_backup [touch_intros]: "touches S (good_backup env store name)"
  unfolding good_backup_def by (auto intro!: touch_intros split: failure.splits)

lemma touches_prune_one [touch_intros]:
  "(\<And>q. prefix (store @ [snd c]) q \<Longrightarrow> S q) \<Longrightarrow> touches S (prune_one store c)"
  unfolding prune_one_def by (auto intro!: touch_intros)

lemma touches_copy_auxiliary [touch_intros]: "S (pending @ [fst f]) \<Longrightarrow> touches S (copy_auxiliary pending f)"
  unfolding copy_auxiliary_def Let_def by (auto intro!: touch_intros)

lemma touches_prepare_auxiliary [touch_intros]: "touches S (prepare_auxiliary fs)"
  by (induction fs) (auto intro!: touch_intros)

text \<open>Building an artifact touches its own two directories and the side files of a live source.\<close>

definition artifact_paths :: "path \<Rightarrow> string \<Rightarrow> stamp \<Rightarrow> path \<Rightarrow> bool" where
  "artifact_paths store kind s q \<longleftrightarrow>
     prefix (pending_directory store kind s) q \<or> prefix (final_directory store kind s) q"

definition side_paths :: "path \<Rightarrow> path \<Rightarrow> bool" where
  "side_paths p q \<longleftrightarrow> q = wal p \<or> q = shm p"

lemma touches_build_artifact [touch_intros]:
  assumes "\<And>q. artifact_paths store kind s q \<or> side_paths source q \<Longrightarrow> S q"
  shows "touches S (build_artifact env source store version kind s aux)"
proof -
  have p: "S (pending_directory store kind s @ ps)" and f: "S (final_directory store kind s @ ps)" for ps
    using assms by (auto simp: artifact_paths_def)
  have w: "S (wal source) \<and> S (shm source)" using assms by (auto simp: side_paths_def)
  have p0: "S (pending_directory store kind s)" using p [of "[]"] by simp
  show ?thesis
    unfolding build_artifact_def Let_def temporary_of_def [symmetric]
    using p f w p0 by (auto intro!: touch_intros simp: temporary_of_def prefix_def)
qed

lemma touches_create_without_pruning [touch_intros]:
  assumes "\<And>q. artifact_paths store kind s q \<or> side_paths source q \<or> prefix q store \<Longrightarrow> S q"
  shows "touches S (create_sqlite_backup env source store version None kind s files)"
  unfolding create_sqlite_backup_def prepare_auxiliary_sources_def
  using assms by (auto intro!: touch_intros simp: artifact_paths_def split: prod.splits)

end
