(* ===== verification/Backup_Restore.thy ===== *)
theory Backup_Restore
  imports Backup_Create
begin

text \<open>
  Restoring a backup over a stopped database (\<open>restore_sqlite_backup\<close> of
  \<^verbatim>\<open>backend/backup_restore.py\<close>): the source is staged next to the target, the files at the target
  are preserved, the side files are moved away, the stage replaces the target, and a failed
  activation is rolled back to the preserved files.
\<close>

record restore_names =
  rn_raw :: stamp
  rn_before :: stamp
  rn_stage :: string
  rn_quarantine :: string
  rn_failed :: string
  rn_rollback :: string

record preserved =
  ps_directory :: path
  ps_validated :: bool

definition hidden :: "path \<Rightarrow> string \<Rightarrow> path" where
  "hidden target ext = butlast target @ [''.'' @ last target @ ext]"

definition stage_path :: "path \<Rightarrow> string \<Rightarrow> path" where
  "stage_path target token = hidden target (''.restore-'' @ token @ ''.tmp'')"

definition rollback_path :: "path \<Rightarrow> string \<Rightarrow> path" where
  "rollback_path target token = hidden target (''.rollback-'' @ token @ ''.tmp'')"

definition quarantine_path :: "path \<Rightarrow> string \<Rightarrow> string \<Rightarrow> path" where
  "quarantine_path target ext token = hidden target (ext @ ''.restore-quarantine-'' @ token)"

section \<open>Side files\<close>

definition sqlite_sidecars_exist :: "disk \<Rightarrow> path \<Rightarrow> bool" where
  "sqlite_sidecars_exist d target \<longleftrightarrow> present d (wal target) \<or> present d (shm target)"

definition restore_one :: "path \<times> path \<Rightarrow> unit backup_io" where
  "restore_one m = and_then (asks (\<lambda>d. present d (snd m) \<and> \<not> present d (fst m)))
     (\<lambda>b. if b then handle (replace_file (snd m) (fst m)) (\<lambda>e. if e = Os_Error then ret () else raise e)
       else ret ())"

definition restore_quarantined_sidecars :: "(path \<times> path) list \<Rightarrow> unit backup_io" where
  "restore_quarantined_sidecars moved = and_then (each restore_one (rev moved)) (\<lambda>_. ret ())"

text \<open>The loop of \<open>_quarantine_sidecars\<close> with what it has moved so far; only an \<open>OSError\<close> of the
  move puts the moved files back.\<close>

fun quarantine_each ::
  "path \<Rightarrow> string \<Rightarrow> (path \<times> path) list \<Rightarrow> string list \<Rightarrow> (path \<times> path) list backup_io" where
  "quarantine_each target token moved [] = ret moved"
| "quarantine_each target token moved (ext # exts) =
     and_then (asks (\<lambda>d. present d (sibling target ext))) (\<lambda>b.
     if \<not> b then quarantine_each target token moved exts
     else
       let away = quarantine_path target ext token in
       and_then (handle (replace_file (sibling target ext) away)
         (\<lambda>e. if e = Os_Error
            then then_do (restore_quarantined_sidecars moved) (raise (Refused Sidecar_In_Use)) else raise e))
       (\<lambda>_. then_do (set_private_mode away)
         (quarantine_each target token (moved @ [(sibling target ext, away)]) exts)))"

definition quarantine_sidecars :: "path \<Rightarrow> string \<Rightarrow> (path \<times> path) list backup_io" where
  "quarantine_sidecars target token = quarantine_each target token [] [''-wal'', ''-shm'']"

section \<open>Preserving the files at the target\<close>

definition preserve_one :: "path \<Rightarrow> path \<Rightarrow> backup_file list backup_io" where
  "preserve_one pending source =
     and_then (asks (\<lambda>d. is_file d source)) (\<lambda>b.
     if \<not> b then ret []
     else
       let p = pending @ [last source] in
       then_do (copy_file source p) (then_do (set_private_mode p) (then_do (fsync_file p)
      (and_then (file_size p) (\<lambda>n. and_then (sha256_file p) (\<lambda>h.
       ret [\<lparr>bf_name = last source, bf_bytes = n, bf_sha256 = h\<rparr>]))))))"

definition diagnostic_kind :: string where
  "diagnostic_kind = ''pre_restore_diagnostic''"

definition diagnostic_manifest :: "stamp \<Rightarrow> string \<Rightarrow> backup_file list \<Rightarrow> json" where
  "diagnostic_manifest s version files = JObj
     [(''formatVersion'', JInt format_version), (''status'', JStr ''diagnostic-unvalidated''),
      (''kind'', JStr diagnostic_kind), (''createdAt'', JStr (st_created s)),
      (''deploymentVersion'', JStr (bounded_version version)),
      (''reason'', JStr ''pre-restore-raw-fileset''), (''files'', JList (map file_entry files))]"

definition fileset_of :: "path \<Rightarrow> path list" where
  "fileset_of target = [target, wal target, shm target]"

definition preserve_unvalidated_database ::
  "backup_env \<Rightarrow> path \<Rightarrow> path \<Rightarrow> string \<Rightarrow> stamp \<Rightarrow> path backup_io" where
  "preserve_unvalidated_database env target store version s =
     (let pending = pending_directory store diagnostic_kind s;
          final = final_directory store diagnostic_kind s in
      then_do (lastly
        (handle
          (then_do (make_dir pending)
          (then_do (set_private_mode pending)
          (and_then (each (preserve_one pending) (fileset_of target)) (\<lambda>files.
           then_do (check (concat files \<noteq> []) (Refused Not_Preserved))
          (let m = diagnostic_manifest s version (concat files) in
           then_do (atomic_write (st_token s) (pending @ [manifest_name]) (be_dumps env m, Json m))
          (then_do (set_private_mode (pending @ [manifest_name]))
          (then_do (fsync_directory pending)
          (then_do (replace_dir pending final)
          (fsync_directory store)))))))))
          (\<lambda>e. case e of Os_Error \<Rightarrow> raise (Refused Not_Preserved) | Refused _ \<Rightarrow> raise (Refused Not_Preserved)
             | _ \<Rightarrow> raise e))
        (\<lambda>_. clean_up pending store))
      (ret final))"

section \<open>Preparing and switching\<close>

definition checkpoint_target_for_switch :: "backup_env \<Rightarrow> path \<Rightarrow> unit backup_io" where
  "checkpoint_target_for_switch env target =
     os_errors_as (Refused Target_Not_Prepared) (and_then (read_file target) (\<lambda>c.
     and_then (asks (\<lambda>d. be_checkpoint env (fst c) (bytes_at d (wal target), bytes_at d (shm target))))
       (\<lambda>(bs, (w, s), result).
        then_do (\<lambda>d. (Inr (), store_side (shm target) s (store_side (wal target) w
            (put target (Plain bs (if bs = fst c then snd c else Not_Json)) d))))
        (case result of
           Inl _ \<Rightarrow> raise (Refused Target_Not_Prepared)
         | Inr busy \<Rightarrow> check (busy \<in> {None, Some 0}) (Refused Target_Busy)))))"

definition stage_source ::
  "backup_env \<Rightarrow> path \<Rightarrow> path \<Rightarrow> validated \<Rightarrow> int \<Rightarrow> unit backup_io" where
  "stage_source env source stage v expected =
     then_do (perform_online_backup env True source stage)
     (then_do (set_private_mode stage)
     (and_then (inspect_sqlite_database env True stage) (\<lambda>i.
      then_do (lift_res (verify_inspection_against_manifest i (vd_manifest v)))
     (and_then (sha256_file stage) (\<lambda>h.
      then_do (check (h = vd_sha256 v) (Refused Stage_Bytes_Differ))
     (check (in_version i = expected) (Refused Unexpected_Stage_Version)))))))"

text \<open>The raw files are preserved first; a current database that is valid gets a proper backup
  and a checkpoint. The result: the directory of the raw files, and what is reported as preserved.\<close>

definition preserve_current ::
  "backup_env \<Rightarrow> path \<Rightarrow> path \<Rightarrow> string \<Rightarrow> restore_names \<Rightarrow> int \<Rightarrow> bool
    \<Rightarrow> (path option \<times> preserved option) backup_io" where
  "preserve_current env target store version names expected existed =
     and_then (asks (\<lambda>d. existed \<or> sqlite_sidecars_exist d target)) (\<lambda>b.
     and_then (if b then and_then (preserve_unvalidated_database env target store version (rn_raw names))
         (\<lambda>p. ret (Some p)) else ret None) (\<lambda>raw.
     if \<not> existed then ret (raw, map_option (\<lambda>p. \<lparr>ps_directory = p, ps_validated = False\<rparr>) raw)
     else
       and_then (handle (and_then (inspect_sqlite_database env False target) (\<lambda>i. ret (Some i)))
         (\<lambda>e. case e of Refused _ \<Rightarrow> ret None | _ \<Rightarrow> raise e)) (\<lambda>current.
       case current of
         None \<Rightarrow> ret (raw, map_option (\<lambda>p. \<lparr>ps_directory = p, ps_validated = False\<rparr>) raw)
       | Some i \<Rightarrow>
           then_do (check (in_version i = expected) (Refused Versions_Differ))
          (and_then (create_sqlite_backup env target store version None ''pre_restore'' (rn_before names) [])
            (\<lambda>made. then_do (checkpoint_target_for_switch env target)
              (ret (raw, Some \<lparr>ps_directory = cb_directory made, ps_validated = True\<rparr>)))))))"

definition restore_preserved_sidecar :: "path \<Rightarrow> path \<Rightarrow> string \<Rightarrow> unit backup_io" where
  "restore_preserved_sidecar dir target ext =
     (let kept = dir @ [last target @ ext]; side = sibling target ext in
      and_then (asks (\<lambda>d. is_file d kept)) (\<lambda>b.
      if b then then_do (copy_file kept side) (then_do (set_private_mode side) (fsync_file side)) else ret ()))"

definition put_back_database :: "path \<Rightarrow> path option \<Rightarrow> string \<Rightarrow> unit backup_io" where
  "put_back_database target dir token =
     (case dir of
        None \<Rightarrow> raise (Refused Fileset_Unavailable)
      | Some dir \<Rightarrow>
          (let kept = dir @ [last target]; temporary = rollback_path target token in
           and_then (asks (\<lambda>d. is_file d kept)) (\<lambda>b.
           then_do (check b (Refused Preserved_Database_Missing))
          (handle
            (then_do (copy_file kept temporary)
            (then_do (set_private_mode temporary)
            (then_do (fsync_file temporary)
            (replace_file temporary target))))
            (\<lambda>e. then_do (unlink temporary) (raise e))))))"

definition rollback_failed_activation ::
  "path \<Rightarrow> bool \<Rightarrow> path option \<Rightarrow> (path \<times> path) list \<Rightarrow> restore_names \<Rightarrow> unit backup_io" where
  "rollback_failed_activation target existed raw moved names =
     and_then (quarantine_sidecars target (rn_failed names)) (\<lambda>failed.
     then_do (each (\<lambda>m. unlink (snd m)) failed)
    (then_do (if existed then put_back_database target raw (rn_rollback names) else unlink target)
    (then_do (case raw of None \<Rightarrow> ret [] | Some dir \<Rightarrow> each (restore_preserved_sidecar dir target) [''-wal'', ''-shm''])
    (then_do (each (\<lambda>m. unlink (snd m)) moved)
    (fsync_directory (butlast target))))))"

definition discard_quarantine :: "path \<times> path \<Rightarrow> bool backup_io" where
  "discard_quarantine m =
     handle (then_do (unlink (snd m)) (ret False)) (\<lambda>e. if e = Os_Error then ret True else raise e)"

text \<open>Everything after the switch; the results are the inspection of the new database and whether
  a quarantined side file was kept.\<close>

definition confirm_activation ::
  "backup_env \<Rightarrow> path \<Rightarrow> validated \<Rightarrow> (path \<times> path) list \<Rightarrow> (inspection \<times> bool) backup_io" where
  "confirm_activation env target v moved =
     then_do (fsync_directory (butlast target))
    (and_then (sha256_file target) (\<lambda>h.
     then_do (check (h = vd_sha256 v) (Refused Activated_Bytes_Differ))
    (and_then (inspect_sqlite_database env True target) (\<lambda>i.
     then_do (lift_res (verify_inspection_against_manifest i (vd_manifest v)))
    (and_then (each discard_quarantine moved) (\<lambda>kept. ret (i, list_ex id kept)))))))"

definition before_switch_errors :: "'a backup_io \<Rightarrow> 'a backup_io" where
  "before_switch_errors m = handle m (\<lambda>e. case e of
     Refused _ \<Rightarrow> raise e | Type_Error \<Rightarrow> raise e | _ \<Rightarrow> raise (Refused Not_Activated))"

definition remove_stage :: "path \<Rightarrow> unit backup_io" where
  "remove_stage stage =
     then_do (unlink stage) (then_do (unlink (sibling stage ''-wal'')) (unlink (sibling stage ''-shm'')))"

definition activate_or_roll_back ::
  "backup_env \<Rightarrow> path \<Rightarrow> validated \<Rightarrow> bool \<Rightarrow> path option \<Rightarrow> (path \<times> path) list \<Rightarrow> restore_names
    \<Rightarrow> (inspection \<times> bool) backup_io" where
  "activate_or_roll_back env target v existed raw moved names =
     handle (confirm_activation env target v moved) (\<lambda>e.
       if e = Type_Error then raise e
       else then_do
         (handle (rollback_failed_activation target existed raw moved names)
           (\<lambda>e'. case e' of Os_Error \<Rightarrow> raise (Refused Rollback_Failed) | Refused _ \<Rightarrow> raise (Refused Rollback_Failed)
              | _ \<Rightarrow> raise e'))
         (raise (Refused Rolled_Back)))"

record restored =
  re_inspection :: inspection
  re_sha256 :: string
  re_raw :: "path option"
  re_preserved :: "preserved option"
  re_retained :: bool

definition switch_database ::
  "backup_env \<Rightarrow> path \<Rightarrow> path \<Rightarrow> path \<Rightarrow> path \<Rightarrow> string \<Rightarrow> restore_names \<Rightarrow> validated \<Rightarrow> int \<Rightarrow> bool
    \<Rightarrow> restored backup_io" where
  "switch_database env source target store stage version names v expected existed =
     lastly
      (and_then (before_switch_errors (then_do (stage_source env source stage v expected)
          (preserve_current env target store version names expected existed))) (\<lambda>(raw, kept).
       and_then (before_switch_errors (quarantine_sidecars target (rn_quarantine names))) (\<lambda>moved.
       then_do (handle (before_switch_errors (then_do (fsync_file stage) (replace_file stage target)))
          (\<lambda>e. then_do (restore_quarantined_sidecars moved) (raise e)))
      (and_then (activate_or_roll_back env target v existed raw moved names) (\<lambda>(i, retained).
       ret \<lparr>re_inspection = i, re_sha256 = vd_sha256 v, re_raw = raw, re_preserved = kept,
         re_retained = retained\<rparr>)))))
      (\<lambda>_. remove_stage stage)"

definition restore_sqlite_backup ::
  "backup_env \<Rightarrow> path \<Rightarrow> path \<Rightarrow> path \<Rightarrow> string \<Rightarrow> bool \<Rightarrow> int \<Rightarrow> restore_names \<Rightarrow> restored backup_io" where
  "restore_sqlite_backup env artifact target store version writes_stopped expected names =
     then_do (check writes_stopped (Refused (Bad_Request Writes_Not_Stopped)))
    (then_do (check (minimum_schema_version \<le> expected) (Refused (Bad_Request Expected_Version_Low)))
    (and_then (validate_sqlite_backup env artifact) (\<lambda>v.
     then_do (check (in_version (vd_inspection v) = expected) (Refused (Bad_Request Unexpected_Source_Version)))
    (and_then (asks (\<lambda>d. look d target)) (\<lambda>node.
     then_do (check (node \<noteq> Some Link) (Refused (Bad_Request Target_Is_Link)))
    (then_do (check (target \<noteq> artifact @ [database_name]) (Refused (Bad_Request Target_Is_Source)))
    (then_do (check (node \<noteq> Some Directory) (Refused (Bad_Request Target_Not_Regular)))
    (and_then (asks (\<lambda>d. look d (butlast target) = Some Directory)) (\<lambda>b.
     then_do (check b (Refused (Bad_Request Target_Directory_Missing)))
    (then_do (make_dirs store)
    (switch_database env (artifact @ [database_name]) target store (stage_path target (rn_stage names))
       version names v expected (node \<noteq> None))))))))))))"

section \<open>What the restore touches\<close>

lemma touches_restore_quarantined [touch_intros]:
  "(\<And>m. m \<in> set moved \<Longrightarrow> S (fst m) \<and> S (snd m)) \<Longrightarrow> touches S (restore_quarantined_sidecars moved)"
  unfolding restore_quarantined_sidecars_def restore_one_def by (auto intro!: touch_intros)

lemma touches_quarantine_each [touch_intros]:
  "(\<And>m. m \<in> set moved \<Longrightarrow> S (fst m) \<and> S (snd m))
   \<Longrightarrow> (\<And>ext. ext \<in> set exts \<Longrightarrow> S (sibling target ext) \<and> S (quarantine_path target ext token))
   \<Longrightarrow> touches S (quarantine_each target token moved exts)"
proof (induction exts arbitrary: moved)
  case (Cons a exts)
  have step: "touches S (quarantine_each target token (moved @ [(sibling target a, quarantine_path target a token)]) exts)"
  proof (rule Cons.IH)
    fix m assume "m \<in> set (moved @ [(sibling target a, quarantine_path target a token)])"
    then show "S (fst m) \<and> S (snd m)" using Cons.prems(1) [of m] Cons.prems(2) [of a] by auto
  qed (use Cons.prems(2) in simp)
  have skip: "touches S (quarantine_each target token moved exts)"
    by (rule Cons.IH) (use Cons.prems in simp_all)
  show ?case
    unfolding quarantine_each.simps Let_def
    by (intro touch_intros step skip) (use Cons.prems in auto)
qed (simp add: touch_intros)

definition quarantine_paths :: "path \<Rightarrow> string \<Rightarrow> path \<Rightarrow> bool" where
  "quarantine_paths target token q \<longleftrightarrow>
     q = quarantine_path target ''-wal'' token \<or> q = quarantine_path target ''-shm'' token"

lemma touches_quarantine [touch_intros]:
  assumes "\<And>q. side_paths target q \<or> quarantine_paths target token q \<Longrightarrow> S q"
  shows "touches S (quarantine_sidecars target token)"
  unfolding quarantine_sidecars_def
proof (rule touches_quarantine_each)
  fix ext assume "ext \<in> set [''-wal'', ''-shm'']"
  then have "side_paths target (sibling target ext)" "quarantine_paths target token (quarantine_path target ext token)"
    by (auto simp: side_paths_def quarantine_paths_def wal_def shm_def)
  then show "S (sibling target ext) \<and> S (quarantine_path target ext token)" using assms by blast
qed simp

lemma touches_preserve_one [touch_intros]: "S (pending @ [last p]) \<Longrightarrow> touches S (preserve_one pending p)"
  unfolding preserve_one_def Let_def by (auto intro!: touch_intros)

lemma touches_preserve_unvalidated [touch_intros]:
  assumes "\<And>q. artifact_paths store diagnostic_kind s q \<Longrightarrow> S q"
  shows "touches S (preserve_unvalidated_database env target store version s)"
proof -
  have p: "S (pending_directory store diagnostic_kind s @ ps)" for ps
    using assms by (auto simp: artifact_paths_def)
  have p0: "S (pending_directory store diagnostic_kind s)" using p [of "[]"] by simp
  show ?thesis
    unfolding preserve_unvalidated_database_def Let_def
    using p p0 assms
    by (auto intro!: touch_intros simp: artifact_paths_def temporary_of_def split: failure.splits)
qed

lemma touches_checkpoint [touch_intros]:
  assumes "S target" and "\<And>q. side_paths target q \<Longrightarrow> S q"
  shows "touches S (checkpoint_target_for_switch env target)"
proof -
  have step: "touches S (\<lambda>d. (Inr (), store_side (shm target) s (store_side (wal target) w (put target n d))))" for s w n
    using assms by (auto simp: touches_def same_outside_def store_side_def side_paths_def split: option.splits)
  show ?thesis
    unfolding checkpoint_target_for_switch_def
    by (auto intro!: touch_intros step split: prod.splits sum.splits)
qed

lemma touches_stage_source [touch_intros]: "S stage \<Longrightarrow> touches S (stage_source env source stage v expected)"
  unfolding stage_source_def by (auto intro!: touch_intros)

lemma touches_preserve_current [touch_intros]:
  assumes "\<And>q. artifact_paths store diagnostic_kind (rn_raw names) q \<or> artifact_paths store ''pre_restore'' (rn_before names) q
     \<or> side_paths target q \<or> q = target \<or> prefix q store \<Longrightarrow> S q"
  shows "touches S (preserve_current env target store version names expected existed)"
proof -
  have raw: "touches S (preserve_unvalidated_database env target store version (rn_raw names))"
    using assms by (intro touch_intros) blast
  have before: "touches S (create_sqlite_backup env target store version None ''pre_restore'' (rn_before names) [])"
    using assms by (intro touch_intros) blast
  have chk: "touches S (checkpoint_target_for_switch env target)"
    using assms by (intro touch_intros) blast+
  have "S (wal target) \<and> S (shm target)" using assms by (simp add: side_paths_def)
  then have look: "touches S (inspect_sqlite_database env False target)" by (intro touch_intros) simp
  show ?thesis
    unfolding preserve_current_def
    by (intro touch_intros raw before chk look | auto intro!: touch_intros raw before chk look split: option.splits failure.splits)+
qed

lemma touches_put_back [touch_intros]:
  "S target \<Longrightarrow> S (rollback_path target token) \<Longrightarrow> touches S (put_back_database target dir token)"
  unfolding put_back_database_def Let_def by (auto intro!: touch_intros split: option.splits)

lemma touches_restore_preserved [touch_intros]:
  "S (sibling target ext) \<Longrightarrow> touches S (restore_preserved_sidecar dir target ext)"
  unfolding restore_preserved_sidecar_def Let_def by (auto intro!: touch_intros)

lemma wp_quarantine_moved:
  "wp (quarantine_each target token moved exts) (\<lambda>moved' _. \<forall>m \<in> set moved'. m \<in> set moved
     \<or> (\<exists>ext \<in> set exts. m = (sibling target ext, quarantine_path target ext token))) (\<lambda>_ _. True) d"
proof (induction exts arbitrary: moved d)
  case (Cons a exts)
  show ?case
    unfolding quarantine_each.simps Let_def
    by (intro wp_seq_any wp_if) (auto intro!: wp_mono [OF Cons.IH])
qed (simp add: wp_rules)

lemma touches_rollback [touch_intros]:
  assumes "S target" and "S (rollback_path target (rn_rollback names))"
    and "\<And>q. side_paths target q \<or> quarantine_paths target (rn_failed names) q \<Longrightarrow> S q"
    and "\<And>m. m \<in> set moved \<Longrightarrow> S (snd m)"
  shows "touches S (rollback_failed_activation target existed raw moved names)"
proof -
  let ?P = "\<lambda>failed. \<forall>m \<in> set failed. side_paths target (fst m) \<and> quarantine_paths target (rn_failed names) (snd m)"
  have moved: "wp (quarantine_sidecars target (rn_failed names)) (\<lambda>failed _. ?P failed) (\<lambda>_ _. True) d" for d
    unfolding quarantine_sidecars_def
    by (rule wp_mono [OF wp_quarantine_moved]) (auto simp: side_paths_def quarantine_paths_def wal_def shm_def)
  have sides: "S (sibling target ext)" if "ext \<in> set [''-wal'', ''-shm'']" for ext
    using that assms(3) [of "sibling target ext"] by (auto simp: side_paths_def wal_def shm_def)
  show ?thesis
    unfolding rollback_failed_activation_def
  proof (rule touches_and_then_result [OF _ moved])
    show "touches S (quarantine_sidecars target (rn_failed names))"
      using assms(3) by (intro touch_intros) blast
    fix failed assume P: "?P failed"
    have "touches S (each (\<lambda>m. unlink (snd m)) failed)"
      using P assms(3) by (intro touch_intros) blast
    moreover have "touches S (each (\<lambda>m. unlink (snd m)) moved)"
      using assms(4) by (intro touch_intros)
    moreover have "touches S (each (restore_preserved_sidecar dir target) [''-wal'', ''-shm''])" for dir
      using sides by (intro touches_each touches_restore_preserved)
    ultimately show "touches S (then_do (each (\<lambda>m. unlink (snd m)) failed)
        (then_do (if existed then put_back_database target raw (rn_rollback names) else unlink target)
        (then_do (case raw of None \<Rightarrow> ret [] | Some dir \<Rightarrow> each (restore_preserved_sidecar dir target) [''-wal'', ''-shm''])
        (then_do (each (\<lambda>m. unlink (snd m)) moved) (fsync_directory (butlast target))))))"
      using assms(1,2) by (cases raw) (auto intro!: touches_and_then touches_put_back touches_calls(5)
          touches_fsync_directory touches_ret simp del: each.simps)
  qed
qed

lemma touches_confirm [touch_intros]:
  "(\<And>m. m \<in> set moved \<Longrightarrow> S (snd m)) \<Longrightarrow> touches S (confirm_activation env target v moved)"
  unfolding confirm_activation_def discard_quarantine_def by (auto intro!: touch_intros)

lemma touches_remove_stage [touch_intros]:
  "S stage \<Longrightarrow> S (sibling stage ''-wal'') \<Longrightarrow> S (sibling stage ''-shm'') \<Longrightarrow> touches S (remove_stage stage)"
  unfolding remove_stage_def by (auto intro!: touch_intros)

section \<open>Where things lie\<close>

definition artifact_dirs :: "path \<Rightarrow> restore_names \<Rightarrow> path list" where
  "artifact_dirs store names =
     [pending_directory store diagnostic_kind (rn_raw names), final_directory store diagnostic_kind (rn_raw names),
      pending_directory store ''pre_restore'' (rn_before names), final_directory store ''pre_restore'' (rn_before names)]"

text \<open>The target and its side files are not inside the new artifact directories, the artifact
  directories differ, the backup root is not below the target, and the database does not have the
  name of a manifest or of its temporary file.\<close>

definition apart :: "path \<Rightarrow> path \<Rightarrow> restore_names \<Rightarrow> bool" where
  "apart target store names \<longleftrightarrow>
     target \<noteq> [] \<and> distinct (artifact_dirs store names)
     \<and> list_all (\<lambda>p. \<not> prefix p store \<and> list_all (\<lambda>dir. \<not> prefix dir p) (artifact_dirs store names)
         \<and> last p \<noteq> manifest_name \<and> last p \<noteq> ''.'' @ manifest_name @ ''.'' @ st_token (rn_raw names) @ ''.tmp'')
       (fileset_of target)"

lemma prefix_sibling_dirs [simp]:
  "prefix (store @ [a]) (store @ [b]) \<longleftrightarrow> a = b"
  "prefix (store @ [a]) (store @ b # bs) \<longleftrightarrow> a = b"
  by auto

lemma pending_not_final: "\<not> prefix (pending_directory store k s) (final_directory store k s @ ps)"
  and final_not_pending: "\<not> prefix (final_directory store k s) (pending_directory store k s @ ps)"
proof -
  have "length (''.'' @ k @ ''_'' @ st_token s @ ''.pending'') \<noteq> length (k @ ''_'' @ st_token s)" by simp
  then have "''.'' @ k @ ''_'' @ st_token s @ ''.pending'' \<noteq> k @ ''_'' @ st_token s" by metis
  then show "\<not> prefix (pending_directory store k s) (final_directory store k s @ ps)"
    "\<not> prefix (final_directory store k s) (pending_directory store k s @ ps)"
    unfolding pending_directory_def final_directory_def by auto
qed

lemma sibling_paths:
  assumes "p \<noteq> []"
  shows "sibling p e = sibling p e' \<longleftrightarrow> e = e'" "sibling p e = p \<longleftrightarrow> e = []"
    "last (sibling p e) = last p @ e" "butlast (sibling p e) = butlast p" "sibling p e \<noteq> []"
    "hidden p e = hidden p e' \<longleftrightarrow> e = e'"
proof -
  have p: "p = butlast p @ [last p]" using assms by simp
  show "sibling p e = p \<longleftrightarrow> e = []"
    unfolding sibling_def by (subst (2) p) simp
qed (auto simp: sibling_def hidden_def)

lemma hidden_not_sibling:
  assumes "length e \<le> length e'"
  shows "sibling p e \<noteq> hidden p e'"
proof -
  have "length (last p @ e) < length (''.'' @ last p @ e')" using assms by simp
  then have "last p @ e \<noteq> ''.'' @ last p @ e'" by (metis less_irrefl)
  then show ?thesis by (simp add: sibling_def hidden_def)
qed

lemma hidden_not_self: "p \<noteq> [] \<Longrightarrow> hidden p e \<noteq> p"
  using hidden_not_sibling [of "[]" e p] sibling_paths(2) [of p "[]"] by auto

lemma quarantine_not_sibling:
  "length e \<le> 20 \<Longrightarrow> sibling p e \<noteq> quarantine_path p e' token"
  unfolding quarantine_path_def by (rule hidden_not_sibling) simp

lemma quarantine_not_self: "p \<noteq> [] \<Longrightarrow> quarantine_path p e token \<noteq> p"
  unfolding quarantine_path_def by (rule hidden_not_self)

lemma hidden_not_fileset:
  assumes "p \<noteq> []" and "q \<in> set (fileset_of p)" and "4 \<le> length e"
  shows "hidden p e \<noteq> q"
proof -
  have "hidden p e \<noteq> p" using assms(1) by (rule hidden_not_self)
  moreover have "wal p \<noteq> hidden p e" "shm p \<noteq> hidden p e"
    unfolding wal_def shm_def using assms(3) by (intro hidden_not_sibling; simp)+
  ultimately show ?thesis using assms(2) by (auto simp: fileset_of_def)
qed

lemma hidden_names_not_fileset:
  assumes "p \<noteq> []" and "q \<in> set (fileset_of p)"
  shows "rollback_path p token \<noteq> q" "stage_path p token \<noteq> q" "quarantine_path p e token \<noteq> q"
  unfolding rollback_path_def stage_path_def quarantine_path_def
  by (rule hidden_not_fileset [OF assms], simp)+

lemma fileset_names:
  assumes "p \<noteq> []" shows "distinct (map last (fileset_of p))"
  using sibling_paths(3) [OF assms] by (simp add: fileset_of_def wal_def shm_def)

end
