(* ===== verification/Backup_Rollback.thy ===== *)
theory Backup_Rollback
  imports Backup_Restore
begin

text \<open>
  The preservation of the files at the target and the rollback: what \<open>preserve_unvalidated_database\<close>
  copies is what \<open>rollback_failed_activation\<close> puts back, byte for byte, and which errors each part of the
  restore can end with.
\<close>

section \<open>The preserved files\<close>

definition kept :: "path \<Rightarrow> path \<Rightarrow> (path \<Rightarrow> node option) \<Rightarrow> disk \<Rightarrow> bool" where
  "kept dir target old d \<longleftrightarrow> (\<forall>q \<in> set (fileset_of target). look d (dir @ [last q]) = old q)"

lemma kept_frame:
  "kept dir target old d \<Longrightarrow> same_outside S d d' \<Longrightarrow> (\<And>q. prefix dir q \<Longrightarrow> \<not> S q) \<Longrightarrow> kept dir target old d'"
  by (simp add: kept_def same_outside_def)

lemma wp_preserve_one:
  "wp (preserve_one pending q)
     (\<lambda>_ d'. look d' = (if is_file d q then (look d)(pending @ [last q] := look d q) else look d)) (\<lambda>_ _. True) d"
proof (cases "is_file d q")
  case True
  have rest: "wp (then_do (set_private_mode p) (then_do (fsync_file p)
      (and_then (file_size p) (\<lambda>n. and_then (sha256_file p) (\<lambda>h. ret [\<lparr>bf_name = last q, bf_bytes = n, bf_sha256 = h\<rparr>])))))
      (\<lambda>_ d'. look d' = look d1) (\<lambda>_ _. True) d1" for p d1
    by (rule wp_reads) (intro touch_intros)
  have "wp (then_do (copy_file q (pending @ [last q])) (then_do (set_private_mode (pending @ [last q]))
      (then_do (fsync_file (pending @ [last q])) (and_then (file_size (pending @ [last q]))
        (\<lambda>n. and_then (sha256_file (pending @ [last q])) (\<lambda>h. ret [\<lparr>bf_name = last q, bf_bytes = n, bf_sha256 = h\<rparr>]))))))
      (\<lambda>_ d'. look d' = (look d)(pending @ [last q] := look d q)) (\<lambda>_ _. True) d"
    by (rule wp_seq [OF wp_copy_file], rule wp_mono [OF rest]) auto
  then show ?thesis
    by (simp add: preserve_one_def Let_def wp_asks True wp_and_then)
qed (simp add: preserve_one_def wp_rules)

lemma wp_preserve_each:
  assumes "distinct (map last qs)" and "\<And>q. q \<in> set qs \<Longrightarrow> \<not> prefix pending q"
  shows "wp (each (preserve_one pending) qs)
     (\<lambda>_ d'. (\<forall>q \<in> set qs. look d' (pending @ [last q]) = (if is_file d q then look d q else look d (pending @ [last q])))
        \<and> same_outside (\<lambda>r. \<exists>q \<in> set qs. r = pending @ [last q]) d d') (\<lambda>_ _. True) d"
  using assms
proof (induction qs arbitrary: d)
  case (Cons p qs)
  have not_in: "q \<noteq> pending @ [last p]" if "q \<in> set qs" for q
    using Cons.prems(2) [of q] that by auto
  have other: "last q \<noteq> last p" if "q \<in> set qs" for q
    using Cons.prems(1) that by (metis distinct.simps(2) image_eqI list.set_map list.simps(9))
  show ?case
    unfolding each.simps
  proof (rule wp_seq [OF wp_preserve_one], rule wp_seq)
    fix d1 assume d1: "look d1 = (if is_file d p then (look d)(pending @ [last p] := look d p) else look d)"
    show "wp (each (preserve_one pending) qs)
        (\<lambda>_ d'. (\<forall>q \<in> set qs. look d' (pending @ [last q]) = (if is_file d1 q then look d1 q else look d1 (pending @ [last q])))
          \<and> same_outside (\<lambda>r. \<exists>q \<in> set qs. r = pending @ [last q]) d1 d') (\<lambda>_ _. True) d1"
      using Cons.prems by (intro Cons.IH) auto
    fix ys d2
    assume d2: "(\<forall>q \<in> set qs. look d2 (pending @ [last q]) = (if is_file d1 q then look d1 q else look d1 (pending @ [last q])))
          \<and> same_outside (\<lambda>r. \<exists>q \<in> set qs. r = pending @ [last q]) d1 d2"
    have p: "look d2 (pending @ [last p]) = look d1 (pending @ [last p])"
    proof -
      have "\<not> (\<exists>q \<in> set qs. pending @ [last p] = pending @ [last q])" using other by (metis last_snoc)
      then show ?thesis using conjunct2 [OF d2] unfolding same_outside_def by blast
    qed
    have q: "look d1 q = look d q" "is_file d1 q = is_file d q" if "q \<in> set qs" for q
      using d1 not_in [OF that] by (auto simp: is_file_def)
    have pq: "look d1 (pending @ [last q]) = look d (pending @ [last q])" if "q \<in> set qs" for q
      using d1 other [OF that] by auto
    show "wp (ret (y # ys)) (\<lambda>_ d'. (\<forall>q \<in> set (p # qs). look d' (pending @ [last q])
            = (if is_file d q then look d q else look d (pending @ [last q])))
          \<and> same_outside (\<lambda>r. \<exists>q \<in> set (p # qs). r = pending @ [last q]) d d') (\<lambda>_ _. True) d2" for y
      unfolding wp_ret
    proof (intro conjI ballI)
      fix r assume "r \<in> set (p # qs)"
      then consider "r = p" | "r \<in> set qs" by auto
      then show "look d2 (pending @ [last r]) = (if is_file d r then look d r else look d (pending @ [last r]))"
      proof cases
        case 1
        then show ?thesis using p d1 by simp
      next
        case 2
        then show ?thesis using bspec [OF conjunct1 [OF d2] 2] q [OF 2] pq [OF 2] by simp
      qed
    next
      have "same_outside (\<lambda>r. \<exists>q \<in> set (p # qs). r = pending @ [last q]) d d1"
        using d1 by (auto simp: same_outside_def)
      moreover have "same_outside (\<lambda>r. \<exists>q \<in> set (p # qs). r = pending @ [last q]) d1 d2"
        using d2 by (auto intro: same_outside_mono)
      ultimately show "same_outside (\<lambda>r. \<exists>q \<in> set (p # qs). r = pending @ [last q]) d d2"
        by (rule same_outside_trans)
    qed
  qed
qed (simp add: wp_rules)

lemma wp_preserve_unvalidated:
  assumes "apart target store names" and "unused d (pending_directory store diagnostic_kind (rn_raw names))"
  shows "wp (preserve_unvalidated_database env target store version (rn_raw names))
     (\<lambda>dir d'. dir = final_directory store diagnostic_kind (rn_raw names)
        \<and> kept dir target (\<lambda>q. if is_file d q then look d q else None) d') (\<lambda>_ _. True) d"
proof -
  define pending where "pending = pending_directory store diagnostic_kind (rn_raw names)"
  define final where "final = final_directory store diagnostic_kind (rn_raw names)"
  define old where "old = (\<lambda>q. if is_file d q then look d q else None)"
  have ne: "target \<noteq> []" using assms(1) by (simp add: apart_def)
  have outside: "\<not> prefix pending q" and names: "last q \<noteq> manifest_name"
      "last q \<noteq> ''.'' @ manifest_name @ ''.'' @ st_token (rn_raw names) @ ''.tmp''"
    if "q \<in> set (fileset_of target)" for q
    using assms(1) that by (auto simp: apart_def artifact_dirs_def pending_def list_all_iff)
  have body: "wp (then_do (make_dir pending)
          (then_do (set_private_mode pending)
          (and_then (each (preserve_one pending) (fileset_of target)) (\<lambda>files.
           then_do (check (concat files \<noteq> []) (Refused Not_Preserved))
          (let m = diagnostic_manifest (rn_raw names) version (concat files) in
           then_do (atomic_write (st_token (rn_raw names)) (pending @ [manifest_name]) (be_dumps env m, Json m))
          (then_do (set_private_mode (pending @ [manifest_name]))
          (then_do (fsync_directory pending)
          (then_do (replace_dir pending final)
          (fsync_directory store)))))))))
     (\<lambda>_ d'. kept final target old d') (\<lambda>_ _. True) d"
  proof (rule wp_seq [OF wp_make_dir], rule wp_seq [OF wp_reads])
    fix d1 d2 assume d1: "look d1 = (look d)(pending \<mapsto> Directory) \<and> look d pending = None" and d2: "look d2 = look d1"
    have start: "look d2 q = look d q" "is_file d2 q = is_file d q" "look d2 (pending @ [last q]) = None"
      if "q \<in> set (fileset_of target)" for q
      using outside [OF that] d1 d2 assms(2) by (auto simp: is_file_def unused_look pending_def)
    show "wp (and_then (each (preserve_one pending) (fileset_of target)) (\<lambda>files.
           then_do (check (concat files \<noteq> []) (Refused Not_Preserved))
          (let m = diagnostic_manifest (rn_raw names) version (concat files) in
           then_do (atomic_write (st_token (rn_raw names)) (pending @ [manifest_name]) (be_dumps env m, Json m))
          (then_do (set_private_mode (pending @ [manifest_name]))
          (then_do (fsync_directory pending)
          (then_do (replace_dir pending final)
          (fsync_directory store))))))) (\<lambda>_ d'. kept final target old d') (\<lambda>_ _. True) d2"
    proof (rule wp_seq [OF wp_preserve_each [OF fileset_names [OF ne] outside]])
      fix files d3
      assume d3: "(\<forall>q \<in> set (fileset_of target). look d3 (pending @ [last q])
            = (if is_file d2 q then look d2 q else look d2 (pending @ [last q])))
          \<and> same_outside (\<lambda>r. \<exists>q \<in> set (fileset_of target). r = pending @ [last q]) d2 d3"
      then have k: "kept pending target old d3" using start by (simp add: kept_def old_def)
      let ?S = "\<lambda>q. q = pending @ [manifest_name] \<or> q = temporary_of (st_token (rn_raw names)) (pending @ [manifest_name])"
      have free: "\<not> ?S (pending @ [last q])" if "q \<in> set (fileset_of target)" for q
        using names [OF that] by (simp add: temporary_of_def)
      have keep: "kept pending target old d5" if "kept pending target old d4" "same_outside ?S d4 d5" for d4 d5
        using that free unfolding kept_def same_outside_def by metis
      show "wp (then_do (check (concat files \<noteq> []) (Refused Not_Preserved))
          (let m = diagnostic_manifest (rn_raw names) version (concat files) in
           then_do (atomic_write (st_token (rn_raw names)) (pending @ [manifest_name]) (be_dumps env m, Json m))
          (then_do (set_private_mode (pending @ [manifest_name]))
          (then_do (fsync_directory pending)
          (then_do (replace_dir pending final)
          (fsync_directory store)))))) (\<lambda>_ d'. kept final target old d') (\<lambda>_ _. True) d3"
        unfolding Let_def
      proof (rule wp_seq [OF wp_reads], simp add: touch_intros, rule wp_seq [OF wp_frame [of ?S]])
        fix d4 d5 assume "look d4 = look d3" and "same_outside ?S d4 d5"
        moreover from this have "kept pending target old d4" using k by (simp add: kept_def)
        ultimately have k5: "kept pending target old d5" using keep by blast
        show "wp (then_do (set_private_mode (pending @ [manifest_name]))
          (then_do (fsync_directory pending) (then_do (replace_dir pending final) (fsync_directory store))))
          (\<lambda>_ d'. kept final target old d') (\<lambda>_ _. True) d5"
        proof (rule wp_seq [OF wp_reads], simp add: touch_intros, rule wp_seq [OF wp_reads], simp add: touch_intros,
            rule wp_seq [OF wp_replace_dir], rule wp_mono [OF wp_reads])
          fix a b d6 d7 d8 d9
          assume "look d6 = look d5" "look d7 = look d6" "look d9 = look d8"
            "unused d7 final \<and> look d7 pending = Some Directory \<and> (\<forall>q. look d8 q =
              (if prefix final q then look d7 (pending @ drop (length final) q) else if prefix pending q then None else look d7 q))"
          then show "kept final target old d9" using k5 by (simp add: kept_def)
        qed (simp_all add: touch_intros)
      qed (intro touch_intros, simp_all)
    qed
  qed (simp add: touch_intros)
  have "wp (preserve_unvalidated_database env target store version (rn_raw names))
     (\<lambda>dir d'. dir = final \<and> kept final target old d') (\<lambda>_ _. True) d"
    unfolding preserve_unvalidated_database_def Let_def pending_def [symmetric] final_def [symmetric]
  proof (rule wp_seq [OF wp_lastly_frame [OF wp_handle_raising [OF body [unfolded Let_def]]]])
    fix r
    show "touches (prefix pending) (clean_up pending store)" by (intro touch_intros)
  next
    fix a d1 d2 assume "kept final target old d1" "same_outside (prefix pending) d1 d2"
    moreover have "\<not> prefix pending (final @ [last q])" for q
      unfolding pending_def final_def by (rule pending_not_final)
    ultimately show "kept final target old d2" by (simp add: kept_def same_outside_def)
  qed (auto simp: wp_rules split: failure.splits)
  then show ?thesis unfolding final_def old_def by (rule wp_mono) auto
qed

section \<open>The rollback puts the files back\<close>

lemma wp_quarantine_clears:
  assumes "\<And>e. e \<in> set exts \<Longrightarrow> quarantine_path target e token \<notin> A \<union> sibling target ` set exts"
    and "\<And>p. p \<in> A \<Longrightarrow> look d p = None"
  shows "wp (quarantine_each target token moved exts)
    (\<lambda>_ d'. \<forall>p \<in> A \<union> sibling target ` set exts. look d' p = None) (\<lambda>_ _. True) d"
  using assms
proof (induction exts arbitrary: moved A d)
  case (Cons a exts)
  let ?A = "insert (sibling target a) A"
  have set_eq: "?A \<union> sibling target ` set exts = A \<union> sibling target ` set (a # exts)" by auto
  have IH: "wp (quarantine_each target token moved' exts)
      (\<lambda>_ d'. \<forall>p \<in> A \<union> sibling target ` set (a # exts). look d' p = None) (\<lambda>_ _. True) d'"
    if "\<And>p. p \<in> ?A \<Longrightarrow> look d' p = None" for moved' d'
    unfolding set_eq [symmetric] by (rule Cons.IH) (use Cons.prems(1) that in auto)
  have away: "quarantine_path target a token \<notin> ?A" using Cons.prems(1) [of a] by auto
  show ?case
    unfolding quarantine_each.simps Let_def wp_and_then wp_asks
  proof (rule wp_if)
    assume "\<not> present d (sibling target a)"
    then show "wp (quarantine_each target token moved exts)
        (\<lambda>_ d'. \<forall>p \<in> A \<union> sibling target ` set (a # exts). look d' p = None) (\<lambda>_ _. True) d"
      using Cons.prems(2) by (intro IH) (auto simp: present_def)
  next
    let ?h = "\<lambda>e. if e = Os_Error
        then then_do (restore_quarantined_sidecars moved) (raise (Refused Sidecar_In_Use)) else raise e"
    have h: "wp (?h e) Q (\<lambda>_ _. True) d'" for e Q d'
      by (intro wp_if wp_seq_any) (simp_all add: wp_rules)
    have "wp (then_do (handle (replace_file (sibling target a) (quarantine_path target a token)) ?h)
        (then_do (set_private_mode (quarantine_path target a token))
        (quarantine_each target token (moved @ [(sibling target a, quarantine_path target a token)]) exts)))
        (\<lambda>_ d'. \<forall>p \<in> A \<union> sibling target ` set (a # exts). look d' p = None) (\<lambda>_ _. True) d"
    proof (rule wp_seq [OF wp_handle_raising [OF wp_weaken [OF wp_replace_file] h]], assumption, rule wp_seq [OF wp_reads])
      fix x d1 y d2
      assume "is_file d (sibling target a) \<and> look d1 = (look d)(sibling target a := None,
          quarantine_path target a token := look d (sibling target a))" "look d2 = look d1"
      then have "look d2 p = None" if "p \<in> ?A" for p
        using that away Cons.prems(2) by auto
      then show "wp (quarantine_each target token (moved @ [(sibling target a, quarantine_path target a token)]) exts)
          (\<lambda>_ d'. \<forall>p \<in> A \<union> sibling target ` set (a # exts). look d' p = None) (\<lambda>_ _. True) d2"
        by (rule IH)
    qed (simp add: touch_intros)
    then show "wp (then_do (handle (replace_file (sibling target a) (quarantine_path target a token)) ?h)
        (then_do (set_private_mode (quarantine_path target a token))
        (quarantine_each target token (moved @ [(sibling target a, quarantine_path target a token)]) exts)))
        (\<lambda>_ d'. \<forall>p \<in> A \<union> sibling target ` set (a # exts). look d' p = None) (\<lambda>_ _. True) d" .
  qed
qed (simp add: wp_rules)

lemma wp_quarantine:
  assumes "target \<noteq> []"
  shows "wp (quarantine_sidecars target token)
    (\<lambda>moved d'. look d' (wal target) = None \<and> look d' (shm target) = None
      \<and> (\<forall>m \<in> set moved. quarantine_paths target token (snd m))) (\<lambda>_ _. True) d"
proof -
  have "quarantine_path target e token \<notin> {} \<union> sibling target ` set [''-wal'', ''-shm'']" for e
    using quarantine_not_sibling [of "''-wal''" target e token] quarantine_not_sibling [of "''-shm''" target e token]
    by auto
  then have "wp (quarantine_sidecars target token)
      (\<lambda>_ d'. \<forall>p \<in> {} \<union> sibling target ` set [''-wal'', ''-shm'']. look d' p = None) (\<lambda>_ _. True) d"
    unfolding quarantine_sidecars_def by (intro wp_quarantine_clears) auto
  moreover have "wp (quarantine_sidecars target token)
      (\<lambda>moved _. \<forall>m \<in> set moved. quarantine_paths target token (snd m)) (\<lambda>_ _. True) d"
    unfolding quarantine_sidecars_def
    by (rule wp_mono [OF wp_quarantine_moved]) (auto simp: quarantine_paths_def)
  ultimately show ?thesis
    by (rule wp_mono [OF wp_conj]) (auto simp: wal_def shm_def)
qed

lemma wp_put_back:
  assumes "rollback_path target token \<noteq> target"
  shows "wp (put_back_database target (Some dir) token)
    (\<lambda>_ d'. is_file d (dir @ [last target])
       \<and> look d' = (look d)(rollback_path target token := None, target := look d (dir @ [last target]))) (\<lambda>_ _. True) d"
proof -
  let ?t = "rollback_path target token" and ?k = "dir @ [last target]"
  have "wp (then_do (copy_file ?k ?t) (then_do (set_private_mode ?t) (then_do (fsync_file ?t) (replace_file ?t target))))
     (\<lambda>_ d'. look d' = (look d)(?t := None, target := look d ?k)) (\<lambda>_ _. True) d"
  proof (rule wp_seq [OF wp_copy_file], rule wp_seq [OF wp_reads], simp add: touch_intros,
      rule wp_seq [OF wp_reads], simp add: touch_intros, rule wp_weaken [OF wp_replace_file])
    fix a b c d1 d2 d3 d4
    assume "is_file d ?k \<and> look d1 = (look d)(?t := look d ?k)" "look d2 = look d1" "look d3 = look d2"
      "is_file d3 ?t \<and> look d4 = (look d3)(?t := None, target := look d3 ?t)"
    then show "look d4 = (look d)(?t := None, target := look d ?k)" by auto
  qed
  then have "wp (handle (then_do (copy_file ?k ?t) (then_do (set_private_mode ?t) (then_do (fsync_file ?t)
        (replace_file ?t target)))) (\<lambda>e. then_do (unlink ?t) (raise e)))
     (\<lambda>_ d'. look d' = (look d)(?t := None, target := look d ?k)) (\<lambda>_ _. True) d"
    by (rule wp_handle_raising) (rule wp_then_raise)
  then show ?thesis
    unfolding put_back_database_def Let_def option.case wp_and_then [of "asks _"] wp_asks wp_and_then [of "check _ _"] wp_check
    by (auto elim: wp_mono)
qed

lemma wp_restore_preserved:
  "wp (restore_preserved_sidecar dir target ext)
    (\<lambda>_ d'. look d' = (if is_file d (dir @ [last target @ ext])
       then (look d)(sibling target ext := look d (dir @ [last target @ ext])) else look d)) (\<lambda>_ _. True) d"
proof -
  let ?k = "dir @ [last target @ ext]" and ?s = "sibling target ext"
  have "wp (then_do (copy_file ?k ?s) (then_do (set_private_mode ?s) (fsync_file ?s)))
     (\<lambda>_ d'. look d' = (look d)(?s := look d ?k)) (\<lambda>_ _. True) d"
    by (rule wp_seq [OF wp_copy_file], rule wp_weaken [OF wp_reads]) (auto intro!: touch_intros)
  then show ?thesis
    unfolding restore_preserved_sidecar_def Let_def wp_and_then [of "asks _"] wp_asks
    by (simp add: wp_ret)
qed

definition regular :: "(path \<Rightarrow> node option) \<Rightarrow> path \<Rightarrow> bool" where
  "regular old q \<longleftrightarrow> (case old q of None \<Rightarrow> True | Some (Plain _ _) \<Rightarrow> True | _ \<Rightarrow> False)"

lemma beside_not_inside:
  assumes "dir \<noteq> butlast target" and "target \<noteq> []"
  shows "dir @ [n] \<noteq> target" "dir @ [n] \<noteq> sibling target e" "dir @ [n] \<noteq> hidden target e"
    "dir @ [n] \<noteq> wal target" "dir @ [n] \<noteq> shm target" "dir @ [n] \<noteq> quarantine_path target e t"
    "dir @ [n] \<noteq> rollback_path target t" "\<not> quarantine_paths target t (dir @ [n])" "\<not> side_paths target (dir @ [n])"
proof -
  show t: "dir @ [n] \<noteq> target" using assms by auto
  show s: "dir @ [n] \<noteq> sibling target e" "dir @ [n] \<noteq> hidden target e" for e
    using assms by (auto simp: sibling_def hidden_def)
  show "dir @ [n] \<noteq> wal target" "dir @ [n] \<noteq> shm target" "dir @ [n] \<noteq> quarantine_path target e t"
    "dir @ [n] \<noteq> rollback_path target t" "\<not> quarantine_paths target t (dir @ [n])" "\<not> side_paths target (dir @ [n])"
    using s by (auto simp: wal_def shm_def quarantine_path_def rollback_path_def quarantine_paths_def side_paths_def)
qed

lemma fileset_distinct:
  assumes "target \<noteq> []"
  shows "wal target \<noteq> target" "shm target \<noteq> target" "wal target \<noteq> shm target"
  using sibling_paths(1,2) [OF assms] by (auto simp: wal_def shm_def)

lemma quarantine_paths_not_fileset:
  "target \<noteq> [] \<Longrightarrow> q \<in> set (fileset_of target) \<Longrightarrow> \<not> quarantine_paths target t q"
  using hidden_names_not_fileset(3) [of target q] by (auto simp: quarantine_paths_def)

lemma touches_unlink_moved:
  "(\<And>m. m \<in> set moved \<Longrightarrow> S (snd m)) \<Longrightarrow> touches S (each (\<lambda>m. unlink (snd m)) moved)"
  by (intro touch_intros)

text \<open>The database first, then its side files, from the preserved directory.\<close>

definition preserved_in :: "path option \<Rightarrow> path \<Rightarrow> (path \<Rightarrow> node option) \<Rightarrow> disk \<Rightarrow> bool" where
  "preserved_in raw target old d = (case raw of
     None \<Rightarrow> (\<forall>q \<in> set (fileset_of target). old q = None)
   | Some dir \<Rightarrow> dir \<noteq> butlast target \<and> kept dir target old d)"

lemma preserved_in_frame:
  assumes "preserved_in raw target old d" and "same_outside S d d'"
    and "\<And>dir n. dir \<noteq> butlast target \<Longrightarrow> \<not> S (dir @ [n])"
  shows "preserved_in raw target old d'"
  using assms by (auto simp: preserved_in_def kept_def same_outside_def split: option.splits)

lemma wp_database_back:
  assumes ne: "target \<noteq> []" and existed: "existed \<longleftrightarrow> old target \<noteq> None"
    and raw: "preserved_in raw target old d" and clear: "look d (wal target) = None" "look d (shm target) = None"
  shows "wp (if existed then put_back_database target raw token else unlink target)
     (\<lambda>_ d'. look d' target = old target \<and> look d' (wal target) = None \<and> look d' (shm target) = None
        \<and> preserved_in raw target old d') (\<lambda>_ _. True) d"
proof (rule wp_if)
  assume e: existed
  then obtain dir where dir: "raw = Some dir" "dir \<noteq> butlast target" "kept dir target old d"
    using raw existed by (auto simp: preserved_in_def fileset_of_def split: option.splits)
  have r: "rollback_path target token \<noteq> q" if "q \<in> set (fileset_of target)" for q
    using hidden_names_not_fileset(1) [OF ne that] .
  have t: "rollback_path target token \<noteq> target" using r by (simp add: fileset_of_def)
  show "wp (put_back_database target raw token)
      (\<lambda>_ d'. look d' target = old target \<and> look d' (wal target) = None \<and> look d' (shm target) = None
        \<and> preserved_in raw target old d') (\<lambda>_ _. True) d"
    unfolding dir(1)
  proof (rule wp_weaken [OF wp_put_back [OF t]])
    fix a d'
    assume d': "is_file d (dir @ [last target]) \<and> look d' = (look d)
       (rollback_path target token := None, target := look d (dir @ [last target]))"
    then have "look d' (dir @ [n]) = look d (dir @ [n])" for n
      using beside_not_inside(1,7) [OF dir(2) ne] by auto
    then have "preserved_in (Some dir) target old d'"
      using dir by (simp add: preserved_in_def kept_def)
    moreover have "look d' target = old target" using d' dir(3) by (simp add: kept_def fileset_of_def)
    moreover have "look d' (wal target) = None" "look d' (shm target) = None"
      using d' clear r fileset_distinct [OF ne] by (auto simp: fileset_of_def)
    ultimately show "look d' target = old target \<and> look d' (wal target) = None \<and> look d' (shm target) = None
        \<and> preserved_in (Some dir) target old d'" by blast
  qed
next
  assume "\<not> existed"
  moreover have "preserved_in raw target old d'" if "look d' = (look d)(target := None)" for d'
    using that beside_not_inside(1) [OF _ ne]
    by (intro preserved_in_frame [OF raw, of "\<lambda>q. q = target"]) (auto simp: same_outside_def)
  ultimately show "wp (unlink target) (\<lambda>_ d'. look d' target = old target \<and> look d' (wal target) = None
      \<and> look d' (shm target) = None \<and> preserved_in raw target old d') (\<lambda>_ _. True) d"
    using existed clear by (intro wp_weaken [OF wp_unlink]) auto
qed

lemma wp_side_back:
  assumes "dir \<noteq> butlast target" and "target \<noteq> []" and "regular old (sibling target ext)"
    and "look d (dir @ [last target @ ext]) = old (sibling target ext)" and "look d (sibling target ext) = None"
  shows "wp (restore_preserved_sidecar dir target ext)
    (\<lambda>_ d'. look d' = (look d)(sibling target ext := old (sibling target ext))) (\<lambda>_ _. True) d"
  by (rule wp_weaken [OF wp_restore_preserved])
    (use assms(3-5) in \<open>auto simp: is_file_def regular_def fun_eq_iff split: option.splits node.splits\<close>)

lemma wp_sides_back:
  assumes ne: "target \<noteq> []" and old: "\<And>q. q \<in> set (fileset_of target) \<Longrightarrow> regular old q"
    and raw: "preserved_in raw target old d" and clear: "look d (wal target) = None" "look d (shm target) = None"
    and main: "look d target = old target"
  shows "wp (case raw of None \<Rightarrow> ret [] | Some dir \<Rightarrow> each (restore_preserved_sidecar dir target) [''-wal'', ''-shm''])
     (\<lambda>_ d'. \<forall>q \<in> set (fileset_of target). look d' q = old q) (\<lambda>_ _. True) d"
proof (cases raw)
  case None
  then show ?thesis using assms by (simp add: preserved_in_def wp_ret fileset_of_def)
next
  case (Some dir)
  then have dir: "dir \<noteq> butlast target" and K: "kept dir target old d" using raw by (auto simp: preserved_in_def)
  have kw: "look d (dir @ [last target @ ''-wal'']) = old (wal target)"
    and ks: "look d (dir @ [last target @ ''-shm'']) = old (shm target)"
    using K sibling_paths(3) [OF ne] by (auto simp: kept_def fileset_of_def wal_def shm_def)
  have regs: "regular old (wal target)" "regular old (shm target)" using old by (simp_all add: fileset_of_def)
  have "wp (and_then (restore_preserved_sidecar dir target ''-wal'') (\<lambda>a. and_then
      (and_then (restore_preserved_sidecar dir target ''-shm'') (\<lambda>b. and_then (ret []) (\<lambda>bs. ret (b # bs)))) (\<lambda>as. ret (a # as))))
      (\<lambda>_ d'. \<forall>q \<in> set (fileset_of target). look d' q = old q) (\<lambda>_ _. True) d"
    unfolding wp_and_then wp_ret
  proof (rule wp_weaken [OF wp_side_back [OF dir ne, where ext = "''-wal''", folded wal_def]])
    fix a d1 assume d1: "look d1 = (look d)(wal target := old (wal target))"
    show "wp (restore_preserved_sidecar dir target ''-shm'')
        (\<lambda>_ d'. \<forall>q \<in> set (fileset_of target). look d' q = old q) (\<lambda>_ _. True) d1"
    proof (rule wp_weaken [OF wp_side_back [OF dir ne, where ext = "''-shm''", folded shm_def]])
      show "look d1 (dir @ [last target @ ''-shm'']) = old (shm target)"
        using d1 ks beside_not_inside(4) [OF dir ne] by auto
      fix b d2 assume "look d2 = (look d1)(shm target := old (shm target))"
      then show "\<forall>q \<in> set (fileset_of target). look d2 q = old q"
        using d1 main fileset_distinct [OF ne] by (auto simp: fileset_of_def)
    qed (use d1 clear regs fileset_distinct [OF ne] in auto)
  qed (use kw clear regs in auto)
  then show ?thesis by (simp add: Some)
qed

lemma wp_rollback:
  assumes ne: "target \<noteq> []"
    and old: "\<And>q. q \<in> set (fileset_of target) \<Longrightarrow> regular old q" and existed: "existed \<longleftrightarrow> old target \<noteq> None"
    and raw: "preserved_in raw target old d"
    and moved: "\<forall>m \<in> set moved. quarantine_paths target (rn_quarantine names) (snd m)"
  shows "wp (rollback_failed_activation target existed raw moved names)
     (\<lambda>_ d'. \<forall>q \<in> set (fileset_of target). look d' q = old q) (\<lambda>_ _. True) d"
  unfolding rollback_failed_activation_def
proof (rule wp_seq [OF wp_conj [OF wp_quarantine [OF ne]
      wp_frame [OF touches_quarantine [of target "rn_failed names" "\<lambda>q. side_paths target q \<or> quarantine_paths target (rn_failed names) q"]]]])
  let ?Q = "quarantine_paths target (rn_failed names)"
  fix failed d1
  assume d1: "(look d1 (wal target) = None \<and> look d1 (shm target) = None \<and> (\<forall>m \<in> set failed. ?Q (snd m)))
     \<and> same_outside (\<lambda>q. side_paths target q \<or> ?Q q) d d1"
  show "wp (then_do (each (\<lambda>m. unlink (snd m)) failed)
      (then_do (if existed then put_back_database target raw (rn_rollback names) else unlink target)
      (then_do (case raw of None \<Rightarrow> ret [] | Some dir \<Rightarrow> each (restore_preserved_sidecar dir target) [''-wal'', ''-shm''])
      (then_do (each (\<lambda>m. unlink (snd m)) moved) (fsync_directory (butlast target))))))
      (\<lambda>_ d'. \<forall>q \<in> set (fileset_of target). look d' q = old q) (\<lambda>_ _. True) d1"
  proof (rule wp_seq [OF wp_frame [OF touches_unlink_moved [of failed ?Q]]])
    fix x d2 assume s2: "same_outside ?Q d1 d2"
    have "preserved_in raw target old d1"
      using d1 beside_not_inside(8,9) [OF _ ne] by (intro preserved_in_frame [OF raw]) auto
    then have k2: "preserved_in raw target old d2"
      using s2 beside_not_inside(8) [OF _ ne] by (rule preserved_in_frame)
    have clear2: "look d2 (wal target) = None" "look d2 (shm target) = None"
      using s2 d1 quarantine_paths_not_fileset [OF ne] by (auto simp: same_outside_def fileset_of_def)
    show "wp (then_do (if existed then put_back_database target raw (rn_rollback names) else unlink target)
      (then_do (case raw of None \<Rightarrow> ret [] | Some dir \<Rightarrow> each (restore_preserved_sidecar dir target) [''-wal'', ''-shm''])
      (then_do (each (\<lambda>m. unlink (snd m)) moved) (fsync_directory (butlast target)))))
      (\<lambda>_ d'. \<forall>q \<in> set (fileset_of target). look d' q = old q) (\<lambda>_ _. True) d2"
    proof (rule wp_seq [OF wp_database_back [OF ne existed k2 clear2]], rule wp_seq [OF wp_sides_back [OF ne old]],
        assumption, blast, blast, blast, blast,
        rule wp_seq [OF wp_frame [OF touches_unlink_moved [of moved "quarantine_paths target (rn_quarantine names)"]]])
      fix z d4 d5
      assume "\<forall>q \<in> set (fileset_of target). look d4 q = old q"
        "same_outside (quarantine_paths target (rn_quarantine names)) d4 d5"
      then have "\<forall>q \<in> set (fileset_of target). look d5 q = old q"
        using quarantine_paths_not_fileset [OF ne] by (auto simp: same_outside_def)
      then show "wp (fsync_directory (butlast target)) (\<lambda>_ d'. \<forall>q \<in> set (fileset_of target). look d' q = old q) (\<lambda>_ _. True) d5"
        by (intro wp_weaken [OF wp_reads]) (auto intro: touch_intros)
    qed (use moved in blast)
  qed (use d1 in blast)
qed auto

section \<open>Which errors come from where\<close>

text \<open>The errors of everything but the two that report on a rollback; only the shape of a manifest
  gives a \<open>TypeError\<close>.\<close>

definition tame :: "(backup_refusal failure \<Rightarrow> bool) \<Rightarrow> bool" where
  "tame R \<longleftrightarrow> R Os_Error \<and> R Sqlite_Error \<and> R Value_Error
     \<and> (\<forall>r. r \<noteq> Rolled_Back \<longrightarrow> r \<noteq> Rollback_Failed \<longrightarrow> R (Refused r))"

definition early :: "backup_refusal failure \<Rightarrow> bool" where
  "early e \<longleftrightarrow> e \<noteq> Refused Rolled_Back \<and> e \<noteq> Refused Rollback_Failed"

lemma tame_early: "tame early" "early Type_Error"
  by (auto simp: tame_def early_def)

lemma tame_untyped: "tame (\<lambda>e. e \<noteq> Type_Error)"
  by (simp add: tame_def)

lemma tameD: "tame R \<Longrightarrow> R Os_Error" "tame R \<Longrightarrow> R Sqlite_Error" "tame R \<Longrightarrow> R Value_Error"
  "tame R \<Longrightarrow> r \<noteq> Rolled_Back \<Longrightarrow> r \<noteq> Rollback_Failed \<Longrightarrow> R (Refused r)"
  by (auto simp: tame_def)

declare raises_handle [raise_intros del] raises_if [raise_intros del]

lemma raises_when [raise_intros]:
  "(b \<Longrightarrow> raises R m) \<Longrightarrow> (\<not> b \<Longrightarrow> raises R n) \<Longrightarrow> raises R (if b then m else n)"
  by simp

lemma raises_handle_from:
  "raises R m \<Longrightarrow> (\<And>e. R e \<Longrightarrow> raises R' (h e)) \<Longrightarrow> raises R' (handle m h)"
  unfolding raises_def wp_handle by (blast intro: wp_mono)

lemmas raises_handle_same = raises_handle_from [where R = R and R' = R for R]

lemma demand_raises: "demand cs = Inl e \<Longrightarrow> list_all (\<lambda>c. R (snd c)) cs \<Longrightarrow> R e"
  by (induction cs) (auto split: if_split_asm)

lemma raises_lift_res: "(\<And>e. r = Inl e \<Longrightarrow> R e) \<Longrightarrow> raises R (lift_res r)"
  by (auto simp: lift_res_def raises_basic split: sum.splits)

lemma inspect_facts_raises:
  assumes "tame R" and "inspect_facts f = Inl e" shows "R e"
  using assms(2) unfolding inspect_facts_def Let_def bind_res_Inl_iff
  by (elim disjE exE conjE) (erule demand_raises, use assms(1) in \<open>simp_all add: tame_def\<close>)

lemma compare_raises:
  assumes "tame R" and "\<And>p. fail p \<noteq> Rolled_Back \<and> fail p \<noteq> Rollback_Failed"
    and "compare_inspection fail i m = Inl e" shows "R e"
  using assms(3) unfolding compare_inspection_def
  by (rule demand_raises) (use assms(1,2) in \<open>simp add: tame_def\<close>)

lemma verify_raises: "tame R \<Longrightarrow> verify_inspection_against_manifest i m = Inl e \<Longrightarrow> R e"
  unfolding verify_inspection_against_manifest_def by (erule compare_raises) auto

lemma raises_os_errors_as: "raises R m \<Longrightarrow> R e \<Longrightarrow> raises R (os_errors_as e m)"
  unfolding os_errors_as_def by (rule raises_handle_same) (auto intro: raises_basic)

lemma raises_small:
  assumes "tame R"
  shows "raises R (set_private_mode p)" "raises R (fsync_directory p)" "raises R (fsync_file p)"
    "raises R (sha256_file p)" "raises R (file_size p)" "raises R (open_live env p)"
  using assms
  by (auto simp: set_private_mode_def fsync_directory_def fsync_file_def sha256_file_def file_size_def tame_def
      intro!: raise_intros raises_os_errors_as)
    (simp add: raises_def wp_def open_live_def split: option.splits prod.splits)

lemma raises_read_database: "tame R \<Longrightarrow> raises R (read_database env immutable p)"
  unfolding read_database_def
  by (intro raises_os_errors_as raise_intros raises_small) (auto dest: tameD)

lemma raises_inspect: "tame R \<Longrightarrow> raises R (inspect_sqlite_database env immutable p)"
  unfolding inspect_sqlite_database_def
  by (intro raise_intros raises_handle_same raises_read_database)
    (auto intro!: raise_intros raises_lift_res dest: tameD inspect_facts_raises split: option.splits failure.splits)

lemma raises_online_backup: "tame R \<Longrightarrow> raises R (perform_online_backup env immutable p q)"
  unfolding perform_online_backup_def
  by (auto intro!: raise_intros raises_read_database raises_small raises_os_errors_as dest: tameD split: option.splits prod.splits)

lemma raises_stage_source: "tame R \<Longrightarrow> raises R (stage_source env source stage v expected)"
  unfolding stage_source_def
  by (intro raise_intros raises_online_backup raises_small raises_inspect raises_lift_res)
    (auto dest: tameD verify_raises)

lemma raises_confirm: "tame R \<Longrightarrow> raises R (confirm_activation env target v moved)"
  unfolding confirm_activation_def discard_quarantine_def
  by (intro raise_intros raises_handle_same raises_small raises_inspect raises_lift_res)
    (auto intro: raise_intros dest: tameD verify_raises)

lemma raises_restore_quarantined: "raises R (restore_quarantined_sidecars moved)"
  unfolding restore_quarantined_sidecars_def restore_one_def
  by (intro raise_intros raises_handle_from [where R = "\<lambda>e. e = Os_Error"]) (auto intro: raise_intros)

lemma raises_quarantine: "tame R \<Longrightarrow> raises R (quarantine_sidecars target token)"
proof -
  assume "tame R"
  then have "raises R (quarantine_each target token moved exts)" for moved exts
    by (induction exts arbitrary: moved)
      (auto simp: Let_def intro!: raise_intros raises_handle_same raises_small raises_restore_quarantined dest: tameD)
  then show ?thesis by (simp only: quarantine_sidecars_def)
qed

lemma raises_clean_up: "tame R \<Longrightarrow> raises R (clean_up p store)"
  unfolding clean_up_def remove_incomplete_directory_def
  by (intro raise_intros raises_handle_from [where R = "\<lambda>e. e = Os_Error"]) (auto intro: raise_intros)

lemma raises_make_dirs: "tame R \<Longrightarrow> raises R (make_dirs p)"
  unfolding make_dirs_def by (rule raises_syscall) (auto simp: wp_def tame_def)

lemma raises_preserve_unvalidated: "raises early (preserve_unvalidated_database env target store version s)"
  unfolding preserve_unvalidated_database_def Let_def
  by (intro raise_intros raises_handle raises_clean_up tame_early(1))
    (auto intro!: raise_intros simp: early_def split: failure.splits)

lemma raises_create_unpruned: "raises early (create_sqlite_backup env source store version None kind s [])"
  unfolding create_sqlite_backup_def prepare_auxiliary_sources_def
  by (auto intro!: raise_intros raises_handle raises_clean_up raises_make_dirs tame_early(1)
      simp: early_def split: prod.splits)

lemma raises_checkpoint: "tame R \<Longrightarrow> raises R (checkpoint_target_for_switch env target)"
proof -
  assume R: "tame R"
  have step: "raises R (\<lambda>d. (Inr (), f d))" for f :: "disk \<Rightarrow> disk"
    by (simp add: raises_def wp_def)
  show ?thesis
    unfolding checkpoint_target_for_switch_def
    by (intro raises_os_errors_as raise_intros)
      (auto intro!: raise_intros step tameD [OF R] split: prod.splits sum.splits)
qed

lemma raises_preserve_current:
  "raises early (preserve_current env target store version names expected existed)"
  unfolding preserve_current_def
  by (intro raise_intros raises_preserve_unvalidated raises_handle_same raises_inspect tame_early(1))
    (auto intro!: raise_intros raises_create_unpruned raises_checkpoint tame_early(1) simp: early_def
      split: option.splits failure.splits)

section \<open>What happens to the target before the switch\<close>

definition main_kept :: "backup_env \<Rightarrow> path \<Rightarrow> disk \<Rightarrow> disk \<Rightarrow> bool" where
  "main_kept env target d d' \<longleftrightarrow> look d' target = look d target
     \<or> (\<exists>bs r sides r'. look d target = Some (Plain bs r)
          \<and> look d' target = Some (Plain (fst (be_checkpoint env bs sides)) r'))"

lemma wp_main_step:
  assumes "touches S m" and "\<not> S target"
    and "\<And>a d1. look d1 target = look d target \<Longrightarrow> wp (f a) Q E d1"
    and "\<And>e d1. look d1 target = look d target \<Longrightarrow> E e d1"
  shows "wp (and_then m f) Q E d"
  unfolding wp_and_then
  by (rule wp_mono [OF touches_wp [OF assms(1)]]) (use assms(2-4) in \<open>auto simp: same_outside_def\<close>)

lemma wp_checkpoint_main:
  assumes "target \<noteq> []" and "look d target = look d0 target"
  shows "wp (checkpoint_target_for_switch env target) (\<lambda>_. main_kept env target d0) (\<lambda>_. main_kept env target d0) d"
  unfolding checkpoint_target_for_switch_def os_errors_as_def wp_handle wp_and_then [of "read_file _"]
proof (rule wp_mono [OF wp_read_file])
  fix c d1 assume at_c: "look d target = Some (Plain (fst c) (snd c)) \<and> look d1 = look d"
  show "wp (and_then (asks (\<lambda>d. be_checkpoint env (fst c) (bytes_at d (wal target), bytes_at d (shm target))))
       (\<lambda>(bs, (w, s), result).
        then_do (\<lambda>d. (Inr (), store_side (shm target) s (store_side (wal target) w
            (put target (Plain bs (if bs = fst c then snd c else Not_Json)) d))))
        (case result of
           Inl _ \<Rightarrow> raise (Refused Target_Not_Prepared)
         | Inr busy \<Rightarrow> check (busy \<in> {None, Some 0}) (Refused Target_Busy))))
     (\<lambda>_. main_kept env target d0) (\<lambda>e. wp (raise (if e = Os_Error then Refused Target_Not_Prepared else e))
        (\<lambda>_. main_kept env target d0) (\<lambda>_. main_kept env target d0)) d1"
  proof -
    obtain bs w s result where cp: "be_checkpoint env (fst c) (bytes_at d1 (wal target), bytes_at d1 (shm target))
        = (bs, (w, s), result)"
      using prod_cases3 by (metis surj_pair)
    define d2 where "d2 = store_side (shm target) s (store_side (wal target) w
        (put target (Plain bs (if bs = fst c then snd c else Not_Json)) d1))"
    have "look d2 target = Some (Plain bs (if bs = fst c then snd c else Not_Json))"
      using fileset_distinct [OF assms(1)] by (simp add: d2_def store_side_def split: option.split)
    moreover have "look d0 target = Some (Plain (fst c) (snd c))" using at_c assms(2) by simp
    moreover have "bs = fst (be_checkpoint env (fst c) (bytes_at d1 (wal target), bytes_at d1 (shm target)))"
      by (simp add: cp)
    ultimately have "main_kept env target d0 d2" unfolding main_kept_def by metis
    then show ?thesis
      unfolding wp_and_then wp_asks cp prod.case
      by (simp add: wp_def [of "\<lambda>d. (Inr (), _ d)"] d2_def [symmetric] wp_rules split: sum.split)
  qed
qed (use assms in \<open>auto simp: wp_rules main_kept_def\<close>)

lemma apartD:
  assumes "apart target store names" and "q \<in> set (fileset_of target)"
  shows "target \<noteq> []" "\<not> prefix q store"
    "\<not> artifact_paths store diagnostic_kind (rn_raw names) q"
    "\<not> artifact_paths store ''pre_restore'' (rn_before names) q"
  using assms by (auto simp: apart_def artifact_dirs_def artifact_paths_def list_all_iff)

lemma raw_directory:
  assumes "apart target store names"
  defines "raw \<equiv> final_directory store diagnostic_kind (rn_raw names)"
  shows "raw \<noteq> butlast target" "prefix raw q \<Longrightarrow> \<not> prefix q store"
    "prefix raw q \<Longrightarrow> \<not> artifact_paths store ''pre_restore'' (rn_before names) q"
    "q \<in> set (fileset_of target) \<Longrightarrow> \<not> prefix raw q"
proof -
  have ne: "target \<noteq> []" using assms(1) by (simp add: apart_def)
  show out: "\<not> prefix raw q" if "q \<in> set (fileset_of target)" for q
    using apartD(3) [OF assms(1) that] by (simp add: artifact_paths_def raw_def)
  have "prefix (butlast target) target" using ne by (metis append_butlast_last_id prefixI)
  then show "raw \<noteq> butlast target" using out [of target] by (auto simp: fileset_of_def)
  show "\<not> prefix q store" if "prefix raw q"
  proof
    assume "prefix q store"
    then have "prefix raw store" using that prefix_order.trans by blast
    then show False by (auto simp: raw_def final_directory_def dest: prefix_length_le)
  qed
  have d: "raw \<noteq> pending_directory store ''pre_restore'' (rn_before names)"
    "raw \<noteq> final_directory store ''pre_restore'' (rn_before names)"
    using assms(1) by (auto simp: apart_def artifact_dirs_def raw_def)
  have same_length: "length raw = length (pending_directory store k s)" "length raw = length (final_directory store k s)" for k s
    by (simp_all add: raw_def pending_directory_def final_directory_def)
  show "\<not> artifact_paths store ''pre_restore'' (rn_before names) q" if "prefix raw q"
    using that d same_length unfolding artifact_paths_def prefix_def
    by (metis append_eq_append_conv)
qed

lemma touches_option [touch_intros]:
  "touches S m \<Longrightarrow> (\<And>x. touches S (f x)) \<Longrightarrow> touches S (case v of None \<Rightarrow> m | Some x \<Rightarrow> f x)"
  by (cases v) auto

lemma touches_refused [touch_intros]:
  "touches S m \<Longrightarrow> touches S (case e of Refused _ \<Rightarrow> m | _ \<Rightarrow> raise e)"
  by (cases e) (auto intro: touch_intros)

lemma regular_look: "regular (look d) q \<Longrightarrow> (if is_file d q then look d q else None) = look d q"
  by (auto simp: is_file_def regular_def split: option.splits node.splits)

lemma wp_option:
  "wp m Q E d \<Longrightarrow> (\<And>x. wp (f x) Q E d) \<Longrightarrow> wp (case v of None \<Rightarrow> m | Some x \<Rightarrow> f x) Q E d"
  by (cases v) auto

lemma wp_preserve_current_files:
  assumes "apart target store names" and "unused d (pending_directory store diagnostic_kind (rn_raw names))"
    and old: "\<And>q. q \<in> set (fileset_of target) \<Longrightarrow> regular (look d) q" and existed: "existed \<longleftrightarrow> look d target \<noteq> None"
  shows "wp (preserve_current env target store version names expected existed)
    (\<lambda>(raw, _) d'. preserved_in raw target (look d) d') (\<lambda>_ _. True) d"
proof -
  let ?F = "final_directory store diagnostic_kind (rn_raw names)"
  let ?S = "\<lambda>q. \<not> prefix ?F q"
  let ?some = "existed \<or> sqlite_sidecars_exist d target"
  note F = raw_directory [OF assms(1)]
  have sides: "?S (wal target) \<and> ?S (shm target)" "?S target" using F(4) by (simp_all add: fileset_of_def)
  have create: "touches ?S (create_sqlite_backup env target store version None ''pre_restore'' (rn_before names) [])"
    using F(2,3) sides by (intro touch_intros) (auto simp: side_paths_def)
  have chk: "touches ?S (checkpoint_target_for_switch env target)"
    using sides by (intro touch_intros) (auto simp: side_paths_def)
  have look: "touches ?S (inspect_sqlite_database env False target)"
    using sides by (intro touch_intros) auto
  have rest: "wp (if \<not> existed then ret (raw, map_option (\<lambda>p. \<lparr>ps_directory = p, ps_validated = False\<rparr>) raw)
     else
       and_then (handle (and_then (inspect_sqlite_database env False target) (\<lambda>i. ret (Some i)))
         (\<lambda>e. case e of Refused _ \<Rightarrow> ret None | _ \<Rightarrow> raise e)) (\<lambda>current.
       case current of
         None \<Rightarrow> ret (raw, map_option (\<lambda>p. \<lparr>ps_directory = p, ps_validated = False\<rparr>) raw)
       | Some i \<Rightarrow>
           then_do (check (in_version i = expected) (Refused Versions_Differ))
          (and_then (create_sqlite_backup env target store version None ''pre_restore'' (rn_before names) [])
            (\<lambda>made. then_do (checkpoint_target_for_switch env target)
              (ret (raw, Some \<lparr>ps_directory = cb_directory made, ps_validated = True\<rparr>))))))
     (\<lambda>(raw, _) d'. preserved_in raw target (look d) d') (\<lambda>_ _. True) d1" (is "wp (?R raw) _ _ _")
    if P: "preserved_in raw target (look d) d1" and raw: "raw \<in> {None, Some ?F}" for raw d1
  proof -
    have T: "touches ?S (?R raw)"
      by (intro create chk look touches_if touches_option touches_refused touches_and_then touches_handle
          touches_ret touches_check)
    have R: "wp (?R raw) (\<lambda>r _. fst r = raw) (\<lambda>_ _. True) d1"
      by (intro wp_if wp_seq_any wp_option) (simp_all add: wp_ret)
    show ?thesis
    proof (rule wp_mono [OF wp_conj [OF wp_frame [OF T] R]])
      fix r d2 assume "same_outside ?S d1 d2 \<and> fst r = raw"
      moreover from this have "preserved_in raw target (look d) d2"
        using P raw by (auto simp: preserved_in_def intro: kept_frame)
      ultimately show "(case r of (raw, _) \<Rightarrow> \<lambda>d'. preserved_in raw target (look d) d') d2" by (cases r) simp
    qed simp
  qed
  show ?thesis
    unfolding preserve_current_def wp_and_then [of "asks _"] wp_asks
  proof (rule wp_seq)
    show "wp (if ?some then and_then (preserve_unvalidated_database env target store version (rn_raw names)) (\<lambda>p. ret (Some p))
        else ret None) (\<lambda>raw d'. preserved_in raw target (look d) d' \<and> raw \<in> {None, Some ?F}) (\<lambda>_ _. True) d"
    proof (rule wp_if)
      assume "\<not> ?some"
      then show "wp (ret None) (\<lambda>raw d'. preserved_in raw target (look d) d' \<and> raw \<in> {None, Some ?F}) (\<lambda>_ _. True) d"
        using existed by (simp add: wp_ret preserved_in_def fileset_of_def sqlite_sidecars_exist_def present_def)
    next
      have "kept dir target (\<lambda>q. if is_file d q then look d q else None) d' \<Longrightarrow> kept dir target (look d) d'" for dir d'
        using regular_look [OF old] by (simp add: kept_def)
      then show "wp (and_then (preserve_unvalidated_database env target store version (rn_raw names)) (\<lambda>p. ret (Some p)))
          (\<lambda>raw d'. preserved_in raw target (look d) d' \<and> raw \<in> {None, Some ?F}) (\<lambda>_ _. True) d"
        unfolding wp_and_then wp_ret
        by (intro wp_weaken [OF wp_preserve_unvalidated [OF assms(1,2)]])
          (auto simp: preserved_in_def F(1))
    qed
  qed (use rest in blast)
qed

lemma wp_preserve_current_main:
  assumes "apart target store names"
  shows "wp (preserve_current env target store version names expected existed)
    (\<lambda>_. main_kept env target d) (\<lambda>_. main_kept env target d) d"
proof -
  let ?S = "\<lambda>q. q \<noteq> target"
  have ne: "target \<noteq> []" and self: "target \<in> set (fileset_of target)"
    using assms by (auto simp: apart_def fileset_of_def)
  note A = apartD [OF assms self]
  have sides: "?S (wal target) \<and> ?S (shm target)" using fileset_distinct [OF ne] by simp
  have raw: "touches ?S (preserve_unvalidated_database env target store version (rn_raw names))"
    using A(3) by (intro touch_intros) auto
  have create: "touches ?S (create_sqlite_backup env target store version None ''pre_restore'' (rn_before names) [])"
    using A(2,4) sides by (intro touch_intros) (auto simp: side_paths_def)
  have look: "touches ?S (inspect_sqlite_database env False target)"
    using sides by (intro touch_intros) auto
  have same: "main_kept env target d d1" if "look d1 target = look d target" for d1
    using that by (simp add: main_kept_def)
  have final: "wp (and_then (create_sqlite_backup env target store version None ''pre_restore'' (rn_before names) [])
      (\<lambda>made. then_do (checkpoint_target_for_switch env target) (ret (f made))))
      (\<lambda>_. main_kept env target d) (\<lambda>_. main_kept env target d) d1" if "look d1 target = look d target" for f d1
  proof (rule wp_main_step [OF create])
    fix made d2 assume "look d2 target = look d1 target"
    then show "wp (then_do (checkpoint_target_for_switch env target) (ret (f made)))
        (\<lambda>_. main_kept env target d) (\<lambda>_. main_kept env target d) d2"
      using that unfolding wp_and_then by (intro wp_mono [OF wp_checkpoint_main [OF ne]]) (auto simp: wp_ret)
  qed (use that same in auto)
  show ?thesis
    unfolding preserve_current_def
  proof (rule wp_main_step [OF touches_asks, where target = target], rule, rule wp_main_step [where S = ?S and target = target])
    fix b :: bool
    show "touches ?S (if b then and_then (preserve_unvalidated_database env target store version (rn_raw names))
        (\<lambda>p. ret (Some p)) else ret None)"
      by (intro touch_intros raw)
  next
    fix b d1 p d2 assume 1: "look d1 target = look d target" "look d2 target = look d1 target"
    show "wp (if \<not> existed then ret (p, map_option (\<lambda>p. \<lparr>ps_directory = p, ps_validated = False\<rparr>) p)
       else and_then (handle (and_then (inspect_sqlite_database env False target) (\<lambda>i. ret (Some i)))
         (\<lambda>e. case e of Refused _ \<Rightarrow> ret None | _ \<Rightarrow> raise e)) (\<lambda>current.
       case current of
         None \<Rightarrow> ret (p, map_option (\<lambda>p. \<lparr>ps_directory = p, ps_validated = False\<rparr>) p)
       | Some i \<Rightarrow>
           then_do (check (in_version i = expected) (Refused Versions_Differ))
          (and_then (create_sqlite_backup env target store version None ''pre_restore'' (rn_before names) [])
            (\<lambda>made. then_do (checkpoint_target_for_switch env target)
              (ret (p, Some \<lparr>ps_directory = cb_directory made, ps_validated = True\<rparr>))))))
       (\<lambda>_. main_kept env target d) (\<lambda>_. main_kept env target d) d2"
    proof (rule wp_if, use 1 same in \<open>simp add: wp_ret\<close>, rule wp_main_step [where S = ?S and target = target])
      show "touches ?S (handle (and_then (inspect_sqlite_database env False target) (\<lambda>i. ret (Some i)))
         (\<lambda>e. case e of Refused _ \<Rightarrow> ret None | _ \<Rightarrow> raise e))"
        by (intro touch_intros look)
      fix current d3 assume "look d3 target = look d2 target"
      then show "wp (case current of
         None \<Rightarrow> ret (p, map_option (\<lambda>p. \<lparr>ps_directory = p, ps_validated = False\<rparr>) p)
       | Some i \<Rightarrow>
           then_do (check (in_version i = expected) (Refused Versions_Differ))
          (and_then (create_sqlite_backup env target store version None ''pre_restore'' (rn_before names) [])
            (\<lambda>made. then_do (checkpoint_target_for_switch env target)
              (ret (p, Some \<lparr>ps_directory = cb_directory made, ps_validated = True\<rparr>)))))
        (\<lambda>_. main_kept env target d) (\<lambda>_. main_kept env target d) d3"
        using 1 same final [of d3 "\<lambda>made. (p, Some \<lparr>ps_directory = cb_directory made, ps_validated = True\<rparr>)"]
        by (cases current) (simp_all add: wp_ret wp_and_then [of "check _ _"] wp_check)
    qed (use 1 same in auto)
  qed (use same in auto)
qed

end
