(* ===== verification/Restore_Switch.thy ===== *)
theory Restore_Switch
  imports Backup_Rollback
begin

text \<open>
  The switch and the whole restore: whatever fails on the way, \<open>restore_sqlite_backup\<close> leaves the old
  database, the new one, or the old one rolled back from the preserved files, and says which.
\<close>

section \<open>The switch\<close>

lemma wp_sha256_file:
  "wp (sha256_file p) (\<lambda>h d'. look d' = look d \<and> (\<exists>bs r. look d p = Some (Plain bs r) \<and> h = hex_digest (sha256 bs)))
     (\<lambda>_ _. True) d"
  unfolding sha256_file_def wp_and_then by (rule wp_weaken [OF wp_read_file]) (auto simp: wp_ret)

lemma wp_inspect:
  "wp (inspect_sqlite_database env True p) (\<lambda>i d'. look d' = look d \<and> (\<exists>bs r f. look d p = Some (Plain bs r)
      \<and> be_facts env bs None = Some f \<and> inspect_facts f = Inr i)) (\<lambda>_ _. True) d"
proof -
  have "wp (and_then (read_database env True p) (\<lambda>(bs, w).
          case be_facts env bs w of None \<Rightarrow> raise Sqlite_Error | Some f \<Rightarrow> lift_res (inspect_facts f)))
     (\<lambda>i d'. look d' = look d \<and> (\<exists>bs r f. look d p = Some (Plain bs r)
      \<and> be_facts env bs None = Some f \<and> inspect_facts f = Inr i)) (\<lambda>_ _. True) d"
    unfolding read_database_def os_errors_as_def wp_and_then wp_handle wp_raise if_True wp_ret
    by (rule wp_mono [OF wp_read_file]) (auto simp: wp_rules lift_res_def split: option.split sum.split)
  then show ?thesis
    unfolding inspect_sqlite_database_def wp_and_then [of "asks _"] wp_asks wp_and_then [of "check _ _"] wp_check
    by (auto intro!: wp_handle_raising simp: wp_raise split: failure.split)
qed

definition installed :: "backup_env \<Rightarrow> validated \<Rightarrow> path \<Rightarrow> disk \<Rightarrow> bool" where
  "installed env v target d \<longleftrightarrow>
     (\<exists>bs r f i. look d target = Some (Plain bs r) \<and> hex_digest (sha256 bs) = vd_sha256 v
        \<and> be_facts env bs None = Some f \<and> inspect_facts f = Inr i
        \<and> verify_inspection_against_manifest i (vd_manifest v) = Inr ())
     \<and> look d (wal target) = None \<and> look d (shm target) = None"

lemma installed_frame:
  "installed env v target d \<Longrightarrow> same_outside S d d' \<Longrightarrow> (\<And>q. q \<in> set (fileset_of target) \<Longrightarrow> \<not> S q)
   \<Longrightarrow> installed env v target d'"
  by (simp add: installed_def same_outside_def fileset_of_def)

lemma wp_when: "(b \<Longrightarrow> P) \<Longrightarrow> if b then P else True"
  by simp

lemma wp_confirm:
  assumes ne: "target \<noteq> []" and clear: "look d (wal target) = None" "look d (shm target) = None"
    and moved: "\<forall>m \<in> set moved. quarantine_paths target token (snd m)"
  shows "wp (confirm_activation env target v moved) (\<lambda>_ d'. installed env v target d') (\<lambda>_ _. True) d"
  unfolding confirm_activation_def
proof (rule wp_seq [OF wp_reads], simp add: touch_intros, rule wp_seq [OF wp_sha256_file],
    unfold wp_and_then [of "check _ _"] wp_check, rule wp_when)
  fix a d1 h d2
  assume 1: "look d1 = look d"
    and 2: "look d2 = look d1 \<and> (\<exists>bs r. look d1 target = Some (Plain bs r) \<and> h = hex_digest (sha256 bs))"
    and 3: "h = vd_sha256 v"
  have discard: "touches (quarantine_paths target token) (each discard_quarantine moved)"
    unfolding discard_quarantine_def using moved by (auto intro!: touch_intros)
  show "wp (and_then (inspect_sqlite_database env True target) (\<lambda>i.
      then_do (lift_res (verify_inspection_against_manifest i (vd_manifest v)))
        (and_then (each discard_quarantine moved) (\<lambda>kept. ret (i, list_ex id kept)))))
      (\<lambda>_ d'. installed env v target d') (\<lambda>_ _. True) d2"
  proof (rule wp_seq [OF wp_inspect], cases)
    fix i d4
    assume 4: "look d4 = look d2 \<and> (\<exists>bs r f. look d2 target = Some (Plain bs r) \<and> be_facts env bs None = Some f \<and> inspect_facts f = Inr i)"
      and ok: "verify_inspection_against_manifest i (vd_manifest v) = Inr ()"
    have "installed env v target d4"
      using 1 2 3 4 ok clear unfolding installed_def by auto
    then show "wp (then_do (lift_res (verify_inspection_against_manifest i (vd_manifest v)))
        (and_then (each discard_quarantine moved) (\<lambda>kept. ret (i, list_ex id kept))))
        (\<lambda>_ d'. installed env v target d') (\<lambda>_ _. True) d4"
      unfolding ok lift_res_def sum.case wp_and_then wp_ret
      using quarantine_paths_not_fileset [OF ne]
      by (intro wp_mono [OF wp_frame [OF discard]]) (auto elim: installed_frame)
  next
    fix i d4 assume "verify_inspection_against_manifest i (vd_manifest v) \<noteq> Inr ()"
    then show "wp (then_do (lift_res (verify_inspection_against_manifest i (vd_manifest v)))
        (and_then (each discard_quarantine moved) (\<lambda>kept. ret (i, list_ex id kept))))
        (\<lambda>_ d'. installed env v target d') (\<lambda>_ _. True) d4"
      by (cases "verify_inspection_against_manifest i (vd_manifest v)") (auto simp: lift_res_def wp_rules)
  qed
qed

lemma raises_rollback:
  "raises (\<lambda>e. e = Os_Error \<or> (\<exists>r. e = Refused r)) (rollback_failed_activation target existed raw moved names)"
proof -
  let ?R = "\<lambda>e. e = Os_Error \<or> (\<exists>r :: backup_refusal. e = Refused r)"
  have small: "raises ?R (set_private_mode p)" "raises ?R (fsync_file p)" "raises ?R (fsync_directory p)" for p
    by (auto simp: set_private_mode_def fsync_file_def fsync_directory_def intro!: raise_intros raises_os_errors_as)
  have q: "raises ?R (quarantine_each target token moved exts)" for token moved exts
    by (induction exts arbitrary: moved)
      (auto simp: Let_def intro!: raise_intros raises_handle_same small raises_restore_quarantined)
  show ?thesis
    unfolding rollback_failed_activation_def quarantine_sidecars_def put_back_database_def restore_preserved_sidecar_def Let_def
    by (intro raise_intros q small)
      (auto intro!: raise_intros raises_handle_same small split: option.splits simp del: each.simps)
qed

text \<open>The paths that the restore writes in the target's directory.\<close>

definition beside :: "path \<Rightarrow> path \<Rightarrow> bool" where
  "beside target q \<longleftrightarrow> q \<noteq> [] \<and> butlast q = butlast target"

lemma preserved_in_beside:
  "preserved_in raw target old d \<Longrightarrow> same_outside (beside target) d d' \<Longrightarrow> preserved_in raw target old d'"
  by (erule preserved_in_frame) (auto simp: beside_def)

lemma beside_names:
  assumes "target \<noteq> []"
  shows "beside target target" "beside target (hidden target e)" "beside target (sibling target e)"
    "beside target (wal target)" "beside target (shm target)"
    "side_paths target q \<Longrightarrow> beside target q" "quarantine_paths target t q \<Longrightarrow> beside target q"
    "beside target (rollback_path target t)" "beside target (stage_path target t)"
    "beside target (sibling (stage_path target t) e)"
  using assms
  by (auto simp: beside_def hidden_def sibling_def wal_def shm_def side_paths_def quarantine_paths_def
      quarantine_path_def rollback_path_def stage_path_def)

lemma wp_activate:
  assumes ne: "target \<noteq> []" and clear: "look d (wal target) = None" "look d (shm target) = None"
    and moved: "\<forall>m \<in> set moved. quarantine_paths target (rn_quarantine names) (snd m)"
    and old: "\<And>q. q \<in> set (fileset_of target) \<Longrightarrow> regular old q" and existed: "existed \<longleftrightarrow> old target \<noteq> None"
    and raw: "preserved_in raw target old d"
  shows "wp (activate_or_roll_back env target v existed raw moved names)
    (\<lambda>_ d'. installed env v target d' \<and> preserved_in raw target old d')
    (\<lambda>e d'. e = Refused Rolled_Back \<and> (\<forall>q \<in> set (fileset_of target). look d' q = old q)
       \<or> e = Refused Rollback_Failed \<and> preserved_in raw target old d') d"
proof -
  have "touches (beside target) (confirm_activation env target v moved)"
    using moved beside_names(7) [OF ne] by (intro touch_intros) blast
  note confirm = wp_conj [OF wp_confirm [OF ne clear moved] wp_frame_raises [OF this raises_confirm [OF tame_untyped]]]
  have rb: "touches (beside target) (rollback_failed_activation target existed raw moved names)"
    using moved beside_names [OF ne] by (intro touches_rollback) blast+
  show ?thesis
    unfolding activate_or_roll_back_def wp_handle
  proof (rule wp_mono [OF confirm])
    fix a d1 assume "installed env v target d1 \<and> same_outside (beside target) d d1"
    then show "installed env v target d1 \<and> preserved_in raw target old d1"
      using preserved_in_beside [OF raw] by blast
  next
    fix e :: "backup_refusal failure" and d1
    assume "True \<and> same_outside (beside target) d d1 \<and> e \<noteq> Type_Error"
    then have 1: "preserved_in raw target old d1" "e \<noteq> Type_Error" using preserved_in_beside [OF raw] by auto
    note rollback = wp_conj [OF wp_rollback [OF ne old existed 1(1) moved] wp_frame_raises [OF rb raises_rollback]]
    show "wp (if e = Type_Error then raise e
        else then_do (handle (rollback_failed_activation target existed raw moved names)
           (\<lambda>e'. case e' of Os_Error \<Rightarrow> raise (Refused Rollback_Failed) | Refused _ \<Rightarrow> raise (Refused Rollback_Failed)
              | _ \<Rightarrow> raise e')) (raise (Refused Rolled_Back)))
        (\<lambda>_ d'. installed env v target d' \<and> preserved_in raw target old d')
        (\<lambda>e d'. e = Refused Rolled_Back \<and> (\<forall>q \<in> set (fileset_of target). look d' q = old q)
           \<or> e = Refused Rollback_Failed \<and> preserved_in raw target old d') d1"
      unfolding if_not_P [OF 1(2)] wp_and_then wp_handle wp_raise
      by (rule wp_mono [OF rollback]) (use preserved_in_beside [OF 1(1)] in \<open>auto simp: wp_raise\<close>)
  qed
qed

lemma stage_apart:
  assumes "apart target store names"
  shows "\<not> prefix (pending_directory store k s) (stage_path target t) \<or> prefix (pending_directory store k s) target"
proof -
  have "stage_path target t \<noteq> pending_directory store k s"
  proof
    assume "stage_path target t = pending_directory store k s"
    then have "last (last (stage_path target t)) = last (last (pending_directory store k s))" by simp
    then show False by (simp add: stage_path_def hidden_def pending_directory_def)
  qed
  moreover have "prefix (butlast target) target"
    using assms by (auto simp: apart_def intro: prefixI [of _ _ "[last target]"])
  ultimately show ?thesis
    unfolding stage_path_def hidden_def by (auto intro: prefix_order.trans)
qed

definition fileset_same :: "path \<Rightarrow> disk \<Rightarrow> disk \<Rightarrow> bool" where
  "fileset_same target d d' \<longleftrightarrow> (\<forall>q \<in> set (fileset_of target). look d' q = look d q)"

lemma main_kept_step:
  "main_kept env target d d1 \<Longrightarrow> look d2 target = look d1 target \<Longrightarrow> main_kept env target d d2"
  by (simp add: main_kept_def)

lemma preserved_in_same: "fileset_same target d d1 \<Longrightarrow> preserved_in raw target (look d1) d2 = preserved_in raw target (look d) d2"
  by (auto simp: preserved_in_def fileset_same_def kept_def split: option.splits)

text \<open>An error before the switch, in the form in which it leaves the function.\<close>

lemma wp_before_switch:
  "wp m Q (\<lambda>e d'. early e \<and> P d') d \<Longrightarrow> wp (before_switch_errors m) Q (\<lambda>e d'. early e \<and> P d') d"
  unfolding before_switch_errors_def wp_handle
  by (erule wp_mono) (auto simp: wp_raise early_def split: failure.splits)

lemma wp_prepare:
  assumes A: "apart target store names" and U: "unused d (pending_directory store diagnostic_kind (rn_raw names))"
    and old: "\<And>q. q \<in> set (fileset_of target) \<Longrightarrow> regular (look d) q" and existed: "existed \<longleftrightarrow> look d target \<noteq> None"
  defines "stage \<equiv> stage_path target (rn_stage names)"
  shows "wp (before_switch_errors (then_do (stage_source env source stage v expected)
          (preserve_current env target store version names expected existed)))
    (\<lambda>(raw, _) d'. preserved_in raw target (look d) d' \<and> main_kept env target d d')
    (\<lambda>e d'. early e \<and> main_kept env target d d') d"
proof (rule wp_before_switch, unfold wp_and_then)
  have ne: "target \<noteq> []" and self: "target \<in> set (fileset_of target)"
    using A by (auto simp: apart_def fileset_of_def)
  have S: "stage \<noteq> q" if "q \<in> set (fileset_of target)" for q
    using hidden_names_not_fileset(2) [OF ne that] by (simp add: stage_def)
  have touch: "touches (\<lambda>q. q = stage) (stage_source env source stage v expected)"
    by (intro touch_intros) simp
  show "wp (stage_source env source stage v expected)
      (\<lambda>_. wp (preserve_current env target store version names expected existed)
        (\<lambda>(raw, _) d'. preserved_in raw target (look d) d' \<and> main_kept env target d d')
        (\<lambda>e d'. early e \<and> main_kept env target d d'))
      (\<lambda>e d'. early e \<and> main_kept env target d d') d"
  proof (rule wp_mono [OF wp_frame_raises [OF touch raises_stage_source [OF tame_early(1)]]])
    fix a d1 assume same: "same_outside (\<lambda>q. q = stage) d d1"
    have fs: "fileset_same target d d1" using same S unfolding fileset_same_def same_outside_def by metis
    then have look1: "look d1 q = look d q" if "q \<in> set (fileset_of target)" for q
      using that by (simp add: fileset_same_def)
    have "\<not> prefix (pending_directory store diagnostic_kind (rn_raw names)) stage"
      using stage_apart [OF A, of diagnostic_kind "rn_raw names"] apartD(3) [OF A self]
      by (auto simp: artifact_paths_def stage_def)
    then have U1: "unused d1 (pending_directory store diagnostic_kind (rn_raw names))"
      using U same by (auto simp: unused_look same_outside_def)
    have "regular (look d1) q" if "q \<in> set (fileset_of target)" for q
      using old [OF that] look1 [OF that] by (simp add: regular_def)
    moreover have "existed \<longleftrightarrow> look d1 target \<noteq> None" using existed look1 [OF self] by simp
    ultimately have files: "wp (preserve_current env target store version names expected existed)
        (\<lambda>(raw, _) d'. preserved_in raw target (look d1) d') (\<lambda>_ _. True) d1"
      by (rule wp_preserve_current_files [OF A U1])
    have "main_kept env target d d2" if "main_kept env target d1 d2" for d2
      using that look1 [OF self] by (simp add: main_kept_def)
    moreover have "wp (preserve_current env target store version names expected existed) (\<lambda>_ _. True) (\<lambda>e _. early e) d1"
      using raises_preserve_current by (simp add: raises_def)
    note wp_conj [OF files wp_conj [OF wp_preserve_current_main [OF A] this]]
    ultimately show "wp (preserve_current env target store version names expected existed)
        (\<lambda>(raw, _) d'. preserved_in raw target (look d) d' \<and> main_kept env target d d')
        (\<lambda>e d'. early e \<and> main_kept env target d d') d1"
      by (elim wp_mono) (auto simp: preserved_in_same [OF fs] split: prod.splits)
  next
    fix e d1 assume "same_outside (\<lambda>q. q = stage) d d1 \<and> early e"
    then show "early e \<and> main_kept env target d d1"
      using S [OF self] by (auto simp: main_kept_def same_outside_def)
  qed
qed

lemma wp_move_sides_away:
  assumes ne: "target \<noteq> []" and raw: "preserved_in raw target old d1" and main: "main_kept env target d d1"
  shows "wp (before_switch_errors (quarantine_sidecars target (rn_quarantine names)))
    (\<lambda>moved d'. preserved_in raw target old d' \<and> main_kept env target d d'
       \<and> look d' (wal target) = None \<and> look d' (shm target) = None
       \<and> (\<forall>m \<in> set moved. side_paths target (fst m) \<and> quarantine_paths target (rn_quarantine names) (snd m)))
    (\<lambda>e d'. early e \<and> main_kept env target d d') d1"
proof (rule wp_before_switch)
  let ?S = "\<lambda>q. side_paths target q \<or> quarantine_paths target (rn_quarantine names) q"
  have self: "\<not> ?S target"
    using fileset_distinct [OF ne] quarantine_paths_not_fileset [OF ne, of target]
    by (auto simp: side_paths_def fileset_of_def)
  have touch: "touches ?S (quarantine_sidecars target (rn_quarantine names))" by (intro touch_intros)
  have pairs: "wp (quarantine_sidecars target (rn_quarantine names))
      (\<lambda>moved _. \<forall>m \<in> set moved. side_paths target (fst m)) (\<lambda>_ _. True) d1"
    unfolding quarantine_sidecars_def
    by (rule wp_mono [OF wp_quarantine_moved]) (auto simp: side_paths_def wal_def shm_def)
  have kept: "preserved_in raw target old d2 \<and> main_kept env target d d2" if "same_outside ?S d1 d2" for d2
  proof -
    have "same_outside (beside target) d1 d2"
      using that by (rule same_outside_mono) (use beside_names(6,7) [OF ne] in blast)
    moreover have "look d2 target = look d1 target" using that self by (simp add: same_outside_def)
    ultimately show ?thesis using preserved_in_beside [OF raw] main_kept_step [OF main] by blast
  qed
  show "wp (quarantine_sidecars target (rn_quarantine names))
    (\<lambda>moved d'. preserved_in raw target old d' \<and> main_kept env target d d'
       \<and> look d' (wal target) = None \<and> look d' (shm target) = None
       \<and> (\<forall>m \<in> set moved. side_paths target (fst m) \<and> quarantine_paths target (rn_quarantine names) (snd m)))
    (\<lambda>e d'. early e \<and> main_kept env target d d') d1"
    by (rule wp_mono [OF wp_conj [OF wp_conj [OF wp_quarantine [OF ne] pairs]
          wp_frame_raises [OF touch raises_quarantine [OF tame_early(1)]]]])
      (use kept in auto)
qed

lemma wp_replace_target:
  assumes ne: "target \<noteq> []" and raw: "preserved_in raw target old d1" and main: "main_kept env target d d1"
    and clear: "look d1 (wal target) = None" "look d1 (shm target) = None"
    and moved: "\<forall>m \<in> set moved. side_paths target (fst m) \<and> quarantine_paths target t (snd m)"
    and stage_def: "stage = stage_path target s"
  shows "wp (handle (before_switch_errors (then_do (fsync_file stage) (replace_file stage target)))
          (\<lambda>e. then_do (restore_quarantined_sidecars moved) (raise e)))
    (\<lambda>_ d'. preserved_in raw target old d' \<and> look d' (wal target) = None \<and> look d' (shm target) = None)
    (\<lambda>e d'. early e \<and> main_kept env target d d') d1"
  unfolding wp_handle
proof (rule wp_before_switch [OF _, THEN wp_mono])
  have touch: "touches (beside target) (then_do (fsync_file stage) (replace_file stage target))"
    using beside_names [OF ne] by (intro touch_intros) (auto simp: stage_def)
  show "wp (then_do (fsync_file stage) (replace_file stage target))
     (\<lambda>_ d'. preserved_in raw target old d' \<and> look d' (wal target) = None \<and> look d' (shm target) = None)
     (\<lambda>e d'. early e \<and> look d' = look d1) d1"
    unfolding wp_and_then fsync_file_def wp_ret
  proof (rule wp_mono [OF wp_read_file])
    fix c d2 assume "look d1 stage = Some (Plain (fst c) (snd c)) \<and> look d2 = look d1"
    then have 2: "look d2 = look d1" by simp
    show "wp (replace_file stage target)
        (\<lambda>_ d'. preserved_in raw target old d' \<and> look d' (wal target) = None \<and> look d' (shm target) = None)
        (\<lambda>e d'. early e \<and> look d' = look d1) d2"
    proof (rule wp_mono [OF wp_replace_file])
      fix u d3 assume 3: "is_file d2 stage \<and> look d3 = (look d2)(stage := None, target := look d2 stage)"
      have "same_outside (beside target) d1 d3"
        using 2 3 beside_names [OF ne] by (auto simp: same_outside_def stage_def)
      then have "preserved_in raw target old d3" by (rule preserved_in_beside [OF raw])
      then show "preserved_in raw target old d3 \<and> look d3 (wal target) = None \<and> look d3 (shm target) = None"
        using 2 3 clear fileset_distinct [OF ne] by auto
    qed (use 2 in \<open>auto simp: early_def\<close>)
  qed (auto simp: early_def)
next
  fix e d2 assume e: "early e \<and> look d2 = look d1"
  have "touches (\<lambda>q. q \<noteq> target) (restore_quarantined_sidecars moved)"
    using moved fileset_distinct [OF ne] quarantine_paths_not_fileset [OF ne, of target]
    by (intro touch_intros) (auto simp: side_paths_def fileset_of_def)
  then show "wp (then_do (restore_quarantined_sidecars moved) (raise e))
      (\<lambda>_ d'. preserved_in raw target old d' \<and> look d' (wal target) = None \<and> look d' (shm target) = None)
      (\<lambda>e d'. early e \<and> main_kept env target d d') d2"
    unfolding wp_and_then wp_raise
    by (rule wp_mono [OF wp_frame_raises [OF _ raises_restore_quarantined [where R = early]]])
      (use e main in \<open>auto simp: same_outside_def elim!: main_kept_step\<close>)
qed auto

text \<open>What the outcome of a restore says about the target.\<close>

definition restore_spec ::
  "backup_env \<Rightarrow> path \<Rightarrow> disk \<Rightarrow> (validated \<Rightarrow> bool) \<Rightarrow> backup_refusal failure + restored \<Rightarrow> disk \<Rightarrow> bool" where
  "restore_spec env target d good r d' =
     (case r of
        Inr _ \<Rightarrow> \<exists>v. good v \<and> installed env v target d'
      | Inl e \<Rightarrow>
          if e = Refused Rolled_Back then fileset_same target d d'
          else if e = Refused Rollback_Failed then \<exists>raw. preserved_in raw target (look d) d'
          else if e = Os_Error then main_kept env target d d' \<or> (\<exists>raw. preserved_in raw target (look d) d')
          else main_kept env target d d')"

lemma early_spec: "early e \<Longrightarrow> main_kept env target d d' \<Longrightarrow> restore_spec env target d good (Inl e) d'"
  by (auto simp: restore_spec_def early_def)

lemma restore_spec_cong:
  assumes "fileset_same target d d1"
  shows "restore_spec env target d1 good r d' = restore_spec env target d good r d'"
proof -
  have "look d1 target = look d target" using assms by (simp add: fileset_same_def fileset_of_def)
  moreover have "fileset_same target d1 d' = fileset_same target d d'"
    using assms by (auto simp: fileset_same_def)
  ultimately show ?thesis
    by (simp add: restore_spec_def main_kept_def preserved_in_same [OF assms] split: sum.split)
qed

lemma wp_check_or: "(b \<Longrightarrow> wp m Q E d) \<Longrightarrow> (\<not> b \<Longrightarrow> E e d) \<Longrightarrow> wp (then_do (check b e) m) Q E d"
  by (simp add: wp_rules)

lemma wp_switch:
  assumes A: "apart target store names" and U: "unused d (pending_directory store diagnostic_kind (rn_raw names))"
    and old: "\<And>q. q \<in> set (fileset_of target) \<Longrightarrow> regular (look d) q" and existed: "existed \<longleftrightarrow> look d target \<noteq> None"
    and good: "good v"
  defines "stage \<equiv> stage_path target (rn_stage names)"
  shows "wp (switch_database env source target store stage version names v expected existed)
    (\<lambda>r. restore_spec env target d good (Inr r)) (\<lambda>e. restore_spec env target d good (Inl e)) d"
proof -
  have ne: "target \<noteq> []" using A by (simp add: apart_def)
  let ?body = "and_then (before_switch_errors (then_do (stage_source env source stage v expected)
          (preserve_current env target store version names expected existed))) (\<lambda>(raw, ps).
       and_then (before_switch_errors (quarantine_sidecars target (rn_quarantine names))) (\<lambda>moved.
       then_do (handle (before_switch_errors (then_do (fsync_file stage) (replace_file stage target)))
          (\<lambda>e. then_do (restore_quarantined_sidecars moved) (raise e)))
      (and_then (activate_or_roll_back env target v existed raw moved names) (\<lambda>(i, retained).
       ret \<lparr>re_inspection = i, re_sha256 = vd_sha256 v, re_raw = raw, re_preserved = ps, re_retained = retained\<rparr>))))"
  let ?Q = "\<lambda>_ d'. installed env v target d' \<and> (\<exists>raw. preserved_in raw target (look d) d')"
  have body: "wp ?body ?Q (\<lambda>e. restore_spec env target d good (Inl e)) d"
    unfolding wp_and_then [of "before_switch_errors _"]
  proof (rule wp_mono [OF wp_prepare [OF A U old existed, folded stage_def]], assumption)
    fix rk :: "path option \<times> preserved option" and d1
    assume 1: "(case rk of (raw, _) \<Rightarrow> \<lambda>d'. preserved_in raw target (look d) d' \<and> main_kept env target d d') d1"
    obtain raw ps where rk: "rk = (raw, ps)" by (cases rk)
    have P1: "preserved_in raw target (look d) d1" "main_kept env target d d1" using 1 rk by auto
    show "wp (case rk of (raw, ps) \<Rightarrow>
       and_then (before_switch_errors (quarantine_sidecars target (rn_quarantine names))) (\<lambda>moved.
       then_do (handle (before_switch_errors (then_do (fsync_file stage) (replace_file stage target)))
          (\<lambda>e. then_do (restore_quarantined_sidecars moved) (raise e)))
      (and_then (activate_or_roll_back env target v existed raw moved names) (\<lambda>(i, retained).
       ret \<lparr>re_inspection = i, re_sha256 = vd_sha256 v, re_raw = raw, re_preserved = ps, re_retained = retained\<rparr>))))
       ?Q (\<lambda>e. restore_spec env target d good (Inl e)) d1"
      unfolding rk prod.case wp_and_then
    proof (rule wp_mono [OF wp_move_sides_away [OF ne P1]])
      fix moved d2
      assume 2: "preserved_in raw target (look d) d2 \<and> main_kept env target d d2
       \<and> look d2 (wal target) = None \<and> look d2 (shm target) = None
       \<and> (\<forall>m \<in> set moved. side_paths target (fst m) \<and> quarantine_paths target (rn_quarantine names) (snd m))"
      have P2: "preserved_in raw target (look d) d2" "main_kept env target d d2" "look d2 (wal target) = None"
          "look d2 (shm target) = None"
        and M: "\<forall>m \<in> set moved. side_paths target (fst m) \<and> quarantine_paths target (rn_quarantine names) (snd m)"
        using 2 by blast+
      show "wp (handle (before_switch_errors (then_do (fsync_file stage) (replace_file stage target)))
          (\<lambda>e. then_do (restore_quarantined_sidecars moved) (raise e)))
        (\<lambda>_. wp (activate_or_roll_back env target v existed raw moved names)
          (\<lambda>a. wp (case a of (i, retained) \<Rightarrow> ret \<lparr>re_inspection = i, re_sha256 = vd_sha256 v, re_raw = raw,
             re_preserved = ps, re_retained = retained\<rparr>) ?Q (\<lambda>e. restore_spec env target d good (Inl e)))
          (\<lambda>e. restore_spec env target d good (Inl e)))
        (\<lambda>e. restore_spec env target d good (Inl e)) d2"
      proof (rule wp_mono [OF wp_replace_target [OF ne P2 M stage_def [THEN meta_eq_to_obj_eq]]])
        fix u d3
        assume 3: "preserved_in raw target (look d) d3 \<and> look d3 (wal target) = None \<and> look d3 (shm target) = None"
        show "wp (activate_or_roll_back env target v existed raw moved names)
          (\<lambda>a. wp (case a of (i, retained) \<Rightarrow> ret \<lparr>re_inspection = i, re_sha256 = vd_sha256 v, re_raw = raw,
             re_preserved = ps, re_retained = retained\<rparr>) ?Q (\<lambda>e. restore_spec env target d good (Inl e)))
          (\<lambda>e. restore_spec env target d good (Inl e)) d3"
          by (rule wp_mono [OF wp_activate [OF ne _ _ _ old existed]])
            (use 2 3 in \<open>auto simp: wp_ret restore_spec_def fileset_same_def split: prod.split\<close>)
      qed (use early_spec in blast)
    qed (use early_spec in blast)
  qed (use early_spec in blast)
  have beside: "touches (beside target) (remove_stage stage)"
    using beside_names [OF ne] by (intro touch_intros) (auto simp: stage_def)
  have "4 \<le> length (''.restore-'' @ rn_stage names @ ''.tmp'' @ e)" for e by simp
  then have not_stage: "stage \<noteq> q" "sibling stage e \<noteq> q" if "q \<in> set (fileset_of target)" for q e
    using hidden_names_not_fileset(2) [OF ne that] hidden_not_fileset [OF ne that]
    by (auto simp: stage_def stage_path_def hidden_def sibling_def)
  have off: "touches (\<lambda>q. q \<notin> set (fileset_of target)) (remove_stage stage)"
    using not_stage by (intro touch_intros) auto
  have OS: "raises (\<lambda>e. e = Os_Error) (remove_stage stage)"
    unfolding remove_stage_def by (intro raise_intros) auto
  note clean = wp_conj [OF touches_wp [OF beside] wp_frame_raises [OF off OS]]
  show ?thesis
    unfolding switch_database_def wp_lastly
  proof (rule wp_mono [OF body])
    fix r d1 assume 1: "installed env v target d1 \<and> (\<exists>raw. preserved_in raw target (look d) d1)"
    show "wp (remove_stage stage) (\<lambda>_. restore_spec env target d good (Inr r)) (\<lambda>e. restore_spec env target d good (Inl e)) d1"
      by (rule wp_mono [OF clean])
        (use 1 good in \<open>auto simp: restore_spec_def elim: installed_frame intro: preserved_in_beside\<close>)
  next
    fix e d1 assume 1: "restore_spec env target d good (Inl e) d1"
    have kept: "restore_spec env target d good (Inl e) d2 \<and> restore_spec env target d good (Inl Os_Error) d2"
      if "same_outside (beside target) d1 d2" "same_outside (\<lambda>q. q \<notin> set (fileset_of target)) d1 d2" for d2
    proof -
      have "look d2 q = look d1 q" if "q \<in> set (fileset_of target)" for q
        using that \<open>same_outside (\<lambda>q. q \<notin> set (fileset_of target)) d1 d2\<close> by (simp add: same_outside_def)
      then have "fileset_same target d d1 \<Longrightarrow> fileset_same target d d2" "look d2 target = look d1 target"
        by (auto simp: fileset_same_def fileset_of_def)
      moreover have "fileset_same target d d2 \<Longrightarrow> main_kept env target d d2"
        by (simp add: fileset_same_def fileset_of_def main_kept_def)
      ultimately show ?thesis
        using 1 preserved_in_beside [OF _ that(1)] main_kept_step [of env target d d1 d2]
        by (auto simp: restore_spec_def split: if_split_asm)
    qed
    show "wp (remove_stage stage) (\<lambda>_. restore_spec env target d good (Inl e)) (\<lambda>e. restore_spec env target d good (Inl e)) d1"
      by (rule wp_mono [OF clean]) (use kept in auto)
  qed
qed

section \<open>The whole restore\<close>

definition validated_from :: "disk \<Rightarrow> path \<Rightarrow> validated \<Rightarrow> bool" where
  "validated_from d artifact v \<longleftrightarrow>
     (\<exists>bs. look d (artifact @ [manifest_name]) = Some (Plain bs (Json (vd_manifest v))))
     \<and> validate_manifest_shape (vd_manifest v) = Inr ()
     \<and> dig [''database'', ''sha256''] (vd_manifest v) = Some (JStr (vd_sha256 v))"

lemma wp_load_manifest:
  "wp (load_manifest dir) (\<lambda>m d'. look d' = look d \<and> (\<exists>bs. look d (dir @ [manifest_name]) = Some (Plain bs (Json m))))
     (\<lambda>_ _. True) d"
  unfolding load_manifest_def os_errors_as_def wp_and_then wp_handle wp_raise
  by (rule wp_mono [OF wp_read_file]) (auto simp: wp_rules split: reading.split)

lemma wp_check_seq: "(b \<Longrightarrow> wp m Q (\<lambda>_ _. True) d) \<Longrightarrow> wp (then_do (check b e) m) Q (\<lambda>_ _. True) d"
  by (simp add: wp_rules)

lemma wp_lift_seq: "(\<And>a. r = Inr a \<Longrightarrow> wp m Q (\<lambda>_ _. True) d) \<Longrightarrow> wp (then_do (lift_res r) m) Q (\<lambda>_ _. True) d"
  by (cases r) (auto simp: lift_res_def wp_rules)

lemma wp_validate: "wp (validate_sqlite_backup env dir) (\<lambda>v d'. validated_from d dir v) (\<lambda>_ _. True) d"
  unfolding validate_sqlite_backup_def Let_def wp_and_then [of "asks _"] wp_asks
proof (rule wp_check_seq, rule wp_seq [OF wp_load_manifest], rule wp_lift_seq)
  fix m d1 u
  assume m: "look d1 = look d \<and> (\<exists>bs. look d (dir @ [manifest_name]) = Some (Plain bs (Json m)))"
    and shape: "validate_manifest_shape m = Inr u"
  have tail: "wp (then_do (check (equals_int (dig [''database'', ''bytes''] m) (int n)
          \<and> dig [''database'', ''sha256''] m = Some (JStr h)) (Refused (Bad_Artifact Database_Differs)))
     (and_then (each (auxiliary_matches dir) es) (\<lambda>names.
      and_then (inspect_sqlite_database env True db) (\<lambda>i.
      then_do (lift_res (compare_inspection fail i m))
     (ret \<lparr>vd_inspection = i, vd_manifest = m, vd_sha256 = h, vd_created = c, vd_auxiliary = names\<rparr>)))))
     (\<lambda>v d'. validated_from d dir v) (\<lambda>_ _. True) d2" for n h es db fail c d2
  proof (rule wp_check_seq, intro wp_seq_any wp_lift_seq)
    fix names d3 i d4
    assume "equals_int (dig [''database'', ''bytes''] m) (int n) \<and> dig [''database'', ''sha256''] m = Some (JStr h)"
    then show "wp (ret \<lparr>vd_inspection = i, vd_manifest = m, vd_sha256 = h, vd_created = c, vd_auxiliary = names\<rparr>)
       (\<lambda>v d'. validated_from d dir v) (\<lambda>_ _. True) d4"
      using m shape by (simp add: wp_ret validated_from_def)
  qed
  show "wp (and_then (asks (\<lambda>d. is_file d (dir @ [database_name]))) (\<lambda>b.
      then_do (check b (Refused (Bad_Artifact Backup_Database_Missing)))
     (and_then (asks (\<lambda>d. present d (wal (dir @ [database_name])) \<or> present d (shm (dir @ [database_name])))) (\<lambda>b.
      then_do (check (\<not> b) (Refused (Bad_Artifact Unexpected_Sidecar)))
     (and_then (os_errors_as (Refused (Bad_Artifact Database_Unreadable))
        (and_then (file_size (dir @ [database_name])) (\<lambda>n. and_then (sha256_file (dir @ [database_name])) (\<lambda>h. ret (n, h))))) (\<lambda>(n, h).
      then_do (check (equals_int (dig [''database'', ''bytes''] m) (int n)
          \<and> dig [''database'', ''sha256''] m = Some (JStr h)) (Refused (Bad_Artifact Database_Differs)))
     (and_then (each (auxiliary_matches dir)
        (case list_of_json (dig [''auxiliaryFiles''] m) of None \<Rightarrow> [] | Some es \<Rightarrow> es)) (\<lambda>names.
      and_then (inspect_sqlite_database env True (dir @ [database_name])) (\<lambda>i.
      then_do (lift_res (compare_inspection (\<lambda>p. Bad_Artifact (Backup_Mismatch p)) i m))
     (ret \<lparr>vd_inspection = i, vd_manifest = m, vd_sha256 = h,
        vd_created = (case string_of_json (dig [''createdAt''] m) of None \<Rightarrow> [] | Some c \<Rightarrow> c),
        vd_auxiliary = names\<rparr>))))))))))
     (\<lambda>v d'. validated_from d dir v) (\<lambda>_ _. True) d1"
    unfolding case_prod_beta by (intro tail wp_seq_any wp_check_seq)
qed

lemma valid_auxiliary_raises:
  "tame R \<Longrightarrow> valid_auxiliary names es = Inl e \<Longrightarrow> R e"
  by (induction names es rule: valid_auxiliary.induct)
    (auto simp: res_simps tame_def split: json.splits option.splits if_split_asm)

lemma validate_shape_raises:
  assumes "tame R" and "R Type_Error" and "validate_manifest_shape m = Inl e" shows "R e"
  using assms(3) unfolding validate_manifest_shape_def Let_def bind_res_Inl_iff
  by (elim disjE exE conjE)
    (erule demand_raises, use assms(1,2) in \<open>simp add: tame_def\<close>, rule valid_auxiliary_raises [OF assms(1)])

lemma raises_validate: "tame R \<Longrightarrow> R Type_Error \<Longrightarrow> raises R (validate_sqlite_backup env dir)"
  unfolding validate_sqlite_backup_def load_manifest_def auxiliary_matches_def Let_def
  by (intro raise_intros raises_os_errors_as raises_small raises_inspect raises_lift_res)
    (auto intro!: raise_intros raises_os_errors_as raises_small raises_inspect raises_lift_res
      intro: validate_shape_raises compare_raises dest: tameD split: reading.splits prod.splits)

text \<open>The switch, run after the checks and the creation of the backup root, seen from the start.\<close>

lemma wp_switch_made:
  assumes A: "apart target store names"
    and U: "unused d (pending_directory store diagnostic_kind (rn_raw names))"
    and R: "list_all (regular (look d)) (fileset_of target)" and good: "good v"
    and d1: "look d1 = look d" and d2: "same_outside (\<lambda>q. prefix q store) d1 d2"
  shows "wp (switch_database env source target store (stage_path target (rn_stage names))
       version names v expected (look d1 target \<noteq> None))
     (\<lambda>r. restore_spec env target d good (Inr r)) (\<lambda>e. restore_spec env target d good (Inl e)) d2"
proof -
  have same: "look d2 q = look d q" if "q \<in> set (fileset_of target)" for q
    using d2 d1 apartD(2) [OF A that] by (simp add: same_outside_def)
  have "\<not> prefix q store" if "prefix (pending_directory store diagnostic_kind (rn_raw names)) q" for q
  proof
    assume "prefix q store"
    then have "prefix (pending_directory store diagnostic_kind (rn_raw names)) store"
      using that prefix_order.trans by blast
    then show False by (auto simp: pending_directory_def dest: prefix_length_le)
  qed
  then have "unused d2 (pending_directory store diagnostic_kind (rn_raw names))"
    using U d1 d2 by (simp add: unused_look same_outside_def)
  moreover have "regular (look d2) q" if "q \<in> set (fileset_of target)" for q
    using R same [OF that] that by (simp add: regular_def list_all_iff)
  moreover have "look d1 target \<noteq> None \<longleftrightarrow> look d2 target \<noteq> None"
    using same [of target] d1 by (simp add: fileset_of_def)
  ultimately have "wp (switch_database env source target store (stage_path target (rn_stage names))
     version names v expected (look d1 target \<noteq> None))
     (\<lambda>r. restore_spec env target d2 good (Inr r)) (\<lambda>e. restore_spec env target d2 good (Inl e)) d2"
    using good by (intro wp_switch [OF A])
  moreover have "restore_spec env target d2 good x d3 = restore_spec env target d good x d3" for x d3
    by (rule restore_spec_cong) (use same in \<open>simp add: fileset_same_def\<close>)
  ultimately show ?thesis by (elim wp_mono) auto
qed


definition demo_env :: backup_env where
  "demo_env = \<lparr>be_facts = (\<lambda>_ _. None), be_copy = (\<lambda>bs _. Some bs), be_opened = (\<lambda>_ sides. sides),
     be_checkpoint = (\<lambda>bs sides. (bs, sides, Inr None)), be_dumps = (\<lambda>_. [])\<rparr>"

definition demo_names :: restore_names where
  "demo_names = \<lparr>rn_raw = \<lparr>st_created = ''2025'', st_token = ''1''\<rparr>, rn_before = \<lparr>st_created = ''2025'', st_token = ''2''\<rparr>,
     rn_stage = ''3'', rn_quarantine = ''4'', rn_failed = ''5'', rn_rollback = ''6''\<rparr>"

text \<open>A disk with a live database, its write-ahead log, and an artifact whose manifest has a list where
  the kind should be.\<close>

definition demo_manifest :: json where
  "demo_manifest = JObj [(''formatVersion'', JInt 1), (''status'', JStr ''complete''), (''kind'', JList [])]"

definition demo_disk :: disk where
  "demo_disk = \<lparr>dk_nodes =
     [([''d''], Directory), ([''d'', ''live''], Plain [1] Not_Utf8), ([''d'', ''live-wal''], Plain [2] Not_Utf8),
      ([''b''], Directory), ([''b'', ''backup_x''], Directory),
      ([''b'', ''backup_x'', manifest_name], Plain [] (Json demo_manifest))],
     dk_faults = []\<rparr>"

lemma demo_shape: "validate_manifest_shape demo_manifest = Inl Type_Error"
  by code_simp

lemma demo_look:
  "look demo_disk [''b'', ''backup_x''] = Some Directory" "dk_faults demo_disk = []"
  "look demo_disk [''b'', ''backup_x'', manifest_name] = Some (Plain [] (Json demo_manifest))"
  "look demo_disk [''b''] = Some Directory"
  by (simp_all add: demo_disk_def look_def)

text \<open>Running a program on a disk.\<close>

lemmas io_run = and_then_def handle_def ret_def raise_def check_def asks_def lift_res_def fun_cong [OF read_file_def]
  fun_cong [OF os_errors_as_def] syscall_def untouched_def

lemma demo_validate: "validate_sqlite_backup demo_env [''b'', ''backup_x''] demo_disk = (Inl Type_Error, demo_disk)"
  by (simp add: fun_cong [OF validate_sqlite_backup_def] fun_cong [OF load_manifest_def] io_run demo_look demo_shape)

lemma demo_restore:
  "restore_sqlite_backup demo_env [''b'', ''backup_x''] [''d'', ''live''] [''b''] ''1'' True 7 demo_names demo_disk
     = (Inl Type_Error, demo_disk)"
  by (simp add: fun_cong [OF restore_sqlite_backup_def] io_run demo_validate minimum_schema_version_def)


text \<open>A damaged manifest is not skipped: an unhashable kind ends the pruning with an exception that no
  handler expects, and so do bytes that are not UTF-8.\<close>

lemma damaged_manifest_is_not_skipped:
  "good_backup demo_env [''b''] ''backup_x'' demo_disk = (Inl Type_Error, demo_disk)"
  by (simp add: fun_cong [OF good_backup_def] io_run demo_look demo_validate)

lemma undecodable_manifest_raises:
  assumes "look d (dir @ [manifest_name]) = Some (Plain bs Not_Utf8)" and "dk_faults d = []"
  shows "load_manifest dir d = (Inl Value_Error, d)"
  by (simp add: fun_cong [OF load_manifest_def] io_run assms)

text \<open>When the mode of a moved side file cannot be set, the side file stays under its quarantine
  name: the database is left without its write-ahead log.\<close>

lemma failed_mode_loses_sidecar:
  assumes "d = demo_disk\<lparr>dk_faults := [None, Some None]\<rparr>"
  shows "\<exists>d'. quarantine_sidecars [''d'', ''live''] ''4'' d = (Inl (Refused Permission_Not_Enforced), d')
     \<and> look d' [''d'', ''live-wal''] = None
     \<and> look d' (quarantine_path [''d'', ''live''] ''-wal'' ''4'') = Some (Plain [2] Not_Utf8)"
  by (simp add: assms fun_cong [OF quarantine_sidecars_def] fun_cong [OF quarantine_each.simps(2)] io_run
      fun_cong [OF replace_file_def] fun_cong [OF set_private_mode_def] fun_cong [OF touch_node_def]
      present_def sibling_def quarantine_path_def hidden_def Let_def demo_disk_def look_def put_def rid_def)

end
