(* ===== verification/Backup_Retention.thy ===== *)
theory Backup_Retention
  imports Restore_Switch
begin

text \<open>
  Retention (\<open>prune_known_good_backups\<close>): what it may delete, what it keeps, and that it deletes nothing
  when it raises.
\<close>

section \<open>Retention\<close>

definition good_at :: "disk \<Rightarrow> path \<Rightarrow> string \<Rightarrow> bool" where
  "good_at d store name \<longleftrightarrow> look d (store @ [name]) = Some Directory \<and> take 7 name = ''backup_''
     \<and> (\<exists>v. validated_from d (store @ [name]) v)"

lemma wp_good_backup:
  "wp (good_backup env store name) (\<lambda>found d'. look d' = look d
      \<and> (\<forall>f \<in> set found. snd f = name \<and> good_at d store name))
     (\<lambda>_ d'. look d' = look d) d"
proof -
  have "touches (\<lambda>_. False) (validate_sqlite_backup env (store @ [name]))" by (intro touch_intros)
  note validate = wp_conj [OF wp_validate touches_wp [OF this]]
  have body: "wp (handle (and_then (validate_sqlite_backup env (store @ [name])) (\<lambda>v. ret [(vd_created v, name)]))
       (\<lambda>e. case e of Os_Error \<Rightarrow> ret [] | Refused _ \<Rightarrow> ret [] | _ \<Rightarrow> raise e))
     (\<lambda>found d'. look d' = look d \<and> (\<forall>f \<in> set found. snd f = name \<and> (\<exists>v. validated_from d (store @ [name]) v)))
     (\<lambda>_ d'. look d' = look d) d"
    unfolding wp_handle wp_and_then wp_ret
  proof (rule wp_mono [OF validate])
    fix v d1 assume "validated_from d (store @ [name]) v \<and> same_outside (\<lambda>_. False) d d1"
    then show "look d1 = look d \<and> (\<forall>f \<in> set [(vd_created v, name)]. snd f = name \<and> (\<exists>v. validated_from d (store @ [name]) v))"
      by (auto simp: same_outside_def)
  next
    fix e :: "backup_refusal failure" and d1 assume "True \<and> same_outside (\<lambda>_. False) d d1"
    then have "look d1 = look d" by (auto simp: same_outside_def)
    then show "wp (case e of Os_Error \<Rightarrow> ret [] | Refused _ \<Rightarrow> ret [] | _ \<Rightarrow> raise e)
       (\<lambda>found d'. look d' = look d \<and> (\<forall>f \<in> set found. snd f = name \<and> (\<exists>v. validated_from d (store @ [name]) v)))
       (\<lambda>_ d'. look d' = look d) d1"
      by (cases e) (simp_all add: wp_ret wp_raise)
  qed
  show ?thesis
    unfolding good_backup_def wp_and_then [of "asks _"] wp_asks
  proof (rule wp_if)
    assume "\<not> \<not> (look d (store @ [name]) = Some Directory \<and> take 7 name = ''backup_'')"
    then have "good_at d store name" if "validated_from d (store @ [name]) v" for v
      using that unfolding good_at_def by blast
    then show "wp (handle (and_then (validate_sqlite_backup env (store @ [name])) (\<lambda>v. ret [(vd_created v, name)]))
       (\<lambda>e. case e of Os_Error \<Rightarrow> ret [] | Refused _ \<Rightarrow> ret [] | _ \<Rightarrow> raise e))
       (\<lambda>found d'. look d' = look d \<and> (\<forall>f \<in> set found. snd f = name \<and> good_at d store name))
       (\<lambda>_ d'. look d' = look d) d"
      using body by (elim wp_mono) blast+
  qed (simp add: wp_ret)
qed

lemma wp_good_backups:
  "wp (each (good_backup env store) names) (\<lambda>found d'. look d' = look d
      \<and> (\<forall>f \<in> set (concat found). good_at d store (snd f)))
     (\<lambda>_ d'. look d' = look d) d"
proof (induction names arbitrary: d)
  case (Cons n names)
  have same: "good_at d1 store n = good_at d store n" if "look d1 = look d" for d1 n
    using that by (simp add: good_at_def validated_from_def)
  show ?case
    unfolding each.simps wp_and_then wp_ret
  proof (rule wp_mono [OF wp_good_backup], rule wp_mono [OF Cons.IH])
    fix xs :: "(string \<times> string) list" and d1 and xss :: "(string \<times> string) list list" and d2
    assume 1: "look d1 = look d \<and> (\<forall>f \<in> set xs. snd f = n \<and> good_at d store n)"
      and 2: "look d2 = look d1 \<and> (\<forall>f \<in> set (concat xss). good_at d1 store (snd f))"
    have "good_at d1 store k = good_at d store k" for k using 1 by (intro same) blast
    then show "look d2 = look d \<and> (\<forall>f \<in> set (concat (xs # xss)). good_at d store (snd f))"
      using 1 2 by (auto simp del: set_concat)
  qed auto
qed (simp add: wp_rules)

lemma wp_prune_each:
  "wp (each (prune_one store) cs) (\<lambda>gone d'. length gone = length cs
      \<and> same_outside (\<lambda>q. \<exists>c \<in> set cs. prefix (store @ [snd c]) q) d d') (\<lambda>_ _. False) d"
proof -
  have "touches (\<lambda>q. \<exists>c \<in> set cs. prefix (store @ [snd c]) q) (each (prune_one store) cs)"
    by (intro touch_intros) blast
  moreover have "raises (\<lambda>_. False) (each (prune_one store) cs)"
    unfolding prune_one_def
    by (intro raise_intros raises_handle_from [where R = "\<lambda>e. e = Os_Error"]) (auto intro: raise_intros)
  moreover have "wp (each f xs) (\<lambda>ys _. length ys = length xs) (\<lambda>_ _. True) d" for f :: "'x \<Rightarrow> 'y backup_io" and xs d
  proof (induction xs arbitrary: d)
    case (Cons x xs)
    show ?case
      unfolding each.simps by (rule wp_seq [OF wp_True], rule wp_seq [OF Cons.IH]) (simp add: wp_ret)
  qed (simp add: wp_ret)
  ultimately show ?thesis
    by (rule wp_mono [OF wp_conj [OF wp_frame_raises]]) auto
qed


end
