(* ===== verification/Health.thy ===== *)
theory Health
  imports Backup_Manifest
begin

text \<open>
  The readiness check (\<^verbatim>\<open>backend/health.py\<close>): the probes of the database and of the two directories,
  and the verdict. What SQLite and the operating system answer are arguments; the rows of the settings
  table are modelled, with the transaction that the probe opens and the one that SQLite makes of a
  statement outside a transaction.
\<close>

section \<open>Components\<close>

datatype health = Healthy | Degraded | Unhealthy | Not_Checked

record component =
  cm_status :: health
  cm_required :: bool
  cm_checks :: "(string \<times> health) list"

section \<open>The write probe\<close>

text \<open>The committed keys of the settings table, and those of the open transaction.\<close>

record settings_store =
  ss_committed :: "string list"
  ss_open :: "string list option"

record sql_answers =
  sa_begin :: bool
  sa_insert :: bool
  sa_select :: bool
  sa_rollback :: bool
  sa_again :: bool

definition visible :: "settings_store \<Rightarrow> string list" where
  "visible db = (case ss_open db of Some keys \<Rightarrow> keys | None \<Rightarrow> ss_committed db)"

text \<open>A statement that changes rows is committed at once when no transaction is open.\<close>

definition insert_key :: "string \<Rightarrow> settings_store \<Rightarrow> settings_store" where
  "insert_key k db = (case ss_open db of
     Some keys \<Rightarrow> db\<lparr>ss_open := Some (k # keys)\<rparr> | None \<Rightarrow> db\<lparr>ss_committed := k # ss_committed db\<rparr>)"

definition roll_back :: "settings_store \<Rightarrow> settings_store" where
  "roll_back db = db\<lparr>ss_open := None\<rparr>"

text \<open>The statements of the first block, up to the one that fails.\<close>

definition probe_insert :: "sql_answers \<Rightarrow> string \<Rightarrow> settings_store \<Rightarrow> settings_store \<times> bool" where
  "probe_insert a k db =
     (if \<not> sa_begin a then (db, False)
      else (let started = db\<lparr>ss_open := Some (visible db)\<rparr> in
        if \<not> sa_insert a \<or> k \<in> set (visible started) then (started, False)
        else (let inserted = insert_key k started in (inserted, sa_select a \<and> k \<in> set (visible inserted)))))"

definition write_probe_rolls_back :: "sql_answers \<Rightarrow> string \<Rightarrow> settings_store \<Rightarrow> settings_store \<times> bool" where
  "write_probe_rolls_back a k db =
     (case probe_insert a k db of (db', inserted) \<Rightarrow>
        (let db'' = (if sa_rollback a then roll_back db' else db') in
         (db'', inserted \<and> sa_rollback a \<and> sa_again a \<and> k \<notin> set (visible db''))))"

section \<open>The database\<close>

text \<open>\<open>None\<close> stands for an exception that the check catches (of a call after the first). \<open>dp_is_file\<close> is
  asked before the block that catches exceptions: \<open>None\<close> is an error of the operating system there.\<close>

record database_probe =
  dp_is_file :: "bool option"
  dp_connects :: bool
  dp_reads :: "bool option"
  dp_tables :: "string list option"
  dp_version :: "int option"
  dp_columns :: "string \<Rightarrow> string list option"
  dp_selects :: "string \<Rightarrow> bool"
  dp_answers :: sql_answers
  dp_key :: string
  dp_closes :: bool

fun tables_ready :: "database_probe \<Rightarrow> (string \<times> string list) list \<Rightarrow> bool option" where
  "tables_ready p [] = Some True"
| "tables_ready p ((table, required) # rest) =
     (case dp_columns p table of
        None \<Rightarrow> None
      | Some actual \<Rightarrow>
          if \<not> set required \<subseteq> set actual then Some False
          else if \<not> dp_selects p table then None else tables_ready p rest)"

definition schema_is_ready :: "database_probe \<Rightarrow> bool option" where
  "schema_is_ready p =
     (case (dp_tables p, dp_version p) of
        (Some tables, Some version) \<Rightarrow>
          if \<not> set core_tables \<subseteq> set tables \<or> version < minimum_schema_version then Some False
          else tables_ready p required_columns
      | _ \<Rightarrow> None)"

definition verdict :: "bool \<Rightarrow> health" where
  "verdict ok = (if ok then Healthy else Unhealthy)"

text \<open>The checks \<open>read\<close>, \<open>schema\<close> and \<open>write\<close>, as far as they get before an exception.\<close>

definition database_checks :: "database_probe \<Rightarrow> settings_store \<Rightarrow> settings_store \<times> health \<times> health \<times> health" where
  "database_checks p db =
     (if \<not> dp_connects p then (db, Not_Checked, Not_Checked, Not_Checked)
      else case dp_reads p of
        None \<Rightarrow> (db, Not_Checked, Not_Checked, Not_Checked)
      | Some reads \<Rightarrow>
          (case schema_is_ready p of
             None \<Rightarrow> (db, verdict reads, Not_Checked, Not_Checked)
           | Some ready \<Rightarrow>
               if reads \<and> ready
               then (case write_probe_rolls_back (dp_answers p) (dp_key p) db of
                   (db', ok) \<Rightarrow> (db', Healthy, Healthy, verdict ok))
               else (db, verdict reads, verdict ready, Not_Checked)))"

text \<open>Closing the connection drops what is left of a transaction.\<close>

definition check_database :: "database_probe \<Rightarrow> settings_store \<Rightarrow> (settings_store \<times> component) option" where
  "check_database p db =
     (case dp_is_file p of
        None \<Rightarrow> None
      | Some False \<Rightarrow> Some (db, \<lparr>cm_status = Unhealthy, cm_required = True,
          cm_checks = [(''exists'', Unhealthy), (''read'', Not_Checked), (''schema'', Not_Checked), (''write'', Not_Checked)]\<rparr>)
      | Some True \<Rightarrow>
          (case database_checks p db of (db', reads, schema, writes) \<Rightarrow>
             (let writes' = (if dp_connects p \<and> \<not> dp_closes p then Unhealthy else writes);
                  checks = [(''exists'', Healthy), (''read'', reads), (''schema'', schema), (''write'', writes')]
              in Some (roll_back db', \<lparr>cm_status = verdict (list_all (\<lambda>(_, h). h = Healthy) checks),
                   cm_required = True, cm_checks = checks\<rparr>))))"

section \<open>Directories\<close>

text \<open>\<open>fp_left\<close> of the answer says whether the probe's file is still there.\<close>

record directory_probe =
  fp_is_dir :: "bool option"
  fp_creates :: bool
  fp_writes :: bool
  fp_unlinks :: bool

definition check_directory :: "directory_probe \<Rightarrow> bool \<Rightarrow> (component \<times> bool) option" where
  "check_directory p required =
     (let failed = (if required then Unhealthy else Degraded) in
      case fp_is_dir p of
        None \<Rightarrow> None
      | Some False \<Rightarrow> Some (\<lparr>cm_status = failed, cm_required = required,
          cm_checks = [(''exists'', failed), (''writable'', Not_Checked), (''cleanup'', Not_Checked)]\<rparr>, False)
      | Some True \<Rightarrow>
          (let writable = (if fp_creates p \<and> fp_writes p then Healthy else failed);
               cleanup = (if \<not> fp_creates p then Not_Checked else if fp_unlinks p then Healthy else failed)
           in Some (\<lparr>cm_status = (if writable = Healthy \<and> cleanup = Healthy then Healthy else failed),
                cm_required = required,
                cm_checks = [(''exists'', Healthy), (''writable'', writable), (''cleanup'', cleanup)]\<rparr>,
              fp_creates p \<and> \<not> fp_unlinks p)))"

section \<open>The verdict\<close>

definition version_char :: "char \<Rightarrow> bool" where
  "version_char ch \<longleftrightarrow> is_alpha_ascii ch \<or> is_digit ch \<or> ch \<in> set ''._+-''"

definition safe_version :: "string \<Rightarrow> string" where
  "safe_version value =
     (let candidate = strip value in
      if candidate \<noteq> [] \<and> length candidate \<le> 128 \<and> (is_alpha_ascii (hd candidate) \<or> is_digit (hd candidate))
        \<and> list_all version_char candidate
      then candidate else ''unknown'')"

record readiness =
  rd_status_code :: nat
  rd_status :: health
  rd_version :: string
  rd_checked_at :: string
  rd_components :: "(string \<times> component) list"

definition overall :: "component list \<Rightarrow> health" where
  "overall cs =
     (if list_ex (\<lambda>m. cm_required m \<and> cm_status m \<noteq> Healthy) cs then Unhealthy
      else if list_ex (\<lambda>m. \<not> cm_required m \<and> cm_status m \<noteq> Healthy) cs then Degraded else Healthy)"

definition no_exports :: component where
  "no_exports = \<lparr>cm_status = Degraded, cm_required = False,
     cm_checks = [(''exists'', Not_Checked), (''writable'', Not_Checked), (''cleanup'', Not_Checked)]\<rparr>"

text \<open>\<open>None\<close> is an exception of the operating system that nothing catches.\<close>

definition check_readiness ::
  "database_probe \<Rightarrow> directory_probe \<Rightarrow> directory_probe option \<Rightarrow> string \<Rightarrow> string \<Rightarrow> settings_store
    \<Rightarrow> (settings_store \<times> readiness) option" where
  "check_readiness dp data exports version now db =
     (case check_database dp db of
        None \<Rightarrow> None
      | Some (db', database) \<Rightarrow>
          (case (check_directory data True,
                 case exports of None \<Rightarrow> Some (no_exports, False) | Some p \<Rightarrow> check_directory p False) of
             (Some (storage, _), Some (exported, _)) \<Rightarrow>
               (let parts = [(''process'', \<lparr>cm_status = Healthy, cm_required = True, cm_checks = []\<rparr>),
                      (''database'', database), (''dataStorage'', storage), (''exportStorage'', exported)];
                    status = overall (map snd parts)
                in Some (db', \<lparr>rd_status_code = (if status = Unhealthy then 503 else 200), rd_status = status,
                     rd_version = safe_version version, rd_checked_at = now, rd_components = parts\<rparr>))
           | _ \<Rightarrow> None))"

section \<open>What readiness rests on\<close>

lemma roll_back_simps [simp]:
  "ss_committed (roll_back db) = ss_committed db" "ss_open (roll_back db) = None"
  by (simp_all add: roll_back_def)

lemma write_probe_committed [simp]:
  "ss_committed (fst (write_probe_rolls_back a k db)) = ss_committed db"
  by (auto simp: write_probe_rolls_back_def probe_insert_def insert_key_def Let_def split: prod.split)

lemma write_probe_ok:
  "snd (write_probe_rolls_back a k db) \<Longrightarrow> sa_begin a \<and> sa_insert a \<and> sa_select a \<and> sa_rollback a \<and> sa_again a"
  by (auto simp: write_probe_rolls_back_def probe_insert_def Let_def split: if_split_asm prod.split_asm)

lemma database_checks_committed:
  assumes "database_checks p db = (db', cs)"
  shows "ss_committed db' = ss_committed db"
proof -
  obtain db1 ok where w: "write_probe_rolls_back (dp_answers p) (dp_key p) db = (db1, ok)" by fastforce
  then have "ss_committed db1 = ss_committed db" using write_probe_committed by (metis fst_conv)
  then show ?thesis
    using assms by (auto simp: database_checks_def w split: if_split_asm option.split_asm)
qed

text \<open>The tables and columns that the check asks for are there and can be read.\<close>

definition schema_usable :: "database_probe \<Rightarrow> bool" where
  "schema_usable p \<longleftrightarrow>
     (\<exists>tables version. dp_tables p = Some tables \<and> set core_tables \<subseteq> set tables
        \<and> dp_version p = Some version \<and> minimum_schema_version \<le> version)
     \<and> list_all (\<lambda>(table, required). dp_selects p table
         \<and> (case dp_columns p table of None \<Rightarrow> False | Some actual \<Rightarrow> set required \<subseteq> set actual)) required_columns"

lemma tables_ready_iff:
  "tables_ready p ts = Some True \<longleftrightarrow> list_all (\<lambda>(table, required). dp_selects p table
     \<and> (case dp_columns p table of None \<Rightarrow> False | Some actual \<Rightarrow> set required \<subseteq> set actual)) ts"
  by (induction p ts rule: tables_ready.induct) (auto split: option.split)

lemma schema_is_ready_iff: "schema_is_ready p = Some True \<longleftrightarrow> schema_usable p"
  unfolding schema_is_ready_def schema_usable_def tables_ready_iff [symmetric]
  by (auto simp: not_less split: option.split)

lemma database_checks_healthy:
  assumes "database_checks p db = (db', reads, schema, writes)"
  shows "reads = Healthy \<and> schema = Healthy \<and> writes = Healthy \<longleftrightarrow>
    dp_connects p \<and> dp_reads p = Some True \<and> schema_is_ready p = Some True
    \<and> snd (write_probe_rolls_back (dp_answers p) (dp_key p) db)"
  using assms unfolding database_checks_def verdict_def
  by (auto split: if_split_asm option.split_asm prod.split_asm)

lemma check_database_cases:
  assumes "check_database p db = Some (db', m)"
  shows "ss_committed db' = ss_committed db" "cm_required m" "db' = db \<or> ss_open db' = None"
    and "cm_status m = Healthy \<longleftrightarrow> dp_is_file p = Some True \<and> dp_connects p \<and> dp_closes p
        \<and> dp_reads p = Some True \<and> schema_usable p \<and> snd (write_probe_rolls_back (dp_answers p) (dp_key p) db)"
proof -
  obtain db1 reads schema writes where c: "database_checks p db = (db1, reads, schema, writes)"
    using prod_cases4 by blast
  note facts = database_checks_committed [OF c] database_checks_healthy [OF c, unfolded schema_is_ready_iff]
  have asked: "dp_is_file p = Some False \<or> dp_is_file p = Some True"
    using assms by (auto simp: check_database_def split: option.split_asm)
  show "ss_committed db' = ss_committed db" "cm_required m" "db' = db \<or> ss_open db' = None"
    using assms asked facts(1) by (auto simp: check_database_def c Let_def)
  show "cm_status m = Healthy \<longleftrightarrow> dp_is_file p = Some True \<and> dp_connects p \<and> dp_closes p
      \<and> dp_reads p = Some True \<and> schema_usable p \<and> snd (write_probe_rolls_back (dp_answers p) (dp_key p) db)"
    using asked
  proof
    assume t: "dp_is_file p = Some True"
    then have "cm_status m = Healthy \<longleftrightarrow> reads = Healthy \<and> schema = Healthy \<and> writes = Healthy
        \<and> \<not> (dp_connects p \<and> \<not> dp_closes p)"
      using assms by (auto simp: check_database_def c Let_def verdict_def split: if_split_asm)
    then show ?thesis using facts(2) t by blast
  next
    assume "dp_is_file p = Some False"
    then show ?thesis using assms by (auto simp: check_database_def)
  qed
qed

lemma check_directory_cases:
  assumes "check_directory p required = Some (m, left)"
  shows "cm_required m = required"
    and "cm_status m = Healthy \<longleftrightarrow> fp_is_dir p = Some True \<and> fp_creates p \<and> fp_writes p \<and> fp_unlinks p"
    and "left \<Longrightarrow> cm_status m \<noteq> Healthy"
  using assms by (auto simp: check_directory_def Let_def split: if_split_asm option.split_asm bool.split_asm)

text \<open>The check says ready exactly when the application can run: the database file opens and closes, holds every
  core table with its columns at a supported version, and a write succeeds and can be undone; the data
  directory takes a file and lets it go. The database holds afterwards what it held before, and no transaction
  is left open.\<close>

theorem ready_means_usable:
  "case check_readiness dp data exports version now db of
     None \<Rightarrow> True
   | Some (db', r) \<Rightarrow>
       ss_committed db' = ss_committed db
       \<and> (db' = db \<or> ss_open db' = None)
       \<and> rd_status_code r = (if dp_is_file dp = Some True \<and> dp_connects dp \<and> dp_closes dp
             \<and> dp_reads dp = Some True \<and> schema_usable dp
             \<and> snd (write_probe_rolls_back (dp_answers dp) (dp_key dp) db)
             \<and> fp_is_dir data = Some True \<and> fp_creates data \<and> fp_writes data \<and> fp_unlinks data
           then 200 else 503)"
proof (cases "check_readiness dp data exports version now db")
  case (Some x)
  obtain db' r where x: "x = (db', r)" by fastforce
  obtain m where d: "check_database dp db = Some (db', m)"
    using Some unfolding x check_readiness_def Let_def by (auto split: option.split_asm)
  obtain storage left where s: "check_directory data True = Some (storage, left)"
    using Some unfolding x check_readiness_def by (auto simp: d split: option.split_asm)
  obtain exported left'
    where e: "(case exports of None \<Rightarrow> Some (no_exports, False) | Some p \<Rightarrow> check_directory p False) = Some (exported, left')"
    using Some unfolding x check_readiness_def d s
    by (cases "case exports of None \<Rightarrow> Some (no_exports, False) | Some p \<Rightarrow> check_directory p False") auto
  have r: "rd_status_code r = (if overall [\<lparr>cm_status = Healthy, cm_required = True, cm_checks = []\<rparr>, m, storage, exported]
      = Unhealthy then 503 else 200)"
    using Some unfolding x check_readiness_def d s e Let_def by auto
  have "\<not> cm_required exported"
    using e check_directory_cases(1) by (cases exports) (auto simp: no_exports_def)
  then have "overall [\<lparr>cm_status = Healthy, cm_required = True, cm_checks = []\<rparr>, m, storage, exported] = Unhealthy
      \<longleftrightarrow> cm_status m \<noteq> Healthy \<or> cm_status storage \<noteq> Healthy"
    using check_database_cases(2) [OF d] check_directory_cases(1) [OF s] by (auto simp: overall_def)
  then show ?thesis
    using r check_database_cases(1,3) [OF d]
    unfolding Some x check_database_cases(4) [OF d] check_directory_cases(2) [OF s] by auto
qed simp

text \<open>An error of the operating system in the very first question is not caught.\<close>

lemma unreadable_path_escapes: "dp_is_file dp = None \<Longrightarrow> check_readiness dp data exports version now db = None"
  by (simp add: check_readiness_def check_database_def)

end
