(* ===== verification/Health_Cache.thy ===== *)
theory Health_Cache
  imports Health "HOL-Library.Multiset"
begin

text \<open>
  \<open>ReadinessCache\<close> of \<^verbatim>\<open>backend/health.py\<close>: threads that ask for the same key wait for the one that runs the
  check, and share its result until it expires. A step is what a thread does while it holds the lock; the
  check itself runs without it.
\<close>

section \<open>State\<close>

type_synonym probe_key = "string \<times> string \<times> string option \<times> string"

text \<open>A thread that waits sleeps until the condition is notified; it is then awake, and goes on once it has
  the lock.\<close>

datatype phase = Asleep | Awake | Checking

record asker =
  ak_key :: probe_key
  ak_phase :: phase

text \<open>\<open>hc_finished\<close> and \<open>hc_served\<close> record the checks that returned, and what the threads got, with the time.\<close>

record health_cache =
  hc_ttl :: rat
  hc_entries :: "(probe_key \<times> rat \<times> readiness) list"
  hc_in_flight :: "probe_key list"
  hc_threads :: "(nat \<times> asker) list"
  hc_clock :: rat
  hc_finished :: "(probe_key \<times> readiness \<times> rat) list"
  hc_served :: "(probe_key \<times> readiness \<times> rat) list"

definition new_cache :: "rat \<Rightarrow> health_cache option" where
  "new_cache ttl =
     (if ttl \<le> 0 then None
      else Some \<lparr>hc_ttl = ttl, hc_entries = [], hc_in_flight = [], hc_threads = [], hc_clock = 0,
        hc_finished = [], hc_served = []\<rparr>)"

section \<open>Steps\<close>

text \<open>Without a current entry: run the check, or wait for the thread that does.\<close>

definition ask :: "nat \<Rightarrow> probe_key \<Rightarrow> health_cache \<Rightarrow> health_cache" where
  "ask who key h =
     (let h' = h\<lparr>hc_entries := AList.delete key (hc_entries h)\<rparr> in
      if key \<notin> set (hc_in_flight h)
      then h'\<lparr>hc_in_flight := key # hc_in_flight h,
             hc_threads := AList.update who \<lparr>ak_key = key, ak_phase = Checking\<rparr> (hc_threads h)\<rparr>
      else h'\<lparr>hc_threads := AList.update who \<lparr>ak_key = key, ak_phase = Asleep\<rparr> (hc_threads h)\<rparr>)"

text \<open>One turn of the loop in \<open>get\<close>.\<close>

definition turn :: "nat \<Rightarrow> probe_key \<Rightarrow> health_cache \<Rightarrow> health_cache" where
  "turn who key h =
     (case map_of (hc_entries h) key of
        Some (expires, r) \<Rightarrow>
          if hc_clock h < expires
          then h\<lparr>hc_threads := AList.delete who (hc_threads h), hc_served := (key, r, hc_clock h) # hc_served h\<rparr>
          else ask who key h
      | None \<Rightarrow> ask who key h)"

definition wake_all :: "(nat \<times> asker) list \<Rightarrow> (nat \<times> asker) list" where
  "wake_all = map (\<lambda>(who, a). (who, if ak_phase a = Asleep then a\<lparr>ak_phase := Awake\<rparr> else a))"

text \<open>The check has returned, or raised: the others are woken either way.\<close>

definition finish_check :: "nat \<Rightarrow> probe_key \<Rightarrow> readiness option \<Rightarrow> health_cache \<Rightarrow> health_cache" where
  "finish_check who key result h =
     (let h' = h\<lparr>hc_in_flight := removeAll key (hc_in_flight h),
            hc_threads := wake_all (AList.delete who (hc_threads h))\<rparr>
      in case result of
           None \<Rightarrow> h'
         | Some r \<Rightarrow> h'\<lparr>hc_entries := AList.update key (hc_clock h + hc_ttl h, r) (hc_entries h),
             hc_finished := (key, r, hc_clock h) # hc_finished h,
             hc_served := (key, r, hc_clock h) # hc_served h\<rparr>)"

datatype cache_event =
    Get nat probe_key
  | Resume nat
  | Checked nat "readiness option"
  | Forget
  | Later rat

text \<open>A thread asks once at a time; events that do not fit its phase are ignored.\<close>

fun cache_step :: "cache_event \<Rightarrow> health_cache \<Rightarrow> health_cache" where
  "cache_step (Get who key) h = (if map_of (hc_threads h) who = None then turn who key h else h)"
| "cache_step (Resume who) h =
     (case map_of (hc_threads h) who of
        Some a \<Rightarrow> if ak_phase a = Awake then turn who (ak_key a) h else h
      | None \<Rightarrow> h)"
| "cache_step (Checked who result) h =
     (case map_of (hc_threads h) who of
        Some a \<Rightarrow> if ak_phase a = Checking then finish_check who (ak_key a) result h else h
      | None \<Rightarrow> h)"
| "cache_step Forget h = h\<lparr>hc_entries := []\<rparr>"
| "cache_step (Later t) h = h\<lparr>hc_clock := max (hc_clock h) t\<rparr>"

section \<open>Checks are shared\<close>

text \<open>The keys that threads check right now.\<close>

definition under_check :: "(nat \<times> asker) list \<Rightarrow> probe_key list" where
  "under_check ts = map (\<lambda>(_, a). ak_key a) (filter (\<lambda>(_, a). ak_phase a = Checking) ts)"

definition current :: "health_cache \<Rightarrow> probe_key \<times> readiness \<times> rat \<Rightarrow> bool" where
  "current h = (\<lambda>(k, r, t). \<exists>f. (k, r, f) \<in> set (hc_finished h) \<and> f \<le> t \<and> t < f + hc_ttl h)"

text \<open>No key is checked twice at a time, nobody sleeps without a check under way for the same key, and
  entries and results come from checks that returned.\<close>

definition threads_ok :: "(nat \<times> asker) list \<Rightarrow> probe_key list \<Rightarrow> bool" where
  "threads_ok ts flight \<longleftrightarrow> distinct (map fst ts) \<and> distinct flight \<and> mset (under_check ts) = mset flight
     \<and> (\<forall>(who, a) \<in> set ts. ak_phase a = Asleep \<longrightarrow> ak_key a \<in> set flight)"

definition results_ok :: "health_cache \<Rightarrow> bool" where
  "results_ok h \<longleftrightarrow> 0 < hc_ttl h
     \<and> (\<forall>(k, expires, r) \<in> set (hc_entries h). (k, r, expires - hc_ttl h) \<in> set (hc_finished h)
          \<and> expires - hc_ttl h \<le> hc_clock h)
     \<and> (\<forall>x \<in> set (hc_served h). current h x)"

lemma under_check_simps [simp]:
  "under_check [] = []"
  "under_check ((who, a) # ts) = (if ak_phase a = Checking then ak_key a # under_check ts else under_check ts)"
  by (simp_all add: under_check_def)

lemma under_check_update:
  "distinct (map fst ts) \<Longrightarrow> (\<And>a. map_of ts who = Some a \<Longrightarrow> ak_phase a \<noteq> Checking) \<Longrightarrow>
    mset (under_check (AList.update who b ts))
      = (if ak_phase b = Checking then {#ak_key b#} else {#}) + mset (under_check ts)"
  by (induction ts) (auto split: if_split_asm)

lemma under_check_delete:
  "distinct (map fst ts) \<Longrightarrow> map_of ts who = Some a \<Longrightarrow>
    mset (under_check ts) = (if ak_phase a = Checking then {#ak_key a#} else {#}) + mset (under_check (AList.delete who ts))"
  by (induction ts) (auto simp: delete_id split: if_split_asm)

lemma wake_all_simps [simp]:
  "map fst (wake_all ts) = map fst ts" "under_check (wake_all ts) = under_check ts"
  unfolding wake_all_def under_check_def by (induction ts) (auto split: if_split_asm)

lemma wake_all_awake: "(who, a) \<in> set (wake_all ts) \<Longrightarrow> ak_phase a \<noteq> Asleep"
  by (auto simp: wake_all_def split: if_split_asm)

lemma ask_threads:
  assumes "threads_ok (hc_threads h) (hc_in_flight h)"
    and "\<And>a. map_of (hc_threads h) who = Some a \<Longrightarrow> ak_phase a \<noteq> Checking"
  shows "threads_ok (hc_threads (ask who key h)) (hc_in_flight (ask who key h))"
  using assms under_check_update [of "hc_threads h" who] update_subset [of who _ "hc_threads h"]
  by (fastforce simp: threads_ok_def ask_def Let_def distinct_update)

lemma threads_ok_delete:
  assumes "threads_ok ts flight" "map_of ts who = Some a" "ak_phase a \<noteq> Checking"
  shows "threads_ok (AList.delete who ts) flight"
  using assms under_check_delete [of ts who a] delete_subset [of who ts]
  by (auto simp: threads_ok_def distinct_delete)

lemma turn_threads:
  assumes "threads_ok (hc_threads h) (hc_in_flight h)"
    and "\<And>a. map_of (hc_threads h) who = Some a \<Longrightarrow> ak_phase a \<noteq> Checking"
  shows "threads_ok (hc_threads (turn who key h)) (hc_in_flight (turn who key h))"
proof -
  have "threads_ok (AList.delete who (hc_threads h)) (hc_in_flight h)"
  proof (cases "map_of (hc_threads h) who")
    case None
    then show ?thesis using assms(1) by (simp add: map_of_eq_None_iff)
  next
    case (Some a)
    then show ?thesis using threads_ok_delete assms by blast
  qed
  then show ?thesis using ask_threads [OF assms] by (auto simp: turn_def split: option.split)
qed

lemma finish_threads:
  assumes ok: "threads_ok (hc_threads h) (hc_in_flight h)"
    and a: "map_of (hc_threads h) who = Some a" "ak_phase a = Checking"
  shows "threads_ok (hc_threads (finish_check who (ak_key a) result h)) (hc_in_flight (finish_check who (ak_key a) result h))"
proof -
  have "mset (under_check (AList.delete who (hc_threads h))) = mset (removeAll (ak_key a) (hc_in_flight h))"
    using ok under_check_delete [of "hc_threads h" who a] a
    by (simp add: threads_ok_def distinct_remove1_removeAll [symmetric])
  then show ?thesis
    using ok wake_all_awake
    by (auto simp: threads_ok_def finish_check_def Let_def distinct_delete distinct_removeAll split: option.split)
qed

lemma step_threads:
  assumes "threads_ok (hc_threads h) (hc_in_flight h)"
  shows "threads_ok (hc_threads (cache_step ev h)) (hc_in_flight (cache_step ev h))"
  using assms by (cases ev) (auto intro: turn_threads finish_threads split: option.split)

lemma current_grows: "current h x \<Longrightarrow> set (hc_finished h) \<subseteq> set (hc_finished h') \<Longrightarrow> hc_ttl h' = hc_ttl h \<Longrightarrow> current h' x"
  by (auto simp: current_def)

lemma ask_results: "results_ok h \<Longrightarrow> results_ok (ask who key h)"
  using delete_subset [of key "hc_entries h"]
  by (auto simp: results_ok_def ask_def Let_def current_def)

lemma turn_results:
  assumes "results_ok h" shows "results_ok (turn who key h)"
proof (cases "map_of (hc_entries h) key")
  case None
  then show ?thesis using ask_results [OF assms] by (simp add: turn_def)
next
  case (Some x)
  obtain expires r where x: "x = (expires, r)" by fastforce
  have "(key, expires, r) \<in> set (hc_entries h)" using map_of_SomeD [OF Some] by (simp add: x)
  then have "(key, r, expires - hc_ttl h) \<in> set (hc_finished h)" "expires - hc_ttl h \<le> hc_clock h"
    using assms by (auto simp: results_ok_def)
  then have "current h (key, r, hc_clock h)" if "hc_clock h < expires"
    using that unfolding current_def by (intro case_prodI exI [of _ "expires - hc_ttl h"]) simp
  then show ?thesis
    using assms ask_results [OF assms] by (auto simp: turn_def Some x results_ok_def current_def)
qed

lemma finish_results:
  assumes "results_ok h" shows "results_ok (finish_check who key result h)"
proof (cases result)
  case None
  then show ?thesis using assms by (auto simp: finish_check_def results_ok_def current_def Let_def)
next
  case (Some r)
  let ?h = "finish_check who key result h"
  have h: "hc_finished ?h = (key, r, hc_clock h) # hc_finished h" "hc_ttl ?h = hc_ttl h" "hc_clock ?h = hc_clock h"
    "hc_served ?h = (key, r, hc_clock h) # hc_served h" "hc_entries ?h = AList.update key (hc_clock h + hc_ttl h, r) (hc_entries h)"
    by (simp_all add: finish_check_def Some Let_def)
  have "current ?h (key, r, hc_clock h)" using assms by (auto simp: current_def h results_ok_def)
  moreover have "current ?h x" if "x \<in> set (hc_served h)" for x
  proof (rule current_grows)
    show "current h x" using assms that by (simp add: results_ok_def)
  qed (auto simp: h)
  ultimately show ?thesis
    using assms update_subset [of key "(hc_clock h + hc_ttl h, r)" "hc_entries h"]
    by (auto simp: results_ok_def h)
qed

lemma step_results:
  assumes "results_ok h" shows "results_ok (cache_step ev h)"
proof (cases ev)
  case Forget
  then show ?thesis using assms by (auto simp: results_ok_def current_def)
next
  case (Later t)
  then show ?thesis using assms by (auto simp: results_ok_def current_def)
qed (use assms in \<open>auto simp: turn_results finish_results split: option.split\<close>)

text \<open>C17. Whatever the threads do and however they are woken: no key is checked by two threads at a time, a
  thread sleeps only while another checks for the same key (and is woken when that ends, with a result or
  with an exception), and every result that is handed out comes from a check of the same key that returned
  less than the time to live ago.\<close>

theorem readiness_checks_are_shared:
  "case new_cache ttl of
     None \<Rightarrow> ttl \<le> 0
   | Some start \<Rightarrow>
       (let h = fold cache_step events start in
        distinct (under_check (hc_threads h))
        \<and> list_all (\<lambda>(_, a). if ak_phase a = Asleep then ak_key a \<in> set (under_check (hc_threads h)) else True) (hc_threads h)
        \<and> list_all (\<lambda>(k, r, t). \<exists>f. (k, r, f) \<in> set (hc_finished h) \<and> f \<le> t \<and> t < f + ttl) (hc_served h))"
proof (cases "ttl \<le> 0")
  case False
  then obtain start where start: "new_cache ttl = Some start" by (simp add: new_cache_def)
  have ttl: "hc_ttl (fold cache_step events h) = hc_ttl h" for h
  proof (induction events arbitrary: h)
    case (Cons ev events)
    have "hc_ttl (cache_step ev h) = hc_ttl h"
      by (cases ev) (auto simp: turn_def ask_def finish_check_def Let_def split: option.split)
    then show ?case using Cons by simp
  qed simp
  have "threads_ok (hc_threads h) (hc_in_flight h) \<Longrightarrow> results_ok h \<Longrightarrow>
      threads_ok (hc_threads (fold cache_step events h)) (hc_in_flight (fold cache_step events h))
      \<and> results_ok (fold cache_step events h)" for h
    by (induction events arbitrary: h) (simp_all add: step_threads step_results del: cache_step.simps)
  moreover have "threads_ok (hc_threads start) (hc_in_flight start)" "results_ok start" "hc_ttl start = ttl"
    using False start by (auto simp: new_cache_def threads_ok_def under_check_def results_ok_def)
  ultimately have "threads_ok (hc_threads (fold cache_step events start)) (hc_in_flight (fold cache_step events start))"
    "results_ok (fold cache_step events start)" "hc_ttl (fold cache_step events start) = ttl" by (simp_all add: ttl)
  moreover from this(1) have "distinct (under_check (hc_threads (fold cache_step events start)))"
    "set (under_check (hc_threads (fold cache_step events start))) = set (hc_in_flight (fold cache_step events start))"
    by (metis threads_ok_def mset_eq_imp_distinct_iff) (metis threads_ok_def mset_eq_setD calculation(1))
  ultimately show ?thesis
    unfolding start Let_def by (auto simp: threads_ok_def results_ok_def current_def list_all_iff)
qed (simp add: new_cache_def)

end
