(* ===== verification/Return_Paths.thy ===== *)
theory Return_Paths
  imports Py_Url_Join Py_Crypto
begin

text \<open>
  Where a login may send the browser back to (\<open>safe_return_path\<close> of \<^verbatim>\<open>backend/blueash_auth.py\<close>).
  The path is percent-decoded again and again, and every stage has to stay inside the application.
  Decoding can leave the range of the modelled characters, so the stages are lists of code points.
\<close>

section \<open>Percent-decoding\<close>

type_synonym ucs = "nat list"

definition hex_point :: "nat \<Rightarrow> nat option" where
  "hex_point n =
     (if 48 \<le> n \<and> n \<le> 57 then Some (n - 48)
      else if 97 \<le> n \<and> n \<le> 102 then Some (n - 87)
      else if 65 \<le> n \<and> n \<le> 70 then Some (n - 55)
      else None)"

text \<open>\<open>unquote_to_bytes\<close> of a run of ASCII characters.\<close>

fun percent_bytes :: "ucs \<Rightarrow> nat list" where
  "percent_bytes (c # a # b # rest) =
     (if c = 37
      then (case (hex_point a, hex_point b) of
              (Some x, Some y) \<Rightarrow> (16 * x + y) # percent_bytes rest
            | _ \<Rightarrow> 37 # percent_bytes (a # b # rest))
      else c # percent_bytes (a # b # rest))"
| "percent_bytes cs = cs"

text \<open>\<open>bytes.decode("utf-8", "replace")\<close>: what cannot be decoded becomes one replacement character
  for each maximal part of a sequence that could have begun there.\<close>

definition second_range :: "nat \<Rightarrow> nat \<times> nat" where
  "second_range b =
     (if b = 224 then (160, 191) else if b = 237 then (128, 159)
      else if b = 240 then (144, 191) else if b = 244 then (128, 143) else (128, 191))"

definition trail :: "nat \<Rightarrow> nat \<Rightarrow> nat" where
  "trail acc b = acc * 64 + (b - 128)"

definition in_range :: "nat \<times> nat \<Rightarrow> nat \<Rightarrow> bool" where
  "in_range r b \<longleftrightarrow> fst r \<le> b \<and> b \<le> snd r"

definition extra_bytes :: "nat \<Rightarrow> nat option" where
  "extra_bytes b =
     (if b < 128 then Some 0 else if 194 \<le> b \<and> b \<le> 223 then Some 1
      else if 224 \<le> b \<and> b \<le> 239 then Some 2 else if 240 \<le> b \<and> b \<le> 244 then Some 3 else None)"

text \<open>How many of the next bytes continue the sequence.\<close>

definition good_trail :: "nat \<Rightarrow> nat \<Rightarrow> nat list \<Rightarrow> nat" where
  "good_trail b n bs =
     (case take n bs of
        [] \<Rightarrow> 0
      | x # xs \<Rightarrow>
          if in_range (second_range b) x then Suc (length (takeWhile (in_range (128, 191)) xs)) else 0)"

definition lead_bits :: "nat \<Rightarrow> nat \<Rightarrow> nat" where
  "lead_bits b n = (if n = 0 then b else if n = 1 then b - 192 else if n = 2 then b - 224 else b - 240)"

function utf8_points :: "nat list \<Rightarrow> ucs" where
  "utf8_points [] = []"
| "utf8_points (b # bs) =
     (case extra_bytes b of
        None \<Rightarrow> 65533 # utf8_points bs
      | Some n \<Rightarrow>
          (let k = good_trail b n bs in
           (if k = n then foldl trail (lead_bits b n) (take n bs) else 65533)
           # utf8_points (drop k bs)))"
  by pat_completeness auto
termination by (relation "measure length") auto

text \<open>\<open>urllib.parse.unquote\<close>: the runs of ASCII characters are decoded, the others are kept.\<close>

function unquote_runs :: "ucs \<Rightarrow> ucs" where
  "unquote_runs [] = []"
| "unquote_runs (c # cs) =
     (if 128 \<le> c then c # unquote_runs cs
      else utf8_points (percent_bytes (c # takeWhile (\<lambda>x. x < 128) cs))
        @ unquote_runs (dropWhile (\<lambda>x. x < 128) cs))"
  by pat_completeness auto
termination by (relation "measure length") (auto simp: length_dropWhile_le le_imp_less_Suc)

definition unquote :: "ucs \<Rightarrow> ucs" where
  "unquote s = (if 37 \<in> set s then unquote_runs s else s)"

section \<open>Splitting a decoded path\<close>

record split_ref =
  st_scheme :: ucs
  st_netloc :: ucs
  st_path :: ucs
  st_query :: ucs
  st_fragment :: ucs

definition letter_point :: "nat \<Rightarrow> bool" where
  "letter_point n \<longleftrightarrow> 65 \<le> n \<and> n \<le> 90 \<or> 97 \<le> n \<and> n \<le> 122"

definition scheme_point :: "nat \<Rightarrow> bool" where
  "scheme_point n \<longleftrightarrow> letter_point n \<or> 48 \<le> n \<and> n \<le> 57 \<or> n = 43 \<or> n = 45 \<or> n = 46"

definition cut :: "nat \<Rightarrow> ucs \<Rightarrow> ucs \<times> ucs" where
  "cut c s = (takeWhile (\<lambda>x. x \<noteq> c) s, drop 1 (dropWhile (\<lambda>x. x \<noteq> c) s))"

text \<open>\<open>urlsplit\<close> on code points. Its checks of a network location (brackets, normalization) can only
  raise when there is one, which the caller refuses as well.\<close>

definition split_points :: "ucs \<Rightarrow> split_ref" where
  "split_points raw =
     (let url = filter (\<lambda>c. c \<noteq> 9 \<and> c \<noteq> 10 \<and> c \<noteq> 13) (dropWhile (\<lambda>c. c \<le> 32) raw);
          front = fst (cut 58 url);
          has_scheme = (58 \<in> set url \<and> front \<noteq> [] \<and> letter_point (hd front) \<and> list_all scheme_point front);
          rest = (if has_scheme then snd (cut 58 url) else url);
          has_netloc = (take 2 rest = [47, 47]);
          netloc = (if has_netloc then takeWhile (\<lambda>c. c \<notin> {47, 63, 35}) (drop 2 rest) else []);
          rest = (if has_netloc then dropWhile (\<lambda>c. c \<notin> {47, 63, 35}) (drop 2 rest) else rest);
          (front, fragment) = cut 35 rest;
          (path, query) = cut 63 front
      in \<lparr>st_scheme = (if has_scheme then fst (cut 58 url) else []), st_netloc = netloc,
           st_path = path, st_query = query, st_fragment = fragment\<rparr>)"

fun segments_from :: "ucs \<Rightarrow> ucs \<Rightarrow> ucs list" where
  "segments_from cur [] = [rev cur]"
| "segments_from cur (c # cs) =
     (if c = 47 then rev cur # segments_from [] cs else segments_from (c # cur) cs)"

definition segments :: "ucs \<Rightarrow> ucs list" where
  "segments p = segments_from [] p"

definition points :: "string \<Rightarrow> ucs" where
  "points s = map code s"

section \<open>The return path\<close>

definition max_return_path_length :: nat where "max_return_path_length = 2048"

definition inside :: "ucs \<Rightarrow> ucs \<Rightarrow> bool" where
  "inside dir path \<longleftrightarrow> path = dir \<or> prefix (dir @ [47]) path"

definition api_prefix :: "string \<Rightarrow> string" where
  "api_prefix base = base @ ''/api''"

text \<open>One stage of the decoding is refused: not an absolute path of the application, or a path of its API.\<close>

definition stage_refused :: "string \<Rightarrow> ucs \<Rightarrow> bool" where
  "stage_refused base candidate \<longleftrightarrow>
     \<not> prefix [47] candidate \<or> prefix [47, 47] candidate \<or> 92 \<in> set candidate
     \<or> list_ex (\<lambda>c. c < 32 \<or> c = 127) candidate
     \<or> (let parsed = split_points candidate in
        st_scheme parsed \<noteq> [] \<or> st_netloc parsed \<noteq> []
        \<or> st_fragment parsed \<noteq> [] \<or> list_ex (\<lambda>s. s \<in> {[46], [46, 46]}) (segments (st_path parsed))
        \<or> inside (points (api_prefix base)) (st_path parsed)
        \<or> base \<noteq> [] \<and> \<not> inside (points base) (st_path parsed))"

text \<open>The value and its decodings, at most \<open>n\<close> more; \<open>None\<close> when the last one can be decoded further.\<close>

fun decodings :: "nat \<Rightarrow> ucs \<Rightarrow> ucs list option" where
  "decodings 0 v = (if unquote v \<noteq> v then None else Some [v])"
| "decodings (Suc n) v =
     (if unquote v = v then Some [v] else map_option ((#) v) (decodings n (unquote v)))"

definition return_fallback :: "string \<Rightarrow> string" where
  "return_fallback base = (if base = [] then ''/'' else base)"

definition safe_return_path :: "string \<Rightarrow> string \<Rightarrow> string" where
  "safe_return_path base return_to =
     (let value = strip return_to in
      if value = [] \<or> max_return_path_length < length value then return_fallback base
      else case decodings 4 (points value) of
        None \<Rightarrow> return_fallback base
      | Some stages \<Rightarrow> if list_ex (stage_refused base) stages then return_fallback base else value)"

section \<open>No decoding leads out of the application\<close>

text \<open>What a browser or a proxy makes of the value, however often it decodes it: a path on this
  origin, below the base path, without dot segments, outside the API, and on one line.\<close>

definition stays_local :: "string \<Rightarrow> ucs \<Rightarrow> bool" where
  "stays_local base s \<longleftrightarrow>
     (\<exists>rest. s = 47 # rest \<and> (case rest of [] \<Rightarrow> True | c # _ \<Rightarrow> c \<noteq> 47 \<and> c \<noteq> 92))
     \<and> list_all (\<lambda>c. 32 \<le> c \<and> c \<noteq> 127 \<and> c \<noteq> 92) s
     \<and> (let path = takeWhile (\<lambda>c. c \<notin> {63, 35}) s in
        [46] \<notin> set (segments path) \<and> [46, 46] \<notin> set (segments path)
        \<and> \<not> inside (points (api_prefix base)) path \<and> (base = [] \<or> inside (points base) path))"

lemma decodings_closed:
  "decodings n v = Some stages \<Longrightarrow> (unquote ^^ k) v \<in> set stages"
proof (induction n arbitrary: v stages k)
  case 0
  then have fixed: "unquote v = v" and stages: "stages = [v]" by (simp_all split: if_split_asm)
  from fixed have "(unquote ^^ k) v = v" by (induction k) simp_all
  then show ?case by (simp add: stages)
next
  case (Suc n)
  show ?case
  proof (cases "unquote v = v")
    case True
    then have "(unquote ^^ k) v = v" by (induction k) simp_all
    moreover have "v \<in> set stages" using Suc.prems True by auto
    ultimately show ?thesis by simp
  next
    case False
    then obtain later where later: "decodings n (unquote v) = Some later" "stages = v # later"
      using Suc.prems by auto
    show ?thesis
    proof (cases k)
      case (Suc j)
      have "(unquote ^^ j) (unquote v) \<in> set later" by (rule Suc.IH [OF later(1)])
      then show ?thesis by (simp add: Suc later(2) funpow_swap1)
    qed (simp add: later(2))
  qed
qed

lemma accepted_stage:
  assumes "\<not> stage_refused base s"
  shows "stays_local base s"
proof -
  have shape: "prefix [47] s" "\<not> prefix [47, 47] s" "92 \<notin> set s" "list_all (\<lambda>c. 32 \<le> c \<and> c \<noteq> 127) s"
    using assms by (auto simp: stage_refused_def list_ex_iff list_all_iff)
  obtain rest where s: "s = 47 # rest" using shape(1) by (auto simp: prefix_def)
  have plain: "filter (\<lambda>c. c \<noteq> 9 \<and> c \<noteq> 10 \<and> c \<noteq> 13) (dropWhile (\<lambda>c. c \<le> 32) s) = s"
    using shape(4) by (auto simp: s list_all_iff filter_id_conv)
  have no_scheme: "\<not> letter_point (hd (takeWhile (\<lambda>x. x \<noteq> 58) s))" by (simp add: s letter_point_def)
  have no_netloc: "take 2 s \<noteq> [47, 47]" using shape(2) by (cases rest) (auto simp: s)
  define path where "path = takeWhile (\<lambda>c. c \<notin> {63, 35}) s"
  have "takeWhile (\<lambda>c. c \<noteq> 63) (takeWhile (\<lambda>c. c \<noteq> 35) s) = path"
    by (simp add: path_def takeWhile_takeWhile conj_commute)
  then have split: "st_path (split_points s) = path"
    by (simp add: split_points_def plain no_scheme no_netloc Let_def cut_def)
  have "[46] \<notin> set (segments path)" "[46, 46] \<notin> set (segments path)"
    "\<not> inside (points (api_prefix base)) path" "base = [] \<or> inside (points base) path"
    using assms by (auto simp: stage_refused_def split Let_def list_ex_iff)
  moreover have "case rest of [] \<Rightarrow> True | c # _ \<Rightarrow> c \<noteq> 47 \<and> c \<noteq> 92"
    using shape(2,3) by (cases rest) (auto simp: s)
  moreover have "list_all (\<lambda>c. 32 \<le> c \<and> c \<noteq> 127 \<and> c \<noteq> 92) s"
    using shape(3,4) by (auto simp: list_all_iff)
  ultimately show ?thesis
    unfolding stays_local_def path_def [symmetric] Let_def using s by blast
qed

lemma stages_local:
  assumes "decodings n v = Some stages" "\<not> list_ex (stage_refused base) stages"
  shows "stays_local base ((unquote ^^ k) v)"
  using decodings_closed [OF assms(1), of k] assms(2) accepted_stage by (auto simp: list_ex_iff)

lemma safe_return_path_cases:
  obtains "safe_return_path base r = return_fallback base"
  | stages where "safe_return_path base r = strip r" "strip r \<noteq> []" "length (strip r) \<le> max_return_path_length"
      "decodings 4 (points (strip r)) = Some stages" "\<not> list_ex (stage_refused base) stages"
proof (cases "decodings 4 (points (strip r))")
  case (Some stages)
  show thesis
  proof (cases "strip r = [] \<or> max_return_path_length < length (strip r) \<or> list_ex (stage_refused base) stages")
    case True
    then show thesis by (intro that(1)) (auto simp: safe_return_path_def Let_def Some)
  next
    case False
    then show thesis by (intro that(2) [OF _ _ _ Some]) (auto simp: safe_return_path_def Let_def Some)
  qed
qed (auto simp: safe_return_path_def Let_def intro: that(1))

text \<open>C16. A login never sends the browser out of the application: the path that is accepted is the
  application's own start page, or stays a path of the application's pages (on this origin, below
  the base path, outside the API, without dot segments, backslashes or control characters) however
  often it is percent-decoded on the way.\<close>

theorem return_paths_stay_local:
  "safe_return_path base r = return_fallback base
   \<or> (\<forall>k. stays_local base ((unquote ^^ k) (points (safe_return_path base r))))
     \<and> length (safe_return_path base r) \<le> max_return_path_length"
proof (cases rule: safe_return_path_cases [of base r])
  case 1
  then show ?thesis by simp
next
  case (2 stages)
  then show ?thesis using stages_local [OF 2(4,5)] by simp
qed

lemma path_is_local:
  "safe_return_path base r = return_fallback base \<or> stays_local base (points (safe_return_path base r))"
proof (cases rule: safe_return_path_cases [of base r])
  case (2 stages)
  then show ?thesis using stages_local [OF 2(4,5), of 0] by simp
qed simp

lemma length_strip: "length (strip s) \<le> length s"
  by (simp add: strip_def lstrip_def rstrip_def) (metis length_dropWhile_le length_rev order_trans)

lemma stripped_base:
  assumes "stays_local base (points (strip base))" and "base \<noteq> []"
  shows "strip base = base"
proof -
  have "inside (points base) (takeWhile (\<lambda>c. c \<notin> {63, 35}) (points (strip base)))"
    using assms by (simp add: stays_local_def Let_def)
  then have "prefix (points base) (takeWhile (\<lambda>c. c \<notin> {63, 35}) (points (strip base)))"
    by (auto simp: inside_def dest: append_prefixD)
  then have pre: "prefix (points base) (points (strip base))"
    using takeWhile_is_prefix prefix_order.trans by blast
  have "length (points (strip base)) \<le> length (points base)" using length_strip [of base] by (simp add: points_def)
  then have "points (strip base) = points base" using pre by (metis append_eq_conv_conj prefix_def take_all)
  then show ?thesis by (simp add: points_def inj_map_eq_map inj_def)
qed

text \<open>Checking a checked path changes nothing.\<close>

lemma safe_return_path_idem: "safe_return_path base (safe_return_path base r) = safe_return_path base r"
proof (cases rule: safe_return_path_cases [of base r])
  case 1
  show ?thesis
  proof (cases rule: safe_return_path_cases [of base "return_fallback base"])
    case (2 stages)
    have local: "stays_local base (points (strip (return_fallback base)))" using stages_local [OF 2(4,5), of 0] by simp
    have "strip (return_fallback base) = return_fallback base"
    proof (cases "base = []")
      case True
      have "strip ''/'' = ''/''" by code_simp
      then show ?thesis using True by (simp add: return_fallback_def)
    next
      case False
      then show ?thesis using local stripped_base by (simp add: return_fallback_def)
    qed
    then show ?thesis by (simp add: 1 2)
  qed (simp add: 1)
next
  case (2 stages)
  then show ?thesis by (simp add: safe_return_path_def Let_def)
qed

end
