(* ===== verification/Auth_Config.thy ===== *)
theory Auth_Config
  imports Return_Paths
begin

text \<open>
  The configuration of the login (\<open>validate_auth_configuration\<close> of \<^verbatim>\<open>backend/blueash_auth.py\<close>, with the
  settings of \<^verbatim>\<open>config.py\<close>): which settings let the server start, and what they rule out.
\<close>

section \<open>Settings\<close>

text \<open>Paths are resolved, as lists of their parts. \<open>ac_boundary\<close> says whether
  \<open>validate_browser_runtime_boundary\<close> returns.\<close>

record auth_config =
  ac_env :: string
  ac_mode :: string
  ac_base :: string
  ac_public_url :: string
  ac_portal_public :: string
  ac_portal_api :: string
  ac_client_id :: string
  ac_client_secret :: string
  ac_secret_key :: string
  ac_cookie :: string
  ac_idle :: int
  ac_absolute :: int
  ac_cache :: int
  ac_handoff_ttl :: int
  ac_trusted :: string
  ac_require_database :: bool
  ac_browser_jobs :: bool
  ac_egress_mode :: string
  ac_boundary :: bool
  ac_mirrors :: bool
  ac_public_directory :: "string list"
  ac_runtime_paths :: "string list list"
  ac_company_refresh :: bool
  ac_utilities :: bool
  ac_schedules :: bool
  ac_discovery :: bool

text \<open>\<open>_read_positive_int\<close> and \<open>_read_nonnegative_int\<close> refuse a setting out of its bounds, before
  anything else runs.\<close>

definition settings_in_bounds :: "auth_config \<Rightarrow> bool" where
  "settings_in_bounds c \<longleftrightarrow>
     1 \<le> ac_idle c \<and> ac_idle c \<le> 30 * 60 \<and> 1 \<le> ac_absolute c \<and> ac_absolute c \<le> 24 * 60 * 60
     \<and> 0 \<le> ac_cache c \<and> ac_cache c \<le> 30 \<and> 1 \<le> ac_handoff_ttl c \<and> ac_handoff_ttl c \<le> 10 * 60"

text \<open>\<open>APP_PUBLIC_ORIGIN\<close>.\<close>

definition public_origin :: "auth_config \<Rightarrow> string" where
  "public_origin c =
     (case urlparse [] (ac_public_url c) of
        None \<Rightarrow> []
      | Some (u, _) \<Rightarrow>
          if url_scheme u \<noteq> [] \<and> url_netloc u \<noteq> [] then url_scheme u @ ''://'' @ url_netloc u else [])"

section \<open>Refusals\<close>

datatype config_problem =
    Unknown_Environment | Unknown_Mode | Url_Invalid | Url_Not_Https | Url_Extra
  | Local_Outside_Development | Local_Not_Loopback | Setting_Missing | Client_Id_Invalid
  | Weak_Secret | Cookie_Name_Invalid | Production_Url_Differs | Production_Base_Path
  | Production_Cookie_Name | Production_Idle | Production_Absolute | Production_Database
  | Production_Egress | Production_Boundary | Production_Trusted | Production_Mirrors
  | Production_Public_Path | Handoff_Not_Configured | Local_Not_Configured

text \<open>The four error classes, and an exception of another class, which no handler expects.\<close>

datatype auth_error = Not_Authenticated | Not_Authorized | Unavailable | Misconfigured config_problem | Crashed

section \<open>The checks\<close>

definition production_session_cookie :: string where
  "production_session_cookie = ''__Host-opportunity_radar_session''"

definition production_egress_mode :: string where
  "production_egress_mode = ''network_namespace_dns_pinned_proxy_v1''"

definition filled :: "string option \<Rightarrow> bool" where
  "filled v = (case v of None \<Rightarrow> False | Some s \<Rightarrow> s \<noteq> [])"

definition validated_url :: "string \<Rightarrow> bool \<Rightarrow> auth_error + split_url" where
  "validated_url url require_https =
     (case urlparse [] url of
        None \<Rightarrow> Inl Crashed
      | Some (u, _) \<Rightarrow>
          if url_scheme u = [] \<or> url_netloc u = [] \<or> filled (url_username u) \<or> filled (url_password u)
          then Inl (Misconfigured Url_Invalid)
          else if require_https \<and> url_scheme u \<noteq> ''https'' then Inl (Misconfigured Url_Not_Https)
          else if url_scheme u \<notin> {''http'', ''https''} \<or> url_query u \<noteq> [] \<or> url_fragment u \<noteq> []
          then Inl (Misconfigured Url_Extra)
          else Inr u)"

definition placeholder_marks :: "string list" where
  "placeholder_marks = [''set securely'', ''change-me'', ''changeme'', ''replace-me'', ''replace_me'',
     ''replace me'', ''placeholder'', ''development-only'', ''dev-only'', ''example-secret'']"

definition weak_secret :: "string \<Rightarrow> bool" where
  "weak_secret v \<longleftrightarrow>
     length v < 32 \<or> prefix ''<'' v \<or> suffix ''>'' v
     \<or> list_ex (\<lambda>mark. contains mark (str_casefold v)) placeholder_marks"

definition client_id_char :: "char \<Rightarrow> bool" where
  "client_id_char c \<longleftrightarrow> is_alpha_ascii c \<or> is_digit c \<or> c \<in> set ''._-''"

definition valid_client_id :: "string \<Rightarrow> bool" where
  "valid_client_id v \<longleftrightarrow>
     v \<noteq> [] \<and> length v \<le> 128 \<and> (is_alpha_ascii (hd v) \<or> is_digit (hd v)) \<and> list_all client_id_char v"

definition cookie_separators :: "string" where
  "cookie_separators = ''()<>@,;:[]?={} '' @ [CHR 0x5C, CHR 0x09, CHR 0x0D, CHR 0x0A]"

section \<open>UUIDs\<close>

text \<open>\<open>s.replace(sub, "")\<close>.\<close>

function without :: "string \<Rightarrow> string \<Rightarrow> string" where
  "without sub s =
     (if sub = [] \<or> s = [] then s
      else if prefix sub s then without sub (drop (length sub) s)
      else hd s # without sub (tl s))"
  by pat_completeness auto
termination by (relation "measure (\<lambda>(_, s). length s)") auto

declare without.simps [simp del]

text \<open>\<open>int(text, 16)\<close>: a sign, a prefix and single underscores between digits are allowed.\<close>

fun hex_groups :: "nat \<Rightarrow> string list \<Rightarrow> nat option" where
  "hex_groups acc [] = Some acc"
| "hex_groups acc (g # gs) =
     (if g = [] then None else case hex_from acc g of None \<Rightarrow> None | Some a \<Rightarrow> hex_groups a gs)"

definition read_hex :: "string \<Rightarrow> int option" where
  "read_hex t =
     (let s = strip t;
          neg = (take 1 s = ''-'');
          body = (if neg \<or> take 1 s = ''+'' then tl s else s);
          body' = (if take 2 body \<in> {''0x'', ''0X''}
                   then (if take 1 (drop 2 body) = ''_'' then drop 3 body else drop 2 body) else body)
      in map_option (\<lambda>n. if neg then - int n else int n) (hex_groups 0 (split_on (CHR ''_'') body')))"

definition hex_digits32 :: "nat \<Rightarrow> string" where
  "hex_digits32 n = map (\<lambda>i. hex_char (n div 16 ^ (31 - i) mod 16)) [0..<32]"

definition uuid_text :: "nat \<Rightarrow> string" where
  "uuid_text n =
     (let h = hex_digits32 n in
      take 8 h @ ''-'' @ take 4 (drop 8 h) @ ''-'' @ take 4 (drop 12 h) @ ''-'' @ take 4 (drop 16 h)
        @ ''-'' @ drop 20 h)"

text \<open>\<open>_canonical_uuid\<close>: \<open>str(UUID(value.strip()))\<close>, or the empty string.\<close>

definition canonical_uuid :: "string \<Rightarrow> string" where
  "canonical_uuid v =
     (let hex = without ''-'' (strip_chars ''{}'' (without ''uuid:'' (without ''urn:'' (strip v)))) in
      if length hex \<noteq> 32 then []
      else case read_hex hex of
        None \<Rightarrow> []
      | Some i \<Rightarrow> if 0 \<le> i \<and> i < 2 ^ 128 then uuid_text (nat i) else [])"

section \<open>The configuration as a whole\<close>

definition required_settings :: "auth_config \<Rightarrow> string list" where
  "required_settings c = [ac_portal_public c, ac_portal_api c, ac_client_id c, ac_client_secret c,
     ac_secret_key c, ac_cookie c]"

fun first_failure :: "(bool \<times> auth_error) list \<Rightarrow> auth_error + unit" where
  "first_failure [] = Inr ()"
| "first_failure ((ok, e) # rest) = (if ok then first_failure rest else Inl e)"

lemma first_failure_ok: "first_failure cs = Inr u \<longleftrightarrow> list_all fst cs"
  by (induction cs) (auto split: if_split_asm)

abbreviation (input) bad :: "config_problem \<Rightarrow> auth_error" where
  "bad p \<equiv> Misconfigured p"

definition validate_production :: "auth_config \<Rightarrow> auth_error + unit" where
  "validate_production c = first_failure
     [(ac_public_url c = ''https://radar.blueashdigital.tech''
         \<and> ac_portal_public c = ''https://blueashdigital.tech''
         \<and> ac_portal_api c = ''https://api.blueashdigital.tech'', bad Production_Url_Differs),
      (ac_base c = [], bad Production_Base_Path),
      (ac_cookie c = production_session_cookie, bad Production_Cookie_Name),
      (ac_idle c = 30 * 60, bad Production_Idle),
      (ac_idle c \<le> ac_absolute c, bad Production_Absolute),
      (ac_require_database c, bad Production_Database),
      (ac_browser_jobs c \<longrightarrow> ac_egress_mode c = production_egress_mode, bad Production_Egress),
      (ac_browser_jobs c \<longrightarrow> ac_boundary c, bad Production_Boundary),
      (canonical_uuid (ac_trusted c) \<noteq> [], bad Production_Trusted),
      (\<not> ac_mirrors c, bad Production_Mirrors),
      (\<not> list_ex (prefix (ac_public_directory c)) (ac_runtime_paths c), bad Production_Public_Path)]"

definition validate_auth_configuration :: "auth_config \<Rightarrow> auth_error + unit" where
  "validate_auth_configuration c =
     bind_res (first_failure
       [(ac_env c \<in> {''development'', ''production''}, bad Unknown_Environment),
        (ac_mode c \<in> {''local'', ''portal_handoff''}, bad Unknown_Mode)]) (\<lambda>_.
     let require_https = (ac_env c = ''production'') in
     bind_res (validated_url (ac_public_url c) require_https) (\<lambda>public_url.
     if ac_mode c = ''local''
     then first_failure
       [(ac_env c = ''development'', bad Local_Outside_Development),
        (url_hostname public_url \<in> {Some ''127.0.0.1'', Some ''localhost'', Some ''::1''}, bad Local_Not_Loopback)]
     else
       bind_res (first_failure [(list_all (\<lambda>v. v \<noteq> []) (required_settings c), bad Setting_Missing)]) (\<lambda>_.
       bind_res (validated_url (ac_portal_public c) require_https) (\<lambda>_.
       bind_res (validated_url (ac_portal_api c) require_https) (\<lambda>_.
       bind_res (first_failure
         [(valid_client_id (ac_client_id c), bad Client_Id_Invalid),
          (\<not> weak_secret (ac_client_secret c), bad Weak_Secret),
          (\<not> weak_secret (ac_secret_key c), bad Weak_Secret),
          (list_all (\<lambda>x. x \<notin> set cookie_separators) (ac_cookie c), bad Cookie_Name_Invalid)]) (\<lambda>_.
       if ac_env c = ''production'' then validate_production c else Inr ()))))))"

text \<open>Without a login there is no production server, and outside the loopback interface there is none
  either.\<close>

lemma local_mode_is_local:
  assumes "validate_auth_configuration c = Inr ()" and "ac_mode c = ''local''"
  shows "ac_env c = ''development''"
    and "\<exists>u. validated_url (ac_public_url c) False = Inr u
      \<and> url_hostname u \<in> {Some ''127.0.0.1'', Some ''localhost'', Some ''::1''}"
  using assms by (auto simp: validate_auth_configuration_def bind_res_Inr_iff Let_def split: if_split_asm)

lemma production_is_strict:
  assumes "validate_auth_configuration c = Inr ()" and "ac_env c = ''production''"
  shows "ac_mode c = ''portal_handoff''" and "\<not> weak_secret (ac_secret_key c)"
    and "\<not> weak_secret (ac_client_secret c)" and "canonical_uuid (ac_trusted c) \<noteq> []"
    and "ac_base c = []" and "ac_cookie c = production_session_cookie"
  using assms
  by (auto simp: validate_auth_configuration_def validate_production_def bind_res_Inr_iff first_failure_ok Let_def
      split: if_split_asm)

end
