(* ===== verification/Json_Parse.thy ===== *)
theory Json_Parse
  imports Py_Json Py_Stdlib
begin

text \<open>
  \<open>json.loads\<close> as a scanner, and the compact text that \<open>json.dumps\<close> writes of a dictionary of
  strings and integers: what is written is read back. Escapes of characters outside the modelled
  range are not read, and numbers that are not integers are kept exactly.
\<close>

section \<open>Scanning\<close>

definition json_ws :: "char \<Rightarrow> bool" where
  "json_ws c \<longleftrightarrow> code c = 32 \<or> code c = 9 \<or> code c = 10 \<or> code c = 13"

definition json_unescape :: "char \<Rightarrow> char option" where
  "json_unescape l =
     (if l = CHR 0x22 \<or> l = CHR 0x5C \<or> l = CHR ''/'' \<or> l = CHR ''b'' \<or> l = CHR ''f'' \<or> l = CHR ''n''
        \<or> l = CHR ''r'' \<or> l = CHR ''t''
      then Some (json_unshort l) else None)"

abbreviation add_char :: "char \<Rightarrow> (string \<times> string) option \<Rightarrow> (string \<times> string) option" where
  "add_char c \<equiv> map_option (\<lambda>(s, rest). (c # s, rest))"

text \<open>The characters of a string after its opening quote.\<close>

function scan_string :: "string \<Rightarrow> (string \<times> string) option" where
  "scan_string [] = None"
| "scan_string (c # cs) =
     (if code c = 34 then Some ([], cs)
      else if code c = 92
      then (case cs of
              [] \<Rightarrow> None
            | l # rest \<Rightarrow>
                if l = CHR ''u''
                then (case hex_from 0 (take 4 rest) of
                        None \<Rightarrow> None
                      | Some n \<Rightarrow>
                          if 4 \<le> length rest \<and> n < 256
                          then add_char (char_of n) (scan_string (drop 4 rest)) else None)
                else (case json_unescape l of
                        None \<Rightarrow> None
                      | Some ch \<Rightarrow> add_char ch (scan_string rest)))
      else if code c < 32 then None
      else add_char c (scan_string cs))"
  by pat_completeness auto
termination by (relation "measure length") auto

definition digits :: "string \<Rightarrow> string \<times> string" where
  "digits s = (takeWhile is_digit s, dropWhile is_digit s)"

definition scan_fraction :: "string \<Rightarrow> (string \<times> string)" where
  "scan_fraction s =
     (case s of
        c # rest \<Rightarrow> if c = CHR ''.'' \<and> fst (digits rest) \<noteq> [] then digits rest else ([], s)
      | [] \<Rightarrow> ([], s))"

definition scan_exponent :: "string \<Rightarrow> int option \<times> string" where
  "scan_exponent s =
     (case s of
        [] \<Rightarrow> (None, s)
      | e # rest \<Rightarrow>
          (let signed = (rest \<noteq> [] \<and> hd rest \<in> set ''+-'');
               (ds, after) = digits (if signed then tl rest else rest)
           in if e \<in> set ''eE'' \<and> ds \<noteq> []
              then (Some ((if signed \<and> hd rest = CHR ''-'' then - 1 else 1)
                * int (the (digits_from 0 ds))), after)
              else (None, s)))"

definition power_of_ten :: "int \<Rightarrow> rat" where
  "power_of_ten i = (if i < 0 then inverse (10 ^ nat (- i)) else 10 ^ nat i)"

text \<open>A leading zero is a number of its own.\<close>

definition whole_part :: "string \<Rightarrow> string \<times> string" where
  "whole_part s = (if s \<noteq> [] \<and> hd s = CHR ''0'' then ([CHR ''0''], tl s) else digits s)"

text \<open>\<open>None\<close> when no number starts here.\<close>

definition scan_number :: "string \<Rightarrow> (json \<times> string) option" where
  "scan_number s =
     (let neg = (s \<noteq> [] \<and> hd s = CHR ''-'');
          body = (if neg then tl s else s);
          (whole, rest) = whole_part body
      in if whole = [] then None
         else
           (let (frac, rest1) = scan_fraction rest;
                (expo, rest2) = scan_exponent rest1;
                sign = (if neg then - 1 else 1 :: int)
            in if frac = [] \<and> expo = None
               then Some (JInt (sign * int (the (digits_from 0 whole))), rest)
               else Some (JFloat (of_int (sign * int (the (digits_from 0 (whole @ frac))))
                 * power_of_ten ((case expo of None \<Rightarrow> 0 | Some e \<Rightarrow> e) - int (length frac))), rest2)))"

definition scan_word :: "string \<Rightarrow> json \<Rightarrow> string \<Rightarrow> (json \<times> string) option" where
  "scan_word w j s = (if prefix w s then Some (j, drop (length w) s) else None)"

text \<open>The pairs of an object become a dictionary: a key keeps its first place and its last value.\<close>

definition dict_of_pairs :: "(string \<times> json) list \<Rightarrow> (string \<times> json) list" where
  "dict_of_pairs ps = fold (\<lambda>(k, v) d. AList.update k v d) ps []"

abbreviation skip_ws :: "string \<Rightarrow> string" where
  "skip_ws \<equiv> dropWhile json_ws"

definition expect :: "nat \<Rightarrow> string \<Rightarrow> string option" where
  "expect n s = (case s of c # rest \<Rightarrow> if code c = n then Some rest else None | [] \<Rightarrow> None)"

text \<open>Values, the pairs of an object after its brace, and the elements of a list after its bracket;
  each call spends one unit of fuel.\<close>

fun scan_value :: "nat \<Rightarrow> string \<Rightarrow> (json \<times> string) option"
  and scan_pairs :: "nat \<Rightarrow> string \<Rightarrow> ((string \<times> json) list \<times> string) option"
  and scan_items :: "nat \<Rightarrow> string \<Rightarrow> (json list \<times> string) option"
where
  "scan_value 0 s = None"
| "scan_value (Suc n) s =
     (case s of
        [] \<Rightarrow> None
      | c # rest \<Rightarrow>
          if code c = 34 then map_option (\<lambda>(t, after). (JStr t, after)) (scan_string rest)
          else if code c = 123
          then (case expect 125 (skip_ws rest) of
                  Some after \<Rightarrow> Some (JObj [], after)
                | None \<Rightarrow> map_option (\<lambda>(ps, after). (JObj (dict_of_pairs ps), after)) (scan_pairs n (skip_ws rest)))
          else if code c = 91
          then (case expect 93 (skip_ws rest) of
                  Some after \<Rightarrow> Some (JList [], after)
                | None \<Rightarrow> map_option (\<lambda>(js, after). (JList js, after)) (scan_items n (skip_ws rest)))
          else if c = CHR ''n'' then scan_word ''null'' JNull s
          else if c = CHR ''t'' then scan_word ''true'' (JBool True) s
          else if c = CHR ''f'' then scan_word ''false'' (JBool False) s
          else scan_number s)"
| "scan_pairs 0 s = None"
| "scan_pairs (Suc n) s =
     (case Option.bind (expect 34 s) scan_string of
        None \<Rightarrow> None
      | Some (k, after_key) \<Rightarrow>
          (case Option.bind (expect 58 (skip_ws after_key)) (\<lambda>t. scan_value n (skip_ws t)) of
             None \<Rightarrow> None
           | Some (v, after_value) \<Rightarrow>
               (case expect 125 (skip_ws after_value) of
                  Some rest \<Rightarrow> Some ([(k, v)], rest)
                | None \<Rightarrow>
                    (case expect 44 (skip_ws after_value) of
                       None \<Rightarrow> None
                     | Some rest \<Rightarrow> map_option (\<lambda>(ps, t). ((k, v) # ps, t)) (scan_pairs n (skip_ws rest))))))"
| "scan_items 0 s = None"
| "scan_items (Suc n) s =
     (case scan_value n s of
        None \<Rightarrow> None
      | Some (v, after_value) \<Rightarrow>
          (case expect 93 (skip_ws after_value) of
             Some rest \<Rightarrow> Some ([v], rest)
           | None \<Rightarrow>
               (case expect 44 (skip_ws after_value) of
                  None \<Rightarrow> None
                | Some rest \<Rightarrow> map_option (\<lambda>(js, t). (v # js, t)) (scan_items n (skip_ws rest)))))"

declare scan_value.simps [simp del] scan_pairs.simps [simp del] scan_items.simps [simp del]

text \<open>Every two calls consume a character, so the fuel is never what ends a scan.\<close>

definition json_loads :: "string \<Rightarrow> json option" where
  "json_loads s =
     (case scan_value (2 * length s + 2) (skip_ws s) of
        None \<Rightarrow> None
      | Some (j, rest) \<Rightarrow> if skip_ws rest = [] then Some j else None)"

section \<open>Writing\<close>

text \<open>\<open>json.dumps(d, separators=(",", ":"))\<close> for strings and integers.\<close>

fun json_atom :: "json \<Rightarrow> string" where
  "json_atom (JStr s) = json_string s"
| "json_atom (JInt i) = show_int i"
| "json_atom j = []"

fun is_atom :: "json \<Rightarrow> bool" where
  "is_atom (JStr s) = True"
| "is_atom (JInt i) = True"
| "is_atom j = False"

definition json_member :: "string \<times> json \<Rightarrow> string" where
  "json_member m = json_string (fst m) @ '':'' @ json_atom (snd m)"

definition json_compact :: "(string \<times> json) list \<Rightarrow> string" where
  "json_compact ms = ''{'' @ join '','' (map json_member ms) @ ''}''"

section \<open>What is written is read back\<close>

lemma hex_digit_zero: "hex_digit (CHR ''0'') = Some 0"
  by (simp add: hex_digit_def code_def)

lemma code_backslash: "code (CHR 0x5C) = 92" and code_quote: "code (CHR 0x22) = 34"
  by (simp_all add: code_def)

lemma scan_escape: "scan_string (json_escape c @ t) = add_char c (scan_string t)"
proof (cases "json_short c")
  case (Some l)
  then have "json_unescape l = Some c" using json_unshort_short [OF Some]
    by (auto simp: json_short_def json_unescape_def split: if_split_asm)
  moreover from this have "l \<noteq> CHR ''u''" by (auto simp: json_unescape_def)
  ultimately have "json_unescape l = Some c" "l \<noteq> CHR ''u''" by simp_all
  then show ?thesis using Some by (simp add: json_escape_def code_backslash)
next
  case None
  then have plain: "code c \<noteq> 34" "code c \<noteq> 92"
    using code_eq_iff [of c "CHR 0x22"] code_eq_iff [of c "CHR 0x5C"]
    by (auto simp: json_short_def code_def split: if_split_asm)
  show ?thesis
  proof (cases "code c < 32 \<or> 126 < code c")
    case True
    have "code c div 16 < 16" "code c mod 16 < 16" by (simp_all add: less_mult_imp_div_less)
    then have "hex_from 0 [CHR ''0'', CHR ''0'', hex_char (code c div 16), hex_char (code c mod 16)] = Some (code c)"
      by (simp add: hex_digit_hex_char hex_digit_zero)
    then show ?thesis using True None by (simp add: json_escape_def code_backslash del: hex_from.simps)
  next
    case False
    then show ?thesis using None plain by (simp add: json_escape_def)
  qed
qed

lemma scan_escaped: "scan_string (concat (map json_escape s) @ CHR 0x22 # t) = Some (s, t)"
  by (induction s) (simp_all add: scan_escape code_quote)

lemma scan_json_string: "Option.bind (expect 34 (json_string s @ t)) scan_string = Some (s, t)"
  by (simp add: json_string_def expect_def code_quote scan_escaped)

text \<open>What may follow a number without becoming a part of it.\<close>

definition ends_number :: "string \<Rightarrow> bool" where
  "ends_number t \<longleftrightarrow> (case t of [] \<Rightarrow> True | c # _ \<Rightarrow> code c = 44 \<or> code c = 125)"

lemma digits_show_nat: "ends_number t \<Longrightarrow> digits (show_nat n @ t) = (show_nat n, t)"
  using show_nat_all_digits [of n]
  by (cases t) (auto simp: digits_def list_all_iff ends_number_def takeWhile_append is_digit_def Let_def)

lemma no_fraction: "ends_number t \<Longrightarrow> scan_fraction t = ([], t)"
  by (cases t) (auto simp: ends_number_def scan_fraction_def code_def)

lemma no_exponent: "ends_number t \<Longrightarrow> scan_exponent t = (None, t)"
  by (cases t) (auto simp: ends_number_def scan_exponent_def code_def Let_def split: prod.split)

lemma scan_show_int:
  assumes "ends_number t"
  shows "scan_number (show_int i @ t) = Some (JInt i, t)"
proof -
  have whole: "whole_part (show_nat n @ t) = (show_nat n, t)" for n
  proof (cases "n = 0")
    case True
    have "show_nat 0 = ''0''" by code_simp
    then show ?thesis using True by (simp add: whole_part_def)
  qed (use hd_show_nat [of n] digits_show_nat [OF assms, of n] in \<open>simp add: whole_part_def\<close>)
  have not_minus: "hd (show_nat n) \<noteq> CHR ''-''" for n
  proof -
    have "is_digit (hd (show_nat n))" using show_nat_all_digits [of n] by (cases "show_nat n") auto
    then show ?thesis by (auto simp: is_digit_def code_def)
  qed
  show ?thesis
  proof (cases "i < 0")
    case True
    then show ?thesis
      by (simp add: whole scan_number_def show_int_def Let_def no_fraction [OF assms] no_exponent [OF assms] digits_from_show_nat)
  next
    case False
    then show ?thesis
      using not_minus [of "nat i"]
      by (simp add: whole scan_number_def show_int_def Let_def no_fraction [OF assms] no_exponent [OF assms] digits_from_show_nat)
  qed
qed

lemma show_int_start:
  obtains c cs where "show_int i = c # cs" "is_digit c \<or> c = CHR ''-''"
proof (cases "i < 0")
  case True
  then show thesis by (intro that) (auto simp: show_int_def)
next
  case False
  obtain c cs where "show_nat (nat i) = c # cs" by (cases "show_nat (nat i)") simp_all
  then show thesis using False show_nat_all_digits [of "nat i"] by (intro that) (auto simp: show_int_def)
qed

lemma scan_atom:
  assumes "is_atom j" and "ends_number t"
  shows "scan_value (Suc n) (json_atom j @ t) = Some (j, t)" "skip_ws (json_atom j @ t) = json_atom j @ t"
proof -
  have "scan_value (Suc n) (json_atom j @ t) = Some (j, t) \<and> skip_ws (json_atom j @ t) = json_atom j @ t"
  proof (cases j)
    case (JInt i)
    obtain c cs where c: "show_int i = c # cs" "is_digit c \<or> c = CHR ''-''" by (rule show_int_start)
    have plain: "code c = 45 \<or> 48 \<le> code c \<and> code c \<le> 57" using c(2) by (auto simp: is_digit_def code_def Let_def)
    then have "c \<noteq> CHR ''n''" "c \<noteq> CHR ''t''" "c \<noteq> CHR ''f''" by (auto simp: code_def)
    then show ?thesis
      using plain scan_show_int [OF assms(2), of i] by (auto simp: JInt c(1) json_ws_def scan_value.simps)
  next
    case (JStr s)
    then show ?thesis by (simp add: json_string_def code_quote scan_escaped json_ws_def scan_value.simps)
  qed (use assms in simp_all)
  then show "scan_value (Suc n) (json_atom j @ t) = Some (j, t)" "skip_ws (json_atom j @ t) = json_atom j @ t"
    by simp_all
qed

lemma punctuation:
  "code (CHR '':'') = 58" "code (CHR '','') = 44" "code (CHR ''}'') = 125" "code (CHR ''{'') = 123"
  by (simp_all add: code_def)

lemma scan_member:
  assumes "is_atom j" and "ends_number t"
  shows "Option.bind (expect 34 (json_member (k, j) @ t)) scan_string = Some (k, '':'' @ json_atom j @ t)"
    and "Option.bind (expect 58 (skip_ws ('':'' @ json_atom j @ t))) (\<lambda>t. scan_value (Suc n) (skip_ws t)) = Some (j, t)"
  using scan_json_string [of k "'':'' @ json_atom j @ t"] scan_atom [OF assms]
  by (simp_all add: json_member_def expect_def punctuation json_ws_def)

lemma scan_members:
  assumes "ms \<noteq> []" and "list_all (is_atom \<circ> snd) ms" and "length ms < n"
  shows "scan_pairs n (join '','' (map json_member ms) @ CHR ''}'' # t) = Some (ms, t)"
  using assms
proof (induction ms arbitrary: n)
  case (Cons m ms)
  obtain k j where m: "m = (k, j)" by (cases m)
  obtain n' where n: "n = Suc (Suc n')" using Cons.prems(3) by (cases n; cases "n - 1") auto
  have j: "is_atom j" using Cons.prems(2) m by simp
  show ?case
  proof (cases ms)
    case Nil
    have "ends_number (CHR ''}'' # t)" by (simp add: ends_number_def punctuation)
    from scan_member [OF j this] show ?thesis
      by (simp add: n Nil m expect_def [of 125] punctuation json_ws_def scan_pairs.simps(2) [of "Suc n'"])
  next
    case (Cons m' ms')
    define more where "more = join '','' (map json_member ms) @ CHR ''}'' # t"
    have more: "scan_pairs (Suc n') more = Some (ms, t)"
      unfolding more_def using Cons.prems Cons.IH Cons n by simp
    have start: "skip_ws more = more"
      by (cases m'; cases ms') (simp_all add: more_def Cons json_member_def json_string_def json_ws_def code_quote)
    have "ends_number (CHR '','' # more)" by (simp add: ends_number_def punctuation)
    from scan_member [OF j this]
    have "scan_pairs n (json_member m @ CHR '','' # more) = Some (m # ms, t)"
      by (simp add: n m expect_def [of 125] expect_def [of 44] punctuation json_ws_def start more
          scan_pairs.simps(2) [of "Suc n'"])
    then show ?thesis by (simp add: more_def Cons)
  qed
qed simp

lemma update_new: "k \<notin> fst ` set d \<Longrightarrow> AList.update k v d = d @ [(k, v)]"
  by (induction d) auto

lemma dict_of_distinct: "distinct (map fst ps) \<Longrightarrow> dict_of_pairs ps = ps"
proof -
  have "fold (\<lambda>(k, v) d. AList.update k v d) ps d = d @ ps"
    if "distinct (map fst ps)" "fst ` set d \<inter> fst ` set ps = {}" for d
    using that by (induction ps arbitrary: d) (auto simp: update_new)
  then show "distinct (map fst ps) \<Longrightarrow> dict_of_pairs ps = ps" by (simp add: dict_of_pairs_def)
qed

lemma length_join: "length xs \<le> length (join '','' (map json_member xs)) + 1"
proof (induction xs rule: induct_list012)
  case (3 x y zs)
  then show ?case by (simp add: json_member_def json_string_def)
qed simp_all

text \<open>\<open>json.loads(json.dumps(d))\<close> is \<open>d\<close>.\<close>

lemma loads_compact:
  assumes "ms \<noteq> []" and "list_all (is_atom \<circ> snd) ms" and "distinct (map fst ms)"
  shows "json_loads (json_compact ms) = Some (JObj ms)"
proof -
  define body where "body = join '','' (map json_member ms) @ ''}''"
  have "length ms < 2 * length (json_compact ms) + 1"
    using length_join [of ms] by (simp add: json_compact_def)
  from scan_members [OF assms(1,2) this, of "[]"]
  have pairs: "scan_pairs (2 * length (json_compact ms) + 1) body = Some (ms, [])" by (simp add: body_def)
  obtain m ms' where ms: "ms = m # ms'" using assms(1) by (cases ms) auto
  obtain rest where body: "body = CHR 0x22 # rest"
    by (cases ms') (auto simp: body_def ms json_member_def json_string_def)
  have "json_compact ms = CHR ''{'' # body" by (simp add: json_compact_def body_def)
  then show ?thesis
    using pairs
    by (simp add: json_loads_def scan_value.simps(2) punctuation json_ws_def body code_quote expect_def
        dict_of_distinct [OF assms(3)])
qed

end
