(* ===== verification/Auth_Handoff.thy ===== *)
theory Auth_Handoff
  imports Auth_Config Json_Parse
begin

text \<open>
  The start and the return of a login (\<^verbatim>\<open>backend/blueash_auth.py\<close>): a signed cookie carries the
  state, the code verifier and the return path to the portal and back. Random tokens, the
  clock and the configuration are arguments.
\<close>

section \<open>Signed payloads\<close>

definition max_cookie_payload :: nat where "max_cookie_payload = 4096"
definition max_signature :: nat where "max_signature = 128"
definition clock_skew :: int where "clock_skew = 60"

definition signing_purpose :: bytes where
  "signing_purpose = map (of_nat \<circ> code) ''opportunity-radar-portal-handoff-v1'' @ [0]"

definition b64url :: "bytes \<Rightarrow> string" where
  "b64url bs = rstrip_chars ''='' (b64_encode bs)"

definition b64url_decode :: "string \<Rightarrow> bytes option" where
  "b64url_decode s = b64_decode (s @ replicate ((4 - length s mod 4) mod 4) (CHR ''=''))"

definition is_ascii :: "string \<Rightarrow> bool" where
  "is_ascii s \<longleftrightarrow> list_all (\<lambda>c. code c < 128) s"

definition ascii_bytes :: "string \<Rightarrow> bytes" where
  "ascii_bytes s = map (of_nat \<circ> code) s"

definition signature :: "auth_config \<Rightarrow> string \<Rightarrow> string" where
  "signature c encoded =
     b64url (hmac_sha256 (utf8_encode (ac_secret_key c)) (signing_purpose @ ascii_bytes encoded))"

definition sign_payload :: "auth_config \<Rightarrow> (string \<times> json) list \<Rightarrow> string" where
  "sign_payload c payload =
     (let encoded = b64url (utf8_encode (json_compact payload)) in encoded @ ''.'' @ signature c encoded)"

text \<open>Comparing a text that is not ASCII raises a \<open>TypeError\<close>, which is not caught.\<close>

definition verify_payload :: "auth_config \<Rightarrow> string \<Rightarrow> auth_error + (string \<times> json) list" where
  "verify_payload c cookie =
     (case partition (CHR ''.'') cookie of (encoded, found, supplied) \<Rightarrow>
        if \<not> found \<or> max_cookie_payload < length encoded \<or> max_signature < length supplied \<or> \<not> is_ascii encoded
        then Inl Not_Authenticated
        else if \<not> is_ascii supplied then Inl Crashed
        else if supplied \<noteq> signature c encoded then Inl Not_Authenticated
        else
          (case Option.bind (Option.bind (b64url_decode encoded) utf8_decode) json_loads of
             Some (JObj payload) \<Rightarrow> Inr payload
           | _ \<Rightarrow> Inl Not_Authenticated))"

section \<open>Attempts\<close>

record handoff_attempt =
  ha_state :: string
  ha_verifier :: string
  ha_challenge :: string
  ha_path :: string
  ha_expires :: int

definition challenge :: "string \<Rightarrow> string" where
  "challenge verifier = b64url (sha256 (ascii_bytes verifier))"

definition handoff_payload :: "string \<Rightarrow> string \<Rightarrow> string \<Rightarrow> int \<Rightarrow> int \<Rightarrow> (string \<times> json) list" where
  "handoff_payload state verifier path issued expires =
     [(''code_verifier'', JStr verifier), (''expires_at'', JInt expires), (''issued_at'', JInt issued),
      (''return_path'', JStr path), (''state'', JStr state), (''v'', JInt 1)]"

definition create_handoff_attempt ::
  "auth_config \<Rightarrow> string \<Rightarrow> string \<Rightarrow> int \<Rightarrow> string \<Rightarrow> auth_error + handoff_attempt \<times> string" where
  "create_handoff_attempt c state verifier now return_to =
     bind_res (validate_auth_configuration c) (\<lambda>_.
     if ac_mode c \<noteq> ''portal_handoff'' then Inl (Misconfigured Handoff_Not_Configured)
     else
       (let path = safe_return_path (ac_base c) return_to; expires = now + ac_handoff_ttl c in
        Inr (\<lparr>ha_state = state, ha_verifier = verifier, ha_challenge = challenge verifier,
               ha_path = path, ha_expires = expires\<rparr>,
             sign_payload c (handoff_payload state verifier path now expires))))"

text \<open>\<open>int(x)\<close> of a JSON value; \<open>None\<close> is the \<open>TypeError\<close> or \<open>ValueError\<close>.\<close>

definition int_of_text :: "string \<Rightarrow> int option" where
  "int_of_text t =
     (let s = strip t;
          neg = (take 1 s = ''-'');
          groups = split_on (CHR ''_'') (if neg \<or> take 1 s = ''+'' then tl s else s)
      in if list_all (\<lambda>g. g \<noteq> []) groups
         then map_option (\<lambda>n. if neg then - int n else int n) (read_nat (concat groups)) else None)"

fun int_value :: "json option \<Rightarrow> int option" where
  "int_value (Some (JInt i)) = Some i"
| "int_value (Some (JBool b)) = Some (if b then 1 else 0)"
| "int_value (Some (JFloat r)) = Some (if r < 0 then - \<lfloor>- r\<rfloor> else \<lfloor>r\<rfloor>)"
| "int_value (Some (JStr s)) = int_of_text s"
| "int_value _ = None"

definition consume_handoff_cookie :: "auth_config \<Rightarrow> string \<Rightarrow> string \<Rightarrow> int \<Rightarrow> auth_error + handoff_attempt" where
  "consume_handoff_cookie c cookie state now =
     (if cookie = [] \<or> state = [] \<or> 512 < length state then Inl Not_Authenticated
      else bind_res (verify_payload c cookie) (\<lambda>payload.
        let get = map_of payload in
        if list_ex (\<lambda>k. get k = None) [''v'', ''state'', ''code_verifier'', ''return_path'']
        then Inl Not_Authenticated
        else case (int_value (get ''issued_at''), int_value (get ''expires_at'')) of
          (Some issued, Some expires) \<Rightarrow>
            (case (string_of_json (get ''state''), string_of_json (get ''code_verifier''),
                   string_of_json (get ''return_path'')) of
               (Some stored, Some verifier, Some path) \<Rightarrow>
                 if \<not> equals_int (get ''v'') 1 then Inl Not_Authenticated
                 else if \<not> is_ascii stored \<or> \<not> is_ascii state then Inl Crashed
                 else if stored \<noteq> state \<or> now < issued - clock_skew \<or> expires < now
                   \<or> ac_handoff_ttl c < expires - issued \<or> length verifier < 43
                   \<or> safe_return_path (ac_base c) path \<noteq> path
                 then Inl Not_Authenticated
                 else if \<not> is_ascii verifier then Inl Crashed
                 else Inr \<lparr>ha_state = stored, ha_verifier = verifier, ha_challenge = challenge verifier,
                            ha_path = path, ha_expires = expires\<rparr>
             | _ \<Rightarrow> Inl Not_Authenticated)
        | _ \<Rightarrow> Inl Not_Authenticated))"

section \<open>Encoding\<close>

lemma rstrip_chars_append:
  "xs \<noteq> [] \<Longrightarrow> last xs \<notin> set cs \<Longrightarrow> rstrip_chars cs (xs @ ys) = xs @ rstrip_chars cs ys"
proof (induction ys rule: rev_induct)
  case Nil
  then show ?case by (cases xs rule: rev_cases) (auto simp: rstrip_chars_def)
qed (simp add: rstrip_chars_def)

lemma b64_chars: "list_all (\<lambda>c. c = CHR ''='' \<or> b64_value c \<noteq> None) (b64_encode bs)"
  by (induction bs rule: b64_encode.induct) (simp_all add: b64_value_char sextet_bounds byte_parts(1))

lemma b64_padding:
  "b64_encode bs = b64url bs @ replicate ((4 - length (b64url bs) mod 4) mod 4) (CHR ''='')"
proof (induction bs rule: b64_encode.induct)
  case 1
  then show ?case by (simp add: b64url_def rstrip_chars_def)
next
  case (2 a)
  then show ?case
    by (simp add: b64url_def rstrip_chars_def b64_char_not_pad sextet_bounds numeral_2_eq_2)
next
  case (3 a b)
  then show ?case
    by (simp add: b64url_def rstrip_chars_def b64_char_not_pad sextet_bounds)
next
  case (4 a b d rest)
  define front where "front = [b64_char (unat a div 4), b64_char (unat a mod 4 * 16 + unat b div 16),
      b64_char (unat b mod 16 * 4 + unat d div 64), b64_char (unat d mod 64)]"
  have "b64url (a # b # d # rest) = front @ b64url rest"
    unfolding b64url_def b64_encode.simps(4)
    using rstrip_chars_append [of front "''=''" "b64_encode rest"] by (simp add: front_def b64_char_not_pad)
  moreover have "b64_encode (a # b # d # rest) = front @ b64_encode rest" by (simp add: front_def)
  moreover have "length front = 4" by (simp add: front_def)
  ultimately show ?case using 4 by simp
qed

lemma b64url_round_trip: "b64url_decode (b64url bs) = Some bs"
  by (metis b64url_decode_def b64_padding b64_decode_encode)

lemma b64_value_plain: "b64_value c \<noteq> None \<Longrightarrow> code c < 128 \<and> c \<noteq> CHR ''.''"
  by (auto simp: b64_value_def code_def Let_def split: if_split_asm)

lemma b64url_plain: "is_ascii (b64url bs)" "CHR ''.'' \<notin> set (b64url bs)"
proof -
  have "list_all (\<lambda>c. c = CHR ''='' \<or> b64_value c \<noteq> None) (b64url bs)"
    using b64_chars [of bs] by (subst (asm) b64_padding) simp
  then have "list_all (\<lambda>c. code c < 128 \<and> c \<noteq> CHR ''.'') (b64url bs)"
  proof (rule list.pred_mono_strong)
    fix ch assume "ch = CHR ''='' \<or> b64_value ch \<noteq> None"
    then show "code ch < 128 \<and> ch \<noteq> CHR ''.''"
      using b64_value_plain [of ch] by (cases "ch = CHR ''=''") (simp_all add: code_def)
  qed
  then show "is_ascii (b64url bs)" "CHR ''.'' \<notin> set (b64url bs)"
    by (auto simp: is_ascii_def list_all_iff)
qed

lemma length_b64_encode: "length (b64_encode bs) = 4 * ((length bs + 2) div 3)"
proof (induction bs rule: b64_encode.induct)
  case (4 a b c rest)
  have "(length rest + 3 + 2) div 3 = (length rest + 2) div 3 + 1" by presburger
  then show ?case using 4 by (simp add: add.commute)
qed auto

lemma length_b64url: "length (b64url bs) \<le> 4 * ((length bs + 2) div 3)"
  using arg_cong [OF b64_padding [of bs], of length] by (simp add: length_b64_encode)

lemma signature_plain: "length (signature c encoded) \<le> max_signature" "is_ascii (signature c encoded)"
  using length_b64url [of "hmac_sha256 (utf8_encode (ac_secret_key c)) (signing_purpose @ ascii_bytes encoded)"]
  by (simp_all add: signature_def max_signature_def b64url_plain)

lemma verify_sign:
  assumes "payload \<noteq> []" "list_all (is_atom \<circ> snd) payload" "distinct (map fst payload)"
    and "length (b64url (utf8_encode (json_compact payload))) \<le> max_cookie_payload"
  shows "verify_payload c (sign_payload c payload) = Inr payload"
proof -
  let ?encoded = "b64url (utf8_encode (json_compact payload))"
  have "partition (CHR ''.'') (sign_payload c payload) = (?encoded, True, signature c ?encoded)"
    using partition_first [OF b64url_plain(2)] by (simp add: sign_payload_def Let_def)
  then show ?thesis
    using assms(4) signature_plain [of c ?encoded]
    by (simp add: verify_payload_def b64url_plain b64url_round_trip utf8_decode_encode loads_compact [OF assms(1-3)])
qed

lemma verified_is_signed:
  assumes "verify_payload c cookie = Inr payload"
  obtains encoded where "cookie = encoded @ ''.'' @ signature c encoded" "CHR ''.'' \<notin> set encoded"
    "Option.bind (Option.bind (b64url_decode encoded) utf8_decode) json_loads = Some (JObj payload)"
proof -
  obtain encoded found supplied where p: "partition (CHR ''.'') cookie = (encoded, found, supplied)"
    by (metis prod_cases3)
  have found and same: "supplied = signature c encoded"
    and loads: "Option.bind (Option.bind (b64url_decode encoded) utf8_decode) json_loads = Some (JObj payload)"
    using assms by (auto simp: verify_payload_def p split: if_split_asm option.split_asm json.split_asm)
  with p have "cookie = encoded @ CHR ''.'' # supplied" "CHR ''.'' \<notin> set encoded"
    using partition_append by auto
  then show thesis using same loads by (intro that) simp_all
qed

section \<open>The round trip\<close>

lemma consume_created:
  assumes "is_ascii state" "state \<noteq> []" "length state \<le> 512" "is_ascii verifier" "43 \<le> length verifier"
    and "length (b64url (utf8_encode (json_compact
      (handoff_payload state verifier (safe_return_path (ac_base c) r) now (now + ac_handoff_ttl c))))) \<le> max_cookie_payload"
    and "now - clock_skew \<le> t" "t \<le> now + ac_handoff_ttl c"
    and "create_handoff_attempt c state verifier now r = Inr (a, cookie)"
  shows "consume_handoff_cookie c cookie state t = Inr a"
proof -
  let ?payload = "handoff_payload state verifier (safe_return_path (ac_base c) r) now (now + ac_handoff_ttl c)"
  have a: "a = \<lparr>ha_state = state, ha_verifier = verifier, ha_challenge = challenge verifier,
      ha_path = safe_return_path (ac_base c) r, ha_expires = now + ac_handoff_ttl c\<rparr>"
    and cookie: "cookie = sign_payload c ?payload"
    using assms(9) by (auto simp: create_handoff_attempt_def Let_def res_simps split: if_split_asm)
  have "verify_payload c cookie = Inr ?payload"
    unfolding cookie by (rule verify_sign) (use assms(6) in \<open>simp_all add: handoff_payload_def\<close>)
  moreover have "cookie \<noteq> []" by (simp add: cookie sign_payload_def Let_def)
  ultimately show ?thesis
    using assms(1-5,7,8)
    by (simp add: consume_handoff_cookie_def handoff_payload_def a safe_return_path_idem)
qed

text \<open>A login that is started can be completed: the cookie that starts it, brought back with its
  state within its lifetime (up to a minute of clock skew), yields the attempt it was made from,
  provided the tokens are the kind of tokens that are generated and the encoded payload is short enough.\<close>

theorem handoff_round_trip:
  assumes "is_ascii state" "state \<noteq> []" "length state \<le> 512" "is_ascii verifier" "43 \<le> length verifier"
    and "length (b64url (utf8_encode (json_compact
      (handoff_payload state verifier (safe_return_path (ac_base c) r) now (now + ac_handoff_ttl c))))) \<le> max_cookie_payload"
    and "now - clock_skew \<le> t" "t \<le> now + ac_handoff_ttl c"
    and "create_handoff_attempt c state verifier now r = Inr (a, cookie)"
  shows "consume_handoff_cookie c cookie state t = Inr a"
  using assms by (rule consume_created)

definition demo_config :: auth_config where
  "demo_config = \<lparr>ac_env = ''development'', ac_mode = ''portal_handoff'', ac_base = [],
     ac_public_url = ''http://localhost:8000'', ac_portal_public = ''http://localhost:9000'',
     ac_portal_api = ''http://localhost:9001'', ac_client_id = ''radar'',
     ac_client_secret = ''0123456789abcdef0123456789abcdef'', ac_secret_key = ''fedcba9876543210fedcba9876543210'',
     ac_cookie = ''radar_session'', ac_idle = 1800, ac_absolute = 28800, ac_cache = 30, ac_handoff_ttl = 300,
     ac_trusted = [], ac_require_database = False, ac_browser_jobs = False, ac_egress_mode = ''disabled'',
     ac_boundary = False, ac_mirrors = False, ac_public_directory = [''app'', ''frontend'', ''public''],
     ac_runtime_paths = [], ac_company_refresh = False, ac_utilities = False, ac_schedules = False,
     ac_discovery = False\<rparr>"

definition demo_state :: string where
  "demo_state = ''s1s2s3s4s5s6s7s8s9s0''"

definition demo_verifier :: string where
  "demo_verifier = ''v1v2v3v4v5v6v7v8v9v0v1v2v3v4v5v6v7v8v9v0v1v2v3v4v5v6v7v8v9v0''"

lemma demo_valid: "validate_auth_configuration demo_config = Inr ()"
  by code_simp

lemma demo_path: "safe_return_path [] ''/jobs'' = ''/jobs''"
  by code_simp

definition demo_attempt :: handoff_attempt where
  "demo_attempt = \<lparr>ha_state = demo_state, ha_verifier = demo_verifier, ha_challenge = challenge demo_verifier,
     ha_path = ''/jobs'', ha_expires = 1300\<rparr>"

definition demo_cookie :: string where
  "demo_cookie = sign_payload demo_config (handoff_payload demo_state demo_verifier ''/jobs'' 1000 1300)"

lemma demo_create:
  "create_handoff_attempt demo_config demo_state demo_verifier 1000 ''/jobs'' = Inr (demo_attempt, demo_cookie)"
proof -
  have "ac_mode demo_config = ''portal_handoff''" "ac_base demo_config = []" "ac_handoff_ttl demo_config = 300"
    by (simp_all add: demo_config_def)
  then show ?thesis
    by (simp add: create_handoff_attempt_def demo_valid demo_path demo_attempt_def demo_cookie_def Let_def)
qed

lemma demo_tokens:
  "is_ascii demo_state" "demo_state \<noteq> []" "length demo_state \<le> 512" "is_ascii demo_verifier" "43 \<le> length demo_verifier"
  by (simp_all add: demo_state_def demo_verifier_def is_ascii_def code_def)

lemma demo_length:
  "length (b64url (utf8_encode (json_compact (handoff_payload demo_state demo_verifier ''/jobs'' 1000 1300)))) \<le> max_cookie_payload"
proof -
  have "length (utf8_encode (json_compact (handoff_payload demo_state demo_verifier ''/jobs'' 1000 1300))) \<le> 250"
    by code_simp
  then show ?thesis
    using length_b64url [of "utf8_encode (json_compact (handoff_payload demo_state demo_verifier ''/jobs'' 1000 1300))"]
    by (simp add: max_cookie_payload_def)
qed

theorem handoff_round_trip_witness:
  "consume_handoff_cookie demo_config demo_cookie demo_state 1200 = Inr demo_attempt"
proof (rule handoff_round_trip [OF demo_tokens _ _ _ demo_create])
  have config: "ac_base demo_config = []" "ac_handoff_ttl demo_config = 300" by (simp_all add: demo_config_def)
  show "length (b64url (utf8_encode (json_compact (handoff_payload demo_state demo_verifier
      (safe_return_path (ac_base demo_config) ''/jobs'') 1000 (1000 + ac_handoff_ttl demo_config))))) \<le> max_cookie_payload"
    using demo_length by (simp add: config demo_path)
  show "1000 - clock_skew \<le> 1200" "1200 \<le> 1000 + ac_handoff_ttl demo_config"
    by (simp_all add: config clock_skew_def)
qed

lemma string_of_json_Some: "string_of_json j = Some s \<longleftrightarrow> j = Some (JStr s)"
  by (cases "Some s" rule: option.exhaust) (auto elim!: string_of_json.elims)

lemma verify_errors: "verify_payload c cookie = Inl e \<Longrightarrow> e = Not_Authenticated \<or> e = Crashed"
  by (auto simp: verify_payload_def split: if_split_asm option.split_asm json.split_asm prod.split_asm)

lemma consume_errors:
  assumes "consume_handoff_cookie c cookie state t = Inl e"
  shows "e = Not_Authenticated \<or> e = Crashed"
  using assms
  by (auto simp: consume_handoff_cookie_def Let_def bind_res_Inl_iff dest: verify_errors
      split: if_split_asm option.split_asm)

lemma consumeE:
  assumes "consume_handoff_cookie c cookie state t = Inr a"
  obtains payload issued where "verify_payload c cookie = Inr payload"
    "map_of payload ''state'' = Some (JStr state)" "ha_state a = state"
    "map_of payload ''code_verifier'' = Some (JStr (ha_verifier a))" "ha_challenge a = challenge (ha_verifier a)"
    "int_value (map_of payload ''issued_at'') = Some issued" "issued - clock_skew \<le> t" "t \<le> ha_expires a"
    "ha_expires a \<le> issued + ac_handoff_ttl c" "safe_return_path (ac_base c) (ha_path a) = ha_path a"
  using assms
  by (auto simp: consume_handoff_cookie_def Let_def bind_res_Inr_iff string_of_json_Some
      split: if_split_asm option.split_asm)

text \<open>C15. Only a cookie that the server signed, that belongs to the state of the callback and that is in its
  lifetime completes a login, and what it completes returns to a path of the application.\<close>

theorem completed_handoffs_are_genuine:
  "case consume_handoff_cookie c cookie state t of
     Inl e \<Rightarrow> e = Not_Authenticated \<or> e = Crashed
   | Inr a \<Rightarrow> \<exists>encoded payload issued.
       cookie = encoded @ ''.'' @ signature c encoded
       \<and> Option.bind (Option.bind (b64url_decode encoded) utf8_decode) json_loads = Some (JObj payload)
       \<and> map_of payload ''state'' = Some (JStr state) \<and> ha_state a = state
       \<and> map_of payload ''code_verifier'' = Some (JStr (ha_verifier a))
       \<and> ha_challenge a = challenge (ha_verifier a)
       \<and> int_value (map_of payload ''issued_at'') = Some issued
       \<and> issued - clock_skew \<le> t \<and> t \<le> ha_expires a \<and> ha_expires a \<le> issued + ac_handoff_ttl c
       \<and> (ha_path a = return_fallback (ac_base c) \<or> stays_local (ac_base c) (points (ha_path a)))"
proof (cases "consume_handoff_cookie c cookie state t")
  case (Inl e)
  then show ?thesis using consume_errors by simp
next
  case (Inr a)
  obtain payload issued where p: "verify_payload c cookie = Inr payload"
    and facts: "map_of payload ''state'' = Some (JStr state)" "ha_state a = state"
    "map_of payload ''code_verifier'' = Some (JStr (ha_verifier a))" "ha_challenge a = challenge (ha_verifier a)"
    "int_value (map_of payload ''issued_at'') = Some issued" "issued - clock_skew \<le> t" "t \<le> ha_expires a"
    "ha_expires a \<le> issued + ac_handoff_ttl c"
    and path: "safe_return_path (ac_base c) (ha_path a) = ha_path a"
    using Inr by (rule consumeE)
  obtain encoded where signed: "cookie = encoded @ ''.'' @ signature c encoded"
    "Option.bind (Option.bind (b64url_decode encoded) utf8_decode) json_loads = Some (JObj payload)"
    using p by (rule verified_is_signed)
  have "ha_path a = return_fallback (ac_base c) \<or> stays_local (ac_base c) (points (ha_path a))"
    using path_is_local [of "ac_base c" "ha_path a"] path by simp
  then show ?thesis unfolding Inr sum.case using facts signed by blast
qed

end
