(* ===== verification/Auth_Sessions.thy ===== *)
theory Auth_Sessions
  imports Auth_Handoff
begin

text \<open>
  The client of the portal (\<open>PortalHandoffClient\<close> of \<^verbatim>\<open>backend/blueash_auth.py\<close>): exchanging a code,
  asking the portal who a session token belongs to, the cache of the answers, and signing out.
  The reply of the portal, the wall clock (in seconds) and the monotonic clock are arguments.
\<close>

section \<open>Identities\<close>

record identity =
  id_user :: string
  id_name :: string
  id_email :: string
  id_display :: string
  id_role :: string
  id_permissions :: "string list"
  id_bypass :: bool

definition local_identity :: "auth_config \<Rightarrow> auth_error + identity" where
  "local_identity c =
     bind_res (validate_auth_configuration c) (\<lambda>_.
     if ac_mode c \<noteq> ''local'' then Inl (Misconfigured Local_Not_Configured)
     else Inr \<lparr>id_user = ''local-development'', id_name = ''local'', id_email = ''local@development.invalid'',
            id_display = ''Local Development'', id_role = ''ADMINISTRATOR'', id_permissions = [''*''],
            id_bypass = True\<rparr>)"

definition development_login :: "auth_config \<Rightarrow> bool" where
  "development_login c \<longleftrightarrow> ac_env c = ''development'' \<and> ac_mode c = ''local''"

definition is_administrator :: "auth_config \<Rightarrow> identity \<Rightarrow> bool" where
  "is_administrator c i = (if id_bypass i then development_login c else id_role i = ''ADMINISTRATOR'')"

definition is_trusted_initial_administrator :: "auth_config \<Rightarrow> identity \<Rightarrow> bool" where
  "is_trusted_initial_administrator c i =
     (if id_bypass i then development_login c
      else (let trusted = canonical_uuid (ac_trusted c); own = canonical_uuid (id_user i) in
        trusted \<noteq> [] \<and> own \<noteq> [] \<and> id_role i = ''ADMINISTRATOR'' \<and> own = trusted))"

section \<open>Replies of the portal\<close>

text \<open>The size of the body, the content length it declares, and the value of \<open>response.json()\<close>
  (\<open>None\<close> when that raises).\<close>

record portal_reply =
  rp_status :: nat
  rp_size :: nat
  rp_length :: string
  rp_json :: "json option"

text \<open>What \<open>str\<close> makes of a number that is not an integer, a list or a dictionary, and what
  \<open>datetime.fromisoformat\<close> makes of a text: whether it carries an offset, and its instant.\<close>

record portal_env =
  pe_show :: "json \<Rightarrow> string"
  pe_iso :: "string \<Rightarrow> (bool \<times> rat) option"

definition max_auth_response :: nat where "max_auth_response = 65536"

definition unicode_digit :: "char \<Rightarrow> bool" where
  "unicode_digit c \<longleftrightarrow> is_digit c \<or> code c = 178 \<or> code c = 179 \<or> code c = 185"

definition response_json :: "portal_reply \<Rightarrow> auth_error + (string \<times> json) list" where
  "response_json r =
     (if max_auth_response < rp_size r then Inl Unavailable
      else if rp_length r \<noteq> [] \<and> list_all unicode_digit (rp_length r) \<and> read_nat (rp_length r) = None
      then Inl Crashed
      else if (case read_nat (rp_length r) of None \<Rightarrow> False | Some n \<Rightarrow> max_auth_response < n)
      then Inl Unavailable
      else case rp_json r of Some (JObj ms) \<Rightarrow> Inr ms | _ \<Rightarrow> Inl Unavailable)"

definition replace_z :: "string \<Rightarrow> string" where
  "replace_z s = concat (map (\<lambda>ch. if ch = CHR ''Z'' then ''+00:00'' else [ch]) s)"

definition parse_portal_datetime :: "portal_env \<Rightarrow> json option \<Rightarrow> rat option" where
  "parse_portal_datetime env j =
     (case string_of_json j of
        None \<Rightarrow> None
      | Some s \<Rightarrow>
          if s = [] \<or> 64 < length s then None
          else case pe_iso env (replace_z s) of Some (True, t) \<Rightarrow> Some t | _ \<Rightarrow> None)"

definition valid_opaque :: "string \<Rightarrow> bool" where
  "valid_opaque v \<longleftrightarrow> 16 \<le> length v \<and> length v \<le> 4096 \<and> v = strip v
     \<and> list_all (\<lambda>ch. 33 \<le> code ch \<and> code ch \<noteq> 127) v"

definition opaque_json :: "json option \<Rightarrow> string option" where
  "opaque_json j = (case string_of_json j of
     None \<Rightarrow> None | Some v \<Rightarrow> if valid_opaque v then Some v else None)"

section \<open>Exchanging a code\<close>

record portal_exchange =
  px_token :: string
  px_expires_in :: int
  px_idle :: rat
  px_absolute :: rat

text \<open>The checks before the code is sent.\<close>

definition exchange_request :: "auth_config \<Rightarrow> string \<Rightarrow> string \<Rightarrow> auth_error + unit" where
  "exchange_request c authorization_code verifier =
     bind_res (validate_auth_configuration c) (\<lambda>_.
     if ac_mode c \<noteq> ''portal_handoff'' then Inl (Misconfigured Handoff_Not_Configured)
     else guard_res (valid_opaque authorization_code \<and> valid_opaque verifier) Not_Authenticated)"

definition exchanged :: "auth_config \<Rightarrow> portal_env \<Rightarrow> rat \<Rightarrow> (string \<times> json) list \<Rightarrow> auth_error + portal_exchange" where
  "exchanged c env now payload =
     (let get = map_of payload in
      case (opaque_json (get ''access_token''), get ''token_type'', get ''expires_in'',
            parse_portal_datetime env (get ''idle_expires_at''), parse_portal_datetime env (get ''absolute_expires_at'')) of
        (Some token, Some (JStr kind), Some (JInt expires), Some idle, Some absolute) \<Rightarrow>
          if kind \<noteq> ''Bearer'' \<or> expires < 1 \<or> ac_absolute c < expires
            \<or> idle \<le> now \<or> absolute \<le> now \<or> absolute < idle
          then Inl Unavailable
          else Inr \<lparr>px_token = token, px_expires_in = expires, px_idle = idle, px_absolute = absolute\<rparr>
      | _ \<Rightarrow> Inl Unavailable)"

text \<open>\<open>None\<close> is a request that could not be made.\<close>

definition exchange_code ::
  "auth_config \<Rightarrow> portal_env \<Rightarrow> string \<Rightarrow> string \<Rightarrow> portal_reply option \<Rightarrow> rat \<Rightarrow> auth_error + portal_exchange" where
  "exchange_code c env authorization_code verifier reply now =
     bind_res (exchange_request c authorization_code verifier) (\<lambda>_.
     case reply of
       None \<Rightarrow> Inl Unavailable
     | Some r \<Rightarrow>
         if rp_status r = 400 \<or> rp_status r = 401 then Inl Not_Authenticated
         else if rp_status r = 403 then Inl Not_Authorized
         else if rp_status r \<noteq> 200 then Inl Unavailable
         else bind_res (response_json r) (exchanged c env now))"

section \<open>Who a token belongs to\<close>

definition upper_char :: "char \<Rightarrow> char" where
  "upper_char ch = (let n = code ch in
     if 97 \<le> n \<and> n \<le> 122 \<or> 224 \<le> n \<and> n \<le> 254 \<and> n \<noteq> 247 then char_of (n - 32) else ch)"

fun text_of :: "portal_env \<Rightarrow> json \<Rightarrow> string" where
  "text_of env (JStr s) = s"
| "text_of env (JInt i) = show_int i"
| "text_of env (JBool b) = (if b then ''True'' else ''False'')"
| "text_of env JNull = ''None''"
| "text_of env j = pe_show env j"

definition permission :: "json \<Rightarrow> string option" where
  "permission j = (case string_of_json (Some j) of
     None \<Rightarrow> None | Some s \<Rightarrow> if 0 < length s \<and> length s \<le> 256 then Some s else None)"

definition permissions_of :: "json \<Rightarrow> string list option" where
  "permissions_of j = (case list_of_json (Some j) of
     None \<Rightarrow> None
   | Some js \<Rightarrow>
       if 256 < length js \<or> list_ex (\<lambda>p. permission p = None) js then None
       else Some (map (\<lambda>p. the (permission p)) js))"

definition introspection_keys :: "string list" where
  "introspection_keys = [''user_id'', ''username'', ''email'', ''display_name'', ''role'', ''permissions'',
     ''application_slug'']"

text \<open>The checks of the entries, once they are texts and times.\<close>

definition checked_identity ::
  "auth_config \<Rightarrow> rat \<Rightarrow> string \<Rightarrow> identity \<Rightarrow> rat \<Rightarrow> rat \<Rightarrow> auth_error + identity \<times> rat \<times> rat" where
  "checked_identity c now slug i idle absolute =
     (if slug \<noteq> ac_client_id c then Inl Not_Authorized
      else if id_role i \<notin> {''ADMINISTRATOR'', ''USER''} then Inl Not_Authorized
      else if canonical_uuid (id_user i) = [] \<or> id_user i \<noteq> canonical_uuid (id_user i)
        \<or> id_name i = [] \<or> 320 < length (id_name i) \<or> id_email i = [] \<or> 320 < length (id_email i)
        \<or> 320 < length (id_display i)
      then Inl Unavailable
      else if idle \<le> now \<or> absolute \<le> now \<or> absolute < idle
        \<or> of_int (ac_idle c + clock_skew) < idle - now \<or> of_int (ac_absolute c + clock_skew) < absolute - now
      then Inl Not_Authenticated
      else Inr (i\<lparr>id_display := (if id_display i = [] then id_name i else id_display i)\<rparr>, idle, absolute))"

definition identity_from_introspection ::
  "auth_config \<Rightarrow> portal_env \<Rightarrow> rat \<Rightarrow> (string \<times> json) list \<Rightarrow> auth_error + identity \<times> rat \<times> rat" where
  "identity_from_introspection c env now payload =
     (let get = map_of payload;
          entry = (\<lambda>k. strip (text_of env (the (get k))))
      in if list_ex (\<lambda>k. get k = None) introspection_keys then Inl Unavailable
      else case (parse_portal_datetime env (get ''idle_expires_at''),
                 parse_portal_datetime env (get ''absolute_expires_at''), permissions_of (the (get ''permissions''))) of
        (Some idle, Some absolute, Some granted) \<Rightarrow>
          checked_identity c now (entry ''application_slug'')
            \<lparr>id_user = entry ''user_id'', id_name = entry ''username'', id_email = entry ''email'',
             id_display = entry ''display_name'', id_role = map upper_char (entry ''role''),
             id_permissions = granted, id_bypass = False\<rparr> idle absolute
      | _ \<Rightarrow> Inl Unavailable)"

section \<open>The cache\<close>

type_synonym cache = "(string \<times> identity \<times> rat) list"

definition max_cached :: nat where "max_cached = 2048"

definition cache_key :: "string \<Rightarrow> string" where
  "cache_key token = hex_digest (sha256 (utf8_encode token))"

text \<open>The first entry with the earliest expiry.\<close>

fun oldest_key :: "cache \<Rightarrow> string" where
  "oldest_key [] = []"
| "oldest_key [(k, _)] = k"
| "oldest_key ((k, i, e) # (k', i', e') # rest) =
     oldest_key ((if e \<le> e' then (k, i, e) else (k', i', e')) # rest)"

definition store_identity :: "string \<Rightarrow> identity \<Rightarrow> rat \<Rightarrow> cache \<Rightarrow> cache" where
  "store_identity k i expires cache =
     AList.update k (i, expires)
       (if k \<notin> fst ` set cache \<and> max_cached \<le> length cache
        then AList.delete (oldest_key cache) cache else cache)"

text \<open>Asking for an identity up to the request: an error, a cached identity, or a key to ask for.\<close>

datatype lookup = Lookup_Error auth_error | Cached identity | Ask string

definition introspect_start :: "auth_config \<Rightarrow> string \<Rightarrow> rat \<Rightarrow> cache \<Rightarrow> cache \<times> lookup" where
  "introspect_start c token tick cache =
     (case validate_auth_configuration c of
        Inl e \<Rightarrow> (cache, Lookup_Error e)
      | Inr _ \<Rightarrow>
          if ac_mode c = ''local''
          then (cache, case local_identity c of Inl e \<Rightarrow> Lookup_Error e | Inr i \<Rightarrow> Cached i)
          else if \<not> valid_opaque token then (cache, Lookup_Error Not_Authenticated)
          else
            (case map_of cache (cache_key token) of
               Some (i, expires) \<Rightarrow>
                 if tick < expires then (cache, Cached i)
                 else (AList.delete (cache_key token) cache, Ask (cache_key token))
             | None \<Rightarrow> (AList.delete (cache_key token) cache, Ask (cache_key token))))"

text \<open>From the reply on; \<open>now\<close> is read twice, when the lifetimes are checked and when the entry is made.\<close>

definition introspect_reply ::
  "auth_config \<Rightarrow> portal_env \<Rightarrow> portal_reply option \<Rightarrow> rat \<Rightarrow> auth_error + identity \<times> rat \<times> rat" where
  "introspect_reply c env reply now =
     (case reply of
        None \<Rightarrow> Inl Unavailable
      | Some r \<Rightarrow>
          if rp_status r = 403 then Inl Not_Authorized
          else if rp_status r \<noteq> 200 then Inl Unavailable
          else bind_res (response_json r) (\<lambda>payload.
            if map_of payload ''active'' \<noteq> Some (JBool True) then Inl Not_Authenticated
            else identity_from_introspection c env now payload))"

definition success_ttl :: "auth_config \<Rightarrow> rat \<Rightarrow> rat \<Rightarrow> rat \<Rightarrow> rat" where
  "success_ttl c now idle absolute = min (of_int (ac_cache c)) (min (max 0 (idle - now)) (max 0 (absolute - now)))"

definition introspect_finish ::
  "auth_config \<Rightarrow> portal_env \<Rightarrow> string \<Rightarrow> portal_reply option \<Rightarrow> rat \<Rightarrow> rat \<Rightarrow> rat \<Rightarrow> cache
    \<Rightarrow> cache \<times> (auth_error + identity)" where
  "introspect_finish c env key reply now now' tick cache =
     (case introspect_reply c env reply now of
        Inl e \<Rightarrow> (cache, Inl e)
      | Inr (i, idle, absolute) \<Rightarrow>
          (let ttl = success_ttl c now' idle absolute in
           (if 0 < ttl then store_identity key i (tick + ttl) cache else cache, Inr i)))"

text \<open>Signing out: the entry is dropped first; then the portal is asked, unless there is nothing to ask.\<close>

definition revoke_start :: "auth_config \<Rightarrow> string \<Rightarrow> cache \<Rightarrow> cache \<times> (auth_error + bool)" where
  "revoke_start c token cache =
     (case validate_auth_configuration c of
        Inl e \<Rightarrow> (cache, Inl e)
      | Inr _ \<Rightarrow>
          if ac_mode c = ''local'' \<or> token = [] then (cache, Inr False)
          else (AList.delete (cache_key token) cache, Inr (valid_opaque token)))"

definition revoke_reply :: "portal_reply option \<Rightarrow> auth_error + unit" where
  "revoke_reply reply =
     (case reply of
        None \<Rightarrow> Inl Unavailable
      | Some r \<Rightarrow>
          if rp_status r = 403 then Inl Not_Authorized
          else guard_res (rp_status r = 204) Unavailable)"

section \<open>Threads sharing the cache\<close>

text \<open>The server handles requests in parallel: between the lookup of a thread and the entry it makes
  lie the steps of others. An answer is recorded with the reply it rests on.\<close>

record confirmation =
  cf_key :: string
  cf_identity :: identity
  cf_reply :: "portal_reply option"
  cf_now :: rat
  cf_later :: rat
  cf_tick :: rat

record sessions =
  se_cache :: cache
  se_asking :: "(nat \<times> string) list"
  se_clock :: rat
  se_confirmed :: "confirmation list"
  se_served :: "(string \<times> identity \<times> rat) list"

definition no_sessions :: sessions where
  "no_sessions = \<lparr>se_cache = [], se_asking = [], se_clock = 0, se_confirmed = [], se_served = []\<rparr>"

datatype session_event =
    Start nat string rat
  | Answer nat "portal_reply option" rat rat rat
  | Revoke string

text \<open>The monotonic clock does not go back, whatever the event says.\<close>

fun session_step :: "auth_config \<Rightarrow> portal_env \<Rightarrow> session_event \<Rightarrow> sessions \<Rightarrow> sessions" where
  "session_step c env (Start who token t) s =
     (let tick = max (se_clock s) t in
      case introspect_start c token tick (se_cache s) of (cache, result) \<Rightarrow>
        (let s' = s\<lparr>se_cache := cache, se_clock := tick\<rparr> in
         case result of
           Lookup_Error e \<Rightarrow> s'
         | Cached i \<Rightarrow> s'\<lparr>se_served := (cache_key token, i, tick) # se_served s\<rparr>
         | Ask k \<Rightarrow> s'\<lparr>se_asking := AList.update who k (se_asking s)\<rparr>))"
| "session_step c env (Answer who reply now later t) s =
     (let tick = max (se_clock s) t in
      case map_of (se_asking s) who of
        None \<Rightarrow> s
      | Some k \<Rightarrow>
          (case introspect_finish c env k reply now later tick (se_cache s) of (cache, result) \<Rightarrow>
             (let s' = s\<lparr>se_cache := cache, se_clock := tick, se_asking := AList.delete who (se_asking s)\<rparr> in
              case result of
                Inl e \<Rightarrow> s'
              | Inr i \<Rightarrow> s'\<lparr>se_served := (k, i, tick) # se_served s,
                  se_confirmed := \<lparr>cf_key = k, cf_identity = i, cf_reply = reply, cf_now = now,
                    cf_later = later, cf_tick = tick\<rparr> # se_confirmed s\<rparr>)))"
| "session_step c env (Revoke token) s = s\<lparr>se_cache := fst (revoke_start c token (se_cache s))\<rparr>"

definition run_sessions :: "auth_config \<Rightarrow> portal_env \<Rightarrow> session_event list \<Rightarrow> sessions" where
  "run_sessions c env events = fold (session_step c env) events no_sessions"

section \<open>Cached identities are fresh\<close>

text \<open>An answer of the portal backs an identity until a given time.\<close>

definition backs :: "auth_config \<Rightarrow> portal_env \<Rightarrow> string \<Rightarrow> identity \<Rightarrow> rat \<Rightarrow> confirmation \<Rightarrow> bool" where
  "backs c env k i expires f \<longleftrightarrow>
     cf_key f = k \<and> cf_identity f = i
     \<and> (\<exists>idle absolute. introspect_reply c env (cf_reply f) (cf_now f) = Inr (i, idle, absolute)
        \<and> expires - cf_tick f \<le> of_int (ac_cache c)
        \<and> expires - cf_tick f \<le> idle - cf_later f \<and> expires - cf_tick f \<le> absolute - cf_later f)"

text \<open>What was served at a time rests on an answer of that very moment, or on one that still backs it.\<close>

definition fresh_at :: "auth_config \<Rightarrow> portal_env \<Rightarrow> confirmation list \<Rightarrow> string \<times> identity \<times> rat \<Rightarrow> bool" where
  "fresh_at c env fs = (\<lambda>(k, i, t).
     \<exists>f \<in> set fs. cf_key f = k \<and> cf_identity f = i \<and> cf_tick f \<le> t
       \<and> (\<exists>idle absolute. introspect_reply c env (cf_reply f) (cf_now f) = Inr (i, idle, absolute)
          \<and> (t = cf_tick f \<or> t - cf_tick f < of_int (ac_cache c)
             \<and> t - cf_tick f < idle - cf_later f \<and> t - cf_tick f < absolute - cf_later f)))"

definition sessions_ok :: "auth_config \<Rightarrow> portal_env \<Rightarrow> sessions \<Rightarrow> bool" where
  "sessions_ok c env s \<longleftrightarrow>
     distinct (map fst (se_cache s)) \<and> length (se_cache s) \<le> max_cached
     \<and> (\<forall>(k, i, e) \<in> set (se_cache s). \<exists>f \<in> set (se_confirmed s). backs c env k i e f)
     \<and> (\<forall>f \<in> set (se_confirmed s). cf_tick f \<le> se_clock s)
     \<and> (\<forall>x \<in> set (se_served s). fresh_at c env (se_confirmed s) x)"

lemma length_update: "length (AList.update k v al) = (if k \<in> fst ` set al then length al else Suc (length al))"
  by (induction al) auto

lemma length_delete: "length (AList.delete k al) \<le> length al"
  by (simp add: AList.delete_eq)

lemma length_delete_present: "k \<in> fst ` set al \<Longrightarrow> length (AList.delete k al) < length al"
proof (induction al)
  case (Cons x al)
  then show ?case using length_delete [of k al] by (auto simp: le_imp_less_Suc)
qed simp

lemma oldest_key_present: "cache \<noteq> [] \<Longrightarrow> oldest_key cache \<in> fst ` set cache"
  by (induction cache rule: oldest_key.induct) (auto split: if_split_asm)

lemma store_identity_ok:
  assumes "distinct (map fst cache)" "length cache \<le> max_cached"
  shows "distinct (map fst (store_identity k i e cache))" "length (store_identity k i e cache) \<le> max_cached"
    and "set (store_identity k i e cache) \<subseteq> insert (k, i, e) (set cache)"
proof -
  let ?evict = "k \<notin> fst ` set cache \<and> max_cached \<le> length cache"
  let ?rest = "if ?evict then AList.delete (oldest_key cache) cache else cache"
  have d: "distinct (map fst ?rest)" using assms(1) by (simp add: distinct_delete)
  then show "distinct (map fst (store_identity k i e cache))" by (simp add: store_identity_def distinct_update)
  show "set (store_identity k i e cache) \<subseteq> insert (k, i, e) (set cache)"
    using update_subset [of k "(i, e)" ?rest] delete_subset [of "oldest_key cache" cache]
    by (auto simp: store_identity_def split: if_split_asm)
  have "length ?rest < max_cached" if "k \<notin> fst ` set cache"
  proof (cases ?evict)
    case True
    then have "cache \<noteq> []" by (auto simp: max_cached_def)
    then show ?thesis
      using True length_delete_present [OF oldest_key_present, of cache] assms(2) by simp
  qed (use that in auto)
  then show "length (store_identity k i e cache) \<le> max_cached"
    using assms(2) length_update [of k "(i, e)" ?rest] by (auto simp: store_identity_def)
qed

lemma start_cache:
  "introspect_start c token tick cache = (cache', r) \<Longrightarrow> cache' = cache \<or> cache' = AList.delete (cache_key token) cache"
  by (auto simp: introspect_start_def split: sum.split_asm if_split_asm option.split_asm)

lemma start_hit:
  assumes "introspect_start c token tick cache = (cache', Cached i)" and "ac_mode c \<noteq> ''local''"
  shows "\<exists>e. (cache_key token, i, e) \<in> set cache \<and> tick < e"
proof -
  have "\<exists>e. map_of cache (cache_key token) = Some (i, e) \<and> tick < e"
    using assms by (auto simp: introspect_start_def split: sum.split_asm if_split_asm option.split_asm)
  then show ?thesis using map_of_SomeD by fastforce
qed

lemma revoke_cache:
  "fst (revoke_start c token cache) = cache \<or> fst (revoke_start c token cache) = AList.delete (cache_key token) cache"
  by (auto simp: revoke_start_def split: sum.split)

lemma finishE:
  assumes "introspect_finish c env k reply now later tick cache = (cache', Inr i)"
  obtains idle absolute where "introspect_reply c env reply now = Inr (i, idle, absolute)"
    "cache' = cache \<or> (\<exists>ttl. cache' = store_identity k i (tick + ttl) cache
       \<and> ttl \<le> of_int (ac_cache c) \<and> ttl \<le> idle - later \<and> ttl \<le> absolute - later)"
proof -
  obtain idle absolute where reply: "introspect_reply c env reply now = Inr (i, idle, absolute)"
    using assms by (auto simp: introspect_finish_def Let_def split: sum.split_asm)
  define ttl where "ttl = success_ttl c later idle absolute"
  have cache': "cache' = (if 0 < ttl then store_identity k i (tick + ttl) cache else cache)"
    using assms by (auto simp: introspect_finish_def reply ttl_def Let_def)
  have "ttl \<le> of_int (ac_cache c) \<and> ttl \<le> idle - later \<and> ttl \<le> absolute - later" if "0 < ttl"
    using that by (auto simp: ttl_def success_ttl_def min_def max_def split: if_split_asm)
  then show thesis using reply cache' by (intro that) auto
qed

lemma finish_error: "introspect_finish c env k reply now later tick cache = (cache', Inl e) \<Longrightarrow> cache' = cache"
  by (auto simp: introspect_finish_def Let_def split: sum.split_asm)

lemma sessions_ok_shrink:
  assumes "sessions_ok c env s" "cache = se_cache s \<or> cache = AList.delete k (se_cache s)"
    and "se_cache s' = cache" "se_clock s \<le> se_clock s'" "se_confirmed s' = se_confirmed s" "se_served s' = se_served s"
  shows "sessions_ok c env s'"
proof -
  have "distinct (map fst cache)" "length cache \<le> max_cached" "set cache \<subseteq> set (se_cache s)"
    using assms(1,2) delete_subset [of k "se_cache s"] length_delete [of k "se_cache s"]
    by (auto simp: sessions_ok_def distinct_delete)
  then show ?thesis using assms by (force simp: sessions_ok_def)
qed

lemma hit_fresh:
  assumes "sessions_ok c env s" "(k, i, e) \<in> set (se_cache s)" "tick < e" "se_clock s \<le> tick"
  shows "fresh_at c env (se_confirmed s) (k, i, tick)"
proof -
  obtain f where f: "f \<in> set (se_confirmed s)" "backs c env k i e f" "cf_tick f \<le> se_clock s"
    using assms(1,2) by (force simp: sessions_ok_def)
  then show ?thesis
    using assms(3,4) unfolding fresh_at_def backs_def by (intro case_prodI bexI [of _ f]) auto
qed

lemma fresh_more: "fresh_at c env fs x \<Longrightarrow> fresh_at c env (f # fs) x"
  by (auto simp: fresh_at_def)

lemma step_ok:
  assumes ok: "sessions_ok c env s" and portal: "ac_mode c \<noteq> ''local''"
  shows "sessions_ok c env (session_step c env ev s)"
proof (cases ev)
  case (Start who token t)
  define tick where "tick = max (se_clock s) t"
  obtain cache r where start: "introspect_start c token tick (se_cache s) = (cache, r)" by fastforce
  define s' where "s' = s\<lparr>se_cache := cache, se_clock := tick\<rparr>"
  have ok': "sessions_ok c env s'"
    by (rule sessions_ok_shrink [OF ok start_cache [OF start]]) (simp_all add: s'_def tick_def)
  show ?thesis
  proof (cases r)
    case (Cached i)
    obtain e where "(cache_key token, i, e) \<in> set (se_cache s)" "tick < e"
      using start_hit [OF start [unfolded Cached] portal] by blast
    then have "fresh_at c env (se_confirmed s) (cache_key token, i, tick)"
      using hit_fresh [OF ok] by (simp add: tick_def)
    moreover have "session_step c env ev s = s'\<lparr>se_served := (cache_key token, i, tick) # se_served s\<rparr>"
      using start by (simp add: Start tick_def [symmetric] Cached s'_def Let_def)
    ultimately show ?thesis using ok' by (simp add: sessions_ok_def s'_def)
  next
    case (Lookup_Error e)
    then show ?thesis using start ok' by (simp add: Start tick_def [symmetric] s'_def Let_def)
  next
    case (Ask k)
    then show ?thesis using start ok' by (simp add: Start tick_def [symmetric] s'_def Let_def sessions_ok_def)
  qed
next
  case (Answer who reply now later t)
  define tick where "tick = max (se_clock s) t"
  have later: "se_clock s \<le> tick" by (simp add: tick_def)
  show ?thesis
  proof (cases "map_of (se_asking s) who")
    case None
    then show ?thesis using ok by (simp add: Answer)
  next
    case (Some k)
    obtain cache r where finish: "introspect_finish c env k reply now later tick (se_cache s) = (cache, r)" by fastforce
    show ?thesis
    proof (cases r)
      case (Inl e)
      have "cache = se_cache s" by (rule finish_error [OF finish [unfolded Inl]])
      then show ?thesis
        using finish Some Inl
        by (intro sessions_ok_shrink [OF ok, of cache k])
          (simp_all add: Answer tick_def [symmetric] Let_def later)
    next
      case (Inr i)
      define f where "f = \<lparr>cf_key = k, cf_identity = i, cf_reply = reply, cf_now = now, cf_later = later, cf_tick = tick\<rparr>"
      obtain idle absolute where reply: "introspect_reply c env reply now = Inr (i, idle, absolute)"
        and cache: "cache = se_cache s \<or> (\<exists>ttl. cache = store_identity k i (tick + ttl) (se_cache s)
           \<and> ttl \<le> of_int (ac_cache c) \<and> ttl \<le> idle - later \<and> ttl \<le> absolute - later)"
        using finish [unfolded Inr] by (rule finishE)
      have kept: "\<exists>g \<in> set (f # se_confirmed s). backs c env k' i' e' g" if "(k', i', e') \<in> set (se_cache s)" for k' i' e'
        using ok that by (fastforce simp: sessions_ok_def)
      have new: "backs c env k i (tick + ttl) f"
        if "ttl \<le> of_int (ac_cache c)" "ttl \<le> idle - later" "ttl \<le> absolute - later" for ttl
        using that reply by (simp add: backs_def f_def)
      have c: "distinct (map fst cache)" "length cache \<le> max_cached"
        using cache ok store_identity_ok(1,2) by (auto simp: sessions_ok_def)
      have backed: "\<exists>g \<in> set (f # se_confirmed s). backs c env k' i' e' g" if mem: "(k', i', e') \<in> set cache" for k' i' e'
      proof (cases "(k', i', e') \<in> set (se_cache s)")
        case False
        from this obtain ttl where "cache = store_identity k i (tick + ttl) (se_cache s)"
          and t: "ttl \<le> of_int (ac_cache c)" "ttl \<le> idle - later" "ttl \<le> absolute - later"
          using cache mem by blast
        then have "(k', i', e') = (k, i, tick + ttl)"
          using store_identity_ok(3) [of "se_cache s" k i "tick + ttl"] ok mem False by (auto simp: sessions_ok_def)
        then show ?thesis using new [OF t] by auto
      qed (rule kept)
      have "fresh_at c env (f # se_confirmed s) (k, i, tick)"
        using reply by (auto simp: fresh_at_def f_def)
      moreover have "session_step c env ev s = s\<lparr>se_cache := cache, se_clock := tick,
          se_asking := AList.delete who (se_asking s), se_served := (k, i, tick) # se_served s,
          se_confirmed := f # se_confirmed s\<rparr>"
        using finish Some by (simp add: Answer tick_def [symmetric] Inr f_def Let_def)
      ultimately show ?thesis
        using ok c backed later fresh_more by (fastforce simp: sessions_ok_def f_def)
    qed
  qed
next
  case (Revoke token)
  then show ?thesis
    by (intro sessions_ok_shrink [OF ok revoke_cache [of c token "se_cache s"]]) simp_all
qed

text \<open>C14. However requests interleave, an identity that is served without asking the portal was given by
  the portal, in a reply that passes all checks, for the same token, less than the cache time ago and
  within the session's own lifetime; and the cache keeps one entry per token and stays bounded.\<close>

theorem cached_identities_are_fresh:
  "ac_mode c = ''local'' \<or>
     (let s = run_sessions c env events in
      list_all (fresh_at c env (se_confirmed s)) (se_served s)
      \<and> distinct (map fst (se_cache s)) \<and> length (se_cache s) \<le> max_cached)"
proof (cases "ac_mode c = ''local''")
  case False
  have "sessions_ok c env (fold (session_step c env) events s)" if "sessions_ok c env s" for s
    using that by (induction events arbitrary: s) (simp_all add: step_ok False)
  moreover have "sessions_ok c env no_sessions" by (simp add: sessions_ok_def no_sessions_def)
  ultimately have "sessions_ok c env (run_sessions c env events)" by (simp add: run_sessions_def)
  then show ?thesis by (simp add: sessions_ok_def list_all_iff Let_def)
qed simp

text \<open>A token that is revoked while an answer about it is under way is served from the cache again.\<close>

lemma revoked_session_is_served_again:
  assumes "validate_auth_configuration c = Inr ()" "ac_mode c \<noteq> ''local''" "valid_opaque token"
    and "introspect_reply c env reply now = Inr (i, idle, absolute)" "0 < success_ttl c later idle absolute"
  shows "se_served (run_sessions c env [Start 0 token 0, Revoke token, Answer 0 reply now later 1, Start 1 token 2])
      = (if 1 < success_ttl c later idle absolute then [(cache_key token, i, 2), (cache_key token, i, 1)]
         else [(cache_key token, i, 1)])"
  using assms
  by (simp add: run_sessions_def no_sessions_def introspect_start_def introspect_finish_def revoke_start_def
      store_identity_def max_cached_def Let_def)

section \<open>Who may be served\<close>

text \<open>The identities that the portal's replies can yield.\<close>

lemma checked_identity_facts:
  assumes "checked_identity c now slug i idle absolute = Inr (j, idle', absolute')" "\<not> id_bypass i"
  shows "canonical_uuid (id_user j) = id_user j \<and> id_user j \<noteq> [] \<and> id_role j \<in> {''ADMINISTRATOR'', ''USER''}
    \<and> \<not> id_bypass j \<and> now < idle' \<and> now < absolute' \<and> idle' \<le> absolute'
    \<and> idle' - now \<le> of_int (ac_idle c + clock_skew) \<and> absolute' - now \<le> of_int (ac_absolute c + clock_skew)"
proof -
  have "j = i\<lparr>id_display := (if id_display i = [] then id_name i else id_display i)\<rparr>" "idle' = idle" "absolute' = absolute"
    "id_role i \<in> {''ADMINISTRATOR'', ''USER''}" "canonical_uuid (id_user i) \<noteq> []" "id_user i = canonical_uuid (id_user i)"
    "\<not> (idle \<le> now \<or> absolute \<le> now \<or> absolute < idle
        \<or> of_int (ac_idle c + clock_skew) < idle - now \<or> of_int (ac_absolute c + clock_skew) < absolute - now)"
    using assms(1) unfolding checked_identity_def by (simp_all only: split: if_split_asm) simp_all
  then show ?thesis using assms(2) by (simp add: not_le not_less)
qed

lemma introspected_identity:
  assumes "identity_from_introspection c env now payload = Inr (i, idle, absolute)"
  shows "\<exists>slug j idle' absolute'. checked_identity c now slug j idle' absolute' = Inr (i, idle, absolute) \<and> \<not> id_bypass j"
proof -
  obtain a b g where t: "parse_portal_datetime env (map_of payload ''idle_expires_at'') = Some a"
    "parse_portal_datetime env (map_of payload ''absolute_expires_at'') = Some b"
    "permissions_of (the (map_of payload ''permissions'')) = Some g"
    "\<not> list_ex (\<lambda>k. map_of payload k = None) introspection_keys"
    using assms unfolding identity_from_introspection_def Let_def
    by (simp split: if_split_asm option.split_asm)
  show ?thesis
    using assms unfolding identity_from_introspection_def Let_def by (simp add: t) (metis identity.select_convs(7))
qed

lemma reply_identity:
  assumes "introspect_reply c env reply now = Inr (i, idle, absolute)"
  shows "canonical_uuid (id_user i) = id_user i" "id_user i \<noteq> []" "id_role i \<in> {''ADMINISTRATOR'', ''USER''}"
    "\<not> id_bypass i" "now < idle" "now < absolute" "idle \<le> absolute"
    "idle - now \<le> of_int (ac_idle c + clock_skew)" "absolute - now \<le> of_int (ac_absolute c + clock_skew)"
proof -
  obtain payload where "identity_from_introspection c env now payload = Inr (i, idle, absolute)"
    using assms by (auto simp: introspect_reply_def bind_res_Inr_iff split: option.split_asm if_split_asm)
  then obtain slug j a b where "checked_identity c now slug j a b = Inr (i, idle, absolute)" "\<not> id_bypass j"
    using introspected_identity by blast
  from checked_identity_facts [OF this]
  show "canonical_uuid (id_user i) = id_user i" "id_user i \<noteq> []" "id_role i \<in> {''ADMINISTRATOR'', ''USER''}"
    "\<not> id_bypass i" "now < idle" "now < absolute" "idle \<le> absolute"
    "idle - now \<le> of_int (ac_idle c + clock_skew)" "absolute - now \<le> of_int (ac_absolute c + clock_skew)"
    by blast+
qed

end
