(* ===== verification/Auth_Server.thy ===== *)
theory Auth_Server
  imports Auth_Sessions
begin

text \<open>
  The login endpoints and the middleware of \<^verbatim>\<open>server.py\<close>: which requests reach a handler and with which
  identity, and what the callback of the portal leads to.
\<close>

section \<open>The middleware\<close>

record request =
  rq_method :: string
  rq_path :: string
  rq_session :: string
  rq_origin :: "string option"

definition public_api_paths :: "string list" where
  "public_api_paths = [''/api/health'', ''/api/auth/start'', ''/api/auth/callback'', ''/api/auth/session'',
     ''/api/auth/logout'']"

definition mutating_methods :: "string list" where
  "mutating_methods = [''POST'', ''PUT'', ''PATCH'', ''DELETE'']"

text \<open>A request is answered here, with a status and perhaps without its session cookie from then on,
  or goes to its handler with the identity that was found. 500 stands for an exception nobody expects.\<close>

datatype passage = Answered nat bool | Passed "identity option"

definition status_of :: "auth_error \<Rightarrow> nat" where
  "status_of e = (case e of Not_Authenticated \<Rightarrow> 401 | Not_Authorized \<Rightarrow> 403 | Unavailable \<Rightarrow> 503
     | Misconfigured _ \<Rightarrow> 503 | Crashed \<Rightarrow> 500)"

definition origin_allowed :: "auth_config \<Rightarrow> request \<Rightarrow> bool" where
  "origin_allowed c rq \<longleftrightarrow>
     rstrip_chars ''/'' (case rq_origin rq of None \<Rightarrow> [] | Some origin \<Rightarrow> origin) = public_origin c"

definition production_security :: "auth_config \<Rightarrow> (string \<Rightarrow> auth_error + identity) \<Rightarrow> request \<Rightarrow> passage" where
  "production_security c authenticate rq =
     (case (if prefix ''/api'' (rq_path rq) \<and> rq_path rq \<notin> set public_api_paths
            then (case authenticate (rq_session rq) of Inl e \<Rightarrow> Inl e | Inr i \<Rightarrow> Inr (Some i))
            else Inr None) of
        Inl e \<Rightarrow> Answered (status_of e) (e = Not_Authenticated)
      | Inr found \<Rightarrow>
          if ac_mode c = ''portal_handoff'' \<and> rq_method rq \<in> set mutating_methods \<and> \<not> origin_allowed c rq
          then Answered 403 False
          else Passed found)"

text \<open>\<open>require_administrator\<close>: the status it raises, if any.\<close>

definition may_administer :: "auth_config \<Rightarrow> identity \<Rightarrow> bool" where
  "may_administer c i =
     (if ac_env c = ''production'' then is_trusted_initial_administrator c i else is_administrator c i)"

definition require_administrator :: "auth_config \<Rightarrow> identity option \<Rightarrow> nat option" where
  "require_administrator c found =
     (case found of None \<Rightarrow> Some 401 | Some i \<Rightarrow> if may_administer c i then None else Some 403)"

section \<open>Cookies and redirects\<close>

record cookie =
  ck_name :: string
  ck_value :: string
  ck_max_age :: int
  ck_path :: string
  ck_secure :: bool
  ck_http_only :: bool
  ck_same_site :: string

definition handoff_cookie_name :: "auth_config \<Rightarrow> string" where
  "handoff_cookie_name c =
     (if ac_env c = ''production'' then ''__Host-opportunity_radar_handoff'' else ''opportunity_radar_handoff'')"

definition handoff_cookie :: "auth_config \<Rightarrow> string \<Rightarrow> cookie" where
  "handoff_cookie c v = \<lparr>ck_name = handoff_cookie_name c, ck_value = v, ck_max_age = ac_handoff_ttl c,
     ck_path = ''/'', ck_secure = (ac_env c = ''production''), ck_http_only = True, ck_same_site = ''lax''\<rparr>"

definition session_cookie :: "auth_config \<Rightarrow> string \<Rightarrow> int \<Rightarrow> cookie" where
  "session_cookie c token max_age = \<lparr>ck_name = ac_cookie c, ck_value = token,
     ck_max_age = max 1 (min max_age (ac_absolute c)),
     ck_path = ''/'', ck_secure = (ac_env c = ''production''), ck_http_only = True, ck_same_site = ''lax''\<rparr>"

text \<open>\<open>quote_plus\<close>, \<open>urlencode\<close> and \<open>parse_qsl\<close> (with blank values) on code points.\<close>

definition utf8_of :: "nat \<Rightarrow> nat list" where
  "utf8_of n =
     (if n < 128 then [n]
      else if n < 2048 then [192 + n div 64, 128 + n mod 64]
      else if n < 65536 then [224 + n div 4096, 128 + n div 64 mod 64, 128 + n mod 64]
      else [240 + n div 262144, 128 + n div 4096 mod 64, 128 + n div 64 mod 64, 128 + n mod 64])"

definition upper_hex :: "nat \<Rightarrow> char" where
  "upper_hex n = char_of (if n < 10 then 48 + n else 55 + n)"

definition quote_byte :: "nat \<Rightarrow> string" where
  "quote_byte b =
     (if b = 32 then ''+''
      else if 48 \<le> b \<and> b \<le> 57 \<or> letter_point b \<or> b = 95 \<or> b = 46 \<or> b = 45 \<or> b = 126 then [char_of b]
      else [CHR ''%'', upper_hex (b div 16), upper_hex (b mod 16)])"

definition quote_plus :: "ucs \<Rightarrow> string" where
  "quote_plus s = concat (map quote_byte (concat (map utf8_of s)))"

definition urlencode :: "(ucs \<times> ucs) list \<Rightarrow> string" where
  "urlencode ps = join ''&'' (map (\<lambda>(k, v). quote_plus k @ ''='' @ quote_plus v) ps)"

definition plus_to_space :: "ucs \<Rightarrow> ucs" where
  "plus_to_space s = map (\<lambda>x. if x = 43 then 32 else x) s"

definition parse_qsl :: "string \<Rightarrow> (ucs \<times> ucs) list" where
  "parse_qsl query =
     map (\<lambda>item. case cut 61 (points item) of (k, v) \<Rightarrow> (unquote (plus_to_space k), unquote (plus_to_space v)))
       (filter (\<lambda>item. item \<noteq> []) (split_on (CHR ''&'') query))"

text \<open>\<open>None\<close> is the \<open>ValueError\<close> of \<open>urlsplit\<close>.\<close>

definition auth_state_location :: "auth_config \<Rightarrow> string \<Rightarrow> string \<Rightarrow> string option" where
  "auth_state_location c return_path auth_state =
     map_option (\<lambda>parsed.
       let query = filter (\<lambda>(k, _). k \<noteq> points ''auth'') (parse_qsl (url_query parsed))
         @ [(points ''auth'', points auth_state)]
       in urlunsplit (parsed\<lparr>url_scheme := [], url_netloc := [], url_query := urlencode query\<rparr>))
     (urlsplit (safe_return_path (ac_base c) return_path))"

definition auth_start_url :: "auth_config \<Rightarrow> string \<Rightarrow> string" where
  "auth_start_url c return_to =
     ac_base c @ ''/api/auth/start?'' @ urlencode [(points ''returnTo'', points (safe_return_path (ac_base c) return_to))]"

definition callback_url :: "auth_config \<Rightarrow> string" where
  "callback_url c = rstrip_chars ''/'' (ac_public_url c) @ ''/api/auth/callback''"

definition portal_root_url :: "auth_config \<Rightarrow> string" where
  "portal_root_url c = rstrip_chars ''/'' (ac_portal_public c) @ ''/''"

definition build_authorize_url :: "auth_config \<Rightarrow> handoff_attempt \<Rightarrow> string" where
  "build_authorize_url c a =
     rstrip_chars ''/'' (ac_portal_api c) @ ''/api/app-auth/authorize?'' @ urlencode (map (\<lambda>(k, v). (points k, points v))
       [(''client_id'', ac_client_id c), (''redirect_uri'', callback_url c), (''response_type'', ''code''),
        (''state'', ha_state a), (''code_challenge'', ha_challenge a), (''code_challenge_method'', ''S256''),
        (''return_path'', ha_path a)])"

section \<open>The login endpoints\<close>

record reply =
  re_status :: nat
  re_location :: string
  re_set_session :: "cookie option"
  re_set_handoff :: "cookie option"
  re_drop_session :: bool
  re_drop_handoff :: bool
  re_revoked :: "string option"

definition see_other :: "string \<Rightarrow> reply" where
  "see_other location = \<lparr>re_status = 303, re_location = location, re_set_session = None, re_set_handoff = None,
     re_drop_session = False, re_drop_handoff = False, re_revoked = None\<rparr>"

definition plain_reply :: "nat \<Rightarrow> reply" where
  "plain_reply status = (see_other [])\<lparr>re_status := status\<rparr>"

text \<open>Starting a login: the portal has to answer a probe first.\<close>

definition auth_start ::
  "auth_config \<Rightarrow> auth_error + unit \<Rightarrow> string \<Rightarrow> string \<Rightarrow> int \<Rightarrow> string \<Rightarrow> reply" where
  "auth_start c probe state verifier now return_to =
     (let destination = safe_return_path (ac_base c) return_to in
      if ac_mode c = ''local'' then see_other destination
      else case bind_res probe (\<lambda>_. create_handoff_attempt c state verifier now destination) of
        Inl e \<Rightarrow> plain_reply (case e of Unavailable \<Rightarrow> 503 | Misconfigured _ \<Rightarrow> 503 | _ \<Rightarrow> 500)
      | Inr (a, v) \<Rightarrow> (see_other (build_authorize_url c a))\<lparr>re_set_handoff := Some (handoff_cookie c v)\<rparr>)"

text \<open>The query of the callback: how often each parameter occurs, and its value.\<close>

record callback_query =
  cq_states :: nat
  cq_codes :: nat
  cq_errors :: nat
  cq_state :: string
  cq_code :: string
  cq_error :: string

definition callback_shape :: "callback_query \<Rightarrow> bool" where
  "callback_shape q \<longleftrightarrow>
     cq_states q = 1 \<and> length (cq_state q) \<le> 512 \<and> length (cq_code q) \<le> 4096 \<and> length (cq_error q) \<le> 64
     \<and> cq_codes q \<le> 1 \<and> cq_errors q \<le> 1 \<and> (cq_code q = []) \<noteq> (cq_error q = [])"

definition auth_failed :: "auth_config \<Rightarrow> string \<Rightarrow> string \<Rightarrow> reply" where
  "auth_failed c destination auth_state =
     (case auth_state_location c destination auth_state of
        None \<Rightarrow> plain_reply 500
      | Some location \<Rightarrow> (see_other location)\<lparr>re_drop_handoff := True\<rparr>)"

definition portal_error_state :: "string \<Rightarrow> string" where
  "portal_error_state e = (if e = ''access_denied'' then ''denied''
     else if e = ''temporarily_unavailable'' then ''unavailable'' else ''failed'')"

definition error_state :: "auth_error \<Rightarrow> string" where
  "error_state e = (case e of Not_Authorized \<Rightarrow> ''denied'' | Unavailable \<Rightarrow> ''unavailable'' | _ \<Rightarrow> ''failed'')"

text \<open>A token that was given out but does not belong to anybody is revoked.\<close>

definition auth_callback ::
  "auth_config \<Rightarrow> callback_query \<Rightarrow> string \<Rightarrow> int \<Rightarrow> (string \<Rightarrow> string \<Rightarrow> auth_error + portal_exchange)
    \<Rightarrow> (string \<Rightarrow> auth_error + identity) \<Rightarrow> reply" where
  "auth_callback c q cookie now exchange introspect =
     (if \<not> callback_shape q then auth_failed c (safe_return_path (ac_base c) []) ''failed''
      else case consume_handoff_cookie c cookie (cq_state q) now of
        Inl e \<Rightarrow> if e = Not_Authenticated then auth_failed c (safe_return_path (ac_base c) []) ''failed''
          else plain_reply 500
      | Inr a \<Rightarrow>
          if cq_error q \<noteq> [] then auth_failed c (ha_path a) (portal_error_state (cq_error q))
          else if cq_code q = [] then auth_failed c (ha_path a) ''failed''
          else
            (case exchange (cq_code q) (ha_verifier a) of
               Inl e \<Rightarrow> if e = Crashed then plain_reply 500 else auth_failed c (ha_path a) (error_state e)
             | Inr x \<Rightarrow>
                 (case introspect (px_token x) of
                    Inl e \<Rightarrow>
                      if e = Crashed then plain_reply 500
                      else (auth_failed c (ha_path a) (error_state e))\<lparr>re_revoked := Some (px_token x)\<rparr>
                  | Inr i \<Rightarrow> (see_other (ha_path a))
                      \<lparr>re_set_session := Some (session_cookie c (px_token x) (px_expires_in x)),
                       re_drop_handoff := True\<rparr>)))"

definition auth_logout :: "auth_config \<Rightarrow> auth_error + unit \<Rightarrow> reply" where
  "auth_logout c revoked =
     (if revoked = Inl Not_Authenticated \<or> revoked = Inl Crashed then plain_reply 500
      else (plain_reply 200)
        \<lparr>re_location := (if ac_mode c = ''portal_handoff'' then portal_root_url c else safe_return_path (ac_base c) []),
         re_drop_session := True, re_drop_handoff := True\<rparr>)"

definition auth_session :: "auth_config \<Rightarrow> auth_error + identity \<Rightarrow> string \<Rightarrow> reply \<times> (identity \<times> bool) option" where
  "auth_session c authenticated return_to =
     (case authenticated of
        Inl e \<Rightarrow> ((plain_reply (status_of e))\<lparr>re_drop_session := (e = Not_Authenticated),
          re_location := (if e = Not_Authenticated then auth_start_url c return_to else [])\<rparr>, None)
      | Inr i \<Rightarrow> (plain_reply 200, Some (i, may_administer c i)))"

section \<open>What a session rests on\<close>

lemma no_session [simp]:
  "re_set_session (see_other l) = None" "re_set_session (plain_reply n) = None"
  "re_set_session (auth_failed c d st) = None"
  by (simp_all add: see_other_def plain_reply_def auth_failed_def split: option.split)

text \<open>C13. The browser gets a session only at the end of a whole login: the callback brought back a signed
  cookie with its state, the portal exchanged the code of that attempt, and the portal names the owner
  of the token. The cookie then carries that token, cannot be read by scripts, travels over TLS in
  production, and lives no longer than a session may.\<close>

theorem session_only_after_login:
  "case re_set_session (auth_callback c q cookie now exchange introspect) of
     None \<Rightarrow> True
   | Some ck \<Rightarrow> \<exists>a x i. consume_handoff_cookie c cookie (cq_state q) now = Inr a
       \<and> exchange (cq_code q) (ha_verifier a) = Inr x \<and> introspect (px_token x) = Inr i
       \<and> re_location (auth_callback c q cookie now exchange introspect) = ha_path a
       \<and> ck_value ck = px_token x \<and> ck_name ck = ac_cookie c \<and> ck_http_only ck
       \<and> ck_secure ck = (ac_env c = ''production'') \<and> ck_max_age ck \<le> max 1 (ac_absolute c)"
proof (cases "re_set_session (auth_callback c q cookie now exchange introspect)")
  case (Some ck)
  then have *: "callback_shape q" "cq_error q = []" "cq_code q \<noteq> []"
    by (auto simp: auth_callback_def split: if_split_asm sum.split_asm)
  then obtain a x i where steps: "consume_handoff_cookie c cookie (cq_state q) now = Inr a"
    "exchange (cq_code q) (ha_verifier a) = Inr x" "introspect (px_token x) = Inr i"
    using Some by (auto simp: auth_callback_def split: if_split_asm sum.split_asm)
  have reply: "auth_callback c q cookie now exchange introspect = (see_other (ha_path a))
      \<lparr>re_set_session := Some (session_cookie c (px_token x) (px_expires_in x)), re_drop_handoff := True\<rparr>"
    using * steps by (simp add: auth_callback_def)
  then have "ck = session_cookie c (px_token x) (px_expires_in x)" using Some by simp
  then show ?thesis
    using steps reply by (simp add: session_cookie_def see_other_def)
qed simp

end
