(* ===== verification/Api_Server.thy ===== *)
theory Api_Server
  imports Auth_Server Utility_Runs
begin

text \<open>
  The HTTP interface of \<^verbatim>\<open>server.py\<close>: how an endpoint runs. An endpoint names its dependencies and its
  handler; a handler names the operations it calls, in their order, with the exceptions it turns into a
  status. The operations work on data of an arbitrary type; the mutation gate and the run manager
  are those of \<^verbatim>\<open>Operation_Gate\<close> and \<^verbatim>\<open>Utility_Runs\<close>. Validation of parameters by the framework is left out.
\<close>

section \<open>Features\<close>

datatype feature = Utilities | Schedules | Discovery | Browser_Jobs | Company_Refresh

fun feature_enabled :: "auth_config \<Rightarrow> feature \<Rightarrow> bool" where
  "feature_enabled c Utilities = ac_utilities c"
| "feature_enabled c Schedules = ac_schedules c"
| "feature_enabled c Discovery = ac_discovery c"
| "feature_enabled c Browser_Jobs = ac_browser_jobs c"
| "feature_enabled c Company_Refresh = ac_company_refresh c"

definition action_features :: "string \<Rightarrow> feature list" where
  "action_features action =
     (if action = ''refresh-missing-company-information'' \<or> action = ''refresh-company-discovery''
      then [Company_Refresh, Discovery, Browser_Jobs]
      else if action = ''refresh-all-job-listings'' then [Browser_Jobs] else [])"

text \<open>The first disabled feature is the reason that is given.\<close>

definition disabled_action_reason :: "auth_config \<Rightarrow> string \<Rightarrow> feature option" where
  "disabled_action_reason c action = find (\<lambda>f. \<not> feature_enabled c f) (action_features action)"

text \<open>The worker of a run asks again when it starts, for a switch may have changed in between.\<close>

definition guarded_utility_worker :: "auth_config \<Rightarrow> string \<Rightarrow> (unit \<Rightarrow> 'e + 'a) \<Rightarrow> feature + 'e + 'a" where
  "guarded_utility_worker c action worker =
     (case disabled_action_reason c action of Some f \<Rightarrow> Inl f | None \<Rightarrow> Inr (worker ()))"

section \<open>Operations and handlers\<close>

datatype exn =
    Key_Error | Value_Error | Duplicate_Company | Unsafe_Url | Email_Configuration | Email_Delivery | Digest_Failed
  | Empty_Input | Http nat | Other_Error

type_synonym step = "string \<times> (exn \<times> nat) list"

datatype handler =
    Reading "step list"
  | Mutating "step list" string "step list" nat
  | Tool bool string string
  | Start_Action
  | Start_Job
  | Import_Upload
  | Cancel_Run
  | Change_Schedule
  | Login_Step

record endpoint =
  ep_method :: string
  ep_path :: string
  ep_admin :: bool
  ep_features :: "feature list"
  ep_handler :: handler

text \<open>What the operations of one request do: a check or a reading operation may raise, a writing one may
  change the data and raise. \<open>ae_logging\<close> says whether \<open>configure_logging_once\<close> returns.\<close>

record upload =
  up_name :: string
  up_length :: string
  up_chunks :: "bytes list"
  up_staged :: "exn option"

record 's api_env =
  ae_call :: call_env
  ae_io :: start_io
  ae_read :: "string \<Rightarrow> 's \<Rightarrow> exn option"
  ae_write :: "string \<Rightarrow> 's \<Rightarrow> 's \<times> exn option"
  ae_logging :: bool
  ae_enabling :: bool
  ae_browser_discovery :: bool
  ae_upload :: upload
  ae_db_read :: bool
  ae_db_write :: bool

definition status_for :: "(exn \<times> nat) list \<Rightarrow> exn \<Rightarrow> nat" where
  "status_for caught e =
     (case map_of caught e of Some n \<Rightarrow> n | None \<Rightarrow> (case e of Http n \<Rightarrow> n | _ \<Rightarrow> 500))"

fun read_steps :: "'s api_env \<Rightarrow> step list \<Rightarrow> 's \<Rightarrow> nat option" where
  "read_steps env [] s = None"
| "read_steps env ((operation, caught) # rest) s =
     (case ae_read env operation s of
        Some e \<Rightarrow> Some (status_for caught e)
      | None \<Rightarrow> read_steps env rest s)"

fun write_steps :: "'s api_env \<Rightarrow> step list \<Rightarrow> 's \<Rightarrow> 's \<times> nat option" where
  "write_steps env [] s = (s, None)"
| "write_steps env ((operation, caught) # rest) s =
     (case ae_write env operation s of
        (s', Some e) \<Rightarrow> (s', Some (status_for caught e))
      | (s', None) \<Rightarrow> write_steps env rest s')"

section \<open>Holding the mutation gate\<close>

type_synonym 's api = "manager \<times> 's"

text \<open>The lease is released whether the body returns or raises.\<close>

definition api_mutation :: "'s api_env \<Rightarrow> string \<Rightarrow> ('s \<Rightarrow> 's \<times> nat) \<Rightarrow> 's api \<Rightarrow> 's api \<times> nat" where
  "api_mutation env kind body st =
     (case gate_acquire (ae_call env) kind None (mgr_gate (fst st)) of
        Inl _ \<Rightarrow> (st, 409)
      | Inr (held, lease) \<Rightarrow>
          (case body (snd st) of (s', status) \<Rightarrow>
             (((fst st)\<lparr>mgr_gate := lease_give_back lease held\<rparr>, s'), status)))"

text \<open>\<open>run_utility\<close>: the logging is set up between taking the lease and the block that gives it back;
  every exception of the action, and of recording the run, is turned into a result.\<close>

definition run_utility :: "'s api_env \<Rightarrow> string \<Rightarrow> string \<Rightarrow> 's api \<Rightarrow> 's api \<times> nat" where
  "run_utility env name operation st =
     (case gate_acquire (ae_call env) name None (mgr_gate (fst st)) of
        Inl _ \<Rightarrow> (st, 409)
      | Inr (held, lease) \<Rightarrow>
          if \<not> ae_logging env then (((fst st)\<lparr>mgr_gate := held\<rparr>, snd st), 500)
          else
            (let s' = fst (ae_write env operation (snd st));
                 s'' = fst (ae_write env ''record_utility_run'' s')
             in (((fst st)\<lparr>mgr_gate := lease_give_back lease held\<rparr>, s''), 200)))"

section \<open>Uploads\<close>

fun collect_chunks :: "nat \<Rightarrow> bytes \<Rightarrow> bytes list \<Rightarrow> nat + bytes" where
  "collect_chunks maximum contents [] = Inr contents"
| "collect_chunks maximum contents (chunk # rest) =
     (if maximum - length contents < length chunk then Inl 413
      else collect_chunks maximum (contents @ chunk) rest)"

definition read_limited_request_body :: "nat \<Rightarrow> string \<Rightarrow> bytes list \<Rightarrow> nat + bytes" where
  "read_limited_request_body maximum content_length pieces =
     (let declared = strip content_length in
      if declared = [] then collect_chunks maximum [] pieces
      else case int_of_text declared of
        None \<Rightarrow> Inl 400
      | Some n \<Rightarrow> if int maximum < n then Inl 413 else collect_chunks maximum [] pieces)"

definition max_import_bytes :: nat where "max_import_bytes = 26214400"

text \<open>\<open>Path(filename).name\<close> and the suffix of a name.\<close>

definition path_name :: "string \<Rightarrow> string" where
  "path_name f =
     (let parts = filter (\<lambda>p. p \<noteq> [] \<and> p \<noteq> ''.'') (split_on (CHR ''/'') f)
      in if parts = [] then [] else last parts)"

definition upload_suffix :: "string \<Rightarrow> string" where
  "upload_suffix name =
     (let ext = rev (takeWhile (\<lambda>ch. ch \<noteq> CHR ''.'') (rev name)) in
      if CHR ''.'' \<in> set name \<and> ext \<noteq> [] \<and> length ext + 1 < length name then CHR ''.'' # ext else [])"

section \<open>Background runs\<close>

text \<open>The definitions of \<open>user_utility_definitions\<close>: what a run of an action is called and counts.\<close>

definition utility_definitions :: "(string \<times> string \<times> string \<times> string) list" where
  "utility_definitions =
     [(''refresh-missing-company-information'', ''Refresh Missing Company Info'', ''Checking'', ''companies''),
      (''refresh-company-discovery'', ''Refresh Company Discovery'', ''Checking'', ''companies''),
      (''refresh-all-job-listings'', ''Refresh All Job Listings'', ''Checking'', ''companies''),
      (''reprocess-saved-jobs'', ''Reprocess Saved Jobs'', ''Processing'', ''jobs''),
      (''rematch-all-jobs'', ''Rematch All Jobs'', ''Matching'', ''jobs''),
      (''create-backup'', ''Create Backup'', ''Backing up'', ''files''),
      (''export-data'', ''Export Data'', ''Exporting'', ''data sets'')]"

definition run_request_of :: "string \<Rightarrow> string \<times> string \<times> string \<Rightarrow> string \<Rightarrow> run_request" where
  "run_request_of action d trigger_type = \<lparr>req_action = action, req_task_name = fst d,
     req_progress_verb = fst (snd d), req_progress_unit = snd (snd d), req_trigger_type = trigger_type\<rparr>"

text \<open>A \<open>RuntimeError\<close> of the manager is a conflict; an error of the database is not expected.\<close>

definition start_status :: "run_error \<Rightarrow> nat" where
  "start_status e = (case e of Conflict _ \<Rightarrow> 409 | AlreadyRunning _ \<Rightarrow> 409 | CouldNotStart _ \<Rightarrow> 409 | _ \<Rightarrow> 500)"

definition start_maintenance_action ::
  "auth_config \<Rightarrow> call_env \<Rightarrow> start_io \<Rightarrow> string \<Rightarrow> string \<Rightarrow> manager \<Rightarrow> manager \<times> nat" where
  "start_maintenance_action c call io action trigger_type m =
     (case map_of utility_definitions action of
        None \<Rightarrow> (m, 404)
      | Some d \<Rightarrow>
          if disabled_action_reason c action \<noteq> None then (m, 403)
          else (case start_run call io (run_request_of action d trigger_type) m of
                  (m', Inl e) \<Rightarrow> (m', start_status e)
                | (m', Inr _) \<Rightarrow> (m', 202)))"

text \<open>\<open>start_import_run\<close>; the last result says whether the staged file is left for the run.\<close>

definition start_import_run :: "call_env \<Rightarrow> start_io \<Rightarrow> upload \<Rightarrow> manager \<Rightarrow> manager \<times> nat \<times> bool" where
  "start_import_run call io u m =
     (let name = path_name (up_name u) in
      if str_lower (upload_suffix name) \<notin> {''.json'', ''.xlsx''} then (m, 422, False)
      else case read_limited_request_body max_import_bytes (up_length u) (up_chunks u) of
        Inl status \<Rightarrow> (m, status, False)
      | Inr contents \<Rightarrow>
          if contents = [] then (m, 422, False)
          else case up_staged u of
            Some e \<Rightarrow> (m, status_for [(Value_Error, 422)] e, False)
          | None \<Rightarrow>
              (case start_run call io (run_request_of ''import-data'' (''Import Data'', ''Importing'', ''records'') ''manual'') m of
                 (m', Inl e) \<Rightarrow> (m', start_status e, False)
               | (m', Inr _) \<Rightarrow> (m', 202, True)))"

definition cancel_maintenance_run :: "start_io \<Rightarrow> bool \<Rightarrow> bool \<Rightarrow> string \<Rightarrow> manager \<Rightarrow> manager \<times> nat" where
  "cancel_maintenance_run io db_read db_write rid m =
     (case cancel_run (io_now io) db_read db_write rid m of
        (m', Inl (KeyError _)) \<Rightarrow> (m', 404)
      | (m', Inl _) \<Rightarrow> (m', 500)
      | (m', Inr _) \<Rightarrow> (m', 200))"

section \<open>Handlers\<close>

text \<open>The step of \<open>update_maintenance_schedule\<close> under the gate.\<close>

definition schedule_steps :: "step list" where
  "schedule_steps = [(''update_schedule'', [(Key_Error, 404), (Value_Error, 422)])]"

definition finish_writing :: "nat \<Rightarrow> 's \<times> nat option \<Rightarrow> 's \<times> nat" where
  "finish_writing success r = (fst r, case snd r of None \<Rightarrow> success | Some n \<Rightarrow> n)"

fun run_handler :: "auth_config \<Rightarrow> 's api_env \<Rightarrow> string \<Rightarrow> handler \<Rightarrow> 's api \<Rightarrow> 's api \<times> nat" where
  "run_handler c env param (Reading steps) st =
     (st, case read_steps env steps (snd st) of None \<Rightarrow> 200 | Some n \<Rightarrow> n)"
| "run_handler c env param (Mutating checks kind steps success) st =
     (case read_steps env checks (snd st) of
        Some n \<Rightarrow> (st, n)
      | None \<Rightarrow> api_mutation env kind (\<lambda>s. finish_writing success (write_steps env steps s)) st)"
| "run_handler c env param (Tool needs_browser name operation) st =
     (if needs_browser \<and> ae_browser_discovery env \<and> \<not> feature_enabled c Browser_Jobs then (st, 403)
      else run_utility env name operation st)"
| "run_handler c env param Start_Action st =
     (if disabled_action_reason c param \<noteq> None then (st, 403)
      else case start_maintenance_action c (ae_call env) (ae_io env) param ''manual'' (fst st) of
        (m, n) \<Rightarrow> ((m, snd st), n))"
| "run_handler c env param Start_Job st =
     (if param \<noteq> ''import-data''
      then (if disabled_action_reason c param \<noteq> None then (st, 403)
            else case start_maintenance_action c (ae_call env) (ae_io env) param ''manual'' (fst st) of
              (m, n) \<Rightarrow> ((m, snd st), n))
      else if up_name (ae_upload env) = [] then (st, 422)
      else case start_import_run (ae_call env) (ae_io env) (ae_upload env) (fst st) of
        (m, n, _) \<Rightarrow> ((m, snd st), n))"
| "run_handler c env param Import_Upload st =
     (case start_import_run (ae_call env) (ae_io env) (ae_upload env) (fst st) of
        (m, n, _) \<Rightarrow> ((m, snd st), n))"
| "run_handler c env param Cancel_Run st =
     (case cancel_maintenance_run (ae_io env) (ae_db_read env) (ae_db_write env) param (fst st) of
        (m, n) \<Rightarrow> ((m, snd st), n))"
| "run_handler c env param Change_Schedule st =
     (if ae_enabling env \<and> disabled_action_reason c param \<noteq> None then (st, 403)
      else api_mutation env ''update-maintenance-schedule''
        (\<lambda>s. finish_writing 200 (write_steps env schedule_steps s)) st)"
| "run_handler c env param Login_Step st = (st, 200)"

end
