(* ===== verification/Api_Endpoints.thy ===== *)
theory Api_Endpoints
  imports Api_Server
begin

text \<open>
  The endpoints of \<^verbatim>\<open>server.py\<close>, each with its method, its path (\<open>{}\<close> stands for a parameter), its
  dependencies and its handler.
\<close>

section \<open>The endpoints\<close>

definition at_status :: endpoint where
  "at_status = \<lparr>ep_method = ''GET'', ep_path = ''/api/status'', ep_admin = False,
     ep_features = [], ep_handler = Reading []\<rparr>"

definition at_health :: endpoint where
  "at_health = \<lparr>ep_method = ''GET'', ep_path = ''/api/health'', ep_admin = False,
     ep_features = [], ep_handler = Reading [(''readiness'', [])]\<rparr>"

definition at_runtime_diagnostics :: endpoint where
  "at_runtime_diagnostics = \<lparr>ep_method = ''GET'', ep_path = ''/api/diagnostics/runtime'', ep_admin = True,
     ep_features = [], ep_handler = Reading []\<rparr>"

definition at_auth_start :: endpoint where
  "at_auth_start = \<lparr>ep_method = ''GET'', ep_path = ''/api/auth/start'', ep_admin = False,
     ep_features = [], ep_handler = Login_Step\<rparr>"

definition at_auth_callback :: endpoint where
  "at_auth_callback = \<lparr>ep_method = ''GET'', ep_path = ''/api/auth/callback'', ep_admin = False,
     ep_features = [], ep_handler = Login_Step\<rparr>"

definition at_auth_session :: endpoint where
  "at_auth_session = \<lparr>ep_method = ''GET'', ep_path = ''/api/auth/session'', ep_admin = False,
     ep_features = [], ep_handler = Login_Step\<rparr>"

definition at_auth_logout :: endpoint where
  "at_auth_logout = \<lparr>ep_method = ''POST'', ep_path = ''/api/auth/logout'', ep_admin = False,
     ep_features = [], ep_handler = Login_Step\<rparr>"

definition at_list_companies :: endpoint where
  "at_list_companies = \<lparr>ep_method = ''GET'', ep_path = ''/api/companies'', ep_admin = False,
     ep_features = [], ep_handler = Reading [(''list_companies'', [])]\<rparr>"

definition at_query_companies :: endpoint where
  "at_query_companies = \<lparr>ep_method = ''GET'', ep_path = ''/api/companies-page'', ep_admin = False,
     ep_features = [], ep_handler = Reading [(''query_companies'', [])]\<rparr>"

definition at_list_jobs :: endpoint where
  "at_list_jobs = \<lparr>ep_method = ''GET'', ep_path = ''/api/jobs'', ep_admin = False,
     ep_features = [], ep_handler = Reading [(''list_jobs'', [])]\<rparr>"

definition at_list_applications :: endpoint where
  "at_list_applications = \<lparr>ep_method = ''GET'', ep_path = ''/api/applications'', ep_admin = True,
     ep_features = [], ep_handler = Reading [(''list_applications'', [])]\<rparr>"

definition at_update_application :: endpoint where
  "at_update_application = \<lparr>ep_method = ''PUT'', ep_path = ''/api/applications/{}'', ep_admin = True,
     ep_features = [], ep_handler = Mutating [] ''update-application''
       [(''upsert_application'', [(Key_Error, 404)]), (''export_applications'', [])] 200\<rparr>"

definition at_import_browser_overrides :: endpoint where
  "at_import_browser_overrides = \<lparr>ep_method = ''POST'', ep_path = ''/api/applications/import-browser-overrides'', ep_admin = True,
     ep_features = [], ep_handler = Mutating [] ''import-browser-overrides''
       [(''import_application_overrides'', []), (''export_applications'', [])] 200\<rparr>"

definition at_get_resume :: endpoint where
  "at_get_resume = \<lparr>ep_method = ''GET'', ep_path = ''/api/resume'', ep_admin = True,
     ep_features = [], ep_handler = Reading [(''get_resume'', [])]\<rparr>"

definition at_update_resume :: endpoint where
  "at_update_resume = \<lparr>ep_method = ''PUT'', ep_path = ''/api/resume'', ep_admin = True,
     ep_features = [], ep_handler = Mutating [] ''update-resume'' [(''upsert_resume'', [])] 200\<rparr>"

definition at_upload_resume :: endpoint where
  "at_upload_resume = \<lparr>ep_method = ''POST'', ep_path = ''/api/resume/upload'', ep_admin = True,
     ep_features = [], ep_handler = Mutating
       [(''read_limited_request_body'', []), (''has_contents'', [(Empty_Input, 422)]),
        (''build_resume_profile'', [(Value_Error, 422)])]
       ''upload-resume'' [(''upsert_resume'', [])] 200\<rparr>"

definition at_get_job_match :: endpoint where
  "at_get_job_match = \<lparr>ep_method = ''GET'', ep_path = ''/api/jobs/{}/match'', ep_admin = True,
     ep_features = [], ep_handler = Reading [(''get_job'', [(Key_Error, 404)])]\<rparr>"

definition at_rematch_job :: endpoint where
  "at_rematch_job = \<lparr>ep_method = ''POST'', ep_path = ''/api/jobs/{}/match'', ep_admin = True,
     ep_features = [], ep_handler = Mutating [] ''rematch-job'' [(''match_job'', [(Key_Error, 404), (Value_Error, 422)])] 200\<rparr>"

definition at_create_company :: endpoint where
  "at_create_company = \<lparr>ep_method = ''POST'', ep_path = ''/api/companies'', ep_admin = True,
     ep_features = [], ep_handler = Mutating
       [(''has_name'', [(Empty_Input, 422)]), (''validate_company_request_urls'', [(Unsafe_Url, 422)])]
       ''create-company'' [(''add_company'', [(Duplicate_Company, 409)])] 201\<rparr>"

definition at_update_company :: endpoint where
  "at_update_company = \<lparr>ep_method = ''PUT'', ep_path = ''/api/companies/{}'', ep_admin = True,
     ep_features = [], ep_handler = Mutating
       [(''has_name'', [(Empty_Input, 422)]), (''validate_company_request_urls'', [(Unsafe_Url, 422)])]
       ''update-company'' [(''edit_company'', [(Duplicate_Company, 409), (Key_Error, 404)])] 200\<rparr>"

definition at_refresh_company :: endpoint where
  "at_refresh_company = \<lparr>ep_method = ''POST'', ep_path = ''/api/companies/{}/refresh'', ep_admin = True,
     ep_features = [Company_Refresh, Discovery, Browser_Jobs], ep_handler = Mutating [] ''refresh-company'' [(''run_single_company_refresh'', [])] 200\<rparr>"

definition at_delete_company :: endpoint where
  "at_delete_company = \<lparr>ep_method = ''DELETE'', ep_path = ''/api/companies/{}'', ep_admin = True,
     ep_features = [], ep_handler = Mutating [] ''delete-company'' [(''delete_company'', [(Key_Error, 404)])] 200\<rparr>"

definition at_export_companies_json :: endpoint where
  "at_export_companies_json = \<lparr>ep_method = ''POST'', ep_path = ''/api/export-companies-json'', ep_admin = True,
     ep_features = [Utilities], ep_handler = Tool False ''Export companies JSON'' ''export_companies''\<rparr>"

definition at_fill_missing_job_boards :: endpoint where
  "at_fill_missing_job_boards = \<lparr>ep_method = ''POST'', ep_path = ''/api/fill-missing-job-boards'', ep_admin = True,
     ep_features = [Utilities, Company_Refresh, Discovery], ep_handler = Tool True ''Fill missing job board URLs'' ''fill_missing_job_boards''\<rparr>"

definition at_audit_websites :: endpoint where
  "at_audit_websites = \<lparr>ep_method = ''POST'', ep_path = ''/api/audit-websites'', ep_admin = True,
     ep_features = [Utilities, Discovery], ep_handler = Tool False ''Audit websites'' ''audit_websites''\<rparr>"

definition at_repair_websites :: endpoint where
  "at_repair_websites = \<lparr>ep_method = ''POST'', ep_path = ''/api/repair-websites'', ep_admin = True,
     ep_features = [Utilities, Company_Refresh, Discovery], ep_handler = Tool False ''Repair websites'' ''repair_websites''\<rparr>"

definition at_collect_jobs :: endpoint where
  "at_collect_jobs = \<lparr>ep_method = ''POST'', ep_path = ''/api/collect-jobs'', ep_admin = True,
     ep_features = [Utilities, Browser_Jobs], ep_handler = Tool False ''Collect jobs'' ''run_job_collection''\<rparr>"

definition at_export_jobs_xlsx :: endpoint where
  "at_export_jobs_xlsx = \<lparr>ep_method = ''POST'', ep_path = ''/api/export-jobs-xlsx'', ep_admin = True,
     ep_features = [Utilities], ep_handler = Tool False ''Export jobs XLSX'' ''export_jobs''\<rparr>"

definition at_quick_refresh :: endpoint where
  "at_quick_refresh = \<lparr>ep_method = ''POST'', ep_path = ''/api/quick-refresh'', ep_admin = True,
     ep_features = [Utilities], ep_handler = Tool False ''Quick refresh'' ''export_all''\<rparr>"

definition at_full_refresh :: endpoint where
  "at_full_refresh = \<lparr>ep_method = ''POST'', ep_path = ''/api/full-refresh'', ep_admin = True,
     ep_features = [Utilities, Company_Refresh, Discovery, Browser_Jobs], ep_handler = Tool False ''Full refresh'' ''full_refresh''\<rparr>"

definition at_start_user_utility :: endpoint where
  "at_start_user_utility = \<lparr>ep_method = ''POST'', ep_path = ''/api/user-utilities/actions/{}'', ep_admin = True,
     ep_features = [Utilities], ep_handler = Start_Action\<rparr>"

definition at_start_import_utility :: endpoint where
  "at_start_import_utility = \<lparr>ep_method = ''POST'', ep_path = ''/api/user-utilities/import-data'', ep_admin = True,
     ep_features = [Utilities], ep_handler = Import_Upload\<rparr>"

definition at_get_user_utility_run :: endpoint where
  "at_get_user_utility_run = \<lparr>ep_method = ''GET'', ep_path = ''/api/user-utilities/runs/{}'', ep_admin = True,
     ep_features = [Utilities], ep_handler = Reading [(''get_run'', [(Key_Error, 404)])]\<rparr>"

definition at_cancel_user_utility_run :: endpoint where
  "at_cancel_user_utility_run = \<lparr>ep_method = ''POST'', ep_path = ''/api/user-utilities/runs/{}/cancel'', ep_admin = True,
     ep_features = [Utilities], ep_handler = Cancel_Run\<rparr>"

definition at_get_email_settings :: endpoint where
  "at_get_email_settings = \<lparr>ep_method = ''GET'', ep_path = ''/api/settings/email'', ep_admin = True,
     ep_features = [Utilities], ep_handler = Reading [(''get_settings'', [])]\<rparr>"

definition at_update_email_settings :: endpoint where
  "at_update_email_settings = \<lparr>ep_method = ''PUT'', ep_path = ''/api/settings/email'', ep_admin = True,
     ep_features = [Utilities], ep_handler = Mutating [] ''update-email-settings''
       [(''save_settings'', [(Email_Configuration, 422)])] 200\<rparr>"

definition at_test_email :: endpoint where
  "at_test_email = \<lparr>ep_method = ''POST'', ep_path = ''/api/settings/email/test'', ep_admin = True,
     ep_features = [Utilities], ep_handler = Mutating [] ''test-email''
       [(''send_test_email'', [(Email_Configuration, 422), (Email_Delivery, 502)])] 200\<rparr>"

definition at_email_status :: endpoint where
  "at_email_status = \<lparr>ep_method = ''GET'', ep_path = ''/api/email/status'', ep_admin = True,
     ep_features = [Utilities], ep_handler = Reading [(''email_status'', [])]\<rparr>"

definition at_email_history :: endpoint where
  "at_email_history = \<lparr>ep_method = ''GET'', ep_path = ''/api/email/history'', ep_admin = True,
     ep_features = [Utilities], ep_handler = Reading [(''email_history'', [])]\<rparr>"

definition at_send_job_digest :: endpoint where
  "at_send_job_digest = \<lparr>ep_method = ''POST'', ep_path = ''/api/email/send-digest'', ep_admin = True,
     ep_features = [Utilities], ep_handler = Mutating [] ''send-job-digest-email''
       [(''send_job_digest'', [(Email_Configuration, 422), (Digest_Failed, 502)])] 200\<rparr>"

definition at_list_maintenance_jobs :: endpoint where
  "at_list_maintenance_jobs = \<lparr>ep_method = ''GET'', ep_path = ''/api/maintenance/jobs'', ep_admin = True,
     ep_features = [Utilities], ep_handler = Reading [(''list_maintenance_jobs'', [])]\<rparr>"

definition at_update_maintenance_schedule :: endpoint where
  "at_update_maintenance_schedule = \<lparr>ep_method = ''PUT'', ep_path = ''/api/maintenance/jobs/{}/schedule'', ep_admin = True,
     ep_features = [Utilities, Schedules], ep_handler = Change_Schedule\<rparr>"

definition at_maintenance_job_history :: endpoint where
  "at_maintenance_job_history = \<lparr>ep_method = ''GET'', ep_path = ''/api/maintenance/jobs/{}/history'', ep_admin = True,
     ep_features = [Utilities], ep_handler = Reading [(''known_job'', [(Key_Error, 404)]), (''history'', [])]\<rparr>"

definition at_start_maintenance_job :: endpoint where
  "at_start_maintenance_job = \<lparr>ep_method = ''POST'', ep_path = ''/api/maintenance/jobs/{}/run'', ep_admin = True,
     ep_features = [Utilities], ep_handler = Start_Job\<rparr>"

definition at_get_maintenance_run :: endpoint where
  "at_get_maintenance_run = \<lparr>ep_method = ''GET'', ep_path = ''/api/maintenance/runs/{}'', ep_admin = True,
     ep_features = [Utilities], ep_handler = Reading [(''get_run'', [(Key_Error, 404)])]\<rparr>"

definition at_cancel_maintenance_run :: endpoint where
  "at_cancel_maintenance_run = \<lparr>ep_method = ''POST'', ep_path = ''/api/maintenance/runs/{}/cancel'', ep_admin = True,
     ep_features = [Utilities], ep_handler = Cancel_Run\<rparr>"

definition endpoints :: "endpoint list" where
  "endpoints =
     [at_status, at_health, at_runtime_diagnostics, at_auth_start, at_auth_callback,
      at_auth_session, at_auth_logout, at_list_companies, at_query_companies, at_list_jobs,
      at_list_applications, at_update_application, at_import_browser_overrides, at_get_resume,
      at_update_resume, at_upload_resume, at_get_job_match, at_rematch_job, at_create_company,
      at_update_company, at_refresh_company, at_delete_company, at_export_companies_json,
      at_fill_missing_job_boards, at_audit_websites, at_repair_websites, at_collect_jobs,
      at_export_jobs_xlsx, at_quick_refresh, at_full_refresh, at_start_user_utility,
      at_start_import_utility, at_get_user_utility_run, at_cancel_user_utility_run,
      at_get_email_settings, at_update_email_settings, at_test_email, at_email_status,
      at_email_history, at_send_job_digest, at_list_maintenance_jobs,
      at_update_maintenance_schedule, at_maintenance_job_history, at_start_maintenance_job,
      at_get_maintenance_run, at_cancel_maintenance_run]"

end
