(* ===== verification/Api_Requests.thy ===== *)
theory Api_Requests
  imports Api_Endpoints Run_Lifecycle
begin

text \<open>
  The way of a request through \<^verbatim>\<open>server.py\<close>: middleware, routing, dependencies, handler. Only the
  administrator reaches what is private, and what changes the data holds the mutation gate alone.
\<close>

section \<open>Routing\<close>

definition segments_match :: "string list \<Rightarrow> string list \<Rightarrow> bool" where
  "segments_match = list_all2 (\<lambda>p s. if p = ''{}'' then s \<noteq> [] else p = s)"

definition path_matches :: "string \<Rightarrow> string \<Rightarrow> bool" where
  "path_matches pattern path = segments_match (split_on (CHR ''/'') pattern) (split_on (CHR ''/'') path)"

definition path_parameter :: "string \<Rightarrow> string \<Rightarrow> string" where
  "path_parameter pattern path =
     (case filter (\<lambda>(p, _). p = ''{}'') (zip (split_on (CHR ''/'') pattern) (split_on (CHR ''/'') path)) of
        [] \<Rightarrow> [] | (_, s) # _ \<Rightarrow> s)"

text \<open>The first endpoint whose path and method match; 405 when only a path does.\<close>

definition route :: "string \<Rightarrow> string \<Rightarrow> nat + endpoint" where
  "route verb path =
     (case find (\<lambda>e. path_matches (ep_path e) path \<and> ep_method e = verb) endpoints of
        Some e \<Rightarrow> Inr e
      | None \<Rightarrow> Inl (if list_ex (\<lambda>e. path_matches (ep_path e) path) endpoints then 405 else 404))"

definition dependencies :: "auth_config \<Rightarrow> identity option \<Rightarrow> endpoint \<Rightarrow> nat option" where
  "dependencies c found e =
     (case (if ep_admin e then require_administrator c found else None) of
        Some n \<Rightarrow> Some n
      | None \<Rightarrow> if list_all (feature_enabled c) (ep_features e) then None else Some 403)"

text \<open>What lies before the handler.\<close>

definition admit :: "auth_config \<Rightarrow> (string \<Rightarrow> auth_error + identity) \<Rightarrow> request \<Rightarrow> nat + endpoint" where
  "admit c authenticate rq =
     (case production_security c authenticate rq of
        Answered n _ \<Rightarrow> Inl n
      | Passed found \<Rightarrow>
          bind_res (route (rq_method rq) (rq_path rq))
            (\<lambda>e. case dependencies c found e of Some n \<Rightarrow> Inl n | None \<Rightarrow> Inr e))"

definition serve ::
  "auth_config \<Rightarrow> 's api_env \<Rightarrow> (string \<Rightarrow> auth_error + identity) \<Rightarrow> request \<Rightarrow> 's api \<Rightarrow> 's api \<times> nat" where
  "serve c env authenticate rq st =
     (case admit c authenticate rq of
        Inl n \<Rightarrow> (st, n)
      | Inr e \<Rightarrow> run_handler c env (path_parameter (ep_path e) (rq_path rq)) (ep_handler e) st)"

section \<open>Who gets through\<close>

fun only_reads :: "handler \<Rightarrow> bool" where
  "only_reads (Reading _) = True"
| "only_reads Login_Step = True"
| "only_reads _ = False"

text \<open>What every identified user may read.\<close>

definition member_paths :: "string list" where
  "member_paths = [''/api/status'', ''/api/companies'', ''/api/companies-page'', ''/api/jobs'']"

definition well_guarded :: "endpoint \<Rightarrow> bool" where
  "well_guarded e \<longleftrightarrow> take 2 (split_on (CHR ''/'') (ep_path e)) = [[], ''api'']
     \<and> (if ep_path e \<in> set public_api_paths then only_reads (ep_handler e)
        else if ep_admin e then only_reads (ep_handler e) \<or> ep_method e \<in> set mutating_methods
        else only_reads (ep_handler e) \<and> ep_method e = ''GET'' \<and> ep_path e \<in> set member_paths)"

lemma endpoints_well_guarded: "list_all well_guarded endpoints"
  by code_simp


lemma segments_take: "segments_match ps ss \<Longrightarrow> segments_match (take n ps) (take n ss)"
  by (simp add: segments_match_def list_all2_takeI)

lemma api_prefix:
  assumes "segments_match [[], ''api''] (take 2 (split_on (CHR ''/'') path))"
  shows "prefix ''/api'' path"
proof -
  let ?ss = "split_on (CHR ''/'') path"
  have "?ss \<noteq> []" by (simp add: split_on_def split_on_from_cons)
  then obtain w rest where ss: "?ss = w # rest" by (cases ?ss) auto
  then have "w = []" "rest \<noteq> []" "hd rest = ''api''"
    using assms by (cases rest; simp add: segments_match_def)+
  then obtain ws where "?ss = [] # ''api'' # ws" using ss by (cases rest) auto
  then have "path = join ''/'' ([] # ''api'' # ws)" using join_split_on [of "CHR ''/''" path] by simp
  then show ?thesis by (cases ws) simp_all
qed

lemma route_Inr:
  assumes "route verb path = Inr e"
  shows "e \<in> set endpoints" "path_matches (ep_path e) path" "ep_method e = verb" "well_guarded e"
proof -
  have "find (\<lambda>e. path_matches (ep_path e) path \<and> ep_method e = verb) endpoints = Some e"
    using assms unfolding route_def by (simp split: option.split_asm)
  then show "e \<in> set endpoints" "path_matches (ep_path e) path" "ep_method e = verb"
    unfolding find_Some_iff by (metis nth_mem)+
  then show "well_guarded e" using endpoints_well_guarded by (simp only: list_all_iff)
qed

lemma routed_to_api:
  assumes "route verb path = Inr e"
  shows "prefix ''/api'' path"
proof (rule api_prefix)
  show "segments_match [[], ''api''] (take 2 (split_on (CHR ''/'') path))"
    using segments_take [OF route_Inr(2) [OF assms, unfolded path_matches_def], of 2] route_Inr(4) [OF assms]
    by (simp only: well_guarded_def)
qed

lemma well_guarded_writer:
  "well_guarded e \<Longrightarrow> \<not> only_reads (ep_handler e)
    \<Longrightarrow> ep_path e \<notin> set public_api_paths \<and> ep_admin e \<and> ep_method e \<in> set mutating_methods"
  by (simp add: well_guarded_def split: if_split_asm)

text \<open>A public path leads to its own endpoint.\<close>

lemma public_paths_are_plain:
  "list_all (\<lambda>e. list_all (\<lambda>p. if path_matches (ep_path e) p then ep_path e = p else True) public_api_paths) endpoints"
  by code_simp

lemma public_patterns: "list_all (\<lambda>p. ''{}'' \<notin> set (split_on (CHR ''/'') p)) public_api_paths"
  by code_simp

lemma plain_segments: "''{}'' \<notin> set ps \<Longrightarrow> segments_match ps ss \<Longrightarrow> ps = ss"
  unfolding segments_match_def by (induction ps arbitrary: ss) (auto simp: list_all2_Cons1)

lemma routed_public:
  assumes "route verb path = Inr e"
  shows "path \<in> set public_api_paths \<longleftrightarrow> ep_path e \<in> set public_api_paths"
    and "path \<in> set public_api_paths \<Longrightarrow> ep_path e = path"
proof -
  have plain: "ep_path e = path" if "path \<in> set public_api_paths"
    using public_paths_are_plain route_Inr(1,2) [OF assms] that by (simp add: list_all_iff split: if_split_asm)
  have "ep_path e = path" if "ep_path e \<in> set public_api_paths"
  proof -
    have "''{}'' \<notin> set (split_on (CHR ''/'') (ep_path e))" using public_patterns that unfolding list_all_iff by blast
    then have "split_on (CHR ''/'') (ep_path e) = split_on (CHR ''/'') path"
      using route_Inr(2) [OF assms] by (intro plain_segments) (simp_all add: path_matches_def)
    then show ?thesis using join_split_on by metis
  qed
  then show "path \<in> set public_api_paths \<longleftrightarrow> ep_path e \<in> set public_api_paths" using plain by metis
  show "path \<in> set public_api_paths \<Longrightarrow> ep_path e = path" by (rule plain)
qed

lemma admitE:
  assumes "admit c authenticate rq = Inr e"
  obtains found where "production_security c authenticate rq = Passed found"
    "route (rq_method rq) (rq_path rq) = Inr e" "dependencies c found e = None"
  using assms by (auto simp: admit_def bind_res_Inr_iff split: passage.split_asm option.split_asm)

lemma passedE:
  assumes "production_security c authenticate rq = Passed found" "prefix ''/api'' (rq_path rq)"
  shows "if rq_path rq \<in> set public_api_paths then found = None
      else \<exists>i. found = Some i \<and> authenticate (rq_session rq) = Inr i"
    and "ac_mode c = ''portal_handoff'' \<Longrightarrow> rq_method rq \<in> set mutating_methods \<Longrightarrow> origin_allowed c rq"
  using assms unfolding production_security_def by (auto split: if_split_asm sum.split_asm)

lemma status_of_refusal: "status_of e \<in> {401, 403, 500, 503}"
  by (cases e) (simp_all add: status_of_def)

lemma admit_refusal:
  assumes "admit c authenticate rq = Inl n"
  shows "n \<in> {401, 403, 404, 405, 500, 503}"
proof (cases "production_security c authenticate rq")
  case (Answered m b)
  then have "n = m" using assms by (simp add: admit_def)
  then show ?thesis
    using Answered status_of_refusal by (auto simp: production_security_def split: sum.split_asm if_split_asm)
next
  case (Passed found)
  then show ?thesis
    using assms
    by (auto simp: admit_def route_def dependencies_def require_administrator_def bind_res_def
        split: sum.split_asm option.split_asm if_split_asm)
qed


section \<open>What a handler does to the gate and the data\<close>

definition idle :: "manager \<Rightarrow> bool" where
  "idle m \<longleftrightarrow> gate_accepting (mgr_gate m) \<and> gate_active (mgr_gate m) = None"

text \<open>Data, rows and gate from before a handler to after it: the data change only under a gate that
  was idle, and the gate is as before, unless it is a run's from now on.\<close>

definition orderly :: "bool \<Rightarrow> 's api \<Rightarrow> 's api \<times> nat \<Rightarrow> bool" where
  "orderly logging st r \<longleftrightarrow>
     (snd (fst r) = snd st \<or> idle (fst st))
     \<and> (gate_active (mgr_gate (fst (fst r))) = gate_active (mgr_gate (fst st)) \<or> idle (fst st))
     \<and> (if logging then gate_active (mgr_gate (fst (fst r))) = gate_active (mgr_gate (fst st))
          \<or> snd r = 202 \<and> idle (fst st) \<and> (\<exists>a. gate_active (mgr_gate (fst (fst r))) = Some a
              \<and> op_id a \<in> set (mgr_threads (fst (fst r))))
        else True)"

lemma orderly_same [simp]: "orderly logging st (st, n)"
  by (simp add: orderly_def)

lemma orderly_manager:
  "gate_active (mgr_gate m) = gate_active (mgr_gate (fst st)) \<Longrightarrow> orderly logging st ((m, snd st), n)"
  by (simp add: orderly_def)

lemma orderly_api_mutation: "orderly logging st (api_mutation env kind body st)"
proof (cases "gate_acquire (ae_call env) kind None (mgr_gate (fst st))")
  case (Inr r)
  obtain held lease where r: "r = (held, lease)" by fastforce
  note acq = Inr [unfolded r]
  have "idle (fst st)" using gate_acquireD(1,2) [OF acq] by (simp add: idle_def)
  then show ?thesis
    using acq lease_give_back_fresh [OF acq] by (simp add: api_mutation_def orderly_def idle_def split: prod.split)
qed (simp add: api_mutation_def)

lemma orderly_run_utility: "orderly (ae_logging env) st (run_utility env name operation st)"
proof (cases "gate_acquire (ae_call env) name None (mgr_gate (fst st))")
  case (Inr r)
  obtain held lease where r: "r = (held, lease)" by fastforce
  note acq = Inr [unfolded r]
  have "idle (fst st)" using gate_acquireD(1,2) [OF acq] by (simp add: idle_def)
  then show ?thesis
    using acq lease_give_back_fresh [OF acq] by (simp add: run_utility_def orderly_def idle_def Let_def)
qed (simp add: run_utility_def)

lemma update_run_gate: "update_run now db rid us m = Inr m' \<Longrightarrow> mgr_gate m' = mgr_gate m"
  by (auto simp: update_run_def Let_def split: if_split_asm option.split_asm)

lemma start_run_gate:
  assumes "start_run call io req m = (m', r)"
  shows "case r of Inl _ \<Rightarrow> gate_active (mgr_gate m') = gate_active (mgr_gate m)
    | Inr (rid, l) \<Rightarrow> idle m \<and> gate_active (mgr_gate m') = Some (lease_operation l)
        \<and> op_id (lease_operation l) = rid \<and> rid \<in> set (mgr_threads m')"
proof (cases "gate_acquire call (req_action req) (Some (run_id (env_uuid call))) (mgr_gate m)")
  case (Inr gl)
  obtain g l where acq: "gate_acquire call (req_action req) (Some (run_id (env_uuid call))) (mgr_gate m) = Inr (g, l)"
    using Inr by (cases gl) simp
  note facts = gate_acquireD(1,2,4) [OF acq] lease_give_back_fresh [OF acq]
  have own: "op_id (lease_operation l) = run_id (env_uuid call)"
    using gate_acquireD(6) [OF acq] by (simp add: run_id_def)
  show ?thesis
    using assms facts own unfolding start_run_def Let_def acq
    by (auto simp: idle_def drop_run_def dest!: update_run_gate split: if_split_asm option.split_asm sum.split_asm)
qed (use assms in \<open>auto simp: start_run_def Let_def split: if_split_asm\<close>)

lemma orderly_start:
  assumes "start_run call io req (fst st) = (m', r)"
    and "status \<noteq> 202 \<Longrightarrow> \<exists>e. r = Inl e" and "status = 202 \<Longrightarrow> \<exists>x. r = Inr x"
  shows "orderly logging st ((m', snd st), status)"
  using start_run_gate [OF assms(1)] assms(2,3) by (cases r) (auto simp: orderly_def)

lemma start_status_not_accepted: "start_status e \<noteq> 202"
  by (cases e) (simp_all add: start_status_def)

lemma orderly_start_action:
  "orderly logging st (case start_maintenance_action c call io action trigger (fst st) of (m, n) \<Rightarrow> ((m, snd st), n))"
proof (cases "map_of utility_definitions action = None \<or> disabled_action_reason c action \<noteq> None")
  case True
  then show ?thesis by (cases st) (auto simp: start_maintenance_action_def split: option.split)
next
  case False
  then obtain d where d: "map_of utility_definitions action = Some d" by auto
  obtain m' r where run: "start_run call io (run_request_of action d trigger) (fst st) = (m', r)" by fastforce
  show ?thesis
    using False d run orderly_start [OF run, of "case r of Inl e \<Rightarrow> start_status e | Inr _ \<Rightarrow> 202"]
      start_status_not_accepted
    by (cases r) (auto simp: start_maintenance_action_def)
qed

lemma start_import_shape:
  "(\<exists>n. start_import_run call io u m = (m, n, False))
   \<or> (\<exists>req. start_import_run call io u m = (case start_run call io req m of
        (m', Inl e) \<Rightarrow> (m', start_status e, False) | (m', Inr _) \<Rightarrow> (m', 202, True)))"
  unfolding start_import_run_def Let_def by (simp only: split: sum.split option.split if_split) blast

lemma orderly_import:
  "orderly logging st (case start_import_run call io u (fst st) of (m, n, left) \<Rightarrow> ((m, snd st), n))"
  using start_import_shape [of call io u "fst st"]
proof
  assume "\<exists>n. start_import_run call io u (fst st) = (fst st, n, False)"
  then show ?thesis by (cases st) auto
next
  assume "\<exists>req. start_import_run call io u (fst st) = (case start_run call io req (fst st) of
        (m', Inl e) \<Rightarrow> (m', start_status e, False) | (m', Inr _) \<Rightarrow> (m', 202, True))"
  then obtain req where shape: "start_import_run call io u (fst st) = (case start_run call io req (fst st) of
        (m', Inl e) \<Rightarrow> (m', start_status e, False) | (m', Inr _) \<Rightarrow> (m', 202, True))" ..
  obtain m' r where run: "start_run call io req (fst st) = (m', r)" by fastforce
  show ?thesis
    using orderly_start [OF run, of "case r of Inl e \<Rightarrow> start_status e | Inr _ \<Rightarrow> 202"] start_status_not_accepted
    by (cases r) (auto simp: shape run)
qed

lemma orderly_cancel:
  "orderly logging st (case cancel_maintenance_run io a b rid (fst st) of (m, n) \<Rightarrow> ((m, snd st), n))"
proof -
  obtain m' r where run: "cancel_run (io_now io) a b rid (fst st) = (m', r)" by fastforce
  then have "mgr_gate m' = mgr_gate (fst st)"
    by (auto simp: cancel_run_def set_event_def Let_def dest!: update_run_gate
        split: sum.split_asm if_split_asm option.split_asm)
  then show ?thesis
    by (auto simp: cancel_maintenance_run_def run intro: orderly_manager split: sum.split run_error.split)
qed

lemma orderly_handler: "orderly (ae_logging env) st (run_handler c env param h st)"
proof (cases h)
  case (Mutating checks kind steps success)
  then show ?thesis by (simp add: orderly_api_mutation split: option.split)
next
  case (Tool needs_browser name operation)
  then show ?thesis by (simp add: orderly_run_utility)
next
  case Start_Job
  then show ?thesis by (simp add: orderly_start_action orderly_import)
qed (simp_all add: orderly_start_action orderly_import orderly_cancel orderly_api_mutation)

lemma reading_changes_nothing: "only_reads h \<Longrightarrow> \<exists>n. run_handler c env param h st = (st, n)"
  by (cases h) simp_all

section \<open>Changes through the interface\<close>

lemma request_effect:
  "case serve c env authenticate rq st of (st', status) \<Rightarrow>
     st' = st
     \<or> (\<exists>i. authenticate (rq_session rq) = Inr i \<and> may_administer c i)
       \<and> rq_method rq \<in> set mutating_methods
       \<and> (if ac_mode c = ''portal_handoff'' then origin_allowed c rq else True)
       \<and> (snd st' = snd st
          \<or> gate_accepting (mgr_gate (fst st)) \<and> gate_active (mgr_gate (fst st)) = None)"
proof (cases "admit c authenticate rq")
  case (Inr e)
  let ?r = "run_handler c env (path_parameter (ep_path e) (rq_path rq)) (ep_handler e) st"
  from Inr obtain found where found: "production_security c authenticate rq = Passed found"
    and e: "route (rq_method rq) (rq_path rq) = Inr e" and deps: "dependencies c found e = None"
    by (rule admitE)
  have served: "serve c env authenticate rq st = ?r" by (simp add: serve_def Inr)
  show ?thesis
  proof (cases "only_reads (ep_handler e)")
    case True
    obtain n where "?r = (st, n)" using reading_changes_nothing [OF True] by blast
    then show ?thesis by (simp add: served)
  next
    case False
    have guard: "ep_path e \<notin> set public_api_paths" "ep_admin e" "ep_method e \<in> set mutating_methods"
      using well_guarded_writer [OF route_Inr(4) [OF e] False] by simp_all
    obtain i where i: "found = Some i" "authenticate (rq_session rq) = Inr i"
      using passedE(1) [OF found routed_to_api [OF e]] routed_public(1) [OF e] guard(1) by auto
    have admin: "may_administer c i"
      using deps i guard(2) by (auto simp: dependencies_def require_administrator_def split: if_split_asm)
    have verb: "rq_method rq \<in> set mutating_methods" using guard(3) route_Inr(3) [OF e] by simp
    obtain st' n where r: "?r = (st', n)" by fastforce
    have "snd st' = snd st \<or> idle (fst st)"
      using orderly_handler [of env st c "path_parameter (ep_path e) (rq_path rq)" "ep_handler e"]
      by (simp add: orderly_def r)
    then show ?thesis
      using i(2) admin verb passedE(2) [OF found routed_to_api [OF e] _ verb]
      by (simp add: served r idle_def)
  qed
qed (simp add: serve_def)

text \<open>C3. A request leaves run manager, gate and data as they were unless it is a writing request of an
  identified administrator, with the page's own origin when the portal logs people in; and the data
  change only when the gate was accepting and free, so that the request held it alone.\<close>

theorem api_changes_are_serialised:
  "case serve c env authenticate rq st of (st', status) \<Rightarrow>
     st' = st
     \<or> (\<exists>i. authenticate (rq_session rq) = Inr i \<and> may_administer c i)
       \<and> rq_method rq \<in> set mutating_methods
       \<and> (if ac_mode c = ''portal_handoff'' then origin_allowed c rq else True)
       \<and> (snd st' = snd st
          \<or> gate_accepting (mgr_gate (fst st)) \<and> gate_active (mgr_gate (fst st)) = None)"
  by (rule request_effect)


text \<open>The tool then keeps the gate for good: every later change is refused.\<close>

lemma tool_leaks_gate:
  assumes "idle (fst st)" "\<not> ae_logging env" "run_utility env name operation st = (st', n)"
  shows "n = 500" "snd st' = snd st" "api_mutation env' kind body st' = (st', 409)"
proof -
  have "\<exists>g l. gate_acquire (ae_call env) name None (mgr_gate (fst st)) = Inr (g, l)"
    using assms(1) unfolding gate_acquire_Inr_iff idle_def .
  then obtain held lease where acq: "gate_acquire (ae_call env) name None (mgr_gate (fst st)) = Inr (held, lease)" by blast
  then have st': "st' = ((fst st)\<lparr>mgr_gate := held\<rparr>, snd st)" "n = 500"
    using assms(2,3) by (simp_all add: run_utility_def)
  then show "n = 500" "snd st' = snd st" by simp_all
  have "gate_active held \<noteq> None" using gate_acquireD(4) [OF acq] by simp
  then obtain err where "gate_acquire (ae_call env') kind None held = Inl err"
    by (cases "gate_acquire (ae_call env') kind None held") (auto dest: gate_acquireD(2))
  then show "api_mutation env' kind body st' = (st', 409)" by (simp add: api_mutation_def st'(1))
qed

section \<open>Uploads\<close>

lemma collect_chunks_spec:
  "length contents \<le> maximum \<Longrightarrow>
   (case collect_chunks maximum contents pieces of
      Inr body \<Rightarrow> body = contents @ concat pieces \<and> length body \<le> maximum
    | Inl n \<Rightarrow> n = 413 \<and> maximum < length contents + length (concat pieces))"
proof (induction maximum contents pieces rule: collect_chunks.induct)
  case (2 maximum contents chunk rest)
  show ?case
  proof (cases "maximum - length contents < length chunk")
    case True
    then show ?thesis using 2(2) by simp
  next
    case False
    then have "length (contents @ chunk) \<le> maximum" using 2(2) by simp
    then show ?thesis using 2(1) [OF False] False by (simp add: add.assoc split: sum.splits)
  qed
qed simp

text \<open>A body is read whole or refused: what comes back is every piece in its order and no longer than the
  limit; 413 means that the sender declared too much or sent too much, 400 that it declared nonsense.\<close>

theorem uploads_are_bounded:
  "case read_limited_request_body maximum declared pieces of
     Inr body \<Rightarrow> body = concat pieces \<and> length body \<le> maximum
   | Inl n \<Rightarrow> n = 413 \<and> (maximum < length (concat pieces) \<or> (\<exists>k > int maximum. int_of_text (strip declared) = Some k))
       \<or> n = 400 \<and> strip declared \<noteq> [] \<and> int_of_text (strip declared) = None"
proof -
  have "case collect_chunks maximum [] pieces of
      Inr body \<Rightarrow> body = concat pieces \<and> length body \<le> maximum
    | Inl n \<Rightarrow> n = 413 \<and> maximum < length (concat pieces)"
    using collect_chunks_spec [of "[]" maximum pieces] by (simp split: sum.split_asm)
  then show ?thesis
    unfolding read_limited_request_body_def Let_def by (auto split: option.split sum.split)
qed

end
