(* ===== verification/Api_System.thy ===== *)
theory Api_System
  imports Api_Requests
begin

text \<open>
  The server as a whole: requests that are handled in parallel, the identities their sessions have, the
  portal's replies, and the background runs. A request that needs an identity asks the session cache first and
  waits for the portal when that does not know. Every change is recorded with the identity behind it.
\<close>

section \<open>The server\<close>

record 's server =
  sv_sessions :: sessions
  sv_api :: "'s api"
  sv_waiting :: "(nat \<times> request \<times> 's api_env) list"
  sv_changes :: "(request \<times> identity option \<times> rat) list"

text \<open>What runs and schedulers do between two steps of requests is left open: \<open>Elsewhere\<close> gives the state they leave.\<close>

datatype 's server_event =
    Arrive nat request "'s api_env" rat
  | Portal_Reply nat "portal_reply option" rat rat rat
  | Login nat string rat
  | Login_Reply nat "portal_reply option" rat rat rat
  | Logout string
  | Elsewhere "'s api"

definition needs_identity :: "request \<Rightarrow> bool" where
  "needs_identity rq \<longleftrightarrow> prefix ''/api'' (rq_path rq) \<and> rq_path rq \<notin> set public_api_paths"

text \<open>From the identity on, or from the failure to find one.\<close>

definition perform ::
  "auth_config \<Rightarrow> 's api_env \<Rightarrow> request \<Rightarrow> auth_error + identity \<Rightarrow> rat \<Rightarrow> 's server \<Rightarrow> 's server" where
  "perform c env rq found tick sv =
     (let st = fst (serve c env (\<lambda>_. found) rq (sv_api sv)) in
      sv\<lparr>sv_api := st,
        sv_changes := (if st = sv_api sv then sv_changes sv
          else (rq, case found of Inl _ \<Rightarrow> None | Inr i \<Rightarrow> Some i, tick) # sv_changes sv)\<rparr>)"

text \<open>The threads of requests and of logins are told apart by even and odd numbers.\<close>

fun server_step :: "auth_config \<Rightarrow> portal_env \<Rightarrow> 's server_event \<Rightarrow> 's server \<Rightarrow> 's server" where
  "server_step c pe (Arrive who rq env t) sv =
     (if \<not> needs_identity rq then perform c env rq (Inl Not_Authenticated) t sv
      else
        (let s = sv_sessions sv;
             tick = max (se_clock s) t;
             sv' = sv\<lparr>sv_sessions := session_step c pe (Start (2 * who) (rq_session rq) t) s\<rparr>
         in case snd (introspect_start c (rq_session rq) tick (se_cache s)) of
              Lookup_Error e \<Rightarrow> perform c env rq (Inl e) tick sv'
            | Cached i \<Rightarrow> perform c env rq (Inr i) tick sv'
            | Ask k \<Rightarrow> sv'\<lparr>sv_waiting := AList.update who (rq, env) (sv_waiting sv)\<rparr>))"
| "server_step c pe (Portal_Reply who reply now later t) sv =
     (case map_of (sv_waiting sv) who of
        None \<Rightarrow> sv
      | Some (rq, env) \<Rightarrow>
          (let s = sv_sessions sv;
               tick = max (se_clock s) t;
               result = snd (introspect_finish c pe (cache_key (rq_session rq)) reply now later tick (se_cache s))
           in perform c env rq result tick
                (sv\<lparr>sv_sessions := session_step c pe (Answer (2 * who) reply now later t) s,
                   sv_waiting := AList.delete who (sv_waiting sv)\<rparr>)))"
| "server_step c pe (Login who token t) sv =
     sv\<lparr>sv_sessions := session_step c pe (Start (2 * who + 1) token t) (sv_sessions sv)\<rparr>"
| "server_step c pe (Login_Reply who reply now later t) sv =
     sv\<lparr>sv_sessions := session_step c pe (Answer (2 * who + 1) reply now later t) (sv_sessions sv)\<rparr>"
| "server_step c pe (Logout token) sv =
     sv\<lparr>sv_sessions := session_step c pe (Revoke token) (sv_sessions sv)\<rparr>"
| "server_step c pe (Elsewhere st) sv = sv\<lparr>sv_api := st\<rparr>"

definition fresh_server :: "'s api \<Rightarrow> 's server" where
  "fresh_server st = \<lparr>sv_sessions = no_sessions, sv_api = st, sv_waiting = [], sv_changes = []\<rparr>"

definition run_server :: "auth_config \<Rightarrow> portal_env \<Rightarrow> 's api \<Rightarrow> 's server_event list \<Rightarrow> 's server" where
  "run_server c pe st events = fold (server_step c pe) events (fresh_server st)"

section \<open>Changes are made by identities that were served\<close>

text \<open>A change is accounted for: it was made by an administrator whose identity was served for the token of
  the request, at that time.\<close>

definition accounted :: "auth_config \<Rightarrow> (string \<times> identity \<times> rat) list \<Rightarrow> request \<times> identity option \<times> rat \<Rightarrow> bool" where
  "accounted c served = (\<lambda>(rq, found, t). \<exists>i. found = Some i \<and> may_administer c i \<and> origin_allowed c rq
     \<and> (cache_key (rq_session rq), i, t) \<in> set served)"

definition server_ok :: "auth_config \<Rightarrow> portal_env \<Rightarrow> 's server \<Rightarrow> bool" where
  "server_ok c pe sv \<longleftrightarrow> sessions_ok c pe (sv_sessions sv)
     \<and> (\<forall>who rq env. map_of (sv_waiting sv) who = Some (rq, env) \<longrightarrow>
          map_of (se_asking (sv_sessions sv)) (2 * who) = Some (cache_key (rq_session rq)))
     \<and> (\<forall>x \<in> set (sv_changes sv). accounted c (se_served (sv_sessions sv)) x)"

lemma served_grows: "set (se_served s) \<subseteq> set (se_served (session_step c pe ev s))"
  by (cases ev) (auto simp: Let_def split: prod.split lookup.split option.split sum.split)

lemma accounted_grows: "accounted c served x \<Longrightarrow> set served \<subseteq> set served' \<Longrightarrow> accounted c served' x"
  by (auto simp: accounted_def)

lemma perform_ok:
  assumes ok: "server_ok c pe sv" and portal: "ac_mode c = ''portal_handoff''"
    and served: "\<And>i. found = Inr i \<Longrightarrow> (cache_key (rq_session rq), i, tick) \<in> set (se_served (sv_sessions sv))"
  shows "server_ok c pe (perform c env rq found tick sv)"
proof -
  obtain st status where r: "serve c env (\<lambda>_. found) rq (sv_api sv) = (st, status)" by fastforce
  have "accounted c (se_served (sv_sessions sv)) (rq, case found of Inl _ \<Rightarrow> None | Inr i \<Rightarrow> Some i, tick)"
    if "st \<noteq> sv_api sv"
    using request_effect [where c = c and env = env and authenticate = "\<lambda>_. found" and rq = rq and st = "sv_api sv"] that served
    by (auto simp: r portal accounted_def)
  then show ?thesis using ok by (auto simp: perform_def r server_ok_def Let_def)
qed

lemma start_sessions:
  "se_asking (session_step c pe (Start w token t) s) =
     (case snd (introspect_start c token (max (se_clock s) t) (se_cache s)) of
        Ask k \<Rightarrow> AList.update w k (se_asking s) | _ \<Rightarrow> se_asking s)"
  "snd (introspect_start c token (max (se_clock s) t) (se_cache s)) = Cached i \<Longrightarrow>
     (cache_key token, i, max (se_clock s) t) \<in> set (se_served (session_step c pe (Start w token t) s))"
  by (auto simp: Let_def split: prod.split lookup.split)

lemma start_asks: "snd (introspect_start c token tick cache) = Ask k \<Longrightarrow> k = cache_key token"
  by (auto simp: introspect_start_def split: sum.split_asm if_split_asm option.split_asm)

lemma answer_sessions:
  "map_of (se_asking (session_step c pe (Answer w reply now later t) s)) w' =
     (if w' = w then None else map_of (se_asking s) w')"
  "map_of (se_asking s) w = Some k \<Longrightarrow>
     snd (introspect_finish c pe k reply now later (max (se_clock s) t) (se_cache s)) = Inr i \<Longrightarrow>
     (k, i, max (se_clock s) t) \<in> set (se_served (session_step c pe (Answer w reply now later t) s))"
  by (auto simp: Let_def delete_conv' split: prod.split option.split sum.split)

text \<open>Steps of the sessions keep what is known, as long as no waiting request loses its question.\<close>

lemma sessions_move:
  assumes ok: "server_ok c pe sv" and portal: "ac_mode c = ''portal_handoff''"
    and waiting: "\<And>who rq env. map_of wait who = Some (rq, env) \<Longrightarrow>
      map_of (se_asking (session_step c pe ev (sv_sessions sv))) (2 * who) = Some (cache_key (rq_session rq))"
  shows "server_ok c pe (sv\<lparr>sv_sessions := session_step c pe ev (sv_sessions sv), sv_waiting := wait\<rparr>)"
proof -
  have "sessions_ok c pe (session_step c pe ev (sv_sessions sv))"
    using ok portal by (intro step_ok) (simp_all add: server_ok_def)
  then show ?thesis
    using ok waiting accounted_grows [OF _ served_grows] by (auto simp: server_ok_def)
qed

lemma sessions_move':
  assumes "server_ok c pe sv" and "ac_mode c = ''portal_handoff''"
    and "\<And>who. map_of (se_asking (session_step c pe ev (sv_sessions sv))) (2 * who)
      = map_of (se_asking (sv_sessions sv)) (2 * who)"
  shows "server_ok c pe (sv\<lparr>sv_sessions := session_step c pe ev (sv_sessions sv)\<rparr>)"
  using sessions_move [OF assms(1,2), of "sv_waiting sv" ev] assms(1,3) by (simp add: server_ok_def)

lemma server_step_ok:
  assumes ok: "server_ok c pe sv" and portal: "ac_mode c = ''portal_handoff''"
  shows "server_ok c pe (server_step c pe ev sv)"
proof (cases ev)
  case (Arrive who rq env t)
  define tick where "tick = max (se_clock (sv_sessions sv)) t"
  let ?start = "Start (2 * who) (rq_session rq) t"
  let ?moved = "session_step c pe ?start (sv_sessions sv)"
  let ?look = "snd (introspect_start c (rq_session rq) tick (se_cache (sv_sessions sv)))"
  note start = start_sessions [where c = c and pe = pe and w = "2 * who" and token = "rq_session rq" and t = t
      and s = "sv_sessions sv", folded tick_def]
  show ?thesis
  proof (cases "needs_identity rq")
    case needs: True
    show ?thesis
    proof (cases ?look)
      case (Ask k)
      have "server_ok c pe (sv\<lparr>sv_sessions := ?moved, sv_waiting := AList.update who (rq, env) (sv_waiting sv)\<rparr>)"
        using ok start(1) Ask start_asks [OF Ask]
        by (intro sessions_move [OF ok portal]) (auto simp: server_ok_def update_conv' split: if_split_asm)
      then show ?thesis using needs Ask by (simp only: Arrive server_step.simps Let_def tick_def [symmetric]) simp
    next
      case (Cached i)
      then have "server_ok c pe (sv\<lparr>sv_sessions := ?moved\<rparr>)"
        using start(1) by (intro sessions_move' [OF ok portal]) simp
      then show ?thesis
        using needs Cached start(2) [OF Cached]
        by (simp only: Arrive server_step.simps Let_def tick_def [symmetric]) (auto simp del: session_step.simps intro!: perform_ok [OF _ portal])
    next
      case (Lookup_Error e)
      then have "server_ok c pe (sv\<lparr>sv_sessions := ?moved\<rparr>)"
        using start(1) by (intro sessions_move' [OF ok portal]) simp
      then show ?thesis
        using needs Lookup_Error
        by (simp only: Arrive server_step.simps Let_def tick_def [symmetric]) (auto simp del: session_step.simps intro!: perform_ok [OF _ portal])
    qed
  qed (auto simp: Arrive intro!: perform_ok [OF ok portal])
next
  case (Portal_Reply who reply now later t)
  define tick where "tick = max (se_clock (sv_sessions sv)) t"
  let ?answer = "Answer (2 * who) reply now later t"
  let ?moved = "session_step c pe ?answer (sv_sessions sv)"
  show ?thesis
  proof (cases "map_of (sv_waiting sv) who")
    case None
    then show ?thesis using ok by (simp add: Portal_Reply)
  next
    case (Some x)
    obtain rq env where x: "x = (rq, env)" by fastforce
    have asking: "map_of (se_asking (sv_sessions sv)) (2 * who) = Some (cache_key (rq_session rq))"
      using ok Some by (simp add: server_ok_def x)
    have "server_ok c pe (sv\<lparr>sv_sessions := ?moved, sv_waiting := AList.delete who (sv_waiting sv)\<rparr>)"
      using ok by (intro sessions_move [OF ok portal])
        (auto simp: answer_sessions(1) delete_conv' server_ok_def simp del: session_step.simps split: if_split_asm)
    then show ?thesis
      using Some answer_sessions(2) [OF asking, where c = c and pe = pe and reply = reply and now = now and later = later
          and t = t, folded tick_def]
      by (simp only: Portal_Reply server_step.simps Let_def tick_def [symmetric] x) (auto simp del: session_step.simps intro!: perform_ok [OF _ portal])
  qed
next
  case (Login who token t)
  have "(2::nat) * w \<noteq> 2 * who + 1" for w by presburger
  then show ?thesis
    unfolding Login server_step.simps
    by (intro sessions_move' [OF ok portal]) (simp add: start_sessions(1) update_conv' del: session_step.simps split: lookup.split)
next
  case (Login_Reply who reply now later t)
  have "(2::nat) * w \<noteq> 2 * who + 1" for w by presburger
  then show ?thesis
    unfolding Login_Reply server_step.simps
    by (intro sessions_move' [OF ok portal]) (simp add: answer_sessions(1) del: session_step.simps)
next
  case (Logout token)
  then show ?thesis by (simp del: session_step.simps) (rule sessions_move' [OF ok portal], simp)
next
  case (Elsewhere st)
  then show ?thesis using ok by (simp add: server_ok_def)
qed

lemma run_server_ok:
  "ac_mode c = ''portal_handoff'' \<Longrightarrow> server_ok c pe (run_server c pe st events)"
proof -
  assume portal: "ac_mode c = ''portal_handoff''"
  have "server_ok c pe (fold (server_step c pe) events sv)" if "server_ok c pe sv" for sv :: "'a server"
    using that by (induction events arbitrary: sv) (simp_all add: server_step_ok portal del: server_step.simps)
  moreover have "server_ok c pe (fresh_server st)"
    by (simp add: server_ok_def fresh_server_def sessions_ok_def no_sessions_def)
  ultimately show ?thesis by (simp add: run_server_def)
qed

text \<open>What the portal confirmed for an administrator of the production site is the trusted user.\<close>

lemma fresh_administrator:
  assumes "fresh_at c pe fs (k, i, t)" "may_administer c i" "ac_env c = ''production''"
  shows "id_user i = canonical_uuid (ac_trusted c)" "id_role i = ''ADMINISTRATOR''"
proof -
  obtain reply now idle absolute where "introspect_reply c pe reply now = Inr (i, idle, absolute)"
    using assms(1) by (auto simp: fresh_at_def)
  note i = reply_identity [OF this]
  show "id_user i = canonical_uuid (ac_trusted c)" "id_role i = ''ADMINISTRATOR''"
    using assms(2,3) i(1,4) by (auto simp: may_administer_def is_trusted_initial_administrator_def Let_def)
qed

end
