(* ===== verification/Api_Lifecycle.thy ===== *)
theory Api_Lifecycle
  imports Api_System Health
begin

text \<open>
  Starting and stopping the server (\<open>start_maintenance_scheduler\<close> and \<open>stop_maintenance_scheduler\<close> of
  \<^verbatim>\<open>server.py\<close>): what has to hold before the schedulers run, and what is refused once they stop.
\<close>

section \<open>Starting\<close>

datatype start_failure = Bad_Configuration auth_error | Schedules_Without_Utilities | Database_Required | Start_Crash

datatype service = Maintenance_Service | Email_Service

text \<open>What the environment answers: the readiness of the storage (\<open>None\<close> for an exception), the three
  conditions of \<open>reconcile_interrupted_runs\<close>, whether the e-mail settings could be set up and the services built.\<close>

record startup_io =
  su_readiness :: "readiness option"
  su_file :: bool
  su_table :: bool
  su_database :: bool
  su_now :: string
  su_email :: bool
  su_services :: bool

definition start_services :: "auth_config \<Rightarrow> startup_io \<Rightarrow> start_failure + service list" where
  "start_services c io =
     (if ac_utilities c \<and> \<not> su_email io then Inl Start_Crash
      else if \<not> ac_schedules c then Inr []
      else if \<not> su_services io then Inl Start_Crash
      else Inr [Maintenance_Service, Email_Service])"

text \<open>\<open>manager_built\<close>: the run manager is there already when the server starts again in the same process.\<close>

definition start_server :: "auth_config \<Rightarrow> startup_io \<Rightarrow> bool \<Rightarrow> manager \<Rightarrow> manager \<times> (start_failure + service list)" where
  "start_server c io manager_built m =
     (let m1 = m\<lparr>mgr_gate := start_accepting (mgr_gate m)\<rparr>;
          m2 = (if manager_built then manager_start_accepting m1 else m1)
      in case validate_auth_configuration c of
           Inl e \<Rightarrow> (m2, Inl (Bad_Configuration e))
         | Inr _ \<Rightarrow>
             if ac_schedules c \<and> \<not> ac_utilities c then (m2, Inl Schedules_Without_Utilities)
             else (case su_readiness io of
                 None \<Rightarrow> (m2, Inl Start_Crash)
               | Some r \<Rightarrow>
                   if rd_status_code r = 503
                   then (m2, if ac_require_database c then Inl Database_Required else Inr [])
                   else (m2\<lparr>mgr_rows := fst (reconcile_interrupted_runs (su_file io) (su_table io) (su_database io)
                           (su_now io) (mgr_rows m2))\<rparr>,
                         start_services c io)))"

definition stop_server :: "bool \<Rightarrow> manager \<Rightarrow> manager" where
  "stop_server manager_built m =
     (let m1 = m\<lparr>mgr_gate := stop_accepting (mgr_gate m)\<rparr>
      in if manager_built then shutdown_manager m1 else m1)"

section \<open>The order of the start\<close>

lemma start_accepts: "gate_accepting (mgr_gate (fst (start_server c io b m)))"
  by (auto simp: start_server_def start_accepting_def manager_start_accepting_def Let_def split: sum.split option.split)

lemma services_started:
  assumes "start_server c io b m = (m', Inr services)" "services \<noteq> []"
  shows "validate_auth_configuration c = Inr () \<and> ac_schedules c \<and> ac_utilities c
    \<and> (\<exists>r. su_readiness io = Some r \<and> rd_status_code r \<noteq> 503)
    \<and> services = [Maintenance_Service, Email_Service]
    \<and> mgr_rows m' = fst (reconcile_interrupted_runs (su_file io) (su_table io) (su_database io) (su_now io) (mgr_rows m))"
  using assms
  by (auto simp: start_server_def start_services_def manager_start_accepting_def Let_def
      split: sum.split_asm option.split_asm if_split_asm)

text \<open>The schedulers start last: only with a valid configuration, with both of their switches on and with a
  storage that is ready, when the gate takes work again and no run of the previous process is left active
  (unless its table could not be written).\<close>

theorem schedulers_start_last:
  "case start_server c io b m of
     (m', Inl _) \<Rightarrow> gate_accepting (mgr_gate m') \<and> gate_active (mgr_gate m') = gate_active (mgr_gate m)
   | (m', Inr services) \<Rightarrow>
       services = []
       \<or> services = [Maintenance_Service, Email_Service]
         \<and> validate_auth_configuration c = Inr () \<and> ac_schedules c \<and> ac_utilities c
         \<and> (\<exists>r. su_readiness io = Some r \<and> rd_status_code r \<noteq> 503)
         \<and> gate_accepting (mgr_gate m')
         \<and> (if su_file io \<and> su_table io \<and> su_database io
            then list_all (\<lambda>(_, r). \<not> is_active (row_status r)) (mgr_rows m') \<and> map fst (mgr_rows m') = map fst (mgr_rows m)
            else mgr_rows m' = mgr_rows m)"
proof -
  obtain m' r where start: "start_server c io b m = (m', r)" by fastforce
  have accepts: "gate_accepting (mgr_gate m')" using start_accepts [of c io b m] by (simp add: start)
  show ?thesis
  proof (cases r)
    case (Inl e)
    have "gate_active (mgr_gate m') = gate_active (mgr_gate m)"
      using start by (auto simp: start_server_def start_accepting_def manager_start_accepting_def Let_def
          split: sum.split_asm option.split_asm if_split_asm)
    then show ?thesis using accepts by (simp add: start Inl)
  next
    case (Inr services)
    show ?thesis
    proof (cases "services = []")
      case False
      note facts = services_started [OF start [unfolded Inr] False]
      then show ?thesis
        using accepts
        by (auto simp: start Inr reconcile_interrupted_runs_def mark_interrupted_runs_def list_all_iff split_beta comp_def)
    qed (simp add: start Inr)
  qed
qed

section \<open>After the stop\<close>

lemma stopped_manager:
  "\<not> idle (stop_server built m)" "\<not> gate_accepting (mgr_gate (stop_server built m))"
  "gate_active (mgr_gate (stop_server built m)) = gate_active (mgr_gate m)"
  by (simp_all add: stop_server_def idle_def stop_accepting_def shutdown_manager_def Let_def)

lemma serve_orderly: "orderly (ae_logging env) st (serve c env authenticate rq st)"
  by (simp add: serve_def orderly_handler split: sum.split)

text \<open>C6. Once the server has stopped, no request changes the data or takes the gate, whoever asks, and no run
  starts; a run that holds the gate keeps it, and all runs are told to cancel.\<close>

theorem nothing_starts_after_the_stop:
  "(case serve c env authenticate rq (stop_server built m, s) of
      (st', status) \<Rightarrow> snd st' = s \<and> gate_active (mgr_gate (fst st')) = gate_active (mgr_gate m))
   \<and> (case start_run call io req (stop_server True m) of
      (m', r) \<Rightarrow> m' = stop_server True m \<and> r = Inl (Conflict ShuttingDown)
        \<and> list_all (\<lambda>(_, cancelled). cancelled) (mgr_cancel_events m'))"
proof
  show "case serve c env authenticate rq (stop_server built m, s) of
      (st', status) \<Rightarrow> snd st' = s \<and> gate_active (mgr_gate (fst st')) = gate_active (mgr_gate m)"
    using serve_orderly [of env "(stop_server built m, s)" c authenticate rq]
    by (simp add: orderly_def stopped_manager split_beta)
  show "case start_run call io req (stop_server True m) of
      (m', r) \<Rightarrow> m' = stop_server True m \<and> r = Inl (Conflict ShuttingDown)
        \<and> list_all (\<lambda>(_, cancelled). cancelled) (mgr_cancel_events m')"
    by (simp add: start_run_def stop_server_def shutdown_manager_def list_all_iff Let_def split_beta)
qed

end
