(* ===== verification/Job_Platforms.thy ===== *)
theory Job_Platforms
  imports Py_Url_Join Py_Ip
begin

text \<open>
  Which applicant tracking system a URL belongs to, and the canonical form of a Dayforce board
  (\<^verbatim>\<open>src/job_platforms.py\<close>). A URL that \<open>urllib\<close> cannot split makes these functions raise, which is \<^const>\<open>None\<close>.
\<close>

section \<open>Vendors\<close>

definition platform_domain_map :: "(string \<times> string) list" where
  "platform_domain_map =
     [(''workforcenow.adp.com'', ''ADP Workforce Now''),
      (''recruiting.adp.com'', ''ADP Recruiting''),
      (''myworkdayjobs.com'', ''Workday''),
      (''wd1.myworkdayjobs.com'', ''Workday''),
      (''wd5.myworkdayjobs.com'', ''Workday''),
      (''greenhouse.io'', ''Greenhouse''),
      (''boards.greenhouse.io'', ''Greenhouse''),
      (''lever.co'', ''Lever''),
      (''jobs.lever.co'', ''Lever''),
      (''icims.com'', ''ICIMS''),
      (''paylocity.com'', ''Paylocity''),
      (''ukg.com'', ''UKG''),
      (''ultipro.com'', ''UKG''),
      (''adp.com'', ''ADP Workforce Now''),
      (''bamboohr.com'', ''BambooHR''),
      (''smartrecruiters.com'', ''SmartRecruiters''),
      (''jobvite.com'', ''Jobvite''),
      (''paycomonline.net'', ''Paycom''),
      (''recruitingbypaycor.com'', ''Paycor''),
      (''applicantpro.com'', ''ApplicantPro''),
      (''saashr.com'', ''UKG Ready''),
      (''oraclecloud.com'', ''Oracle Recruiting''),
      (''successfactors.com'', ''SAP SuccessFactors''),
      (''isolvedhire.com'', ''isolved Hire''),
      (''jazzhr.com'', ''JazzHR''),
      (''clearcompany.com'', ''ClearCompany''),
      (''hrmdirect.com'', ''ClearCompany''),
      (''paycor.com'', ''Paycor''),
      (''app.joinhandshake.com'', ''Handshake''),
      (''jobs.dayforcehcm.com'', ''Dayforce''),
      (''csod.com'', ''Cornerstone'')]"

text \<open>\<open>.lower().rstrip(".")\<close>.\<close>

definition plain_host :: "string \<Rightarrow> string" where
  "plain_host h = rstrip_chars ''.'' (str_lower h)"

definition hostname_matches_domain :: "string \<Rightarrow> string \<Rightarrow> bool" where
  "hostname_matches_domain hostname domain =
     (let h = plain_host (strip hostname); d = plain_host (strip domain) in
      if h = [] \<or> d = [] then False else h = d \<or> suffix (CHR ''.'' # d) h)"

definition url_host :: "split_url \<Rightarrow> string" where
  "url_host u = plain_host (case url_hostname u of Some h \<Rightarrow> h | None \<Rightarrow> [])"

definition with_scheme :: "string \<Rightarrow> string" where
  "with_scheme raw = (if contains ''://'' raw then raw else ''https://'' @ raw)"

fun detect_job_platform :: "string option list \<Rightarrow> string option" where
  "detect_job_platform [] = Some []"
| "detect_job_platform (None # urls) = detect_job_platform urls"
| "detect_job_platform (Some raw # urls) =
     (if raw = [] then detect_job_platform urls
      else case urlsplit (with_scheme raw) of
        None \<Rightarrow> None
      | Some u \<Rightarrow>
          (case find (\<lambda>(domain, _). hostname_matches_domain (url_host u) domain) platform_domain_map of
             Some (_, platform) \<Rightarrow> Some platform
           | None \<Rightarrow> detect_job_platform urls))"

section \<open>Dayforce boards\<close>

definition dayforce_host :: string where "dayforce_host = ''jobs.dayforcehcm.com''"

text \<open>The segments of a path that the two patterns look at: what stands between the slashes, one slash at the end not
  counted.\<close>

definition board_segments :: "string \<Rightarrow> string list option" where
  "board_segments path =
     (case split_on (CHR ''/'') path of
        [] # ss \<Rightarrow> Some (if ss \<noteq> [] \<and> last ss = [] then butlast ss else ss)
      | _ \<Rightarrow> None)"

definition board_char :: "char \<Rightarrow> bool" where
  "board_char c \<longleftrightarrow> is_alpha_ascii c \<or> is_digit c \<or> c = CHR ''_'' \<or> c = CHR ''-''"

definition tenant_segment :: "string \<Rightarrow> bool" where
  "tenant_segment s \<longleftrightarrow> s \<noteq> [] \<and> list_all board_char s"

definition culture_segment :: "string \<Rightarrow> bool" where
  "culture_segment s \<longleftrightarrow>
     (case partition (CHR ''-'') s of (lang, dash, region) \<Rightarrow>
        list_all is_alpha_ascii lang \<and> length lang \<in> {2, 3}
        \<and> (dash \<longrightarrow> list_all is_alpha_ascii region \<and> length region = 2))"

text \<open>\<open>(?:/jobs/[0-9]+)?\<close> at the end of the path.\<close>

definition job_tail :: "string list \<Rightarrow> bool" where
  "job_tail ss \<longleftrightarrow>
     (case ss of [] \<Rightarrow> True
      | [j, n] \<Rightarrow> str_lower j = ''jobs'' \<and> n \<noteq> [] \<and> list_all is_digit n
      | _ \<Rightarrow> False)"

definition dayforce_board_path :: "string \<Rightarrow> (string \<times> string \<times> string) option" where
  "dayforce_board_path path =
     (case board_segments path of
        Some (c # n # b # rest) \<Rightarrow>
          if culture_segment c \<and> tenant_segment n \<and> tenant_segment b \<and> job_tail rest then Some (c, n, b) else None
      | _ \<Rightarrow> None)"

definition dayforce_board_path_no_culture :: "string \<Rightarrow> (string \<times> string) option" where
  "dayforce_board_path_no_culture path =
     (case board_segments path of
        Some (n # b # rest) \<Rightarrow>
          if tenant_segment n \<and> tenant_segment b \<and> job_tail rest then Some (n, b) else None
      | _ \<Rightarrow> None)"

definition dayforce_default_culture :: string where "dayforce_default_culture = ''en-US''"

definition match_dayforce_board_path :: "string \<Rightarrow> (string \<times> string \<times> string) option" where
  "match_dayforce_board_path path =
     (case dayforce_board_path path of
        Some m \<Rightarrow> Some m
      | None \<Rightarrow> map_option (\<lambda>(n, b). (dayforce_default_culture, n, b)) (dayforce_board_path_no_culture path))"

definition board_url :: "string \<times> string \<times> string \<Rightarrow> string" where
  "board_url = (\<lambda>(culture, namespace, board).
     urlunsplit \<lparr>url_scheme = ''https'', url_netloc = dayforce_host,
       url_path = CHR ''/'' # culture @ CHR ''/'' # namespace @ CHR ''/'' # board, url_query = [], url_fragment = []\<rparr>)"

definition canonical_job_board_url :: "string \<Rightarrow> string option" where
  "canonical_job_board_url url =
     (let v = strip url in
      case urlsplit v of
        None \<Rightarrow> None
      | Some u \<Rightarrow>
          Some (
            if str_lower (url_scheme u) \<noteq> ''https'' \<or> url_host u \<noteq> dayforce_host then v
            else if url_username u \<noteq> None \<or> url_password u \<noteq> None then v
            else case url_port u of
              None \<Rightarrow> v
            | Some p \<Rightarrow>
                if p \<notin> {None, Some 443} then v
                else case match_dayforce_board_path (url_path u) of
                  None \<Rightarrow> v
                | Some board \<Rightarrow> board_url board))"

section \<open>Canonical boards stay as they are\<close>

lemma matched_segments:
  assumes "match_dayforce_board_path path = Some (c, n, b)"
  shows "culture_segment c" "tenant_segment n" "tenant_segment b"
proof -
  have "culture_segment dayforce_default_culture" by code_simp
  then show "culture_segment c" "tenant_segment n" "tenant_segment b"
    using assms unfolding match_dayforce_board_path_def dayforce_board_path_def dayforce_board_path_no_culture_def
    by (auto split: option.split_asm list.split_asm if_split_asm)
qed

lemma tenant_chars: "tenant_segment s \<Longrightarrow> s \<noteq> [] \<and> list_all board_char s"
  by (simp add: tenant_segment_def)

lemma culture_chars:
  assumes "culture_segment s"
  shows "s \<noteq> [] \<and> list_all board_char s"
proof -
  obtain lang dash region where p: "partition (CHR ''-'') s = (lang, dash, region)" by (metis prod_cases3)
  have "list_all is_alpha_ascii lang" "length lang \<in> {2, 3}" "dash \<Longrightarrow> list_all is_alpha_ascii region"
    using assms by (auto simp: culture_segment_def p)
  moreover have "s = (if dash then lang @ CHR ''-'' # region else lang)"
    using p partition_append [of "CHR ''-''" s lang region] by (auto simp: partition_def split: if_split_asm)
  ultimately show ?thesis by (auto simp: list_all_iff board_char_def)
qed

lemma board_char_slash: "list_all board_char s \<Longrightarrow> CHR ''/'' \<notin> set s"
  by (auto simp: list_all_iff board_char_def is_alpha_ascii_def is_digit_def code_def)

lemma split_board:
  assumes "list_all board_char c" "list_all board_char n" "list_all board_char b"
  shows "split_on (CHR ''/'') (CHR ''/'' # c @ CHR ''/'' # n @ CHR ''/'' # b) = [[], c, n, b]"
proof -
  have "CHR ''/'' \<notin> set w" if "w \<in> set [[], c, n, b]" for w
    using that assms board_char_slash by auto
  then show ?thesis using split_on_join [of "[[], c, n, b]" "CHR ''/''"] by simp
qed

lemma board_url_eq: "board_url (c, n, b) = ''https://'' @ dayforce_host @ CHR ''/'' # c @ CHR ''/'' # n @ CHR ''/'' # b"
  by (simp add: board_url_def urlunsplit_def dayforce_host_def)

lemma match_board:
  assumes "culture_segment c" "tenant_segment n" "tenant_segment b"
  shows "match_dayforce_board_path (CHR ''/'' # c @ CHR ''/'' # n @ CHR ''/'' # b) = Some (c, n, b)"
  using assms split_board [of c n b] tenant_chars culture_chars
  by (simp add: match_dayforce_board_path_def dayforce_board_path_def board_segments_def job_tail_def)

lemma board_path_chars:
  assumes "list_all board_char c" "list_all board_char n" "list_all board_char b"
  shows "x \<in> set (CHR ''/'' # c @ CHR ''/'' # n @ CHR ''/'' # b) \<Longrightarrow>
    code x \<noteq> 9 \<and> code x \<noteq> 10 \<and> code x \<noteq> 13 \<and> x \<noteq> CHR ''#'' \<and> x \<noteq> CHR ''?'' \<and> \<not> is_space x"
  using assms by (auto simp: list_all_iff board_char_def is_alpha_ascii_def is_digit_def is_space_def Let_def code_def)

lemma urlsplit_board:
  assumes "list_all board_char c" "list_all board_char n" "list_all board_char b"
  shows "urlsplit (board_url (c, n, b)) =
    Some \<lparr>url_scheme = ''https'', url_netloc = dayforce_host,
       url_path = CHR ''/'' # c @ CHR ''/'' # n @ CHR ''/'' # b, url_query = [], url_fragment = []\<rparr>"
proof -
  define p where "p = CHR ''/'' # c @ CHR ''/'' # n @ CHR ''/'' # b"
  have chars: "code x \<noteq> 9 \<and> code x \<noteq> 10 \<and> code x \<noteq> 13 \<and> x \<noteq> CHR ''#'' \<and> x \<noteq> CHR ''?''" if "x \<in> set p" for x
    using board_path_chars [OF assms] that by (simp add: p_def)
  have keep: "filter (\<lambda>c. code c \<noteq> 9 \<and> code c \<noteq> 10 \<and> code c \<noteq> 13) p = p"
    using chars by (simp add: filter_id_conv)
  have absent: "CHR ''#'' \<notin> set p" "CHR ''?'' \<notin> set p" using chars by blast+
  obtain q where q: "p = CHR ''/'' # q" by (simp add: p_def)
  have url: "board_url (c, n, b) = ''https:'' @ ''//jobs.dayforcehcm.com'' @ p"
    by (simp add: board_url_def urlunsplit_def dayforce_host_def p_def [symmetric] q)
  have scheme: "split_scheme (''https:'' @ s) = (''https'', s)" for s
  proof -
    have "partition (CHR '':'') (''https'' @ CHR '':'' # s) = (''https'', True, s)"
      by (rule partition_first) simp
    moreover have "str_lower ''https'' = ''https''" "list_all scheme_char ''https''" "is_alpha_ascii (hd ''https'')"
      by code_simp+
    ultimately show ?thesis by (simp add: split_scheme_def)
  qed
  have front: "filter (\<lambda>c. code c \<noteq> 9 \<and> code c \<noteq> 10 \<and> code c \<noteq> 13) (dropWhile c0_or_space (''https:'' @ ''//jobs.dayforcehcm.com'' @ p))
    = ''https:'' @ ''//jobs.dayforcehcm.com'' @ p"
    using keep by (simp add: c0_or_space_def code_def)
  have host: "takeWhile (\<lambda>c. c \<notin> set ''/?#'') (''jobs.dayforcehcm.com'' @ p) = dayforce_host"
    "dropWhile (\<lambda>c. c \<notin> set ''/?#'') (''jobs.dayforcehcm.com'' @ p) = p"
    by (simp_all add: q dayforce_host_def)
  have "check_brackets dayforce_host" by code_simp
  then show ?thesis
    unfolding url urlsplit_def Let_def front scheme
    using host absent by (simp add: partition_absent p_def [symmetric])
qed

lemma canonical_board_url:
  assumes "culture_segment c" "tenant_segment n" "tenant_segment b"
  shows "canonical_job_board_url (board_url (c, n, b)) = Some (board_url (c, n, b))"
proof -
  note chars = culture_chars [OF assms(1)] tenant_chars [OF assms(2)] tenant_chars [OF assms(3)]
  let ?u = "\<lparr>url_scheme = ''https'', url_netloc = dayforce_host,
       url_path = CHR ''/'' # c @ CHR ''/'' # n @ CHR ''/'' # b, url_query = [], url_fragment = []\<rparr>"
  have "list_all (\<lambda>x. \<not> is_space x) (''https://'' @ dayforce_host)" by code_simp
  moreover have "list_all (\<lambda>x. \<not> is_space x) (CHR ''/'' # c @ CHR ''/'' # n @ CHR ''/'' # b)"
    unfolding list_all_iff using board_path_chars [of c n b] chars by blast
  ultimately have "list_all (\<lambda>x. \<not> is_space x) (board_url (c, n, b))"
    by (simp only: board_url_eq list_all_append append_assoc [symmetric])
  then have "\<not> is_space x" if "x \<in> set (board_url (c, n, b))" for x using that unfolding list_all_iff by blast
  then have strip: "strip (board_url (c, n, b)) = board_url (c, n, b)" by (rule strip_id)
  have split: "urlsplit (board_url (c, n, b)) = Some ?u" by (rule urlsplit_board) (use chars in blast)+
  have info: "url_host ?u = dayforce_host" "url_username ?u = None" "url_password ?u = None" "url_port ?u = Some None"
    by (simp_all add: url_host_def url_hostname_def url_username_def url_password_def url_port_def url_hostinfo_def) code_simp+
  have "str_lower ''https'' = ''https''" by code_simp
  then show ?thesis using match_board [OF assms] info
    by (simp add: canonical_job_board_url_def strip split)
qed

lemma canonical_result:
  "canonical_job_board_url url = Some v \<Longrightarrow> v = strip url \<or>
     (\<exists>c n b. culture_segment c \<and> tenant_segment n \<and> tenant_segment b \<and> v = board_url (c, n, b))"
  unfolding canonical_job_board_url_def Let_def
  using matched_segments by (auto split: option.split_asm if_split_asm; blast)

lemma canonical_strip: "canonical_job_board_url (strip url) = canonical_job_board_url url"
  by (simp add: canonical_job_board_url_def)

text \<open>The canonical form of a job board is stable: bringing a URL into it a second time changes nothing, and
  what comes out is either the URL as it was, without the white space around it, or the root of a Dayforce tenant.
  It raises only for a text that cannot be split as a URL.\<close>

theorem canonical_boards_are_stable:
  "case canonical_job_board_url url of
     None \<Rightarrow> urlsplit (strip url) = None
   | Some v \<Rightarrow> canonical_job_board_url v = Some v
       \<and> (v = strip url \<or> (\<exists>c n b. culture_segment c \<and> tenant_segment n \<and> tenant_segment b \<and> v = board_url (c, n, b)))"
proof (cases "canonical_job_board_url url")
  case None
  then show ?thesis by (simp add: canonical_job_board_url_def Let_def split: option.split_asm)
next
  case (Some v)
  then show ?thesis using canonical_result [OF Some] canonical_board_url canonical_strip [of url] by auto
qed

end
