(* ===== verification/Py_Regex.thy ===== *)
theory Py_Regex
  imports Prelude
begin

text \<open>
  The part of Python's \<open>re\<close> that the modelled code uses: a backtracking matcher that yields the ends of all
  matches in the order in which they are tried, so that the first is the match Python finds; search and
  \<open>finditer\<close> over it.
\<close>

section \<open>Expressions\<close>

text \<open>\<open>Rep greedy lo hi r\<close> stands for \<open>r{lo,hi}\<close>, its lazy form when not greedy; \<open>Edge\<close> for \<open>\b\<close>;
  \<open>Not_Behind\<close> for a negative look-behind of one character; \<open>Begin\<close> for \<open>^\<close>, and \<open>Dollar\<close> for \<open>$\<close>, which also
  matches before a newline that ends the text.\<close>

datatype re =
    Skip
  | Sat "char \<Rightarrow> bool"
  | Seq re re
  | Alt re re
  | Rep bool nat "nat option" re
  | Group nat re
  | Edge
  | Not_Behind "char \<Rightarrow> bool"
  | Begin
  | Dollar

text \<open>A position and the groups captured so far, the latest first.\<close>

type_synonym re_state = "nat \<times> (nat \<times> nat \<times> nat) list"

definition word_ch :: "char \<Rightarrow> bool" where
  "word_ch c \<longleftrightarrow> is_alnum c \<or> c = CHR ''_''"

definition word_at :: "string \<Rightarrow> nat \<Rightarrow> bool" where
  "word_at s i \<longleftrightarrow> i < length s \<and> word_ch (s ! i)"

definition edge_at :: "string \<Rightarrow> nat \<Rightarrow> bool" where
  "edge_at s i \<longleftrightarrow> (0 < i \<and> word_at s (i - 1)) \<noteq> word_at s i"

text \<open>At least \<open>lo\<close> and at most \<open>n\<close> rounds; beyond the first \<open>lo\<close> a round has to move on.\<close>

fun rounds :: "(re_state \<Rightarrow> re_state list) \<Rightarrow> bool \<Rightarrow> nat \<Rightarrow> nat \<Rightarrow> re_state \<Rightarrow> re_state list" where
  "rounds once greedy lo 0 st = (if lo = 0 then [st] else [])"
| "rounds once greedy lo (Suc n) st =
     (let further = concat (map (\<lambda>st'. if lo = 0 \<and> fst st' = fst st then [] else rounds once greedy (lo - 1) n st')
        (once st))
      in if 0 < lo then further else if greedy then further @ [st] else st # further)"

primrec ends :: "re \<Rightarrow> string \<Rightarrow> re_state \<Rightarrow> re_state list" where
  "ends Skip s st = [st]"
| "ends (Sat p) s st = (if fst st < length s \<and> p (s ! fst st) then [(Suc (fst st), snd st)] else [])"
| "ends (Seq r1 r2) s st = concat (map (ends r2 s) (ends r1 s st))"
| "ends (Alt r1 r2) s st = ends r1 s st @ ends r2 s st"
| "ends (Rep greedy lo hi r) s st =
     rounds (ends r s) greedy lo (case hi of Some n \<Rightarrow> n | None \<Rightarrow> lo + (length s - fst st)) st"
| "ends (Group k r) s st = map (\<lambda>(j, gs). (j, (k, fst st, j) # gs)) (ends r s st)"
| "ends Edge s st = (if edge_at s (fst st) then [st] else [])"
| "ends (Not_Behind p) s st = (if 0 < fst st \<and> p (s ! (fst st - 1)) then [] else [st])"
| "ends Begin s st = (if fst st = 0 then [st] else [])"
| "ends Dollar s st = (if drop (fst st) s \<in> {[], [CHR 0x0A]} then [st] else [])"

section \<open>Matching and searching\<close>

definition match_at :: "re \<Rightarrow> string \<Rightarrow> nat \<Rightarrow> re_state option" where
  "match_at r s i = (case ends r s (i, []) of [] \<Rightarrow> None | st # _ \<Rightarrow> Some st)"

text \<open>The first start from \<open>i\<close> on that matches, with the end and the groups.\<close>

definition search_from :: "re \<Rightarrow> string \<Rightarrow> nat \<Rightarrow> (nat \<times> re_state) option" where
  "search_from r s i =
     (case find (\<lambda>k. match_at r s k \<noteq> None) [i..<Suc (length s)] of
        None \<Rightarrow> None
      | Some k \<Rightarrow> map_option (\<lambda>st. (k, st)) (match_at r s k))"

definition finds :: "re \<Rightarrow> string \<Rightarrow> bool" where
  "finds r s \<longleftrightarrow> search_from r s 0 \<noteq> None"

definition slice :: "string \<Rightarrow> nat \<Rightarrow> nat \<Rightarrow> string" where
  "slice s i j = take (j - i) (drop i s)"

definition group_of :: "string \<Rightarrow> (nat \<times> nat \<times> nat) list \<Rightarrow> nat \<Rightarrow> string option" where
  "group_of s gs k = map_option (\<lambda>(i, j). slice s i j) (map_of gs k)"

section \<open>Positions\<close>

lemma rounds_mono:
  assumes once: "\<And>st st'. st' \<in> set (once st) \<Longrightarrow> fst st \<le> fst st' \<and> (fst st \<le> n \<longrightarrow> fst st' \<le> n)"
  shows "st' \<in> set (rounds once greedy lo k st) \<Longrightarrow> fst st \<le> fst st' \<and> (fst st \<le> n \<longrightarrow> fst st' \<le> n)"
proof (induction k arbitrary: lo st st')
  case (Suc k)
  show ?case
  proof (cases "st' = st")
    case False
    then obtain mid where "mid \<in> set (once st)" "st' \<in> set (rounds once greedy (lo - 1) k mid)"
      using Suc.prems by (auto simp: Let_def split: if_split_asm)
    then show ?thesis using Suc.IH [of st' "lo - 1" mid] once [of mid st] by linarith
  qed simp
qed (simp split: if_split_asm)

lemma ends_mono: "st' \<in> set (ends r s st) \<Longrightarrow> fst st \<le> fst st' \<and> (fst st \<le> length s \<longrightarrow> fst st' \<le> length s)"
proof (induction r arbitrary: st st')
  case (Seq r1 r2)
  then obtain mid where "mid \<in> set (ends r1 s st)" "st' \<in> set (ends r2 s mid)" by auto
  then show ?case using Seq.IH(1) [of mid st] Seq.IH(2) [of st' mid] by linarith
next
  case (Rep greedy lo hi r)
  have once: "fst st1 \<le> fst st2 \<and> (fst st1 \<le> length s \<longrightarrow> fst st2 \<le> length s)" if "st2 \<in> set (ends r s st1)" for st1 st2
    using Rep.IH that .
  define b where "b = (case hi of Some n \<Rightarrow> n | None \<Rightarrow> lo + (length s - fst st))"
  have "st' \<in> set (rounds (ends r s) greedy lo b st)" using Rep.prems by (simp add: b_def)
  then show ?case using rounds_mono [of "ends r s" "length s" st' greedy lo b st] once by blast
next
  case (Group k r)
  then obtain st1 where "st1 \<in> set (ends r s st)" "fst st' = fst st1" by auto
  then show ?case using Group.IH [of st1 st] by simp
qed (auto split: if_split_asm)

lemma match_at_bounds: "match_at r s i = Some (j, gs) \<Longrightarrow> i \<le> j \<and> (i \<le> length s \<longrightarrow> j \<le> length s)"
  using ends_mono [of "(j, gs)" r s "(i, [])"] by (auto simp: match_at_def split: list.split_asm)

lemma search_bounds:
  assumes "search_from r s i = Some (k, j, gs)"
  shows "i \<le> k" "k \<le> j" "j \<le> length s" "match_at r s k = Some (j, gs)"
proof -
  have "\<exists>k. find (\<lambda>k. match_at r s k \<noteq> None) [i..<Suc (length s)] = Some k"
    using assms unfolding search_from_def by (auto simp del: upt_Suc split: option.split_asm)
  then obtain k' where k': "find (\<lambda>k. match_at r s k \<noteq> None) [i..<Suc (length s)] = Some k'" ..
  then have "k' \<in> set [i..<Suc (length s)]" unfolding find_Some_iff by (metis nth_mem)
  moreover have "k = k'" "match_at r s k = Some (j, gs)"
    using assms k' unfolding search_from_def by (auto simp del: upt_Suc)
  ultimately show "i \<le> k" "k \<le> j" "j \<le> length s" "match_at r s k = Some (j, gs)"
    using match_at_bounds [of r s k j gs] by auto
qed

text \<open>\<open>finditer\<close>, for expressions that never match the empty text.\<close>

function find_all :: "re \<Rightarrow> string \<Rightarrow> nat \<Rightarrow> (nat \<times> re_state) list" where
  "find_all r s i =
     (if length s < i then []
      else case search_from r s i of
        None \<Rightarrow> []
      | Some (k, j, gs) \<Rightarrow> (k, j, gs) # find_all r s (if j = k then Suc j else j))"
  by pat_completeness auto
termination
proof (relation "measure (\<lambda>(r, s, i). Suc (length s) - i)")
  fix r s i x k y j gs
  assume *: "\<not> length s < i" "search_from r s i = Some x" "(k, y) = x" "(j, gs) = y"
  then have "search_from r s i = Some (k, j, gs)" by simp
  then have "i \<le> k" "k \<le> j" by (rule search_bounds)+
  then show "((r, s, if j = k then Suc j else j), r, s, i) \<in> measure (\<lambda>(r, s, i). Suc (length s) - i)"
    using *(1) by auto
qed simp

declare find_all.simps [simp del]

lemma find_all_bounds: "(k, j, gs) \<in> set (find_all r s i) \<Longrightarrow> i \<le> k \<and> k \<le> j \<and> j \<le> length s"
proof (induction r s i rule: find_all.induct)
  case (1 r s i)
  have "\<not> length s < i" "search_from r s i \<noteq> None"
    using 1(2) by (cases "search_from r s i"; simp add: find_all.simps [of r s i] split: if_split_asm)+
  then obtain k' j' gs' where here: "search_from r s i = Some (k', j', gs')"
    by (cases "search_from r s i") (simp, metis prod_cases3)
  have "(k, j, gs) = (k', j', gs') \<or> (k, j, gs) \<in> set (find_all r s (if j' = k' then Suc j' else j'))"
    using 1(2) \<open>\<not> length s < i\<close> by (simp add: find_all.simps [of r s i] here)
  then show ?case
    using 1(1) [OF \<open>\<not> length s < i\<close> here refl refl] search_bounds(1-3) [OF here]
    by (auto split: if_split_asm)
qed

section \<open>Building expressions\<close>

text \<open>A literal text, exactly and without regard to case.\<close>

definition lit :: "string \<Rightarrow> re" where
  "lit w = foldr (\<lambda>c r. Seq (Sat (\<lambda>x. x = c)) r) w Skip"

definition ilit :: "string \<Rightarrow> re" where
  "ilit w = foldr (\<lambda>c r. Seq (Sat (\<lambda>x. lower_char x = lower_char c)) r) w Skip"

fun any_of :: "re list \<Rightarrow> re" where
  "any_of [] = Sat (\<lambda>_. False)"
| "any_of [r] = r"
| "any_of (r # r' # rs) = Alt r (any_of (r' # rs))"

fun seq :: "re list \<Rightarrow> re" where
  "seq [] = Skip"
| "seq [r] = r"
| "seq (r # r' # rs) = Seq r (seq (r' # rs))"

definition maybe :: "re \<Rightarrow> re" where "maybe r = Rep True 0 (Some 1) r"
definition many :: "re \<Rightarrow> re" where "many r = Rep True 0 None r"
definition many1 :: "re \<Rightarrow> re" where "many1 r = Rep True 1 None r"
definition space_re :: re where "space_re = Sat is_space"
definition digit_re :: re where "digit_re = Sat is_digit"

text \<open>Some searches, as Python answers them.\<close>

lemma search_examples:
  "search_from (seq [Edge, ilit ''pay'', Edge]) ''Sick pay, no payroll'' 0 = Some (5, 8, [])"
  "search_from (seq [Group 1 (many1 digit_re), Rep False 0 (Some 3) space_re, Group 2 (maybe (ilit ''k''))]) ''about 45 k'' 0
    = Some (6, 8, [(2, 8, 8), (1, 6, 8)])"
  "map fst (find_all (seq [Not_Behind is_digit, lit ''1'']) ''1 21 1'' 0) = [0, 5]"
  by code_simp+

end
