(* ===== verification/Pay_Info.thy ===== *)
theory Pay_Info
  imports Py_Regex Py_Stdlib
begin

text \<open>
  What a posting says of pay and rank (\<^verbatim>\<open>src/job_enrichment.py\<close>): the pay patterns, the numbers, the period and the
  currency read from a match, the check that refuses numbers that merely occur near pay language, and the
  classification of a title. Numbers go through Python's floats, modelled exactly; a number beyond the floats makes
  \<open>int(round(...))\<close> raise, which is \<^const>\<open>None\<close> here. Characters beyond code point 255 (the long dashes, the euro
  sign) do not occur in the model's strings, so the branches of the patterns for them are left out.
\<close>

section \<open>Floats\<close>

text \<open>The number of binary digits.\<close>

fun bit_count :: "nat \<Rightarrow> nat" where
  "bit_count n = (if n = 0 then 0 else Suc (bit_count (n div 2)))"

declare bit_count.simps [simp del]

text \<open>The float nearest to a rational that is zero or at least 1/128; \<^const>\<open>None\<close> stands for infinity. The exponent
  comes from the integer part of 128 times the number.\<close>

definition float_ulp :: "rat \<Rightarrow> rat" where
  "float_ulp x = (let b = bit_count (nat \<lfloor>128 * x\<rfloor>) in if 60 \<le> b then 2 ^ (b - 60) else 1 / 2 ^ (60 - b))"

definition float_limit :: rat where "float_limit = 2 ^ 1024"

definition float_of :: "rat \<Rightarrow> rat option" where
  "float_of x =
     (if x = 0 then Some 0
      else let y = of_int (py_round (x / float_ulp x)) * float_ulp x
        in if float_limit \<le> y then None else Some y)"

lemma bit_count_1: "bit_count (Suc 0) = 1"
  by (simp add: bit_count.simps [of "Suc 0"] bit_count.simps [of 0])

lemma bit_count_bounds: "0 < n \<Longrightarrow> 2 ^ (bit_count n - 1) \<le> n \<and> n < 2 ^ bit_count n \<and> 0 < bit_count n"
proof (induction n rule: bit_count.induct)
  case (1 n)
  show ?case
  proof (cases "n div 2 = 0")
    case True
    then have "n = 1" using 1(2) by simp
    then show ?thesis by (simp add: bit_count_1)
  next
    case False
    define k where "k = bit_count (n div 2)"
    have ih: "2 ^ (k - 1) \<le> n div 2" "n div 2 < 2 ^ k" "0 < k" using 1(1) [OF _ ] 1(2) False by (auto simp: k_def)
    then obtain j where "k = Suc j" using gr0_conv_Suc by blast
    then show ?thesis using ih 1(2) by (simp add: bit_count.simps [of n] k_def [symmetric]; linarith)
  qed
qed

text \<open>Whole numbers of up to 53 bits are floats.\<close>

lemma float_of_nat:
  assumes "n < 2 ^ 53"
  shows "float_of (of_nat n) = Some (of_nat n)"
proof (cases "n = 0")
  case False
  define b where "b = bit_count (128 * n)"
  have "nat \<lfloor>128 * (of_nat n :: rat)\<rfloor> = 128 * n"
    by (metis floor_of_nat nat_int of_nat_mult of_nat_numeral)
  then have ulp: "float_ulp (of_nat n) = (if 60 \<le> b then 2 ^ (b - 60) else 1 / 2 ^ (60 - b))"
    by (simp add: float_ulp_def b_def Let_def)
  have "2 ^ (b - 1) \<le> 128 * n" "0 < b" using bit_count_bounds [of "128 * n"] False by (auto simp: b_def)
  moreover have "128 * n < (2::nat) ^ 60" using assms by simp
  ultimately have "(2::nat) ^ (b - 1) < 2 ^ 60" by linarith
  then have "b \<le> 60" using power_strict_increasing_iff [of "2::nat" "b - 1" 60] \<open>0 < b\<close> by simp
  define m where "m = 60 - b"
  have u: "float_ulp (of_nat n) = 1 / 2 ^ m"
    using \<open>b \<le> 60\<close> by (simp add: ulp m_def)
  have "of_nat n / float_ulp (of_nat n) = (of_int (int n * 2 ^ m) :: rat)" by (simp add: u)
  then have whole: "py_round (of_nat n / float_ulp (of_nat n)) = int n * 2 ^ m" by (metis py_round_of_int)
  have scaled: "of_int (int n * 2 ^ m) * float_ulp (of_nat n) = (of_nat n :: rat)" by (simp add: u)
  have "\<not> float_limit \<le> of_nat n"
  proof -
    have "(2::nat) ^ 53 \<le> 2 ^ 1024" by (rule power_increasing) simp_all
    then have "n < 2 ^ 1024" using assms by (rule less_le_trans [rotated])
    then have "(of_nat n :: rat) < of_nat (2 ^ 1024)" by (simp only: of_nat_less_iff)
    then show ?thesis by (simp only: float_limit_def of_nat_power of_nat_numeral not_le)
  qed
  then show ?thesis using False unfolding float_of_def Let_def whole scaled by simp
qed (simp add: float_of_def)

section \<open>Patterns\<close>

definition currency_marker :: re where
  "currency_marker = any_of [ilit ''US$'', ilit ''CA$'', lit ''$'', Sat (\<lambda>c. code c = 163),
     ilit ''USD'', ilit ''CAD'', ilit ''GBP'', ilit ''EUR'']"

definition decimals_re :: re where
  "decimals_re = maybe (Seq (lit ''.'') (Rep True 1 (Some 2) digit_re))"

definition amount_re :: re where
  "amount_re = seq [digit_re, many (Sat (\<lambda>c. is_digit c \<or> c = CHR '','')), decimals_re]"

definition pay_number :: re where
  "pay_number = seq [amount_re, many space_re, maybe (ilit ''k'')]"

definition currency_word :: re where
  "currency_word = any_of (map ilit [''usd'', ''cad'', ''gbp'', ''eur'', ''dollars'', ''dollar''])"

text \<open>What may follow the first amount: an upper end of the range, and a period.\<close>

definition pay_range_end :: re where
  "pay_range_end = maybe (seq [many space_re, any_of [lit ''-'', ilit ''to''], many space_re,
     maybe (Seq currency_marker (many space_re)), pay_number, maybe (Seq (many space_re) currency_word)])"

definition pay_period_end :: re where
  "pay_period_end = maybe (seq [many space_re, maybe (any_of [lit ''/'', ilit ''per'']), many space_re,
     any_of (map ilit [''hour'', ''hr'', ''year'', ''yr'', ''annually'', ''annual'', ''month'', ''monthly'',
       ''week'', ''weekly''])])"

definition pay_context_pattern :: re where
  "pay_context_pattern = seq [Edge, any_of (map ilit [''pay range'', ''salary range'', ''compensation'',
       ''starting at'', ''up to'', ''salary'', ''pay'', ''wage'', ''hourly rate'', ''annual rate'']), Edge,
     Rep False 0 (Some 40) (Sat (\<lambda>c. c \<notin> {CHR ''.'', CHR '';'', CHR 0x0A, CHR 0x0D})),
     maybe (Seq currency_marker (many space_re)), pay_number, maybe (Seq (many space_re) currency_word),
     pay_range_end, pay_period_end]"

definition pay_pattern :: re where
  "pay_pattern = seq [
     any_of [seq [currency_marker, many space_re, pay_number],
       seq [pay_number, many space_re, any_of (map ilit [''USD'', ''CAD'', ''GBP'', ''EUR'', ''dollars'', ''dollar''])]],
     pay_range_end, pay_period_end]"

section \<open>Texts and numbers\<close>

text \<open>\<open>re.sub(r"\s+", " ", s)\<close>.\<close>

fun squeeze_from :: "bool \<Rightarrow> string \<Rightarrow> string" where
  "squeeze_from in_run [] = []"
| "squeeze_from in_run (c # cs) =
     (if is_space c then (if in_run then [] else [CHR '' '']) @ squeeze_from True cs
      else c # squeeze_from False cs)"

definition squeeze :: "string \<Rightarrow> string" where
  "squeeze s = squeeze_from False s"

definition clean_pay_text :: "string \<Rightarrow> string" where
  "clean_pay_text s = strip_chars '' .;,'' (squeeze s)"

text \<open>\<open>float(text)\<close> for digits with at most one point among them.\<close>

definition read_digits :: "string \<Rightarrow> nat" where
  "read_digits s = foldl (\<lambda>acc c. 10 * acc + (code c - 48)) 0 s"

definition decimal_value :: "string \<Rightarrow> rat" where
  "decimal_value s =
     (let whole = takeWhile (\<lambda>c. c \<noteq> CHR ''.'') s; rest = drop (Suc (length whole)) s
      in of_nat (read_digits whole) + of_nat (read_digits rest) / 10 ^ length rest)"

definition pay_number_re :: re where
  "pay_number_re = seq [Not_Behind (\<lambda>c. is_digit c \<or> c = CHR ''.''), maybe (lit ''$''), maybe space_re,
     Group 1 amount_re, many space_re, maybe (Group 2 (ilit ''k''))]"

text \<open>One match: the number in group 1, times a thousand when group 2 took part.\<close>

definition pay_value :: "string \<Rightarrow> nat \<times> re_state \<Rightarrow> int option" where
  "pay_value s = (\<lambda>(_, _, gs).
     Option.bind (group_of s gs 1) (\<lambda>number.
     Option.bind (float_of (decimal_value (filter (\<lambda>c. c \<noteq> CHR '','') number))) (\<lambda>x.
     Option.bind (if group_of s gs 2 = None then Some x else float_of (1000 * x)) (\<lambda>y.
     Some (py_round y)))))"

definition parse_pay_numbers :: "string \<Rightarrow> int list option" where
  "parse_pay_numbers s =
     Option.bind (those (map (pay_value s) (find_all pay_number_re s 0))) (\<lambda>values.
       Some (if 2 \<le> length values then [Min (set values), Max (set values)] else values))"

definition detect_pay_period :: "string \<Rightarrow> string option" where
  "detect_pay_period s =
     (let lowered = str_lower s in
      if \<exists>w \<in> set [''hour'', ''/hr'', '' hr'', ''per hr'']. contains w lowered then Some ''hourly''
      else if \<exists>w \<in> set [''annual'', ''annually'', ''year'', ''/yr'']. contains w lowered then Some ''annual''
      else if contains ''month'' lowered then Some ''monthly''
      else if contains ''week'' lowered then Some ''weekly''
      else Option.bind (parse_pay_numbers s) (\<lambda>numbers.
        Some (if numbers \<noteq> [] \<and> Max (set numbers) \<le> 300 then ''hourly''
          else if numbers \<noteq> [] \<and> 1000 \<le> Max (set numbers) then ''annual''
          else ''unknown'')))"

text \<open>\<open>str.upper\<close>, but for the three letters whose capitals are other or longer texts; they are in none of the words
  looked for.\<close>

definition upper_char :: "char \<Rightarrow> char" where
  "upper_char c = (let n = code c in
     if 97 \<le> n \<and> n \<le> 122 \<or> 224 \<le> n \<and> n \<le> 254 \<and> n \<noteq> 247 then char_of (n - 32) else c)"

definition detect_currency :: "string \<Rightarrow> string" where
  "detect_currency s =
     (let value = map upper_char s in
      if contains ''CAD'' value \<or> contains ''CA$'' value then ''CAD''
      else if contains ''GBP'' value \<or> contains [CHR 0xA3] value then ''GBP''
      else if contains ''EUR'' value then ''EUR''
      else ''USD'')"

definition plausible_pay_match :: "string \<Rightarrow> nat \<Rightarrow> string \<Rightarrow> int list \<Rightarrow> bool \<Rightarrow> bool option" where
  "plausible_pay_match source_text match_end pay_text numbers context_match =
     (let explicit_currency = finds currency_marker pay_text; maximum = Max (set numbers);
        following = take 24 (drop match_end source_text)
      in Option.bind (detect_pay_period pay_text) (\<lambda>period. Some (
        if \<not> explicit_currency
          \<and> match_at (seq [many space_re, lit ''('', many space_re, ilit ''k'', many space_re, lit '')'']) following 0 \<noteq> None
        then False
        else if \<not> explicit_currency \<and> finds (seq [Edge, lit ''401'', many space_re, ilit ''k'', Edge]) pay_text then False
        else if \<not> context_match then True
        else if period = ''annual'' \<and> maximum < 10000 then False
        else if period = ''monthly'' \<and> maximum < 500 then False
        else if period = ''weekly'' \<and> maximum < 100 then False
        else if period = ''hourly'' \<and> \<not> (5 \<le> maximum \<and> maximum \<le> 500) then False
        else if \<not> explicit_currency \<and> period = ''unknown'' \<and> maximum < 1000 then False
        else True)))"

record pay_info =
  pay_min :: "int option"
  pay_max :: "int option"
  pay_text :: string
  pay_period :: string
  pay_currency :: string
  pay_extraction_source :: string
  pay_pattern_matched :: string

definition no_pay :: pay_info where
  "no_pay = \<lparr>pay_min = None, pay_max = None, pay_text = [], pay_period = ''unknown'', pay_currency = ''USD'',
     pay_extraction_source = [], pay_pattern_matched = []\<rparr>"

text \<open>\<open>None\<close> when a number is beyond the floats.\<close>

definition extract_pay_info :: "string \<Rightarrow> pay_info option" where
  "extract_pay_info s =
     (let value = join '' '' (split_ws s) in
      if value = [] then Some no_pay
      else let context = search_from pay_context_pattern value 0;
          hit = (if context \<noteq> None then context else search_from pay_pattern value 0)
        in case hit of
          None \<Rightarrow> Some no_pay
        | Some (i, j, _) \<Rightarrow>
            let shown = clean_pay_text (slice value i j) in
            Option.bind (parse_pay_numbers shown) (\<lambda>numbers.
            if numbers = [] then Some no_pay
            else Option.bind (plausible_pay_match value j shown numbers (context \<noteq> None)) (\<lambda>plausible.
            if \<not> plausible then Some no_pay
            else Option.bind (detect_pay_period shown) (\<lambda>period.
            Some (no_pay\<lparr>pay_min := Some (hd numbers),
              pay_max := (if 1 < length numbers then Some (numbers ! 1) else None),
              pay_text := shown, pay_period := period, pay_currency := detect_currency shown,
              pay_pattern_matched := (if context \<noteq> None then ''context'' else ''currency'')\<rparr>)))))"

section \<open>Rank\<close>

text \<open>A pattern is kept with its source text, which the reason quotes.\<close>

type_synonym named_pattern = "string \<times> re"

definition edge_text :: string where "edge_text = [CHR 0x5C, CHR ''b'']"

definition whole_words :: "string \<Rightarrow> named_pattern" where
  "whole_words w = (edge_text @ w @ edge_text, seq [Edge, lit w, Edge])"

definition exec_title_patterns :: "named_pattern list" where
  "exec_title_patterns =
     [whole_words ''chief'',
      (edge_text @ ''c[- ]?level'' @ edge_text,
       seq [Edge, lit ''c'', maybe (Sat (\<lambda>c. c \<in> {CHR ''-'', CHR '' ''})), lit ''level'', Edge])]
     @ map whole_words [''executive vice president'', ''evp'', ''senior vice president'', ''svp'', ''vice president'',
         ''vp'', ''president'', ''cio'', ''cto'', ''ciso'', ''coo'', ''cfo'', ''ceo'']"

definition mgr_title_patterns :: "named_pattern list" where
  "mgr_title_patterns = map whole_words [''manager'', ''supervisor'', ''director'', ''head of'', ''team lead'',
     ''lead manager'', ''branch manager'', ''operations manager'', ''assistant manager'', ''department manager'']"

definition mgr_description_patterns :: "named_pattern list" where
  "mgr_description_patterns =
     map (\<lambda>w. (w, lit w)) [''manages a team'', ''supervises employees'', ''direct reports'', ''performance reviews'',
         ''coaching staff'']
     @ [(edge_text @ ''(?:hire|hiring),?'' @ [CHR 0x5C] @ ''s+(?:coach(?:ing)?|manage(?:ment)?|supervis(?:e|ing))'' @ edge_text,
         seq [Edge, any_of [lit ''hire'', lit ''hiring''], maybe (lit '',''), many1 space_re,
           any_of [seq [lit ''coach'', maybe (lit ''ing'')], seq [lit ''manage'', maybe (lit ''ment'')],
             seq [lit ''supervis'', any_of [lit ''e'', lit ''ing'']]], Edge]),
        (''leads department'', lit ''leads department''),
        (''responsible for (?:a )?team'', seq [lit ''responsible for '', maybe (lit ''a ''), lit ''team'']),
        (''oversees staff'', lit ''oversees staff''),
        (''people leader'', lit ''people leader'')]"

definition ic_title_words :: "string list" where
  "ic_title_words = [''specialist'', ''analyst'', ''engineer'', ''administrator'', ''consultant'', ''representative'',
     ''teller'', ''banker'', ''processor'', ''coordinator'', ''technician'', ''architect'', ''developer'', ''associate'',
     ''clerk'', ''advisor'', ''assistant'', ''officer'']"

definition first_pattern :: "named_pattern list \<Rightarrow> string \<Rightarrow> string option" where
  "first_pattern ps s = map_option fst (find (\<lambda>(_, r). finds r s) ps)"

definition title_words :: "string \<Rightarrow> string list" where
  "title_words s = remdups (map (\<lambda>(i, j, _). slice s i j)
     (find_all (many1 (Sat (\<lambda>c. is_az c \<or> is_digit c))) s 0))"

definition quoted :: "string \<Rightarrow> string \<Rightarrow> string" where
  "quoted before_it w = before_it @ [CHR 0x27] @ w @ [CHR 0x27] @ ''.''"

text \<open>The role type and the reason for it.\<close>

definition classify_role_type :: "string \<Rightarrow> string \<Rightarrow> string \<times> string" where
  "classify_role_type title description =
     (let t = str_lower title; d = str_lower description in
      if strip t = [] then (''UNKNOWN'', ''Title missing or unclear.'')
      else case first_pattern exec_title_patterns t of
        Some p \<Rightarrow> (''EXEC'', quoted ''Matched executive title pattern '' p)
      | None \<Rightarrow> (case first_pattern mgr_title_patterns t of
          Some p \<Rightarrow> (''MGR'', quoted ''Matched manager title pattern '' p)
        | None \<Rightarrow> (case first_pattern mgr_description_patterns d of
            Some p \<Rightarrow> (''MGR'', if contains ''lead'' t then quoted ''Lead title plus people-management signal '' p
              else quoted ''Matched people-management description signal '' p)
          | None \<Rightarrow>
              if set (title_words t) \<inter> set ic_title_words \<noteq> {}
              then (''IC'', ''Matched individual contributor title keyword.'')
              else if 2 \<le> length (title_words t)
              then (''IC'', ''No executive or people-management signals found.'')
              else (''UNKNOWN'', ''Not enough title signal to classify.''))))"

section \<open>What is shown of pay\<close>

definition single_spaced :: "string \<Rightarrow> bool" where
  "single_spaced s \<longleftrightarrow> (\<forall>c \<in> set s. is_space c \<longrightarrow> c = CHR '' '') \<and> successively (\<lambda>a b. \<not> (is_space a \<and> is_space b)) s"

lemma single_spaced_append: "single_spaced (s @ t) \<Longrightarrow> single_spaced s \<and> single_spaced t"
  by (auto simp: single_spaced_def successively_append_iff)

lemma single_spaced_slice: "single_spaced s \<Longrightarrow> single_spaced (slice s i j)"
  by (metis append_take_drop_id single_spaced_append slice_def)

lemma single_spaced_join:
  "(\<And>w. w \<in> set ws \<Longrightarrow> w \<noteq> [] \<and> (\<forall>c \<in> set w. \<not> is_space c)) \<Longrightarrow> single_spaced (join '' '' ws)"
proof (induction "'' ''" ws rule: join.induct)
  case (2 x)
  then show ?case
    by (auto simp: single_spaced_def intro!: successively_if_sorted_wrt sorted_wrt_mono_rel [OF _ sorted_wrt_true])
next
  case (3 x y ys)
  have word: "\<forall>c \<in> set x. \<not> is_space c" and rest: "single_spaced (join '' '' (y # ys))" using 3 by auto
  have first: "join '' '' (y # ys) \<noteq> [] \<and> \<not> is_space (hd (join '' '' (y # ys)))"
    using 3(2) [of y] by (cases ys; cases y) auto
  have "successively (\<lambda>a b. \<not> (is_space a \<and> is_space b)) x"
    using word by (induction x rule: induct_list012) auto
  then show ?case using word rest first 3(2) [of x]
    by (auto simp: single_spaced_def successively_append_iff successively_Cons last_in_set)
qed (simp add: single_spaced_def)

lemma squeeze_from_single_spaced:
  "single_spaced s \<Longrightarrow> (in_run \<Longrightarrow> s \<noteq> [] \<Longrightarrow> \<not> is_space (hd s)) \<Longrightarrow> squeeze_from in_run s = s"
proof (induction s arbitrary: in_run)
  case (Cons c s)
  have "single_spaced s" using Cons.prems(1) single_spaced_append [of "[c]" s] by simp
  moreover have "is_space c \<Longrightarrow> s \<noteq> [] \<Longrightarrow> \<not> is_space (hd s)"
    using Cons.prems(1) by (auto simp: single_spaced_def successively_Cons)
  ultimately have "squeeze_from (is_space c) s = s" using Cons.IH by blast
  then show ?case using Cons.prems by (auto simp: single_spaced_def)
qed simp

lemma sublist_strip_chars: "sublist (strip_chars cs s) s"
proof -
  define t where "t = dropWhile (\<lambda>c. c \<in> set cs) s"
  have "suffix (dropWhile (\<lambda>c. c \<in> set cs) (rev t)) (rev t)" by (rule suffix_dropWhile)
  then have "prefix (strip_chars cs s) t" by (simp add: strip_chars_def t_def suffix_to_prefix)
  moreover have "suffix t s" unfolding t_def by (rule suffix_dropWhile)
  ultimately show ?thesis by (meson prefix_imp_sublist sublist_order.order.trans suffix_imp_sublist)
qed

lemma sublist_slice: "sublist (slice s i j) s"
  by (metis prefix_imp_sublist slice_def sublist_drop sublist_order.order.trans take_is_prefix)

lemma clean_slice: "sublist (clean_pay_text (slice (join '' '' (split_ws s)) i j)) (join '' '' (split_ws s))"
proof -
  have "single_spaced (slice (join '' '' (split_ws s)) i j)"
    by (intro single_spaced_slice single_spaced_join split_ws_words)
  then have "squeeze (slice (join '' '' (split_ws s)) i j) = slice (join '' '' (split_ws s)) i j"
    by (simp add: squeeze_def squeeze_from_single_spaced)
  then show ?thesis
    by (metis clean_pay_text_def sublist_order.order.trans sublist_slice sublist_strip_chars)
qed

lemma float_of_nonneg: "float_of x = Some y \<Longrightarrow> 0 \<le> x \<Longrightarrow> 0 \<le> y"
  using of_int_le_py_round [of 0 "x / float_ulp x"]
  by (auto simp: float_of_def float_ulp_def Let_def split: if_split_asm)

lemma decimal_value_nonneg: "0 \<le> decimal_value s"
  by (simp add: decimal_value_def Let_def)

lemma pay_value_nonneg: "pay_value s m = Some n \<Longrightarrow> 0 \<le> n"
  by (auto simp: pay_value_def bind_eq_Some_conv split: prod.split_asm if_split_asm
      intro!: of_int_le_py_round [of 0, simplified] dest!: float_of_nonneg intro: decimal_value_nonneg)

lemma those_set: "those xs = Some ys \<Longrightarrow> y \<in> set ys \<Longrightarrow> Some y \<in> set xs"
  by (induction xs arbitrary: ys) (auto split: option.split_asm)

lemma pay_numbers:
  assumes "parse_pay_numbers s = Some ns"
  shows "\<forall>n \<in> set ns. 0 \<le> n" "sorted ns" "length ns \<le> 2"
proof -
  obtain vs where vs: "those (map (pay_value s) (find_all pay_number_re s 0)) = Some vs"
      "ns = (if 2 \<le> length vs then [Min (set vs), Max (set vs)] else vs)"
    using assms by (auto simp: parse_pay_numbers_def bind_eq_Some_conv)
  have pos: "\<forall>v \<in> set vs. 0 \<le> v"
    using those_set [OF vs(1)] pay_value_nonneg by fastforce
  show "length ns \<le> 2" using vs(2) by simp
  show "sorted ns" using vs(2) by (cases vs rule: remdups_adj.cases) auto
  show "\<forall>n \<in> set ns. 0 \<le> n"
    using pos vs(2) by (cases "vs = []") (auto simp: Min_ge_iff intro: Max_ge [THEN order_trans [rotated]])
qed

lemma no_numbers_in_nothing: "parse_pay_numbers [] = Some []"
  by code_simp

definition pay_top :: "pay_info \<Rightarrow> int" where
  "pay_top p = (case pay_max p of Some m \<Rightarrow> m | None \<Rightarrow> case pay_min p of Some m \<Rightarrow> m | None \<Rightarrow> 0)"

lemma extract_cases:
  assumes "extract_pay_info s = Some p" "p \<noteq> no_pay"
  obtains i j numbers period in_context where
    "parse_pay_numbers (clean_pay_text (slice (join '' '' (split_ws s)) i j)) = Some numbers" "numbers \<noteq> []"
    "plausible_pay_match (join '' '' (split_ws s)) j (clean_pay_text (slice (join '' '' (split_ws s)) i j)) numbers in_context
       = Some True"
    "detect_pay_period (clean_pay_text (slice (join '' '' (split_ws s)) i j)) = Some period"
    "p = no_pay\<lparr>pay_min := Some (hd numbers), pay_max := (if 1 < length numbers then Some (numbers ! 1) else None),
       pay_text := clean_pay_text (slice (join '' '' (split_ws s)) i j), pay_period := period,
       pay_currency := detect_currency (clean_pay_text (slice (join '' '' (split_ws s)) i j)),
       pay_pattern_matched := (if in_context then ''context'' else ''currency'')\<rparr>"
  using assms unfolding extract_pay_info_def Let_def
  by (auto simp: bind_eq_Some_conv split: if_split_asm option.split_asm prod.split_asm)

lemma plausible_context:
  assumes "plausible_pay_match v j shown numbers True = Some True" "detect_pay_period shown = Some period"
  shows "if period = ''annual'' then 10000 \<le> Max (set numbers)
    else if period = ''monthly'' then 500 \<le> Max (set numbers)
    else if period = ''weekly'' then 100 \<le> Max (set numbers)
    else if period = ''hourly'' then 5 \<le> Max (set numbers) \<and> Max (set numbers) \<le> 500
    else True"
  using assms unfolding plausible_pay_match_def Let_def by (auto simp: not_less split: if_split_asm)

lemma pay_top_numbers:
  assumes "sorted ns" "ns \<noteq> []" "length ns \<le> 2"
  shows "(case if 1 < length ns then Some (ns ! 1) else None of Some m \<Rightarrow> m | None \<Rightarrow> hd ns) = Max (set ns)"
    "hd ns \<le> Max (set ns)"
  using assms by (cases ns rule: remdups_adj.cases; auto simp: max_def)+


end
