(* ===== verification/Collector_Base.thy ===== *)
theory Collector_Base
  imports Job_Platforms Pay_Info
begin

text \<open>
  What all collectors of job boards share (\<^verbatim>\<open>src/collectors/base.py\<close>): the page a company's jobs are read from, the
  counters and samples a collector keeps, and the choice of a collector for a company. A company is a row of the
  company table, its cells as texts.
\<close>

section \<open>Company rows\<close>

type_synonym row = "(string \<times> string) list"

text \<open>\<open>str(company.get(column) or "")\<close>.\<close>

definition cell :: "row \<Rightarrow> string \<Rightarrow> string" where
  "cell company column = (case map_of company column of Some v \<Rightarrow> v | None \<Rightarrow> [])"

definition source_url :: "row \<Rightarrow> string \<times> string" where
  "source_url company =
     (let board = strip (cell company ''Job Board URL'') in
      if board \<noteq> [] then (board, ''Job Board URL'')
      else let rss = strip (cell company ''Jobs RSS Feed URL'');
          feed_found = str_lower (strip (cell company ''Feed Found'')) \<in> set [''true'', ''yes'', ''1'']
        in if rss \<noteq> [] \<and> feed_found then (rss, ''RSS Feed'') else ([], ''None''))"

section \<open>Texts made into identifiers\<close>

text \<open>\<open>s.replace("--", "-")\<close>, and the loop that repeats it while there are two dashes in a row.\<close>

fun halve_dashes :: "string \<Rightarrow> string" where
  "halve_dashes (a # b # cs) =
     (if a = CHR ''-'' \<and> b = CHR ''-'' then CHR ''-'' # halve_dashes cs else a # halve_dashes (b # cs))"
| "halve_dashes cs = cs"

lemma halve_dashes_shorter:
  "length (halve_dashes s) \<le> length s \<and> (contains ''--'' s \<longrightarrow> length (halve_dashes s) < length s)"
proof (induction s rule: halve_dashes.induct)
  case (1 a b cs)
  then show ?case by (cases "a = CHR ''-'' \<and> b = CHR ''-''") auto
qed auto

function squash_dashes :: "string \<Rightarrow> string" where
  "squash_dashes s = (if contains ''--'' s then squash_dashes (halve_dashes s) else s)"
  by pat_completeness auto
termination
  by (relation "measure length") (use halve_dashes_shorter in auto)

declare squash_dashes.simps [simp del]

lemma squash_dashes_single: "\<not> contains ''--'' (squash_dashes s)"
  by (induction s rule: squash_dashes.induct) (simp add: squash_dashes.simps)

definition dashed :: "string \<Rightarrow> string" where
  "dashed s = map (\<lambda>c. if is_alnum c then lower_char c else CHR ''-'') s"

section \<open>The state of a collector\<close>

datatype collector_kind =
    ADP | ApplicantPro | IsolvedHire | ClearCompany | Dayforce | CSOD | Workday | Greenhouse | Lever | ICIMS
  | Paylocity | Paycor | Paycom | UKG_Ready | UKG | Generic

fun class_name :: "collector_kind \<Rightarrow> string" where
  "class_name ADP = ''ADPCollector''"
| "class_name ApplicantPro = ''ApplicantProCollector''"
| "class_name IsolvedHire = ''IsolvedHireCollector''"
| "class_name ClearCompany = ''ClearCompanyCollector''"
| "class_name Dayforce = ''DayforceCollector''"
| "class_name CSOD = ''CSODCollector''"
| "class_name Workday = ''WorkdayCollector''"
| "class_name Greenhouse = ''GreenhouseCollector''"
| "class_name Lever = ''LeverCollector''"
| "class_name ICIMS = ''ICIMSCollector''"
| "class_name Paylocity = ''PaylocityCollector''"
| "class_name Paycor = ''PaycorCollector''"
| "class_name Paycom = ''PaycomCollector''"
| "class_name UKG_Ready = ''UKGReadyCollector''"
| "class_name UKG = ''UKGCollector''"
| "class_name Generic = ''GenericCollector''"

text \<open>The two collectors derived from the generic one inherit the attribute.\<close>

definition requires_browser :: "collector_kind \<Rightarrow> bool" where
  "requires_browser k \<longleftrightarrow> k \<in> {Generic, Greenhouse, Lever, Dayforce, Paycor}"

record rejected_candidate =
  rc_company_id :: string
  rc_company_name :: string
  rc_board_url :: string
  rc_final_url :: string
  rc_collector :: string
  rc_text :: string
  rc_href :: string
  rc_reason :: string
  rc_snippet :: string
  rc_detail_attempted :: bool
  rc_detail_title :: string

record pay_extraction =
  px_source :: string
  px_candidate :: string
  px_pattern :: string
  px_min :: "int option"
  px_max :: "int option"
  px_period :: string

record collector =
  co_kind :: collector_kind
  co_debug :: bool
  co_candidates :: nat
  co_rejections :: nat
  co_saved :: nat
  co_debug_lines :: "string list"
  co_candidate_samples :: "(string \<times> string) list"
  co_rejection_samples :: "(string \<times> string \<times> string) list"
  co_rejected :: "rejected_candidate list"
  co_reason :: string
  co_final_url :: string
  co_last_pay :: "pay_extraction option"

definition new_collector :: "collector_kind \<Rightarrow> bool \<Rightarrow> collector" where
  "new_collector k debug =
     \<lparr>co_kind = k, co_debug = debug, co_candidates = 0, co_rejections = 0, co_saved = 0, co_debug_lines = [],
      co_candidate_samples = [], co_rejection_samples = [], co_rejected = [], co_reason = [], co_final_url = [],
      co_last_pay = None\<rparr>"

definition tabbed :: "string list \<Rightarrow> string" where
  "tabbed ws = join [CHR 0x09] ws"

definition debug_line :: "string list \<Rightarrow> collector \<Rightarrow> collector" where
  "debug_line ws co = (if co_debug co then co\<lparr>co_debug_lines := co_debug_lines co @ [tabbed ws]\<rparr> else co)"

definition record_candidate :: "string \<Rightarrow> string \<Rightarrow> collector \<Rightarrow> collector" where
  "record_candidate t url co =
     debug_line [''CANDIDATE'', t, url]
       (co\<lparr>co_candidates := co_candidates co + 1,
          co_candidate_samples := co_candidate_samples co @ (if length (co_candidate_samples co) < 20 then [(t, url)] else [])\<rparr>)"

definition reject_candidate ::
  "string \<Rightarrow> string \<Rightarrow> string \<Rightarrow> string \<Rightarrow> bool \<Rightarrow> string \<Rightarrow> row option \<Rightarrow> string \<Rightarrow> collector \<Rightarrow> collector" where
  "reject_candidate t reason url surrounding detail_attempted detail_title company board co =
     (let row = (case company of Some r \<Rightarrow> r | None \<Rightarrow> []) in
      debug_line [''REJECTED'', reason, t, url]
       (co\<lparr>co_rejections := co_rejections co + 1,
          co_rejection_samples := co_rejection_samples co
            @ (if length (co_rejection_samples co) < 20 then [(t, url, reason)] else []),
          co_rejected := co_rejected co @
            [\<lparr>rc_company_id = cell row ''Company ID'', rc_company_name = cell row ''Company Name'',
              rc_board_url = (if board \<noteq> [] then board else cell row ''Job Board URL''),
              rc_final_url = co_final_url co, rc_collector = class_name (co_kind co), rc_text = t, rc_href = url,
              rc_reason = reason, rc_snippet = take 700 surrounding, rc_detail_attempted = detail_attempted,
              rc_detail_title = detail_title\<rparr>]\<rparr>))"

definition save_candidate :: "string \<Rightarrow> string \<Rightarrow> collector \<Rightarrow> collector" where
  "save_candidate t url co = debug_line [''SAVED'', t, url] (co\<lparr>co_saved := co_saved co + 1\<rparr>)"

definition show_pay :: "int option \<Rightarrow> string" where
  "show_pay x = (case x of None \<Rightarrow> ''None'' | Some n \<Rightarrow> show_int n)"

definition record_pay_extraction :: "string \<Rightarrow> string \<Rightarrow> pay_info \<Rightarrow> collector \<Rightarrow> collector" where
  "record_pay_extraction source candidate p co =
     (if pay_text p = [] then co
      else debug_line [''PAY'', source, pay_text p, show_pay (pay_min p), show_pay (pay_max p), pay_period p]
        (co\<lparr>co_last_pay := Some \<lparr>px_source = source, px_candidate = take 700 candidate,
           px_pattern = pay_pattern_matched p, px_min = pay_min p, px_max = pay_max p, px_period = pay_period p\<rparr>\<rparr>))"

text \<open>The name of the file that \<open>flush_debug\<close> writes the lines to.\<close>

definition debug_file_name :: "row \<Rightarrow> collector \<Rightarrow> string" where
  "debug_file_name company co =
     (let n = cell company ''Company Name'';
          name = strip_chars ''-'' (squash_dashes (dashed (if n \<noteq> [] then n else ''company'')))
      in (if name \<noteq> [] then name else ''company'') @ CHR ''-'' # class_name (co_kind co) @ ''.txt'')"

section \<open>Choosing a collector\<close>

definition adp_url_has_tenant :: "string \<Rightarrow> bool" where
  "adp_url_has_tenant url = (let lowered = str_casefold url in contains ''cid='' lowered \<and> contains ''ccid='' lowered)"

text \<open>The collector and the reason for it; \<^const>\<open>None\<close> when the board URL cannot be split.\<close>

definition pick_kind :: "row \<Rightarrow> (collector_kind \<times> string) option" where
  "pick_kind company =
     (let url = str_lower (cell company ''Job Board URL'') in
      case detect_job_platform [Some url] of
        None \<Rightarrow> None
      | Some detected \<Rightarrow>
          let stored = str_lower (cell company ''Job Platform'');
            platform = (if str_lower detected \<noteq> [] then str_lower detected else stored);
            direct_workforce_api = contains ''workforcenow.adp.com'' url \<and> adp_url_has_tenant url;
            embedded_workforce_board = strip platform = ''adp workforce now'' \<and> \<not> contains ''workforcenow.adp.com'' url
          in Some (
            if direct_workforce_api \<or> embedded_workforce_board
            then (ADP, ''Job Board URL matched or embeds the ADP Workforce Now public API.'')
            else if contains ''applicantpro.com'' url
            then (ApplicantPro, ''Job Board URL matched an ApplicantPro tenant board.'')
            else if contains ''isolvedhire.com'' url
            then (IsolvedHire, ''Job Board URL matched an isolved Hire tenant board.'')
            else if contains ''hrmdirect.com'' url
            then (ClearCompany, ''Job Board URL matched a ClearCompany HRMDirect public listing.'')
            else if contains ''dayforce'' platform \<or> contains ''jobs.dayforcehcm.com'' url
            then (Dayforce, ''Job Platform or Job Board URL matched Dayforce.'')
            else if contains ''cornerstone'' platform \<or> contains ''csod'' platform \<or> contains ''csod.com'' url
            then (CSOD, ''Job Platform or Job Board URL matched Cornerstone.'')
            else if contains ''workday'' platform \<or> contains ''myworkdayjobs.com'' url
            then (Workday, ''Job Platform or Job Board URL matched Workday.'')
            else if contains ''greenhouse'' platform \<or> contains ''greenhouse.io'' url
            then (Greenhouse, ''Job Platform or Job Board URL matched Greenhouse.'')
            else if contains ''lever'' platform \<or> contains ''lever.co'' url
            then (Lever, ''Job Platform or Job Board URL matched Lever.'')
            else if contains ''icims'' platform \<or> contains ''icims.com'' url
            then (ICIMS, ''Job Platform or Job Board URL matched ICIMS.'')
            else if contains ''paylocity'' platform \<or> contains ''paylocity.com'' url
            then (Paylocity, ''Job Platform or Job Board URL matched Paylocity.'')
            else if contains ''paycor'' platform \<or> contains ''recruitingbypaycor.com'' url
            then (Paycor, ''Job Platform or Job Board URL matched Paycor.'')
            else if contains ''paycom'' platform \<or> contains ''paycomonline.net'' url
            then (Paycom, ''Job Platform or Job Board URL matched Paycom.'')
            else if contains ''ukg ready'' platform \<or> contains ''saashr.com'' url
            then (UKG_Ready, ''Job Platform or Job Board URL matched UKG Ready/SaaShr.'')
            else if contains ''ukg'' platform \<or> contains ''ultipro.com'' url \<or> contains ''ukg.com'' url
            then (UKG, ''Job Platform or Job Board URL matched UKG.'')
            else (Generic, ''No supported platform detected; using generic public page collector.'')))"

definition with_reason :: "collector \<Rightarrow> string \<Rightarrow> collector" where
  "with_reason co reason = co\<lparr>co_reason := reason\<rparr>"

definition pick_collector :: "row \<Rightarrow> bool \<Rightarrow> collector option" where
  "pick_collector company debug =
     map_option (\<lambda>(k, reason). with_reason (new_collector k debug) reason) (pick_kind company)"

section \<open>The counters of a collector agree with its samples\<close>

definition counters_ok :: "collector \<Rightarrow> bool" where
  "counters_ok co \<longleftrightarrow>
     length (co_candidate_samples co) = min 20 (co_candidates co)
     \<and> length (co_rejection_samples co) = min 20 (co_rejections co)
     \<and> length (co_rejected co) = co_rejections co"

lemma counters_new: "counters_ok (with_reason (new_collector k debug) reason)"
  by (simp add: counters_ok_def with_reason_def new_collector_def)

lemma counters_record: "counters_ok co \<Longrightarrow> counters_ok (record_candidate t url co)"
  by (simp add: counters_ok_def record_candidate_def debug_line_def)

lemma counters_reject: "counters_ok co \<Longrightarrow> counters_ok (reject_candidate t r url s a d company b co)"
  by (simp add: counters_ok_def reject_candidate_def debug_line_def Let_def)

lemma counters_save: "counters_ok co \<Longrightarrow> counters_ok (save_candidate t url co)"
  by (simp add: counters_ok_def save_candidate_def debug_line_def)

end
