(* ===== verification/Job_Merge.thy ===== *)
theory Job_Merge
  imports Collector_Base Job_Validation
begin

text \<open>
  Collected jobs as records (\<^verbatim>\<open>src/job_tools.py\<close>): what pay and rank are added to them, which are kept, when two are
  the same job, and how the jobs of a collection are merged into those of earlier ones. Text fields hold texts and the
  raw data is a dictionary, as both writers of the jobs file leave them.
\<close>

section \<open>Records\<close>

record job =
  jb_id :: string
  jb_company_id :: string
  jb_company_name :: string
  jb_title :: string
  jb_location :: string
  jb_work_type :: string
  jb_pay_min :: "rat option"
  jb_pay_max :: "rat option"
  jb_pay_text :: string
  jb_pay_period :: string
  jb_pay_currency :: string
  jb_posted :: string
  jb_source_url :: string
  jb_platform :: string
  jb_description :: string
  jb_snippet :: string
  jb_collected_at :: string
  jb_status :: string
  jb_role_type :: string
  jb_role_reason :: string
  jb_raw :: jdict

section \<open>Identity\<close>

definition slug_text :: "string \<Rightarrow> string" where
  "slug_text v = (let safe = squash_dashes (strip_chars ''-'' (dashed v)) in if safe \<noteq> [] then safe else ''unknown'')"

definition dedupe_job_key :: "job \<Rightarrow> string" where
  "dedupe_job_key j =
     (if jb_source_url j \<noteq> [] then ''url:'' @ str_lower (strip (jb_source_url j))
      else ''fallback:'' @ jb_company_id j @ '':'' @ slug_text (jb_title j) @ '':'' @ slug_text (jb_location j))"

text \<open>\<open>excel_tools\<close>: the identifier of a company without one.\<close>

fun company_slug_from :: "bool \<Rightarrow> string \<Rightarrow> string" where
  "company_slug_from last_dash [] = []"
| "company_slug_from last_dash (c # cs) =
     (if is_alnum c then c # company_slug_from False cs
      else (if last_dash then [] else [CHR ''-'']) @ company_slug_from True cs)"

definition company_slug :: "string \<Rightarrow> string" where
  "company_slug v =
     (let s = strip_chars ''-'' (company_slug_from False (str_lower v)) in if s \<noteq> [] then s else ''unknown'')"

definition normalized_domain :: "string \<Rightarrow> string option" where
  "normalized_domain url =
     (if url = [] then Some []
      else map_option (\<lambda>u. let host = str_lower (url_netloc u) in
          if take 4 host = ''www.'' then drop 4 host else host) (urlsplit (with_scheme url)))"

definition stable_company_id :: "row \<Rightarrow> string option" where
  "stable_company_id r =
     map_option (\<lambda>domain. if domain \<noteq> [] then ''company-'' @ company_slug domain
         else ''company-'' @ company_slug (cell r ''Company Name'') @ ''-'' @ company_slug (cell r ''State''))
       (normalized_domain (if cell r ''Official Website'' \<noteq> [] then cell r ''Official Website'' else cell r ''Known Website''))"

definition company_id_of :: "row \<Rightarrow> string option" where
  "company_id_of r = (if cell r ''Company ID'' \<noteq> [] then Some (cell r ''Company ID'') else stable_company_id r)"

definition make_job_id :: "row \<Rightarrow> string \<Rightarrow> string \<Rightarrow> string option" where
  "make_job_id company title url =
     map_option (\<lambda>company_id.
       let basis = (if url \<noteq> [] then url else company_id @ ''-'' @ title)
       in ''job-'' @ take 140 (squash_dashes (strip_chars ''-'' (dashed basis)))) (company_id_of company)"

section \<open>Destinations\<close>

definition invalid_job_board_url_parts :: "string list" where
  "invalid_job_board_url_parts = [''indeed.com/cmp/'', ''loan'', ''loan-application'', ''mortgage'', ''membership'',
     ''member-application'', ''account-opening'', ''online-banking'', ''login'', ''credit-card'', ''benefits'', ''culture'',
     ''locations'', ''privacy'', ''terms'']"

definition public_scheme :: "string \<Rightarrow> bool" where
  "public_scheme lowered \<longleftrightarrow> prefix ''http://'' lowered \<or> prefix ''https://'' lowered"

definition is_document :: "string \<Rightarrow> bool" where
  "is_document lowered \<longleftrightarrow> (\<exists>e \<in> set [''.pdf'', ''.doc'', ''.docx'']. suffix e lowered)"

text \<open>The reasons are empty for a usable URL.\<close>

definition invalid_job_board_reason :: "string \<Rightarrow> string" where
  "invalid_job_board_reason url =
     (let lowered = str_lower (strip url) in
      if lowered = [] then []
      else if \<not> public_scheme lowered then ''URL is not public HTTP(S)''
      else case find (\<lambda>part. contains part lowered) invalid_job_board_url_parts of
        Some part \<Rightarrow> ''URL contains disallowed non-job pattern: '' @ part
      | None \<Rightarrow> if is_document lowered then ''URL points to a document'' else [])"

definition invalid_job_destination_reason :: "string \<Rightarrow> bool \<Rightarrow> bool \<Rightarrow> string" where
  "invalid_job_destination_reason url structured_source allow_official_job_document =
     (let lowered = str_lower (strip url) in
      if \<not> public_scheme lowered then ''URL is not public HTTP(S)''
      else if allow_official_job_document \<and> suffix ''.pdf'' lowered then []
      else if \<not> structured_source then invalid_job_board_reason url
      else if is_document lowered then ''URL points to a document''
      else [])"

section \<open>Which jobs are kept\<close>

text \<open>\<open>bool\<close> of a JSON value.\<close>

fun truthy :: "json option \<Rightarrow> bool" where
  "truthy None = False"
| "truthy (Some JNull) = False"
| "truthy (Some (JBool b)) = b"
| "truthy (Some (JInt i)) = (i \<noteq> 0)"
| "truthy (Some (JFloat r)) = (r \<noteq> 0)"
| "truthy (Some (JStr s)) = (s \<noteq> [])"
| "truthy (Some (JList js)) = (js \<noteq> [])"
| "truthy (Some (JObj ms)) = (ms \<noteq> [])"

definition is_valid_job_record :: "job \<Rightarrow> bool" where
  "is_valid_job_record j =
     (let structured_source = truthy (map_of (jb_raw j) ''structuredSource'');
          official_job_document = truthy (map_of (jb_raw j) ''officialJobDocument'');
          title_is_valid = (if structured_source then is_valid_structured_job_title (jb_title j)
            else is_valid_job_title (jb_title j))
      in if \<not> title_is_valid then False
         else if jb_source_url j = [] then False
         else if invalid_job_destination_reason (jb_source_url j) structured_source official_job_document \<noteq> [] then False
         else jb_description j \<noteq> [] \<or> jb_location j \<noteq> [] \<or> jb_posted j \<noteq> [] \<or> jb_source_url j \<noteq> [] \<or> jb_pay_text j \<noteq> [])"

section \<open>Adding pay and rank\<close>

definition pay_number_json :: "int option \<Rightarrow> json" where
  "pay_number_json x = (case x of None \<Rightarrow> JNull | Some n \<Rightarrow> JInt n)"

definition pay_info_json :: "pay_info \<Rightarrow> json" where
  "pay_info_json p = JObj
     [(''payMin'', pay_number_json (pay_min p)), (''payMax'', pay_number_json (pay_max p)), (''payText'', JStr (pay_text p)),
      (''payPeriod'', JStr (pay_period p)), (''payCurrency'', JStr (pay_currency p)),
      (''payExtractionSource'', JStr (pay_extraction_source p)), (''payPatternMatched'', JStr (pay_pattern_matched p))]"

text \<open>Raises on a pay number beyond the floats, and on a row text that is not a text.\<close>

definition row_text :: "job \<Rightarrow> string option" where
  "row_text j = (case map_of (jb_raw j) ''rowText'' of None \<Rightarrow> Some [] | Some (JStr s) \<Rightarrow> Some s | Some _ \<Rightarrow> None)"

definition set_pay :: "pay_info \<Rightarrow> job \<Rightarrow> job" where
  "set_pay p j = j\<lparr>jb_pay_min := map_option of_int (pay_min p), jb_pay_max := map_option of_int (pay_max p),
     jb_pay_period := pay_period p, jb_pay_currency := pay_currency p\<rparr>"

definition add_pay :: "job \<Rightarrow> job option" where
  "add_pay j =
     (if jb_pay_text j \<noteq> []
      then map_option (\<lambda>p. if pay_text p \<noteq> [] then set_pay p j else j) (extract_pay_info (jb_pay_text j))
      else if jb_pay_min j = None \<and> jb_pay_max j = None
      then Option.bind (row_text j) (\<lambda>rows.
        map_option (\<lambda>p. if pay_text p \<noteq> []
            then (set_pay p j)\<lparr>jb_pay_text := pay_text p, jb_raw := AList.update ''payExtraction'' (pay_info_json p) (jb_raw j)\<rparr>
            else j)
          (extract_pay_info (join '' '' [jb_description j, jb_snippet j, rows])))
      else Some j)"

definition add_role :: "job \<Rightarrow> job" where
  "add_role j =
     (if jb_role_type j = [] \<or> jb_role_type j = ''UNKNOWN''
      then case classify_role_type (jb_title j) (jb_description j) of (t, r) \<Rightarrow> j\<lparr>jb_role_type := t, jb_role_reason := r\<rparr>
      else j)"

definition enrich_job_record :: "job \<Rightarrow> job option" where
  "enrich_job_record j = map_option add_role (add_pay j)"

section \<open>Merging\<close>

text \<open>The jobs file: missing, unreadable, or the dictionaries in its list (other items are skipped).\<close>

datatype jobs_file = No_File | Unreadable | Jobs "job list"

definition load_existing_jobs :: "jobs_file \<Rightarrow> job list" where
  "load_existing_jobs f = (case f of Jobs js \<Rightarrow> js | _ \<Rightarrow> [])"

text \<open>Whether a job belongs to one of the companies: by its company identifier, and by name when it has none.\<close>

definition belongs_to :: "string list \<Rightarrow> string list \<Rightarrow> job \<Rightarrow> bool" where
  "belongs_to target_ids target_names j \<longleftrightarrow>
     (if strip (jb_company_id j) \<noteq> [] then jb_company_id j \<in> set target_ids
      else str_lower (jb_company_name j) \<in> set target_names)"

text \<open>A dictionary of the jobs by key: the position is that of the first job of a key, the value that of the last.\<close>

definition by_key :: "job list \<Rightarrow> (string \<times> job) list" where
  "by_key js = fold (\<lambda>j. AList.update (dedupe_job_key j) j) js []"

definition merge_jobs :: "string list \<Rightarrow> string list \<Rightarrow> job list \<Rightarrow> job list \<Rightarrow> job list" where
  "merge_jobs target_ids target_names existing new_jobs =
     (let kept = filter (\<lambda>j. \<not> belongs_to target_ids target_names j) existing
      in filter is_valid_job_record (map snd (by_key (kept @ new_jobs))))"

text \<open>Raises when the website of a target company without an identifier cannot be split.\<close>

definition merge_with_existing_jobs :: "jobs_file \<Rightarrow> job list \<Rightarrow> row list \<Rightarrow> job list option" where
  "merge_with_existing_jobs f new_jobs target_companies =
     Option.bind (those (map company_id_of target_companies)) (\<lambda>target_ids.
       Some (merge_jobs target_ids (map (\<lambda>r. str_lower (cell r ''Company Name'')) target_companies)
         (load_existing_jobs f) new_jobs))"

section \<open>What a merge leaves\<close>

definition jobs_ok :: "job list \<Rightarrow> bool" where
  "jobs_ok js \<longleftrightarrow> distinct (map dedupe_job_key js) \<and> list_all is_valid_job_record js"

lemma lookup_by_key:
  "map_of (by_key js) k =
     (case filter (\<lambda>j. dedupe_job_key j = k) js of [] \<Rightarrow> None | y # ys \<Rightarrow> Some (last (y # ys)))"
  unfolding by_key_def using alist.store_all_look [of dedupe_job_key "\<lambda>j. j" js "[]" k] by (simp split: list.split)

lemma by_key_keys: "(k, j) \<in> set (by_key js) \<Longrightarrow> k = dedupe_job_key j \<and> j \<in> set js"
proof -
  have "set (fold (\<lambda>j. AList.update (dedupe_job_key j) j) js t) \<subseteq> (\<lambda>j. (dedupe_job_key j, j)) ` set js \<union> set t" for t
  proof (induction js arbitrary: t)
    case (Cons x js)
    show ?case using Cons.IH [of "AList.update (dedupe_job_key x) x t"] update_subset [of "dedupe_job_key x" x t] by auto
  qed simp
  from this [of "[]"] show "(k, j) \<in> set (by_key js) \<Longrightarrow> k = dedupe_job_key j \<and> j \<in> set js"
    by (auto simp: by_key_def)
qed

lemma distinct_by_key: "distinct (map fst (by_key js))"
proof -
  have "distinct (map fst t) \<Longrightarrow> distinct (map fst (fold (\<lambda>j. AList.update (dedupe_job_key j) j) js t))" for t
    by (induction js arbitrary: t) (auto simp: distinct_update)
  then show ?thesis by (simp add: by_key_def)
qed

lemma keys_by_key: "map dedupe_job_key (map snd (by_key js)) = map fst (by_key js)"
  using by_key_keys by (auto intro!: map_cong [OF refl])

lemma merge_jobs_ok: "jobs_ok (merge_jobs target_ids target_names existing new_jobs)"
proof -
  have "distinct (map dedupe_job_key (map snd (by_key js)))" for js
    using distinct_by_key by (simp only: keys_by_key)
  then show ?thesis
    unfolding jobs_ok_def merge_jobs_def Let_def by (simp only: distinct_map_filter list_all_iff) simp
qed

lemma merge_jobs_origin:
  "j \<in> set (merge_jobs target_ids target_names existing new_jobs) \<Longrightarrow>
     j \<in> set new_jobs \<or> j \<in> set existing \<and> \<not> belongs_to target_ids target_names j"
  using by_key_keys [of _ j] by (force simp: merge_jobs_def Let_def)

lemma merge_jobs_keep:
  assumes "j \<in> set new_jobs \<or> j \<in> set existing \<and> \<not> belongs_to target_ids target_names j" "is_valid_job_record j"
    and alone: "\<forall>j' \<in> set existing \<union> set new_jobs. dedupe_job_key j' = dedupe_job_key j \<longrightarrow> j' = j"
  shows "j \<in> set (merge_jobs target_ids target_names existing new_jobs)"
proof -
  define js where "js = filter (\<lambda>j. \<not> belongs_to target_ids target_names j) existing @ new_jobs"
  have here: "j \<in> set js" "\<forall>j' \<in> set js. dedupe_job_key j' = dedupe_job_key j \<longrightarrow> j' = j"
    using assms(1) alone by (auto simp: js_def)
  define same where "same = filter (\<lambda>x. dedupe_job_key x = dedupe_job_key j) js"
  have "same \<noteq> []" "\<forall>x \<in> set same. x = j"
    using here by (auto simp: same_def filter_empty_conv)
  then have "last same = j" by (meson last_in_set)
  then have "map_of (by_key js) (dedupe_job_key j) = Some j"
    using \<open>same \<noteq> []\<close> unfolding lookup_by_key same_def [symmetric] by (cases same) auto
  then have "(dedupe_job_key j, j) \<in> set (by_key js)" by (rule map_of_SomeD)
  then have "j \<in> set (map snd (by_key js))" by (force simp: image_iff)
  then show ?thesis using assms(2) by (simp add: merge_jobs_def js_def [symmetric])
qed

end
