(* ===== verification/Job_Collection.thy ===== *)
theory Job_Collection
  imports Job_Merge "HOL-Library.Multiset"
begin

text \<open>
  A collection of jobs (\<^verbatim>\<open>src/job_tools.py\<close>): the choice of companies, the collectors run in two groups whose results
  are taken as they complete, what is made of each result, the merge into the stored jobs and the files written.
  What the collectors return and in which order they finish, the clock and whether writing succeeds are arguments.
\<close>

section \<open>Companies\<close>

definition first_source :: "row \<Rightarrow> string \<times> string" where
  "first_source company =
     (let board = strip (cell company ''Job Board URL'') in
      if board \<noteq> [] then (board, ''Job Board URL'')
      else let rss = strip (cell company ''Jobs RSS Feed URL'');
          feed_found = str_lower (strip (cell company ''Feed Found'')) \<in> set [''true'', ''yes'', ''1'']
        in if rss \<noteq> [] \<and> feed_found then (rss, ''RSS Feed'') else ([], ''None''))"

definition company_matches_filters :: "string list \<Rightarrow> row \<Rightarrow> bool" where
  "company_matches_filters filters company =
     (let name = str_lower (cell company ''Company Name'')
      in \<exists>f \<in> set filters. strip f \<noteq> [] \<and> contains (str_lower (strip f)) name)"

record collect_request =
  rq_ids :: "string list option"
  rq_filter :: string
  rq_filters :: "string list"
  rq_limit :: int
  rq_dry_run :: bool
  rq_debug :: bool
  rq_browser :: bool

definition reviewed :: "collect_request \<Rightarrow> row list \<Rightarrow> row list" where
  "reviewed q rows =
     (let by_id = (case rq_ids q of None \<Rightarrow> rows | Some ids \<Rightarrow> filter (\<lambda>r. cell r ''Company ID'' \<in> set ids) rows);
          filters = (if rq_filters q \<noteq> [] then rq_filters q else if rq_filter q \<noteq> [] then [rq_filter q] else [])
      in if filters \<noteq> [] then filter (company_matches_filters filters) by_id else by_id)"

definition invalid_source :: "row \<Rightarrow> string" where
  "invalid_source r =
     (if snd (first_source r) = ''Job Board URL'' then invalid_job_board_reason (fst (first_source r)) else [])"

definition usable :: "row \<Rightarrow> bool" where
  "usable r \<longleftrightarrow> fst (first_source r) \<noteq> [] \<and> invalid_source r = []"

text \<open>\<open>xs[:n]\<close> and \<open>xs[n:]\<close>; a negative bound counts from the end, and 0 is no limit here.\<close>

definition slice_point :: "int \<Rightarrow> nat \<Rightarrow> nat" where
  "slice_point n len = (if 0 \<le> n then nat n else len - nat (- n))"

definition selected :: "int \<Rightarrow> row list \<Rightarrow> row list" where
  "selected limit rows = (if limit = 0 then rows else take (slice_point limit (length rows)) rows)"

definition omitted :: "int \<Rightarrow> row list \<Rightarrow> row list" where
  "omitted limit rows = (if limit = 0 then [] else drop (slice_point limit (length rows)) rows)"

section \<open>Diagnostics\<close>

record diagnostic =
  dg_company :: string
  dg_website :: string
  dg_careers :: string
  dg_board :: string
  dg_platform :: string
  dg_final_url :: string
  dg_source :: string
  dg_source_type :: string
  dg_collector :: string
  dg_reason :: string
  dg_playwright :: bool
  dg_found :: nat
  dg_rejected :: nat
  dg_saved :: nat
  dg_status :: string
  dg_outcome :: string
  dg_disposition :: string
  dg_error :: string
  dg_duration :: rat
  dg_average :: rat
  dg_remaining :: rat
  dg_notes :: string

text \<open>The fields of the dataclass with their defaults, but for the company; the samples and the last pay extraction
  that are copied from the collector are left out.\<close>

definition blank_diagnostic :: "row \<Rightarrow> diagnostic" where
  "blank_diagnostic r =
     \<lparr>dg_company = cell r ''Company Name'', dg_website = [], dg_careers = [], dg_board = cell r ''Job Board URL'',
      dg_platform = cell r ''Job Platform'', dg_final_url = [], dg_source = fst (first_source r),
      dg_source_type = snd (first_source r), dg_collector = [], dg_reason = [], dg_playwright = False, dg_found = 0,
      dg_rejected = 0, dg_saved = 0, dg_status = [], dg_outcome = [], dg_disposition = [], dg_error = [],
      dg_duration = 0, dg_average = 0, dg_remaining = 0, dg_notes = []\<rparr>"

definition build_skip_diagnostic :: "row \<Rightarrow> diagnostic" where
  "build_skip_diagnostic r =
     (let missing = fst (first_source r) = [];
          notes = (if missing then ''Skipped job collection because Job Board URL is missing.''
            else ''Skipped job collection because Job Board URL is invalid: '' @ invalid_source r)
      in (blank_diagnostic r)
        \<lparr>dg_website := cell r ''Official Website'', dg_careers := cell r ''Careers Page URL'', dg_collector := ''None'',
         dg_reason := notes, dg_status := (if missing then ''Missing Job Board URL'' else ''Invalid Job Board URL''),
         dg_outcome := ''stale'', dg_disposition := ''retained'', dg_notes := notes\<rparr>)"

definition build_scope_retained_diagnostic :: "row \<Rightarrow> string \<Rightarrow> diagnostic" where
  "build_scope_retained_diagnostic r reason = (blank_diagnostic r)
     \<lparr>dg_collector := ''None'', dg_reason := reason, dg_status := ''Not Selected'', dg_outcome := ''stale'',
      dg_disposition := ''retained'', dg_notes := reason\<rparr>"

definition build_retained_diagnostic :: "row \<Rightarrow> collector \<Rightarrow> string \<Rightarrow> diagnostic" where
  "build_retained_diagnostic r co reason = (blank_diagnostic r)
     \<lparr>dg_source := fst (source_url r), dg_source_type := snd (source_url r), dg_collector := class_name (co_kind co),
      dg_reason := reason, dg_playwright := True, dg_status := ''Collection Disabled'', dg_outcome := ''stale'',
      dg_disposition := ''retained'', dg_notes := reason\<rparr>"

text \<open>\<^const>\<open>None\<close>: the final URL of a generic collector cannot be split.\<close>

definition diagnostic_status :: "nat \<Rightarrow> string \<Rightarrow> collector \<Rightarrow> string option" where
  "diagnostic_status jobs_saved error_message co =
     (if error_message \<noteq> [] then Some ''Collector Failed''
      else if jobs_saved \<noteq> 0 then Some ''Jobs Collected''
      else if co_kind co = Generic \<and> detect_job_platform [Some (co_final_url co)] = None then None
      else Some ''No Jobs Found'')"

definition diagnostic_notes :: "collector \<Rightarrow> nat \<Rightarrow> string \<Rightarrow> string" where
  "diagnostic_notes co jobs_saved error_message =
     (if error_message \<noteq> [] then ''Collector failed: '' @ error_message
      else if jobs_saved \<noteq> 0 then ''Real job records were saved after validation.''
      else if co_kind co = Generic
      then ''No validated jobs saved from generic page parsing; review source page or add a platform-specific collector.''
      else ''No validated jobs saved; platform collector needs review.'')"

definition build_diagnostic ::
  "row \<Rightarrow> collector \<Rightarrow> nat \<Rightarrow> nat \<Rightarrow> string \<Rightarrow> rat \<Rightarrow> string option \<Rightarrow> diagnostic option" where
  "build_diagnostic r co seen jobs_saved error_message duration outcome =
     map_option (\<lambda>status. (blank_diagnostic r)
       \<lparr>dg_website := cell r ''Official Website'', dg_careers := cell r ''Careers Page URL'',
        dg_final_url := co_final_url co, dg_source := fst (source_url r), dg_source_type := snd (source_url r),
        dg_collector := class_name (co_kind co), dg_reason := co_reason co,
        dg_playwright := requires_browser (co_kind co), dg_found := seen, dg_rejected := co_rejections co,
        dg_saved := jobs_saved, dg_status := status,
        dg_outcome := (case outcome of Some x \<Rightarrow> x | None \<Rightarrow> if jobs_saved \<noteq> 0 then ''success'' else ''success-empty''),
        dg_disposition := (if error_message \<noteq> [] then ''retained'' else if jobs_saved \<noteq> 0 then ''replaced'' else ''replaced-empty''),
        dg_error := error_message, dg_duration := py_round_to 2 duration,
        dg_notes := diagnostic_notes co jobs_saved error_message\<rparr>)
       (diagnostic_status jobs_saved error_message co)"

definition update_progress_diagnostic :: "nat \<Rightarrow> nat \<Rightarrow> rat \<Rightarrow> diagnostic \<Rightarrow> diagnostic" where
  "update_progress_diagnostic attempted completed elapsed d =
     (let average = max (1 / 1000) elapsed / of_nat completed in
      d\<lparr>dg_average := py_round_to 2 average,
        dg_remaining := py_round_to 2 (max 0 (average * (of_nat attempted - of_nat completed)))\<rparr>)"

section \<open>One result\<close>

text \<open>What a collector's run yields: its jobs, or an exception, which may be a timeout and may carry partial jobs.\<close>

datatype collected = Returned "job list" | Failed bool "job list"

record attempt =
  at_collector :: collector
  at_result :: collected
  at_seconds :: rat
  at_elapsed :: rat
  at_cancelled :: bool
  at_callback_fails :: bool

record settled =
  se_row :: row
  se_jobs :: "job list"
  se_had_error :: bool
  se_diagnostic :: diagnostic
  se_rejects :: "rejected_candidate list"

definition enrich_all :: "job list \<Rightarrow> job list option" where
  "enrich_all js = those (map enrich_job_record js)"

definition safe_collection_error :: "bool \<Rightarrow> string" where
  "safe_collection_error timeout =
     (if timeout then ''The collector timed out.'' else ''The collector could not complete.'')"

definition settle_success :: "row \<Rightarrow> attempt \<Rightarrow> job list \<Rightarrow> (job list \<times> diagnostic) option" where
  "settle_success r a collected_jobs =
     Option.bind (enrich_all collected_jobs) (\<lambda>enriched.
       let co = at_collector a; jobs = filter is_valid_job_record enriched;
           seen = max (co_candidates co) (co_rejections co + length jobs)
       in map_option (Pair jobs) (build_diagnostic r co seen (length jobs) [] (at_seconds a) None))"

definition settle_failure :: "row \<Rightarrow> attempt \<Rightarrow> bool \<Rightarrow> job list \<Rightarrow> job list \<times> diagnostic option" where
  "settle_failure r a timeout partial =
     (let jobs = (case enrich_all partial of Some js \<Rightarrow> filter is_valid_job_record js | None \<Rightarrow> []);
          outcome = (if jobs \<noteq> [] then ''partial'' else if timeout then ''timed-out'' else ''failed'')
      in (jobs, build_diagnostic r (at_collector a) (co_candidates (at_collector a)) (length jobs)
           (safe_collection_error timeout) (at_seconds a) (Some outcome)))"

text \<open>The \<open>try\<close> of the loop: anything that goes wrong with a returned result is a failure without partial jobs.\<close>

definition settle :: "row \<Rightarrow> attempt \<Rightarrow> (job list \<times> bool \<times> diagnostic) option" where
  "settle r a =
     (let failure = (\<lambda>timeout partial.
            case settle_failure r a timeout partial of (jobs, d) \<Rightarrow> map_option (\<lambda>d. (jobs, True, d)) d)
      in case at_result a of
           Returned js \<Rightarrow>
             (case settle_success r a js of Some (jobs, d) \<Rightarrow> Some (jobs, False, d) | None \<Rightarrow> failure False [])
         | Failed timeout partial \<Rightarrow> failure timeout partial)"

section \<open>A group of collectors\<close>

datatype collect_error =
  Bad_Board_Url | Interrupted | Callback_Raised | Unexpected | Enrich_Raised | Merge_Raised | Write_Failed

text \<open>The results in the order of completion, with the number completed so far.\<close>

fun run_group :: "nat \<Rightarrow> nat \<Rightarrow> (row \<times> attempt) list \<Rightarrow> collect_error + (settled list \<times> nat)" where
  "run_group attempted completed [] = Inr ([], completed)"
| "run_group attempted completed ((r, a) # rest) =
     (if at_cancelled a then Inl Interrupted
      else case settle r a of
        None \<Rightarrow> Inl Unexpected
      | Some (jobs, had_error, d) \<Rightarrow>
          if at_callback_fails a then Inl Callback_Raised
          else bind_res (run_group attempted (completed + 1) rest) (\<lambda>(results, n).
            Inr (\<lparr>se_row = r, se_jobs = jobs, se_had_error = had_error,
              se_diagnostic = update_progress_diagnostic attempted (completed + 1) (at_elapsed a) d,
              se_rejects = co_rejected (at_collector a)\<rparr> # results, n)))"

text \<open>The order of completion is that of a ranking of the submissions.\<close>

definition as_completed :: "(nat \<Rightarrow> nat) \<Rightarrow> 'a list \<Rightarrow> (nat \<times> 'a) list" where
  "as_completed rank xs = sort_key (\<lambda>(i, _). rank i) (enumerate 0 xs)"

record world =
  wo_rows :: "row list"
  wo_file :: jobs_file
  wo_rank :: "bool \<Rightarrow> nat \<Rightarrow> nat"
  wo_attempt :: "bool \<Rightarrow> nat \<Rightarrow> row \<Rightarrow> collector \<Rightarrow> attempt"
  wo_cancelled :: bool
  wo_seconds :: rat
  wo_mirror :: bool
  wo_writes :: nat

definition run_collection_group ::
  "world \<Rightarrow> bool \<Rightarrow> nat \<Rightarrow> nat \<Rightarrow> (row \<times> collector) list \<Rightarrow> collect_error + (settled list \<times> nat)" where
  "run_collection_group w browser attempted completed jobs =
     run_group attempted completed
       (map (\<lambda>(i, r, co). (r, wo_attempt w browser i r co)) (as_completed (wo_rank w browser) jobs))"

section \<open>The collection\<close>

text \<open>What is known when all collectors are done.\<close>

record gathered =
  ga_jobs :: "job list"
  ga_successful :: "row list"
  ga_diagnostics :: "diagnostic list"
  ga_rejects :: "rejected_candidate list"
  ga_errors :: nat

definition add_results :: "settled list \<Rightarrow> gathered \<Rightarrow> gathered" where
  "add_results results g = g
     \<lparr>ga_jobs := ga_jobs g @ concat (map se_jobs results),
      ga_successful := ga_successful g @ map se_row (filter (\<lambda>x. \<not> se_had_error x) results),
      ga_diagnostics := ga_diagnostics g @ map se_diagnostic results,
      ga_rejects := ga_rejects g @ concat (map se_rejects results),
      ga_errors := ga_errors g + length (filter se_had_error results)\<rparr>"

definition candidates :: "collect_request \<Rightarrow> row list \<Rightarrow> row list" where
  "candidates q rows = selected (rq_limit q) (filter usable (reviewed q rows))"

definition first_diagnostics :: "collect_request \<Rightarrow> row list \<Rightarrow> diagnostic list" where
  "first_diagnostics q rows =
     map build_skip_diagnostic (filter (\<lambda>r. \<not> usable r) (reviewed q rows))
     @ map (\<lambda>r. build_scope_retained_diagnostic r ''Not selected by the collection limit.'')
         (omitted (rq_limit q) (filter usable (reviewed q rows)))"

definition picked :: "collect_request \<Rightarrow> row \<Rightarrow> (row \<times> collector) option" where
  "picked q r = map_option (Pair r) (pick_collector r (rq_debug q))"

definition needs_browser :: "row \<times> collector \<Rightarrow> bool" where
  "needs_browser = (\<lambda>(_, co). requires_browser (co_kind co))"

definition gather :: "collect_request \<Rightarrow> world \<Rightarrow> collect_error + gathered" where
  "gather q w =
     (case those (map (picked q) (candidates q (wo_rows w))) of
        None \<Rightarrow> Inl Bad_Board_Url
      | Some jobs \<Rightarrow>
          let attempted = length jobs;
              start = \<lparr>ga_jobs = [], ga_successful = [], ga_diagnostics = first_diagnostics q (wo_rows w),
                ga_rejects = [], ga_errors = 0\<rparr>
          in bind_res (run_collection_group w False attempted 0 (filter (\<lambda>x. \<not> needs_browser x) jobs)) (\<lambda>(plain, n).
             if rq_browser q
             then bind_res (run_collection_group w True attempted n (filter needs_browser jobs)) (\<lambda>(rendered, _).
               Inr (add_results rendered (add_results plain start)))
             else let g = add_results plain start in
               Inr (g\<lparr>ga_diagnostics := ga_diagnostics g
                 @ map (\<lambda>(r, co). build_retained_diagnostic r co ''Browser collection is disabled.'')
                     (filter needs_browser jobs)\<rparr>)))"

record summary =
  su_reviewed :: nat
  su_skipped :: nat
  su_missing :: nat
  su_invalid :: nat
  su_attempted :: nat
  su_jobs :: nat
  su_errors :: nat
  su_outcomes :: "(string \<times> nat) list"
  su_duration :: rat
  su_average :: rat

definition outcome_name :: "diagnostic \<Rightarrow> string" where
  "outcome_name d = (if dg_outcome d \<noteq> [] then dg_outcome d else ''unknown'')"

definition count_outcome :: "diagnostic \<Rightarrow> (string \<times> nat) list \<Rightarrow> (string \<times> nat) list" where
  "count_outcome d counts =
     AList.update (outcome_name d) ((case map_of counts (outcome_name d) of Some n \<Rightarrow> n | None \<Rightarrow> 0) + 1) counts"

definition build_summary :: "collect_request \<Rightarrow> world \<Rightarrow> nat \<Rightarrow> nat \<Rightarrow> diagnostic list \<Rightarrow> summary" where
  "build_summary q w jobs_found errors results =
     (let rows = reviewed q (wo_rows w); skips = map build_skip_diagnostic (filter (\<lambda>r. \<not> usable r) rows);
          attempted = length (candidates q (wo_rows w)); duration = max (1 / 1000) (wo_seconds w)
      in \<lparr>su_reviewed = length rows, su_skipped = length rows - length (filter usable rows),
          su_missing = length (filter (\<lambda>d. dg_status d = ''Missing Job Board URL'') skips),
          su_invalid = length (filter (\<lambda>d. dg_status d = ''Invalid Job Board URL'') skips),
          su_attempted = attempted, su_jobs = jobs_found, su_errors = errors,
          su_outcomes = fold count_outcome results [], su_duration = py_round_to 2 duration,
          su_average = (if attempted \<noteq> 0 then py_round_to 2 (duration / of_nat attempted) else 0)\<rparr>)"

text \<open>The files written, in order. Each write replaces its file at once or fails.\<close>

datatype file_write =
    Jobs_Json "job list" | Jobs_Mirror "job list" | Jobs_Xlsx "job list" | Diagnostics_Json "diagnostic list"
  | Diagnostics_Xlsx "diagnostic list" | Rejected_Json "rejected_candidate list" | Rejected_Xlsx "rejected_candidate list"

definition planned_writes :: "bool \<Rightarrow> job list \<Rightarrow> gathered \<Rightarrow> file_write list" where
  "planned_writes mirror jobs g =
     [Jobs_Json jobs] @ (if mirror then [Jobs_Mirror jobs] else [])
     @ [Jobs_Xlsx jobs, Diagnostics_Json (ga_diagnostics g), Diagnostics_Xlsx (ga_diagnostics g),
        Rejected_Json (ga_rejects g), Rejected_Xlsx (ga_rejects g)]"

definition final_jobs :: "world \<Rightarrow> gathered \<Rightarrow> collect_error + job list" where
  "final_jobs w g =
     (case enrich_all (ga_jobs g) of
        None \<Rightarrow> Inl Enrich_Raised
      | Some jobs \<Rightarrow> (case merge_with_existing_jobs (wo_file w) jobs (ga_successful g) of
          None \<Rightarrow> Inl Merge_Raised | Some js \<Rightarrow> Inr js))"

text \<open>The result, and the writes that took place.\<close>

definition collect_jobs :: "collect_request \<Rightarrow> world \<Rightarrow> (collect_error + summary) \<times> file_write list" where
  "collect_jobs q w =
     (if rq_dry_run q then (Inr (build_summary q w 0 0 []), [])
      else case gather q w of
        Inl e \<Rightarrow> (Inl e, [])
      | Inr g \<Rightarrow>
          if wo_cancelled w then (Inl Interrupted, [])
          else case final_jobs w g of
            Inl e \<Rightarrow> (Inl e, [])
          | Inr js \<Rightarrow>
              let writes = planned_writes (wo_mirror w) js g in
              if wo_writes w < length writes then (Inl Write_Failed, take (wo_writes w) writes)
              else (Inr (build_summary q w (length (ga_jobs g)) (ga_errors g) (ga_diagnostics g)), writes))"

section \<open>Every company is accounted for\<close>

abbreviation names :: "row list \<Rightarrow> string multiset" where
  "names rows \<equiv> mset (map (\<lambda>r. cell r ''Company Name'') rows)"

lemma selected_omitted: "mset (selected n xs) + mset (omitted n xs) = mset xs"
  unfolding selected_def omitted_def by (simp flip: mset_append)

lemma mset_as_completed: "mset (map snd (as_completed rank xs)) = mset xs"
proof -
  have "mset (map snd (as_completed rank xs)) = image_mset snd (mset (enumerate 0 xs))"
    by (simp add: as_completed_def)
  also have "\<dots> = mset (map snd (enumerate 0 xs))" by (simp only: mset_map)
  finally show ?thesis by simp
qed

lemma build_diagnostic_fields:
  "build_diagnostic r co seen saved e t outcome = Some d \<Longrightarrow>
     dg_company d = cell r ''Company Name'' \<and> (dg_disposition d = ''retained'' \<longleftrightarrow> e \<noteq> [])"
  by (auto simp: build_diagnostic_def blank_diagnostic_def split: if_split_asm)

lemma valid_filter: "list_all is_valid_job_record (filter is_valid_job_record js)"
  by (simp add: list_all_iff)

lemma settle_failure_fields:
  assumes "settle_failure r a timeout partial = (jobs, Some d)"
  shows "dg_company d = cell r ''Company Name'' \<and> list_all is_valid_job_record jobs \<and> dg_disposition d = ''retained''"
proof -
  have "safe_collection_error timeout \<noteq> []" by (simp add: safe_collection_error_def)
  then show ?thesis using assms valid_filter
    by (auto simp: settle_failure_def Let_def dest!: build_diagnostic_fields split: option.split)
qed

lemma settle_success_fields:
  "settle_success r a js = Some (jobs, d) \<Longrightarrow>
     dg_company d = cell r ''Company Name'' \<and> list_all is_valid_job_record jobs \<and> dg_disposition d \<noteq> ''retained''"
  using valid_filter by (auto simp: settle_success_def Let_def bind_eq_Some_conv dest!: build_diagnostic_fields)

lemma settle_diagnostic:
  assumes "settle r a = Some (jobs, had_error, d)"
  shows "dg_company d = cell r ''Company Name'' \<and> list_all is_valid_job_record jobs
     \<and> (dg_disposition d = ''retained'' \<longleftrightarrow> had_error)"
  using assms settle_failure_fields settle_success_fields unfolding settle_def Let_def
  by (fastforce split: collected.split_asm option.split_asm prod.split_asm)

text \<open>A result's diagnostic names its company, and says that the stored jobs are retained exactly after an error.\<close>

definition result_ok :: "settled \<Rightarrow> bool" where
  "result_ok x \<longleftrightarrow> dg_company (se_diagnostic x) = cell (se_row x) ''Company Name''
     \<and> list_all is_valid_job_record (se_jobs x)
     \<and> (dg_disposition (se_diagnostic x) = ''retained'' \<longleftrightarrow> se_had_error x)"

lemma run_group_results:
  "run_group attempted completed xs = Inr (results, n) \<Longrightarrow>
     map se_row results = map fst xs \<and> map (dg_company \<circ> se_diagnostic) results = map (\<lambda>(r, _). cell r ''Company Name'') xs
     \<and> list_all result_ok results"
proof (induction attempted completed xs arbitrary: results n rule: run_group.induct)
  case (2 attempted completed r a rest)
  obtain jobs had_error d where s: "settle r a = Some (jobs, had_error, d)" "\<not> at_cancelled a" "\<not> at_callback_fails a"
    using 2(2) by (auto split: if_split_asm option.split_asm)
  then obtain rs where rest: "run_group attempted (completed + 1) rest = Inr (rs, n)"
    and results: "results = \<lparr>se_row = r, se_jobs = jobs, se_had_error = had_error,
      se_diagnostic = update_progress_diagnostic attempted (completed + 1) (at_elapsed a) d,
      se_rejects = co_rejected (at_collector a)\<rparr> # rs"
    using 2(2) by (auto simp: res_simps)
  show ?case
    using 2(1) [OF s(2) s(1) refl refl s(3) rest] settle_diagnostic [OF s(1)]
    by (simp add: results result_ok_def update_progress_diagnostic_def Let_def)
qed simp

lemma run_collection_group_results:
  assumes "run_collection_group w b attempted completed jobs = Inr (results, n)"
  shows "mset (map (dg_company \<circ> se_diagnostic) results) = names (map fst jobs)"
    "list_all result_ok results"
proof -
  define xs where "xs = map (\<lambda>(i, r, co). (r, wo_attempt w b i r co)) (as_completed (wo_rank w b) jobs)"
  have run: "run_group attempted completed xs = Inr (results, n)"
    using assms by (simp add: run_collection_group_def xs_def)
  have order: "map fst xs = map fst (map snd (as_completed (wo_rank w b) jobs))"
    by (auto simp: xs_def)
  have "mset (map fst xs) = image_mset fst (mset (map snd (as_completed (wo_rank w b) jobs)))"
    unfolding order by (rule mset_map)
  then have fst: "mset (map fst xs) = mset (map fst jobs)" unfolding mset_as_completed by simp
  note r = run_group_results [OF run]
  have "map (\<lambda>(r, _). cell r ''Company Name'') xs = map (\<lambda>r. cell r ''Company Name'') (map fst xs)" by (simp add: case_prod_beta)
  then have dg: "map (dg_company \<circ> se_diagnostic) results = map (\<lambda>r. cell r ''Company Name'') (map fst xs)" using r by (simp only:)
  show "mset (map (dg_company \<circ> se_diagnostic) results) = names (map fst jobs)"
    unfolding dg mset_map [of _ "map fst xs"] mset_map [of _ "map fst jobs"] fst by (rule refl)
  show "list_all result_ok results" using r by blast
qed

lemma first_diagnostics_names:
  "mset (map dg_company (first_diagnostics q rows)) + names (candidates q rows) = names (reviewed q rows)"
proof -
  have skip: "map dg_company (map build_skip_diagnostic rs) = map (\<lambda>r. cell r ''Company Name'') rs"
    and scope: "map dg_company (map (\<lambda>r. build_scope_retained_diagnostic r x) rs) = map (\<lambda>r. cell r ''Company Name'') rs" for rs x
    by (simp_all add: build_skip_diagnostic_def build_scope_retained_diagnostic_def blank_diagnostic_def Let_def)
  have limited: "names (omitted n rs) + names (selected n rs) = names rs" for n rs
    unfolding mset_map image_mset_union [symmetric] by (subst add.commute) (simp only: selected_omitted)
  have parted: "names (filter (\<lambda>r. \<not> usable r) rs) + names (filter usable rs) = names rs" for rs
    by (induction rs) simp_all
  show ?thesis
    unfolding first_diagnostics_def candidates_def map_append mset_append skip scope
    by (simp only: add.assoc limited parted)
qed

definition replaced :: "diagnostic \<Rightarrow> bool" where
  "replaced d \<longleftrightarrow> dg_disposition d \<noteq> ''retained''"

definition balanced :: "string multiset \<Rightarrow> gathered \<Rightarrow> bool" where
  "balanced M g \<longleftrightarrow> mset (map dg_company (ga_diagnostics g)) = M
     \<and> map (\<lambda>r. cell r ''Company Name'') (ga_successful g) = map dg_company (filter replaced (ga_diagnostics g))
     \<and> list_all is_valid_job_record (ga_jobs g)"

lemma balanced_start:
  "balanced (mset (map dg_company (first_diagnostics q rows)))
     \<lparr>ga_jobs = [], ga_successful = [], ga_diagnostics = first_diagnostics q rows, ga_rejects = [], ga_errors = 0\<rparr>"
proof -
  have "\<not> replaced d" if "d \<in> set (first_diagnostics q rows)" for d
    using that by (auto simp: first_diagnostics_def replaced_def build_skip_diagnostic_def build_scope_retained_diagnostic_def Let_def)
  then show ?thesis by (simp add: balanced_def)
qed

lemma successful_results:
  "list_all result_ok results \<Longrightarrow>
     map (\<lambda>r. cell r ''Company Name'') (map se_row (filter (\<lambda>x. \<not> se_had_error x) results))
       = map dg_company (filter replaced (map se_diagnostic results))
     \<and> list_all is_valid_job_record (concat (map se_jobs results))"
  by (induction results) (auto simp: result_ok_def replaced_def)

lemma balanced_add:
  assumes "balanced M g" "list_all result_ok results" "mset (map (dg_company \<circ> se_diagnostic) results) = N"
  shows "balanced (M + N) (add_results results g)"
  using assms successful_results [OF assms(2)] by (simp add: balanced_def add_results_def)

lemma balanced_more:
  "balanced M g \<Longrightarrow> filter replaced ds = [] \<Longrightarrow>
     balanced (M + mset (map dg_company ds)) (g\<lparr>ga_diagnostics := ga_diagnostics g @ ds\<rparr>)"
  by (simp add: balanced_def)

lemma balanced_retained:
  assumes "balanced M g"
  shows "balanced (M + names (map fst jobs)) (g\<lparr>ga_diagnostics := ga_diagnostics g
    @ map (\<lambda>(r, co). build_retained_diagnostic r co reason) jobs\<rparr>)"
proof -
  let ?ds = "map (\<lambda>(r, co). build_retained_diagnostic r co reason) jobs"
  have "map dg_company ?ds = map (\<lambda>r. cell r ''Company Name'') (map fst jobs)" "filter replaced ?ds = []"
    by (auto simp: build_retained_diagnostic_def blank_diagnostic_def replaced_def filter_empty_conv)
  then show ?thesis using balanced_more [OF assms, of ?ds] by (simp only:)
qed

lemma picked_rows: "those (map (picked q) rows) = Some jobs \<Longrightarrow> map fst jobs = rows"
  by (induction rows arbitrary: jobs) (auto simp: picked_def split: option.split_asm)

lemma names_parted: "names (map fst (filter (\<lambda>x. \<not> P x) jobs)) + names (map fst (filter P jobs)) = names (map fst jobs)"
  by (induction jobs) simp_all

lemma gather_balanced:
  assumes "gather q w = Inr g"
  shows "balanced (names (reviewed q (wo_rows w))) g"
proof -
  define start where "start = \<lparr>ga_jobs = [], ga_successful = [], ga_diagnostics = first_diagnostics q (wo_rows w),
    ga_rejects = [], ga_errors = 0\<rparr>"
  obtain jobs where jobs: "those (map (picked q) (candidates q (wo_rows w))) = Some jobs"
    using assms by (auto simp: gather_def split: option.split_asm)
  obtain plain n where plain: "run_collection_group w False (length jobs) 0 (filter (\<lambda>x. \<not> needs_browser x) jobs) = Inr (plain, n)"
    using assms by (auto simp: gather_def jobs Let_def res_simps)
  let ?M = "mset (map dg_company (first_diagnostics q (wo_rows w)))"
  have rows: "?M + names (map fst jobs) = names (reviewed q (wo_rows w))"
    unfolding picked_rows [OF jobs] by (rule first_diagnostics_names)
  have one: "balanced (?M + names (map fst (filter (\<lambda>x. \<not> needs_browser x) jobs))) (add_results plain start)"
    unfolding start_def
    by (rule balanced_add [OF balanced_start]) (use run_collection_group_results [OF plain] in blast)+
  have all: "?M + names (map fst (filter (\<lambda>x. \<not> needs_browser x) jobs)) + names (map fst (filter needs_browser jobs))
      = names (reviewed q (wo_rows w))"
    unfolding add.assoc names_parted by (rule rows)
  show ?thesis
  proof (cases "rq_browser q")
    case True
    then obtain rendered m where rendered:
      "run_collection_group w True (length jobs) n (filter needs_browser jobs) = Inr (rendered, m)"
      and g: "g = add_results rendered (add_results plain start)"
      using assms plain by (auto simp: gather_def jobs Let_def res_simps start_def)
    show ?thesis unfolding g all [symmetric]
      by (rule balanced_add [OF one]) (use run_collection_group_results [OF rendered] in blast)+
  next
    case False
    then have g: "g = (add_results plain start)\<lparr>ga_diagnostics := ga_diagnostics (add_results plain start)
        @ map (\<lambda>(r, co). build_retained_diagnostic r co ''Browser collection is disabled.'') (filter needs_browser jobs)\<rparr>"
      using assms plain by (simp add: gather_def jobs Let_def start_def)
    show ?thesis unfolding g all [symmetric] by (rule balanced_retained [OF one])
  qed
qed

section \<open>What a collection writes\<close>

lemma collect_jobs_writes:
  assumes "x \<in> set (snd (collect_jobs q w))"
  obtains g js where "gather q w = Inr g" "\<not> rq_dry_run q" "\<not> wo_cancelled w" "final_jobs w g = Inr js"
    "x \<in> set (planned_writes (wo_mirror w) js g)"
  using assms by (auto simp: collect_jobs_def Let_def split: if_split_asm sum.split_asm dest: in_set_takeD)

lemma final_jobs_cases:
  assumes "final_jobs w g = Inr js"
  obtains new_jobs ids where "enrich_all (ga_jobs g) = Some new_jobs" "those (map company_id_of (ga_successful g)) = Some ids"
    "js = merge_jobs ids (map (\<lambda>r. str_lower (cell r ''Company Name'')) (ga_successful g)) (load_existing_jobs (wo_file w)) new_jobs"
  using assms
  by (auto simp: final_jobs_def merge_with_existing_jobs_def bind_eq_Some_conv split: option.split_asm)

text \<open>Whether a job is one of a company that was collected, by identifier or else by name.\<close>

definition collected_company :: "row list \<Rightarrow> job \<Rightarrow> bool" where
  "collected_company rows j \<longleftrightarrow>
     (if strip (jb_company_id j) \<noteq> [] then Some (jb_company_id j) \<in> set (map company_id_of rows)
      else str_lower (jb_company_name j) \<in> set (map (\<lambda>r. str_lower (cell r ''Company Name'')) rows))"

lemma those_members: "those xs = Some ys \<Longrightarrow> Some y \<in> set xs \<longleftrightarrow> y \<in> set ys"
  by (induction xs arbitrary: ys) (auto split: option.split_asm)

lemma belongs_collected:
  "those (map company_id_of rows) = Some ids \<Longrightarrow>
     belongs_to ids (map (\<lambda>r. str_lower (cell r ''Company Name'')) rows) j = collected_company rows j"
  using those_members [of "map company_id_of rows" ids "jb_company_id j"] by (simp add: belongs_to_def collected_company_def)

text \<open>No other job of the list has the key of this one.\<close>

definition alone_in :: "job list \<Rightarrow> job \<Rightarrow> bool" where
  "alone_in js j \<longleftrightarrow> list_all (\<lambda>j'. dedupe_job_key j' = dedupe_job_key j \<longrightarrow> j' = j) js"

definition new_jobs_of :: "gathered \<Rightarrow> job list" where
  "new_jobs_of g = (case enrich_all (ga_jobs g) of Some js \<Rightarrow> js | None \<Rightarrow> [])"

definition merged_well :: "jobs_file \<Rightarrow> gathered \<Rightarrow> job list \<Rightarrow> bool" where
  "merged_well f g js \<longleftrightarrow> jobs_ok js
     \<and> list_all (\<lambda>j. j \<in> set (new_jobs_of g) \<or> j \<in> set (load_existing_jobs f) \<and> \<not> collected_company (ga_successful g) j) js
     \<and> list_all (\<lambda>j. if is_valid_job_record j \<and> \<not> collected_company (ga_successful g) j
           \<and> alone_in (load_existing_jobs f @ new_jobs_of g) j then j \<in> set js else True) (load_existing_jobs f)"

lemma final_jobs_merged:
  assumes "final_jobs w g = Inr js"
  shows "merged_well (wo_file w) g js"
proof -
  obtain new_jobs ids where x: "enrich_all (ga_jobs g) = Some new_jobs" "those (map company_id_of (ga_successful g)) = Some ids"
    "js = merge_jobs ids (map (\<lambda>r. str_lower (cell r ''Company Name'')) (ga_successful g)) (load_existing_jobs (wo_file w)) new_jobs"
    by (rule final_jobs_cases [OF assms])
  note belongs = belongs_collected [OF x(2)]
  have new: "new_jobs_of g = new_jobs" by (simp add: new_jobs_of_def x(1))
  have "jobs_ok js" unfolding x(3) by (rule merge_jobs_ok)
  moreover have "j \<in> set new_jobs \<or> j \<in> set (load_existing_jobs (wo_file w)) \<and> \<not> collected_company (ga_successful g) j"
    if "j \<in> set js" for j
    using merge_jobs_origin [OF that [unfolded x(3)]] unfolding belongs .
  moreover have "j \<in> set js"
    if "j \<in> set (load_existing_jobs (wo_file w))" "is_valid_job_record j" "\<not> collected_company (ga_successful g) j"
      "alone_in (load_existing_jobs (wo_file w) @ new_jobs) j" for j
    unfolding x(3) by (rule merge_jobs_keep) (use that in \<open>auto simp: belongs alone_in_def list_all_iff\<close>)
  ultimately show ?thesis by (simp add: merged_well_def new list_all_iff)
qed

text \<open>C32. Every company that a collection reviews is accounted for exactly once in the diagnostics it writes, whatever the
  collectors do and in whichever order they finish, and a company counts as refreshed, so that its stored
  jobs are replaced, exactly when its diagnostic does not say that they are retained.\<close>

theorem every_company_is_accounted_for:
  "list_all (\<lambda>x. case x of
       Diagnostics_Json ds \<Rightarrow> mset (map dg_company ds) = names (reviewed q (wo_rows w))
         \<and> (case gather q w of Inl _ \<Rightarrow> False
            | Inr g \<Rightarrow> map (\<lambda>r. cell r ''Company Name'') (ga_successful g)
                = map dg_company (filter (\<lambda>d. dg_disposition d \<noteq> ''retained'') ds))
     | _ \<Rightarrow> True) (snd (collect_jobs q w))"
  unfolding list_all_iff
proof
  fix x
  assume "x \<in> set (snd (collect_jobs q w))"
  then obtain g js where g: "gather q w = Inr g" "x \<in> set (planned_writes (wo_mirror w) js g)"
    by (rule collect_jobs_writes)
  have "balanced (names (reviewed q (wo_rows w))) g" by (rule gather_balanced [OF g(1)])
  moreover have "filter replaced = filter (\<lambda>d. dg_disposition d \<noteq> ''retained'')"
    by (simp add: replaced_def [abs_def])
  ultimately show "case x of
       Diagnostics_Json ds \<Rightarrow> mset (map dg_company ds) = names (reviewed q (wo_rows w))
         \<and> (case gather q w of Inl _ \<Rightarrow> False
            | Inr g \<Rightarrow> map (\<lambda>r. cell r ''Company Name'') (ga_successful g)
                = map dg_company (filter (\<lambda>d. dg_disposition d \<noteq> ''retained'') ds))
     | _ \<Rightarrow> True"
    using g unfolding planned_writes_def balanced_def by (auto split: file_write.split)
qed

text \<open>C33. The jobs file that a collection writes holds no two jobs with the same key and only valid ones; each of them was
  just collected, or was there before and is of a company that was not refreshed; and every
  valid earlier job of a company that was not refreshed (it failed, timed out, was skipped or only partly
  read) is still there, unless another job has its key.\<close>

theorem only_refreshed_companies_are_replaced:
  "list_all (\<lambda>x. case x of
       Jobs_Json js \<Rightarrow> (case gather q w of Inl _ \<Rightarrow> False | Inr g \<Rightarrow> merged_well (wo_file w) g js)
     | _ \<Rightarrow> True) (snd (collect_jobs q w))"
  unfolding list_all_iff
proof
  fix x
  assume "x \<in> set (snd (collect_jobs q w))"
  then obtain g js where g: "gather q w = Inr g" "final_jobs w g = Inr js" "x \<in> set (planned_writes (wo_mirror w) js g)"
    by (rule collect_jobs_writes)
  then show "case x of
       Jobs_Json js \<Rightarrow> (case gather q w of Inl _ \<Rightarrow> False | Inr g \<Rightarrow> merged_well (wo_file w) g js)
     | _ \<Rightarrow> True"
    using final_jobs_merged [OF g(2)] by (auto simp: planned_writes_def split: file_write.split)
qed

end
