(* ===== verification/Collection_Refresh.thy ===== *)
theory Collection_Refresh
  imports Job_Collection Repo_Jobs
begin

text \<open>
  A refresh of all jobs (\<open>run_job_collection\<close> in \<^verbatim>\<open>src/server.py\<close>): the stored jobs are exported to the jobs file, a
  collection merges what it finds into them, and the merged jobs replace the stored ones. How the columns that the model of
  the table keeps as uninterpreted texts are read into a job, and written from one, are parameters.
\<close>

section \<open>Export and import\<close>

text \<open>The order of \<open>list_jobs\<close>: by company name, then by title, without regard to the case of ASCII letters.\<close>

definition nocase :: "string \<Rightarrow> nat list" where
  "nocase s = map (\<lambda>c. if 65 \<le> code c \<and> code c \<le> 90 then code c + 32 else code c) s"

fun lex_le :: "nat list \<Rightarrow> nat list \<Rightarrow> bool" where
  "lex_le [] ys = True"
| "lex_le (x # xs) [] = False"
| "lex_le (x # xs) (y # ys) = (x < y \<or> x = y \<and> lex_le xs ys)"

definition row_before :: "job_record \<Rightarrow> job_record \<Rightarrow> bool" where
  "row_before a b \<longleftrightarrow>
     (if nocase (jr_company_name a) = nocase (jr_company_name b) then lex_le (nocase (jr_title a)) (nocase (jr_title b))
      else lex_le (nocase (jr_company_name a)) (nocase (jr_company_name b)))"

fun insert_row :: "string \<times> job_record \<Rightarrow> (string \<times> job_record) list \<Rightarrow> (string \<times> job_record) list" where
  "insert_row r [] = [r]"
| "insert_row r (x # xs) = (if row_before (snd r) (snd x) then r # x # xs else x # insert_row r xs)"

definition list_jobs :: "job_db \<Rightarrow> (string \<times> job_record) list" where
  "list_jobs db = foldr insert_row (db_jobs db) []"

lemma set_insert_row: "set (insert_row r xs) = insert r (set xs)"
  by (induction xs) auto

lemma set_list_jobs: "set (list_jobs db) = set (db_jobs db)"
proof -
  have "set (foldr insert_row rs []) = set rs" for rs
    by (induction rs) (simp_all add: set_insert_row)
  then show ?thesis by (simp add: list_jobs_def)
qed

definition job_row_to_api :: "((string \<times> string) list \<Rightarrow> job) \<Rightarrow> string \<times> job_record \<Rightarrow> job" where
  "job_row_to_api read_columns = (\<lambda>(i, row). (read_columns (jr_other row))
     \<lparr>jb_id := i, jb_company_id := or_empty (jr_company_id row), jb_company_name := jr_company_name row,
      jb_title := jr_title row, jb_location := jr_location row, jb_source_url := jr_source_url row,
      jb_status := jr_status row\<rparr>)"

definition source_of_job :: "(job \<Rightarrow> (string \<times> string) list) \<Rightarrow> job \<Rightarrow> source_job" where
  "source_of_job write_columns j =
     \<lparr>sj_id = Some (jb_id j), sj_legacy_id = None, sj_company_id = Some (jb_company_id j),
      sj_company_name = Some (jb_company_name j), sj_title = Some (jb_title j), sj_location = Some (jb_location j),
      sj_source_url = Some (jb_source_url j), sj_status = Some (jb_status j), sj_first_seen = None,
      sj_other = write_columns j\<rparr>"

section \<open>The refresh\<close>

datatype refresh_error = Collection_Raised collect_error | Storage_Raised repo_error

definition exported :: "((string \<times> string) list \<Rightarrow> job) \<Rightarrow> job_db \<Rightarrow> world \<Rightarrow> world" where
  "exported read_columns db w = w\<lparr>wo_file := Jobs (map (job_row_to_api read_columns) (list_jobs db))\<rparr>"

definition written_jobs :: "file_write list \<Rightarrow> job list" where
  "written_jobs writes = concat (map (\<lambda>x. case x of Jobs_Json js \<Rightarrow> js | _ \<Rightarrow> []) writes)"

definition run_job_collection ::
  "((string \<times> string) list \<Rightarrow> job) \<Rightarrow> (job \<Rightarrow> (string \<times> string) list) \<Rightarrow> string \<Rightarrow> collect_request \<Rightarrow> world \<Rightarrow> job_db
     \<Rightarrow> job_db \<times> (refresh_error + summary)" where
  "run_job_collection read_columns write_columns now q w db =
     (case collect_jobs q (exported read_columns db w) of
        (Inl e, _) \<Rightarrow> (db, Inl (Collection_Raised e))
      | (Inr s, writes) \<Rightarrow>
          if rq_dry_run q then (db, Inr s)
          else (case replace_jobs now (db_companies db) (map (source_of_job write_columns) (written_jobs writes)) db of
              (db', Inl e) \<Rightarrow> (db', Inl (Storage_Raised e))
            | (db', Inr _) \<Rightarrow> (db', Inr s)))"

section \<open>What survives a refresh\<close>

lemma blank_title:
  assumes "strip t = []"
  shows "normalize_job_title t = []"
proof -
  have "\<forall>c \<in> set t. is_space c"
  proof (rule ccontr)
    assume "\<not> (\<forall>c \<in> set t. is_space c)"
    then have "lstrip t \<noteq> []" by (auto simp: lstrip_def dropWhile_eq_Nil_conv)
    moreover have "\<not> is_space (hd (lstrip t))" using \<open>lstrip t \<noteq> []\<close> by (metis hd_dropWhile lstrip_def)
    ultimately have "rstrip (lstrip t) \<noteq> []"
      by (metis dropWhile_eq_Nil_conv list.set_sel(1) rev_is_Nil_conv rstrip_def set_rev)
    then show False using assms by (simp add: strip_def)
  qed
  then have "split_ws_from [] t = []" by (induction t) auto
  then show ?thesis by (simp add: normalize_job_title_def split_ws_def strip_label_def after_label_def)
qed

lemma valid_job_title: "is_valid_job_record j \<Longrightarrow> strip (jb_title j) \<noteq> []"
  using blank_title [of "jb_title j"]
  by (auto simp: is_valid_job_record_def is_valid_structured_job_title_def is_valid_job_title_def
      has_safe_job_title_shape_def Let_def split: if_split_asm)

lemma prepared_keeps_id:
  "job \<in> set jobs \<Longrightarrow> legacy_id_of job \<noteq> [] \<Longrightarrow> strip (or_empty (sj_title job)) \<noteq> [] \<Longrightarrow>
     legacy_id_of job \<in> set (map prepared_id (prepare_from companies used jobs)) \<union> set used"
proof (induction jobs arbitrary: used)
  case (Cons x jobs)
  show ?case
  proof (cases "legacy_id_of x = [] \<or> strip (or_empty (sj_title x)) = []")
    case True
    then show ?thesis using Cons by (auto simp: Let_def)
  next
    case False
    let ?i = "unused_id used x (legacy_id_of x)"
    have split: "set (map prepared_id (prepare_from companies used (x # jobs))) \<union> set used
      = set (map prepared_id (prepare_from companies (?i # used) jobs)) \<union> set (?i # used)"
      using False by (auto simp: Let_def or_empty_def [of "Some _"])
    show ?thesis
    proof (cases "job = x")
      case True
      have "legacy_id_of x \<in> set (?i # used)" by (simp add: unused_id_def)
      then show ?thesis unfolding split using True by blast
    next
      case False
      then show ?thesis unfolding split using Cons by (metis set_ConsD)
    qed
  qed
qed simp

lemma prune_keeps:
  assumes "i \<in> job_ids db" "i \<in> set keep"
  shows "i \<in> job_ids (prune_missing_jobs now None keep db)"
proof -
  obtain row where "(i, row) \<in> set (db_jobs db)" using assms(1) by auto
  moreover have "\<not> in_scope None keep (i, r)" for r using assms(2) by (simp add: in_scope_def)
  ultimately have "(i, row) \<in> set (db_jobs (prune_missing_jobs now None keep db))"
    by (force simp: prune_missing_jobs_eq delete_jobs_def archive_scoped_def Let_def)
  then show ?thesis by force
qed

lemma replace_keeps:
  assumes "i \<in> job_ids db" "job \<in> set jobs" "legacy_id_of job = i" "i \<noteq> []" "strip (or_empty (sj_title job)) \<noteq> []"
  shows "i \<in> job_ids (fst (replace_jobs now companies jobs db))"
proof (cases "fold_res (insert_job now) (prepare_jobs companies jobs) db")
  case (Inr db1)
  have "i \<in> set (map prepared_id (prepare_jobs companies jobs))"
    using prepared_keeps_id [of job jobs companies "[]"] assms by (simp add: prepare_jobs_def)
  moreover have "i \<in> job_ids db1" using insert_all_ids [OF Inr] assms(1) by blast
  ultimately show ?thesis using Inr
    by (simp add: replace_jobs_def store_jobs_def Let_def prune_keeps comp_def del: set_map)
qed (use assms(1) in \<open>simp add: replace_jobs_def store_jobs_def Let_def\<close>)

text \<open>A stored job that a refresh has no reason to touch: valid, of a company that was not refreshed, and alone with its
  key among the stored and the new jobs.\<close>

definition untouched :: "world \<Rightarrow> gathered \<Rightarrow> job \<Rightarrow> bool" where
  "untouched w g j \<longleftrightarrow> jb_id j \<noteq> [] \<and> is_valid_job_record j \<and> \<not> collected_company (ga_successful g) j
     \<and> alone_in (load_existing_jobs (wo_file w) @ new_jobs_of g) j"

lemma collect_jobs_done:
  assumes "collect_jobs q w = (Inr s, writes)" "\<not> rq_dry_run q"
  obtains g js where "gather q w = Inr g" "final_jobs w g = Inr js" "written_jobs writes = js"
  using assms
  by (auto simp: collect_jobs_def planned_writes_def written_jobs_def Let_def split: if_split_asm sum.split_asm)

lemma refresh_keeps:
  assumes r: "r \<in> set (db_jobs db)" and g: "gather q (exported read_columns db w) = Inr g"
    and j: "untouched (exported read_columns db w) g (job_row_to_api read_columns r)"
  shows "fst r \<in> job_ids (fst (run_job_collection read_columns write_columns now q w db))"
proof (cases "rq_dry_run q \<or> (\<exists>e writes. collect_jobs q (exported read_columns db w) = (Inl e, writes))")
  case True
  then show ?thesis using r
    by (auto simp: run_job_collection_def intro!: imageI split: prod.split sum.split)
next
  case False
  define job where "job = job_row_to_api read_columns r"
  have i: "jb_id job = fst r" by (simp add: job_def job_row_to_api_def case_prod_beta)
  obtain s writes where ran: "collect_jobs q (exported read_columns db w) = (Inr s, writes)"
    using False by (metis old.sum.exhaust surj_pair)
  then obtain js where js: "final_jobs (exported read_columns db w) g = Inr js" "written_jobs writes = js"
    using False g by (metis collect_jobs_done sum.inject(2))
  have "job \<in> set (load_existing_jobs (wo_file (exported read_columns db w)))"
    using r by (simp add: exported_def load_existing_jobs_def set_list_jobs job_def)
  then have "job \<in> set js"
    using final_jobs_merged [OF js(1)] j unfolding merged_well_def untouched_def list_all_iff job_def [symmetric] by auto
  then have "source_of_job write_columns job \<in> set (map (source_of_job write_columns) js)" by simp
  moreover have "legacy_id_of (source_of_job write_columns job) = fst r"
    "or_empty (sj_title (source_of_job write_columns job)) = jb_title job"
    by (simp_all add: source_of_job_def legacy_id_of_def or_empty_def i)
  moreover have "fst r \<noteq> []" "strip (jb_title job) \<noteq> []"
    using j valid_job_title [of job] i unfolding untouched_def job_def [symmetric] by auto
  moreover have "fst r \<in> job_ids db" using r by force
  ultimately have "fst r \<in> job_ids (fst (replace_jobs now (db_companies db) (map (source_of_job write_columns) js) db))"
    using replace_keeps by (metis (no_types, lifting))
  then show ?thesis
    using False by (cases "replace_jobs now (db_companies db) (map (source_of_job write_columns) js) db")
      (simp add: run_job_collection_def ran js(2) split: sum.split)
qed

text \<open>C11. A refresh of all jobs deletes no stored job of a company that it could not collect: whatever the collectors
  return or raise, in whichever order they finish, and whether or not the refresh is cancelled or a file cannot be
  written, every valid stored job of a company that was not refreshed is still stored afterwards, unless
  another job has its key.\<close>

theorem refresh_keeps_uncollected_jobs:
  "list_all (\<lambda>r. case gather q (exported read_columns db w) of
       Inl _ \<Rightarrow> r \<in> set (db_jobs (fst (run_job_collection read_columns write_columns now q w db)))
     | Inr g \<Rightarrow> if untouched (exported read_columns db w) g (job_row_to_api read_columns r)
         then fst r \<in> job_ids (fst (run_job_collection read_columns write_columns now q w db)) else True)
   (db_jobs db)"
proof -
  have "r \<in> set (db_jobs (fst (run_job_collection read_columns write_columns now q w db)))"
    if "r \<in> set (db_jobs db)" "gather q (exported read_columns db w) = Inl e" for r e
    using that by (simp add: run_job_collection_def collect_jobs_def split: prod.split sum.split)
  then show ?thesis unfolding list_all_iff using refresh_keeps
    by (auto split: sum.split)
qed

text \<open>What the theorem leaves out does happen: a job without a source URL, which an import may store, is deleted by a
  refresh that reviews no company at all.\<close>

definition quiet_request :: collect_request where
  "quiet_request = \<lparr>rq_ids = None, rq_filter = [], rq_filters = [], rq_limit = 0, rq_dry_run = False, rq_debug = False,
     rq_browser = True\<rparr>"

definition quiet_world :: "(bool \<Rightarrow> nat \<Rightarrow> row \<Rightarrow> collector \<Rightarrow> attempt) \<Rightarrow> world" where
  "quiet_world runs = \<lparr>wo_rows = [], wo_file = No_File, wo_rank = (\<lambda>_ i. i), wo_attempt = runs, wo_cancelled = False,
     wo_seconds = 1, wo_mirror = False, wo_writes = 6\<rparr>"

definition imported_row :: job_record where
  "imported_row = \<lparr>jr_legacy_id = ''j1'', jr_company_id = Some ''c1'', jr_company_name = ''Bank'', jr_title = ''Branch Teller'',
     jr_location = ''Denver'', jr_source_url = [], jr_status = ''Open'', jr_other = [], jr_first_seen = [],
     jr_created = [], jr_updated = []\<rparr>"

lemma imported_job_is_lost:
  "db_jobs (fst (run_job_collection read_columns write_columns now quiet_request (quiet_world runs)
     (empty_db\<lparr>db_jobs := [(''j1'', imported_row)]\<rparr>))) = []"
proof -
  let ?db = "empty_db\<lparr>db_jobs := [(''j1'', imported_row)]\<rparr>"
  let ?w = "exported read_columns ?db (quiet_world runs)"
  define g where "g = \<lparr>ga_jobs = [], ga_successful = [], ga_diagnostics = [], ga_rejects = [], ga_errors = 0\<rparr>"
  have "gather quiet_request ?w = Inr g"
    by (simp add: gather_def candidates_def reviewed_def selected_def omitted_def first_diagnostics_def quiet_request_def
        quiet_world_def exported_def run_collection_group_def as_completed_def add_results_def g_def Let_def)
  moreover have "\<not> is_valid_job_record (job_row_to_api read_columns (''j1'', imported_row))"
    by (simp add: is_valid_job_record_def job_row_to_api_def imported_row_def Let_def)
  then have "final_jobs ?w g = Inr []"
    by (simp add: final_jobs_def g_def enrich_all_def merge_with_existing_jobs_def merge_jobs_def by_key_def
        exported_def quiet_world_def load_existing_jobs_def list_jobs_def empty_db_def belongs_to_def)
  ultimately have "\<exists>s. collect_jobs quiet_request ?w = (Inr s, planned_writes False [] g)"
    by (simp add: collect_jobs_def quiet_request_def exported_def quiet_world_def planned_writes_def Let_def)
  then have "fst (run_job_collection read_columns write_columns now quiet_request (quiet_world runs) ?db)
      = fst (replace_jobs now [(''c1'', ''Bank'')] [] ?db)"
    by (auto simp: run_job_collection_def quiet_request_def planned_writes_def written_jobs_def empty_db_def
        split: prod.split sum.split)
  then show ?thesis
    by (simp add: replace_jobs_def store_jobs_def prepare_jobs_def prune_missing_jobs_def delete_jobs_def in_scope_def
        empty_db_def Let_def)
qed

end
