(* ===== verification/Spec2Isabelle.thy ===== *)
theory Spec2Isabelle
  imports Run_Lifecycle Email_Scheduler Outbound_Requests Browser_Guard Browser_Procs Browser_Boundary
    Egress_Proxy Import_Guard Job_Validation Repo_Jobs Repo_Companies Resume_Matching
    Backup_Retention Health_Cache Api_Lifecycle Collection_Refresh
begin

text \<open>
  Opportunity Radar: a verification development for the Python backend of the repository. Source
  paths below are relative to \<^verbatim>\<open>src/\<close>.

  \<^bold>\<open>The program.\<close> A FastAPI server (\<^verbatim>\<open>server.py\<close>) keeps companies, job postings, applications and a resume in one
  SQLite database. Users log in through a portal (\<^verbatim>\<open>backend/blueash_auth.py\<close>). Everything that writes, be it a
  request, a maintenance run (\<^verbatim>\<open>backend/utility_runs.py\<close>), a scheduled job (\<^verbatim>\<open>backend/maintenance_scheduler.py\<close>) or the
  mail digest (\<^verbatim>\<open>backend/email_service.py\<close>, \<^verbatim>\<open>backend/email_scheduler.py\<close>), holds one process-wide mutation gate
  (\<^verbatim>\<open>backend/operation_gate.py\<close>). Whatever connects to the network goes through an outbound policy
  (\<^verbatim>\<open>backend/outbound_security.py\<close>); browsers moreover run behind a proxy of their own (\<^verbatim>\<open>backend/browser_egress_proxy.py\<close>).
  Collected postings are validated (\<^verbatim>\<open>job_validation.py\<close>), stored (\<^verbatim>\<open>backend/repository.py\<close>) and matched against the
  resume (\<^verbatim>\<open>backend/resume_matching.py\<close>). Backups are made and restored by \<^verbatim>\<open>backend/backup_restore.py\<close>, files written
  through \<^verbatim>\<open>backend/file_security.py\<close>, imports checked by \<^verbatim>\<open>backend/import_security.py\<close>, and readiness is probed
  by \<^verbatim>\<open>backend/health.py\<close>.

  \<^bold>\<open>Conventions.\<close> A state is a record with the fields of the class or the columns of the table; an operation takes
  it and returns it updated. An exception is the left side of a sum, or \<open>None\<close> where there is only one; an error the
  code does not expect and nobody catches is a constructor of its own (\<open>Crashed\<close>, \<open>Other_Error\<close>), so that such a path is a
  result like any other. Threads are steps: an operation is cut where the code gives up its lock, and what
  other threads do in between is another step (an inductive relation in \<^verbatim>\<open>Operation_Gate\<close>, \<^verbatim>\<open>Run_Lifecycle\<close>
  and \<^verbatim>\<open>Browser_Lease\<close>; lists of events in \<^verbatim>\<open>Auth_Sessions\<close>, \<^verbatim>\<open>Health_Cache\<close> and \<^verbatim>\<open>Api_System\<close>). Strings are
  lists of the 256 characters of HOL, which stand for the code points below 256; where code points beyond them decide
  (\<^verbatim>\<open>Return_Paths\<close>) they are numbers. Clocks are exact rationals, and each reading of a clock, a random token or a fresh
  identifier is an argument.

  \<^bold>\<open>Foundations.\<close> \<^verbatim>\<open>Prelude\<close> holds results, string methods, \<open>dict.fromkeys\<close>, \<open>round\<close> and the lemmas on them that all
  components share. \<^verbatim>\<open>Py_Stdlib\<close> has decimal numerals, JSON values and ISO times; \<^verbatim>\<open>Py_Crypto\<close> SHA-256, HMAC, base64 and UTF-8
  on words; \<^verbatim>\<open>Py_Url\<close>, \<^verbatim>\<open>Py_Url_Join\<close> and \<^verbatim>\<open>Py_Ip\<close> the parts of \<open>urllib.parse\<close> and \<open>ipaddress\<close> that decide where a request
  goes, with the round trip of printed addresses; \<^verbatim>\<open>Py_Json\<close> and \<^verbatim>\<open>Json_Parse\<close> the JSON text of strings and dictionaries and
  a scanner for JSON, with their round trip; \<^verbatim>\<open>Py_Files\<close> a file system in which every system call may fail, programs over it
  and a calculus of preconditions for them.

  \<^bold>\<open>Gate, runs and schedulers.\<close>
  \<^item> \<^verbatim>\<open>Operation_Gate\<close>: \<open>MutationGate\<close>, its leases and the stall watcher. The locale \<open>mutation_gate\<close> states what the
    clients of a gate rely on; it is interpreted on the model of the class.
  \<^item> \<^verbatim>\<open>Utility_Runs\<close>, \<^verbatim>\<open>Run_Execution\<close>, \<^verbatim>\<open>Run_Lifecycle\<close>: \<open>UtilityRunManager\<close>. The table of runs with its unique index, starting
    and cancelling, the body of a run, the reconciliation after a restart, and all of it under concurrency. Shown: a run's
    status only moves forward, an executing run holds the gate alone, no run is left active or holding the gate.
  \<^item> \<^verbatim>\<open>Maintenance_Scheduler\<close>, \<^verbatim>\<open>Email_Scheduler\<close>: the two polls. A date is claimed before the work and served once.

  \<^bold>\<open>Mail.\<close> \<^verbatim>\<open>Secret_Cipher\<close> stores the SMTP password (round trip, and only authenticated data decrypt); \<^verbatim>\<open>Email_Settings\<close> is the
  settings row and its validation; \<^verbatim>\<open>Email_Digest\<close> computes the differences since the last digest, the message and the
  SMTP session. Shown: the checkpoint moves only when a digest was sent, credentials travel over TLS, texts are escaped.

  \<^bold>\<open>Network.\<close> \<^verbatim>\<open>Outbound_Policy\<close> checks a URL and all addresses of its host and pins the connection to them (locale
  \<open>destination_policy\<close>, interpreted there); \<^verbatim>\<open>Outbound_Requests\<close> follows redirects; \<^verbatim>\<open>Browser_Guard\<close> settles every request
  that a page makes; \<^verbatim>\<open>Browser_Lease\<close>, \<^verbatim>\<open>Browser_Procs\<close> and \<^verbatim>\<open>Browser_Boundary\<close> admit one browser, end its processes and check
  the conditions of a launch; \<^verbatim>\<open>Egress_Proxy\<close> is the proxy of the browser. Shown: no connection to an address that is not
  public, credentials stay with their origin, redirects are bounded, failures refuse.

  \<^bold>\<open>Data.\<close> \<^verbatim>\<open>Job_Validation\<close> decides what is a job title; \<^verbatim>\<open>Repo_Jobs\<close> and \<^verbatim>\<open>Repo_Companies\<close> are the tables of the
  repository (association lists over their keys; \<^verbatim>\<open>Prelude\<close> states the laws of such a table in the locale \<open>keyed_table\<close>); \<^verbatim>\<open>Resume_Matching\<close> is the score and when a stored score is still
  current; \<^verbatim>\<open>Import_Guard\<close> limits uploads, neutralises cells and replaces files atomically. Shown: references stay valid,
  names stay unique, applications survive a collection, snapshots never erase.

  \<^bold>\<open>Backups.\<close> \<^verbatim>\<open>Backup_Manifest\<close> and \<^verbatim>\<open>Backup_Create\<close> make and check artifacts; \<^verbatim>\<open>Backup_Restore\<close> is the restore as the code
  has it; \<^verbatim>\<open>Backup_Rollback\<close> and \<^verbatim>\<open>Restore_Switch\<close> show that it refines an atomic switch: whichever system calls fail, the target
  holds the old files or the new database, unless the result says that the rollback failed; \<^verbatim>\<open>Backup_Retention\<close> shows what
  pruning keeps.

  \<^bold>\<open>Login.\<close> \<^verbatim>\<open>Return_Paths\<close> is \<open>safe_return_path\<close>; \<^verbatim>\<open>Auth_Config\<close> \<open>validate_auth_configuration\<close>; \<^verbatim>\<open>Auth_Handoff\<close> the signed
  cookie between the start and the return of a login; \<^verbatim>\<open>Auth_Sessions\<close> the client of the portal with the cache of identities that
  all threads share; \<^verbatim>\<open>Auth_Server\<close> the login endpoints, cookies and middleware. Shown: a login leads back into the
  application, a completed login is genuine, a session exists only after one, and identities are fresh.

  \<^bold>\<open>Server.\<close> \<^verbatim>\<open>Api_Server\<close> says how handlers run (the gate around writers, tools, uploads, runs that are started or
  cancelled); \<^verbatim>\<open>Api_Endpoints\<close> lists the 46 endpoints; \<^verbatim>\<open>Api_Requests\<close> takes a request through middleware, routing,
  dependencies and handler; \<^verbatim>\<open>Api_System\<close> lets requests, portal answers, logouts and background runs interleave;
  \<^verbatim>\<open>Api_Lifecycle\<close> starts and stops the server; \<^verbatim>\<open>Health\<close> and \<^verbatim>\<open>Health_Cache\<close> are the readiness probe. The theorem of this theory
  puts them together. A handler's work under the gate is one step here; that a second request meanwhile finds the
  gate held is the subject of \<^verbatim>\<open>Operation_Gate\<close>.

  \<^bold>\<open>Collection.\<close> \<^verbatim>\<open>Py_Regex\<close> is a backtracking matcher for the part of \<open>re\<close> in use. \<^verbatim>\<open>Pay_Info\<close> reads pay and rank from texts
  (\<^verbatim>\<open>job_enrichment.py\<close>), \<^verbatim>\<open>Job_Platforms\<close> recognises the systems of vendors by host and makes board URLs canonical
  (\<^verbatim>\<open>job_platforms.py\<close>), \<^verbatim>\<open>Collector_Base\<close> is the bookkeeping of a collector and the choice of one (\<^verbatim>\<open>collectors/base.py\<close>).
  \<^verbatim>\<open>Job_Merge\<close> holds job records, their enrichment, validity and keys, and the merge with stored ones, \<^verbatim>\<open>Job_Collection\<close> the
  collection (both \<^verbatim>\<open>job_tools.py\<close>): collectors run in two groups and finish in any order, their results, errors and partial
  results are settled, files are written in turn. \<^verbatim>\<open>Collection_Refresh\<close> is the refresh that exports the database, collects and stores
  the merged jobs (\<open>run_job_collection\<close> of \<^verbatim>\<open>server.py\<close>). Shown: pay comes from a passage of the text and is plausible for its
  period, every company is accounted for, only the jobs of companies that were refreshed are replaced, and a refresh deletes no
  valid job of a company it could not collect; and what this leaves open, a stored job without a URL is deleted by any refresh.

  \<^bold>\<open>Bounds and fuel.\<close> All limits are those of the source (80 characters of an operation type, 64 KiB
  of proxy header and of a portal response, 25 MiB of import, 2048 cached identities, 4096 characters of a handoff
  cookie, four further decodings of a return path, and so on); they are definitions of their own. One function takes fuel:
  \<open>scan_value\<close> of \<^verbatim>\<open>Json_Parse\<close>, started with twice the length of the text and two, which is enough because every two calls
  consume a character; \<open>loads_compact\<close> shows it for the texts the code writes. All other loops are structural or have a measure.

  \<^bold>\<open>Parameters.\<close> What other programs answer is an argument: SQLite (whether a statement fails, what it says of a database file),
  the operating system (system calls, process tables, observations of the runtime), resolver and IDNA codec, the hops of
  the \<open>requests\<close> library, the SMTP server, the portal, the time-zone database, and the workers of maintenance runs.

  \<^bold>\<open>Not modelled.\<close> The collectors of the single job boards (\<^verbatim>\<open>collectors\<close>) and the heuristics around them (\<^verbatim>\<open>job_evidence.py\<close>,
  \<^verbatim>\<open>job_board_discovery.py\<close>, \<^verbatim>\<open>search_tools.py\<close>, \<^verbatim>\<open>website_tools.py\<close>,
  \<^verbatim>\<open>website_audit.py\<close>, \<^verbatim>\<open>browser_tools.py\<close>, \<^verbatim>\<open>backend/company_information.py\<close>) read pages of third parties with regular expressions,
  an HTML parser and a browser; reading and writing office formats and PDF is done by packages (\<^verbatim>\<open>excel_tools.py\<close>,
  \<^verbatim>\<open>backend/exports.py\<close>, \<^verbatim>\<open>backend/resume_files.py\<close>, \<^verbatim>\<open>company_store.py\<close>); \<^verbatim>\<open>backend/migration.py\<close> converts old spreadsheets once;
  \<^verbatim>\<open>main.py\<close>, \<^verbatim>\<open>backend/cli.py\<close>, \<^verbatim>\<open>backend/utility_tasks.py\<close> and \<^verbatim>\<open>scripts\<close> call the above in turn; \<^verbatim>\<open>backend/browser_netns_runner.py\<close>
  configures the kernel. Of modelled files are left out: the payloads of answers and the framework's validation of parameters
  (\<^verbatim>\<open>server.py\<close>), browsing queries (\<^verbatim>\<open>backend/repository.py\<close>), status read-outs and MIME encoding (\<^verbatim>\<open>backend/email_service.py\<close>),
  pay given as JSON-LD (\<^verbatim>\<open>job_enrichment.py\<close>), the samples copied into diagnostics and the cells of spreadsheets
  (\<^verbatim>\<open>job_tools.py\<close>), the texts of most messages and logs throughout.
\<close>

section \<open>Changes, gate and sessions together\<close>

text \<open>C2. On the production site every change that any sequence of requests makes, however they interleave with
  each other, with the portal's answers, with logouts and with the background runs, is made for the one
  trusted administrator: the portal named this user for the session of the request, within the cache time and
  within the session's lifetime, and the request came from the application's own page.\<close>

theorem every_change_has_a_fresh_administrator:
  "if ac_env c = ''production'' \<and> ac_mode c = ''portal_handoff''
   then (let sv = run_server c pe st events in
     list_all (\<lambda>(rq, found, t). case found of
         None \<Rightarrow> False
       | Some i \<Rightarrow> id_user i = canonical_uuid (ac_trusted c) \<and> id_role i = ''ADMINISTRATOR''
           \<and> origin_allowed c rq
           \<and> fresh_at c pe (se_confirmed (sv_sessions sv)) (cache_key (rq_session rq), i, t))
       (sv_changes sv))
   else True"
proof (cases "ac_env c = ''production'' \<and> ac_mode c = ''portal_handoff''")
  case True
  let ?sv = "run_server c pe st events"
  have ok: "sessions_ok c pe (sv_sessions ?sv)" "\<forall>x \<in> set (sv_changes ?sv). accounted c (se_served (sv_sessions ?sv)) x"
    using run_server_ok [of c pe st events] True by (simp_all add: server_ok_def)
  have "id_user i = canonical_uuid (ac_trusted c) \<and> id_role i = ''ADMINISTRATOR''"
    if "fresh_at c pe (se_confirmed (sv_sessions ?sv)) (k, i, t)" "may_administer c i" for k i t
    using fresh_administrator [OF that] True by simp
  moreover have "fresh_at c pe (se_confirmed (sv_sessions ?sv)) x" if "x \<in> set (se_served (sv_sessions ?sv))" for x
    using ok(1) that by (simp add: sessions_ok_def)
  ultimately show ?thesis
    using True ok(2) by (fastforce simp: list_all_iff accounted_def Let_def)
qed auto

end
